(* ===== verification/Prelude.thy ===== *)
theory Prelude
  imports Complex_Main "HOL-Library.AList" "HOL-Library.Word"
begin

text \<open>
  What every component shares: the parts of the JavaScript standard library that the sources use
  (\<open>Array.prototype.find\<close>, \<open>findIndex\<close>, insertion-ordered \<open>Map\<close> and \<open>Set\<close>, \<open>%\<close>, string
  trimming, lower-casing, joining, and the printing of integers), mapping with exceptions, and the
  collections of rewrite rules that carry the component proofs.

  Numbers that the sources type as \<open>number\<close> and use as identifiers, addresses, grid coordinates and
  angles are \<open>int\<close> or \<open>nat\<close>. A \<open>string\<close> is a list of 8-bit code units (Latin-1).
\<close>

named_theorems jslib "JavaScript library functions used by the sources"
named_theorems ops "definitions of component operations"

subsection \<open>Arrays\<close>

fun find_index :: "('a \<Rightarrow> bool) \<Rightarrow> 'a list \<Rightarrow> nat option" where
  "find_index p [] = None"
| "find_index p (x # xs) = (if p x then Some 0 else map_option Suc (find_index p xs))"

lemma find_index_None [simp]: "find_index p xs = None \<longleftrightarrow> (\<forall>x\<in>set xs. \<not> p x)"
  by (induction xs) auto

lemma find_index_SomeD:
  "find_index p xs = Some i \<Longrightarrow> i < length xs \<and> p (xs ! i) \<and> (\<forall>j<i. \<not> p (xs ! j))"
proof (induction xs arbitrary: i)
  case (Cons x xs)
  then show ?case
    by (auto split: if_splits simp: less_Suc_eq_0_disj)
qed simp

lemma find_SomeD: "find p xs = Some x \<Longrightarrow> x \<in> set xs \<and> p x"
  by (auto simp: find_Some_iff)

lemma find_is_Some: "x \<in> set xs \<Longrightarrow> p x \<Longrightarrow> \<exists>y. find p xs = Some y"
  by (metis find_None_iff not_None_eq)

lemma find_split: "find p xs = Some x \<Longrightarrow> \<exists>ys zs. xs = ys @ x # zs \<and> list_all (\<lambda>y. \<not> p y) ys \<and> p x"
proof (induction xs)
  case (Cons a xs)
  show ?case
  proof (cases "p a")
    case True
    then show ?thesis using Cons.prems by (intro exI [of _ "[]"] exI [of _ xs]) simp
  next
    case False
    with Cons obtain ys zs where "xs = ys @ x # zs" "list_all (\<lambda>y. \<not> p y) ys" "p x" by auto
    with False show ?thesis by (intro exI [where P = "\<lambda>us. \<exists>vs. a # xs = us @ x # vs \<and> list_all (\<lambda>y. \<not> p y) us \<and> p x" and x = "a # ys"] exI) simp
  qed
qed simp

lemma find_map_conv: "find p (map f xs) = map_option f (find (p \<circ> f) xs)"
  by (induction xs) auto

lemma find_append: "find p (xs @ ys) = (case find p xs of Some x \<Rightarrow> Some x | None \<Rightarrow> find p ys)"
  by (induction xs) auto

lemma find_eq_unique:
  assumes "x \<in> set xs" and "p x" and "\<And>y. y \<in> set xs \<Longrightarrow> p y \<Longrightarrow> y = x"
  shows "find p xs = Some x"
proof -
  obtain y where "find p xs = Some y" using find_is_Some [of x xs p] assms by blast
  with find_SomeD [of p xs y] assms(3) show ?thesis by metis
qed

text \<open>\<open>update_first\<close> mutates the first element that satisfies the predicate, which is what the
  sources do with the reference that \<open>find\<close> returns.\<close>

fun update_first :: "('a \<Rightarrow> bool) \<Rightarrow> ('a \<Rightarrow> 'a) \<Rightarrow> 'a list \<Rightarrow> 'a list" where
  "update_first p f [] = []"
| "update_first p f (x # xs) = (if p x then f x # xs else x # update_first p f xs)"

lemma length_update_first [simp]: "length (update_first p f xs) = length xs"
  by (induction xs) auto

lemma find_update_first:
  assumes "\<And>x. p (f x) = p x"
  shows "find p (update_first p f xs) = map_option f (find p xs)"
  by (induction xs) (auto simp: assms)

text \<open>Reading a list out of range gives \<open>undefined\<close>.\<close>

definition nth_opt :: "'a list \<Rightarrow> nat \<Rightarrow> 'a option" where
  "nth_opt xs i = (if i < length xs then Some (xs ! i) else None)"

text \<open>A loop that pushes what a step yields and \<open>continue\<close>s when it yields nothing.\<close>

fun filter_some :: "('a \<Rightarrow> 'b option) \<Rightarrow> 'a list \<Rightarrow> 'b list" where
  "filter_some f [] = []"
| "filter_some f (x # xs) = (case f x of None \<Rightarrow> filter_some f xs | Some y \<Rightarrow> y # filter_some f xs)"

lemma set_filter_some: "set (filter_some f xs) = {y. \<exists>x\<in>set xs. f x = Some y}"
  by (induction xs) (auto split: option.splits)

lemma filter_some_all: "(\<And>x. x \<in> set xs \<Longrightarrow> f x = Some (g x)) \<Longrightarrow> filter_some f xs = map g xs"
  by (induction xs) auto

subsection \<open>Insertion-ordered sets\<close>

definition set_add :: "'a \<Rightarrow> 'a list \<Rightarrow> 'a list" where
  "set_add x xs = (if x \<in> set xs then xs else xs @ [x])"

definition set_delete :: "'a \<Rightarrow> 'a list \<Rightarrow> 'a list" where
  "set_delete x xs = filter (\<lambda>y. y \<noteq> x) xs"

lemma set_set_add [simp]: "set (set_add x xs) = insert x (set xs)"
  by (auto simp: set_add_def)

lemma set_set_delete [simp]: "set (set_delete x xs) = set xs - {x}"
  by (auto simp: set_delete_def)

lemma distinct_set_add [simp]: "distinct (set_add x xs) = distinct xs"
  by (auto simp: set_add_def)

lemma distinct_set_delete [simp]: "distinct xs \<Longrightarrow> distinct (set_delete x xs)"
  by (simp add: set_delete_def)

subsection \<open>Arithmetic\<close>

text \<open>The remainder \<open>a % b\<close> takes the sign of its left operand.\<close>

definition js_rem :: "int \<Rightarrow> int \<Rightarrow> int" where
  "js_rem a b = sgn a * (\<bar>a\<bar> mod \<bar>b\<bar>)"

lemma js_rem_nonneg: "0 \<le> a \<Longrightarrow> 0 < b \<Longrightarrow> js_rem a b = a mod b"
  by (cases "a = 0") (auto simp: js_rem_def)

lemma js_rem_bounds: "0 < b \<Longrightarrow> - b < js_rem a b \<and> js_rem a b < b"
proof -
  assume b: "0 < b"
  then have "0 \<le> \<bar>a\<bar> mod \<bar>b\<bar> \<and> \<bar>a\<bar> mod \<bar>b\<bar> < b" by simp
  then show ?thesis by (auto simp: js_rem_def sgn_if)
qed

lemma js_rem_cong: "0 < b \<Longrightarrow> js_rem a b mod b = a mod b"
proof -
  assume b: "0 < b"
  show ?thesis
  proof (cases "0 \<le> a")
    case True
    then show ?thesis using b by (simp add: js_rem_nonneg)
  next
    case False
    then have "js_rem a b = - ((- a) mod b)" using b by (simp add: js_rem_def)
    moreover have "(- ((- a) mod b)) mod b = (- (- a)) mod b" by (rule mod_minus_eq)
    ultimately show ?thesis by simp
  qed
qed

text \<open>The idiom \<open>((a % n) + n) % n\<close>, and \<open>let r = a % n; if (r < 0) r += n\<close>.\<close>

lemma js_rem_wrap: "0 < n \<Longrightarrow> js_rem (js_rem a n + n) n = a mod n"
proof -
  assume n: "0 < n"
  have "0 \<le> js_rem a n + n" using js_rem_bounds [OF n, of a] by linarith
  then have "js_rem (js_rem a n + n) n = (js_rem a n + n) mod n"
    using n by (simp add: js_rem_nonneg)
  also have "\<dots> = a mod n" using js_rem_cong [OF n, of a] by simp
  finally show ?thesis .
qed

lemma js_rem_fix: "0 < n \<Longrightarrow> (if js_rem a n < 0 then js_rem a n + n else js_rem a n) = a mod n"
proof -
  assume n: "0 < n"
  note b = js_rem_bounds [OF n, of a] and c = js_rem_cong [OF n, of a]
  show ?thesis
  proof (cases "js_rem a n < 0")
    case True
    then have "(js_rem a n + n) mod n = js_rem a n + n" using b by (intro mod_pos_pos_trivial) auto
    then show ?thesis using True c by simp
  next
    case False
    then have "js_rem a n mod n = js_rem a n" using b by (intro mod_pos_pos_trivial) auto
    then show ?thesis using False c by simp
  qed
qed

definition clamp :: "int \<Rightarrow> int \<Rightarrow> int \<Rightarrow> int" where
  "clamp lo hi v = max lo (min hi v)"

lemma clamp_range: "lo \<le> hi \<Longrightarrow> lo \<le> clamp lo hi v \<and> clamp lo hi v \<le> hi"
  by (auto simp: clamp_def)

lemma clamp_id: "lo \<le> v \<Longrightarrow> v \<le> hi \<Longrightarrow> clamp lo hi v = v"
  by (simp add: clamp_def)

subsection \<open>Exceptions\<close>

text \<open>\<open>Inl\<close> is a thrown error; \<open>map_r\<close> is \<open>array.map(f)\<close> for an \<open>f\<close> that may throw.\<close>

definition bind_r :: "'e + 'a \<Rightarrow> ('a \<Rightarrow> 'e + 'b) \<Rightarrow> 'e + 'b" where
  "bind_r r k = (case r of Inl e \<Rightarrow> Inl e | Inr x \<Rightarrow> k x)"

fun map_r :: "('a \<Rightarrow> 'e + 'b) \<Rightarrow> 'a list \<Rightarrow> 'e + 'b list" where
  "map_r f [] = Inr []"
| "map_r f (x # xs) = bind_r (f x) (\<lambda>y. bind_r (map_r f xs) (\<lambda>ys. Inr (y # ys)))"

lemma bind_r_simps [simp]: "bind_r (Inl e) k = Inl e" "bind_r (Inr x) k = k x"
  by (simp_all add: bind_r_def)

lemma bind_r_Inr: "bind_r r k = Inr y \<longleftrightarrow> (\<exists>x. r = Inr x \<and> k x = Inr y)"
  by (cases r) auto

lemma map_r_Inr_iff: "map_r f xs = Inr ys \<longleftrightarrow> list_all2 (\<lambda>x y. f x = Inr y) xs ys"
proof (induction xs arbitrary: ys)
  case (Cons x xs)
  then show ?case by (cases ys) (auto simp: bind_r_Inr)
qed auto

lemma map_r_Inr_map: "(\<And>x. x \<in> set xs \<Longrightarrow> f x = Inr (g x)) \<Longrightarrow> map_r f xs = Inr (map g xs)"
  by (induction xs) auto

lemma map_r_inverse:
  assumes "map_r f xs = Inr ys"
    and "\<And>x y. x \<in> set xs \<Longrightarrow> f x = Inr y \<Longrightarrow> g y = Inr (h x)"
  shows "map_r g ys = Inr (map h xs)"
  using assms
proof (induction xs arbitrary: ys)
  case (Cons x xs)
  from Cons.prems(1) obtain z zs where z: "f x = Inr z" and zs: "map_r f xs = Inr zs" and ys: "ys = z # zs"
    by (auto simp: bind_r_Inr)
  have gz: "g z = Inr (h x)" using Cons.prems(2) [of x z] z by simp
  have "map_r g zs = Inr (map h xs)"
    by (rule Cons.IH [OF zs]) (use Cons.prems(2) in auto)
  then show ?case using gz ys by simp
qed simp


subsection \<open>Invariants of step functions\<close>

text \<open>A component whose operations are steps on its state: what every enabled step keeps, every sequence
  of enabled steps keeps.\<close>

locale steps =
  fixes inv :: "'s \<Rightarrow> bool"
    and enabled :: "'a \<Rightarrow> bool"
    and step :: "'a \<Rightarrow> 's \<Rightarrow> 's"
  assumes step_inv: "inv s \<Longrightarrow> enabled a \<Longrightarrow> inv (step a s)"
begin

lemma run_inv: "inv s \<Longrightarrow> list_all enabled as \<Longrightarrow> inv (fold step as s)"
  by (induction as arbitrary: s) (auto intro: step_inv)

lemma run_inv_prefix: "inv s \<Longrightarrow> list_all enabled as \<Longrightarrow> inv (fold step (take n as) s)"
  by (rule run_inv) (auto simp: list_all_iff dest: in_set_takeD)

end

end
