(* ===== verification/JsText.thy ===== *)
theory JsText
  imports Prelude
begin

text \<open>
  The text operations of the JavaScript standard library that the sources use: \<open>String(n)\<close> and
  template interpolation of integers, \<open>Array.prototype.join\<close>, \<open>trim\<close> and \<open>toLowerCase\<close>, over
  Latin-1 code units. The printing of integers is injective and its characters are known, which is
  what the keys and identifiers built by the components need.
\<close>

subsection \<open>Printing integers\<close>

definition digit_char :: "nat \<Rightarrow> char" where
  "digit_char d = char_of (48 + d)"

fun show_nat :: "nat \<Rightarrow> string" where
  "show_nat n = (if n < 10 then [digit_char n] else show_nat (n div 10) @ [digit_char (n mod 10)])"

declare show_nat.simps [simp del]

definition show_int :: "int \<Rightarrow> string" where
  "show_int i = (if i < 0 then CHR ''-'' # show_nat (nat (- i)) else show_nat (nat i))"

definition is_digit :: "char \<Rightarrow> bool" where
  "is_digit c = ((48 :: nat) \<le> of_char c \<and> of_char c \<le> (57 :: nat))"

definition digit_val :: "char \<Rightarrow> nat" where
  "digit_val c = of_char c - 48"

definition read_digits :: "string \<Rightarrow> nat" where
  "read_digits s = foldl (\<lambda>n c. 10 * n + digit_val c) 0 s"

lemma of_char_digit_char: "d < 10 \<Longrightarrow> of_char (digit_char d) = 48 + d"
  by (simp add: digit_char_def)

lemma digit_val_digit_char [simp]: "d < 10 \<Longrightarrow> digit_val (digit_char d) = d"
  by (simp add: digit_val_def of_char_digit_char)

lemma is_digit_digit_char [simp]: "d < 10 \<Longrightarrow> is_digit (digit_char d)"
  by (simp add: is_digit_def of_char_digit_char)

lemma read_digits_snoc: "read_digits (s @ [c]) = 10 * read_digits s + digit_val c"
  by (simp add: read_digits_def)

lemma read_show_nat [simp]: "read_digits (show_nat n) = n"
proof (induction n rule: show_nat.induct)
  case (1 n)
  show ?case
  proof (cases "n < 10")
    case True
    then show ?thesis by (simp add: show_nat.simps [of n] read_digits_def)
  next
    case False
    with "1.IH" have "read_digits (show_nat (n div 10)) = n div 10" by simp
    then show ?thesis using False by (simp add: show_nat.simps [of n] read_digits_snoc)
  qed
qed

lemma show_nat_digits: "c \<in> set (show_nat n) \<Longrightarrow> is_digit c"
proof (induction n rule: show_nat.induct)
  case (1 n)
  then show ?case by (auto simp: show_nat.simps [of n] split: if_splits)
qed

lemma show_nat_nonempty [simp]: "show_nat n \<noteq> []"
  by (subst show_nat.simps) simp

lemma show_nat_inj: "show_nat m = show_nat n \<longleftrightarrow> m = n"
  by (metis read_show_nat)

lemma show_int_chars: "c \<in> set (show_int i) \<Longrightarrow> is_digit c \<or> c = CHR ''-''"
  by (auto simp: show_int_def dest: show_nat_digits split: if_splits)

lemma show_int_nonempty [simp]: "show_int i \<noteq> []"
  by (simp add: show_int_def)

lemma minus_not_digit [simp]: "\<not> is_digit CHR ''-''"
  by (simp add: is_digit_def)

lemma show_nat_not_minus: "show_nat n \<noteq> CHR ''-'' # s"
  using show_nat_digits [of "CHR ''-''" n] by auto

lemma show_int_inj: "show_int i = show_int j \<longleftrightarrow> i = j"
proof
  assume "show_int i = show_int j"
  then show "i = j"
    by (auto simp: show_int_def show_nat_inj show_nat_not_minus dest: sym split: if_splits
        dest!: show_nat_not_minus [THEN notE, rotated])
qed simp

subsection \<open>Joining\<close>

fun join_with :: "string \<Rightarrow> string list \<Rightarrow> string" where
  "join_with sep [] = []"
| "join_with sep [x] = x"
| "join_with sep (x # y # ys) = x @ sep @ join_with sep (y # ys)"

lemma join_with_Cons: "join_with sep (x # xs) = (if xs = [] then x else x @ sep @ join_with sep xs)"
  by (cases xs) auto

lemma set_join_with: "set (join_with sep xs) \<subseteq> set sep \<union> (\<Union>x\<in>set xs. set x)"
  by (induction sep xs rule: join_with.induct) auto

text \<open>Splitting at the first occurrence of a separating character is unambiguous.\<close>

lemma append_sep_inj:
  assumes "c \<notin> set a" and "c \<notin> set b" and "a @ c # x = b @ c # y"
  shows "a = b \<and> x = y"
  using assms
proof (induction a arbitrary: b)
  case Nil
  then show ?case by (cases b) auto
next
  case (Cons d a)
  then show ?case by (cases b) auto
qed

lemma append_no_sep:
  assumes "c \<notin> set a" and "c \<in> set b"
  shows "a \<noteq> b"
  using assms by auto

lemma join_char_inj:
  assumes "\<And>x. x \<in> set xs \<Longrightarrow> c \<notin> set x \<and> x \<noteq> []"
    and "\<And>y. y \<in> set ys \<Longrightarrow> c \<notin> set y \<and> y \<noteq> []"
    and "join_with [c] xs = join_with [c] ys"
  shows "xs = ys"
  using assms
proof (induction xs arbitrary: ys)
  case Nil
  then show ?case by (cases ys) (auto simp: join_with_Cons split: if_splits)
next
  case (Cons x xs)
  show ?case
  proof (cases ys)
    case Nil
    then show ?thesis using Cons.prems by (auto simp: join_with_Cons split: if_splits)
  next
    case ys: (Cons y zs)
    have x: "c \<notin> set x" and y: "c \<notin> set y" using Cons.prems ys by auto
    have eq: "join_with [c] (x # xs) = join_with [c] (y # zs)" using Cons.prems(3) ys by simp
    show ?thesis
    proof (cases "xs = [] \<or> zs = []")
      case True
      then show ?thesis using eq x y ys by (auto simp: join_with_Cons split: if_splits)
    next
      case False
      then have "x = y \<and> join_with [c] xs = join_with [c] zs"
        using eq append_sep_inj [OF x y] by (simp add: join_with_Cons)
      moreover have "join_with [c] xs = join_with [c] zs \<Longrightarrow> xs = zs"
        by (rule Cons.IH) (use Cons.prems ys in auto)
      ultimately show ?thesis using ys by simp
    qed
  qed
qed

subsection \<open>Trimming and lower case\<close>

definition is_space :: "char \<Rightarrow> bool" where
  "is_space c = (of_char c \<in> {9, 10, 11, 12, 13, 32, 160 :: nat})"

definition trim_end :: "string \<Rightarrow> string" where
  "trim_end s = rev (dropWhile is_space (rev s))"

definition trim :: "string \<Rightarrow> string" where
  "trim s = trim_end (dropWhile is_space s)"

definition lower_char :: "char \<Rightarrow> char" where
  "lower_char c =
     (let n = (of_char c :: nat) in
      if (65 \<le> n \<and> n \<le> 90) \<or> (192 \<le> n \<and> n \<le> 222 \<and> n \<noteq> 215) then char_of (n + 32) else c)"

definition to_lower :: "string \<Rightarrow> string" where
  "to_lower s = map lower_char s"

lemma trim_id: "(s = [] \<or> (\<not> is_space (hd s) \<and> \<not> is_space (last s))) \<Longrightarrow> trim s = s"
proof -
  assume h: "s = [] \<or> (\<not> is_space (hd s) \<and> \<not> is_space (last s))"
  show ?thesis
  proof (cases "s = []")
    case True
    then show ?thesis by (simp add: trim_def trim_end_def)
  next
    case False
    then have d: "dropWhile is_space s = s" using h by (cases s) auto
    have "dropWhile is_space (rev s) = rev s"
      using False h by (cases s rule: rev_cases) auto
    then show ?thesis by (simp add: trim_def trim_end_def d)
  qed
qed

lemma trim_ends: "trim s = [] \<or> (\<not> is_space (hd (trim s)) \<and> \<not> is_space (last (trim s)))"
proof (cases "trim s = []")
  case False
  let ?d = "dropWhile is_space s"
  have ne: "dropWhile is_space (rev ?d) \<noteq> []" using False by (simp add: trim_def trim_end_def)
  have l: "\<not> is_space (last (trim s))"
    using ne hd_dropWhile [OF ne] by (simp add: trim_def trim_end_def last_rev)
  have dne: "?d \<noteq> []" using ne by (metis dropWhile.simps(1) rev.simps(1))
  obtain ys where "rev ?d = takeWhile is_space (rev ?d) @ dropWhile is_space (rev ?d)"
    using takeWhile_dropWhile_id [of is_space "rev ?d"] by metis
  then have "?d = trim s @ rev (takeWhile is_space (rev ?d))"
    by (metis rev_append rev_rev_ident trim_def trim_end_def)
  then have "hd (trim s) = hd ?d" using False by (metis hd_append2)
  then show ?thesis using l hd_dropWhile [OF dne] by simp
qed simp

lemma trim_idem [simp]: "trim (trim s) = trim s"
  by (rule trim_id) (rule trim_ends)

lemma trim_Nil [simp]: "trim [] = []"
  by (simp add: trim_def trim_end_def)

end
