(* ===== verification/Search.thy ===== *)
theory Search
  imports Prelude "HOL-Library.While_Combinator"
begin

text \<open>
  The worklist loop of the route search, as an interface. \<open>bfs_step\<close> is one turn of
  \<open>while (queue.length > 0)\<close>: take the first pending state, skip it when its key was seen, otherwise
  record the key, stop at the first successor that is a goal and else queue all successors. The
  locale \<open>state_search\<close> states what a client provides for the loop to stop; \<open>keyed_search\<close> adds what
  it provides for the loop to find a goal whenever there is one, at the smallest depth.
\<close>

type_synonym ('s, 'k) worklist = "'s list \<times> 'k list \<times> 's option"

definition bfs_step :: "('s \<Rightarrow> 's list) \<Rightarrow> ('s \<Rightarrow> bool) \<Rightarrow> ('s \<Rightarrow> 'k) \<Rightarrow> ('s, 'k) worklist \<Rightarrow> ('s, 'k) worklist" where
  "bfs_step succs goal key w =
     (case w of (queue, visited, found) \<Rightarrow>
        (case queue of
           [] \<Rightarrow> (queue, visited, found)
         | s # rest \<Rightarrow>
             if key s \<in> set visited then (rest, visited, found)
             else (case find goal (succs s) of
                     Some t \<Rightarrow> (rest, visited @ [key s], Some t)
                   | None \<Rightarrow> (rest @ succs s, visited @ [key s], found))))"

definition bfs_going :: "('s, 'k) worklist \<Rightarrow> bool" where
  "bfs_going w = (case w of (queue, visited, found) \<Rightarrow> queue \<noteq> [] \<and> found = None)"

definition bfs_run :: "('s \<Rightarrow> 's list) \<Rightarrow> ('s \<Rightarrow> bool) \<Rightarrow> ('s \<Rightarrow> 'k) \<Rightarrow> 's \<Rightarrow> ('s, 'k) worklist option" where
  "bfs_run succs goal key s0 = while_option bfs_going (bfs_step succs goal key) ([s0], [], None)"

text \<open>The states that successors lead to from a first one.\<close>

inductive walk_from :: "('s \<Rightarrow> 's list) \<Rightarrow> 's \<Rightarrow> 's \<Rightarrow> bool" for succs s0 where
  here [intro]: "walk_from succs s0 s0"
| on: "walk_from succs s0 s \<Longrightarrow> t \<in> set (succs s) \<Longrightarrow> walk_from succs s0 t"

locale state_search =
  fixes valid :: "'p \<Rightarrow> 's \<Rightarrow> bool"
    and succs :: "'p \<Rightarrow> 's \<Rightarrow> 's list"
    and goal :: "'p \<Rightarrow> 's \<Rightarrow> bool"
    and key :: "'s \<Rightarrow> 'k"
    and depth :: "'s \<Rightarrow> nat"
  assumes valid_succ: "valid p s \<Longrightarrow> t \<in> set (succs p s) \<Longrightarrow> valid p t"
    and depth_succ: "t \<in> set (succs p s) \<Longrightarrow> depth t = Suc (depth s)"
    and finite_keys: "finite (key ` Collect (valid p))"
begin

lemma walk_valid: "walk_from (succs p) s0 s \<Longrightarrow> valid p s0 \<Longrightarrow> valid p s"
  by (induction rule: walk_from.induct) (auto intro: valid_succ)

lemma walk_depth: "walk_from (succs p) s0 s \<Longrightarrow> depth s0 \<le> depth s"
  by (induction rule: walk_from.induct) (auto dest: depth_succ)

lemma walk_last:
  "walk_from (succs p) s0 t \<Longrightarrow> depth s0 < depth t \<Longrightarrow>
     \<exists>s. walk_from (succs p) s0 s \<and> t \<in> set (succs p s) \<and> depth t = Suc (depth s)"
  by (erule walk_from.cases) (auto dest: depth_succ)

definition held :: "'p \<Rightarrow> 's \<Rightarrow> ('s, 'k) worklist \<Rightarrow> bool" where
  "held p s0 w =
     (case w of (queue, visited, found) \<Rightarrow>
        (\<forall>s\<in>set queue. walk_from (succs p) s0 s) \<and>
        set visited \<subseteq> key ` Collect (valid p) \<and>
        (\<forall>t. found = Some t \<longrightarrow> goal p t \<and> (\<exists>s. walk_from (succs p) s0 s \<and> t \<in> set (succs p s))))"

lemma held_init: "held p s0 ([s0], [], None)"
  by (auto simp: held_def)

lemma held_step:
  assumes v: "valid p s0" and h: "held p s0 w"
  shows "held p s0 (bfs_step (succs p) (goal p) key w)"
proof -
  obtain q vis r where w: "w = (q, vis, r)" by (cases w)
  show ?thesis
  proof (cases q)
    case Nil
    then show ?thesis using h w by (simp add: bfs_step_def)
  next
    case q: (Cons s rest)
    have s: "walk_from (succs p) s0 s" using h w q by (simp add: held_def)
    have "key s \<in> key ` Collect (valid p)" using walk_valid [OF s v] by blast
    then show ?thesis using h w q s
      by (auto simp: held_def bfs_step_def split: option.splits intro: walk_from.on dest: find_SomeD)
  qed
qed

text \<open>The keys not yet seen bound the turns that expand a state; the queue bounds the others.\<close>

lemma run_stops:
  assumes v: "valid p s0"
  shows "\<exists>w. bfs_run (succs p) (goal p) key s0 = Some w"
proof -
  let ?K = "key ` Collect (valid p)"
  let ?R = "measures [\<lambda>(q :: 's list, v :: 'k list, r :: 's option). card (?K - set v), \<lambda>(q, v, r). length q]"
  have dec: "(bfs_step (succs p) (goal p) key w, w) \<in> ?R" if h: "held p s0 w" and g: "bfs_going w" for w
  proof -
    obtain q vis where w: "w = (q, vis, None)" and q: "q \<noteq> []"
      using g by (cases w) (auto simp: bfs_going_def)
    obtain s rest where qs: "q = s # rest" using q by (cases q) auto
    show ?thesis
    proof (cases "key s \<in> set vis")
      case True
      then show ?thesis by (simp add: w qs bfs_step_def)
    next
      case False
      have "valid p s" using h w qs walk_valid [OF _ v] by (auto simp: held_def)
      then have k: "key s \<in> ?K - set vis" using False by auto
      have "?K - set (vis @ [key s]) = (?K - set vis) - {key s}" by auto
      then have "card (?K - set (vis @ [key s])) < card (?K - set vis)"
        using k finite_keys [of p] by (metis card_Diff1_less finite_Diff)
      then show ?thesis using False by (simp add: w qs bfs_step_def split: option.split)
    qed
  qed
  show ?thesis
    unfolding bfs_run_def
  proof (rule wf_rel_while_option_Some)
    show "wf ?R" by simp
    show "(bfs_step (succs p) (goal p) key w, w) \<in> ?R" if "held p s0 w \<and> bfs_going w" for w
      using dec that by blast
    show "held p s0 (bfs_step (succs p) (goal p) key w)" if "held p s0 w \<and> bfs_going w" for w
      using held_step [OF v] that by blast
    show "held p s0 ([s0], [], None)" by (rule held_init)
  qed
qed

lemma run_held:
  "valid p s0 \<Longrightarrow> bfs_run (succs p) (goal p) key s0 = Some w \<Longrightarrow> held p s0 w"
  unfolding bfs_run_def
  by (rule while_option_rule [where P = "held p s0"]) (auto intro: held_step held_init)

lemma run_done: "bfs_run (succs p) (goal p) key s0 = Some w \<Longrightarrow> \<not> bfs_going w"
  unfolding bfs_run_def by (rule while_option_stop)

end

text \<open>
  When states with equal keys have successors with equal keys, and a key decides whether a state is
  a goal, skipping a seen key loses nothing: the search finds a goal whenever a walk leads to one,
  and no walk leads to a goal at a smaller depth.
\<close>

locale keyed_search = state_search valid succs goal key depth
  for valid :: "'p \<Rightarrow> 's \<Rightarrow> bool"
    and succs :: "'p \<Rightarrow> 's \<Rightarrow> 's list"
    and goal :: "'p \<Rightarrow> 's \<Rightarrow> bool"
    and key :: "'s \<Rightarrow> 'k"
    and depth :: "'s \<Rightarrow> nat" +
  fixes faithful :: "'p \<Rightarrow> bool"
  assumes key_succs: "faithful p \<Longrightarrow> valid p s \<Longrightarrow> valid p t \<Longrightarrow> key s = key t \<Longrightarrow>
      key ` set (succs p s) = key ` set (succs p t)"
    and key_goal: "faithful p \<Longrightarrow> valid p s \<Longrightarrow> valid p t \<Longrightarrow> key s = key t \<Longrightarrow> goal p s = goal p t"
begin

text \<open>Every seen key has been expanded: its successors are seen or pending, and none is a goal.\<close>

definition expanded :: "'p \<Rightarrow> 's list \<Rightarrow> 'k set \<Rightarrow> bool" where
  "expanded p q V \<longleftrightarrow>
     (\<forall>s. valid p s \<and> key s \<in> V \<longrightarrow>
        (\<forall>t\<in>set (succs p s). \<not> goal p t \<and> key t \<in> V \<union> key ` set q))"

text \<open>The pending states are in layers: those of one depth, then those of the next, and every state
  of a smaller depth has been seen.\<close>

definition layered :: "'p \<Rightarrow> 's \<Rightarrow> 's list \<Rightarrow> 'k set \<Rightarrow> nat \<Rightarrow> bool" where
  "layered p s0 q V d \<longleftrightarrow>
     (\<exists>q1 q2. q = q1 @ q2 \<and> (\<forall>s\<in>set q1. depth s = d) \<and> (\<forall>s\<in>set q2. depth s = Suc d) \<and>
        (\<forall>s. walk_from (succs p) s0 s \<and> depth s < d \<longrightarrow> key s \<in> V) \<and>
        (\<forall>s. walk_from (succs p) s0 s \<and> depth s = d \<longrightarrow> key s \<in> V \<union> key ` set q1))"

definition no_goal_upto :: "'p \<Rightarrow> 's \<Rightarrow> nat \<Rightarrow> bool" where
  "no_goal_upto p s0 d \<longleftrightarrow>
     (\<forall>t. walk_from (succs p) s0 t \<and> depth s0 < depth t \<and> goal p t \<longrightarrow> d < depth t)"

lemma expanded_goal:
  assumes "valid p s0" and "expanded p q V" and "walk_from (succs p) s0 s" and "key s \<in> V"
    and "t \<in> set (succs p s)"
  shows "\<not> goal p t \<and> key t \<in> V \<union> key ` set q"
  using assms walk_valid by (auto simp: expanded_def)

lemma layered_next:
  assumes v: "valid p s0" and e: "expanded p q V" and l: "layered p s0 q V d"
    and q: "q = [] \<or> depth (hd q) = Suc d" and d: "depth s0 \<le> d"
  shows "layered p s0 q V (Suc d)"
proof -
  obtain q1 q2 where qq: "q = q1 @ q2" and q1: "\<forall>s\<in>set q1. depth s = d" and q2: "\<forall>s\<in>set q2. depth s = Suc d"
    and below: "\<And>s. walk_from (succs p) s0 s \<Longrightarrow> depth s < d \<Longrightarrow> key s \<in> V"
    and at: "\<And>s. walk_from (succs p) s0 s \<Longrightarrow> depth s = d \<Longrightarrow> key s \<in> V \<union> key ` set q1"
    using l unfolding layered_def by blast
  have [simp]: "q1 = []" using q qq q1 by (cases q1) auto
  have upto: "key s \<in> V" if "walk_from (succs p) s0 s" "depth s < Suc d" for s
    using that below at by (auto simp: less_Suc_eq)
  have nxt: "key s \<in> V \<union> key ` set q" if s: "walk_from (succs p) s0 s" "depth s = Suc d" for s
  proof -
    obtain r where r: "walk_from (succs p) s0 r" "s \<in> set (succs p r)" "depth s = Suc (depth r)"
      using walk_last [OF s(1)] s(2) d by auto
    then have "key r \<in> V" using upto s(2) by simp
    then show ?thesis using expanded_goal [OF v e r(1) _ r(2)] by blast
  qed
  show ?thesis
    unfolding layered_def
    by (rule exI [of _ q], rule exI [of _ "[]"]) (use qq q2 upto nxt in auto)
qed

lemma no_goal_layer:
  assumes v: "valid p s0" and e: "expanded p q V" and l: "layered p s0 q V d"
  shows "no_goal_upto p s0 d"
  unfolding no_goal_upto_def
proof (intro allI impI)
  fix t assume t: "walk_from (succs p) s0 t \<and> depth s0 < depth t \<and> goal p t"
  then obtain r where r: "walk_from (succs p) s0 r" "t \<in> set (succs p r)" "depth t = Suc (depth r)"
    using walk_last by blast
  show "d < depth t"
  proof (rule ccontr)
    assume "\<not> d < depth t"
    then have "key r \<in> V" using r l unfolding layered_def by auto
    then show False using expanded_goal [OF v e r(1) _ r(2)] t by blast
  qed
qed

definition sought :: "'p \<Rightarrow> 's \<Rightarrow> ('s, 'k) worklist \<Rightarrow> bool" where
  "sought p s0 w =
     (case w of (queue, visited, found) \<Rightarrow>
        (case found of
           None \<Rightarrow> expanded p queue (set visited) \<and>
             (key s0 \<in> set visited \<union> key ` set queue) \<and>
             (queue \<noteq> [] \<longrightarrow> depth s0 \<le> depth (hd queue) \<and> layered p s0 queue (set visited) (depth (hd queue)))
         | Some t \<Rightarrow> no_goal_upto p s0 (depth t - 1)))"

lemma sought_init: "sought p s0 ([s0], [], None)"
proof -
  have only: "s = s0" if "walk_from (succs p) s0 s" "depth s = depth s0" for s
    using that by cases (auto dest!: depth_succ walk_depth)
  have "layered p s0 [s0] {} (depth s0)"
    unfolding layered_def
    by (rule exI [of _ "[s0]"], rule exI [of _ "[]"]) (auto dest: only walk_depth)
  then show ?thesis by (simp add: sought_def expanded_def)
qed

lemma layered_settle:
  assumes v: "valid p s0" and e: "expanded p q V" and l: "layered p s0 q V d"
    and d: "depth s0 \<le> d" and q: "q \<noteq> []"
  shows "depth s0 \<le> depth (hd q) \<and> layered p s0 q V (depth (hd q))"
proof -
  have "\<forall>s\<in>set q. depth s = d \<or> depth s = Suc d"
    using l unfolding layered_def by auto
  then have "depth (hd q) = d \<or> depth (hd q) = Suc d" using q hd_in_set by blast
  then show ?thesis using layered_next [OF v e l _ d] l d by auto
qed

lemma layered_split:
  assumes "layered p s0 (s # rest) V (depth s)"
  obtains q1 q2 where "rest = q1 @ q2" "\<forall>x\<in>set q1. depth x = depth s" "\<forall>x\<in>set q2. depth x = Suc (depth s)"
    "\<And>x. walk_from (succs p) s0 x \<Longrightarrow> depth x < depth s \<Longrightarrow> key x \<in> V"
    "\<And>x. walk_from (succs p) s0 x \<Longrightarrow> depth x = depth s \<Longrightarrow> key x \<in> insert (key s) V \<union> key ` set q1"
proof -
  obtain r1 r2 where r: "s # rest = r1 @ r2" "\<forall>x\<in>set r1. depth x = depth s" "\<forall>x\<in>set r2. depth x = Suc (depth s)"
    and b: "\<And>x. walk_from (succs p) s0 x \<Longrightarrow> depth x < depth s \<Longrightarrow> key x \<in> V"
    and a: "\<And>x. walk_from (succs p) s0 x \<Longrightarrow> depth x = depth s \<Longrightarrow> key x \<in> V \<union> key ` set r1"
    using assms unfolding layered_def by blast
  have "r1 \<noteq> []"
  proof
    assume "r1 = []"
    then have "s \<in> set r2" using r(1) by (metis append_Nil list.set_intros(1))
    then show False using r(3) by auto
  qed
  then obtain r1' where r1: "r1 = s # r1'" and rest: "rest = r1' @ r2" using r(1) by (cases r1) auto
  show ?thesis
  proof (rule that)
    show "rest = r1' @ r2" by (rule rest)
    show "\<forall>x\<in>set r1'. depth x = depth s" using r(2) r1 by simp
    show "\<forall>x\<in>set r2. depth x = Suc (depth s)" by (rule r(3))
    show "key x \<in> V" if "walk_from (succs p) s0 x" "depth x < depth s" for x
      by (rule b [OF that])
    show "key x \<in> insert (key s) V \<union> key ` set r1'" if "walk_from (succs p) s0 x" "depth x = depth s" for x
      using a [OF that] r1 by auto
  qed
qed

lemma expanded_skip: "expanded p (s # rest) V \<Longrightarrow> key s \<in> V \<Longrightarrow> expanded p rest V"
proof -
  assume e: "expanded p (s # rest) V" and k: "key s \<in> V"
  have "V \<union> key ` set (s # rest) = V \<union> key ` set rest" using k by auto
  then show ?thesis using e unfolding expanded_def by simp
qed

lemma expanded_add:
  assumes f: "faithful p" and e: "expanded p (s # rest) V" and s: "valid p s"
    and n: "find (goal p) (succs p s) = None"
  shows "expanded p (rest @ succs p s) (insert (key s) V)"
  unfolding expanded_def
proof (intro allI impI ballI)
  fix x t assume x: "valid p x \<and> key x \<in> insert (key s) V" and t: "t \<in> set (succs p x)"
  show "\<not> goal p t \<and> key t \<in> insert (key s) V \<union> key ` set (rest @ succs p s)"
  proof (cases "key x \<in> V")
    case True
    then show ?thesis using e x t unfolding expanded_def by auto
  next
    case False
    then have k: "key x = key s" using x by simp
    then have "key t \<in> key ` set (succs p s)" using key_succs [OF f _ s k] x t by blast
    then obtain u where u: "u \<in> set (succs p s)" "key t = key u" by blast
    have "goal p t = goal p u"
      using key_goal [OF f _ _ u(2)] valid_succ x t s u(1) by blast
    moreover have "\<not> goal p u" using n u(1) by (auto simp: find_None_iff)
    ultimately show ?thesis using u by auto
  qed
qed

lemma sought_step:
  assumes f: "faithful p" and v: "valid p s0" and h: "held p s0 w" and i: "sought p s0 w" and g: "bfs_going w"
  shows "sought p s0 (bfs_step (succs p) (goal p) key w)"
proof -
  obtain s rest vis where w: "w = (s # rest, vis, None)"
    using g by (cases w; cases "fst w") (auto simp: bfs_going_def)
  have e: "expanded p (s # rest) (set vis)" and d: "depth s0 \<le> depth s"
    and l: "layered p s0 (s # rest) (set vis) (depth s)"
    and k: "key s0 \<in> insert (key s) (set vis) \<union> key ` set rest"
    using i by (auto simp: w sought_def)
  have ws: "walk_from (succs p) s0 s" using h by (simp add: w held_def)
  have vs: "valid p s" by (rule walk_valid [OF ws v])
  from l obtain q1 q2 where q: "rest = q1 @ q2" "\<forall>x\<in>set q1. depth x = depth s" "\<forall>x\<in>set q2. depth x = Suc (depth s)"
    "\<And>x. walk_from (succs p) s0 x \<Longrightarrow> depth x < depth s \<Longrightarrow> key x \<in> set vis"
    "\<And>x. walk_from (succs p) s0 x \<Longrightarrow> depth x = depth s \<Longrightarrow> key x \<in> insert (key s) (set vis) \<union> key ` set q1"
    using layered_split by blast
  show ?thesis
  proof (cases "key s \<in> set vis")
    case True
    have e': "expanded p rest (set vis)" by (rule expanded_skip [OF e True])
    have l': "layered p s0 rest (set vis) (depth s)"
      unfolding layered_def
      by (rule exI [of _ q1], rule exI [of _ q2]) (use q True in \<open>auto simp: insert_absorb\<close>)
    show ?thesis
      using True k e' layered_settle [OF v e' l' d] by (auto simp: w bfs_step_def sought_def insert_absorb)
  next
    case new: False
    show ?thesis
    proof (cases "find (goal p) (succs p s)")
      case None
      let ?q = "rest @ succs p s" and ?V = "insert (key s) (set vis)"
      have e': "expanded p ?q ?V" by (rule expanded_add [OF f e vs None])
      have l': "layered p s0 ?q ?V (depth s)"
        unfolding layered_def
        by (rule exI [of _ q1], rule exI [of _ "q2 @ succs p s"]) (use q in \<open>auto dest: depth_succ\<close>)
      show ?thesis
        using new None k e' layered_settle [OF v e' l' d] by (auto simp: w bfs_step_def sought_def)
    next
      case (Some t)
      then have "depth t - 1 = depth s" using depth_succ find_SomeD [OF Some] by fastforce
      then show ?thesis
        using new Some no_goal_layer [OF v e l] by (simp add: w bfs_step_def sought_def)
    qed
  qed
qed

lemma run_sought:
  assumes "faithful p" and "valid p s0" and "bfs_run (succs p) (goal p) key s0 = Some w"
  shows "sought p s0 w"
proof -
  have "held p s0 w \<and> sought p s0 w"
    by (rule while_option_rule [where P = "\<lambda>w. held p s0 w \<and> sought p s0 w", OF _ assms(3) [unfolded bfs_run_def]])
      (use assms held_step held_init sought_step sought_init in auto)
  then show ?thesis by simp
qed

lemma run_complete:
  assumes f: "faithful p" and v: "valid p s0" and r: "bfs_run (succs p) (goal p) key s0 = Some (q, vis, None)"
    and t: "walk_from (succs p) s0 t" "depth s0 < depth t"
  shows "\<not> goal p t"
proof -
  have "q = []" using run_done [OF r] by (simp add: bfs_going_def)
  then have e: "expanded p [] (set vis)" and k: "key s0 \<in> set vis"
    using run_sought [OF f v r] by (auto simp: sought_def)
  have all: "key s \<in> set vis" if "walk_from (succs p) s0 s" for s
    using that
  proof induction
    case here
    show ?case by (rule k)
  next
    case (on s u)
    then show ?case using expanded_goal [OF v e on.hyps(1) on.IH on.hyps(2)] by simp
  qed
  obtain s where s: "walk_from (succs p) s0 s" "t \<in> set (succs p s)" using walk_last [OF t] by blast
  show ?thesis using expanded_goal [OF v e s(1) all [OF s(1)] s(2)] by blast
qed

lemma run_shortest:
  assumes f: "faithful p" and v: "valid p s0" and r: "bfs_run (succs p) (goal p) key s0 = Some (q, vis, Some t)"
    and u: "walk_from (succs p) s0 u" "depth s0 < depth u" "goal p u"
  shows "depth t \<le> depth u"
  using run_sought [OF f v r] u by (auto simp: sought_def no_goal_upto_def)

end

end
