(* ===== verification/RouteGraph.thy ===== *)
theory RouteGraph
  imports JsText Search
begin

text \<open>
  \<open>web-ui/src/domain/railway/graph.ts\<close>: the graph of track sections, the merging of turnout and
  direction requirements along a route, the breadth-first route search and the block routes built
  on it. Graph nodes are objects; \<open>gn_ref\<close> is the identity that \<open>===\<close> compares. A JavaScript \<open>Map\<close>
  is an association list in insertion order, updated by \<open>AList.update\<close> as \<open>Map.set\<close> does. The
  search loop is a \<open>while_option\<close>: the outer \<open>None\<close> of \<open>findRoute\<close> would be a loop that never ends.
\<close>

subsection \<open>Data\<close>

type_synonym layout_element_id = int

datatype travel_direction = Unknown | Forward | Reverse

record turnout_requirement =
  tr_address :: int
  tr_closed :: bool

record section_detector =
  sd_id :: layout_element_id
  sd_address :: int
  sd_label :: string

record section_signal =
  sg_id :: layout_element_id
  sg_address :: int
  sg_label :: string

record section_block =
  sb_id :: layout_element_id
  sb_name :: string
  sb_trackName :: string
  sb_label :: string

record graph_node =
  gn_ref :: nat
  gn_name :: string
  gn_trackName :: string
  gn_x :: int
  gn_y :: int
  gn_isVirtual :: bool
  gn_busy :: bool
  gn_detectors :: "section_detector list"
  gn_signals :: "section_signal list"
  gn_blocks :: "section_block list"
  gn_elementIds :: "layout_element_id list"

record edge =
  e_from :: graph_node
  e_to :: graph_node
  e_turnoutStates :: "turnout_requirement list"
  e_locoDirection :: travel_direction

record graph =
  g_nodes :: "graph_node list"
  g_edges :: "edge list"

record route_solution =
  rs_nodes :: "graph_node list"
  rs_edges :: "edge list"
  rs_turnoutStates :: "turnout_requirement list"
  rs_locoDirection :: travel_direction

datatype path_item = BlockItem section_block graph_node | SegmentItem graph_node

record block_route = route_solution +
  br_fromBlock :: section_block
  br_toBlock :: section_block
  br_path :: "path_item list"

record runnable_route =
  rr_fromBlock :: section_block
  rr_toBlock :: section_block
  rr_solution :: block_route

definition same_node :: "graph_node \<Rightarrow> graph_node \<Rightarrow> bool" where
  "same_node a b \<longleftrightarrow> gn_ref a = gn_ref b"

definition addNode :: "graph_node \<Rightarrow> graph \<Rightarrow> graph" where
  "addNode n g = g\<lparr>g_nodes := g_nodes g @ [n]\<rparr>"

definition addEdge :: "edge \<Rightarrow> graph \<Rightarrow> graph" where
  "addEdge e g = g\<lparr>g_edges := g_edges g @ [e]\<rparr>"

subsection \<open>Merging requirements\<close>

type_synonym requirement_map = "(int \<times> bool) list"

definition mergeLocoDirection :: "travel_direction \<Rightarrow> travel_direction \<Rightarrow> travel_direction option" where
  "mergeLocoDirection current nxt =
     (if current = Unknown then Some nxt
      else if nxt = Unknown then Some current
      else if current = nxt then Some current
      else None)"

fun mergeTurnoutRequirements :: "requirement_map \<Rightarrow> turnout_requirement list \<Rightarrow> requirement_map option" where
  "mergeTurnoutRequirements merged [] = Some merged"
| "mergeTurnoutRequirements merged (r # rs) =
     (case map_of merged (tr_address r) of
        None \<Rightarrow> mergeTurnoutRequirements (AList.update (tr_address r) (tr_closed r) merged) rs
      | Some existing \<Rightarrow>
          if existing \<noteq> tr_closed r then None
          else mergeTurnoutRequirements (AList.update (tr_address r) (tr_closed r) merged) rs)"

definition turnoutRequirementMapToArray :: "requirement_map \<Rightarrow> turnout_requirement list" where
  "turnoutRequirementMapToArray m =
     map (\<lambda>(a, c). \<lparr>tr_address = a, tr_closed = c\<rparr>) (sort_key fst m)"

definition direction_text :: "travel_direction \<Rightarrow> string" where
  "direction_text d = (case d of Unknown \<Rightarrow> ''unknown'' | Forward \<Rightarrow> ''forward'' | Reverse \<Rightarrow> ''reverse'')"

definition requirement_text :: "turnout_requirement \<Rightarrow> string" where
  "requirement_text r = show_int (tr_address r) @ '':'' @ (if tr_closed r then ''C'' else ''T'')"

definition createRouteVisitedKey :: "graph_node \<Rightarrow> requirement_map \<Rightarrow> travel_direction \<Rightarrow> string" where
  "createRouteVisitedKey node m d =
     (let turnoutPart = join_with ''|'' (map requirement_text (turnoutRequirementMapToArray m))
      in gn_name node @ ''__'' @ turnoutPart @ ''__'' @ direction_text d)"

subsection \<open>The route search\<close>

record search_state =
  ss_node :: graph_node
  ss_nodes :: "graph_node list"
  ss_edges :: "edge list"
  ss_requirements :: requirement_map
  ss_locoDirection :: travel_direction

text \<open>The loop over the edges that leave the current node: \<open>Inl\<close> is the \<open>return\<close> of a route,
  \<open>Inr\<close> the queue after all edges were tried.\<close>

fun expandEdges :: "graph_node \<Rightarrow> search_state \<Rightarrow> edge list \<Rightarrow> search_state list \<Rightarrow> route_solution + search_state list" where
  "expandEdges toNode current [] queue = Inr queue"
| "expandEdges toNode current (edge # edges) queue =
     (case (mergeTurnoutRequirements (ss_requirements current) (e_turnoutStates edge),
            mergeLocoDirection (ss_locoDirection current) (e_locoDirection edge)) of
        (Some mergedRequirements, Some mergedLocoDirection) \<Rightarrow>
          let nextNodes = ss_nodes current @ [e_to edge];
              nextEdges = ss_edges current @ [edge]
          in if same_node (e_to edge) toNode
             then Inl \<lparr>rs_nodes = nextNodes, rs_edges = nextEdges,
                       rs_turnoutStates = turnoutRequirementMapToArray mergedRequirements,
                       rs_locoDirection = mergedLocoDirection\<rparr>
             else expandEdges toNode current edges
                    (queue @ [\<lparr>ss_node = e_to edge, ss_nodes = nextNodes, ss_edges = nextEdges,
                               ss_requirements = mergedRequirements,
                               ss_locoDirection = mergedLocoDirection\<rparr>])
      | _ \<Rightarrow> expandEdges toNode current edges queue)"

type_synonym route_loop = "search_state list \<times> string list \<times> route_solution option"

definition findRoute_step :: "graph \<Rightarrow> graph_node \<Rightarrow> route_loop \<Rightarrow> route_loop" where
  "findRoute_step g toNode loop =
     (case loop of (queue, visited, result) \<Rightarrow>
        (case queue of
           [] \<Rightarrow> (queue, visited, result)
         | current # rest \<Rightarrow>
             (let currentKey = createRouteVisitedKey (ss_node current) (ss_requirements current) (ss_locoDirection current)
              in if currentKey \<in> set visited then (rest, visited, result)
                 else (case expandEdges toNode current (filter (\<lambda>e. same_node (e_from e) (ss_node current)) (g_edges g)) rest of
                         Inl route \<Rightarrow> (rest, visited @ [currentKey], Some route)
                       | Inr queue' \<Rightarrow> (queue', visited @ [currentKey], result)))))"

definition initial_state :: "graph_node \<Rightarrow> search_state" where
  "initial_state fromNode =
     \<lparr>ss_node = fromNode, ss_nodes = [fromNode], ss_edges = [], ss_requirements = [], ss_locoDirection = Unknown\<rparr>"

definition findRoute :: "graph \<Rightarrow> string \<Rightarrow> string \<Rightarrow> route_solution option option" where
  "findRoute g fromNodeName toNodeName =
     (case (find (\<lambda>n. gn_name n = fromNodeName) (g_nodes g), find (\<lambda>n. gn_name n = toNodeName) (g_nodes g)) of
        (Some fromNode, Some toNode) \<Rightarrow>
          if same_node fromNode toNode
          then Some (Some \<lparr>rs_nodes = [fromNode], rs_edges = [], rs_turnoutStates = [], rs_locoDirection = Unknown\<rparr>)
          else map_option (\<lambda>(queue, visited, result). result)
                 (while_option (\<lambda>(queue, visited, result). queue \<noteq> [] \<and> result = None)
                    (findRoute_step g toNode) ([initial_state fromNode], [], None))
      | _ \<Rightarrow> Some None)"

subsection \<open>Blocks and block routes\<close>

definition findNodeContainingBlock :: "graph \<Rightarrow> layout_element_id \<Rightarrow> graph_node option" where
  "findNodeContainingBlock g blockId = find (\<lambda>n. \<exists>b\<in>set (gn_blocks n). sb_id b = blockId) (g_nodes g)"

fun first_block :: "(section_block \<Rightarrow> bool) \<Rightarrow> graph_node list \<Rightarrow> section_block option" where
  "first_block p [] = None"
| "first_block p (n # ns) = (case find p (gn_blocks n) of Some b \<Rightarrow> Some b | None \<Rightarrow> first_block p ns)"

definition findBlockById :: "graph \<Rightarrow> layout_element_id \<Rightarrow> section_block option" where
  "findBlockById g blockId = first_block (\<lambda>b. sb_id b = blockId) (g_nodes g)"

definition findBlockByName :: "graph \<Rightarrow> string \<Rightarrow> section_block option" where
  "findBlockByName g blockName = (let normalized = trim blockName in first_block (\<lambda>b. sb_name b = normalized) (g_nodes g))"

definition block_path :: "section_block \<Rightarrow> graph_node \<Rightarrow> section_block \<Rightarrow> graph_node \<Rightarrow> graph_node list \<Rightarrow> path_item list" where
  "block_path fromBlock fromNode toBlock toNode nodes =
     [BlockItem fromBlock fromNode] @
     concat (map (\<lambda>node. SegmentItem node #
        map (\<lambda>b. BlockItem b node)
          (filter (\<lambda>b. \<not> (sb_id b = sb_id fromBlock \<or> sb_id b = sb_id toBlock)) (gn_blocks node))) nodes) @
     [BlockItem toBlock toNode]"

definition findRouteBetweenBlocks :: "graph \<Rightarrow> layout_element_id \<Rightarrow> layout_element_id \<Rightarrow> block_route option option" where
  "findRouteBetweenBlocks g fromBlockId toBlockId =
     (case (findNodeContainingBlock g fromBlockId, findNodeContainingBlock g toBlockId,
            findBlockById g fromBlockId, findBlockById g toBlockId) of
        (Some fromNode, Some toNode, Some fromBlock, Some toBlock) \<Rightarrow>
          map_option (map_option (\<lambda>segmentRoute.
              \<lparr>rs_nodes = rs_nodes segmentRoute, rs_edges = rs_edges segmentRoute,
               rs_turnoutStates = rs_turnoutStates segmentRoute, rs_locoDirection = rs_locoDirection segmentRoute,
               br_fromBlock = fromBlock, br_toBlock = toBlock,
               br_path = block_path fromBlock fromNode toBlock toNode (rs_nodes segmentRoute)\<rparr>))
            (findRoute g (gn_name fromNode) (gn_name toNode))
      | _ \<Rightarrow> Some None)"

definition findRouteBetweenBlockNames :: "graph \<Rightarrow> string \<Rightarrow> string \<Rightarrow> block_route option option" where
  "findRouteBetweenBlockNames g fromBlockName toBlockName =
     (case (findBlockByName g fromBlockName, findBlockByName g toBlockName) of
        (Some fromBlock, Some toBlock) \<Rightarrow> findRouteBetweenBlocks g (sb_id fromBlock) (sb_id toBlock)
      | _ \<Rightarrow> Some None)"

definition all_blocks :: "graph \<Rightarrow> section_block list" where
  "all_blocks g = concat (map gn_blocks (g_nodes g))"

fun collect_routes :: "graph \<Rightarrow> (section_block \<times> section_block) list \<Rightarrow> runnable_route list option" where
  "collect_routes g [] = Some []"
| "collect_routes g ((a, b) # rest) =
     (if sb_id a = sb_id b then collect_routes g rest
      else (case findRouteBetweenBlocks g (sb_id a) (sb_id b) of
              None \<Rightarrow> None
            | Some None \<Rightarrow> collect_routes g rest
            | Some (Some solution) \<Rightarrow>
                map_option ((#) \<lparr>rr_fromBlock = a, rr_toBlock = b, rr_solution = solution\<rparr>) (collect_routes g rest)))"

definition getRunnableBlockRoutes :: "graph \<Rightarrow> runnable_route list option" where
  "getRunnableBlockRoutes g = collect_routes g (List.product (all_blocks g) (all_blocks g))"

definition is_transition :: "runnable_route \<Rightarrow> bool" where
  "is_transition route =
     (let nodes = rs_nodes (rr_solution route) in
      if length nodes < 2 then False
      else \<not> (\<exists>n\<in>set (butlast (tl nodes)). gn_blocks n \<noteq> []))"

definition getRunnableBlockTransitions :: "graph \<Rightarrow> runnable_route list option" where
  "getRunnableBlockTransitions g = map_option (filter is_transition) (getRunnableBlockRoutes g)"

end
