(* ===== verification/RouteSearch.thy ===== *)
theory RouteSearch
  imports RouteGraph "HOL-Library.Multiset"
begin

text \<open>
  Correctness of the route search of \<open>RouteGraph\<close>. A route is specified without the search: a walk
  along edges of the graph whose turnout requirements agree with each other and whose travel
  directions do not oppose. The lemmas show that merging requirements decides that agreement, that
  the visited key identifies node, requirements and direction, and that the loop of \<open>findRoute\<close> is
  an instance of \<open>keyed_search\<close>. The properties: the search returns for every graph, what it
  returns is a route, and it returns a shortest one whenever there is one.
\<close>

subsection \<open>Specification\<close>

fun edge_walk :: "graph \<Rightarrow> graph_node \<Rightarrow> edge list \<Rightarrow> graph_node \<Rightarrow> bool" where
  "edge_walk g u [] v \<longleftrightarrow> same_node u v"
| "edge_walk g u (e # es) v \<longleftrightarrow> e \<in> set (g_edges g) \<and> same_node (e_from e) u \<and> edge_walk g (e_to e) es v"

definition requirements_of :: "edge list \<Rightarrow> turnout_requirement list" where
  "requirements_of es = concat (map e_turnoutStates es)"

definition agreeing :: "turnout_requirement list \<Rightarrow> bool" where
  "agreeing rs \<longleftrightarrow> (\<forall>r\<in>set rs. \<forall>q\<in>set rs. tr_address r = tr_address q \<longrightarrow> tr_closed r = tr_closed q)"

definition one_way :: "travel_direction list \<Rightarrow> bool" where
  "one_way ds \<longleftrightarrow> \<not> (Forward \<in> set ds \<and> Reverse \<in> set ds)"

definition common_direction :: "travel_direction list \<Rightarrow> travel_direction" where
  "common_direction ds = (if Forward \<in> set ds then Forward else if Reverse \<in> set ds then Reverse else Unknown)"

definition compatible :: "edge list \<Rightarrow> bool" where
  "compatible es \<longleftrightarrow> agreeing (requirements_of es) \<and> one_way (map e_locoDirection es)"

definition well_named :: "graph \<Rightarrow> bool" where
  "well_named g \<longleftrightarrow>
     (\<forall>x\<in>set (g_nodes g) \<union> e_to ` set (g_edges g). \<forall>y\<in>set (g_nodes g) \<union> e_to ` set (g_edges g).
        gn_name x = gn_name y \<longrightarrow> same_node x y)"

lemma same_node_refl [simp]: "same_node n n"
  by (simp add: same_node_def)

lemma same_node_sym: "same_node a b \<Longrightarrow> same_node b a"
  by (simp add: same_node_def)

lemma same_node_trans: "same_node a b \<Longrightarrow> same_node b c \<Longrightarrow> same_node a c"
  by (simp add: same_node_def)

lemma edge_walk_snoc:
  "edge_walk g u (es @ [e]) v \<longleftrightarrow>
     (\<exists>w. edge_walk g u es w \<and> same_node (e_from e) w) \<and> e \<in> set (g_edges g) \<and> same_node (e_to e) v"
proof (induction es arbitrary: u)
  case Nil
  then show ?case by (auto simp: same_node_def)
next
  case (Cons a es)
  then show ?case by auto
qed

lemma edge_walk_same: "edge_walk g u es v \<Longrightarrow> same_node v w \<Longrightarrow> edge_walk g u es w"
  by (induction es arbitrary: u) (auto simp: same_node_def)

lemma edge_walk_last: "edge_walk g u es v \<Longrightarrow> same_node (last (u # map e_to es)) v"
proof (induction es arbitrary: u)
  case (Cons e es)
  then have "same_node (last (e_to e # map e_to es)) v" by auto
  then show ?case by simp
qed simp

lemma requirements_of_simps [simp]:
  "requirements_of [] = []"
  "requirements_of (es @ [e]) = requirements_of es @ e_turnoutStates e"
  by (simp_all add: requirements_of_def)

subsection \<open>Merging decides agreement\<close>

text \<open>A requirement map stands for the requirements merged into it so far.\<close>

definition stands_for :: "requirement_map \<Rightarrow> turnout_requirement list \<Rightarrow> bool" where
  "stands_for m rs \<longleftrightarrow> distinct (map fst m) \<and>
     fst ` set m = tr_address ` set rs \<and> (\<forall>r\<in>set rs. map_of m (tr_address r) = Some (tr_closed r))"

lemma stands_for_empty [simp]: "stands_for [] []"
  by (simp add: stands_for_def)

lemma stands_for_agreeing: "stands_for m rs \<Longrightarrow> agreeing rs"
  unfolding stands_for_def agreeing_def by (metis option.inject)

lemma stands_for_lookup:
  "stands_for m rs \<Longrightarrow> map_of m k = None \<longleftrightarrow> k \<notin> tr_address ` set rs"
  unfolding stands_for_def by (metis map_of_eq_None_iff)

lemma agreeing_prefix: "agreeing (rs @ qs) \<Longrightarrow> agreeing rs"
  by (auto simp: agreeing_def)

lemma stands_for_update:
  assumes "stands_for m rs" and "map_of m (tr_address r) \<in> {None, Some (tr_closed r)}"
  shows "stands_for (AList.update (tr_address r) (tr_closed r) m) (rs @ [r])"
proof -
  have "tr_closed q = tr_closed r" if "q \<in> set rs" "tr_address q = tr_address r" for q
  proof -
    have "map_of m (tr_address q) = Some (tr_closed q)" using assms(1) that(1) by (simp only: stands_for_def)
    then show ?thesis using assms(2) that(2) by auto
  qed
  then have "map_of (AList.update (tr_address r) (tr_closed r) m) (tr_address q) = Some (tr_closed q)"
    if "q \<in> set (rs @ [r])" for q
    using assms(1) that unfolding stands_for_def by (auto simp: update_conv')
  moreover have "fst ` set (AList.update (tr_address r) (tr_closed r) m) = tr_address ` set (rs @ [r])"
    using assms(1) unfolding stands_for_def by (simp add: dom_update)
  moreover have "distinct (map fst (AList.update (tr_address r) (tr_closed r) m))"
    using assms(1) unfolding stands_for_def by (simp add: distinct_update)
  ultimately show ?thesis unfolding stands_for_def by blast
qed

lemma merge_stands_for:
  "stands_for m rs \<Longrightarrow> mergeTurnoutRequirements m qs = Some m' \<Longrightarrow> stands_for m' (rs @ qs)"
proof (induction qs arbitrary: m rs)
  case (Cons q qs)
  have "map_of m (tr_address q) \<in> {None, Some (tr_closed q)}"
    using Cons.prems(2) by (auto split: option.splits if_splits)
  moreover have "mergeTurnoutRequirements (AList.update (tr_address q) (tr_closed q) m) qs = Some m'"
    using Cons.prems(2) by (auto split: option.splits if_splits)
  ultimately show ?case
    using Cons.IH [OF stands_for_update [OF Cons.prems(1)]] by fastforce
qed simp

lemma merge_possible:
  "stands_for m rs \<Longrightarrow> agreeing (rs @ qs) \<Longrightarrow> \<exists>m'. mergeTurnoutRequirements m qs = Some m'"
proof (induction qs arbitrary: m rs)
  case (Cons q qs)
  have a: "agreeing ((rs @ [q]) @ qs)" using Cons.prems(2) by simp
  have "map_of m (tr_address q) \<in> {None, Some (tr_closed q)}"
  proof (cases "map_of m (tr_address q)")
    case (Some c)
    then obtain r where r: "r \<in> set rs" "tr_address r = tr_address q"
      using stands_for_lookup [OF Cons.prems(1), of "tr_address q"] by (metis image_iff option.distinct(1))
    then have "map_of m (tr_address q) = Some (tr_closed r)"
      using Cons.prems(1) unfolding stands_for_def by metis
    moreover have "tr_closed r = tr_closed q" using a r unfolding agreeing_def by auto
    ultimately show ?thesis by simp
  qed simp
  then show ?case
    using Cons.IH [OF stands_for_update [OF Cons.prems(1)] a] by (auto split: option.splits)
qed simp

lemma mergeLocoDirection_common:
  "one_way ds \<Longrightarrow> mergeLocoDirection (common_direction ds) d =
     (if one_way (ds @ [d]) then Some (common_direction (ds @ [d])) else None)"
  by (cases d) (auto simp: mergeLocoDirection_def one_way_def common_direction_def)

lemma one_way_prefix: "one_way (ds @ ds') \<Longrightarrow> one_way ds"
  by (auto simp: one_way_def)

subsection \<open>The canonical form of a requirement map\<close>

lemma map_fst_sort_key: "map fst (sort_key fst m) = sort (map fst m)"
proof (rule properties_for_sort [symmetric])
  show "mset (map fst (sort_key fst m)) = mset (map fst m)" by simp
  show "sorted (map fst (sort_key fst m))" by simp
qed

lemma alist_eqI:
  assumes "map fst xs = map fst ys" and "distinct (map fst xs)" and "set xs = set ys"
  shows "xs = ys"
proof (rule nth_equalityI)
  show l: "length xs = length ys" using assms(1) by (metis length_map)
  fix i assume i: "i < length xs"
  obtain k v where x: "xs ! i = (k, v)" by (cases "xs ! i")
  obtain k' v' where y: "ys ! i = (k', v')" by (cases "ys ! i")
  have "map fst xs ! i = map fst ys ! i" using assms(1) by simp
  then have k: "k' = k" using i l x y by simp
  have "(k, v) \<in> set xs" using nth_mem [OF i] x by simp
  moreover have "(k, v') \<in> set xs" using nth_mem [of i ys] i l y k assms(3) by simp
  ultimately have "v = v'" by (rule eq_key_imp_eq_value [OF assms(2)])
  then show "xs ! i = ys ! i" using x y k by simp
qed

lemma toArray_addresses:
  "map tr_address (turnoutRequirementMapToArray m) = sort (map fst m)"
  by (simp add: turnoutRequirementMapToArray_def comp_def case_prod_beta' map_fst_sort_key)

lemma set_toArray:
  "set (turnoutRequirementMapToArray m) = {r. (tr_address r, tr_closed r) \<in> set m}"
proof -
  have "r \<in> (\<lambda>(a, c). \<lparr>tr_address = a, tr_closed = c\<rparr>) ` set m \<longleftrightarrow> (tr_address r, tr_closed r) \<in> set m" for r
    by (cases r) (force simp: image_iff)
  then show ?thesis by (auto simp: turnoutRequirementMapToArray_def)
qed

text \<open>Two maps have the same sorted array when they have the same entries.\<close>

lemma toArray_cong:
  assumes "distinct (map fst m)" and "distinct (map fst m')" and "map_of m = map_of m'"
  shows "turnoutRequirementMapToArray m = turnoutRequirementMapToArray m'"
proof -
  have s: "set m = set m'"
    using assms by (metis map_of_eq_Some_iff subsetI subset_antisym surj_pair)
  have "map fst (sort_key fst m) = map fst (sort_key fst m')"
    unfolding map_fst_sort_key
    by (rule sorted_distinct_set_unique) (use assms s in \<open>auto simp: distinct_sort\<close>)
  then have "sort_key fst m = sort_key fst m'"
    by (rule alist_eqI) (use assms s in \<open>simp_all add: map_fst_sort_key distinct_sort\<close>)
  then show ?thesis by (simp add: turnoutRequirementMapToArray_def)
qed

subsection \<open>The visited key\<close>

lemma direction_text_inj: "direction_text d = direction_text d' \<longleftrightarrow> d = d'"
  by (cases d; cases d') (simp_all add: direction_text_def)

lemma requirement_text_inj: "requirement_text r = requirement_text q \<longleftrightarrow> r = q"
proof
  assume h: "requirement_text r = requirement_text q"
  have c: "CHR '':'' \<notin> set (show_int (tr_address r))" "CHR '':'' \<notin> set (show_int (tr_address q))"
    using show_int_chars [of "CHR '':''" "tr_address r"] show_int_chars [of "CHR '':''" "tr_address q"]
    by (auto simp: is_digit_def)
  have e: "show_int (tr_address r) @ CHR '':'' # (if tr_closed r then ''C'' else ''T'') =
      show_int (tr_address q) @ CHR '':'' # (if tr_closed q then ''C'' else ''T'')"
    using h by (simp add: requirement_text_def)
  have "tr_address r = tr_address q" "tr_closed r = tr_closed q"
    using append_sep_inj [OF c e] by (simp_all add: show_int_inj split: if_splits)
  then show "r = q" by simp
qed simp

lemma requirement_text_chars:
  "c \<in> set (requirement_text r) \<Longrightarrow> c \<noteq> CHR ''_'' \<and> c \<noteq> CHR ''|''"
  using show_int_chars [of c "tr_address r"]
  by (auto simp: requirement_text_def is_digit_def split: if_splits)

lemma requirement_text_nonempty [simp]: "requirement_text r \<noteq> []"
  by (simp add: requirement_text_def)

lemma requirements_text_inj:
  "join_with ''|'' (map requirement_text rs) = join_with ''|'' (map requirement_text qs) \<longleftrightarrow> rs = qs"
proof
  assume h: "join_with ''|'' (map requirement_text rs) = join_with ''|'' (map requirement_text qs)"
  have "map requirement_text rs = map requirement_text qs"
    by (rule join_char_inj [OF _ _ h]) (auto dest: requirement_text_chars)
  then show "rs = qs" by (rule map_injective) (simp add: inj_def requirement_text_inj)
qed simp

lemma turnoutPart_chars: "CHR ''_'' \<notin> set (join_with ''|'' (map requirement_text rs))"
  using set_join_with [of "''|''" "map requirement_text rs"] by (auto dest: requirement_text_chars)

lemma two_underscores_inj:
  assumes "CHR ''_'' \<notin> set t" "CHR ''_'' \<notin> set t'" "CHR ''_'' \<notin> set d" "CHR ''_'' \<notin> set d'"
    and "n @ ''__'' @ t @ ''__'' @ d = n' @ ''__'' @ t' @ ''__'' @ d'"
  shows "n = n' \<and> t = t' \<and> d = d'"
proof -
  have "rev (n @ ''__'' @ t @ ''__'' @ d) = rev (n' @ ''__'' @ t' @ ''__'' @ d')" using assms(5) by simp
  then have e: "rev d @ CHR ''_'' # (CHR ''_'' # rev t @ CHR ''_'' # (CHR ''_'' # rev n)) =
      rev d' @ CHR ''_'' # (CHR ''_'' # rev t' @ CHR ''_'' # (CHR ''_'' # rev n'))" by simp
  have "rev d = rev d' \<and> CHR ''_'' # rev t @ CHR ''_'' # (CHR ''_'' # rev n) =
      CHR ''_'' # rev t' @ CHR ''_'' # (CHR ''_'' # rev n')"
    by (rule append_sep_inj [OF _ _ e]) (use assms in simp_all)
  then have d: "d = d'" and e': "rev t @ CHR ''_'' # (CHR ''_'' # rev n) = rev t' @ CHR ''_'' # (CHR ''_'' # rev n')"
    by simp_all
  have "rev t = rev t' \<and> CHR ''_'' # rev n = CHR ''_'' # rev n'"
    by (rule append_sep_inj [OF _ _ e']) (use assms in simp_all)
  then show ?thesis using d by simp
qed

lemma visitedKey_eq_iff:
  "createRouteVisitedKey n m d = createRouteVisitedKey n' m' d' \<longleftrightarrow>
     gn_name n = gn_name n' \<and> turnoutRequirementMapToArray m = turnoutRequirementMapToArray m' \<and> d = d'"
proof -
  have u: "CHR ''_'' \<notin> set (direction_text x)" for x by (cases x) (simp_all add: direction_text_def)
  show ?thesis
  proof
    assume h: "createRouteVisitedKey n m d = createRouteVisitedKey n' m' d'"
    show "gn_name n = gn_name n' \<and> turnoutRequirementMapToArray m = turnoutRequirementMapToArray m' \<and> d = d'"
      using two_underscores_inj [OF turnoutPart_chars turnoutPart_chars u u
          h [unfolded createRouteVisitedKey_def Let_def]]
      by (simp add: requirements_text_inj direction_text_inj)
  qed (simp add: createRouteVisitedKey_def)
qed

subsection \<open>The loop is a keyed search\<close>

definition route_key :: "search_state \<Rightarrow> string" where
  "route_key s = createRouteVisitedKey (ss_node s) (ss_requirements s) (ss_locoDirection s)"

definition advance :: "search_state \<Rightarrow> edge \<Rightarrow> search_state option" where
  "advance current edge =
     (case (mergeTurnoutRequirements (ss_requirements current) (e_turnoutStates edge),
            mergeLocoDirection (ss_locoDirection current) (e_locoDirection edge)) of
        (Some m, Some d) \<Rightarrow>
          Some \<lparr>ss_node = e_to edge, ss_nodes = ss_nodes current @ [e_to edge],
                ss_edges = ss_edges current @ [edge], ss_requirements = m, ss_locoDirection = d\<rparr>
      | _ \<Rightarrow> None)"

definition leaving :: "graph \<Rightarrow> search_state \<Rightarrow> edge list" where
  "leaving g s = filter (\<lambda>e. same_node (e_from e) (ss_node s)) (g_edges g)"

definition route_succs :: "graph \<times> graph_node \<Rightarrow> search_state \<Rightarrow> search_state list" where
  "route_succs p s = filter_some (advance s) (leaving (fst p) s)"

definition route_goal :: "graph \<times> graph_node \<Rightarrow> search_state \<Rightarrow> bool" where
  "route_goal p s = same_node (ss_node s) (snd p)"

definition solution_of :: "search_state \<Rightarrow> route_solution" where
  "solution_of s = \<lparr>rs_nodes = ss_nodes s, rs_edges = ss_edges s,
     rs_turnoutStates = turnoutRequirementMapToArray (ss_requirements s), rs_locoDirection = ss_locoDirection s\<rparr>"

lemma expandEdges_Cons:
  "expandEdges toNode s (e # es) q =
     (case advance s e of
        None \<Rightarrow> expandEdges toNode s es q
      | Some t \<Rightarrow> if same_node (ss_node t) toNode then Inl (solution_of t) else expandEdges toNode s es (q @ [t]))"
  by (cases "mergeTurnoutRequirements (ss_requirements s) (e_turnoutStates e)";
      cases "mergeLocoDirection (ss_locoDirection s) (e_locoDirection e)")
    (simp_all add: advance_def solution_of_def Let_def)

lemma expandEdges_conv:
  "expandEdges toNode s es q =
     (case find (route_goal (g, toNode)) (filter_some (advance s) es) of
        Some t \<Rightarrow> Inl (solution_of t)
      | None \<Rightarrow> Inr (q @ filter_some (advance s) es))"
proof (induction es arbitrary: q)
  case (Cons e es)
  show ?case
  proof (cases "advance s e")
    case None
    then show ?thesis using Cons.IH [of q] by (simp add: expandEdges_Cons del: expandEdges.simps(2) split: option.split)
  next
    case (Some t)
    then show ?thesis using Cons.IH [of "q @ [t]"]
      by (simp add: expandEdges_Cons route_goal_def del: expandEdges.simps(2) split: option.split)
  qed
qed simp

lemma findRoute_step_conv:
  "findRoute_step g toNode (map_prod id (map_prod id (map_option solution_of)) w) =
     map_prod id (map_prod id (map_option solution_of))
       (bfs_step (route_succs (g, toNode)) (route_goal (g, toNode)) route_key w)"
proof -
  obtain q v r where w: "w = (q, v, r)" by (cases w)
  show ?thesis
    by (cases q) (auto simp: w findRoute_step_def bfs_step_def Let_def route_key_def [symmetric]
        route_succs_def leaving_def [symmetric] expandEdges_conv [where g = g] split: option.splits)
qed

lemma findRoute_loop_conv:
  "while_option (\<lambda>(queue, visited, result). queue \<noteq> [] \<and> result = None) (findRoute_step g toNode) ([s0], [], None) =
     map_option (map_prod id (map_prod id (map_option solution_of)))
       (bfs_run (route_succs (g, toNode)) (route_goal (g, toNode)) route_key s0)"
proof -
  have "map_option (map_prod id (map_prod id (map_option solution_of)))
      (while_option bfs_going (bfs_step (route_succs (g, toNode)) (route_goal (g, toNode)) route_key) ([s0], [], None)) =
    while_option (\<lambda>(queue, visited, result). queue \<noteq> [] \<and> result = None) (findRoute_step g toNode)
      (map_prod id (map_prod id (map_option solution_of)) ([s0], [], None))"
    by (rule while_option_commute) (auto simp: bfs_going_def findRoute_step_conv)
  then show ?thesis by (simp add: bfs_run_def)
qed

definition universe :: "graph \<Rightarrow> graph_node set" where
  "universe g = set (g_nodes g) \<union> e_to ` set (g_edges g)"

definition valid_state :: "graph \<times> graph_node \<Rightarrow> search_state \<Rightarrow> bool" where
  "valid_state p s \<longleftrightarrow> ss_node s \<in> universe (fst p) \<and> distinct (map fst (ss_requirements s)) \<and>
     fst ` set (ss_requirements s) \<subseteq> tr_address ` set (requirements_of (g_edges (fst p)))"

lemma advance_Some:
  "advance s e = Some t \<longleftrightarrow>
     (\<exists>m d. mergeTurnoutRequirements (ss_requirements s) (e_turnoutStates e) = Some m \<and>
        mergeLocoDirection (ss_locoDirection s) (e_locoDirection e) = Some d \<and>
        t = \<lparr>ss_node = e_to e, ss_nodes = ss_nodes s @ [e_to e], ss_edges = ss_edges s @ [e],
             ss_requirements = m, ss_locoDirection = d\<rparr>)"
  by (auto simp: advance_def split: option.splits)

lemma route_succs_iff:
  "t \<in> set (route_succs p s) \<longleftrightarrow>
     (\<exists>e\<in>set (g_edges (fst p)). same_node (e_from e) (ss_node s) \<and> advance s e = Some t)"
  by (auto simp: route_succs_def set_filter_some leaving_def)

lemma merge_keys:
  "mergeTurnoutRequirements m rs = Some m' \<Longrightarrow> distinct (map fst m) \<Longrightarrow>
     distinct (map fst m') \<and> fst ` set m' = fst ` set m \<union> tr_address ` set rs"
proof (induction rs arbitrary: m)
  case (Cons r rs)
  have "mergeTurnoutRequirements (AList.update (tr_address r) (tr_closed r) m) rs = Some m'"
    using Cons.prems(1) by (auto split: option.splits if_splits)
  from Cons.IH [OF this] Cons.prems(2) show ?case by (auto simp: distinct_update dom_update)
qed simp

lemma merge_cong:
  "map_of m = map_of n \<Longrightarrow> mergeTurnoutRequirements m rs = Some m' \<Longrightarrow>
     \<exists>n'. mergeTurnoutRequirements n rs = Some n' \<and> map_of m' = map_of n'"
proof (induction rs arbitrary: m n)
  case (Cons r rs)
  have u: "map_of (AList.update (tr_address r) (tr_closed r) m) = map_of (AList.update (tr_address r) (tr_closed r) n)"
    using Cons.prems(1) by (simp add: update_conv')
  have "mergeTurnoutRequirements (AList.update (tr_address r) (tr_closed r) m) rs = Some m'"
    using Cons.prems(2) by (auto split: option.splits if_splits)
  from Cons.IH [OF u this] show ?case
    using Cons.prems by (auto split: option.splits if_splits)
qed simp

lemma toArray_map_of:
  assumes "distinct (map fst m)" and "distinct (map fst n)"
    and "turnoutRequirementMapToArray m = turnoutRequirementMapToArray n"
  shows "map_of m = map_of n"
proof -
  have "(\<lparr>tr_address = a, tr_closed = c\<rparr> \<in> set (turnoutRequirementMapToArray m)) = ((a, c) \<in> set m)"
    "(\<lparr>tr_address = a, tr_closed = c\<rparr> \<in> set (turnoutRequirementMapToArray n)) = ((a, c) \<in> set n)" for a c
    by (simp_all add: set_toArray)
  then have "set m = set n" using assms(3) by auto
  then show ?thesis using assms by (simp add: map_of_inject_set)
qed

lemma valid_route_succ:
  assumes v: "valid_state p s" and t: "t \<in> set (route_succs p s)"
  shows "valid_state p t"
proof -
  obtain e m where e: "e \<in> set (g_edges (fst p))"
    and m: "mergeTurnoutRequirements (ss_requirements s) (e_turnoutStates e) = Some m"
    and tn: "ss_node t = e_to e" "ss_requirements t = m"
    using t by (auto simp: route_succs_iff advance_Some)
  have r: "tr_address ` set (e_turnoutStates e) \<subseteq> tr_address ` set (requirements_of (g_edges (fst p)))"
    using e by (auto simp: requirements_of_def)
  have k: "distinct (map fst m)" "fst ` set m = fst ` set (ss_requirements s) \<union> tr_address ` set (e_turnoutStates e)"
    using merge_keys [OF m] v by (simp_all add: valid_state_def)
  show ?thesis
    using e k r v by (simp add: valid_state_def universe_def tn)
qed

lemma finite_route_keys: "finite (route_key ` Collect (valid_state p))"
proof -
  let ?A = "tr_address ` set (requirements_of (g_edges (fst p)))"
  let ?M = "{m :: requirement_map. set m \<subseteq> ?A \<times> UNIV \<and> distinct m}"
  have "finite ?M" by (rule finite_subset_distinct) simp
  moreover have "finite (UNIV :: travel_direction set)"
  proof -
    have "(UNIV :: travel_direction set) = {Unknown, Forward, Reverse}" using travel_direction.exhaust by blast
    then show ?thesis by (metis finite.emptyI finite.insertI)
  qed
  moreover have "finite (universe (fst p))" by (simp add: universe_def)
  ultimately have f: "finite ((\<lambda>(n, m, d). createRouteVisitedKey n m d) ` (universe (fst p) \<times> ?M \<times> UNIV))"
    by blast
  have "route_key s \<in> (\<lambda>(n, m, d). createRouteVisitedKey n m d) ` (universe (fst p) \<times> ?M \<times> UNIV)"
    if s: "valid_state p s" for s
  proof -
    have "distinct (ss_requirements s)" using s by (simp add: valid_state_def distinct_map)
    moreover have "x \<in> ?A \<times> UNIV" if "x \<in> set (ss_requirements s)" for x
    proof -
      have "fst x \<in> ?A" using s that unfolding valid_state_def by blast
      then show ?thesis by (cases x) simp
    qed
    ultimately have "ss_requirements s \<in> ?M" by blast
    then have "(ss_node s, ss_requirements s, ss_locoDirection s) \<in> universe (fst p) \<times> ?M \<times> UNIV"
      using s by (simp add: valid_state_def)
    then show ?thesis by (force simp: route_key_def)
  qed
  then show ?thesis using f by (auto intro: finite_subset)
qed

lemma route_key_nodes:
  assumes "well_named (fst p)" and "valid_state p s" and "valid_state p t" and "route_key s = route_key t"
  shows "same_node (ss_node s) (ss_node t) \<and> map_of (ss_requirements s) = map_of (ss_requirements t) \<and>
    ss_locoDirection s = ss_locoDirection t"
  using assms toArray_map_of [of "ss_requirements s" "ss_requirements t"]
  by (auto simp: route_key_def visitedKey_eq_iff valid_state_def universe_def well_named_def)

lemma route_key_succs:
  assumes w: "well_named (fst p)" and s: "valid_state p s" and t: "valid_state p t" and k: "route_key s = route_key t"
  shows "route_key ` set (route_succs p s) \<subseteq> route_key ` set (route_succs p t)"
proof
  fix x assume "x \<in> route_key ` set (route_succs p s)"
  then obtain u where u: "u \<in> set (route_succs p s)" "x = route_key u" by blast
  then obtain e where e: "e \<in> set (g_edges (fst p))" "same_node (e_from e) (ss_node s)" "advance s e = Some u"
    by (auto simp: route_succs_iff)
  note eq = route_key_nodes [OF w s t k]
  obtain m d where m: "mergeTurnoutRequirements (ss_requirements s) (e_turnoutStates e) = Some m"
    and d: "mergeLocoDirection (ss_locoDirection s) (e_locoDirection e) = Some d"
    and un: "ss_node u = e_to e" "ss_requirements u = m" "ss_locoDirection u = d"
    using e(3) by (auto simp: advance_Some)
  obtain m' where m': "mergeTurnoutRequirements (ss_requirements t) (e_turnoutStates e) = Some m'"
    and mm: "map_of m = map_of m'"
    using merge_cong [OF _ m] eq by blast
  define v where "v = \<lparr>ss_node = e_to e, ss_nodes = ss_nodes t @ [e_to e], ss_edges = ss_edges t @ [e],
      ss_requirements = m', ss_locoDirection = d\<rparr>"
  have "advance t e = Some v" using m' d eq by (simp add: advance_Some v_def)
  moreover have "same_node (e_from e) (ss_node t)" using e(2) eq same_node_trans by blast
  ultimately have v: "v \<in> set (route_succs p t)" using e(1) by (auto simp: route_succs_iff)
  have "turnoutRequirementMapToArray m = turnoutRequirementMapToArray m'"
    using toArray_cong mm merge_keys [OF m] merge_keys [OF m'] s t by (auto simp: valid_state_def)
  then have "route_key u = route_key v" using un by (simp add: route_key_def visitedKey_eq_iff v_def)
  then show "x \<in> route_key ` set (route_succs p t)" using u(2) v by blast
qed

interpretation routes: state_search valid_state route_succs route_goal route_key "\<lambda>s. length (ss_edges s)"
proof
  show "valid_state p t" if "valid_state p s" "t \<in> set (route_succs p s)" for p s t
    by (rule valid_route_succ [OF that])
  show "length (ss_edges t) = Suc (length (ss_edges s))" if "t \<in> set (route_succs p s)" for p s t
    using that by (auto simp: route_succs_iff advance_Some)
  show "finite (route_key ` Collect (valid_state p))" for p
    by (rule finite_route_keys)
qed

interpretation routes: keyed_search valid_state route_succs route_goal route_key "\<lambda>s. length (ss_edges s)" "\<lambda>p. well_named (fst p)"
proof
  show "route_key ` set (route_succs p s) = route_key ` set (route_succs p t)"
    if "well_named (fst p)" "valid_state p s" "valid_state p t" "route_key s = route_key t" for p s t
    using route_key_succs that by (metis subset_antisym)
  show "route_goal p s = route_goal p t"
    if "well_named (fst p)" "valid_state p s" "valid_state p t" "route_key s = route_key t" for p s t
    using route_key_nodes [OF that] by (auto simp: route_goal_def same_node_def)
qed


subsection \<open>States reached are routes\<close>

definition route_state :: "graph \<Rightarrow> graph_node \<Rightarrow> search_state \<Rightarrow> bool" where
  "route_state g u s \<longleftrightarrow> edge_walk g u (ss_edges s) (ss_node s) \<and> one_way (map e_locoDirection (ss_edges s)) \<and>
     ss_nodes s = u # map e_to (ss_edges s) \<and> stands_for (ss_requirements s) (requirements_of (ss_edges s)) \<and>
     ss_locoDirection s = common_direction (map e_locoDirection (ss_edges s))"

lemma route_state_initial: "route_state g u (initial_state u)"
  by (simp add: route_state_def initial_state_def one_way_def common_direction_def)

lemma route_state_advance:
  assumes s: "route_state g u s" and e: "e \<in> set (g_edges g)" "same_node (e_from e) (ss_node s)"
    and t: "advance s e = Some t"
  shows "route_state g u t"
proof -
  obtain m d where m: "mergeTurnoutRequirements (ss_requirements s) (e_turnoutStates e) = Some m"
    and d: "mergeLocoDirection (ss_locoDirection s) (e_locoDirection e) = Some d"
    and tn: "ss_node t = e_to e" "ss_nodes t = ss_nodes s @ [e_to e]" "ss_edges t = ss_edges s @ [e]"
      "ss_requirements t = m" "ss_locoDirection t = d"
    using t by (auto simp: advance_Some)
  have dd: "one_way (map e_locoDirection (ss_edges t))" "d = common_direction (map e_locoDirection (ss_edges t))"
    using d s mergeLocoDirection_common [of "map e_locoDirection (ss_edges s)" "e_locoDirection e"]
    by (auto simp: route_state_def tn split: if_splits)
  have "edge_walk g u (ss_edges t) (ss_node t)"
    using s e by (auto simp: route_state_def tn edge_walk_snoc)
  moreover have "stands_for m (requirements_of (ss_edges t))"
    using merge_stands_for [OF _ m] s by (simp add: route_state_def tn)
  ultimately show ?thesis using dd s by (simp add: route_state_def tn)
qed

lemma walk_route_state: "walk_from (route_succs p) (initial_state u) s \<Longrightarrow> route_state (fst p) u s"
proof (induction rule: walk_from.induct)
  case (on s t)
  then show ?case by (auto simp: route_succs_iff intro: route_state_advance)
qed (rule route_state_initial)

lemma route_state_compatible: "route_state g u s \<Longrightarrow> compatible (ss_edges s)"
  by (auto simp: route_state_def compatible_def dest: stands_for_agreeing)

lemma route_state_reaches:
  assumes "edge_walk g u es v" and "compatible es"
  shows "\<exists>s. walk_from (route_succs (g, goalNode)) (initial_state u) s \<and> ss_edges s = es \<and> same_node (ss_node s) v"
  using assms
proof (induction es arbitrary: v rule: rev_induct)
  case Nil
  then show ?case by (intro exI [of _ "initial_state u"]) (auto simp: initial_state_def)
next
  case (snoc e es)
  then obtain w where w: "edge_walk g u es w" "same_node (e_from e) w" and e: "e \<in> set (g_edges g)" "same_node (e_to e) v"
    by (auto simp: edge_walk_snoc)
  have c: "compatible es"
    using snoc.prems(2) agreeing_prefix one_way_prefix by (auto simp: compatible_def)
  obtain s where s: "walk_from (route_succs (g, goalNode)) (initial_state u) s" "ss_edges s = es" "same_node (ss_node s) w"
    using snoc.IH [OF w(1) c] by blast
  have r: "route_state g u s" using walk_route_state [OF s(1)] by simp
  obtain m where m: "mergeTurnoutRequirements (ss_requirements s) (e_turnoutStates e) = Some m"
    using merge_possible [of "ss_requirements s" "requirements_of es" "e_turnoutStates e"] r s(2) snoc.prems(2)
    by (auto simp: route_state_def compatible_def)
  obtain d where d: "mergeLocoDirection (ss_locoDirection s) (e_locoDirection e) = Some d"
    using mergeLocoDirection_common [of "map e_locoDirection es" "e_locoDirection e"] r s(2) snoc.prems(2)
    by (auto simp: route_state_def compatible_def)
  define t where "t = \<lparr>ss_node = e_to e, ss_nodes = ss_nodes s @ [e_to e], ss_edges = ss_edges s @ [e],
             ss_requirements = m, ss_locoDirection = d\<rparr>"
  have "advance s e = Some t" by (simp add: advance_Some m d t_def)
  moreover have "same_node (e_from e) (ss_node s)" using w(2) s(3) by (simp add: same_node_def)
  ultimately have "t \<in> set (route_succs (g, goalNode) s)" using e(1) by (auto simp: route_succs_iff)
  then have "walk_from (route_succs (g, goalNode)) (initial_state u) t" by (rule walk_from.on [OF s(1)])
  then show ?case using e(2) s(2) by (intro exI [of _ t]) (simp add: t_def)
qed

lemma valid_initial: "u \<in> set (g_nodes g) \<Longrightarrow> valid_state (g, v) (initial_state u)"
  by (simp add: valid_state_def universe_def initial_state_def)

definition node_named :: "graph \<Rightarrow> string \<Rightarrow> graph_node option" where
  "node_named g name = find (\<lambda>n. gn_name n = name) (g_nodes g)"

lemma node_named_in: "node_named g name = Some u \<Longrightarrow> u \<in> set (g_nodes g) \<and> gn_name u = name"
  unfolding node_named_def by (drule find_SomeD) simp

text \<open>The two ways \<open>findRoute\<close> ends when both nodes exist.\<close>

lemma findRoute_search:
  assumes "node_named g a = Some u" and "node_named g b = Some v" and "\<not> same_node u v"
  shows "findRoute g a b =
    map_option (\<lambda>(q, vis, r). map_option solution_of r)
      (bfs_run (route_succs (g, v)) (route_goal (g, v)) route_key (initial_state u))"
proof -
  have "findRoute g a b = map_option (\<lambda>(queue, visited, result). result)
      (while_option (\<lambda>(queue, visited, result). queue \<noteq> [] \<and> result = None)
        (findRoute_step g v) ([initial_state u], [], None))"
    using assms by (simp add: findRoute_def node_named_def)
  then show ?thesis
    unfolding findRoute_loop_conv by (simp add: option.map_comp comp_def case_prod_beta')
qed

lemma findRoute_same:
  assumes "node_named g a = Some u" and "node_named g b = Some v" and "same_node u v"
  shows "findRoute g a b = Some (Some \<lparr>rs_nodes = [u], rs_edges = [], rs_turnoutStates = [], rs_locoDirection = Unknown\<rparr>)"
  using assms by (simp add: findRoute_def node_named_def)

lemma findRoute_unknown:
  assumes "node_named g a = None \<or> node_named g b = None"
  shows "findRoute g a b = Some None"
  using assms by (auto simp: findRoute_def node_named_def split: option.split)

lemma findRoute_ends: "\<exists>r. findRoute g a b = Some r"
proof (cases "node_named g a")
  case u: (Some u)
  show ?thesis
  proof (cases "node_named g b")
    case v: (Some v)
    show ?thesis
    proof (cases "same_node u v")
      case False
      have "\<exists>w. bfs_run (route_succs (g, v)) (route_goal (g, v)) route_key (initial_state u) = Some w"
        using routes.run_stops [OF valid_initial] node_named_in [OF u] by blast
      then show ?thesis using findRoute_search [OF u v False] by auto
    qed (use findRoute_same [OF u v] in blast)
  qed (use findRoute_unknown in blast)
qed (use findRoute_unknown in blast)

text \<open>What a route between two nodes is.\<close>

definition is_route :: "graph \<Rightarrow> graph_node \<Rightarrow> graph_node \<Rightarrow> 'a route_solution_scheme \<Rightarrow> bool" where
  "is_route g u v sol \<longleftrightarrow>
     edge_walk g u (rs_edges sol) v \<and> compatible (rs_edges sol) \<and>
     rs_nodes sol = u # map e_to (rs_edges sol) \<and>
     rs_locoDirection sol = common_direction (map e_locoDirection (rs_edges sol)) \<and>
     set (rs_turnoutStates sol) = set (requirements_of (rs_edges sol)) \<and>
     sorted (map tr_address (rs_turnoutStates sol)) \<and> distinct (map tr_address (rs_turnoutStates sol))"

lemma stands_for_array:
  assumes "stands_for m rs"
  shows "set (turnoutRequirementMapToArray m) = set rs"
proof -
  have "(tr_address r, tr_closed r) \<in> set m \<longleftrightarrow> r \<in> set rs" for r
  proof
    assume h: "(tr_address r, tr_closed r) \<in> set m"
    then have "tr_address r \<in> tr_address ` set rs" using assms unfolding stands_for_def by (metis fst_conv image_eqI)
    then obtain q where q: "q \<in> set rs" "tr_address q = tr_address r" by auto
    have "map_of m (tr_address r) = Some (tr_closed r)" using h assms by (simp add: stands_for_def)
    moreover have "map_of m (tr_address q) = Some (tr_closed q)" using q(1) assms by (simp add: stands_for_def)
    ultimately have "q = r" using q(2) by simp
    then show "r \<in> set rs" using q(1) by simp
  next
    assume "r \<in> set rs"
    then have "map_of m (tr_address r) = Some (tr_closed r)" using assms by (simp add: stands_for_def)
    then show "(tr_address r, tr_closed r) \<in> set m" by (rule map_of_SomeD)
  qed
  then show ?thesis by (auto simp: set_toArray)
qed

lemma is_route_solution:
  assumes "route_state g u s" and "same_node (ss_node s) v"
  shows "is_route g u v (solution_of s)"
  using assms stands_for_array [of "ss_requirements s"] route_state_compatible [OF assms(1)]
  by (auto simp: is_route_def solution_of_def route_state_def toArray_addresses stands_for_def intro: edge_walk_same)

lemma findRoute_is_route:
  assumes "node_named g a = Some u" and "node_named g b = Some v" and "findRoute g a b = Some (Some sol)"
  shows "is_route g u v sol"
proof (cases "same_node u v")
  case True
  then show ?thesis using findRoute_same [OF assms(1,2)] assms(3)
    by (auto simp: is_route_def compatible_def agreeing_def one_way_def common_direction_def)
next
  case False
  then obtain q vis s where r: "bfs_run (route_succs (g, v)) (route_goal (g, v)) route_key (initial_state u) = Some (q, vis, Some s)"
    and sol: "sol = solution_of s"
    using findRoute_search [OF assms(1,2) False] assms(3) by (auto simp: eq_commute [of "Some (Some sol)"])
  have "valid_state (g, v) (initial_state u)" using valid_initial node_named_in [OF assms(1)] by blast
  from routes.run_held [OF this r] obtain s' where s': "walk_from (route_succs (g, v)) (initial_state u) s'"
    "s \<in> set (route_succs (g, v) s')" and goal: "route_goal (g, v) s"
    by (auto simp: routes.held_def)
  have "route_state g u s" using walk_route_state [OF walk_from.on [OF s']] by simp
  then show ?thesis using goal is_route_solution by (simp add: sol route_goal_def)
qed

lemma findRoute_finds:
  assumes w: "well_named g" and u: "node_named g a = Some u" and v: "node_named g b = Some v"
    and es: "edge_walk g u es v" "compatible es"
  shows "\<exists>sol. findRoute g a b = Some (Some sol) \<and> length (rs_edges sol) \<le> length es"
proof (cases "same_node u v")
  case True
  then show ?thesis using findRoute_same [OF u v] by simp
next
  case False
  have i: "valid_state (g, v) (initial_state u)" using valid_initial node_named_in [OF u] by blast
  obtain s where s: "walk_from (route_succs (g, v)) (initial_state u) s" "ss_edges s = es" "same_node (ss_node s) v"
    using route_state_reaches [OF es] by blast
  have ne: "es \<noteq> []" using es(1) False by auto
  have goal: "route_goal (g, v) s" using s(3) by (simp add: route_goal_def)
  obtain q vis r where run: "bfs_run (route_succs (g, v)) (route_goal (g, v)) route_key (initial_state u) = Some (q, vis, r)"
    using routes.run_stops [OF i] by auto
  have d: "length (ss_edges (initial_state u)) < length (ss_edges s)" using ne s(2) by (simp add: initial_state_def)
  show ?thesis
  proof (cases r)
    case None
    then show ?thesis using routes.run_complete [of "(g, v)" "initial_state u" q vis s] w i run s(1) d goal by simp
  next
    case (Some t)
    then have "length (ss_edges t) \<le> length es"
      using routes.run_shortest [of "(g, v)" "initial_state u" q vis t s] w i run s d goal by simp
    then show ?thesis using findRoute_search [OF u v False] run Some by (simp add: solution_of_def)
  qed
qed


subsection \<open>Block routes\<close>

lemma findRouteBetweenBlocks_Some:
  "findRouteBetweenBlocks g a b = Some (Some r) \<longleftrightarrow>
     (\<exists>u v fromBlock toBlock sol. findNodeContainingBlock g a = Some u \<and> findNodeContainingBlock g b = Some v \<and>
        findBlockById g a = Some fromBlock \<and> findBlockById g b = Some toBlock \<and>
        findRoute g (gn_name u) (gn_name v) = Some (Some sol) \<and>
        r = \<lparr>rs_nodes = rs_nodes sol, rs_edges = rs_edges sol,
             rs_turnoutStates = rs_turnoutStates sol, rs_locoDirection = rs_locoDirection sol,
             br_fromBlock = fromBlock, br_toBlock = toBlock,
             br_path = block_path fromBlock u toBlock v (rs_nodes sol)\<rparr>)"
  by (auto simp: findRouteBetweenBlocks_def split: option.splits)

lemma findRouteBetweenBlocks_ends: "\<exists>r. findRouteBetweenBlocks g a b = Some r"
  using findRoute_ends [of g] by (auto simp: findRouteBetweenBlocks_def split: option.splits)

definition route_of :: "graph \<Rightarrow> section_block \<times> section_block \<Rightarrow> runnable_route option" where
  "route_of g p = (if sb_id (fst p) = sb_id (snd p) then None
     else case findRouteBetweenBlocks g (sb_id (fst p)) (sb_id (snd p)) of
       Some (Some sol) \<Rightarrow> Some \<lparr>rr_fromBlock = fst p, rr_toBlock = snd p, rr_solution = sol\<rparr>
     | _ \<Rightarrow> None)"

lemma collect_routes_conv: "collect_routes g ps = Some (filter_some (route_of g) ps)"
proof (induction ps)
  case (Cons p ps)
  obtain a b where p: "p = (a, b)" by (cases p)
  obtain res where res: "findRouteBetweenBlocks g (sb_id a) (sb_id b) = Some res"
    using findRouteBetweenBlocks_ends by blast
  show ?case by (cases res) (simp_all add: p route_of_def res Cons.IH)
qed simp

lemma route_of_Some:
  "route_of g (a, b) = Some r \<longleftrightarrow> rr_fromBlock r = a \<and> rr_toBlock r = b \<and> sb_id a \<noteq> sb_id b \<and>
     findRouteBetweenBlocks g (sb_id a) (sb_id b) = Some (Some (rr_solution r))"
  by (cases r) (auto simp: route_of_def split: option.splits)

lemma runnable_route_iff:
  "\<exists>rs. getRunnableBlockRoutes g = Some rs \<and>
     (\<forall>r. r \<in> set rs \<longleftrightarrow> rr_fromBlock r \<in> set (all_blocks g) \<and> rr_toBlock r \<in> set (all_blocks g) \<and>
        sb_id (rr_fromBlock r) \<noteq> sb_id (rr_toBlock r) \<and>
        findRouteBetweenBlocks g (sb_id (rr_fromBlock r)) (sb_id (rr_toBlock r)) = Some (Some (rr_solution r)))"
proof (intro exI conjI allI)
  show "getRunnableBlockRoutes g = Some (filter_some (route_of g) (List.product (all_blocks g) (all_blocks g)))"
    by (simp add: getRunnableBlockRoutes_def collect_routes_conv)
qed (auto simp: set_filter_some route_of_Some)

lemma findNodeContainingBlock_in:
  "findNodeContainingBlock g b = Some u \<Longrightarrow> u \<in> set (g_nodes g) \<and> (\<exists>x\<in>set (gn_blocks u). sb_id x = b)"
  unfolding findNodeContainingBlock_def by (drule find_SomeD) simp

lemma node_named_of:
  assumes "well_named g" and "u \<in> set (g_nodes g)"
  shows "\<exists>u'. node_named g (gn_name u) = Some u' \<and> same_node u' u"
proof -
  obtain u' where u': "node_named g (gn_name u) = Some u'"
    using find_is_Some [of u "g_nodes g" "\<lambda>n. gn_name n = gn_name u"] assms(2) by (auto simp: node_named_def)
  then show ?thesis using node_named_in [OF u'] assms by (auto simp: well_named_def)
qed

lemma block_route_is_route:
  assumes w: "well_named g" and r: "findRouteBetweenBlocks g a b = Some (Some r)"
  shows "\<exists>u v u'. findNodeContainingBlock g a = Some u \<and> findNodeContainingBlock g b = Some v \<and> same_node u' u \<and>
     is_route g u' v r \<and> hd (br_path r) = BlockItem (br_fromBlock r) u \<and> last (br_path r) = BlockItem (br_toBlock r) v"
proof -
  obtain u v fromBlock toBlock sol where u: "findNodeContainingBlock g a = Some u"
    and v: "findNodeContainingBlock g b = Some v"
    and sol: "findRoute g (gn_name u) (gn_name v) = Some (Some sol)"
    and req: "r = \<lparr>rs_nodes = rs_nodes sol, rs_edges = rs_edges sol,
             rs_turnoutStates = rs_turnoutStates sol, rs_locoDirection = rs_locoDirection sol,
             br_fromBlock = fromBlock, br_toBlock = toBlock,
             br_path = block_path fromBlock u toBlock v (rs_nodes sol)\<rparr>"
    using r by (auto simp: findRouteBetweenBlocks_Some)
  obtain u' where u': "node_named g (gn_name u) = Some u'" "same_node u' u"
    using node_named_of [OF w] findNodeContainingBlock_in [OF u] by blast
  obtain v' where v': "node_named g (gn_name v) = Some v'" "same_node v' v"
    using node_named_of [OF w] findNodeContainingBlock_in [OF v] by blast
  have "is_route g u' v' sol" by (rule findRoute_is_route [OF u'(1) v'(1) sol])
  then have "is_route g u' v r" using v'(2) by (auto simp: is_route_def req intro: edge_walk_same)
  then show ?thesis using u v u'(2) by (intro exI conjI) (auto simp: req block_path_def)
qed

subsection \<open>Properties of the search\<close>

text \<open>C1. The route search returns on every graph and every pair of names: its loop ends.\<close>

theorem findRoute_returns: "\<exists>result. findRoute g fromName toName = Some result"
  by (rule findRoute_ends)

text \<open>C2. A route that the search returns leads from the node of the first name to the node of the
  second along edges of the graph; its turnout requirements are exactly those of its edges, each
  address once and in order, none contradicting another; no two edges oppose in direction and the
  direction reported is the one they share.\<close>

theorem findRoute_correct:
  "findRoute g fromName toName = Some (Some sol) \<Longrightarrow>
     \<exists>u v. node_named g fromName = Some u \<and> node_named g toName = Some v \<and> is_route g u v sol"
  using findRoute_is_route findRoute_unknown
  by (cases "node_named g fromName"; cases "node_named g toName") auto

text \<open>C3. When nodes with one name are one node, the search finds a route whenever some walk of
  agreeing requirements and directions joins the two nodes, and no such walk has fewer edges.\<close>

theorem findRoute_shortest:
  "well_named g \<Longrightarrow> node_named g fromName = Some u \<Longrightarrow> node_named g toName = Some v \<Longrightarrow>
     edge_walk g u es v \<Longrightarrow> compatible es \<Longrightarrow>
     \<exists>sol. findRoute g fromName toName = Some (Some sol) \<and> length (rs_edges sol) \<le> length es"
  by (rule findRoute_finds)

text \<open>The visited key separates two search states exactly when they differ in node name, in
  their sorted requirements or in direction: no two different ones are written as one text.\<close>

theorem createRouteVisitedKey_faithful:
  "createRouteVisitedKey n m d = createRouteVisitedKey n' m' d' \<longleftrightarrow>
     gn_name n = gn_name n' \<and> turnoutRequirementMapToArray m = turnoutRequirementMapToArray m' \<and> d = d'"
  by (rule visitedKey_eq_iff)

text \<open>The runnable block routes are, for every ordered pair of blocks with different ids, the
  route found between them when there is one, and nothing else.\<close>

theorem getRunnableBlockRoutes_exact:
  "\<exists>rs. getRunnableBlockRoutes g = Some rs \<and>
     (\<forall>r. r \<in> set rs \<longleftrightarrow> rr_fromBlock r \<in> set (all_blocks g) \<and> rr_toBlock r \<in> set (all_blocks g) \<and>
        sb_id (rr_fromBlock r) \<noteq> sb_id (rr_toBlock r) \<and>
        findRouteBetweenBlocks g (sb_id (rr_fromBlock r)) (sb_id (rr_toBlock r)) = Some (Some (rr_solution r)))"
  by (rule runnable_route_iff)

text \<open>A block transition is a route between two blocks that crosses at least one edge and has no
  block on any section strictly between its ends.\<close>

theorem getRunnableBlockTransitions_direct:
  assumes "well_named g" and "getRunnableBlockTransitions g = Some ts" and "r \<in> set ts"
  shows "\<exists>u v u'. findNodeContainingBlock g (sb_id (rr_fromBlock r)) = Some u \<and>
     findNodeContainingBlock g (sb_id (rr_toBlock r)) = Some v \<and> same_node u' u \<and> is_route g u' v (rr_solution r) \<and>
     rs_edges (rr_solution r) \<noteq> [] \<and> concat (map gn_blocks (butlast (map e_to (rs_edges (rr_solution r))))) = []"
proof -
  obtain rs where rs: "getRunnableBlockRoutes g = Some rs"
    "\<And>r. r \<in> set rs \<longleftrightarrow> rr_fromBlock r \<in> set (all_blocks g) \<and> rr_toBlock r \<in> set (all_blocks g) \<and>
        sb_id (rr_fromBlock r) \<noteq> sb_id (rr_toBlock r) \<and>
        findRouteBetweenBlocks g (sb_id (rr_fromBlock r)) (sb_id (rr_toBlock r)) = Some (Some (rr_solution r))"
    using runnable_route_iff by blast
  have r: "findRouteBetweenBlocks g (sb_id (rr_fromBlock r)) (sb_id (rr_toBlock r)) = Some (Some (rr_solution r))"
    and t: "is_transition r"
  proof -
    have "ts = filter is_transition rs" using assms(2) rs(1) by (simp add: getRunnableBlockTransitions_def)
    then have "r \<in> set rs" and t: "is_transition r" using assms(3) by auto
    then show "findRouteBetweenBlocks g (sb_id (rr_fromBlock r)) (sb_id (rr_toBlock r)) = Some (Some (rr_solution r))"
      by (simp only: rs(2))
    show "is_transition r" by (rule t)
  qed
  obtain u v u' where ex: "findNodeContainingBlock g (sb_id (rr_fromBlock r)) = Some u"
     "findNodeContainingBlock g (sb_id (rr_toBlock r)) = Some v" "same_node u' u" "is_route g u' v (rr_solution r)"
    using block_route_is_route [OF assms(1) r] by blast
  then have n: "rs_nodes (rr_solution r) = u' # map e_to (rs_edges (rr_solution r))" unfolding is_route_def by blast
  have "rs_edges (rr_solution r) \<noteq> []" using t n by (auto simp: is_transition_def)
  moreover have "\<forall>x\<in>set (butlast (map e_to (rs_edges (rr_solution r)))). gn_blocks x = []"
    using t n by (simp add: is_transition_def Let_def split: if_splits)
  then have "concat (map gn_blocks (butlast (map e_to (rs_edges (rr_solution r))))) = []"
    unfolding concat_eq_Nil_conv set_map by blast
  ultimately show ?thesis using ex by blast
qed

subsection \<open>An example network\<close>

text \<open>Section S1 (block 7) leads over a closed turnout 3 to S2 and on to S3 (block 8).\<close>

definition example_node :: "nat \<Rightarrow> string \<Rightarrow> section_block list \<Rightarrow> graph_node" where
  "example_node i n bs = \<lparr>gn_ref = i, gn_name = n, gn_trackName = n, gn_x = 0, gn_y = 0, gn_isVirtual = False, gn_busy = False,
     gn_detectors = [], gn_signals = [], gn_blocks = bs, gn_elementIds = []\<rparr>"

definition example_block :: "int \<Rightarrow> string \<Rightarrow> section_block" where
  "example_block i n = \<lparr>sb_id = i, sb_name = n, sb_trackName = n, sb_label = n\<rparr>"

definition example_edge :: "graph_node \<Rightarrow> graph_node \<Rightarrow> turnout_requirement list \<Rightarrow> travel_direction \<Rightarrow> edge" where
  "example_edge u v rs d = \<lparr>e_from = u, e_to = v, e_turnoutStates = rs, e_locoDirection = d\<rparr>"

definition example_s1 :: graph_node where "example_s1 = example_node 1 ''S1'' [example_block 7 ''B7'']"
definition example_s2 :: graph_node where "example_s2 = example_node 2 ''S2'' []"
definition example_s3 :: graph_node where "example_s3 = example_node 3 ''S3'' [example_block 8 ''B8'']"

definition example_edges :: "edge list" where
  "example_edges =
     [example_edge example_s1 example_s2 [\<lparr>tr_address = 3, tr_closed = True\<rparr>] Unknown,
      example_edge example_s2 example_s3 [] Forward]"

definition example_graph :: graph where
  "example_graph = \<lparr>g_nodes = [example_s1, example_s2, example_s3], g_edges = example_edges\<rparr>"

lemmas example_defs = example_graph_def example_edges_def example_s1_def example_s2_def example_s3_def
  example_node_def example_block_def example_edge_def

lemma example_route: "\<exists>sol. findRoute example_graph ''S1'' ''S3'' = Some (Some sol)"
proof -
  have "case findRoute example_graph ''S1'' ''S3'' of Some (Some sol) \<Rightarrow> True | _ \<Rightarrow> False" by code_simp
  then show ?thesis by (simp split: option.splits)
qed

lemma example_well_named: "well_named example_graph"
  by code_simp

lemma example_transition: "\<exists>ts r. getRunnableBlockTransitions example_graph = Some ts \<and> r \<in> set ts"
proof -
  have "case getRunnableBlockTransitions example_graph of Some (r # rs) \<Rightarrow> True | _ \<Rightarrow> False" by code_simp
  then show ?thesis by (auto split: option.splits list.splits intro: list.set_intros)
qed

lemma findRoute_correct_witness:
  "\<exists>sol u v. findRoute example_graph ''S1'' ''S3'' = Some (Some sol) \<and> is_route example_graph u v sol"
  using example_route findRoute_correct [of example_graph "''S1''" "''S3''"] by blast

lemma findRoute_shortest_witness:
  "\<exists>sol. findRoute example_graph ''S1'' ''S3'' = Some (Some sol) \<and> length (rs_edges sol) \<le> 2"
proof -
  have "edge_walk example_graph example_s1 example_edges example_s3" "compatible example_edges"
    "node_named example_graph ''S1'' = Some example_s1" "node_named example_graph ''S3'' = Some example_s3"
    by code_simp+
  from findRoute_shortest [OF example_well_named this(3,4,1,2)] show ?thesis
    by (simp add: example_edges_def eval_nat_numeral)
qed

lemma getRunnableBlockTransitions_direct_witness:
  "\<exists>ts r u. getRunnableBlockTransitions example_graph = Some ts \<and> r \<in> set ts \<and>
     findNodeContainingBlock example_graph (sb_id (rr_fromBlock r)) = Some u \<and> rs_edges (rr_solution r) \<noteq> []"
  using example_transition getRunnableBlockTransitions_direct [OF example_well_named] by blast

end
