(* ===== verification/JsValue.thy ===== *)
theory JsValue
  imports JsText
begin

text \<open>
  Values of unknown JSON input. Objects are association lists of their own properties; reading an
  absent property gives \<open>undefined\<close>, as does reading a property of a value that is no object. Numbers
  are exact: finite ones are rationals, so the rounding of decimal literals to doubles is not
  modelled, and there is one zero. \<open>to_number\<close>, \<open>to_boolean\<close> are the conversions \<open>Number(x)\<close> and
  \<open>Boolean(x)\<close> of the language on such values.
\<close>

datatype jsnum = NaN | PosInf | NegInf | Fin rat

datatype jsval = JUndef | JNull | JBool bool | JNum jsnum | JStr string
  | JArr "jsval list" | JObj "(string \<times> jsval) list"

definition js_get :: "jsval \<Rightarrow> string \<Rightarrow> jsval" where
  "js_get v k = (case v of JObj kvs \<Rightarrow> (case map_of kvs k of Some x \<Rightarrow> x | None \<Rightarrow> JUndef) | _ \<Rightarrow> JUndef)"

definition is_record :: "jsval \<Rightarrow> bool" where
  "is_record v = (case v of JObj kvs \<Rightarrow> True | _ \<Rightarrow> False)"

definition array_of :: "jsval \<Rightarrow> jsval list option" where
  "array_of v = (case v of JArr xs \<Rightarrow> Some xs | _ \<Rightarrow> None)"

definition js_int :: "int \<Rightarrow> jsval" where
  "js_int i = JNum (Fin (of_int i))"

definition js_trunc :: "rat \<Rightarrow> int" where
  "js_trunc r = (if r < 0 then - \<lfloor>- r\<rfloor> else \<lfloor>r\<rfloor>)"

definition is_whole :: "rat \<Rightarrow> bool" where
  "is_whole r \<longleftrightarrow> of_int \<lfloor>r\<rfloor> = r"

definition to_boolean :: "jsval \<Rightarrow> bool" where
  "to_boolean v = (case v of JUndef \<Rightarrow> False | JNull \<Rightarrow> False | JBool b \<Rightarrow> b
     | JNum n \<Rightarrow> n \<noteq> NaN \<and> n \<noteq> Fin 0 | JStr s \<Rightarrow> s \<noteq> [] | JArr xs \<Rightarrow> True | JObj kvs \<Rightarrow> True)"

subsection \<open>Strings as numbers\<close>

definition radix_val :: "char \<Rightarrow> nat" where
  "radix_val c =
     (let n = (of_char c :: nat) in
      if 48 \<le> n \<and> n \<le> 57 then n - 48
      else if 97 \<le> n \<and> n \<le> 102 then n - 87
      else if 65 \<le> n \<and> n \<le> 70 then n - 55
      else 99)"

definition radix_number :: "nat \<Rightarrow> string \<Rightarrow> jsnum" where
  "radix_number b s =
     (if s \<noteq> [] \<and> list_all (\<lambda>c. radix_val c < b) s
      then Fin (of_nat (fold (\<lambda>c n. b * n + radix_val c) s 0)) else NaN)"

definition power10 :: "int \<Rightarrow> rat" where
  "power10 e = (if 0 \<le> e then 10 ^ nat e else 1 / 10 ^ nat (- e))"

definition exponent_part :: "string \<Rightarrow> int option" where
  "exponent_part s =
     (case s of
        [] \<Rightarrow> Some 0
      | c # t \<Rightarrow>
          if c \<noteq> CHR ''e'' \<and> c \<noteq> CHR ''E'' then None
          else (let sgn = (if t \<noteq> [] \<and> hd t = CHR ''-'' then -1 else 1);
                    ds = (if t \<noteq> [] \<and> (hd t = CHR ''-'' \<or> hd t = CHR ''+'') then tl t else t)
                in if ds \<noteq> [] \<and> list_all is_digit ds then Some (sgn * int (read_digits ds)) else None))"

definition decimal_number :: "string \<Rightarrow> jsnum" where
  "decimal_number s =
     (let whole = takeWhile is_digit s;
          rest = dropWhile is_digit s;
          dotted = (rest \<noteq> [] \<and> hd rest = CHR ''.'');
          frac = (if dotted then takeWhile is_digit (tl rest) else []);
          tail = (if dotted then dropWhile is_digit (tl rest) else rest)
      in if whole = [] \<and> frac = [] then NaN
         else (case exponent_part tail of
                 None \<Rightarrow> NaN
               | Some e \<Rightarrow> Fin ((of_nat (read_digits whole) + of_nat (read_digits frac) / 10 ^ length frac) * power10 e)))"

definition negate :: "jsnum \<Rightarrow> jsnum" where
  "negate n = (case n of NaN \<Rightarrow> NaN | PosInf \<Rightarrow> NegInf | NegInf \<Rightarrow> PosInf | Fin r \<Rightarrow> Fin (- r))"

definition unsigned_number :: "string \<Rightarrow> jsnum" where
  "unsigned_number s = (if s = ''Infinity'' then PosInf else decimal_number s)"

definition string_to_number :: "string \<Rightarrow> jsnum" where
  "string_to_number text =
     (let s = trim text; p = take 2 s in
      if s = [] then Fin 0
      else if p = ''0x'' \<or> p = ''0X'' then radix_number 16 (drop 2 s)
      else if p = ''0o'' \<or> p = ''0O'' then radix_number 8 (drop 2 s)
      else if p = ''0b'' \<or> p = ''0B'' then radix_number 2 (drop 2 s)
      else if hd s = CHR ''-'' then negate (unsigned_number (tl s))
      else if hd s = CHR ''+'' then unsigned_number (tl s)
      else unsigned_number s)"

text \<open>An array is converted through its text: the empty one is \<open>0\<close>, one element is what the text of
  that element converts to, and two elements put a comma into the text.\<close>

fun to_number :: "jsval \<Rightarrow> jsnum" where
  "to_number JUndef = NaN"
| "to_number JNull = Fin 0"
| "to_number (JBool b) = Fin (if b then 1 else 0)"
| "to_number (JNum n) = n"
| "to_number (JStr s) = string_to_number s"
| "to_number (JArr []) = Fin 0"
| "to_number (JArr [x]) =
     (case x of JUndef \<Rightarrow> Fin 0 | JBool b \<Rightarrow> NaN | _ \<Rightarrow> to_number x)"
| "to_number (JArr (x # y # zs)) = NaN"
| "to_number (JObj kvs) = NaN"

text \<open>The integer a value stands for, when \<open>typeof x === "number" && Number.isInteger(x)\<close>.\<close>

definition integer_value :: "jsval \<Rightarrow> int option" where
  "integer_value v = (case v of JNum (Fin r) \<Rightarrow> (if is_whole r then Some \<lfloor>r\<rfloor> else None) | _ \<Rightarrow> None)"

subsection \<open>Lemmas\<close>

lemma js_get_JObj [jslib]: "js_get (JObj kvs) k = (case map_of kvs k of Some x \<Rightarrow> x | None \<Rightarrow> JUndef)"
  by (simp add: js_get_def)

lemma js_trunc_of_int [simp]: "js_trunc (of_int i) = i"
  by (simp add: js_trunc_def flip: of_int_minus)

lemma js_trunc_range: "0 < r \<Longrightarrow> 0 \<le> js_trunc r"
  by (simp add: js_trunc_def)

lemma is_whole_of_int [simp]: "is_whole (of_int i)"
  by (simp add: is_whole_def)

lemma integer_value_js_int [simp]: "integer_value (js_int i) = Some i"
  by (simp add: integer_value_def js_int_def)

lemma to_number_js_int [simp]: "to_number (js_int i) = Fin (of_int i)"
  by (simp add: js_int_def)

lemma integer_value_Some: "integer_value v = Some i \<longleftrightarrow> v = js_int i"
  by (auto simp: integer_value_def js_int_def is_whole_def split: jsval.splits jsnum.splits if_splits)

lemma to_boolean_JBool [simp]: "to_boolean (JBool b) = b"
  by (simp add: to_boolean_def)

lemma js_int_inj [simp]: "js_int i = js_int j \<longleftrightarrow> i = j"
  by (simp add: js_int_def)

lemma js_int_neq [simp]:
  "js_int i \<noteq> JUndef" "js_int i \<noteq> JNull" "js_int i \<noteq> JBool b" "js_int i \<noteq> JStr s" "js_int i \<noteq> JArr xs" "js_int i \<noteq> JObj kvs"
  "JUndef \<noteq> js_int i" "JNull \<noteq> js_int i" "JBool b \<noteq> js_int i" "JStr s \<noteq> js_int i" "JArr xs \<noteq> js_int i" "JObj kvs \<noteq> js_int i"
  by (simp_all add: js_int_def)

subsection \<open>Reading documents\<close>

definition nonblank :: "string \<Rightarrow> bool" where
  "nonblank s \<longleftrightarrow> length (trim s) > 0"

text \<open>\<open>...(x === undefined ? {} : { k: x })\<close> in an object literal.\<close>

definition opt_field :: "string \<Rightarrow> ('a \<Rightarrow> jsval) \<Rightarrow> 'a option \<Rightarrow> (string \<times> jsval) list" where
  "opt_field k f v = (case v of None \<Rightarrow> [] | Some x \<Rightarrow> [(k, f x)])"

lemma map_of_opt_field [jslib]:
  "map_of (opt_field k f v @ kvs) k' = (if k = k' \<and> v \<noteq> None then map_option f v else map_of kvs k')"
  by (simp add: opt_field_def split: option.split)

lemma map_of_opt_field_end [jslib]: "map_of (opt_field k f v) k' = (if k = k' then map_option f v else None)"
  by (simp add: opt_field_def split: option.split)

lemma dropWhile_nonempty: "x \<in> set xs \<Longrightarrow> \<not> p x \<Longrightarrow> dropWhile p xs \<noteq> []"
  by auto

lemma nonblank_char:
  assumes "c \<in> set s" and "\<not> is_space c"
  shows "nonblank s"
proof -
  have "set s = set (takeWhile is_space s) \<union> set (dropWhile is_space s)"
    by (metis set_append takeWhile_dropWhile_id)
  then have "c \<in> set (dropWhile is_space s)" using assms by (auto dest: set_takeWhileD)
  then have "dropWhile is_space (rev (dropWhile is_space s)) \<noteq> []" using assms by (intro dropWhile_nonempty) auto
  then show ?thesis by (simp add: nonblank_def trim_def trim_end_def del: dropWhile_eq_Nil_conv)
qed

lemma nonblank_append: "nonblank s \<Longrightarrow> nonblank (s @ t)" "nonblank t \<Longrightarrow> nonblank (s @ t)"
proof -
  have ex: "\<exists>c\<in>set s. \<not> is_space c" if "nonblank s" for s
  proof (rule ccontr)
    assume "\<not> ?thesis"
    then have "dropWhile is_space s = []" by auto
    then have "trim s = []" by (simp only: trim_def trim_end_def) simp
    then show False using that by (simp add: nonblank_def)
  qed
  show "nonblank s \<Longrightarrow> nonblank (s @ t)" using ex [of s] by (auto intro: nonblank_char)
  show "nonblank t \<Longrightarrow> nonblank (s @ t)" using ex [of t] by (auto intro: nonblank_char)
qed

lemma not_nonblank_Nil [simp]: "\<not> nonblank []"
  by (simp add: nonblank_def)

text \<open>\<open>isRecord(input) ? input : {}\<close>, and the flag that older documents call \<open>autostart\<close>.\<close>

definition record_or_empty :: "jsval \<Rightarrow> jsval" where
  "record_or_empty v = (if is_record v then v else JObj [])"

definition enabled_flag :: "jsval \<Rightarrow> bool" where
  "enabled_flag input = (case js_get input ''enabled'' of JBool b \<Rightarrow> b | _ \<Rightarrow> to_boolean (js_get input ''autostart''))"

lemma enumerate_reread:
  assumes "\<And>x k. x \<in> set xs \<Longrightarrow> f (g x) k = x"
  shows "map (\<lambda>(i, x). f x i) (enumerate 0 (map g xs)) = xs"
  by (rule nth_equalityI) (simp_all add: nth_enumerate_eq assms)

lemma list_ex_map [simp]: "list_ex p (map f xs) = list_ex (\<lambda>x. p (f x)) xs"
  by (induction xs) auto

lemma list_all_map [simp]: "list_all p (map f xs) = list_all (\<lambda>x. p (f x)) xs"
  by (induction xs) auto

text \<open>What a normalizer of unknown documents promises: its results are in normal form, and a normal
  document that is written and read again is unchanged.\<close>

locale normalizer =
  fixes normalize :: "jsval \<Rightarrow> 'a"
    and json :: "'a \<Rightarrow> jsval"
    and normal :: "'a \<Rightarrow> bool"
  assumes normalize_normal: "normal (normalize v)"
    and reread: "normal d \<Longrightarrow> normalize (json d) = d"
begin

lemma normalize_again: "normalize (json (normalize v)) = normalize v"
  by (rule reread) (rule normalize_normal)

lemma normal_iff: "normal d \<longleftrightarrow> (\<exists>v. normalize v = d)"
  using normalize_normal reread by metis

lemma json_inj: "normal d \<Longrightarrow> normal d' \<Longrightarrow> json d = json d' \<longleftrightarrow> d = d'"
  using reread by metis

end

end
