(* ===== verification/IdSupply.thy ===== *)
theory IdSupply
  imports Prelude
begin

text \<open>
  Element ids of \<open>web-ui/src/domain/layout/layoutDto.ts\<close>: 0 is "not assigned", persisted elements use
  1 to 65535. The locale \<open>id_supply\<close> is the contract between code that hands out ids and code that
  fills the gaps of a list of elements with them: an id handed out is valid and not taken, and one
  is handed out unless all are taken. Its lemmas are about \<open>fill\<close>, the pass over the elements. It is
  interpreted on the allocator of the layout and on the one of the id migration. \<open>scan\<close> is the
  cyclic search both allocators make.
\<close>

definition INVALID_LAYOUT_ELEMENT_ID :: int where "INVALID_LAYOUT_ELEMENT_ID = 0"
definition MAX_LAYOUT_ELEMENT_ID :: int where "MAX_LAYOUT_ELEMENT_ID = 65535"

definition valid_ids :: "int set" where
  "valid_ids = {1..MAX_LAYOUT_ELEMENT_ID}"

lemma valid_ids_iff: "i \<in> valid_ids \<longleftrightarrow> 0 < i \<and> i \<le> 65535"
  by (auto simp: valid_ids_def MAX_LAYOUT_ELEMENT_ID_def)

lemma finite_valid_ids [simp]: "finite valid_ids"
  by (simp add: valid_ids_def)

lemma card_valid_ids: "card valid_ids = 65535"
  by (simp add: valid_ids_def MAX_LAYOUT_ELEMENT_ID_def)

lemma zero_not_valid [simp]: "0 \<notin> valid_ids"
  by (simp add: valid_ids_iff)

subsection \<open>The cyclic scan\<close>

definition next_id :: "int \<Rightarrow> int" where
  "next_id c = (if c \<ge> MAX_LAYOUT_ELEMENT_ID then 1 else c + 1)"

fun scan :: "nat \<Rightarrow> (int \<Rightarrow> bool) \<Rightarrow> int \<Rightarrow> int option" where
  "scan 0 free c = None"
| "scan (Suc n) free c = (if free c then Some c else scan n free (next_id c))"

lemma next_id_valid: "c \<in> valid_ids \<Longrightarrow> next_id c \<in> valid_ids"
  by (auto simp: valid_ids_iff next_id_def MAX_LAYOUT_ELEMENT_ID_def)

lemma scan_Some: "scan n free c = Some i \<Longrightarrow> c \<in> valid_ids \<Longrightarrow> free i \<and> i \<in> valid_ids"
  by (induction n arbitrary: c) (auto split: if_splits intro: next_id_valid)

lemma next_id_mod: "c \<in> valid_ids \<Longrightarrow> next_id c = (c - 1 + 1) mod MAX_LAYOUT_ELEMENT_ID + 1"
  by (auto simp: valid_ids_iff next_id_def MAX_LAYOUT_ELEMENT_ID_def)

lemma scan_None:
  "scan n free c = None \<Longrightarrow> c \<in> valid_ids \<Longrightarrow> k < n \<Longrightarrow> \<not> free ((c - 1 + int k) mod MAX_LAYOUT_ELEMENT_ID + 1)"
proof (induction n arbitrary: c k)
  case (Suc n)
  have c: "\<not> free c" "scan n free (next_id c) = None" using Suc.prems(1) by (auto split: if_splits)
  show ?case
  proof (cases k)
    case 0
    have "(c - 1) mod MAX_LAYOUT_ELEMENT_ID = c - 1"
      using Suc.prems(2) by (simp add: valid_ids_iff MAX_LAYOUT_ELEMENT_ID_def)
    then show ?thesis using c 0 by simp
  next
    case (Suc j)
    have "\<not> free ((next_id c - 1 + int j) mod MAX_LAYOUT_ELEMENT_ID + 1)"
      using Suc.IH [OF c(2) next_id_valid] Suc.prems Suc by simp
    moreover have "(next_id c - 1 + int j) mod MAX_LAYOUT_ELEMENT_ID = (c - 1 + int k) mod MAX_LAYOUT_ELEMENT_ID"
    proof -
      have "(c mod MAX_LAYOUT_ELEMENT_ID + int j) mod MAX_LAYOUT_ELEMENT_ID = (c + int j) mod MAX_LAYOUT_ELEMENT_ID"
        by (rule mod_add_left_eq)
      then show ?thesis using next_id_mod [OF Suc.prems(2)] Suc by simp
    qed
    ultimately show ?thesis by simp
  qed
qed simp

lemma scan_finds:
  assumes c: "c \<in> valid_ids" and i: "i \<in> valid_ids" "free i"
  shows "\<exists>j. scan 65535 free c = Some j"
proof (rule ccontr)
  assume "\<not> ?thesis"
  then have n: "scan 65535 free c = None" by simp
  let ?k = "nat ((i - c) mod MAX_LAYOUT_ELEMENT_ID)"
  have k: "int ?k = (i - c) mod MAX_LAYOUT_ELEMENT_ID" by (simp add: MAX_LAYOUT_ELEMENT_ID_def)
  have "?k < 65535" by (simp add: MAX_LAYOUT_ELEMENT_ID_def nat_less_iff)
  from scan_None [OF n c this] have "\<not> free ((c - 1 + int ?k) mod MAX_LAYOUT_ELEMENT_ID + 1)" .
  moreover have "(c - 1 + int ?k) mod MAX_LAYOUT_ELEMENT_ID = (i - 1) mod MAX_LAYOUT_ELEMENT_ID"
    unfolding k by (simp add: mod_add_right_eq)
  moreover have "(i - 1) mod MAX_LAYOUT_ELEMENT_ID = i - 1"
    using i by (simp add: valid_ids_iff MAX_LAYOUT_ELEMENT_ID_def)
  ultimately show False using i by simp
qed

text \<open>A scan that started at 1 or passed only taken ids finds the least free id.\<close>

lemma scan_least:
  assumes "scan n free c = Some i" and "c \<in> valid_ids" and "\<And>j. 0 < j \<Longrightarrow> j < c \<Longrightarrow> \<not> free j"
    and "0 < j" "j < i"
  shows "\<not> free j"
  using assms
proof (induction n arbitrary: c)
  case (Suc n)
  show ?case
  proof (cases "free c")
    case True
    then show ?thesis using Suc.prems by simp
  next
    case False
    have s: "scan n free (next_id c) = Some i" using False Suc.prems(1) by simp
    have p: "\<not> free j" if "0 < j" "j < next_id c" for j
      using that Suc.prems(3) False by (cases "j = c") (auto simp: next_id_def split: if_splits)
    show ?thesis by (rule Suc.IH [OF s next_id_valid [OF Suc.prems(2)] p Suc.prems(4,5)])
  qed
qed simp

subsection \<open>Filling gaps\<close>

locale id_supply =
  fixes ready :: "'s \<Rightarrow> bool"
    and taken :: "'s \<Rightarrow> int set"
    and issue :: "'s \<Rightarrow> string + int \<times> 's"
    and claim :: "int \<Rightarrow> 's \<Rightarrow> 's"
  assumes issue_valid: "ready s \<Longrightarrow> issue s = Inr (i, s') \<Longrightarrow> i \<in> valid_ids - taken s \<and> ready s' \<and> taken s' = taken s"
    and issue_fails: "ready s \<Longrightarrow> issue s = Inl e \<Longrightarrow> valid_ids \<subseteq> taken s"
    and claim_taken: "ready s \<Longrightarrow> i \<in> valid_ids \<Longrightarrow> ready (claim i s) \<and> taken (claim i s) = insert i (taken s)"
begin

fun fill :: "int option list \<Rightarrow> 's \<Rightarrow> string + int list \<times> 's" where
  "fill [] s = Inr ([], s)"
| "fill (Some i # gaps) s = bind_r (fill gaps s) (\<lambda>(is, s'). Inr (i # is, s'))"
| "fill (None # gaps) s =
     bind_r (issue s) (\<lambda>(i, s'). bind_r (fill gaps (claim i s')) (\<lambda>(is, s''). Inr (i # is, s'')))"

definition kept :: "int option list \<Rightarrow> int set" where
  "kept gaps = {i. Some i \<in> set gaps}"

lemma kept_simps [simp]:
  "kept [] = {}" "kept (None # gaps) = kept gaps" "kept (Some i # gaps) = insert i (kept gaps)"
  by (auto simp: kept_def)

lemma fill_ids:
  "fill gaps s = Inr (is, s') \<Longrightarrow> ready s \<Longrightarrow> kept gaps \<subseteq> taken s \<inter> valid_ids \<Longrightarrow> distinct (filter (\<lambda>x. x \<noteq> None) gaps) \<Longrightarrow>
     ready s' \<and> distinct is \<and> set is \<subseteq> valid_ids \<and> taken s' = taken s \<union> set is \<and>
     set is \<inter> taken s = kept gaps \<and> list_all2 (\<lambda>g i. g = None \<or> g = Some i) gaps is"
proof (induction gaps s arbitrary: "is" s' rule: fill.induct)
  case (2 i gaps s)
  then obtain ks where f: "fill gaps s = Inr (ks, s')" and is_eq: "is = i # ks" by (auto simp: bind_r_Inr)
  have i: "i \<in> taken s" "i \<in> valid_ids" "kept gaps \<subseteq> taken s \<inter> valid_ids" "i \<notin> kept gaps"
    using "2.prems" by (auto simp: kept_def)
  have d: "distinct (filter (\<lambda>x. x \<noteq> None) gaps)" using "2.prems"(4) by simp
  note IH = "2.IH" [OF f "2.prems"(2) i(3) d]
  have "i \<notin> set ks" using IH i by auto
  then show ?case using IH i is_eq by auto
next
  case (3 gaps s)
  obtain i t where is1: "issue s = Inr (i, t)" using "3.prems"(1) by (auto simp: bind_r_Inr)
  obtain ks where f: "fill gaps (claim i t) = Inr (ks, s')" and is_eq: "is = i # ks"
    using "3.prems"(1) is1 by (auto simp: bind_r_Inr)
  have i: "i \<in> valid_ids" "i \<notin> taken s" "ready t" "taken t = taken s"
    using issue_valid [OF "3.prems"(2) is1] by auto
  have c: "ready (claim i t)" "taken (claim i t) = insert i (taken s)" using claim_taken [OF i(3,1)] i(4) by auto
  have k: "kept gaps \<subseteq> taken (claim i t) \<inter> valid_ids" using "3.prems"(3) c by auto
  have d: "distinct (filter (\<lambda>x. x \<noteq> None) gaps)" using "3.prems"(4) by simp
  note IH = "3.IH" [OF f c(1) k d]
  have n: "i \<notin> kept gaps" using "3.prems"(3) i(2) by auto
  have inter: "set ks \<inter> insert i (taken s) = kept gaps" using IH c(2) by simp
  then have nk: "i \<notin> set ks" using n by blast
  then have "set is \<inter> taken s = kept (None # gaps)" using inter i(2) is_eq by auto
  moreover have "taken s' = taken s \<union> set is" using IH c(2) is_eq by auto
  ultimately show ?case using IH i(1) nk is_eq by simp
qed simp

lemma fill_count:
  assumes "fill gaps s = Inr (is, s')" and "ready s" and "kept gaps \<subseteq> taken s \<inter> valid_ids"
    and "distinct (filter (\<lambda>x. x \<noteq> None) gaps)"
  shows "length gaps \<le> 65535"
proof -
  note f = fill_ids [OF assms]
  have "length is = card (set is)" using f by (simp add: distinct_card)
  also have "\<dots> \<le> card valid_ids" using f by (intro card_mono) auto
  finally have "length is \<le> 65535" by (simp add: card_valid_ids)
  moreover have "length gaps = length is" using f list_all2_lengthD by blast
  ultimately show ?thesis by simp
qed

text \<open>Filling fails only when every id is taken: by the elements kept and by those filled.\<close>

lemma fill_fails:
  "fill gaps s = Inl e \<Longrightarrow> ready s \<Longrightarrow> kept gaps \<subseteq> taken s \<inter> valid_ids \<Longrightarrow> distinct (filter (\<lambda>x. x \<noteq> None) gaps) \<Longrightarrow>
     finite (taken s) \<Longrightarrow> 65535 < card (taken s \<inter> valid_ids) + length (filter (\<lambda>x. x = None) gaps)"
proof (induction gaps s rule: fill.induct)
  case (2 i gaps s)
  then show ?case by (auto simp: bind_r_def split: sum.splits prod.splits)
next
  case (3 gaps s)
  show ?case
  proof (cases "issue s")
    case (Inl e')
    then have "taken s \<inter> valid_ids = valid_ids" using issue_fails [OF "3.prems"(2)] by blast
    then show ?thesis by (simp add: card_valid_ids)
  next
    case (Inr r)
    then obtain i t where is1: "issue s = Inr (i, t)" by (cases r) simp
    have f: "fill gaps (claim i t) = Inl e" using "3.prems"(1) is1 by (auto simp: bind_r_def split: sum.splits prod.splits)
    have i: "i \<in> valid_ids" "i \<notin> taken s" "ready t" "taken t = taken s"
      using issue_valid [OF "3.prems"(2) is1] by auto
    have c: "ready (claim i t)" "taken (claim i t) = insert i (taken s)" using claim_taken [OF i(3,1)] i(4) by auto
    have "65535 < card (taken (claim i t) \<inter> valid_ids) + length (filter (\<lambda>x. x = None) gaps)"
      using "3.IH" [OF f c(1)] "3.prems" c by auto
    moreover have "taken (claim i t) \<inter> valid_ids = insert i (taken s \<inter> valid_ids)" using c i by auto
    ultimately show ?thesis using i(2) by simp
  qed
qed simp

end

end
