(* ===== verification/IdMigration.thy ===== *)
theory IdMigration
  imports JsValue IdSupply
begin

text \<open>
  \<open>web-ui/src/domain/layout/layoutIdMigration.ts\<close>: conversion of a persisted layout with string or
  duplicate element ids to unique 16-bit ones. Ids and references of the input are unknown JSON
  values; the fields the migration does not touch are kept in \<open>se_rest\<close>, \<open>sl_rest\<close> and \<open>so_rest\<close>. The
  text key \<open>"s:..."\<close> or \<open>"n:..."\<close> of a raw id is the datatype \<open>legacy_key\<close>: the prefix is the
  constructor, and two numbers have the same text when they are equal. The exception of a full id
  space is \<open>Inl\<close>.
\<close>

subsection \<open>Data\<close>

record serialized_route_item =
  si_turnoutId :: jsval
  si_closed :: jsval

record serialized_element =
  se_id :: jsval
  se_routeTurnouts :: "serialized_route_item list option"
  se_fromBlockId :: jsval
  se_toBlockId :: jsval
  se_rest :: "(string \<times> jsval) list"

record serialized_layer =
  sl_elements :: "serialized_element list option"
  sl_rest :: "(string \<times> jsval) list"

record serialized_layout =
  so_layers :: "serialized_layer list option"
  so_rest :: "(string \<times> jsval) list"

record migration_result =
  mr_layout :: serialized_layout
  mr_migrated :: bool
  mr_elementCount :: nat
  mr_referenceCount :: nat

datatype legacy_key = TextKey string | NumberKey rat

definition isValidId :: "jsval \<Rightarrow> int option" where
  "isValidId v =
     (case integer_value v of
        Some i \<Rightarrow> if 0 < i \<and> i \<le> MAX_LAYOUT_ELEMENT_ID then Some i else None
      | None \<Rightarrow> None)"

definition legacyKey :: "jsval \<Rightarrow> legacy_key option" where
  "legacyKey v = (case v of JStr s \<Rightarrow> Some (TextKey s) | JNum (Fin r) \<Rightarrow> Some (NumberKey r) | _ \<Rightarrow> None)"

definition layer_elements :: "serialized_layer \<Rightarrow> serialized_element list" where
  "layer_elements l = (case sl_elements l of Some es \<Rightarrow> es | None \<Rightarrow> [])"

definition allElements :: "serialized_layout \<Rightarrow> serialized_element list" where
  "allElements x = concat (map layer_elements (case so_layers x of Some ls \<Rightarrow> ls | None \<Rightarrow> []))"

subsection \<open>Free ids\<close>

fun nextFreeId_loop :: "nat \<Rightarrow> int list \<Rightarrow> int \<Rightarrow> string + int" where
  "nextFreeId_loop 0 used candidate = Inl ''The layout has no free uint16 element ID.''"
| "nextFreeId_loop (Suc n) used candidate =
     (let c = (if candidate > MAX_LAYOUT_ELEMENT_ID then 1 else candidate)
      in if c \<notin> set used then Inr c else nextFreeId_loop n used (c + 1))"

definition nextFreeId :: "int list \<Rightarrow> int \<Rightarrow> string + int" where
  "nextFreeId used start = nextFreeId_loop 65535 used (max 1 start)"

subsection \<open>First and second pass: ids\<close>

fun reserve_ids :: "jsval list \<Rightarrow> int list \<Rightarrow> int list" where
  "reserve_ids [] acceptedNumeric = acceptedNumeric"
| "reserve_ids (raw # raws) acceptedNumeric =
     (case isValidId raw of
        None \<Rightarrow> reserve_ids raws acceptedNumeric
      | Some i \<Rightarrow> if i \<in> set acceptedNumeric then reserve_ids raws acceptedNumeric
                 else reserve_ids raws (set_add i acceptedNumeric))"

record assignment =
  as_used :: "int list"
  as_next :: int
  as_seen :: "int list"
  as_mapping :: "(legacy_key \<times> int) list"
  as_count :: nat

definition assign_fresh :: "assignment \<Rightarrow> string + int \<times> assignment" where
  "assign_fresh st =
     bind_r (nextFreeId (as_used st) (as_next st))
       (\<lambda>i. Inr (i, st\<lparr>as_used := set_add i (as_used st), as_next := i + 1, as_count := as_count st + 1\<rparr>))"

definition remember :: "jsval \<Rightarrow> int \<Rightarrow> assignment \<Rightarrow> assignment" where
  "remember raw i st =
     (case legacyKey raw of
        None \<Rightarrow> st
      | Some k \<Rightarrow> if map_of (as_mapping st) k = None then st\<lparr>as_mapping := as_mapping st @ [(k, i)]\<rparr> else st)"

definition assign_id :: "jsval \<Rightarrow> assignment \<Rightarrow> string + int \<times> assignment" where
  "assign_id raw st =
     bind_r (case isValidId raw of
               Some i \<Rightarrow> if i \<notin> set (as_seen st) then Inr (i, st\<lparr>as_seen := set_add i (as_seen st)\<rparr>) else assign_fresh st
             | None \<Rightarrow> assign_fresh st)
       (\<lambda>(i, st'). Inr (i, remember raw i st'))"

fun assign_ids :: "jsval list \<Rightarrow> assignment \<Rightarrow> string + int list \<times> assignment" where
  "assign_ids [] st = Inr ([], st)"
| "assign_ids (raw # raws) st =
     bind_r (assign_id raw st) (\<lambda>(i, st'). bind_r (assign_ids raws st') (\<lambda>(is, st''). Inr (i # is, st'')))"

subsection \<open>Third pass: references\<close>

definition resolveReference :: "(legacy_key \<times> int) list \<Rightarrow> jsval \<Rightarrow> int" where
  "resolveReference mapping v =
     (let mapped = (case legacyKey v of Some k \<Rightarrow> map_of mapping k | None \<Rightarrow> None)
      in case isValidId v of
           Some i \<Rightarrow> (case mapped of Some j \<Rightarrow> j | None \<Rightarrow> i)
         | None \<Rightarrow> (case mapped of Some j \<Rightarrow> j | None \<Rightarrow> INVALID_LAYOUT_ELEMENT_ID))"

definition changed_reference :: "jsval \<Rightarrow> int \<Rightarrow> nat" where
  "changed_reference v i = (if v \<noteq> js_int i then 1 else 0)"

definition migrate_item :: "(jsval \<Rightarrow> int) \<Rightarrow> serialized_route_item \<Rightarrow> serialized_route_item" where
  "migrate_item resolve item =
     \<lparr>si_turnoutId = js_int (resolve (si_turnoutId item)), si_closed = JBool (to_boolean (si_closed item))\<rparr>"

definition migrate_items :: "(jsval \<Rightarrow> int) \<Rightarrow> serialized_route_item list \<Rightarrow> serialized_route_item list" where
  "migrate_items resolve items =
     filter (\<lambda>item. si_turnoutId item \<noteq> js_int INVALID_LAYOUT_ELEMENT_ID) (map (migrate_item resolve) items)"

definition migrate_block_id :: "(jsval \<Rightarrow> int) \<Rightarrow> jsval \<Rightarrow> jsval" where
  "migrate_block_id resolve v = (if v \<noteq> JUndef then js_int (resolve v) else v)"

definition migrate_references :: "(jsval \<Rightarrow> int) \<Rightarrow> serialized_element \<Rightarrow> serialized_element" where
  "migrate_references resolve e =
     e\<lparr>se_routeTurnouts := map_option (migrate_items resolve) (se_routeTurnouts e),
       se_fromBlockId := migrate_block_id resolve (se_fromBlockId e),
       se_toBlockId := migrate_block_id resolve (se_toBlockId e)\<rparr>"

definition count_references :: "(jsval \<Rightarrow> int) \<Rightarrow> serialized_element \<Rightarrow> nat" where
  "count_references resolve e =
     (case se_routeTurnouts e of None \<Rightarrow> 0
      | Some items \<Rightarrow> sum_list (map (\<lambda>item. changed_reference (si_turnoutId item) (resolve (si_turnoutId item))) items)) +
     (if se_fromBlockId e \<noteq> JUndef then changed_reference (se_fromBlockId e) (resolve (se_fromBlockId e)) else 0) +
     (if se_toBlockId e \<noteq> JUndef then changed_reference (se_toBlockId e) (resolve (se_toBlockId e)) else 0)"

text \<open>The elements are changed in place: the changed list goes back into the layers.\<close>

fun put_layers :: "serialized_layer list \<Rightarrow> serialized_element list \<Rightarrow> serialized_layer list" where
  "put_layers [] es = []"
| "put_layers (l # ls) es =
     (case sl_elements l of
        None \<Rightarrow> l # put_layers ls es
      | Some old \<Rightarrow> l\<lparr>sl_elements := Some (take (length old) es)\<rparr> # put_layers ls (drop (length old) es))"

definition put_elements :: "serialized_layout \<Rightarrow> serialized_element list \<Rightarrow> serialized_layout" where
  "put_elements x es = x\<lparr>so_layers := map_option (\<lambda>ls. put_layers ls es) (so_layers x)\<rparr>"

definition migrate_elements :: "serialized_element list \<Rightarrow> string + serialized_element list \<times> nat \<times> nat" where
  "migrate_elements elements =
     (let raws = map se_id elements; used = reserve_ids raws []
      in bind_r (assign_ids raws \<lparr>as_used = used, as_next = 1, as_seen = [], as_mapping = [], as_count = 0\<rparr>)
           (\<lambda>(is, st).
              let resolve = resolveReference (as_mapping st);
                  assigned = map2 (\<lambda>e i. e\<lparr>se_id := js_int i\<rparr>) elements is
              in Inr (map (migrate_references resolve) assigned, as_count st,
                      sum_list (map (count_references resolve) assigned))))"

definition migrateSerializedLayoutIds :: "serialized_layout \<Rightarrow> string + migration_result" where
  "migrateSerializedLayoutIds input =
     bind_r (migrate_elements (allElements input))
       (\<lambda>(es, elementCount, referenceCount).
          Inr \<lparr>mr_layout = put_elements input es, mr_migrated = (elementCount > 0 \<or> referenceCount > 0),
               mr_elementCount = elementCount, mr_referenceCount = referenceCount\<rparr>)"


subsection \<open>The allocator supplies ids\<close>

lemma nextFreeId_loop_scan:
  "nextFreeId_loop n used c =
     (case scan n (\<lambda>i. i \<notin> set used) (if c > MAX_LAYOUT_ELEMENT_ID then 1 else c) of
        None \<Rightarrow> Inl ''The layout has no free uint16 element ID.'' | Some i \<Rightarrow> Inr i)"
proof (induction n arbitrary: c)
  case (Suc n)
  have "(if (if c > MAX_LAYOUT_ELEMENT_ID then 1 else c) + 1 > MAX_LAYOUT_ELEMENT_ID then 1
         else (if c > MAX_LAYOUT_ELEMENT_ID then 1 else c) + 1) = next_id (if c > MAX_LAYOUT_ELEMENT_ID then 1 else c)"
    by (simp add: next_id_def MAX_LAYOUT_ELEMENT_ID_def)
  then show ?case by (simp add: Let_def Suc.IH)
qed simp

type_synonym id_pool = "int list \<times> int"

definition supply_ready :: "id_pool \<Rightarrow> bool" where
  "supply_ready s \<longleftrightarrow> 1 \<le> snd s \<and> snd s \<le> 65536"

definition supply_taken :: "id_pool \<Rightarrow> int set" where
  "supply_taken s = set (fst s)"

definition supply_issue :: "id_pool \<Rightarrow> string + int \<times> id_pool" where
  "supply_issue s = bind_r (nextFreeId (fst s) (snd s)) (\<lambda>i. Inr (i, (fst s, i + 1)))"

definition supply_claim :: "int \<Rightarrow> id_pool \<Rightarrow> id_pool" where
  "supply_claim i s = (set_add i (fst s), snd s)"

lemma nextFreeId_scan:
  assumes "1 \<le> n" and "n \<le> 65536"
  shows "\<exists>c\<in>valid_ids. (n = c \<or> n = 65536 \<and> c = 1) \<and> nextFreeId used n =
    (case scan 65535 (\<lambda>i. i \<notin> set used) c of
       None \<Rightarrow> Inl ''The layout has no free uint16 element ID.'' | Some i \<Rightarrow> Inr i)"
proof (intro bexI conjI)
  let ?c = "if n > MAX_LAYOUT_ELEMENT_ID then 1 else n"
  have m: "max 1 n = n" using assms by simp
  show "n = ?c \<or> n = 65536 \<and> ?c = 1" using assms by (simp add: MAX_LAYOUT_ELEMENT_ID_def)
  show "?c \<in> valid_ids" using assms by (simp add: valid_ids_iff MAX_LAYOUT_ELEMENT_ID_def)
  show "nextFreeId used n = (case scan 65535 (\<lambda>i. i \<notin> set used) ?c of
       None \<Rightarrow> Inl ''The layout has no free uint16 element ID.'' | Some i \<Rightarrow> Inr i)"
    unfolding nextFreeId_def m by (rule nextFreeId_loop_scan)
qed

lemma nextFreeId_Inr:
  assumes "1 \<le> n" and "n \<le> 65536" and "nextFreeId used n = Inr i"
  shows "i \<in> valid_ids - set used"
proof -
  obtain c where c: "c \<in> valid_ids" "nextFreeId used n =
    (case scan 65535 (\<lambda>i. i \<notin> set used) c of
       None \<Rightarrow> Inl ''The layout has no free uint16 element ID.'' | Some i \<Rightarrow> Inr i)"
    using nextFreeId_scan [OF assms(1,2)] by blast
  then have "scan 65535 (\<lambda>i. i \<notin> set used) c = Some i" using assms(3) by (simp split: option.splits)
  from scan_Some [OF this c(1)] show ?thesis by simp
qed

lemma nextFreeId_Inl:
  assumes "1 \<le> n" and "n \<le> 65536" and "nextFreeId used n = Inl e"
  shows "valid_ids \<subseteq> set used"
proof
  fix i assume i: "i \<in> valid_ids"
  obtain c where c: "c \<in> valid_ids" "nextFreeId used n =
    (case scan 65535 (\<lambda>i. i \<notin> set used) c of
       None \<Rightarrow> Inl ''The layout has no free uint16 element ID.'' | Some i \<Rightarrow> Inr i)"
    using nextFreeId_scan [OF assms(1,2)] by blast
  then have "scan 65535 (\<lambda>i. i \<notin> set used) c = None" using assms(3) by (simp split: option.splits)
  then show "i \<in> set used" using scan_finds [OF c(1) i, of "\<lambda>i. i \<notin> set used"] by auto
qed

lemma nextFreeId_least:
  assumes "1 \<le> n" and "n \<le> 65536" and "nextFreeId used n = Inr i"
    and low: "\<And>j. 0 < j \<Longrightarrow> j < n \<Longrightarrow> j \<in> set used" and "0 < j" "j < i"
  shows "j \<in> set used"
proof -
  obtain c where c: "c \<in> valid_ids" "n = c \<or> n = 65536 \<and> c = 1" "nextFreeId used n =
    (case scan 65535 (\<lambda>i. i \<notin> set used) c of
       None \<Rightarrow> Inl ''The layout has no free uint16 element ID.'' | Some i \<Rightarrow> Inr i)"
    using nextFreeId_scan [OF assms(1,2)] by blast
  then have s: "scan 65535 (\<lambda>i. i \<notin> set used) c = Some i" using assms(3) by (simp split: option.splits)
  have "\<not> j \<notin> set used" by (rule scan_least [OF s c(1)]) (use low c(2) assms(5,6) in auto)
  then show ?thesis by simp
qed

interpretation migration: id_supply supply_ready supply_taken supply_issue supply_claim
proof
  show "i \<in> valid_ids - supply_taken s \<and> supply_ready s' \<and> supply_taken s' = supply_taken s"
    if "supply_ready s" "supply_issue s = Inr (i, s')" for s i s'
    using that nextFreeId_Inr [of "snd s" "fst s"]
    by (auto simp: supply_ready_def supply_issue_def supply_taken_def bind_r_Inr valid_ids_iff)
  show "valid_ids \<subseteq> supply_taken s" if "supply_ready s" "supply_issue s = Inl e" for s e
    using that nextFreeId_Inl [of "snd s" "fst s"]
    by (auto simp: supply_ready_def supply_issue_def supply_taken_def bind_r_def split: sum.splits)
  show "supply_ready (supply_claim i s) \<and> supply_taken (supply_claim i s) = insert i (supply_taken s)"
    if "supply_ready s" "i \<in> valid_ids" for s i
    using that by (simp add: supply_ready_def supply_claim_def supply_taken_def)
qed

subsection \<open>The pass over the elements fills gaps\<close>

fun gaps :: "int set \<Rightarrow> jsval list \<Rightarrow> int option list" where
  "gaps seen [] = []"
| "gaps seen (raw # raws) =
     (case isValidId raw of
        Some i \<Rightarrow> if i \<notin> seen then Some i # gaps (insert i seen) raws else None # gaps seen raws
      | None \<Rightarrow> None # gaps seen raws)"

lemma length_gaps [simp]: "length (gaps seen raws) = length raws"
  by (induction seen raws rule: gaps.induct) (auto split: option.split)

lemma isValidId_valid: "isValidId v = Some i \<longleftrightarrow> v = js_int i \<and> i \<in> valid_ids"
  by (auto simp: isValidId_def valid_ids_iff MAX_LAYOUT_ELEMENT_ID_def integer_value_Some split: option.splits if_splits)

lemma kept_gaps: "migration.kept (gaps seen raws) = {i. \<exists>v\<in>set raws. isValidId v = Some i} - seen"
  by (induction seen raws rule: gaps.induct) (auto split: option.split)

lemma kept_gaps_valid: "migration.kept (gaps seen raws) \<subseteq> valid_ids"
  by (auto simp: kept_gaps isValidId_valid)

lemma distinct_gaps: "distinct (filter (\<lambda>x. x \<noteq> None) (gaps seen raws))"
proof (induction seen raws rule: gaps.induct)
  case (2 seen raw raws)
  have "Some i \<notin> set (gaps (insert i seen) raws)" for i
    using kept_gaps [of "insert i seen" raws] by (auto simp: migration.kept_def)
  then show ?case using 2 by (auto split: option.split)
qed simp

lemma set_reserve_ids: "set (reserve_ids raws acc) = set acc \<union> {i. \<exists>v\<in>set raws. isValidId v = Some i}"
  by (induction raws acc rule: reserve_ids.induct) (auto split: option.split)

lemma assign_ids_fill:
  "(case assign_ids raws st of
      Inl e \<Rightarrow> migration.fill (gaps (set (as_seen st)) raws) (as_used st, as_next st) = Inl e
    | Inr (is, st') \<Rightarrow> migration.fill (gaps (set (as_seen st)) raws) (as_used st, as_next st) = Inr (is, (as_used st', as_next st')) \<and>
        as_count st' = as_count st + length (filter (\<lambda>g. g = None) (gaps (set (as_seen st)) raws)))"
proof (induction raws arbitrary: st)
  case (Cons raw raws)
  have r: "as_used (remember raw i s) = as_used s" "as_next (remember raw i s) = as_next s"
    "as_seen (remember raw i s) = as_seen s" "as_count (remember raw i s) = as_count s" for i s
    by (simp_all add: remember_def split: option.split)
  show ?case
  proof (cases "\<exists>i. isValidId raw = Some i \<and> i \<notin> set (as_seen st)")
    case True
    then obtain i where i: "isValidId raw = Some i" "i \<notin> set (as_seen st)" by blast
    let ?st = "remember raw i (st\<lparr>as_seen := set_add i (as_seen st)\<rparr>)"
    have a: "assign_id raw st = Inr (i, ?st)" using i by (simp add: assign_id_def)
    show ?thesis using Cons.IH [of ?st] i by (auto simp: a r split: sum.splits)
  next
    case False
    then have g: "gaps (set (as_seen st)) (raw # raws) = None # gaps (set (as_seen st)) raws"
      by (auto split: option.split)
    have a: "assign_id raw st = bind_r (assign_fresh st) (\<lambda>(i, st'). Inr (i, remember raw i st'))"
      using False by (auto simp: assign_id_def split: option.split)
    show ?thesis
    proof (cases "nextFreeId (as_used st) (as_next st)")
      case (Inl e)
      then show ?thesis by (simp add: g a assign_fresh_def supply_issue_def del: gaps.simps(2))
    next
      case (Inr i)
      let ?st = "remember raw i (st\<lparr>as_used := set_add i (as_used st), as_next := i + 1, as_count := as_count st + 1\<rparr>)"
      have a': "assign_id raw st = Inr (i, ?st)" using Inr by (simp add: a assign_fresh_def)
      have i: "supply_issue (as_used st, as_next st) = Inr (i, (as_used st, i + 1))"
        and c: "supply_claim i (as_used st, i + 1) = (set_add i (as_used st), i + 1)"
        by (simp_all add: supply_issue_def supply_claim_def Inr)
      show ?thesis
        using Cons.IH [of ?st] by (auto simp: g a' r i c simp del: gaps.simps(2) split: sum.splits)
    qed
  qed
qed simp


definition initial_assignment :: "jsval list \<Rightarrow> assignment" where
  "initial_assignment raws =
     \<lparr>as_used = reserve_ids raws [], as_next = 1, as_seen = [], as_mapping = [], as_count = 0\<rparr>"

lemma initial_supply:
  "supply_ready (as_used (initial_assignment raws), as_next (initial_assignment raws))"
  "migration.kept (gaps {} raws) \<subseteq> supply_taken (as_used (initial_assignment raws), as_next (initial_assignment raws)) \<inter> valid_ids"
  "supply_taken (as_used (initial_assignment raws), as_next (initial_assignment raws)) = migration.kept (gaps {} raws)"
  using kept_gaps_valid [of "{}" raws]
  by (auto simp: initial_assignment_def supply_ready_def supply_taken_def kept_gaps set_reserve_ids)

text \<open>The ids given to the elements with the raw ids \<open>raws\<close>.\<close>

definition new_ids :: "jsval list \<Rightarrow> int list \<Rightarrow> bool" where
  "new_ids raws is \<longleftrightarrow> distinct is \<and> set is \<subseteq> valid_ids \<and>
     list_all2 (\<lambda>g i. g = None \<or> g = Some i) (gaps {} raws) is \<and>
     migration.kept (gaps {} raws) \<subseteq> set is"

lemma assign_ids_new:
  assumes "assign_ids raws (initial_assignment raws) = Inr (is, st)"
  shows "new_ids raws is" and "as_count st = length (filter (\<lambda>g. g = None) (gaps {} raws))"
    and "set (as_used st) = set is"
proof -
  have s: "set (as_seen (initial_assignment raws)) = {}" "as_count (initial_assignment raws) = 0"
    by (simp_all add: initial_assignment_def)
  have f: "migration.fill (gaps {} raws) (as_used (initial_assignment raws), as_next (initial_assignment raws)) =
      Inr (is, (as_used st, as_next st))"
    and c: "as_count st = length (filter (\<lambda>g. g = None) (gaps {} raws))"
    using assign_ids_fill [of "initial_assignment raws" raws] assms s by auto
  note ids = migration.fill_ids [OF f initial_supply(1,2) distinct_gaps]
  show "new_ids raws is" using ids initial_supply(3) unfolding new_ids_def by blast
  show "as_count st = length (filter (\<lambda>g. g = None) (gaps {} raws))" by (rule c)
  have "set (as_used st) = migration.kept (gaps {} raws) \<union> set is"
    using ids initial_supply(3) by (simp add: supply_taken_def)
  then show "set (as_used st) = set is" using ids by auto
qed

lemma assign_ids_possible:
  "(\<exists>r. assign_ids raws (initial_assignment raws) = Inr r) \<longleftrightarrow> length raws \<le> 65535"
proof -
  let ?s = "(as_used (initial_assignment raws), as_next (initial_assignment raws))"
  have a: "set (as_seen (initial_assignment raws)) = {}" by (simp add: initial_assignment_def)
  have p: "length (filter (\<lambda>g. g \<noteq> None) (gaps {} raws)) = card (migration.kept (gaps {} raws))"
  proof -
    have "distinct (map the (filter (\<lambda>g. g \<noteq> None) (gaps {} raws)))"
      using distinct_gaps [of "{}" raws] by (auto simp: distinct_map inj_on_def)
    moreover have "set (map the (filter (\<lambda>g. g \<noteq> None) (gaps {} raws))) = migration.kept (gaps {} raws)"
      by (force simp: migration.kept_def image_iff)
    ultimately show ?thesis by (metis distinct_card length_map)
  qed
  show ?thesis
  proof (cases "assign_ids raws (initial_assignment raws)")
    case (Inl e)
    have f: "migration.fill (gaps {} raws) ?s = Inl e"
      using assign_ids_fill [of "initial_assignment raws" raws] Inl a by simp
    have "65535 < card (supply_taken ?s \<inter> valid_ids) + length (filter (\<lambda>g. g = None) (gaps {} raws))"
      by (rule migration.fill_fails [OF f initial_supply(1,2) distinct_gaps]) (simp add: supply_taken_def)
    moreover have "supply_taken ?s \<inter> valid_ids = migration.kept (gaps {} raws)"
      using initial_supply(2,3) by blast
    moreover have "length (filter (\<lambda>g. g \<noteq> None) (gaps {} raws)) + length (filter (\<lambda>g. g = None) (gaps {} raws)) = length raws"
      using sum_length_filter_compl [of "\<lambda>g. g = None" "gaps {} raws"] by simp
    ultimately show ?thesis using Inl p by simp
  next
    case (Inr r)
    then have f: "migration.fill (gaps {} raws) ?s = Inr (fst r, (as_used (snd r), as_next (snd r)))"
      using assign_ids_fill [of "initial_assignment raws" raws] a by (cases r) simp
    show ?thesis
      using migration.fill_count [OF f initial_supply(1,2) distinct_gaps] Inr by simp
  qed
qed

text \<open>Every id below one that was handed out is in use when the pass ends.\<close>

lemma fill_least:
  "migration.fill gs s = Inr (is, s') \<Longrightarrow> supply_ready s \<Longrightarrow> (\<And>j. 0 < j \<Longrightarrow> j < snd s \<Longrightarrow> j \<in> set (fst s)) \<Longrightarrow>
     set (fst s) \<subseteq> set (fst s') \<and> list_all2 (\<lambda>g i. g = None \<longrightarrow> {0<..<i} \<subseteq> set (fst s')) gs is"
proof (induction gs s arbitrary: "is" s' rule: migration.fill.induct)
  case (2 i gs s)
  then show ?case by (auto simp: bind_r_Inr)
next
  case (3 gs s)
  obtain i where i: "nextFreeId (fst s) (snd s) = Inr i"
  proof -
    obtain r where "supply_issue s = Inr r" using "3.prems"(1) by (auto simp: bind_r_Inr)
    then show ?thesis using that by (auto simp: bind_r_Inr supply_issue_def)
  qed
  have si: "supply_issue s = Inr (i, (fst s, i + 1))" by (simp add: supply_issue_def i)
  let ?t = "supply_claim i (fst s, i + 1)"
  obtain ks where f: "migration.fill gs ?t = Inr (ks, s')" and is_eq: "is = i # ks"
    using "3.prems"(1) si by (auto simp: bind_r_Inr)
  have least: "j \<in> set (fst s)" if "0 < j" "j < i" for j
    using nextFreeId_least [of "snd s" "fst s" i j] i "3.prems"(2,3) that by (simp add: supply_ready_def)
  have r: "supply_ready ?t"
    using migration.issue_valid [OF "3.prems"(2) si] by (simp add: supply_ready_def supply_claim_def)
  have low: "j \<in> set (fst ?t)" if "0 < j" "j < snd ?t" for j
    using that least [of j] by (cases "j = i") (simp_all add: supply_claim_def)
  note IH = "3.IH" [OF f r low]
  have "{0<..<i} \<subseteq> set (fst s')" using IH least by (auto simp: supply_claim_def)
  then show ?case using IH is_eq by (auto simp: supply_claim_def)
qed simp

lemma assign_ids_least:
  assumes "assign_ids raws (initial_assignment raws) = Inr (is, st)"
  shows "list_all2 (\<lambda>g i. g = None \<longrightarrow> {0<..<i} \<subseteq> set is) (gaps {} raws) is"
proof -
  have s: "set (as_seen (initial_assignment raws)) = {}" by (simp add: initial_assignment_def)
  have f: "migration.fill (gaps {} raws) (as_used (initial_assignment raws), as_next (initial_assignment raws)) =
      Inr (is, (as_used st, as_next st))"
    using assign_ids_fill [of "initial_assignment raws" raws] assms s by simp
  have "list_all2 (\<lambda>g i. g = None \<longrightarrow> {0<..<i} \<subseteq> set (as_used st)) (gaps {} raws) is"
    using fill_least [OF f initial_supply(1)] by (simp add: initial_assignment_def)
  then show ?thesis by (simp add: assign_ids_new(3) [OF assms])
qed

text \<open>The table maps a key to the id of the first element that has it.\<close>

definition key_table :: "jsval list \<Rightarrow> int list \<Rightarrow> (legacy_key option \<times> int) list" where
  "key_table raws is = zip (map legacyKey raws) is"

lemma remember_lookup:
  "map_of (as_mapping (remember raw i st)) k =
     (case map_of (as_mapping st) k of Some j \<Rightarrow> Some j | None \<Rightarrow> if legacyKey raw = Some k then Some i else None)"
  by (auto simp: remember_def map_add_def split: option.splits)

lemma assign_id_mapping:
  "assign_id raw st = Inr (i, st') \<Longrightarrow> map_of (as_mapping st') k = map_of (as_mapping (remember raw i st)) k"
  by (auto simp: assign_id_def assign_fresh_def bind_r_Inr remember_lookup split: option.splits if_splits)

lemma assign_ids_mapping:
  "assign_ids raws st = Inr (is, st') \<Longrightarrow>
     map_of (as_mapping st') k =
       (case map_of (as_mapping st) k of Some j \<Rightarrow> Some j | None \<Rightarrow> map_of (key_table raws is) (Some k))"
proof (induction raws arbitrary: st "is")
  case Nil
  then show ?case by (simp add: key_table_def split: option.split)
next
  case (Cons raw raws)
  obtain i t ks where i: "assign_id raw st = Inr (i, t)" "assign_ids raws t = Inr (ks, st')" "is = i # ks"
    using Cons.prems by (auto simp: bind_r_Inr)
  show ?case
    using Cons.IH [OF i(2)] i(3) assign_id_mapping [OF i(1), of k]
    by (auto simp: remember_lookup key_table_def split: option.splits)
qed


subsection \<open>The result of a migration\<close>

lemma allElements_put_layers:
  "length es = length (concat (map layer_elements ls)) \<Longrightarrow> concat (map layer_elements (put_layers ls es)) = es"
proof (induction ls arbitrary: es)
  case (Cons l ls)
  then show ?case by (cases "sl_elements l") (simp_all add: layer_elements_def)
qed simp

lemma allElements_put: "length es = length (allElements x) \<Longrightarrow> allElements (put_elements x es) = es"
  by (cases "so_layers x") (simp_all add: allElements_def put_elements_def allElements_put_layers)

lemma put_layers_own: "put_layers ls (concat (map layer_elements ls)) = ls"
proof (induction ls)
  case (Cons l ls)
  then show ?case by (cases "sl_elements l") (simp_all add: layer_elements_def)
qed simp

lemma put_elements_own: "put_elements x (allElements x) = x"
  by (cases "so_layers x") (simp_all add: allElements_def put_elements_def put_layers_own)

definition followed :: "jsval list \<Rightarrow> int list \<Rightarrow> jsval \<Rightarrow> int" where
  "followed raws is v =
     (case (case legacyKey v of Some k \<Rightarrow> map_of (key_table raws is) (Some k) | None \<Rightarrow> None) of
        Some j \<Rightarrow> j
      | None \<Rightarrow> (case isValidId v of Some i \<Rightarrow> i | None \<Rightarrow> 0))"

lemma resolve_followed:
  assumes "assign_ids raws (initial_assignment raws) = Inr (is, st)"
  shows "resolveReference (as_mapping st) = followed raws is"
proof
  fix v
  have "map_of (as_mapping st) k = map_of (key_table raws is) (Some k)" for k
    using assign_ids_mapping [OF assms, of k] by (simp add: initial_assignment_def)
  then show "resolveReference (as_mapping st) v = followed raws is v"
    by (simp add: resolveReference_def followed_def INVALID_LAYOUT_ELEMENT_ID_def split: option.split)
qed

definition migrated_elements :: "serialized_element list \<Rightarrow> int list \<Rightarrow> serialized_element list" where
  "migrated_elements es is =
     map2 (\<lambda>e i. migrate_references (followed (map se_id es) is) (e\<lparr>se_id := js_int i\<rparr>)) es is"

lemma count_references_id [simp]: "count_references f (e\<lparr>se_id := i\<rparr>) = count_references f e"
  by (simp add: count_references_def)

lemma migrate_elements_conv:
  "migrate_elements es =
     bind_r (assign_ids (map se_id es) (initial_assignment (map se_id es)))
       (\<lambda>(is, st). Inr (migrated_elements es is, as_count st,
          sum_list (map (count_references (followed (map se_id es) is)) es)))"
proof (cases "assign_ids (map se_id es) (initial_assignment (map se_id es))")
  case (Inl e)
  then show ?thesis by (simp add: migrate_elements_def initial_assignment_def)
next
  case (Inr r)
  then obtain "is" st where r: "assign_ids (map se_id es) (initial_assignment (map se_id es)) = Inr (is, st)"
    by (cases r) simp
  have "length is = length es"
    using assign_ids_new(1) [OF r] by (auto simp: new_ids_def dest: list_all2_lengthD)
  then have m: "map (count_references f) (map2 (\<lambda>e i. e\<lparr>se_id := js_int i\<rparr>) es is) = map (count_references f) es" for f
    by (intro nth_equalityI) simp_all
  show ?thesis
    using r m by (simp add: migrate_elements_def initial_assignment_def [symmetric] Let_def
        resolve_followed [OF r] migrated_elements_def comp_def case_prod_beta')
qed

lemma migrate_Inr:
  assumes "migrateSerializedLayoutIds x = Inr r"
  obtains "is" where "new_ids (map se_id (allElements x)) is"
    "list_all2 (\<lambda>g i. g = None \<longrightarrow> {0<..<i} \<subseteq> set is) (gaps {} (map se_id (allElements x))) is"
    "length is = length (allElements x)"
    "allElements (mr_layout r) = migrated_elements (allElements x) is"
    "mr_layout r = put_elements x (migrated_elements (allElements x) is)"
    "mr_elementCount r = length (filter (\<lambda>g. g = None) (gaps {} (map se_id (allElements x))))"
    "mr_referenceCount r = sum_list (map (count_references (followed (map se_id (allElements x)) is)) (allElements x))"
proof -
  obtain "is" st where a: "assign_ids (map se_id (allElements x)) (initial_assignment (map se_id (allElements x))) = Inr (is, st)"
    and r: "mr_layout r = put_elements x (migrated_elements (allElements x) is)" "mr_elementCount r = as_count st"
      "mr_referenceCount r = sum_list (map (count_references (followed (map se_id (allElements x)) is)) (allElements x))"
    using assms by (auto simp: migrateSerializedLayoutIds_def migrate_elements_conv bind_r_Inr)
  have l: "length is = length (allElements x)"
    using assign_ids_new(1) [OF a] by (auto simp: new_ids_def dest: list_all2_lengthD)
  show ?thesis
    by (rule that [OF assign_ids_new(1) [OF a] assign_ids_least [OF a] l _ r(1) _ r(3)])
      (use l assign_ids_new(2) [OF a] in \<open>simp_all add: r allElements_put migrated_elements_def\<close>)
qed

lemma isValidId_js_int [simp]: "isValidId (js_int i) = (if i \<in> valid_ids then Some i else None)"
proof (cases "isValidId (js_int i)")
  case (Some j)
  then show ?thesis using isValidId_valid [of "js_int i" j] by simp
next
  case None
  then show ?thesis using isValidId_valid [of "js_int i" i] by simp
qed

lemma gaps_nth:
  "k < length raws \<Longrightarrow> gaps seen raws ! k =
     (case isValidId (raws ! k) of
        Some i \<Rightarrow> if i \<in> seen \<or> raws ! k \<in> set (take k raws) then None else Some i
      | None \<Rightarrow> None)"
proof (induction seen raws arbitrary: k rule: gaps.induct)
  case (2 seen raw raws)
  show ?case
  proof (cases k)
    case 0
    then show ?thesis by (simp split: option.split)
  next
    case (Suc j)
    then have j: "j < length raws" using "2.prems" by simp
    have eq: "raw = raws ! j \<longleftrightarrow> a = b" if "isValidId raw = Some a" "isValidId (raws ! j) = Some b" for a b
      using that by (auto simp: isValidId_valid)
    show ?thesis
    proof (cases "isValidId raw")
      case None
      have "raws ! j \<noteq> raw" if "isValidId (raws ! j) = Some b" for b using None that by auto
      then show ?thesis using "2.IH"(1) [OF None j] None Suc by (simp split: option.split)
    next
      case (Some a)
      then show ?thesis
        using "2.IH"(2) [OF Some _ j] "2.IH"(3) [OF Some _ j] eq [OF Some] Suc
        by (cases "a \<in> seen") (auto split: option.split)
    qed
  qed
qed simp

lemma legacyKey_inj: "legacyKey v = Some k \<Longrightarrow> legacyKey w = Some k \<Longrightarrow> v = w"
  by (auto simp: legacyKey_def split: jsval.splits jsnum.splits)

lemma key_table_first:
  "j < length raws \<Longrightarrow> length is = length raws \<Longrightarrow> legacyKey (raws ! j) = Some k \<Longrightarrow> raws ! j \<notin> set (take j raws) \<Longrightarrow>
     map_of (key_table raws is) (Some k) = Some (is ! j)"
proof (induction raws arbitrary: j "is")
  case (Cons raw raws)
  obtain i ks where ks: "is = i # ks" "length ks = length raws" using Cons.prems(2) by (cases "is") auto
  show ?case
  proof (cases j)
    case 0
    then show ?thesis using Cons.prems ks by (simp add: key_table_def)
  next
    case (Suc n)
    have "legacyKey raw \<noteq> Some k" using Cons.prems Suc legacyKey_inj [of raw k "raws ! n"] by auto
    then show ?thesis using Cons.IH [of n ks] Cons.prems ks Suc by (simp add: key_table_def)
  qed
qed simp

lemma followed_first:
  "j < length raws \<Longrightarrow> length is = length raws \<Longrightarrow> legacyKey (raws ! j) = Some k \<Longrightarrow> raws ! j \<notin> set (take j raws) \<Longrightarrow>
     followed raws is (raws ! j) = is ! j"
  by (simp add: followed_def key_table_first)

lemma followed_range:
  assumes "set is \<subseteq> valid_ids"
  shows "followed raws is v = 0 \<or> followed raws is v \<in> valid_ids"
proof -
  have "x \<in> valid_ids" if "map_of (key_table raws is) k = Some x" for k x
    using map_of_SomeD [OF that] assms by (auto simp: key_table_def dest: set_zip_rightD)
  then show ?thesis by (auto simp: followed_def isValidId_valid split: option.split)
qed

lemma legacyKey_js_int: "legacyKey (js_int i) = Some (NumberKey (of_int i))"
  by (simp add: legacyKey_def js_int_def)

lemma key_table_ids:
  "map_of (key_table (map js_int is) is) (Some (NumberKey (of_int i))) = (if i \<in> set is then Some i else None)"
  by (induction "is") (auto simp: key_table_def legacyKey_js_int)

lemma followed_fix: "i = 0 \<or> i \<in> valid_ids \<Longrightarrow> set is \<subseteq> valid_ids \<Longrightarrow> followed (map js_int is) is (js_int i) = i"
  using key_table_ids [of "is" i] by (cases "i \<in> set is") (auto simp: followed_def legacyKey_js_int)


lemma migrated_nth:
  assumes "length is = length es" and "k < length es"
  shows "migrated_elements es is ! k = migrate_references (followed (map se_id es) is) ((es ! k)\<lparr>se_id := js_int (is ! k)\<rparr>)"
  using assms by (simp add: migrated_elements_def)

lemma migrated_ids:
  "length is = length es \<Longrightarrow> map se_id (migrated_elements es is) = map js_int is"
  by (rule nth_equalityI) (simp_all add: migrated_elements_def migrate_references_def)

subsection \<open>A second migration changes nothing\<close>

lemma gaps_ids: "distinct is \<Longrightarrow> set is \<subseteq> valid_ids \<Longrightarrow> seen \<inter> set is = {} \<Longrightarrow> gaps seen (map js_int is) = map Some is"
  by (induction "is" arbitrary: seen) auto

definition settled_reference :: "jsval \<Rightarrow> bool" where
  "settled_reference v \<longleftrightarrow> (\<exists>i. v = js_int i \<and> (i = 0 \<or> i \<in> valid_ids))"

definition settled_element :: "serialized_element \<Rightarrow> bool" where
  "settled_element e \<longleftrightarrow>
     (\<forall>items. se_routeTurnouts e = Some items \<longrightarrow>
        (\<forall>x\<in>set items. settled_reference (si_turnoutId x) \<and> si_turnoutId x \<noteq> js_int 0 \<and> (\<exists>b. si_closed x = JBool b))) \<and>
     (se_fromBlockId e = JUndef \<or> settled_reference (se_fromBlockId e)) \<and>
     (se_toBlockId e = JUndef \<or> settled_reference (se_toBlockId e))"

lemma migrate_references_settles:
  assumes "set is \<subseteq> valid_ids"
  shows "settled_element (migrate_references (followed raws is) e)"
proof -
  have "settled_reference (js_int (followed raws is v))" for v
    using followed_range [OF assms, of raws v] by (auto simp: settled_reference_def)
  then show ?thesis
    by (auto simp: settled_element_def migrate_references_def migrate_items_def migrate_item_def
        migrate_block_id_def INVALID_LAYOUT_ELEMENT_ID_def)
qed

lemma settled_fixed:
  assumes f: "\<And>v. settled_reference v \<Longrightarrow> js_int (f v) = v" and e: "settled_element e"
  shows "migrate_references f e = e" and "count_references f e = 0"
proof -
  have item: "migrate_item f x = x" if "se_routeTurnouts e = Some items" "x \<in> set items" for x items
  proof -
    have "settled_reference (si_turnoutId x)" "\<exists>b. si_closed x = JBool b" using e that by (auto simp: settled_element_def)
    then show ?thesis by (auto simp: migrate_item_def f)
  qed
  have "migrate_items f items = items" if i: "se_routeTurnouts e = Some items" for items
  proof -
    have "map (migrate_item f) items = items" using item [OF i] by (simp add: map_idI)
    then show ?thesis
      using e i by (auto simp: migrate_items_def settled_element_def INVALID_LAYOUT_ELEMENT_ID_def filter_id_conv)
  qed
  then have t: "map_option (migrate_items f) (se_routeTurnouts e) = se_routeTurnouts e" by (cases "se_routeTurnouts e") auto
  have b: "migrate_block_id f (se_fromBlockId e) = se_fromBlockId e" "migrate_block_id f (se_toBlockId e) = se_toBlockId e"
    using e f by (auto simp: migrate_block_id_def settled_element_def)
  show "migrate_references f e = e" by (simp add: migrate_references_def t b)
  have r: "changed_reference v (f v) = 0" if "settled_reference v" for v
    using f [OF that] by (simp add: changed_reference_def)
  have "changed_reference (si_turnoutId x) (f (si_turnoutId x)) = 0" if "se_routeTurnouts e = Some items" "x \<in> set items" for x items
    using e that r by (auto simp: settled_element_def)
  then show "count_references f e = 0"
    using e r by (auto simp: count_references_def settled_element_def split: option.split)
qed

lemma followed_settled:
  "set is \<subseteq> valid_ids \<Longrightarrow> settled_reference v \<Longrightarrow> js_int (followed (map js_int is) is v) = v"
  by (auto simp: settled_reference_def followed_fix)

lemma migrate_twice:
  assumes "migrateSerializedLayoutIds x = Inr r"
  shows "migrateSerializedLayoutIds (mr_layout r) =
    Inr \<lparr>mr_layout = mr_layout r, mr_migrated = False, mr_elementCount = 0, mr_referenceCount = 0\<rparr>"
proof -
  obtain "is" where ids: "new_ids (map se_id (allElements x)) is" and l: "length is = length (allElements x)"
    and out: "allElements (mr_layout r) = migrated_elements (allElements x) is"
    using migrate_Inr [OF assms] by metis
  define es where "es = allElements (mr_layout r)"
  have v: "distinct is" "set is \<subseteq> valid_ids" using ids by (simp_all add: new_ids_def)
  have raws: "map se_id es = map js_int is" using out l migrated_ids by (simp add: es_def)
  have len: "length es = length is" using out l by (simp add: es_def migrated_elements_def)
  have g: "gaps {} (map se_id es) = map Some is" unfolding raws by (rule gaps_ids) (use v in auto)
  have few: "length (map se_id es) \<le> 65535"
  proof -
    have "length is = card (set is)" using v by (simp add: distinct_card)
    also have "\<dots> \<le> card valid_ids" by (rule card_mono) (use v in auto)
    finally show ?thesis using len by (simp add: card_valid_ids)
  qed
  then obtain ks st where a: "assign_ids (map se_id es) (initial_assignment (map se_id es)) = Inr (ks, st)"
    using assign_ids_possible by (metis surj_pair)
  have ks: "ks = is"
    using assign_ids_new(1) [OF a] g by (auto simp: new_ids_def list_all2_conv_all_nth intro: nth_equalityI)
  have c: "as_count st = 0" using assign_ids_new(2) [OF a] g by (simp add: filter_empty_conv)
  have set1: "settled_element e" if "e \<in> set es" for e
    using that out migrate_references_settles [OF v(2)] by (auto simp: es_def migrated_elements_def set_zip)
  have fixed: "migrate_references (followed (map se_id es) is) e = e"
      "count_references (followed (map se_id es) is) e = 0" if "e \<in> set es" for e
    using settled_fixed [OF followed_settled [OF v(2)] set1 [OF that]] by (simp_all add: raws)
  have same: "migrated_elements es is = es"
  proof (rule nth_equalityI)
    show "length (migrated_elements es is) = length es" using len by (simp add: migrated_elements_def)
    fix k assume "k < length (migrated_elements es is)"
    then have k: "k < length es" using len by (simp add: migrated_elements_def)
    have "map se_id es ! k = map js_int is ! k" by (simp only: raws)
    then have "(es ! k)\<lparr>se_id := js_int (is ! k)\<rparr> = es ! k" using k len by simp
    then show "migrated_elements es is ! k = es ! k" using k len fixed(1) by (simp add: migrated_nth)
  qed
  have "sum_list (map (count_references (followed (map se_id es) is)) es) = 0"
    using fixed(2) by (simp add: sum_list_eq_0_iff)
  then have "migrate_elements es = Inr (es, 0, 0)"
    using a c same ks by (simp add: migrate_elements_conv)
  then show ?thesis
    by (simp add: migrateSerializedLayoutIds_def es_def [symmetric]) (simp add: es_def put_elements_own)
qed

lemma migration_possible:
  "(\<exists>r. migrateSerializedLayoutIds input = Inr r) \<longleftrightarrow> length (allElements input) \<le> 65535"
  using assign_ids_possible [of "map se_id (allElements input)"]
  by (auto simp: migrateSerializedLayoutIds_def migrate_elements_conv bind_r_def split: sum.splits)

subsection \<open>Properties of the migration\<close>

text \<open>C4. After a migration every element has a valid id and no two elements share one; an element whose
  id was valid and had not occurred before keeps it; every other element gets an id below which
  all ids are in use.\<close>

theorem migration_ids:
  "migrateSerializedLayoutIds input = Inr r \<Longrightarrow>
     \<exists>is. map se_id (allElements (mr_layout r)) = map js_int is \<and> distinct is \<and> set is \<subseteq> valid_ids \<and>
       (\<forall>k < length (allElements input).
          if isValidId (se_id (allElements input ! k)) \<noteq> None \<and>
             se_id (allElements input ! k) \<notin> set (take k (map se_id (allElements input)))
          then se_id (allElements input ! k) = js_int (is ! k)
          else {0<..<is ! k} \<subseteq> set is)"
proof -
  assume m: "migrateSerializedLayoutIds input = Inr r"
  obtain "is" where ids: "new_ids (map se_id (allElements input)) is"
    and low: "list_all2 (\<lambda>g i. g = None \<longrightarrow> {0<..<i} \<subseteq> set is) (gaps {} (map se_id (allElements input))) is"
    and l: "length is = length (allElements input)"
    and out: "allElements (mr_layout r) = migrated_elements (allElements input) is"
    by (rule migrate_Inr [OF m])
  have "if isValidId (se_id (allElements input ! k)) \<noteq> None \<and>
             se_id (allElements input ! k) \<notin> set (take k (map se_id (allElements input)))
          then se_id (allElements input ! k) = js_int (is ! k)
          else {0<..<is ! k} \<subseteq> set is" if k: "k < length (allElements input)" for k
  proof -
    let ?g = "gaps {} (map se_id (allElements input)) ! k"
    have "?g = None \<or> ?g = Some (is ! k)" "?g = None \<longrightarrow> {0<..<is ! k} \<subseteq> set is"
      using ids low k by (auto simp: new_ids_def list_all2_conv_all_nth)
    then show ?thesis
      using gaps_nth [of k "map se_id (allElements input)" "{}"] k
      by (cases "isValidId (se_id (allElements input ! k))") (auto simp: isValidId_valid split: if_splits)
  qed
  then show ?thesis using ids out l migrated_ids by (intro exI [of _ "is"]) (simp add: new_ids_def)
qed

text \<open>C5. The migration succeeds exactly for layouts of at most 65535 elements, the number of valid ids.\<close>

theorem migration_succeeds_iff:
  "(\<exists>r. migrateSerializedLayoutIds input = Inr r) \<longleftrightarrow> length (allElements input) \<le> 65535"
  by (rule migration_possible)

text \<open>C6. References follow the elements: a block reference or route turnout whose value was the id of an
  element names that element after the migration, by its new id; of several elements with that
  old id, the first.\<close>

theorem migration_references:
  assumes "migrateSerializedLayoutIds input = Inr r"
    and "k < length (allElements input)" and "j < length (allElements input)"
    and "se_id (allElements input ! j) = v" and "legacyKey v \<noteq> None"
    and "v \<notin> set (take j (map se_id (allElements input)))"
  shows "(se_fromBlockId (allElements input ! k) = v \<longrightarrow>
        se_fromBlockId (allElements (mr_layout r) ! k) = se_id (allElements (mr_layout r) ! j)) \<and>
     (se_toBlockId (allElements input ! k) = v \<longrightarrow>
        se_toBlockId (allElements (mr_layout r) ! k) = se_id (allElements (mr_layout r) ! j)) \<and>
     (\<forall>items item. se_routeTurnouts (allElements input ! k) = Some items \<and> item \<in> set items \<and> si_turnoutId item = v \<longrightarrow>
        \<lparr>si_turnoutId = se_id (allElements (mr_layout r) ! j), si_closed = JBool (to_boolean (si_closed item))\<rparr>
          \<in> set (the (se_routeTurnouts (allElements (mr_layout r) ! k))))"
proof -
  let ?es = "allElements input"
  obtain "is" where ids: "new_ids (map se_id ?es) is" and l: "length is = length ?es"
    and out: "allElements (mr_layout r) = migrated_elements ?es is"
    by (rule migrate_Inr [OF assms(1)])
  obtain key where key: "legacyKey v = Some key" using assms(5) by blast
  have f: "followed (map se_id ?es) is v = is ! j"
    using followed_first [of j "map se_id ?es" "is"] assms l key by simp
  have u: "v \<noteq> JUndef" using assms(5) by (auto simp: legacyKey_def)
  have jid: "se_id (migrated_elements ?es is ! j) = js_int (is ! j)"
    using assms(3) l by (simp add: migrated_nth migrate_references_def)
  have nz: "is ! j \<noteq> 0"
  proof -
    have "is ! j \<in> valid_ids" using ids assms(3) l nth_mem [of j "is"] unfolding new_ids_def by auto
    then show ?thesis by (auto simp: valid_ids_iff)
  qed
  show ?thesis
  proof (intro conjI impI allI)
    fix items item
    assume h: "se_routeTurnouts (?es ! k) = Some items \<and> item \<in> set items \<and> si_turnoutId item = v"
    have "si_turnoutId (migrate_item (followed (map se_id ?es) is) item) = js_int (is ! j)"
      using h f by (simp add: migrate_item_def)
    then have "migrate_item (followed (map se_id ?es) is) item \<in> set (migrate_items (followed (map se_id ?es) is) items)"
      using h nz by (simp add: migrate_items_def INVALID_LAYOUT_ELEMENT_ID_def)
    then show "\<lparr>si_turnoutId = se_id (allElements (mr_layout r) ! j), si_closed = JBool (to_boolean (si_closed item))\<rparr>
          \<in> set (the (se_routeTurnouts (allElements (mr_layout r) ! k)))"
      using h f assms(2) l by (simp add: out jid migrated_nth migrate_references_def migrate_item_def)
  qed (use f u assms(2) l in \<open>simp_all add: out jid migrated_nth migrate_references_def migrate_block_id_def\<close>)
qed

text \<open>A migrated layout is a fixed point: migrating it again changes nothing and reports nothing.\<close>

theorem migration_idempotent:
  "migrateSerializedLayoutIds input = Inr r \<Longrightarrow>
     migrateSerializedLayoutIds (mr_layout r) =
       Inr \<lparr>mr_layout = mr_layout r, mr_migrated = False, mr_elementCount = 0, mr_referenceCount = 0\<rparr>"
  by (rule migrate_twice)


subsection \<open>An example layout\<close>

text \<open>A block with a text id, two turnouts with one id, and a route button that names the block and
  the turnouts.\<close>

definition legacy_element :: "jsval \<Rightarrow> serialized_element" where
  "legacy_element i = \<lparr>se_id = i, se_routeTurnouts = None, se_fromBlockId = JUndef, se_toBlockId = JUndef, se_rest = []\<rparr>"

definition legacy_layout :: serialized_layout where
  "legacy_layout =
     \<lparr>so_layers = Some [\<lparr>sl_elements = Some
         [legacy_element (JStr ''a4''), legacy_element (js_int 1), legacy_element (js_int 1),
          (legacy_element (JStr ''b5''))\<lparr>se_fromBlockId := JStr ''a4'',
             se_routeTurnouts := Some [\<lparr>si_turnoutId = js_int 1, si_closed = JBool True\<rparr>]\<rparr>],
        sl_rest = []\<rparr>], so_rest = []\<rparr>"

lemma legacy_layout_elements: "length (allElements legacy_layout) = 4"
  by (simp add: legacy_layout_def allElements_def layer_elements_def)

lemma legacy_layout_migrates: "\<exists>r. migrateSerializedLayoutIds legacy_layout = Inr r"
  by (simp add: migration_possible legacy_layout_elements)

lemma migration_ids_witness:
  "\<exists>r is. migrateSerializedLayoutIds legacy_layout = Inr r \<and>
     map se_id (allElements (mr_layout r)) = map js_int is \<and> distinct is \<and> set is \<subseteq> valid_ids"
  using legacy_layout_migrates migration_ids [of legacy_layout] by blast

lemma migration_references_witness:
  "\<exists>r. migrateSerializedLayoutIds legacy_layout = Inr r \<and>
     se_fromBlockId (allElements (mr_layout r) ! 3) = se_id (allElements (mr_layout r) ! 0)"
proof -
  obtain r where r: "migrateSerializedLayoutIds legacy_layout = Inr r" using legacy_layout_migrates by blast
  have "se_id (allElements legacy_layout ! 0) = JStr ''a4''" "se_fromBlockId (allElements legacy_layout ! 3) = JStr ''a4''"
    by (simp_all add: legacy_layout_def legacy_element_def allElements_def layer_elements_def eval_nat_numeral)
  then show ?thesis
    using migration_references [OF r, of 3 0 "JStr ''a4''"] r by (simp add: legacy_layout_elements legacyKey_def)
qed

lemma migration_idempotent_witness:
  "\<exists>r. migrateSerializedLayoutIds legacy_layout = Inr r \<and>
     migrateSerializedLayoutIds (mr_layout r) =
       Inr \<lparr>mr_layout = mr_layout r, mr_migrated = False, mr_elementCount = 0, mr_referenceCount = 0\<rparr>"
  using legacy_layout_migrates migration_idempotent [of legacy_layout] by blast

end
