(* ===== verification/Geometry.thy ===== *)
theory Geometry
  imports Prelude
begin

text \<open>
  \<open>web-ui/src/domain/helpers.ts\<close> (the eight grid directions) and \<open>web-ui/src/domain/Rect.ts\<close> (points
  and rectangles on the integer grid). Angles and coordinates are integers, as the editor sets them.
  The rotated corners of a rectangle use floating point trigonometry and are not modelled.
\<close>

record point =
  p_x :: int
  p_y :: int

definition mk_point :: "int \<Rightarrow> int \<Rightarrow> point" where
  "mk_point x y = \<lparr>p_x = x, p_y = y\<rparr>"

definition isEqual :: "point \<Rightarrow> point \<Rightarrow> bool" where
  "isEqual p q \<longleftrightarrow> p_x p = p_x q \<and> p_y p = p_y q"

definition directions :: "(int \<times> int) list" where
  "directions = [(1, 0), (1, 1), (0, 1), (-1, 1), (-1, 0), (-1, -1), (0, -1), (1, -1)]"

text \<open>\<open>Math.round(a / 45)\<close> is the floor of \<open>a / 45 + 1 / 2\<close>.\<close>

definition getDirection :: "int \<Rightarrow> int \<times> int" where
  "getDirection angle =
     (let a = js_rem (js_rem angle 360 + 360) 360;
          index = js_rem ((2 * a + 45) div 90) (int (length directions))
      in directions ! nat index)"

definition getDirectionXy :: "point \<Rightarrow> int \<Rightarrow> point" where
  "getDirectionXy p angle = (let d = getDirection angle in mk_point (p_x p + fst d) (p_y p + snd d))"

subsection \<open>Rectangles\<close>

record rect =
  r_x :: int
  r_y :: int
  r_width :: int
  r_height :: int

definition mk_rect :: "int \<Rightarrow> int \<Rightarrow> int \<Rightarrow> int \<Rightarrow> rect" where
  "mk_rect x y w h = \<lparr>r_x = x, r_y = y, r_width = w, r_height = h\<rparr>"

definition r_right :: "rect \<Rightarrow> int" where "r_right r = r_x r + r_width r"
definition r_bottom :: "rect \<Rightarrow> int" where "r_bottom r = r_y r + r_height r"

definition containsPoint :: "rect \<Rightarrow> int \<Rightarrow> int \<Rightarrow> bool" where
  "containsPoint r x y \<longleftrightarrow> x \<ge> r_x r \<and> x \<le> r_right r \<and> y \<ge> r_y r \<and> y \<le> r_bottom r"

definition containsRect :: "rect \<Rightarrow> rect \<Rightarrow> bool" where
  "containsRect this r \<longleftrightarrow>
     r_x r \<ge> r_x this \<and> r_right r \<le> r_right this \<and> r_y r \<ge> r_y this \<and> r_bottom r \<le> r_bottom this"

definition intersects :: "rect \<Rightarrow> rect \<Rightarrow> bool" where
  "intersects this r \<longleftrightarrow>
     \<not> (r_x r > r_right this \<or> r_right r < r_x this \<or> r_y r > r_bottom this \<or> r_bottom r < r_y this)"

definition growXY :: "rect \<Rightarrow> int \<Rightarrow> int \<Rightarrow> rect" where
  "growXY r dx dy = mk_rect (r_x r - dx) (r_y r - dy) (r_width r + dx * 2) (r_height r + dy * 2)"

definition grow :: "rect \<Rightarrow> int \<Rightarrow> rect" where
  "grow r amount = mk_rect (r_x r - amount) (r_y r - amount) (r_width r + amount * 2) (r_height r + amount * 2)"

definition inflate :: "rect \<Rightarrow> int \<Rightarrow> int \<Rightarrow> rect" where
  "inflate r dx dy =
     r\<lparr>r_x := r_x r - dx, r_y := r_y r - dy, r_width := r_width r + dx * 2, r_height := r_height r + dy * 2\<rparr>"

definition translate :: "rect \<Rightarrow> int \<Rightarrow> int \<Rightarrow> rect" where
  "translate r dx dy = r\<lparr>r_x := r_x r + dx, r_y := r_y r + dy\<rparr>"

definition getCorners :: "rect \<Rightarrow> point list" where
  "getCorners r =
     [mk_point (r_x r) (r_y r), mk_point (r_right r) (r_y r),
      mk_point (r_right r) (r_bottom r), mk_point (r_x r) (r_bottom r)]"

definition rect_union :: "rect \<Rightarrow> rect \<Rightarrow> rect" where
  "rect_union this r =
     (let left = min (r_x this) (r_x r); top = min (r_y this) (r_y r);
          right = max (r_right this) (r_right r); bottom = max (r_bottom this) (r_bottom r)
      in mk_rect left top (right - left) (bottom - top))"

definition rect_intersection :: "rect \<Rightarrow> rect \<Rightarrow> rect option" where
  "rect_intersection this r =
     (let left = max (r_x this) (r_x r); top = max (r_y this) (r_y r);
          right = min (r_right this) (r_right r); bottom = min (r_bottom this) (r_bottom r)
      in if right \<le> left \<or> bottom \<le> top then None else Some (mk_rect left top (right - left) (bottom - top)))"

lemmas rect_defs [ops] = mk_rect_def r_right_def r_bottom_def containsPoint_def containsRect_def intersects_def
  growXY_def grow_def inflate_def translate_def getCorners_def rect_union_def rect_intersection_def

subsection \<open>The grid directions\<close>

lemma direction_index_bounds: "0 \<le> js_rem ((2 * (a mod 360) + 45) div 90) 8 \<and> js_rem ((2 * (a mod 360) + 45) div 90) 8 < 8"
proof -
  have "0 \<le> (2 * (a mod 360) + 45) div 90" by simp
  then show ?thesis by (simp add: js_rem_nonneg)
qed

definition direction_index :: "int \<Rightarrow> int" where
  "direction_index angle = ((2 * (angle mod 360) + 45) div 90) mod 8"

lemma getDirection_index: "getDirection angle = directions ! nat (direction_index angle)"
proof -
  have "0 \<le> (2 * (angle mod 360) + 45) div 90" by simp
  then show ?thesis
    by (simp add: getDirection_def Let_def js_rem_wrap js_rem_nonneg directions_def direction_index_def)
qed

lemma direction_index_range: "direction_index a \<in> {0, 1, 2, 3, 4, 5, 6, 7}"
proof -
  have "0 \<le> direction_index a" "direction_index a < 8" by (simp_all add: direction_index_def)
  then show ?thesis by auto
qed

lemma direction_index_half: "direction_index (a + 180) = (direction_index a + 4) mod 8"
proof -
  define r where "r = a mod 360"
  define q where "q = (2 * r + 45) div 90"
  have r: "0 \<le> r" "r < 360" by (simp_all add: r_def)
  have m: "(a + 180) mod 360 = (r + 180) mod 360" unfolding r_def by (simp add: mod_add_left_eq)
  have cases: "(2 * ((a + 180) mod 360) + 45) div 90 = q + 4 \<or> (2 * ((a + 180) mod 360) + 45) div 90 = q - 4"
  proof (cases "r < 180")
    case True
    then have "(a + 180) mod 360 = r + 180" using r m by simp
    moreover have "(2 * (r + 180) + 45) div 90 = (2 * r + 45) div 90 + 4"
      using div_mult_self1 [of 90 "2 * r + 45" 4] by simp
    ultimately show ?thesis by (simp add: q_def)
  next
    case False
    have "(r + 180) mod 360 = (r - 180) mod 360" using mod_add_self2 [of "r - 180" 360] by (simp add: add.commute)
    then have "(a + 180) mod 360 = r - 180" using False r m by simp
    moreover have "(2 * r + 45) div 90 = (2 * (r - 180) + 45) div 90 + 4"
      using div_mult_self1 [of 90 "2 * (r - 180) + 45" 4] by simp
    ultimately show ?thesis by (simp add: q_def)
  qed
  have "(q + 4) mod 8 = (q mod 8 + 4) mod 8" by (simp add: mod_add_left_eq)
  moreover have "(q - 4) mod 8 = (q mod 8 + 4) mod 8"
  proof -
    have "(q - 4) mod 8 = (q + 4) mod 8" using mod_add_self2 [of "q - 4" 8] by (simp add: add.commute)
    then show ?thesis by (simp add: mod_add_left_eq)
  qed
  ultimately have "((2 * ((a + 180) mod 360) + 45) div 90) mod 8 = (q mod 8 + 4) mod 8" using cases by metis
  moreover have "direction_index a = q mod 8" by (simp only: direction_index_def q_def r_def)
  ultimately show ?thesis unfolding direction_index_def [of "a + 180"] by (simp only:)
qed

lemma getDirection_unit: "getDirection a \<in> {-1..1} \<times> {-1..1} - {(0, 0)}"
  using direction_index_range [of a] by (auto simp: getDirection_index directions_def eval_nat_numeral)

lemma getDirection_opposite: "getDirection (a + 180) = (- fst (getDirection a), - snd (getDirection a))"
  using direction_index_range [of a]
  by (auto simp: getDirection_index direction_index_half directions_def eval_nat_numeral)

lemma getDirection_period: "getDirection (a + 360) = getDirection a"
  by (simp add: getDirection_index direction_index_def)

lemma getDirectionXy_coords [simp]:
  "p_x (getDirectionXy p a) = p_x p + fst (getDirection a)" "p_y (getDirectionXy p a) = p_y p + snd (getDirection a)"
  by (simp_all add: getDirectionXy_def Let_def mk_point_def)

lemma getDirectionXy_back: "isEqual (getDirectionXy (getDirectionXy p a) (a + 180)) p"
  by (simp add: isEqual_def getDirection_opposite)

lemma isEqual_iff: "isEqual p q \<longleftrightarrow> p = (q :: point)"
  by (cases p; cases q) (simp add: isEqual_def)

subsection \<open>Properties\<close>

text \<open>Every angle leads to one of the eight neighbours of a cell, turning half round leads to the
  opposite one, and going there and back returns to the cell.\<close>

theorem getDirectionXy_neighbour:
  "getDirectionXy p a \<noteq> p \<and> \<bar>p_x (getDirectionXy p a) - p_x p\<bar> \<le> 1 \<and> \<bar>p_y (getDirectionXy p a) - p_y p\<bar> \<le> 1 \<and>
     getDirectionXy (getDirectionXy p a) (a + 180) = p \<and> getDirectionXy p (a + 360) = getDirectionXy p a"
proof -
  have u: "fst (getDirection a) \<in> {-1..1}" "snd (getDirection a) \<in> {-1..1}" "getDirection a \<noteq> (0, 0)"
    using getDirection_unit [of a] by (auto simp: mem_Times_iff)
  have "getDirectionXy p a \<noteq> p"
  proof
    assume "getDirectionXy p a = p"
    then have "p_x p + fst (getDirection a) = p_x p" "p_y p + snd (getDirection a) = p_y p"
      by (metis getDirectionXy_coords(1), metis getDirectionXy_coords(2))
    then show False using u(3) by (simp add: prod_eq_iff)
  qed
  moreover have "getDirectionXy (getDirectionXy p a) (a + 180) = p"
    using getDirectionXy_back by (simp add: isEqual_iff)
  moreover have "getDirectionXy p (a + 360) = getDirectionXy p a"
    by (simp add: getDirectionXy_def getDirection_period)
  ultimately show ?thesis using u by (auto simp: abs_le_iff)
qed

text \<open>The union of two rectangles contains both. Their intersection, when there is one, lies in both
  and has inner points, and there is none exactly when the rectangles share no inner point.\<close>

theorem rect_union_intersection:
  "containsRect (rect_union a b) a \<and> containsRect (rect_union a b) b \<and>
     (case rect_intersection a b of
        Some r \<Rightarrow> containsRect a r \<and> containsRect b r \<and> r_width r > 0 \<and> r_height r > 0
      | None \<Rightarrow> \<not> (\<exists>x y. r_x a \<le> x \<and> x < r_right a \<and> r_y a \<le> y \<and> y < r_bottom a \<and>
            r_x b \<le> x \<and> x < r_right b \<and> r_y b \<le> y \<and> y < r_bottom b))"
proof -
  have u: "containsRect (rect_union a b) a \<and> containsRect (rect_union a b) b"
    by (simp add: containsRect_def rect_union_def mk_rect_def r_right_def r_bottom_def Let_def)
  show ?thesis
  proof (cases "rect_intersection a b")
    case None
    then have n: "min (r_right a) (r_right b) \<le> max (r_x a) (r_x b) \<or> min (r_bottom a) (r_bottom b) \<le> max (r_y a) (r_y b)"
      by (simp add: rect_intersection_def Let_def split: if_splits)
    have False if "r_x a \<le> x" "x < r_right a" "r_y a \<le> y" "y < r_bottom a"
      "r_x b \<le> x" "x < r_right b" "r_y b \<le> y" "y < r_bottom b" for x y
    proof -
      have "max (r_x a) (r_x b) \<le> x" "x < min (r_right a) (r_right b)"
        "max (r_y a) (r_y b) \<le> y" "y < min (r_bottom a) (r_bottom b)" using that by simp_all
      then show False using n by linarith
    qed
    then show ?thesis using u None by auto
  next
    case (Some r)
    then have r: "r_x r = max (r_x a) (r_x b)" "r_y r = max (r_y a) (r_y b)"
      "r_right r = min (r_right a) (r_right b)" "r_bottom r = min (r_bottom a) (r_bottom b)"
      "r_x r < r_right r" "r_y r < r_bottom r"
      by (auto simp: rect_intersection_def Let_def mk_rect_def r_right_def r_bottom_def split: if_splits)
    then have "containsRect a r \<and> containsRect b r" by (simp add: containsRect_def)
    moreover have "r_width r > 0 \<and> r_height r > 0" using r(5,6) by (simp add: r_right_def r_bottom_def)
    ultimately show ?thesis using u Some by simp
  qed
qed

end
