(* ===== verification/Elements.thy ===== *)
theory Elements
  imports Geometry IdSupply
begin

text \<open>
  The layout elements of \<open>web-ui/src/domain/layout/model\<close> and \<open>web-ui/src/domain/layout/elements\<close>.
  A class is a record, a subclass a record that extends it, a constructor a function \<open>new_...\<close>; an
  overridden method has the class name in front. A persisted element (DTO) is a record as well, its
  fields that \<open>fromJSON\<close> reads with \<open>??\<close> are options. Signals are in \<open>SignalElement\<close>.
\<close>

subsection \<open>BaseElement and TrackElement\<close>

datatype element_type = GENERAL | ADDRESSED_ELEMENT
  | TRACK_STRAIGHT | TRACK_DIRECTION | TRACK_END | TRACK_CORNER | TRACK_CURVE | TRACK_CROSSING | TRACK_LEVEL_CROSSING
  | TRACK_TURNOUT | TRACK_TURNOUT_LEFT | TRACK_TURNOUT_RIGHT | TRACK_TURNOUT_DOUBLE | TRACK_TURNOUT_TWO_WAY | TRACK_TURNOUT_THREE_WAY
  | TRACK_SENSOR | TRACK_SIGNAL | TRACK_SIGNAL2 | TRACK_SIGNAL3 | TRACK_SIGNAL4 | TRACK_BLOCK
  | BUTTON | BUTTON_SCRIPT | BUTTON_AUDIO | BUTTON_AUDIO_LIST | BUTTON_ROUTE | BUTTON_ROUTE_EXTENDED
  | CLOCK | TREE | LABEL

record base_element =
  be_id :: int
  be_type :: element_type
  be_name :: string
  be_layerName :: string
  be_x :: int
  be_y :: int
  be_w :: int
  be_h :: int
  be_rotation :: int
  be_rotationStep :: int
  be_locked :: bool
  be_visible :: bool
  be_bg :: string
  be_fg :: string
  be_occupied :: bool
  be_isVisited :: bool
  be_trackName :: string

datatype track_state = StateFree | StateSelected | StateOccupied
datatype element_direction = DirUnknown | DirForward | DirReverse

record track_element = base_element +
  te_address :: int
  te_length :: int
  te_state :: track_state
  te_section :: int
  te_isRoute :: bool
  te_travelDirection :: element_direction
  te_isBusy :: bool
  te_isTransit :: bool

text \<open>An assigned id is a number, or a text that an older \<open>clone\<close> generated.\<close>

definition normalizeAssignedId :: "int + string \<Rightarrow> int" where
  "normalizeAssignedId v =
     (case v of Inl i \<Rightarrow> if i > 0 \<and> i \<le> MAX_LAYOUT_ELEMENT_ID then i else INVALID_LAYOUT_ELEMENT_ID
      | Inr s \<Rightarrow> INVALID_LAYOUT_ELEMENT_ID)"

definition set_id :: "int + string \<Rightarrow> 'a base_element_scheme \<Rightarrow> 'a base_element_scheme" where
  "set_id v e = e\<lparr>be_id := normalizeAssignedId v\<rparr>"

definition normalizeRotation :: "int \<Rightarrow> int" where
  "normalizeRotation value = (let result = js_rem value 360 in if result < 0 then result + 360 else result)"

definition rotateRight :: "'a base_element_scheme \<Rightarrow> 'a base_element_scheme" where
  "rotateRight e = (if be_locked e then e else e\<lparr>be_rotation := normalizeRotation (be_rotation e + be_rotationStep e)\<rparr>)"

definition rotateLeft :: "'a base_element_scheme \<Rightarrow> 'a base_element_scheme" where
  "rotateLeft e = (if be_locked e then e else e\<lparr>be_rotation := normalizeRotation (be_rotation e - be_rotationStep e)\<rparr>)"

definition setRotation :: "int \<Rightarrow> 'a base_element_scheme \<Rightarrow> 'a base_element_scheme" where
  "setRotation rotation e = (if be_locked e then e else e\<lparr>be_rotation := normalizeRotation rotation\<rparr>)"

definition moveBy :: "int \<Rightarrow> int \<Rightarrow> 'a base_element_scheme \<Rightarrow> 'a base_element_scheme" where
  "moveBy dx dy e = (if be_locked e then e else e\<lparr>be_x := be_x e + dx, be_y := be_y e + dy\<rparr>)"

definition setPosition :: "int \<Rightarrow> int \<Rightarrow> 'a base_element_scheme \<Rightarrow> 'a base_element_scheme" where
  "setPosition x y e = (if be_locked e then e else e\<lparr>be_x := x, be_y := y\<rparr>)"

text \<open>\<open>getBounds\<close> and \<open>getCollisionBounds\<close> are overridden by the block: three cells along the track
  around its own cell, and its own cell for collisions.\<close>

definition base_getBounds :: "'a base_element_scheme \<Rightarrow> rect" where
  "base_getBounds e = mk_rect (be_x e) (be_y e) (be_w e) (be_h e)"

definition block_getBounds :: "'a base_element_scheme \<Rightarrow> rect" where
  "block_getBounds e =
     (if be_rotation e = 0 \<or> be_rotation e = 180 then mk_rect (be_x e - 1) (be_y e) (be_w e) (be_h e)
      else mk_rect (be_x e) (be_y e - 1) (be_h e) (be_w e))"

definition block_getCollisionBounds :: "'a base_element_scheme \<Rightarrow> rect" where
  "block_getCollisionBounds e = mk_rect (be_x e) (be_y e) 1 1"

definition getBounds :: "'a base_element_scheme \<Rightarrow> rect" where
  "getBounds e = (if be_type e = TRACK_BLOCK then block_getBounds e else base_getBounds e)"

definition getCollisionBounds :: "'a base_element_scheme \<Rightarrow> rect" where
  "getCollisionBounds e = (if be_type e = TRACK_BLOCK then block_getCollisionBounds e else getBounds e)"

definition hitTest :: "'a base_element_scheme \<Rightarrow> int \<Rightarrow> int \<Rightarrow> bool" where
  "hitTest e px py =
     (let bounds = getBounds e; x2 = r_x bounds + r_width bounds; y2 = r_y bounds + r_height bounds
      in px \<ge> r_x bounds \<and> py \<ge> r_y bounds \<and> px < x2 \<and> py < y2)"

definition be_pos :: "'a base_element_scheme \<Rightarrow> point" where
  "be_pos e = mk_point (be_x e) (be_y e)"

definition new_base :: "element_type \<Rightarrow> string \<Rightarrow> string \<Rightarrow> int \<Rightarrow> int \<Rightarrow> int \<Rightarrow> base_element" where
  "new_base type name layer step x y =
     \<lparr>be_id = INVALID_LAYOUT_ELEMENT_ID, be_type = type, be_name = name, be_layerName = layer, be_x = x, be_y = y,
      be_w = 1, be_h = 1, be_rotation = 0, be_rotationStep = step, be_locked = False, be_visible = True,
      be_bg = ''black'', be_fg = ''white'', be_occupied = False, be_isVisited = False, be_trackName = ''''\<rparr>"

definition new_track :: "base_element \<Rightarrow> track_element" where
  "new_track b = base_element.extend b
     \<lparr>te_address = 0, te_length = 200, te_state = StateFree, te_section = 0, te_isRoute = False,
      te_travelDirection = DirUnknown, te_isBusy = False, te_isTransit = False\<rparr>"

subsection \<open>Neighbours\<close>

definition base_getNextItemXy :: "'a base_element_scheme \<Rightarrow> point" where
  "base_getNextItemXy e = getDirectionXy (be_pos e) (be_rotation e)"

definition base_getPrevItemXy :: "'a base_element_scheme \<Rightarrow> point" where
  "base_getPrevItemXy e = getDirectionXy (be_pos e) (be_rotation e + 180)"

definition corner_getNextItemXy :: "'a base_element_scheme \<Rightarrow> point" where
  "corner_getNextItemXy e = getDirectionXy (be_pos e) (be_rotation e + 90)"

definition corner_getPrevItemXy :: "'a base_element_scheme \<Rightarrow> point" where
  "corner_getPrevItemXy e = getDirectionXy (be_pos e) (be_rotation e - 180)"

definition curve_getNextItemXy :: "'a base_element_scheme \<Rightarrow> point" where
  "curve_getNextItemXy e = getDirectionXy (be_pos e) (be_rotation e)"

definition curve_getPrevItemXy :: "'a base_element_scheme \<Rightarrow> point" where
  "curve_getPrevItemXy e = getDirectionXy (be_pos e) (be_rotation e + 225)"

definition getCrossingLineAngles :: "'a base_element_scheme \<Rightarrow> int \<times> int" where
  "getCrossingLineAngles e =
     (let rotation = normalizeRotation (be_rotation e) in
      if rotation \<in> {0, 180} then (0, 45)
      else if rotation \<in> {45, 225} then (90, 45)
      else if rotation \<in> {90, 270} then (90, 135)
      else if rotation \<in> {135, 315} then (0, 135)
      else (rotation, rotation + 45))"

definition crossing_getNeighborPointPairs :: "'a base_element_scheme \<Rightarrow> (point \<times> point) list" where
  "crossing_getNeighborPointPairs e =
     (case getCrossingLineAngles e of (straightAngle, crossingAngle) \<Rightarrow>
        [(getDirectionXy (be_pos e) (straightAngle + 180), getDirectionXy (be_pos e) straightAngle),
         (getDirectionXy (be_pos e) (crossingAngle + 180), getDirectionXy (be_pos e) crossingAngle)])"

text \<open>The pairs of a simple track follow from its two ends; all neighbours are the ends of the pairs.\<close>

definition getNextItemXy :: "'a base_element_scheme \<Rightarrow> point" where
  "getNextItemXy e =
     (case be_type e of TRACK_CORNER \<Rightarrow> corner_getNextItemXy e | TRACK_CURVE \<Rightarrow> curve_getNextItemXy e | _ \<Rightarrow> base_getNextItemXy e)"

definition getPrevItemXy :: "'a base_element_scheme \<Rightarrow> point" where
  "getPrevItemXy e =
     (case be_type e of TRACK_CORNER \<Rightarrow> corner_getPrevItemXy e | TRACK_CURVE \<Rightarrow> curve_getPrevItemXy e | _ \<Rightarrow> base_getPrevItemXy e)"

definition getNeighborPointPairs :: "'a base_element_scheme \<Rightarrow> (point \<times> point) list" where
  "getNeighborPointPairs e =
     (if be_type e = TRACK_CROSSING then crossing_getNeighborPointPairs e else [(getPrevItemXy e, getNextItemXy e)])"

definition getNeigbordsXy :: "'a base_element_scheme \<Rightarrow> point list" where
  "getNeigbordsXy e = concat (map (\<lambda>(p, q). [p, q]) (getNeighborPointPairs e))"

definition isForwardTowards :: "'a base_element_scheme \<Rightarrow> point \<Rightarrow> bool" where
  "isForwardTowards e pos = isEqual (getNextItemXy e) pos"

definition isBackwardTowards :: "'a base_element_scheme \<Rightarrow> point \<Rightarrow> bool" where
  "isBackwardTowards e pos = isEqual (getPrevItemXy e) pos"

subsection \<open>Turnouts\<close>

datatype output_mode = Accessory | Vpin

record turnout_element = track_element +
  tu_outputMode :: output_mode
  tu_turnoutAddress :: int
  tu_turnoutClosedValue :: bool
  tu_turnoutClosed :: bool

record turnout_connections =
  tc_entry :: point
  tc_straight :: point
  tc_div :: point

definition isClosed :: "'a turnout_element_scheme \<Rightarrow> bool" where
  "isClosed e \<longleftrightarrow> tu_turnoutClosed e = tu_turnoutClosedValue e"

definition left_getNextItemXy :: "'a turnout_element_scheme \<Rightarrow> point" where
  "left_getNextItemXy e =
     (if isClosed e then getDirectionXy (be_pos e) (- be_rotation e) else getDirectionXy (be_pos e) (- be_rotation e - 45))"

definition left_getPrevItemXy :: "'a turnout_element_scheme \<Rightarrow> point" where
  "left_getPrevItemXy e = getDirectionXy (be_pos e) (- be_rotation e + 180)"

definition left_getConnections :: "'a turnout_element_scheme \<Rightarrow> turnout_connections" where
  "left_getConnections e =
     \<lparr>tc_entry = getDirectionXy (be_pos e) (- be_rotation e + 180),
      tc_straight = getDirectionXy (be_pos e) (- be_rotation e),
      tc_div = getDirectionXy (be_pos e) (- be_rotation e - 45)\<rparr>"

definition left_getNeigbordsXy :: "'a turnout_element_scheme \<Rightarrow> point list" where
  "left_getNeigbordsXy e =
     [getDirectionXy (be_pos e) (- be_rotation e), getDirectionXy (be_pos e) (- be_rotation e - 45),
      getDirectionXy (be_pos e) (- be_rotation e + 180)]"

definition right_getNextItemXy :: "'a turnout_element_scheme \<Rightarrow> point" where
  "right_getNextItemXy e =
     (if isClosed e then getDirectionXy (be_pos e) (be_rotation e) else getDirectionXy (be_pos e) (be_rotation e + 45))"

definition right_getPrevItemXy :: "'a turnout_element_scheme \<Rightarrow> point" where
  "right_getPrevItemXy e = getDirectionXy (be_pos e) (be_rotation e + 180)"

definition right_getConnections :: "'a turnout_element_scheme \<Rightarrow> turnout_connections" where
  "right_getConnections e =
     \<lparr>tc_entry = getDirectionXy (be_pos e) (be_rotation e + 180),
      tc_straight = getDirectionXy (be_pos e) (be_rotation e),
      tc_div = getDirectionXy (be_pos e) (be_rotation e + 45)\<rparr>"

definition right_getNeigbordsXy :: "'a turnout_element_scheme \<Rightarrow> point list" where
  "right_getNeigbordsXy e =
     [getDirectionXy (be_pos e) (be_rotation e), getDirectionXy (be_pos e) (be_rotation e + 45),
      getDirectionXy (be_pos e) (be_rotation e + 180)]"

subsection \<open>The double turnout\<close>

record double_element = track_element +
  du_outputMode :: output_mode
  du_turnout1Address :: int
  du_turnout2Address :: int
  du_turnout1ClosedValue :: bool
  du_turnout2ClosedValue :: bool
  du_turnout1Closed :: bool
  du_turnout2Closed :: bool

datatype double_side = AStraight | ADiv | BStraight | BDiv

record double_route =
  dr_from :: double_side
  dr_to :: double_side
  dr_turnoutStates :: "(int \<times> bool) list"

definition firstLogicalClosed :: "'a double_element_scheme \<Rightarrow> bool" where
  "firstLogicalClosed e \<longleftrightarrow> du_turnout1Closed e = du_turnout1ClosedValue e"

definition secondLogicalClosed :: "'a double_element_scheme \<Rightarrow> bool" where
  "secondLogicalClosed e \<longleftrightarrow> du_turnout2Closed e = du_turnout2ClosedValue e"

definition double_getConnections :: "'a double_element_scheme \<Rightarrow> (double_side \<times> point) list" where
  "double_getConnections e =
     [(AStraight, getDirectionXy (be_pos e) (be_rotation e + 180)), (ADiv, getDirectionXy (be_pos e) (be_rotation e + 225)),
      (BStraight, getDirectionXy (be_pos e) (be_rotation e)), (BDiv, getDirectionXy (be_pos e) (be_rotation e + 45))]"

definition double_connection :: "'a double_element_scheme \<Rightarrow> double_side \<Rightarrow> point" where
  "double_connection e side = the (map_of (double_getConnections e) side)"

definition double_getNeighborPointPairs :: "'a double_element_scheme \<Rightarrow> (point \<times> point) list" where
  "double_getNeighborPointPairs e =
     [(double_connection e AStraight, double_connection e BStraight), (double_connection e ADiv, double_connection e BDiv)]"

definition double_getNeigbordsXy :: "'a double_element_scheme \<Rightarrow> point list" where
  "double_getNeigbordsXy e =
     [double_connection e AStraight, double_connection e ADiv, double_connection e BStraight, double_connection e BDiv]"

definition getAllowedRoutes :: "'a double_element_scheme \<Rightarrow> double_route list" where
  "getAllowedRoutes e =
     (let a1 = du_turnout1Address e; a2 = du_turnout2Address e; c1 = du_turnout1ClosedValue e; c2 = du_turnout2ClosedValue e
      in [\<lparr>dr_from = AStraight, dr_to = BStraight, dr_turnoutStates = [(a1, \<not> c1), (a2, \<not> c2)]\<rparr>,
          \<lparr>dr_from = AStraight, dr_to = BDiv, dr_turnoutStates = [(a1, \<not> c1), (a2, c2)]\<rparr>,
          \<lparr>dr_from = ADiv, dr_to = BStraight, dr_turnoutStates = [(a1, c1), (a2, \<not> c2)]\<rparr>,
          \<lparr>dr_from = ADiv, dr_to = BDiv, dr_turnoutStates = [(a1, c1), (a2, c2)]\<rparr>])"

definition getSideConnectedToPoint :: "'a double_element_scheme \<Rightarrow> point \<Rightarrow> double_side option" where
  "getSideConnectedToPoint e p = map_option fst (find (\<lambda>(side, connectionPoint). isEqual connectionPoint p) (double_getConnections e))"

definition getOppositeRoutesFromSide :: "'a double_element_scheme \<Rightarrow> double_side \<Rightarrow> double_route list" where
  "getOppositeRoutesFromSide e side = filter (\<lambda>route. dr_from route = side \<or> dr_to route = side) (getAllowedRoutes e)"

definition getRouteExitSide :: "double_route \<Rightarrow> double_side \<Rightarrow> double_side option" where
  "getRouteExitSide route enteredSide =
     (if dr_from route = enteredSide then Some (dr_to route)
      else if dr_to route = enteredSide then Some (dr_from route)
      else None)"


subsection \<open>Lemmas\<close>

lemma normalizeRotation_mod: "normalizeRotation value = value mod 360"
  by (simp add: normalizeRotation_def Let_def js_rem_fix)

lemma normalizeAssignedId_range: "normalizeAssignedId v \<in> insert 0 valid_ids"
  by (auto simp: normalizeAssignedId_def valid_ids_iff MAX_LAYOUT_ELEMENT_ID_def INVALID_LAYOUT_ELEMENT_ID_def split: sum.split)

lemma normalizeAssignedId_id: "i \<in> insert 0 valid_ids \<Longrightarrow> normalizeAssignedId (Inl i) = i"
  by (auto simp: normalizeAssignedId_def valid_ids_iff MAX_LAYOUT_ELEMENT_ID_def INVALID_LAYOUT_ELEMENT_ID_def)

lemma hitTest_rect:
  "hitTest e x y \<longleftrightarrow> r_x (getBounds e) \<le> x \<and> x < r_right (getBounds e) \<and> r_y (getBounds e) \<le> y \<and> y < r_bottom (getBounds e)"
  by (auto simp: hitTest_def Let_def r_right_def r_bottom_def)

text \<open>A step of 45 degrees goes to the next of the eight directions.\<close>

lemma direction_index_step: "direction_index (a + 45) = (direction_index a + 1) mod 8"
proof -
  define r where "r = a mod 360"
  define q where "q = (2 * r + 45) div 90"
  have r: "0 \<le> r" "r < 360" by (simp_all add: r_def)
  have m: "(a + 45) mod 360 = (r + 45) mod 360" unfolding r_def by (simp add: mod_add_left_eq)
  have d: "(2 * (r + 45) + 45) div 90 = q + 1"
    using div_mult_self1 [of 90 "2 * r + 45" 1] by (simp add: q_def)
  have "((2 * ((a + 45) mod 360) + 45) div 90) mod 8 = (q + 1) mod 8"
  proof (cases "r + 45 < 360")
    case True
    then have "(a + 45) mod 360 = r + 45" using r m by simp
    then show ?thesis by (simp only: d)
  next
    case False
    have "(r + 45) mod 360 = (r - 315) mod 360" using mod_add_self2 [of "r - 315" 360] by (simp add: add.commute)
    then have e: "(a + 45) mod 360 = r - 315" using False r m by simp
    have "(2 * (r + 45) + 45) div 90 = (2 * (r - 315) + 45) div 90 + 8"
      using div_mult_self1 [of 90 "2 * (r - 315) + 45" 8] by simp
    then have "(2 * (r - 315) + 45) div 90 = q + 1 - 8" using d by linarith
    then have "((2 * ((a + 45) mod 360) + 45) div 90) mod 8 = (q + 1 - 8) mod 8" by (simp only: e)
    then show ?thesis using mod_add_self2 [of "q + 1 - 8" 8] by (simp add: add.commute)
  qed
  moreover have "direction_index a = q mod 8" by (simp only: direction_index_def q_def r_def)
  ultimately show ?thesis unfolding direction_index_def [of "a + 45"] by (simp add: mod_add_left_eq)
qed

lemma getDirection_inj: "getDirection a = getDirection b \<longleftrightarrow> direction_index a = direction_index b"
  using direction_index_range [of a] direction_index_range [of b]
  by (auto simp: getDirection_index directions_def eval_nat_numeral)

lemma getDirectionXy_inj: "getDirectionXy p a = getDirectionXy p b \<longleftrightarrow> direction_index a = direction_index b"
  by (simp add: getDirectionXy_def Let_def mk_point_def getDirection_inj [symmetric] prod_eq_iff)

lemma index_distinct:
  "direction_index (a + 180) \<noteq> direction_index a" "direction_index (a + 45) \<noteq> direction_index a"
  "direction_index (a + 45) \<noteq> direction_index (a + 180)" "direction_index (a - 45) \<noteq> direction_index a"
  "direction_index (a - 45) \<noteq> direction_index (a + 180)"
proof -
  show "direction_index (a + 180) \<noteq> direction_index a" "direction_index (a + 45) \<noteq> direction_index a"
    "direction_index (a + 45) \<noteq> direction_index (a + 180)"
    using direction_index_range [of a] by (auto simp: direction_index_half direction_index_step)
  have "direction_index a = (direction_index (a - 45) + 1) mod 8" using direction_index_step [of "a - 45"] by simp
  then show "direction_index (a - 45) \<noteq> direction_index a" "direction_index (a - 45) \<noteq> direction_index (a + 180)"
    using direction_index_range [of "a - 45"] by (auto simp: direction_index_half)
qed

subsection \<open>Properties\<close>

text \<open>Rotating an element leaves its rotation in 0 to 359, equal to the requested one up to full
  turns, and no edit moves or rotates a locked element.\<close>

theorem edits_respect_lock:
  "if be_locked e then rotateRight e = e \<and> rotateLeft e = e \<and> setRotation r e = e \<and> moveBy dx dy e = e \<and> setPosition x y e = e
   else be_rotation (setRotation r e) \<in> {0..<360} \<and> be_rotation (setRotation r e) mod 360 = r mod 360 \<and>
     be_rotation (rotateRight e) \<in> {0..<360} \<and> be_rotation (rotateLeft (rotateRight e)) = be_rotation e mod 360 \<and>
     be_pos (moveBy dx dy e) = mk_point (be_x e + dx) (be_y e + dy) \<and> be_pos (setPosition x y e) = mk_point x y"
  by (simp add: rotateRight_def rotateLeft_def setRotation_def moveBy_def setPosition_def normalizeRotation_mod be_pos_def
      mod_diff_left_eq)

text \<open>A block is hit in the three cells along its rotation around its own cell, and collides in its
  own cell only.\<close>

theorem block_hit_cells:
  assumes "be_type e = TRACK_BLOCK" and "be_w e = 3" and "be_h e = 1"
  shows "(hitTest e x y \<longleftrightarrow>
      (if be_rotation e = 0 \<or> be_rotation e = 180 then \<bar>x - be_x e\<bar> \<le> 1 \<and> y = be_y e
       else x = be_x e \<and> \<bar>y - be_y e\<bar> \<le> 1)) \<and>
    getCollisionBounds e = mk_rect (be_x e) (be_y e) 1 1"
  using assms by (auto simp: hitTest_def getBounds_def block_getBounds_def getCollisionBounds_def
      block_getCollisionBounds_def mk_rect_def Let_def)

lemma block_hit_cells_witness:
  "hitTest ((new_base TRACK_BLOCK ''b'' ''blocks'' 90 4 4)\<lparr>be_w := 3\<rparr>) 3 4"
  using block_hit_cells [of "(new_base TRACK_BLOCK ''b'' ''blocks'' 90 4 4)\<lparr>be_w := 3\<rparr>" 3 4]
  by (simp add: new_base_def)

text \<open>A left or right turnout leads on to its straight neighbour when closed and to its diverging one
  when thrown, back to its entry; the three are different cells, and entry and straight are opposite.\<close>

theorem turnout_leads_on:
  "left_getNextItemXy e = (if isClosed e then tc_straight (left_getConnections e) else tc_div (left_getConnections e)) \<and>
   right_getNextItemXy e = (if isClosed e then tc_straight (right_getConnections e) else tc_div (right_getConnections e)) \<and>
   left_getPrevItemXy e = tc_entry (left_getConnections e) \<and> right_getPrevItemXy e = tc_entry (right_getConnections e) \<and>
   set (left_getNeigbordsXy e) = {tc_entry (left_getConnections e), tc_straight (left_getConnections e), tc_div (left_getConnections e)} \<and>
   set (right_getNeigbordsXy e) = {tc_entry (right_getConnections e), tc_straight (right_getConnections e), tc_div (right_getConnections e)} \<and>
   distinct (left_getNeigbordsXy e) \<and> distinct (right_getNeigbordsXy e)"
  using index_distinct [of "be_rotation e"] index_distinct [of "- be_rotation e"]
  by (auto simp: left_getNextItemXy_def right_getNextItemXy_def left_getPrevItemXy_def right_getPrevItemXy_def
      left_getConnections_def right_getConnections_def left_getNeigbordsXy_def right_getNeigbordsXy_def getDirectionXy_inj)

text \<open>Every setting of the two motors of a double turnout opens exactly one of its four routes, and
  the setting reported by feedback opens the route between the sides that the logical positions
  name. From each side two routes lead on, and both leave at the other end.\<close>

theorem double_turnout_routes:
  "length (filter (\<lambda>r. dr_turnoutStates r = [(du_turnout1Address e, c1), (du_turnout2Address e, c2)]) (getAllowedRoutes e)) = 1 \<and>
   (\<exists>r\<in>set (getAllowedRoutes e).
      dr_turnoutStates r = [(du_turnout1Address e, du_turnout1Closed e), (du_turnout2Address e, du_turnout2Closed e)] \<and>
      dr_from r = (if firstLogicalClosed e then ADiv else AStraight) \<and>
      dr_to r = (if secondLogicalClosed e then BDiv else BStraight)) \<and>
   map (\<lambda>r. getRouteExitSide r side) (getOppositeRoutesFromSide e side) =
      (if side \<in> {AStraight, ADiv} then [Some BStraight, Some BDiv] else [Some AStraight, Some ADiv])"
proof -
  have 1: "length (filter (\<lambda>r. dr_turnoutStates r = [(du_turnout1Address e, c1), (du_turnout2Address e, c2)]) (getAllowedRoutes e)) = 1"
    by (auto simp: getAllowedRoutes_def Let_def)
  have 2: "\<exists>r\<in>set (getAllowedRoutes e).
      dr_turnoutStates r = [(du_turnout1Address e, du_turnout1Closed e), (du_turnout2Address e, du_turnout2Closed e)] \<and>
      dr_from r = (if firstLogicalClosed e then ADiv else AStraight) \<and>
      dr_to r = (if secondLogicalClosed e then BDiv else BStraight)"
    by (auto simp: getAllowedRoutes_def Let_def firstLogicalClosed_def secondLogicalClosed_def)
  have 3: "map (\<lambda>r. getRouteExitSide r side) (getOppositeRoutesFromSide e side) =
      (if side \<in> {AStraight, ADiv} then [Some BStraight, Some BDiv] else [Some AStraight, Some ADiv])"
    by (cases side) (simp_all add: getOppositeRoutesFromSide_def getAllowedRoutes_def Let_def getRouteExitSide_def)
  show ?thesis using 1 2 3 by blast
qed

end
