(* ===== verification/SignalOutput.thy ===== *)
theory SignalOutput
  imports Elements JsText
begin

text \<open>
  \<open>web-ui/src/domain/layout/signalOutput.ts\<close>: the output configuration of a signal, its resizing and
  its default. Random state ids are arguments.
\<close>

definition MAX_SIGNAL_LAMPS :: int where "MAX_SIGNAL_LAMPS = 5"

datatype output_protocol = Dcc | DccExt

datatype dcc_direction = DirR | DirG

record lamp_state =
  lm_color :: string
  lm_active :: bool

record output_state =
  os_id :: string
  os_label :: string
  os_aspect :: int
  os_lamps :: "lamp_state list"
  os_dccOutputs :: "dcc_direction list"

record output_config =
  oc_protocol :: output_protocol
  oc_address :: int
  oc_outputCount :: int
  oc_lampCount :: int
  oc_displayAsSingleLamp :: bool
  oc_states :: "output_state list"

definition resizeSignalLamps :: "lamp_state list \<Rightarrow> int \<Rightarrow> lamp_state list" where
  "resizeSignalLamps lamps count =
     (let safeCount = max 1 (min MAX_SIGNAL_LAMPS count) in
      map (\<lambda>index. case nth_opt lamps index of Some l \<Rightarrow> l | None \<Rightarrow> \<lparr>lm_color = ''#868e96'', lm_active = False\<rparr>)
        [0..<nat safeCount])"

definition resizeDccOutputs :: "dcc_direction list \<Rightarrow> int \<Rightarrow> dcc_direction list" where
  "resizeDccOutputs outputs count =
     (let safeCount = max 1 (min 16 count) in
      map (\<lambda>index. case nth_opt outputs index of Some d \<Rightarrow> d | None \<Rightarrow> DirR) [0..<nat safeCount])"

definition cloneSignalOutputConfiguration :: "output_config \<Rightarrow> output_config" where
  "cloneSignalOutputConfiguration v = v\<lparr>oc_states := map (\<lambda>s. s\<lparr>os_lamps := map id (os_lamps s), os_dccOutputs := os_dccOutputs s\<rparr>) (oc_states v)\<rparr>"

definition makeLamps :: "int \<Rightarrow> nat \<Rightarrow> string \<Rightarrow> lamp_state list" where
  "makeLamps safeLampCount activeIndex activeColor =
     map (\<lambda>index. \<lparr>lm_color = (if index = activeIndex then activeColor
                     else case nth_opt [''#fa5252'', ''#40c057'', ''#fab005'', ''#ffffff''] index of Some c \<Rightarrow> c | None \<Rightarrow> ''#868e96''),
                   lm_active = (index = activeIndex)\<rparr>) [0..<nat safeLampCount]"

definition one_output :: "int \<Rightarrow> nat \<Rightarrow> dcc_direction list" where
  "one_output safeLampCount active = map (\<lambda>index. if index = active then DirG else DirR) [0..<nat safeLampCount]"

definition createDefaultSignalOutputConfiguration :: "string \<Rightarrow> string \<Rightarrow> int \<Rightarrow> int \<Rightarrow> output_config" where
  "createDefaultSignalOutputConfiguration redId greenId address lampCount =
     (let safeLampCount = max 1 (min MAX_SIGNAL_LAMPS lampCount); second = nat (min 1 (safeLampCount - 1)) in
      \<lparr>oc_protocol = Dcc, oc_address = max 1 address, oc_outputCount = max 1 safeLampCount, oc_lampCount = safeLampCount,
       oc_displayAsSingleLamp = False,
       oc_states =
         [\<lparr>os_id = redId, os_label = ''Red'', os_aspect = 0, os_lamps = makeLamps safeLampCount 0 ''#fa5252'',
           os_dccOutputs = one_output safeLampCount 0\<rparr>,
          \<lparr>os_id = greenId, os_label = ''Green'', os_aspect = 16, os_lamps = makeLamps safeLampCount second ''#40c057'',
           os_dccOutputs = one_output safeLampCount second\<rparr>]\<rparr>)"

lemma length_resizeDccOutputs [simp]: "length (resizeDccOutputs outputs count) = nat (max 1 (min 16 count))"
  by (simp add: resizeDccOutputs_def Let_def)

lemma length_resizeSignalLamps [simp]: "length (resizeSignalLamps lamps count) = nat (max 1 (min MAX_SIGNAL_LAMPS count))"
  by (simp add: resizeSignalLamps_def Let_def)

lemma resizeDccOutputs_same: "length outputs = nat (max 1 (min 16 count)) \<Longrightarrow> resizeDccOutputs outputs count = outputs"
  by (rule nth_equalityI) (simp_all add: resizeDccOutputs_def Let_def nth_opt_def)

lemma resizeDccOutputs_idem [simp]: "resizeDccOutputs (resizeDccOutputs outputs count) count = resizeDccOutputs outputs count"
  by (simp add: resizeDccOutputs_same)

lemma clone_same [simp]: "cloneSignalOutputConfiguration v = v"
  by (simp add: cloneSignalOutputConfiguration_def)

end
