(* ===== verification/ElementJson.thy ===== *)
theory ElementJson
  imports Elements
begin

text \<open>
  Saving and loading of layout elements: the DTOs of \<open>web-ui/src/domain/layout/layoutDto.ts\<close>, and
  \<open>toJSON\<close> and \<open>fromJSON\<close> of the element classes. The locale \<open>saved_form\<close> states what repeated saving
  needs; it is interpreted on all element classes together.
\<close>

subsection \<open>Persisted elements\<close>

record base_dto =
  bd_id :: int
  bd_type :: element_type
  bd_name :: string
  bd_layerName :: string
  bd_x :: int
  bd_y :: int
  bd_w :: int
  bd_h :: int
  bd_rotation :: int
  bd_rotationStep :: int
  bd_bg :: string
  bd_fg :: string

record track_dto = base_dto +
  td_address :: int
  td_length :: int

datatype barrier_type = BarrierNone | BarrierHalf | BarrierFull

record level_crossing_dto = track_dto +
  ld_basicAccessoryAddress :: "int option"
  ld_basicAccessoryClosedValue :: "bool option"
  ld_barrierType :: "barrier_type option"
  ld_barrierClosed :: "bool option"
  ld_lightsEnabled :: "bool option"
  ld_blinkingEnabled :: "bool option"
  ld_roadColor :: "string option"

record turnout_dto = track_dto +
  ud_outputMode :: "output_mode option"
  ud_turnoutAddress :: "int option"
  ud_turnoutClosedValue :: bool

record double_dto = track_dto +
  dd_turnout1Address :: int
  dd_turnout2Address :: int
  dd_turnout1ClosedValue :: "bool option"
  dd_turnout2ClosedValue :: "bool option"

datatype sensor_kind = SensorCircle | SensorRect

record sensor_dto = track_dto +
  xd_kind :: sensor_kind
  xd_colorOn :: string
  xd_colorOff :: string
  xd_radius :: "int option"

datatype block_type = BlockNormal | BlockStation | BlockTerminal | BlockStaging | BlockSiding | BlockYard

record block_dto = track_dto +
  kd_locoAddress :: "int option"
  kd_sensorAddress :: "int option"
  kd_blockType :: "block_type option"

subsection \<open>The other element classes\<close>

record level_crossing_element = track_element +
  le_basicAccessoryAddress :: int
  le_basicAccessoryClosedValue :: bool
  le_barrierType :: barrier_type
  le_barrierClosed :: bool
  le_lightsEnabled :: bool
  le_blinkingEnabled :: bool
  le_roadColor :: string

record sensor_element = track_element +
  xe_on :: bool
  xe_kind :: sensor_kind
  xe_colorOn :: string
  xe_colorOff :: string
  xe_textOn :: string
  xe_textOff :: string
  xe_radius :: int

record block_element = track_element +
  ke_text :: string
  ke_textColor :: string
  ke_locoAddress :: int
  ke_sensorAddress :: int
  ke_blockType :: block_type

record two_way_element = track_element +
  we_turnoutAddress :: int

definition new_TrackStraight :: "int \<Rightarrow> int \<Rightarrow> track_element" where
  "new_TrackStraight x y = (new_track (new_base TRACK_STRAIGHT ''element'' ''track'' 45 x y))\<lparr>te_length := 200\<rparr>"

definition new_TrackDirection :: "int \<Rightarrow> int \<Rightarrow> track_element" where
  "new_TrackDirection x y = (new_track (new_base TRACK_DIRECTION ''element'' ''track'' 45 x y))\<lparr>te_length := 200\<rparr>"

definition new_TrackEnd :: "int \<Rightarrow> int \<Rightarrow> track_element" where
  "new_TrackEnd x y = new_track (new_base TRACK_END ''element'' ''track'' 45 x y)"

definition new_TrackCorner :: "int \<Rightarrow> int \<Rightarrow> track_element" where
  "new_TrackCorner x y = new_track (new_base TRACK_CORNER ''element'' ''track'' 90 x y)"

definition new_TrackCurve :: "int \<Rightarrow> int \<Rightarrow> track_element" where
  "new_TrackCurve x y = new_track (new_base TRACK_CURVE ''element'' ''track'' 45 x y)"

definition new_TrackCrossing :: "int \<Rightarrow> int \<Rightarrow> track_element" where
  "new_TrackCrossing x y = new_track (new_base TRACK_CROSSING ''element'' ''track'' 45 x y)"

definition new_TrackLevelCrossing :: "int \<Rightarrow> int \<Rightarrow> level_crossing_element" where
  "new_TrackLevelCrossing x y =
     track_element.extend ((new_track (new_base TRACK_LEVEL_CROSSING ''Level crossing'' ''track'' 45 x y))\<lparr>te_length := 200\<rparr>)
       \<lparr>le_basicAccessoryAddress = 0, le_basicAccessoryClosedValue = True, le_barrierType = BarrierHalf,
        le_barrierClosed = False, le_lightsEnabled = True, le_blinkingEnabled = True, le_roadColor = ''#6c757d''\<rparr>"

definition new_turnout :: "element_type \<Rightarrow> int \<Rightarrow> int \<Rightarrow> turnout_element" where
  "new_turnout type x y =
     track_element.extend (new_track (new_base type ''element'' ''track'' 45 x y))
       \<lparr>tu_outputMode = Accessory, tu_turnoutAddress = 0, tu_turnoutClosedValue = False, tu_turnoutClosed = False\<rparr>"

definition new_TrackTurnoutTwoWay :: "int \<Rightarrow> int \<Rightarrow> two_way_element" where
  "new_TrackTurnoutTwoWay x y =
     track_element.extend (new_track (new_base TRACK_TURNOUT_TWO_WAY ''element'' ''track'' 45 x y)) \<lparr>we_turnoutAddress = 0\<rparr>"

definition new_TrackTurnoutDouble :: "int \<Rightarrow> int \<Rightarrow> double_element" where
  "new_TrackTurnoutDouble x y =
     track_element.extend (new_track (new_base TRACK_TURNOUT_DOUBLE ''trackturnoutdouble'' ''track'' 45 x y))
       \<lparr>du_outputMode = Accessory, du_turnout1Address = 0, du_turnout2Address = 0,
        du_turnout1ClosedValue = True, du_turnout2ClosedValue = True, du_turnout1Closed = False, du_turnout2Closed = False\<rparr>"

definition new_TrackSensor :: "int \<Rightarrow> int \<Rightarrow> sensor_element" where
  "new_TrackSensor x y =
     track_element.extend (new_track (new_base TRACK_SENSOR ''element'' ''sensors'' 0 x y))
       \<lparr>xe_on = False, xe_kind = SensorRect, xe_colorOn = ''lime'', xe_colorOff = ''green'',
        xe_textOn = ''ON'', xe_textOff = ''OFF'', xe_radius = 6\<rparr>"

definition new_Block :: "int \<Rightarrow> int \<Rightarrow> block_element" where
  "new_Block x y =
     track_element.extend ((new_track ((new_base TRACK_BLOCK ''element'' ''blocks'' 90 x y)\<lparr>be_w := 3, be_h := 1\<rparr>))\<lparr>te_length := 1\<rparr>)
       \<lparr>ke_text = ''HELLO'', ke_textColor = ''black'', ke_locoAddress = 0, ke_sensorAddress = 0, ke_blockType = BlockNormal\<rparr>"

subsection \<open>Saving\<close>

definition base_toJSON :: "'a base_element_scheme \<Rightarrow> base_dto" where
  "base_toJSON e =
     \<lparr>bd_id = be_id e, bd_type = be_type e, bd_name = be_name e, bd_layerName = be_layerName e, bd_x = be_x e, bd_y = be_y e,
      bd_w = be_w e, bd_h = be_h e, bd_rotation = be_rotation e, bd_rotationStep = be_rotationStep e, bd_bg = be_bg e, bd_fg = be_fg e\<rparr>"

definition track_toJSON :: "'a track_element_scheme \<Rightarrow> track_dto" where
  "track_toJSON e = base_dto.extend (base_toJSON e) \<lparr>td_address = te_address e, td_length = te_length e\<rparr>"

definition TrackStraight_toJSON :: "track_element \<Rightarrow> track_dto" where
  "TrackStraight_toJSON e = (track_toJSON e)\<lparr>bd_type := TRACK_STRAIGHT\<rparr>"

definition TrackDirection_toJSON :: "track_element \<Rightarrow> track_dto" where
  "TrackDirection_toJSON e = (track_toJSON e)\<lparr>bd_type := TRACK_DIRECTION\<rparr>"

definition TrackEnd_toJSON :: "track_element \<Rightarrow> track_dto" where
  "TrackEnd_toJSON e = (track_toJSON e)\<lparr>bd_type := TRACK_END\<rparr>"

definition TrackCorner_toJSON :: "track_element \<Rightarrow> track_dto" where
  "TrackCorner_toJSON e = (track_toJSON e)\<lparr>bd_type := TRACK_CORNER\<rparr>"

definition TrackCurve_toJSON :: "track_element \<Rightarrow> track_dto" where
  "TrackCurve_toJSON e = (track_toJSON e)\<lparr>bd_type := TRACK_CURVE\<rparr>"

definition TrackCrossing_toJSON :: "track_element \<Rightarrow> track_dto" where
  "TrackCrossing_toJSON e = (track_toJSON e)\<lparr>bd_type := TRACK_CROSSING\<rparr>"

definition TrackLevelCrossing_toJSON :: "level_crossing_element \<Rightarrow> level_crossing_dto" where
  "TrackLevelCrossing_toJSON e =
     track_dto.extend ((track_toJSON e)\<lparr>bd_type := TRACK_LEVEL_CROSSING\<rparr>)
       \<lparr>ld_basicAccessoryAddress = Some (le_basicAccessoryAddress e),
        ld_basicAccessoryClosedValue = Some (le_basicAccessoryClosedValue e), ld_barrierType = Some (le_barrierType e),
        ld_barrierClosed = Some (le_barrierClosed e), ld_lightsEnabled = Some (le_lightsEnabled e),
        ld_blinkingEnabled = Some (le_blinkingEnabled e), ld_roadColor = Some (le_roadColor e)\<rparr>"

definition TrackTurnoutLeft_toJSON :: "turnout_element \<Rightarrow> turnout_dto" where
  "TrackTurnoutLeft_toJSON e =
     track_dto.extend ((track_toJSON e)\<lparr>bd_type := TRACK_TURNOUT_LEFT\<rparr>)
       \<lparr>ud_outputMode = Some (tu_outputMode e), ud_turnoutAddress = Some (tu_turnoutAddress e),
        ud_turnoutClosedValue = tu_turnoutClosedValue e\<rparr>"

definition TrackTurnoutRight_toJSON :: "turnout_element \<Rightarrow> turnout_dto" where
  "TrackTurnoutRight_toJSON e =
     track_dto.extend ((track_toJSON e)\<lparr>bd_type := TRACK_TURNOUT_RIGHT\<rparr>)
       \<lparr>ud_outputMode = Some (tu_outputMode e), ud_turnoutAddress = Some (tu_turnoutAddress e),
        ud_turnoutClosedValue = tu_turnoutClosedValue e\<rparr>"

definition TrackTurnoutTwoWay_toJSON :: "two_way_element \<Rightarrow> track_dto" where
  "TrackTurnoutTwoWay_toJSON e = (track_toJSON e)\<lparr>bd_type := TRACK_TURNOUT_TWO_WAY\<rparr>"

definition TrackTurnoutDouble_toJSON :: "double_element \<Rightarrow> double_dto" where
  "TrackTurnoutDouble_toJSON e =
     track_dto.extend ((track_toJSON e)\<lparr>bd_type := TRACK_TURNOUT_DOUBLE\<rparr>)
       \<lparr>dd_turnout1Address = du_turnout1Address e, dd_turnout2Address = du_turnout2Address e,
        dd_turnout1ClosedValue = Some (du_turnout1ClosedValue e), dd_turnout2ClosedValue = Some (du_turnout2ClosedValue e)\<rparr>"

definition TrackSensor_toJSON :: "sensor_element \<Rightarrow> sensor_dto" where
  "TrackSensor_toJSON e =
     track_dto.extend ((track_toJSON e)\<lparr>bd_type := TRACK_SENSOR, td_address := te_address e\<rparr>)
       \<lparr>xd_kind = xe_kind e, xd_colorOn = xe_colorOn e, xd_colorOff = xe_colorOff e, xd_radius = Some (xe_radius e)\<rparr>"

definition Block_toJSON :: "block_element \<Rightarrow> block_dto" where
  "Block_toJSON e =
     track_dto.extend ((track_toJSON e)\<lparr>bd_type := TRACK_BLOCK, td_length := te_length e\<rparr>)
       \<lparr>kd_locoAddress = Some (ke_locoAddress e), kd_sensorAddress = Some (ke_sensorAddress e),
        kd_blockType = Some (ke_blockType e)\<rparr>"

subsection \<open>Loading\<close>

definition or_else :: "'a option \<Rightarrow> 'a \<Rightarrow> 'a" where
  "or_else v d = (case v of Some x \<Rightarrow> x | None \<Rightarrow> d)"

text \<open>The assignments every \<open>fromJSON\<close> starts with.\<close>

definition load_base :: "'a base_dto_scheme \<Rightarrow> 'b base_element_scheme \<Rightarrow> 'b base_element_scheme" where
  "load_base d e =
     (set_id (Inl (bd_id d)) e)\<lparr>be_name := bd_name d, be_layerName := bd_layerName d, be_rotation := bd_rotation d,
        be_rotationStep := bd_rotationStep d, be_bg := bd_bg d, be_fg := bd_fg d\<rparr>"

definition load_track :: "'a track_dto_scheme \<Rightarrow> 'b track_element_scheme \<Rightarrow> 'b track_element_scheme" where
  "load_track d e = (load_base d e)\<lparr>te_address := td_address d, te_length := td_length d\<rparr>"

definition TrackStraight_fromJSON :: "track_dto \<Rightarrow> track_element" where
  "TrackStraight_fromJSON d = load_track d (new_TrackStraight (bd_x d) (bd_y d))"

definition TrackDirection_fromJSON :: "track_dto \<Rightarrow> track_element" where
  "TrackDirection_fromJSON d = load_track d (new_TrackDirection (bd_x d) (bd_y d))"

definition TrackEnd_fromJSON :: "track_dto \<Rightarrow> track_element" where
  "TrackEnd_fromJSON d = load_track d (new_TrackEnd (bd_x d) (bd_y d))"

definition TrackCorner_fromJSON :: "track_dto \<Rightarrow> track_element" where
  "TrackCorner_fromJSON d = load_track d (new_TrackCorner (bd_x d) (bd_y d))"

definition TrackCurve_fromJSON :: "track_dto \<Rightarrow> track_element" where
  "TrackCurve_fromJSON d = load_track d (new_TrackCurve (bd_x d) (bd_y d))"

definition TrackCrossing_fromJSON :: "track_dto \<Rightarrow> track_element" where
  "TrackCrossing_fromJSON d = load_track d (new_TrackCrossing (bd_x d) (bd_y d))"

definition TrackLevelCrossing_fromJSON :: "level_crossing_dto \<Rightarrow> level_crossing_element" where
  "TrackLevelCrossing_fromJSON d =
     (load_track d (new_TrackLevelCrossing (bd_x d) (bd_y d)))
       \<lparr>le_basicAccessoryAddress := or_else (ld_basicAccessoryAddress d) 0,
        le_basicAccessoryClosedValue := or_else (ld_basicAccessoryClosedValue d) True,
        le_barrierType := or_else (ld_barrierType d) BarrierHalf,
        le_barrierClosed := or_else (ld_barrierClosed d) False,
        le_lightsEnabled := or_else (ld_lightsEnabled d) True,
        le_blinkingEnabled := or_else (ld_blinkingEnabled d) True,
        le_roadColor := or_else (ld_roadColor d) ''#6c757d''\<rparr>"

definition load_turnout :: "turnout_dto \<Rightarrow> turnout_element \<Rightarrow> turnout_element" where
  "load_turnout d e =
     (load_track d e)
       \<lparr>tu_turnoutAddress := or_else (ud_turnoutAddress d) 0,
        tu_outputMode := (if ud_outputMode d = Some Vpin then Vpin else Accessory),
        tu_turnoutClosedValue := ud_turnoutClosedValue d\<rparr>"

definition TrackTurnoutLeft_fromJSON :: "turnout_dto \<Rightarrow> turnout_element" where
  "TrackTurnoutLeft_fromJSON d = load_turnout d (new_turnout TRACK_TURNOUT_LEFT (bd_x d) (bd_y d))"

definition TrackTurnoutRight_fromJSON :: "turnout_dto \<Rightarrow> turnout_element" where
  "TrackTurnoutRight_fromJSON d = load_turnout d (new_turnout TRACK_TURNOUT_RIGHT (bd_x d) (bd_y d))"

definition TrackTurnoutTwoWay_fromJSON :: "track_dto \<Rightarrow> two_way_element" where
  "TrackTurnoutTwoWay_fromJSON d = load_track d (new_TrackTurnoutTwoWay (bd_x d) (bd_y d))"

definition TrackTurnoutDouble_fromJSON :: "double_dto \<Rightarrow> double_element" where
  "TrackTurnoutDouble_fromJSON d =
     (let e = load_track d (new_TrackTurnoutDouble (bd_x d) (bd_y d)) in
      e\<lparr>du_turnout1Address := dd_turnout1Address d, du_turnout2Address := dd_turnout2Address d,
        du_turnout1ClosedValue := or_else (dd_turnout1ClosedValue d) (du_turnout1ClosedValue e),
        du_turnout2ClosedValue := or_else (dd_turnout2ClosedValue d) (du_turnout2ClosedValue e)\<rparr>)"

definition TrackSensor_fromJSON :: "sensor_dto \<Rightarrow> sensor_element" where
  "TrackSensor_fromJSON d =
     (load_track d (new_TrackSensor (bd_x d) (bd_y d)))
       \<lparr>xe_kind := xd_kind d, xe_colorOn := xd_colorOn d, xe_colorOff := xd_colorOff d, xe_radius := or_else (xd_radius d) 6\<rparr>"

text \<open>\<open>Block_fromJSON\<close> does not read the address that \<open>Block_toJSON\<close> writes.\<close>

definition Block_fromJSON :: "block_dto \<Rightarrow> block_element" where
  "Block_fromJSON d =
     (load_base d (new_Block (bd_x d) (bd_y d)))
       \<lparr>te_length := td_length d, ke_sensorAddress := or_else (kd_sensorAddress d) 0,
        ke_locoAddress := or_else (kd_locoAddress d) 0, ke_blockType := or_else (kd_blockType d) BlockNormal\<rparr>"


subsection \<open>Repeated saving\<close>

text \<open>
  A client that saves and loads documents relies on one law: loading what was saved and saving it
  again gives the same document. Then any number of load and save rounds keeps the document, and so
  does a list of parts, each with its own document.
\<close>

locale saved_form =
  fixes proper :: "'e \<Rightarrow> bool"
    and save :: "'e \<Rightarrow> 'd"
    and load :: "'d \<Rightarrow> 'e"
  assumes save_load: "proper e \<Longrightarrow> save (load (save e)) = save e"
    and load_proper: "proper e \<Longrightarrow> proper (load (save e))"
begin

lemma rounds: "proper e \<Longrightarrow> save (((\<lambda>x. load (save x)) ^^ n) e) = save e \<and> proper (((\<lambda>x. load (save x)) ^^ n) e)"
  by (induction n) (auto simp: save_load load_proper)

lemma list_round: "list_all proper es \<Longrightarrow> map save (map load (map save es)) = map save es"
  by (induction es) (auto simp: save_load)

lemma list_rounds:
  "list_all proper es \<Longrightarrow> map save (((\<lambda>xs. map load (map save xs)) ^^ n) es) = map save es"
proof -
  assume p: "list_all proper es"
  have "((\<lambda>xs. map load (map save xs)) ^^ n) es = map (((\<lambda>x. load (save x)) ^^ n)) es"
    by (induction n) (simp_all add: comp_def)
  moreover have "map (\<lambda>x. save (((\<lambda>x. load (save x)) ^^ n) x)) es = map save es"
    using p rounds by (induction es) auto
  ultimately show ?thesis by (simp add: comp_def)
qed

end

datatype layout_element =
    StraightElement track_element | DirectionElement track_element | EndElement track_element
  | CornerElement track_element | CurveElement track_element | CrossingElement track_element
  | LevelCrossingElement level_crossing_element
  | TurnoutLeftElement turnout_element | TurnoutRightElement turnout_element
  | TurnoutTwoWayElement two_way_element | TurnoutDoubleElement double_element
  | SensorElement sensor_element | BlockElement block_element

datatype element_dto =
    StraightDto track_dto | DirectionDto track_dto | EndDto track_dto
  | CornerDto track_dto | CurveDto track_dto | CrossingDto track_dto
  | LevelCrossingDto level_crossing_dto
  | TurnoutLeftDto turnout_dto | TurnoutRightDto turnout_dto
  | TurnoutTwoWayDto track_dto | TurnoutDoubleDto double_dto
  | SensorDto sensor_dto | BlockDto block_dto

fun element_toJSON :: "layout_element \<Rightarrow> element_dto" where
  "element_toJSON (StraightElement e) = StraightDto (TrackStraight_toJSON e)"
| "element_toJSON (DirectionElement e) = DirectionDto (TrackDirection_toJSON e)"
| "element_toJSON (EndElement e) = EndDto (TrackEnd_toJSON e)"
| "element_toJSON (CornerElement e) = CornerDto (TrackCorner_toJSON e)"
| "element_toJSON (CurveElement e) = CurveDto (TrackCurve_toJSON e)"
| "element_toJSON (CrossingElement e) = CrossingDto (TrackCrossing_toJSON e)"
| "element_toJSON (LevelCrossingElement e) = LevelCrossingDto (TrackLevelCrossing_toJSON e)"
| "element_toJSON (TurnoutLeftElement e) = TurnoutLeftDto (TrackTurnoutLeft_toJSON e)"
| "element_toJSON (TurnoutRightElement e) = TurnoutRightDto (TrackTurnoutRight_toJSON e)"
| "element_toJSON (TurnoutTwoWayElement e) = TurnoutTwoWayDto (TrackTurnoutTwoWay_toJSON e)"
| "element_toJSON (TurnoutDoubleElement e) = TurnoutDoubleDto (TrackTurnoutDouble_toJSON e)"
| "element_toJSON (SensorElement e) = SensorDto (TrackSensor_toJSON e)"
| "element_toJSON (BlockElement e) = BlockDto (Block_toJSON e)"

fun element_fromJSON :: "element_dto \<Rightarrow> layout_element" where
  "element_fromJSON (StraightDto d) = StraightElement (TrackStraight_fromJSON d)"
| "element_fromJSON (DirectionDto d) = DirectionElement (TrackDirection_fromJSON d)"
| "element_fromJSON (EndDto d) = EndElement (TrackEnd_fromJSON d)"
| "element_fromJSON (CornerDto d) = CornerElement (TrackCorner_fromJSON d)"
| "element_fromJSON (CurveDto d) = CurveElement (TrackCurve_fromJSON d)"
| "element_fromJSON (CrossingDto d) = CrossingElement (TrackCrossing_fromJSON d)"
| "element_fromJSON (LevelCrossingDto d) = LevelCrossingElement (TrackLevelCrossing_fromJSON d)"
| "element_fromJSON (TurnoutLeftDto d) = TurnoutLeftElement (TrackTurnoutLeft_fromJSON d)"
| "element_fromJSON (TurnoutRightDto d) = TurnoutRightElement (TrackTurnoutRight_fromJSON d)"
| "element_fromJSON (TurnoutTwoWayDto d) = TurnoutTwoWayElement (TrackTurnoutTwoWay_fromJSON d)"
| "element_fromJSON (TurnoutDoubleDto d) = TurnoutDoubleElement (TrackTurnoutDouble_fromJSON d)"
| "element_fromJSON (SensorDto d) = SensorElement (TrackSensor_fromJSON d)"
| "element_fromJSON (BlockDto d) = BlockElement (Block_fromJSON d)"

text \<open>What the program keeps of every element: its id is 0 or valid, and its size is the one of its class.
  A block is saved faithfully when its unused accessory address is 0.\<close>

definition proper_base :: "int \<Rightarrow> int \<Rightarrow> 'a base_element_scheme \<Rightarrow> bool" where
  "proper_base w h e \<longleftrightarrow> be_id e \<in> insert 0 valid_ids \<and> be_w e = w \<and> be_h e = h"

fun proper_element :: "layout_element \<Rightarrow> bool" where
  "proper_element (StraightElement e) = proper_base 1 1 e"
| "proper_element (DirectionElement e) = proper_base 1 1 e"
| "proper_element (EndElement e) = proper_base 1 1 e"
| "proper_element (CornerElement e) = proper_base 1 1 e"
| "proper_element (CurveElement e) = proper_base 1 1 e"
| "proper_element (CrossingElement e) = proper_base 1 1 e"
| "proper_element (LevelCrossingElement e) = proper_base 1 1 e"
| "proper_element (TurnoutLeftElement e) = proper_base 1 1 e"
| "proper_element (TurnoutRightElement e) = proper_base 1 1 e"
| "proper_element (TurnoutTwoWayElement e) = proper_base 1 1 e"
| "proper_element (TurnoutDoubleElement e) = proper_base 1 1 e"
| "proper_element (SensorElement e) = proper_base 1 1 e"
| "proper_element (BlockElement e) = (proper_base 3 1 e \<and> te_address e = 0)"

lemmas load_defs = load_base_def load_track_def load_turnout_def set_id_def or_else_def normalizeAssignedId_id
lemmas save_defs = base_toJSON_def track_toJSON_def base_dto.defs track_dto.defs
lemmas new_defs = new_base_def new_track_def base_element.defs track_element.defs

lemma track_toJSON_sel [simp]:
  "bd_id (track_toJSON e) = be_id e" "bd_type (track_toJSON e) = be_type e"
  "bd_x (track_toJSON e) = be_x e" "bd_y (track_toJSON e) = be_y e" "bd_w (track_toJSON e) = be_w e" "bd_h (track_toJSON e) = be_h e"
  "td_address (track_toJSON e) = te_address e" "td_length (track_toJSON e) = te_length e"
  by (simp_all add: save_defs)

lemma track_dto_extend [simp]:
  "bd_id (track_dto.extend d m) = bd_id d" "bd_type (track_dto.extend d m) = bd_type d"
  "bd_x (track_dto.extend d m) = bd_x d" "bd_y (track_dto.extend d m) = bd_y d" "bd_w (track_dto.extend d m) = bd_w d"
  "bd_h (track_dto.extend d m) = bd_h d" "td_address (track_dto.extend d m) = td_address d" "td_length (track_dto.extend d m) = td_length d"
  "track_dto.truncate (track_dto.extend d m) = d" "track_dto.more (track_dto.extend d m) = m"
  by (simp_all add: track_dto.defs)

lemma track_dto_truncate [simp]: "track_dto.truncate (d :: track_dto) = d"
  by (simp add: track_dto.defs)

lemma track_saved:
  assumes "bd_id d \<in> insert 0 valid_ids" and "be_type e = bd_type d" and "be_x e = bd_x d" and "be_y e = bd_y d"
    and "be_w e = bd_w d" and "be_h e = bd_h d"
  shows "track_toJSON (load_track d e) = track_dto.truncate d"
  using assms normalizeAssignedId_id [of "bd_id d"] by (simp add: save_defs load_track_def load_base_def set_id_def)

lemma new_sel [simp]:
  "be_type (new_track b) = be_type b" "be_x (new_track b) = be_x b" "be_y (new_track b) = be_y b"
  "be_w (new_track b) = be_w b" "be_h (new_track b) = be_h b"
  "be_type (new_base t n l s x y) = t" "be_x (new_base t n l s x y) = x" "be_y (new_base t n l s x y) = y"
  "be_w (new_base t n l s x y) = 1" "be_h (new_base t n l s x y) = 1"
  "be_type (track_element.extend e m) = be_type e" "be_x (track_element.extend e m) = be_x e" "be_y (track_element.extend e m) = be_y e"
  "be_w (track_element.extend e m) = be_w e" "be_h (track_element.extend e m) = be_h e"
  by (simp_all add: new_defs)

lemma simple_track_round:
  "proper_base 1 1 e \<Longrightarrow> TrackStraight_toJSON (TrackStraight_fromJSON (TrackStraight_toJSON e)) = TrackStraight_toJSON e"
  "proper_base 1 1 e \<Longrightarrow> TrackDirection_toJSON (TrackDirection_fromJSON (TrackDirection_toJSON e)) = TrackDirection_toJSON e"
  "proper_base 1 1 e \<Longrightarrow> TrackEnd_toJSON (TrackEnd_fromJSON (TrackEnd_toJSON e)) = TrackEnd_toJSON e"
  "proper_base 1 1 e \<Longrightarrow> TrackCorner_toJSON (TrackCorner_fromJSON (TrackCorner_toJSON e)) = TrackCorner_toJSON e"
  "proper_base 1 1 e \<Longrightarrow> TrackCurve_toJSON (TrackCurve_fromJSON (TrackCurve_toJSON e)) = TrackCurve_toJSON e"
  "proper_base 1 1 e \<Longrightarrow> TrackCrossing_toJSON (TrackCrossing_fromJSON (TrackCrossing_toJSON e)) = TrackCrossing_toJSON e"
  by (simp_all add: proper_base_def track_saved
      TrackStraight_toJSON_def TrackStraight_fromJSON_def new_TrackStraight_def
      TrackDirection_toJSON_def TrackDirection_fromJSON_def new_TrackDirection_def
      TrackEnd_toJSON_def TrackEnd_fromJSON_def new_TrackEnd_def
      TrackCorner_toJSON_def TrackCorner_fromJSON_def new_TrackCorner_def
      TrackCurve_toJSON_def TrackCurve_fromJSON_def new_TrackCurve_def
      TrackCrossing_toJSON_def TrackCrossing_fromJSON_def new_TrackCrossing_def)

lemma level_crossing_round:
  assumes "proper_base 1 1 e"
  shows "TrackLevelCrossing_toJSON (TrackLevelCrossing_fromJSON (TrackLevelCrossing_toJSON e)) = TrackLevelCrossing_toJSON e"
proof -
  define d where "d = TrackLevelCrossing_toJSON e"
  have f: "bd_id d = be_id e" "bd_type d = TRACK_LEVEL_CROSSING" "bd_w d = 1" "bd_h d = 1"
    using assms by (simp_all add: d_def TrackLevelCrossing_toJSON_def proper_base_def)
  have "track_toJSON (TrackLevelCrossing_fromJSON d) = track_toJSON (load_track d (new_TrackLevelCrossing (bd_x d) (bd_y d)))"
    by (simp add: TrackLevelCrossing_fromJSON_def save_defs)
  also have "\<dots> = track_dto.truncate d"
    by (rule track_saved) (use f assms in \<open>simp_all add: new_TrackLevelCrossing_def proper_base_def\<close>)
  finally have t: "track_toJSON (TrackLevelCrossing_fromJSON d) = track_dto.truncate d" .
  have "TrackLevelCrossing_toJSON (TrackLevelCrossing_fromJSON d) = d"
    by (simp add: TrackLevelCrossing_toJSON_def t) (simp add: d_def TrackLevelCrossing_toJSON_def TrackLevelCrossing_fromJSON_def
        or_else_def track_dto.defs)
  then show ?thesis by (simp add: d_def)
qed

lemma turnout_round:
  assumes "proper_base 1 1 e"
  shows "TrackTurnoutLeft_toJSON (TrackTurnoutLeft_fromJSON (TrackTurnoutLeft_toJSON e)) = TrackTurnoutLeft_toJSON e"
    and "TrackTurnoutRight_toJSON (TrackTurnoutRight_fromJSON (TrackTurnoutRight_toJSON e)) = TrackTurnoutRight_toJSON e"
proof -
  have t: "track_toJSON (load_turnout d (new_turnout (bd_type d) (bd_x d) (bd_y d))) = track_dto.truncate d"
    if "bd_id d = be_id e" "bd_w d = 1" "bd_h d = 1" for d
  proof -
    have "track_toJSON (load_turnout d (new_turnout (bd_type d) (bd_x d) (bd_y d))) =
        track_toJSON (load_track d (new_turnout (bd_type d) (bd_x d) (bd_y d)))"
      by (simp add: load_turnout_def save_defs)
    also have "\<dots> = track_dto.truncate d"
      by (rule track_saved) (use that assms in \<open>simp_all add: new_turnout_def proper_base_def\<close>)
    finally show ?thesis .
  qed
  have w: "be_w e = 1" "be_h e = 1" using assms by (simp_all add: proper_base_def)
  have m: "(if tu_outputMode e = Vpin then Vpin else Accessory) = tu_outputMode e" by (cases "tu_outputMode e") simp_all
  define d where "d = TrackTurnoutLeft_toJSON e"
  have td: "track_toJSON (TrackTurnoutLeft_fromJSON d) = track_dto.truncate d"
    using t [of d] w by (simp add: d_def TrackTurnoutLeft_fromJSON_def TrackTurnoutLeft_toJSON_def)
  have "TrackTurnoutLeft_toJSON (TrackTurnoutLeft_fromJSON d) = d"
    by (simp add: TrackTurnoutLeft_toJSON_def td)
      (simp add: d_def TrackTurnoutLeft_toJSON_def TrackTurnoutLeft_fromJSON_def load_turnout_def or_else_def m track_dto.defs)
  then show "TrackTurnoutLeft_toJSON (TrackTurnoutLeft_fromJSON (TrackTurnoutLeft_toJSON e)) = TrackTurnoutLeft_toJSON e"
    by (simp add: d_def)
  define r where "r = TrackTurnoutRight_toJSON e"
  have tr: "track_toJSON (TrackTurnoutRight_fromJSON r) = track_dto.truncate r"
    using t [of r] w by (simp add: r_def TrackTurnoutRight_fromJSON_def TrackTurnoutRight_toJSON_def)
  have "TrackTurnoutRight_toJSON (TrackTurnoutRight_fromJSON r) = r"
    by (simp add: TrackTurnoutRight_toJSON_def tr)
      (simp add: r_def TrackTurnoutRight_toJSON_def TrackTurnoutRight_fromJSON_def load_turnout_def or_else_def m track_dto.defs)
  then show "TrackTurnoutRight_toJSON (TrackTurnoutRight_fromJSON (TrackTurnoutRight_toJSON e)) = TrackTurnoutRight_toJSON e"
    by (simp add: r_def)
qed

lemma two_way_round:
  "proper_base 1 1 e \<Longrightarrow> TrackTurnoutTwoWay_toJSON (TrackTurnoutTwoWay_fromJSON (TrackTurnoutTwoWay_toJSON e)) = TrackTurnoutTwoWay_toJSON e"
  by (simp add: proper_base_def track_saved TrackTurnoutTwoWay_toJSON_def TrackTurnoutTwoWay_fromJSON_def new_TrackTurnoutTwoWay_def)

lemma double_round:
  assumes "proper_base 1 1 e"
  shows "TrackTurnoutDouble_toJSON (TrackTurnoutDouble_fromJSON (TrackTurnoutDouble_toJSON e)) = TrackTurnoutDouble_toJSON e"
proof -
  define d where "d = TrackTurnoutDouble_toJSON e"
  have f: "bd_id d = be_id e" "bd_type d = TRACK_TURNOUT_DOUBLE" "bd_w d = 1" "bd_h d = 1"
    using assms by (simp_all add: d_def TrackTurnoutDouble_toJSON_def proper_base_def)
  have "track_toJSON (TrackTurnoutDouble_fromJSON d) = track_toJSON (load_track d (new_TrackTurnoutDouble (bd_x d) (bd_y d)))"
    by (simp add: TrackTurnoutDouble_fromJSON_def save_defs Let_def)
  also have "\<dots> = track_dto.truncate d"
    by (rule track_saved) (use f assms in \<open>simp_all add: new_TrackTurnoutDouble_def proper_base_def\<close>)
  finally have t: "track_toJSON (TrackTurnoutDouble_fromJSON d) = track_dto.truncate d" .
  have "TrackTurnoutDouble_toJSON (TrackTurnoutDouble_fromJSON d) = d"
    by (simp add: TrackTurnoutDouble_toJSON_def t) (simp add: d_def TrackTurnoutDouble_toJSON_def TrackTurnoutDouble_fromJSON_def
        or_else_def track_dto.defs Let_def)
  then show ?thesis by (simp add: d_def)
qed

lemma sensor_round:
  assumes "proper_base 1 1 e"
  shows "TrackSensor_toJSON (TrackSensor_fromJSON (TrackSensor_toJSON e)) = TrackSensor_toJSON e"
proof -
  define d where "d = TrackSensor_toJSON e"
  have f: "bd_id d = be_id e" "bd_type d = TRACK_SENSOR" "bd_w d = 1" "bd_h d = 1"
    using assms by (simp_all add: d_def TrackSensor_toJSON_def proper_base_def)
  have "track_toJSON (TrackSensor_fromJSON d) = track_toJSON (load_track d (new_TrackSensor (bd_x d) (bd_y d)))"
    by (simp add: TrackSensor_fromJSON_def save_defs)
  also have "\<dots> = track_dto.truncate d"
    by (rule track_saved) (use f assms in \<open>simp_all add: new_TrackSensor_def proper_base_def\<close>)
  finally have t: "track_toJSON (TrackSensor_fromJSON d) = track_dto.truncate d" .
  have a: "te_address (TrackSensor_fromJSON d) = td_address d"
    by (simp add: TrackSensor_fromJSON_def load_track_def)
  have "TrackSensor_toJSON (TrackSensor_fromJSON d) = d"
    by (simp add: TrackSensor_toJSON_def t a) (simp add: d_def TrackSensor_toJSON_def TrackSensor_fromJSON_def
        or_else_def track_dto.defs)
  then show ?thesis by (simp add: d_def)
qed

lemma block_round:
  assumes "proper_base 3 1 e" and "te_address e = 0"
  shows "Block_toJSON (Block_fromJSON (Block_toJSON e)) = Block_toJSON e"
proof -
  define d where "d = Block_toJSON e"
  have f: "bd_id d = be_id e" "bd_type d = TRACK_BLOCK" "bd_w d = 3" "bd_h d = 1" "td_address d = 0"
    using assms by (simp_all add: d_def Block_toJSON_def proper_base_def)
  have n: "te_address (new_Block x y) = 0" for x y by (simp add: new_Block_def new_defs)
  have "track_toJSON (Block_fromJSON d) = track_toJSON (load_track d (new_Block (bd_x d) (bd_y d)))"
    by (simp add: Block_fromJSON_def load_track_def load_base_def set_id_def save_defs f(5) n)
  also have "\<dots> = track_dto.truncate d"
    by (rule track_saved) (use f assms in \<open>simp_all add: new_Block_def proper_base_def\<close>)
  finally have t: "track_toJSON (Block_fromJSON d) = track_dto.truncate d" .
  have a: "te_length (Block_fromJSON d) = td_length d" by (simp add: Block_fromJSON_def)
  have "Block_toJSON (Block_fromJSON d) = d"
    by (simp add: Block_toJSON_def t a) (simp add: d_def Block_toJSON_def Block_fromJSON_def
        or_else_def track_dto.defs)
  then show ?thesis by (simp add: d_def)
qed

lemma element_round: "proper_element e \<Longrightarrow> element_toJSON (element_fromJSON (element_toJSON e)) = element_toJSON e"
  by (cases e) (simp_all add: simple_track_round turnout_round level_crossing_round two_way_round double_round sensor_round block_round)

lemma loaded_proper:
  "proper_base 1 1 (load_base d (new_track (new_base t n l s x y)))"
  "proper_base 1 1 (load_track td (new_track (new_base t n l s x y)))"
  using normalizeAssignedId_range by (simp_all add: proper_base_def load_base_def load_track_def set_id_def new_defs)

lemma element_load_proper: "proper_element (element_fromJSON d)"
  using normalizeAssignedId_range
  by (cases d) (simp_all add: proper_base_def load_base_def load_track_def load_turnout_def set_id_def Let_def new_defs
      TrackStraight_fromJSON_def new_TrackStraight_def TrackDirection_fromJSON_def new_TrackDirection_def
      TrackEnd_fromJSON_def new_TrackEnd_def TrackCorner_fromJSON_def new_TrackCorner_def
      TrackCurve_fromJSON_def new_TrackCurve_def TrackCrossing_fromJSON_def new_TrackCrossing_def
      TrackTurnoutLeft_fromJSON_def TrackTurnoutRight_fromJSON_def new_turnout_def
      TrackLevelCrossing_fromJSON_def new_TrackLevelCrossing_def TrackTurnoutTwoWay_fromJSON_def new_TrackTurnoutTwoWay_def
      TrackTurnoutDouble_fromJSON_def new_TrackTurnoutDouble_def TrackSensor_fromJSON_def new_TrackSensor_def
      Block_fromJSON_def new_Block_def)

interpretation element_saves: saved_form proper_element element_toJSON element_fromJSON
  by unfold_locales (simp_all add: element_round element_load_proper)

subsection \<open>Properties\<close>

text \<open>Loading any saved element gives a proper one, and saving and loading the elements of a layer
  any number of times keeps what is saved of each of them.\<close>

theorem element_saves_stable:
  "list_all proper_element es \<Longrightarrow>
     map element_toJSON (((\<lambda>xs. map element_fromJSON (map element_toJSON xs)) ^^ n) es) = map element_toJSON es \<and>
     proper_element (element_fromJSON d)"
  using element_saves.list_rounds element_load_proper by blast

lemma element_saves_stable_witness:
  "map element_toJSON (((\<lambda>xs. map element_fromJSON (map element_toJSON xs)) ^^ 3) [BlockElement (new_Block 2 3), EndElement (new_TrackEnd 5 3)]) =
     map element_toJSON [BlockElement (new_Block 2 3), EndElement (new_TrackEnd 5 3)]"
  using element_saves_stable [of "[BlockElement (new_Block 2 3), EndElement (new_TrackEnd 5 3)]" 3]
  by (simp add: proper_base_def new_Block_def new_TrackEnd_def new_defs INVALID_LAYOUT_ELEMENT_ID_def)

text \<open>A double turnout does not keep its output mode: one driven by virtual pins is loaded back as
  an accessory turnout.\<close>

theorem double_turnout_forgets_mode:
  "du_outputMode (TrackTurnoutDouble_fromJSON (TrackTurnoutDouble_toJSON (e\<lparr>du_outputMode := Vpin\<rparr>))) = Accessory"
  by (simp add: TrackTurnoutDouble_fromJSON_def new_TrackTurnoutDouble_def load_defs new_defs Let_def)

end
