(* ===== verification/SignalElement.thy ===== *)
theory SignalElement
  imports SignalOutput ElementJson
begin

text \<open>
  \<open>web-ui/src/domain/layout/elements/TrackSignalElement.ts\<close>: a signal with its output configuration,
  the index of its current state, and the accessory outputs known from feedback. Bit masks are 32-bit
  as the shifts of the language make them; a new random state id is an argument of the setters that
  may create a state.
\<close>

unbundle bit_operations_syntax

record signal_element = track_element +
  se_signalOutput :: output_config
  se_currentStateIndex :: int
  se_dccFeedbackOutputs :: "dcc_direction list option"
  se_lightsAll :: bool
  se_showAddress :: bool

datatype signal_state = SignalGreen | SignalRed | SignalYellow | SignalWhite

definition new_TrackSignal :: "string \<Rightarrow> string \<Rightarrow> int \<Rightarrow> int \<Rightarrow> signal_element" where
  "new_TrackSignal redId greenId x y =
     track_element.extend
       ((new_track ((new_base TRACK_SIGNAL2 ''element'' ''signals'' 45 x y)\<lparr>be_rotation := 90\<rparr>))\<lparr>te_address := 1\<rparr>)
       \<lparr>se_signalOutput = createDefaultSignalOutputConfiguration redId greenId 1 2, se_currentStateIndex = 0,
        se_dccFeedbackOutputs = None, se_lightsAll = False, se_showAddress = False\<rparr>"

abbreviation se_states :: "'a signal_element_scheme \<Rightarrow> output_state list" where
  "se_states e \<equiv> oc_states (se_signalOutput e)"

text \<open>An index that is no position of the list reads \<open>undefined\<close>.\<close>

definition state_at :: "output_state list \<Rightarrow> int \<Rightarrow> output_state option" where
  "state_at states i = (if i < 0 then None else nth_opt states (nat i))"

definition currentState :: "'a signal_element_scheme \<Rightarrow> output_state option" where
  "currentState e =
     (case state_at (se_states e) (se_currentStateIndex e) of Some s \<Rightarrow> Some s | None \<Rightarrow> state_at (se_states e) 0)"

definition stateCount :: "'a signal_element_scheme \<Rightarrow> int" where
  "stateCount e = int (length (se_states e))"

definition lastAddress :: "'a signal_element_scheme \<Rightarrow> int" where
  "lastAddress e =
     (if oc_protocol (se_signalOutput e) = DccExt then oc_address (se_signalOutput e)
      else oc_address (se_signalOutput e) + max 0 (oc_outputCount (se_signalOutput e) - 1))"

definition set_states :: "(output_state \<Rightarrow> output_state) \<Rightarrow> output_config \<Rightarrow> output_config" where
  "set_states f c = c\<lparr>oc_states := map f (oc_states c)\<rparr>"

definition set_aspect :: "int \<Rightarrow> signal_element \<Rightarrow> signal_element" where
  "set_aspect value e =
     (let lampCount = max 1 (min MAX_SIGNAL_LAMPS (if value = 0 then 2 else value)) in
      if oc_lampCount (se_signalOutput e) = lampCount then e
      else e\<lparr>se_signalOutput := set_states (\<lambda>s. s\<lparr>os_lamps := resizeSignalLamps (os_lamps s) lampCount\<rparr>)
               ((se_signalOutput e)\<lparr>oc_lampCount := lampCount\<rparr>)\<rparr>)"

definition set_addressLength :: "int \<Rightarrow> signal_element \<Rightarrow> signal_element" where
  "set_addressLength value e =
     (let outputCount = max 1 (min 16 (if value = 0 then 1 else value)) in
      e\<lparr>se_signalOutput := set_states (\<lambda>s. s\<lparr>os_dccOutputs := resizeDccOutputs (os_dccOutputs s) outputCount\<rparr>)
          ((se_signalOutput e)\<lparr>oc_outputCount := outputCount\<rparr>)\<rparr>)"

definition set_dispalyAsSingleLamp :: "bool \<Rightarrow> signal_element \<Rightarrow> signal_element" where
  "set_dispalyAsSingleLamp value e = e\<lparr>se_signalOutput := (se_signalOutput e)\<lparr>oc_displayAsSingleLamp := value\<rparr>\<rparr>"

subsection \<open>Current state\<close>

definition syncDccFeedbackFromCurrentState :: "signal_element \<Rightarrow> signal_element" where
  "syncDccFeedbackFromCurrentState e =
     (if oc_protocol (se_signalOutput e) \<noteq> Dcc then e\<lparr>se_dccFeedbackOutputs := None\<rparr>
      else e\<lparr>se_dccFeedbackOutputs :=
               Some (resizeDccOutputs (case currentState e of Some s \<Rightarrow> os_dccOutputs s | None \<Rightarrow> [])
                       (oc_outputCount (se_signalOutput e)))\<rparr>)"

definition setSignalOutput :: "output_config \<Rightarrow> signal_element \<Rightarrow> signal_element" where
  "setSignalOutput config e =
     (let e1 = e\<lparr>se_signalOutput := cloneSignalOutputConfiguration config\<rparr>;
          e2 = e1\<lparr>te_address := oc_address (se_signalOutput e1)\<rparr>;
          e3 = (if se_currentStateIndex e2 \<ge> int (length (se_states e2)) then e2\<lparr>se_currentStateIndex := 0\<rparr> else e2)
      in syncDccFeedbackFromCurrentState e3)"

definition setCurrentStateIndex :: "int \<Rightarrow> signal_element \<Rightarrow> signal_element" where
  "setCurrentStateIndex index e =
     (if stateCount e \<le> 0 then syncDccFeedbackFromCurrentState (e\<lparr>se_currentStateIndex := 0\<rparr>)
      else syncDccFeedbackFromCurrentState
             (e\<lparr>se_currentStateIndex := js_rem (js_rem index (stateCount e) + stateCount e) (stateCount e)\<rparr>))"

definition setCurrentStateById :: "string \<Rightarrow> signal_element \<Rightarrow> signal_element" where
  "setCurrentStateById stateId e =
     (case find_index (\<lambda>s. os_id s = stateId) (se_states e) of
        Some index \<Rightarrow> setCurrentStateIndex (int index) e
      | None \<Rightarrow> e)"

definition setCurrentStateByAspect :: "int \<Rightarrow> signal_element \<Rightarrow> signal_element" where
  "setCurrentStateByAspect aspect e =
     (case find_index (\<lambda>s. os_aspect s = aspect) (se_states e) of
        Some index \<Rightarrow> e\<lparr>se_currentStateIndex := int index\<rparr>
      | None \<Rightarrow> e)"

definition label_is :: "string \<Rightarrow> output_state \<Rightarrow> bool" where
  "label_is label s \<longleftrightarrow> to_lower (trim (os_label s)) = to_lower (trim label)"

definition findState :: "string \<Rightarrow> 'a signal_element_scheme \<Rightarrow> output_state option" where
  "findState label e = find (label_is label) (se_states e)"

subsection \<open>Legacy bit masks\<close>

fun mask_of :: "dcc_direction list \<Rightarrow> nat \<Rightarrow> 32 word \<Rightarrow> 32 word" where
  "mask_of [] index result = result"
| "mask_of (d # ds) index result =
     mask_of ds (Suc index) (if d = DirG then result OR push_bit (index mod 32) 1 else result)"

definition bitmaskOf :: "output_state option \<Rightarrow> int" where
  "bitmaskOf s = (case s of None \<Rightarrow> 0 | Some st \<Rightarrow> sint (mask_of (os_dccOutputs st) 0 0))"

definition mask_bit :: "int \<Rightarrow> nat \<Rightarrow> bool" where
  "mask_bit bitmask index \<longleftrightarrow> bit (word_of_int bitmask :: 32 word) (index mod 32)"

definition directions_of :: "int \<Rightarrow> int \<Rightarrow> dcc_direction list" where
  "directions_of count bitmask = map (\<lambda>index. if mask_bit bitmask index then DirG else DirR) [0..<nat count]"

definition applyLegacyBitmask :: "string \<Rightarrow> string \<Rightarrow> int \<Rightarrow> string \<Rightarrow> int \<Rightarrow> signal_element \<Rightarrow> signal_element" where
  "applyLegacyBitmask newId label bitmask color aspect e =
     (let c = se_signalOutput e;
          fresh = \<lparr>os_id = newId, os_label = label, os_aspect = aspect,
                   os_lamps = map (\<lambda>index. \<lparr>lm_color = (if index = 0 then color else ''#868e96''), lm_active = (index = 0)\<rparr>)
                     [0..<nat (oc_lampCount c)],
                   os_dccOutputs = []\<rparr>;
          states = (if findState label e = None then oc_states c @ [fresh] else oc_states c)
      in e\<lparr>se_signalOutput := c\<lparr>oc_states :=
             update_first (label_is label) (\<lambda>s. s\<lparr>os_dccOutputs := directions_of (oc_outputCount c) bitmask\<rparr>) states\<rparr>\<rparr>)"

definition get_value :: "string \<Rightarrow> 'a signal_element_scheme \<Rightarrow> int" where
  "get_value label e = bitmaskOf (findState label e)"

definition valueGreen :: "'a signal_element_scheme \<Rightarrow> int" where "valueGreen e = get_value ''Green'' e"
definition valueRed :: "'a signal_element_scheme \<Rightarrow> int" where "valueRed e = get_value ''Red'' e"
definition valueYellow :: "'a signal_element_scheme \<Rightarrow> int" where "valueYellow e = get_value ''Yellow'' e"
definition valueWhite :: "'a signal_element_scheme \<Rightarrow> int" where "valueWhite e = get_value ''White'' e"

definition set_valueGreen :: "string \<Rightarrow> int \<Rightarrow> signal_element \<Rightarrow> signal_element" where
  "set_valueGreen newId v = applyLegacyBitmask newId ''Green'' v ''#40c057'' 16"
definition set_valueRed :: "string \<Rightarrow> int \<Rightarrow> signal_element \<Rightarrow> signal_element" where
  "set_valueRed newId v = applyLegacyBitmask newId ''Red'' v ''#fa5252'' 0"
definition set_valueYellow :: "string \<Rightarrow> int \<Rightarrow> signal_element \<Rightarrow> signal_element" where
  "set_valueYellow newId v = applyLegacyBitmask newId ''Yellow'' v ''#fab005'' 2"
definition set_valueWhite :: "string \<Rightarrow> int \<Rightarrow> signal_element \<Rightarrow> signal_element" where
  "set_valueWhite newId v = applyLegacyBitmask newId ''White'' v ''#ffffff'' 3"

definition signalState :: "'a signal_element_scheme \<Rightarrow> signal_state" where
  "signalState e =
     (let label = map_option (\<lambda>s. to_lower (trim (os_label s))) (currentState e) in
      if label = Some ''green'' then SignalGreen
      else if label = Some ''yellow'' then SignalYellow
      else if label = Some ''white'' then SignalWhite
      else SignalRed)"

definition set_signalState :: "signal_state \<Rightarrow> signal_element \<Rightarrow> signal_element" where
  "set_signalState value e =
     (let label = (case value of SignalGreen \<Rightarrow> ''Green'' | SignalYellow \<Rightarrow> ''Yellow'' | SignalWhite \<Rightarrow> ''White'' | SignalRed \<Rightarrow> ''Red'')
      in case findState label e of Some s \<Rightarrow> setCurrentStateById (os_id s) e | None \<Rightarrow> e)"

definition isGreen :: "'a signal_element_scheme \<Rightarrow> bool" where "isGreen e \<longleftrightarrow> signalState e = SignalGreen"
definition isRed :: "'a signal_element_scheme \<Rightarrow> bool" where "isRed e \<longleftrightarrow> signalState e = SignalRed"
definition isYellow :: "'a signal_element_scheme \<Rightarrow> bool" where "isYellow e \<longleftrightarrow> signalState e = SignalYellow"
definition isWhite :: "'a signal_element_scheme \<Rightarrow> bool" where "isWhite e \<longleftrightarrow> signalState e = SignalWhite"

definition setGreen :: "signal_element \<Rightarrow> signal_element" where "setGreen = set_signalState SignalGreen"
definition setRed :: "signal_element \<Rightarrow> signal_element" where "setRed = set_signalState SignalRed"
definition setYellow :: "signal_element \<Rightarrow> signal_element" where "setYellow = set_signalState SignalYellow"
definition setWhite :: "signal_element \<Rightarrow> signal_element" where "setWhite = set_signalState SignalWhite"

subsection \<open>Feedback\<close>

definition feedback_outputs :: "signal_element \<Rightarrow> dcc_direction list" where
  "feedback_outputs e =
     resizeDccOutputs
       (case se_dccFeedbackOutputs e of
          Some outputs \<Rightarrow> outputs
        | None \<Rightarrow> (case currentState e of Some s \<Rightarrow> os_dccOutputs s | None \<Rightarrow> []))
       (oc_outputCount (se_signalOutput e))"

text \<open>Assigning beyond the end of the feedback leaves holes; wherever they are read they read as \<open>"R"\<close>, so
  they are written as \<open>DirR\<close>. \<open>outputs.every(...)\<close> compares positions of \<open>outputs\<close>; one beyond the feedback is \<open>undefined\<close>.\<close>

definition matches_feedback :: "dcc_direction list \<Rightarrow> dcc_direction list \<Rightarrow> bool" where
  "matches_feedback current outputs \<longleftrightarrow> (\<forall>i\<in>set [0..<length outputs]. nth_opt current i = Some (outputs ! i))"

definition setValue :: "int \<Rightarrow> bool \<Rightarrow> signal_element \<Rightarrow> signal_element" where
  "setValue address active e =
     (let c = se_signalOutput e in
      if oc_protocol c \<noteq> Dcc then e
      else if address < oc_address c \<or> address > lastAddress e then e
      else let outputIndex = nat (address - oc_address c);
               current = feedback_outputs e;
               current' = (if outputIndex < length current then current[outputIndex := (if active then DirG else DirR)]
                           else current @ replicate (outputIndex - length current) DirR @ [if active then DirG else DirR]);
               e' = e\<lparr>se_dccFeedbackOutputs := Some current'\<rparr>
           in case find_index (\<lambda>s. matches_feedback current' (resizeDccOutputs (os_dccOutputs s) (oc_outputCount c))) (oc_states c) of
                Some i \<Rightarrow> e'\<lparr>se_currentStateIndex := int i\<rparr>
              | None \<Rightarrow> e')"


subsection \<open>Saving and loading\<close>

record signal_dto = track_dto +
  gd_signalOutput :: "output_config option"
  gd_configDisplay :: "bool option"
  gd_currentStateIndex :: "int option"
  gd_aspect :: "int option"
  gd_addressLength :: "int option"
  gd_dispalyAsSingleLamp :: "bool option"
  gd_valueGreen :: "int option"
  gd_valueRed :: "int option"
  gd_valueYellow :: "int option"
  gd_valueWhite :: "int option"

text \<open>The states of an old 2, 3 or 4 light signal: label, color, aspect, bit mask, lamp.\<close>

definition legacy_states :: "signal_dto \<Rightarrow> int \<Rightarrow> (string \<times> string \<times> int \<times> int \<times> nat) list" where
  "legacy_states data lampCount =
     [(''Red'', ''#fa5252'', 0, or_else (gd_valueRed data) 0, 0),
      (''Green'', ''#40c057'', 16, or_else (gd_valueGreen data) 0, nat (min 1 (lampCount - 1)))] @
     (if lampCount \<ge> 3 then [(''Yellow'', ''#fab005'', 2, or_else (gd_valueYellow data) 0, 2)] else []) @
     (if lampCount \<ge> 4 then [(''White'', ''#ffffff'', 3, or_else (gd_valueWhite data) 0, 3)] else [])"

definition legacy_lampCount :: "signal_dto \<Rightarrow> int" where
  "legacy_lampCount data =
     (if bd_type data = TRACK_SIGNAL4 then 4
      else if bd_type data = TRACK_SIGNAL3 then 3
      else max 2 (min 4 (or_else (gd_aspect data) 2)))"

definition legacy_output_state :: "int \<Rightarrow> int \<Rightarrow> int \<Rightarrow> nat \<Rightarrow> string \<times> string \<times> int \<times> int \<times> nat \<Rightarrow> output_state" where
  "legacy_output_state elementId lampCount outputCount stateIndex def =
     (case def of (label, color, aspect, value, lampIndex0) \<Rightarrow>
        \<lparr>os_id = ''legacy-'' @ show_int elementId @ ''-'' @ show_nat stateIndex, os_label = label, os_aspect = aspect,
         os_lamps = map (\<lambda>lampIndex. \<lparr>lm_color = (if lampIndex = lampIndex0 then color else ''#868e96''),
                                      lm_active = (lampIndex = lampIndex0)\<rparr>) [0..<nat lampCount],
         os_dccOutputs = directions_of outputCount value\<rparr>)"

definition legacy_config :: "int \<Rightarrow> signal_dto \<Rightarrow> output_config" where
  "legacy_config elementId data =
     (let lampCount = legacy_lampCount data;
          outputCount = max 1 (or_else (gd_addressLength data) lampCount);
          defs = legacy_states data lampCount
      in \<lparr>oc_protocol = Dcc, oc_address = max 1 (td_address data), oc_outputCount = outputCount, oc_lampCount = lampCount,
          oc_displayAsSingleLamp = or_else (gd_dispalyAsSingleLamp data) False,
          oc_states = map2 (legacy_output_state elementId lampCount outputCount) [0..<length defs] defs\<rparr>)"

definition TrackSignal_fromJSON :: "string \<Rightarrow> string \<Rightarrow> signal_dto \<Rightarrow> signal_element" where
  "TrackSignal_fromJSON redId greenId data =
     (let element = load_track data (new_TrackSignal redId greenId (bd_x data) (bd_y data)) in
      case gd_signalOutput data of
        Some output \<Rightarrow>
          let migrated = output\<lparr>oc_displayAsSingleLamp :=
                or_else (gd_configDisplay data) (or_else (gd_dispalyAsSingleLamp data) False)\<rparr>
          in (setSignalOutput migrated element)\<lparr>se_currentStateIndex :=
                max 0 (min (int (length (oc_states migrated)) - 1) (or_else (gd_currentStateIndex data) 0))\<rparr>
      | None \<Rightarrow>
          let e = setSignalOutput (legacy_config (be_id element) data) element
          in e\<lparr>se_currentStateIndex := min 0 (stateCount e - 1)\<rparr>)"

definition TrackSignal_toJSON :: "signal_element \<Rightarrow> signal_dto" where
  "TrackSignal_toJSON e =
     track_dto.extend ((track_toJSON e)\<lparr>bd_type := TRACK_SIGNAL2, td_address := oc_address (se_signalOutput e)\<rparr>)
       \<lparr>gd_signalOutput = Some (cloneSignalOutputConfiguration (se_signalOutput e)),
        gd_configDisplay = Some (oc_displayAsSingleLamp (se_signalOutput e)),
        gd_currentStateIndex = Some (se_currentStateIndex e), gd_aspect = Some (oc_lampCount (se_signalOutput e)),
        gd_addressLength = Some (oc_outputCount (se_signalOutput e)),
        gd_dispalyAsSingleLamp = Some (oc_displayAsSingleLamp (se_signalOutput e)),
        gd_valueGreen = Some (valueGreen e), gd_valueRed = Some (valueRed e),
        gd_valueYellow = Some (valueYellow e), gd_valueWhite = Some (valueWhite e)\<rparr>"

subsection \<open>Lemmas: the current state\<close>

definition signal_ok :: "'a signal_element_scheme \<Rightarrow> bool" where
  "signal_ok e \<longleftrightarrow> se_states e \<noteq> [] \<and> 0 \<le> se_currentStateIndex e \<and> se_currentStateIndex e < int (length (se_states e))"

lemma sync_sel [simp]:
  "se_signalOutput (syncDccFeedbackFromCurrentState e) = se_signalOutput e"
  "se_currentStateIndex (syncDccFeedbackFromCurrentState e) = se_currentStateIndex e"
  by (simp_all add: syncDccFeedbackFromCurrentState_def)

lemma signal_ok_sync [simp]: "signal_ok (syncDccFeedbackFromCurrentState e) = signal_ok e"
  by (simp add: signal_ok_def)

lemma currentState_ok: "signal_ok e \<Longrightarrow> currentState e = Some (se_states e ! nat (se_currentStateIndex e))"
  by (auto simp: signal_ok_def currentState_def state_at_def nth_opt_def)

lemma setSignalOutput_ok:
  "oc_states config \<noteq> [] \<Longrightarrow> 0 \<le> se_currentStateIndex e \<Longrightarrow> signal_ok (setSignalOutput config e)"
  by (simp add: setSignalOutput_def Let_def signal_ok_def)

lemma setCurrentStateIndex_ok:
  assumes "se_states e \<noteq> []"
  shows "signal_ok (setCurrentStateIndex i e)"
proof -
  have n: "0 < stateCount e" using assms by (simp add: stateCount_def)
  have "js_rem (js_rem i (stateCount e) + stateCount e) (stateCount e) = i mod stateCount e"
    by (rule js_rem_wrap [OF n])
  then show ?thesis using n assms by (simp add: setCurrentStateIndex_def signal_ok_def stateCount_def)
qed

lemma find_index_bound: "find_index p xs = Some i \<Longrightarrow> i < length xs"
  using find_index_SomeD [of p xs i] by blast

lemma signal_ok_states: "signal_ok e \<Longrightarrow> se_states e \<noteq> []"
  by (simp add: signal_ok_def)

lemma setCurrentStateById_ok: "signal_ok e \<Longrightarrow> signal_ok (setCurrentStateById i e)"
  by (simp add: setCurrentStateById_def signal_ok_states setCurrentStateIndex_ok split: option.split)

lemma setCurrentStateByAspect_ok: "signal_ok e \<Longrightarrow> signal_ok (setCurrentStateByAspect a e)"
  by (auto simp: setCurrentStateByAspect_def signal_ok_def split: option.split dest!: find_index_bound)

lemma set_states_sel [simp]: "length (oc_states (set_states f c)) = length (oc_states c)" "oc_states (set_states f c) = map f (oc_states c)"
  by (simp_all add: set_states_def)

lemma setters_ok:
  "signal_ok e \<Longrightarrow> signal_ok (set_aspect v e)" "signal_ok e \<Longrightarrow> signal_ok (set_addressLength v e)"
  "signal_ok e \<Longrightarrow> signal_ok (set_dispalyAsSingleLamp b e)" "signal_ok e \<Longrightarrow> signal_ok (set_signalState s e)"
  by (simp_all add: set_aspect_def set_addressLength_def set_dispalyAsSingleLamp_def set_signalState_def Let_def
      setCurrentStateById_ok split: option.split) (simp_all add: signal_ok_def)

lemma applyLegacyBitmask_length: "length (se_states e) \<le> length (se_states (applyLegacyBitmask n l b c a e))"
  by (simp add: applyLegacyBitmask_def Let_def)

lemma applyLegacyBitmask_ok: "signal_ok e \<Longrightarrow> signal_ok (applyLegacyBitmask n l b c a e)"
proof -
  have i: "se_currentStateIndex (applyLegacyBitmask n l b c a e) = se_currentStateIndex e"
    by (simp add: applyLegacyBitmask_def Let_def)
  have "length (se_states (applyLegacyBitmask n l b c a e)) > 0" if "length (se_states e) > 0"
    using applyLegacyBitmask_length that less_le_trans by blast
  then show "signal_ok e \<Longrightarrow> signal_ok (applyLegacyBitmask n l b c a e)"
    using applyLegacyBitmask_length [of e n l b c a] i by (simp add: signal_ok_def)
qed

lemma setValue_ok: "signal_ok e \<Longrightarrow> signal_ok (setValue a v e)"
  by (auto simp: setValue_def Let_def signal_ok_def split: option.split dest!: find_index_bound)


text \<open>The operations as steps.\<close>

datatype signal_op = OpOutput output_config | OpIndex int | OpId string | OpAspectValue int | OpAspect int | OpAddressLength int
  | OpSingleLamp bool | OpGreen string int | OpRed string int | OpYellow string int | OpWhite string int
  | OpState signal_state | OpValue int bool

fun signal_step :: "signal_op \<Rightarrow> signal_element \<Rightarrow> signal_element" where
  "signal_step (OpOutput c) = setSignalOutput c"
| "signal_step (OpIndex i) = setCurrentStateIndex i"
| "signal_step (OpId i) = setCurrentStateById i"
| "signal_step (OpAspectValue a) = setCurrentStateByAspect a"
| "signal_step (OpAspect v) = set_aspect v"
| "signal_step (OpAddressLength v) = set_addressLength v"
| "signal_step (OpSingleLamp b) = set_dispalyAsSingleLamp b"
| "signal_step (OpGreen n v) = set_valueGreen n v"
| "signal_step (OpRed n v) = set_valueRed n v"
| "signal_step (OpYellow n v) = set_valueYellow n v"
| "signal_step (OpWhite n v) = set_valueWhite n v"
| "signal_step (OpState s) = set_signalState s"
| "signal_step (OpValue a b) = setValue a b"

fun signal_op_ok :: "signal_op \<Rightarrow> bool" where
  "signal_op_ok (OpOutput c) = (oc_states c \<noteq> [])"
| "signal_op_ok _ = True"

lemma signal_step_ok: "signal_ok e \<Longrightarrow> signal_op_ok a \<Longrightarrow> signal_ok (signal_step a e)"
  by (cases a) (auto simp: setCurrentStateById_ok setCurrentStateByAspect_ok setters_ok set_valueGreen_def set_valueRed_def
      set_valueYellow_def set_valueWhite_def applyLegacyBitmask_ok setValue_ok signal_ok_states
      intro!: setSignalOutput_ok setCurrentStateIndex_ok simp: signal_ok_def [of e])

interpretation signal_steps: steps signal_ok signal_op_ok signal_step
  by unfold_locales (rule signal_step_ok)

subsection \<open>Lemmas: feedback\<close>

lemma matches_same_length:
  "length current = length outputs \<Longrightarrow> matches_feedback current outputs \<longleftrightarrow> outputs = current"
  by (auto simp: matches_feedback_def nth_opt_def intro: nth_equalityI)

lemma length_feedback: "length (feedback_outputs e) = nat (max 1 (min 16 (oc_outputCount (se_signalOutput e))))"
  by (simp add: feedback_outputs_def)

definition recognised :: "signal_element \<Rightarrow> dcc_direction list \<Rightarrow> nat option" where
  "recognised e outputs =
     find_index (\<lambda>s. resizeDccOutputs (os_dccOutputs s) (oc_outputCount (se_signalOutput e)) = outputs) (se_states e)"

lemma setValue_in_range:
  fixes e :: signal_element and b :: bool
  assumes c: "oc_protocol (se_signalOutput e) = Dcc" "1 \<le> oc_outputCount (se_signalOutput e)" "oc_outputCount (se_signalOutput e) \<le> 16"
    and i: "i < nat (oc_outputCount (se_signalOutput e))"
  defines "e' \<equiv> setValue (oc_address (se_signalOutput e) + int i) b e"
  shows "se_signalOutput e' = se_signalOutput e"
    and "feedback_outputs e' = (feedback_outputs e)[i := (if b then DirG else DirR)]"
    and "recognised e (feedback_outputs e') = Some k \<Longrightarrow> se_currentStateIndex e' = int k"
proof -
  let ?c = "se_signalOutput e"
  let ?l = "(feedback_outputs e)[i := (if b then DirG else DirR)]"
  have l: "length (feedback_outputs e) = nat (oc_outputCount ?c)" using c by (simp add: length_feedback)
  have m: "matches_feedback ?l (resizeDccOutputs (os_dccOutputs s) (oc_outputCount ?c)) \<longleftrightarrow>
      resizeDccOutputs (os_dccOutputs s) (oc_outputCount ?c) = ?l" for s
    by (rule matches_same_length) (use c l in simp)
  have r: "e' = (case find_index (\<lambda>s. resizeDccOutputs (os_dccOutputs s) (oc_outputCount ?c) = ?l) (oc_states ?c) of
      Some i \<Rightarrow> e\<lparr>se_dccFeedbackOutputs := Some ?l, se_currentStateIndex := int i\<rparr> | None \<Rightarrow> e\<lparr>se_dccFeedbackOutputs := Some ?l\<rparr>)"
    using c i l by (simp add: e'_def setValue_def Let_def lastAddress_def m)
  show s: "se_signalOutput e' = se_signalOutput e" by (simp add: r split: option.split)
  have "resizeDccOutputs ?l (oc_outputCount ?c) = ?l"
    by (rule resizeDccOutputs_same) (use c l in simp)
  moreover have "se_dccFeedbackOutputs e' = Some ?l" by (simp add: r split: option.split)
  ultimately show f: "feedback_outputs e' = ?l" by (simp add: feedback_outputs_def s)
  show "se_currentStateIndex e' = int k" if "recognised e (feedback_outputs e') = Some k"
    using that unfolding f recognised_def by (simp add: r)
qed

definition report :: "dcc_direction list \<Rightarrow> nat \<Rightarrow> signal_element \<Rightarrow> signal_element" where
  "report outputs i e = setValue (oc_address (se_signalOutput e) + int i) (outputs ! i = DirG) e"

lemma direction_back: "(if d = DirG then DirG else DirR) = d"
  by (cases d) simp_all

lemma reports_collect:
  assumes "oc_protocol (se_signalOutput e) = Dcc" "1 \<le> oc_outputCount (se_signalOutput e)" "oc_outputCount (se_signalOutput e) \<le> 16"
    and "set js \<subseteq> {..<nat (oc_outputCount (se_signalOutput e))}"
  shows "se_signalOutput (fold (report outputs) js e) = se_signalOutput e \<and>
    (\<forall>i\<in>set js. feedback_outputs (fold (report outputs) js e) ! i = outputs ! i)"
  using assms(4)
proof (induction js rule: rev_induct)
  case (snoc i js)
  let ?e = "fold (report outputs) js e"
  have IH: "se_signalOutput ?e = se_signalOutput e" "\<forall>i\<in>set js. feedback_outputs ?e ! i = outputs ! i" using snoc by auto
  have i: "i < nat (oc_outputCount (se_signalOutput ?e))" using snoc.prems IH by simp
  have c: "oc_protocol (se_signalOutput ?e) = Dcc" "1 \<le> oc_outputCount (se_signalOutput ?e)" "oc_outputCount (se_signalOutput ?e) \<le> 16"
    using assms IH by simp_all
  have f: "feedback_outputs (report outputs i ?e) = (feedback_outputs ?e)[i := outputs ! i]"
    using setValue_in_range(2) [OF c i, of "outputs ! i = DirG"] by (simp add: report_def direction_back)
  have s: "se_signalOutput (report outputs i ?e) = se_signalOutput e"
    using setValue_in_range(1) [OF c i, of "outputs ! i = DirG"] IH by (simp add: report_def)
  have l: "i < length (feedback_outputs ?e)" using i c by (simp add: length_feedback)
  have r: "fold (report outputs) (js @ [i]) e = report outputs i ?e" by simp
  have "feedback_outputs (report outputs i ?e) ! j = outputs ! j" if "j \<in> set (js @ [i])" for j
    using that IH(2) l unfolding f by (cases "j = i") simp_all
  then show ?case using s unfolding r by blast
qed simp

lemma reports_recognised:
  assumes c: "oc_protocol (se_signalOutput e) = Dcc" "1 \<le> oc_outputCount (se_signalOutput e)" "oc_outputCount (se_signalOutput e) \<le> 16"
    and js: "set js = {..<nat (oc_outputCount (se_signalOutput e))}"
    and out: "length outputs = nat (oc_outputCount (se_signalOutput e))" and k: "recognised e outputs = Some k"
  shows "se_currentStateIndex (fold (report outputs) js e) = int k"
proof -
  have "0 \<in> set js" unfolding js using c(2) by simp
  then have "js \<noteq> []" by (cases js) simp_all
  then obtain hs i where h: "js = hs @ [i]" by (metis append_butlast_last_id)
  let ?e = "fold (report outputs) hs e"
  have hs: "set hs \<subseteq> {..<nat (oc_outputCount (se_signalOutput e))}"
    unfolding js [symmetric] h by auto
  have "i \<in> {..<nat (oc_outputCount (se_signalOutput e))}" unfolding js [symmetric] h by simp
  then have i: "i < nat (oc_outputCount (se_signalOutput e))" by simp
  have IH: "se_signalOutput ?e = se_signalOutput e" using reports_collect [OF c hs] by blast
  have all: "\<forall>j\<in>set js. feedback_outputs (fold (report outputs) js e) ! j = outputs ! j"
    and s: "se_signalOutput (fold (report outputs) js e) = se_signalOutput e"
    using reports_collect [OF c, of js] js by simp_all
  have eq: "feedback_outputs (fold (report outputs) js e) = outputs"
  proof (rule nth_equalityI)
    show l: "length (feedback_outputs (fold (report outputs) js e)) = length outputs"
      using out c s by (simp add: length_feedback)
    fix j assume "j < length (feedback_outputs (fold (report outputs) js e))"
    then have "j \<in> set js" unfolding js using l out by simp
    then show "feedback_outputs (fold (report outputs) js e) ! j = outputs ! j" using all by blast
  qed
  have c': "oc_protocol (se_signalOutput ?e) = Dcc" "1 \<le> oc_outputCount (se_signalOutput ?e)" "oc_outputCount (se_signalOutput ?e) \<le> 16"
    using c IH by simp_all
  have "recognised ?e outputs = Some k" using k IH by (simp add: recognised_def)
  then show ?thesis
    using setValue_in_range(3) [OF c', of i "outputs ! i = DirG" k] i IH eq h by (simp add: report_def)
qed


subsection \<open>Lemmas: bit masks\<close>

lemma bit_mask_of:
  "j < 32 \<Longrightarrow> k + length ds \<le> 32 \<Longrightarrow>
     bit (mask_of ds k r) j \<longleftrightarrow> bit r j \<or> (k \<le> j \<and> j < k + length ds \<and> ds ! (j - k) = DirG)"
proof (induction ds arbitrary: k r)
  case (Cons d ds)
  have b: "bit (push_bit (k mod 32) (1 :: 32 word)) j \<longleftrightarrow> j = k"
    using Cons.prems by (auto simp: bit_exp_iff)
  have "bit (mask_of (d # ds) k r) j \<longleftrightarrow>
      (bit r j \<or> d = DirG \<and> j = k) \<or> (Suc k \<le> j \<and> j < Suc k + length ds \<and> ds ! (j - Suc k) = DirG)"
    using Cons.IH [of "Suc k"] Cons.prems b by (auto simp: bit_or_iff)
  also have "\<dots> \<longleftrightarrow> bit r j \<or> (k \<le> j \<and> j < k + length (d # ds) \<and> (d # ds) ! (j - k) = DirG)"
    by (cases "j = k") (auto simp: nth_Cons' Suc_diff_Suc not_less_eq_eq)
  finally show ?case .
qed auto

lemma mask_of_directions:
  assumes "0 \<le> count" and "count \<le> 32"
  shows "mask_of (directions_of count v) 0 0 = take_bit (nat count) (word_of_int v :: 32 word)"
proof (rule bit_word_eqI)
  fix j assume "j < LENGTH(32)"
  then have j: "j < 32" by simp
  show "bit (mask_of (directions_of count v) 0 0) j = bit (take_bit (nat count) (word_of_int v :: 32 word)) j"
    using assms j by (auto simp: bit_mask_of directions_of_def mask_bit_def bit_take_bit_iff split: if_splits)
qed

lemma bitmask_directions:
  assumes "0 \<le> count" and "count \<le> 31"
  shows "sint (mask_of (directions_of count v) 0 0) = v mod 2 ^ nat count"
proof -
  have u: "uint (take_bit (nat count) (word_of_int v :: 32 word)) = take_bit (nat count) v"
  proof -
    have "nat count \<le> 32" using assms by linarith
    then show ?thesis by (simp add: unsigned_take_bit_eq unsigned_of_int)
  qed
  have "take_bit (nat count) v < 2 ^ nat count" by (simp add: take_bit_int_less_exp)
  also have "(2 :: int) ^ nat count \<le> 2 ^ 31" using assms by (intro power_increasing) auto
  finally have hi: "take_bit (nat count) v < 2 ^ 31" .
  have "- (2 ^ 31) \<le> (0 :: int)" by simp
  also have "0 \<le> take_bit (nat count) v" by simp
  finally have "signed_take_bit 31 (take_bit (nat count) v) = take_bit (nat count) v"
    using hi by (rule signed_take_bit_int_eq_self)
  then have "sint (take_bit (nat count) (word_of_int v :: 32 word)) = take_bit (nat count) v"
    by (simp add: sint_uint u)
  moreover have "mask_of (directions_of count v) 0 0 = take_bit (nat count) (word_of_int v :: 32 word)"
    using assms by (simp add: mask_of_directions)
  ultimately show ?thesis by (simp only: take_bit_eq_mod)
qed

lemma find_updated:
  assumes "\<And>x. p (f x) = p x"
  shows "find p (update_first p f xs) = map_option f (find p xs)"
  using assms by (induction xs) auto

lemma get_value_applied:
  assumes "0 \<le> oc_outputCount (se_signalOutput e)" and "oc_outputCount (se_signalOutput e) \<le> 31"
  shows "get_value label (applyLegacyBitmask newId label v color aspect e) = v mod 2 ^ nat (oc_outputCount (se_signalOutput e))"
proof -
  let ?f = "\<lambda>s. s\<lparr>os_dccOutputs := directions_of (oc_outputCount (se_signalOutput e)) v\<rparr>"
  have p: "find (label_is label) (update_first (label_is label) ?f xs) = map_option ?f (find (label_is label) xs)" for xs
    by (rule find_updated) (simp add: label_is_def)
  have "\<exists>s. find (label_is label) (se_states (applyLegacyBitmask newId label v color aspect e)) = Some s \<and>
      os_dccOutputs s = directions_of (oc_outputCount (se_signalOutput e)) v"
  proof (cases "find (label_is label) (se_states e)")
    case None
    then show ?thesis
      by (simp add: applyLegacyBitmask_def findState_def Let_def p find_append) (simp add: label_is_def)
  next
    case (Some s)
    then show ?thesis by (simp add: applyLegacyBitmask_def findState_def Let_def p)
  qed
  then show ?thesis using assms by (auto simp: get_value_def findState_def bitmaskOf_def bitmask_directions)
qed

subsection \<open>Lemmas: saving\<close>

lemma load_track_signal [simp]:
  "se_signalOutput (load_track d e) = se_signalOutput e" "se_currentStateIndex (load_track d e) = se_currentStateIndex e"
  by (simp_all add: load_track_def load_base_def set_id_def)

lemma new_TrackSignal_index [simp]: "se_currentStateIndex (new_TrackSignal a b x y) = 0"
  by (simp add: new_TrackSignal_def track_element.defs)

lemma setSignalOutput_sel:
  "se_signalOutput (setSignalOutput c e) = c" "te_address (setSignalOutput c e) = oc_address c"
  "base_toJSON (setSignalOutput c e) = base_toJSON e" "te_length (setSignalOutput c e) = te_length e"
  by (simp_all add: setSignalOutput_def Let_def syncDccFeedbackFromCurrentState_def base_toJSON_def)

lemma track_saved_signal:
  "track_toJSON (x\<lparr>se_currentStateIndex := i\<rparr>) = track_toJSON x"
  "track_toJSON (setSignalOutput c e) = (track_toJSON e)\<lparr>td_address := oc_address c\<rparr>"
  by (simp add: track_toJSON_def base_toJSON_def) (simp add: track_toJSON_def setSignalOutput_sel base_dto.defs)

lemma loaded_signal:
  assumes e: "signal_ok e"
  defines "d \<equiv> TrackSignal_toJSON e"
  shows "se_signalOutput (TrackSignal_fromJSON r g d) = se_signalOutput e"
    and "se_currentStateIndex (TrackSignal_fromJSON r g d) = se_currentStateIndex e"
    and "track_toJSON (TrackSignal_fromJSON r g d) =
      (track_toJSON (load_track d (new_TrackSignal r g (bd_x d) (bd_y d))))\<lparr>td_address := oc_address (se_signalOutput e)\<rparr>"
proof -
  have d: "gd_signalOutput d = Some (se_signalOutput e)" "gd_configDisplay d = Some (oc_displayAsSingleLamp (se_signalOutput e))"
    "gd_currentStateIndex d = Some (se_currentStateIndex e)"
    by (simp_all add: d_def TrackSignal_toJSON_def track_dto.defs)
  have l: "TrackSignal_fromJSON r g d =
      (setSignalOutput (se_signalOutput e) (load_track d (new_TrackSignal r g (bd_x d) (bd_y d))))
        \<lparr>se_currentStateIndex := se_currentStateIndex e\<rparr>"
    using e by (simp add: TrackSignal_fromJSON_def Let_def d or_else_def signal_ok_def)
  show "se_signalOutput (TrackSignal_fromJSON r g d) = se_signalOutput e"
    "se_currentStateIndex (TrackSignal_fromJSON r g d) = se_currentStateIndex e"
    by (simp_all add: l setSignalOutput_sel)
  show "track_toJSON (TrackSignal_fromJSON r g d) =
      (track_toJSON (load_track d (new_TrackSignal r g (bd_x d) (bd_y d))))\<lparr>td_address := oc_address (se_signalOutput e)\<rparr>"
    by (simp add: l track_saved_signal)
qed

lemma signal_round:
  assumes e: "signal_ok e" and p: "proper_base 1 1 e"
  shows "TrackSignal_toJSON (TrackSignal_fromJSON r g (TrackSignal_toJSON e)) = TrackSignal_toJSON e"
proof -
  define d where "d = TrackSignal_toJSON e"
  let ?l = "TrackSignal_fromJSON r g d"
  have f: "bd_id d = be_id e" "bd_type d = TRACK_SIGNAL2" "bd_w d = 1" "bd_h d = 1"
    using p by (simp_all add: d_def TrackSignal_toJSON_def proper_base_def)
  have n: "be_type (new_TrackSignal r g x y) = TRACK_SIGNAL2" "be_x (new_TrackSignal r g x y) = x"
    "be_y (new_TrackSignal r g x y) = y" "be_w (new_TrackSignal r g x y) = 1" "be_h (new_TrackSignal r g x y) = 1" for x y
    by (simp_all add: new_TrackSignal_def)
  have t: "track_toJSON (load_track d (new_TrackSignal r g (bd_x d) (bd_y d))) = track_dto.truncate d"
    by (rule track_saved) (use f n p in \<open>simp_all add: proper_base_def\<close>)
  note l = loaded_signal [OF e, of r g, folded d_def]
  have v: "valueGreen ?l = valueGreen e" "valueRed ?l = valueRed e" "valueYellow ?l = valueYellow e" "valueWhite ?l = valueWhite e"
    by (simp_all add: valueGreen_def valueRed_def valueYellow_def valueWhite_def get_value_def findState_def l)
  have "TrackSignal_toJSON ?l = d"
    unfolding TrackSignal_toJSON_def l v t
    by (simp add: d_def TrackSignal_toJSON_def track_dto.defs)
  then show ?thesis by (simp add: d_def)
qed


subsection \<open>Properties\<close>

text \<open>Whatever operations a signal goes through, in any order, its current state index stays a
  position of its list of states, as long as no configuration without states is put in.\<close>

theorem signal_index_invariant:
  "signal_ok e \<Longrightarrow> list_all signal_op_ok ops \<Longrightarrow> signal_ok (fold signal_step ops e)"
  by (rule signal_steps.run_inv)

text \<open>C7. Feedback for all accessory addresses of a signal, in any order and with repetitions, makes the
  current state the first one whose outputs are those reported.\<close>

theorem feedback_recognises_state:
  assumes "oc_protocol (se_signalOutput e) = Dcc" and "1 \<le> oc_outputCount (se_signalOutput e)"
    and "oc_outputCount (se_signalOutput e) \<le> 16" and "set order = {..<nat (oc_outputCount (se_signalOutput e))}"
    and "length outputs = nat (oc_outputCount (se_signalOutput e))"
    and "find_index (\<lambda>s. resizeDccOutputs (os_dccOutputs s) (oc_outputCount (se_signalOutput e)) = outputs) (se_states e) = Some k"
  shows "se_currentStateIndex
    (fold (\<lambda>i x. setValue (oc_address (se_signalOutput x) + int i) (outputs ! i = DirG) x) order e) = int k"
proof -
  have "(\<lambda>i x. setValue (oc_address (se_signalOutput x) + int i) (outputs ! i = DirG) x) = report outputs"
    by (intro ext) (simp add: report_def)
  then show ?thesis using reports_recognised [OF assms(1-5)] assms(6) by (simp add: recognised_def)
qed

text \<open>A legacy bit mask written for one of the named states reads back as its value modulo two to the
  number of outputs, whether the state existed or had to be created.\<close>

theorem legacy_mask_roundtrip:
  assumes "0 \<le> oc_outputCount (se_signalOutput e)" and "oc_outputCount (se_signalOutput e) \<le> 31"
  shows "valueGreen (set_valueGreen newId v e) = v mod 2 ^ nat (oc_outputCount (se_signalOutput e)) \<and>
    valueRed (set_valueRed newId v e) = v mod 2 ^ nat (oc_outputCount (se_signalOutput e)) \<and>
    valueYellow (set_valueYellow newId v e) = v mod 2 ^ nat (oc_outputCount (se_signalOutput e)) \<and>
    valueWhite (set_valueWhite newId v e) = v mod 2 ^ nat (oc_outputCount (se_signalOutput e))"
  using get_value_applied [OF assms]
  by (simp add: valueGreen_def valueRed_def valueYellow_def valueWhite_def set_valueGreen_def set_valueRed_def
      set_valueYellow_def set_valueWhite_def)

text \<open>C8. A signal that is saved and loaded has the configuration and current state it had, and saving it
  again gives the same document.\<close>

theorem signal_saves_faithfully:
  assumes "signal_ok e" and "proper_base 1 1 e"
  shows "se_signalOutput (TrackSignal_fromJSON r g (TrackSignal_toJSON e)) = se_signalOutput e \<and>
    currentState (TrackSignal_fromJSON r g (TrackSignal_toJSON e)) = currentState e \<and>
    TrackSignal_toJSON (TrackSignal_fromJSON r g (TrackSignal_toJSON e)) = TrackSignal_toJSON e"
  using loaded_signal(1,2) [OF assms(1), of r g] signal_round [OF assms, of r g] by (simp add: currentState_def split: option.split)

text \<open>Loading sets the feedback outputs from the first state, not from the loaded current state: the
  current index is assigned after they were computed.\<close>

theorem loaded_feedback_is_first_state:
  assumes "gd_signalOutput d = Some c" and "oc_protocol c = Dcc" and "oc_states c = s # ss"
  shows "se_dccFeedbackOutputs (TrackSignal_fromJSON r g d) = Some (resizeDccOutputs (os_dccOutputs s) (oc_outputCount c))"
  using assms
  by (simp add: TrackSignal_fromJSON_def Let_def setSignalOutput_def syncDccFeedbackFromCurrentState_def
      currentState_def state_at_def nth_opt_def)

subsection \<open>An example signal\<close>

definition example_signal :: signal_element where
  "example_signal = new_TrackSignal ''r'' ''g'' 3 4"

lemma example_signal_output: "se_signalOutput example_signal = createDefaultSignalOutputConfiguration ''r'' ''g'' 1 2"
  "se_currentStateIndex example_signal = 0"
  by (simp_all add: example_signal_def new_TrackSignal_def track_element.defs)

lemma example_signal_ok: "signal_ok example_signal" "proper_base 1 1 example_signal"
  by (simp_all add: signal_ok_def example_signal_output createDefaultSignalOutputConfiguration_def Let_def)
    (simp add: proper_base_def example_signal_def new_TrackSignal_def new_defs INVALID_LAYOUT_ELEMENT_ID_def)

lemma example_signal_config:
  "oc_protocol (se_signalOutput example_signal) = Dcc" "oc_outputCount (se_signalOutput example_signal) = 2"
  "oc_address (se_signalOutput example_signal) = 1"
  by (simp_all add: example_signal_output createDefaultSignalOutputConfiguration_def Let_def MAX_SIGNAL_LAMPS_def)

lemma signal_index_invariant_witness:
  "signal_ok (fold signal_step [OpIndex 7, OpValue 2 True, OpYellow ''y'' 3, OpState SignalYellow] example_signal)"
  by (rule signal_index_invariant [OF example_signal_ok(1)]) simp

lemma example_green:
  "find_index (\<lambda>s. resizeDccOutputs (os_dccOutputs s) (oc_outputCount (se_signalOutput example_signal)) = [DirR, DirG])
     (se_states example_signal) = Some 1"
  unfolding example_signal_output by code_simp

lemma feedback_recognises_state_witness:
  "se_currentStateIndex
    (fold (\<lambda>i x. setValue (oc_address (se_signalOutput x) + int i) ([DirR, DirG] ! i = DirG) x) [1, 0] example_signal) = 1"
  using feedback_recognises_state [OF example_signal_config(1) _ _ _ _ example_green, of "[1, 0]"]
  by (simp add: example_signal_config lessThan_Suc eval_nat_numeral insert_commute)

lemma legacy_mask_roundtrip_witness: "valueGreen (set_valueGreen ''n'' 6 example_signal) = 2"
  using legacy_mask_roundtrip [of example_signal "''n''" 6] by (simp add: example_signal_config)

lemma signal_saves_faithfully_witness:
  "TrackSignal_toJSON (TrackSignal_fromJSON ''a'' ''b'' (TrackSignal_toJSON example_signal)) = TrackSignal_toJSON example_signal"
  using signal_saves_faithfully [OF example_signal_ok] by blast

lemma loaded_feedback_is_first_state_witness:
  "\<exists>d. gd_currentStateIndex d = Some 1 \<and> se_dccFeedbackOutputs (TrackSignal_fromJSON ''a'' ''b'' d) = Some [DirG, DirR]"
proof -
  define d where "d = (TrackSignal_toJSON example_signal)\<lparr>gd_currentStateIndex := Some 1\<rparr>"
  define c where "c = createDefaultSignalOutputConfiguration ''r'' ''g'' 1 2"
  have d: "gd_signalOutput d = Some c" "gd_currentStateIndex d = Some 1"
    by (simp_all add: d_def c_def TrackSignal_toJSON_def track_dto.defs example_signal_output)
  have p: "oc_protocol c = Dcc" "resizeDccOutputs (os_dccOutputs (hd (oc_states c))) (oc_outputCount c) = [DirG, DirR]"
    "oc_states c \<noteq> []"
    unfolding c_def by code_simp+
  then have "oc_states c = hd (oc_states c) # tl (oc_states c)" by simp
  from loaded_feedback_is_first_state [OF d(1) p(1) this, of "''a''" "''b''"] show ?thesis
    using d(2) p(2) by auto
qed

end
