(* ===== verification/LayoutModel.thy ===== *)
theory LayoutModel
  imports Elements "HOL-Library.Multiset"
begin

text \<open>
  \<open>web-ui/src/domain/layout/model/Layer.ts\<close> and \<open>Layout.ts\<close>: the layers of a layout, their elements and
  the allocation of element ids. Elements are objects; \<open>it_ref\<close> is the identity that \<open>===\<close> and
  \<open>indexOf\<close> compare; an element object is in at most one place of a layout. A thrown error is \<open>Inl\<close>.
\<close>

subsection \<open>Data\<close>

record item = base_element +
  it_ref :: nat

record layer =
  la_id :: string
  la_name :: string
  la_visible :: bool
  la_locked :: bool
  la_elements :: "item list"

record layout =
  ly_layers :: "layer list"
  ly_activeLayerId :: string
  ly_nextElementId :: int
  ly_gridSize :: int

definition new_layer :: "string \<Rightarrow> string \<Rightarrow> bool option \<Rightarrow> bool option \<Rightarrow> layer" where
  "new_layer lid name visible locked =
     \<lparr>la_id = lid, la_name = name, la_visible = (case visible of Some b \<Rightarrow> b | None \<Rightarrow> True),
      la_locked = (case locked of Some b \<Rightarrow> b | None \<Rightarrow> False), la_elements = []\<rparr>"

definition layer_add :: "item \<Rightarrow> layer \<Rightarrow> layer" where
  "layer_add x l = l\<lparr>la_elements := la_elements l @ [x]\<rparr>"

definition layer_remove :: "item \<Rightarrow> layer \<Rightarrow> layer" where
  "layer_remove x l = l\<lparr>la_elements := filter (\<lambda>y. it_ref y \<noteq> it_ref x) (la_elements l)\<rparr>"

definition layer_clear :: "layer \<Rightarrow> layer" where
  "layer_clear l = l\<lparr>la_elements := []\<rparr>"

definition layer_hitTest :: "layer \<Rightarrow> int \<Rightarrow> int \<Rightarrow> bool" where
  "layer_hitTest l x y = (\<exists>e\<in>set (la_elements l). hitTest e x y)"

definition new_layout :: layout where
  "new_layout =
     \<lparr>ly_layers = [new_layer ''buildings'' (CHR 0xC9 # ''p'' @ CHR 0xFC # ''letek'') None None, new_layer ''blocks'' ''Blokkok'' None None,
        new_layer ''sensors'' ''Sensors'' None None, new_layer ''signals'' ''Signals'' None None,
        new_layer ''track'' (''P'' @ CHR 0xE1 # ''lya'') None None],
      ly_activeLayerId = ''track'', ly_nextElementId = 1, ly_gridSize = 40\<rparr>"

subsection \<open>Layers\<close>

definition getLayer :: "layout \<Rightarrow> string \<Rightarrow> layer option" where
  "getLayer l lid = find (\<lambda>x. la_id x = lid) (ly_layers l)"

definition requireLayer :: "layout \<Rightarrow> string \<Rightarrow> string + layer" where
  "requireLayer l lid = (case getLayer l lid of Some x \<Rightarrow> Inr x | None \<Rightarrow> Inl (''Layer not found: '' @ lid))"

definition set_activeLayerId :: "string \<Rightarrow> layout \<Rightarrow> layout" where
  "set_activeLayerId v l = (if \<exists>x\<in>set (ly_layers l). la_id x = v then l\<lparr>ly_activeLayerId := v\<rparr> else l)"

definition activeLayer :: "layout \<Rightarrow> string + layer" where
  "activeLayer l =
     (case getLayer l (ly_activeLayerId l) of Some x \<Rightarrow> Inr x | None \<Rightarrow> Inl (''Active layer not found: '' @ ly_activeLayerId l))"

definition addLayer :: "string \<Rightarrow> string \<Rightarrow> bool option \<Rightarrow> bool option \<Rightarrow> layout \<Rightarrow> layout" where
  "addLayer lid name visible locked l =
     (case getLayer l lid of Some x \<Rightarrow> l | None \<Rightarrow> l\<lparr>ly_layers := ly_layers l @ [new_layer lid name visible locked]\<rparr>)"

definition elements_of :: "layout \<Rightarrow> string \<Rightarrow> string + item list" where
  "elements_of l lid = bind_r (requireLayer l lid) (\<lambda>x. Inr (la_elements x))"

definition getAllElements :: "layout \<Rightarrow> string + item list" where
  "getAllElements l =
     bind_r (map_r (elements_of l) [''track'', ''blocks'', ''signals'', ''sensors'', ''buildings'']) (\<lambda>ess. Inr (concat ess))"

definition getAllVisibleElements :: "layout \<Rightarrow> item list" where
  "getAllVisibleElements l = concat (map la_elements (filter la_visible (ly_layers l)))"

subsection \<open>Element ids\<close>

fun allocate_loop :: "nat \<Rightarrow> int list \<Rightarrow> int \<Rightarrow> string + int \<times> int" where
  "allocate_loop 0 used nextElementId = Inl ''No free uint16 layout element ID is available.''"
| "allocate_loop (Suc n) used nextElementId =
     (let candidate = nextElementId;
          next' = (if candidate \<ge> MAX_LAYOUT_ELEMENT_ID then 1 else candidate + 1)
      in if candidate \<noteq> INVALID_LAYOUT_ELEMENT_ID \<and> candidate \<notin> set used then Inr (candidate, next')
         else allocate_loop n used next')"

definition allocateElementId :: "layout \<Rightarrow> string + int \<times> layout" where
  "allocateElementId l =
     bind_r (getAllElements l) (\<lambda>es. bind_r (allocate_loop 65535 (map be_id es) (ly_nextElementId l))
       (\<lambda>(i, next'). Inr (i, l\<lparr>ly_nextElementId := next'\<rparr>)))"

definition update_ref :: "nat \<Rightarrow> (item \<Rightarrow> item) \<Rightarrow> layout \<Rightarrow> layout" where
  "update_ref r f l =
     l\<lparr>ly_layers := map (\<lambda>x. x\<lparr>la_elements := map (\<lambda>e. if it_ref e = r then f e else e) (la_elements x)\<rparr>) (ly_layers l)\<rparr>"

text \<open>The first loop of \<open>rebuildElementIdSequence\<close>: invalid and repeated ids become 0.\<close>

fun reset_ids :: "item list \<Rightarrow> int list \<Rightarrow> int \<Rightarrow> layout \<Rightarrow> int \<times> layout" where
  "reset_ids [] seen maxId l = (maxId, l)"
| "reset_ids (e # es) seen maxId l =
     (if be_id e \<le> 0 \<or> be_id e > MAX_LAYOUT_ELEMENT_ID \<or> be_id e \<in> set seen
      then reset_ids es seen maxId (update_ref (it_ref e) (set_id (Inl INVALID_LAYOUT_ELEMENT_ID)) l)
      else reset_ids es (set_add (be_id e) seen) (max maxId (be_id e)) l)"

text \<open>The second loop gives a new id to every element whose id is 0 when it is reached.\<close>

fun assign_missing :: "nat list \<Rightarrow> layout \<Rightarrow> string + layout" where
  "assign_missing [] l = Inr l"
| "assign_missing (r # rs) l =
     bind_r (getAllElements l) (\<lambda>es.
       case find (\<lambda>e. it_ref e = r) es of
         Some e \<Rightarrow>
           if be_id e = INVALID_LAYOUT_ELEMENT_ID
           then bind_r (allocateElementId l) (\<lambda>(i, l'). assign_missing rs (update_ref r (set_id (Inl i)) l'))
           else assign_missing rs l
       | None \<Rightarrow> assign_missing rs l)"

definition rebuildElementIdSequence :: "layout \<Rightarrow> string + layout" where
  "rebuildElementIdSequence l =
     bind_r (getAllElements l) (\<lambda>es.
       let (maxId, l1) = reset_ids es [] 0 l;
           l2 = l1\<lparr>ly_nextElementId := (if maxId \<ge> MAX_LAYOUT_ELEMENT_ID then 1 else maxId + 1)\<rparr>
       in assign_missing (map it_ref es) l2)"

subsection \<open>Adding and removing\<close>

definition update_layer :: "string \<Rightarrow> (layer \<Rightarrow> layer) \<Rightarrow> layout \<Rightarrow> layout" where
  "update_layer lid f l = l\<lparr>ly_layers := update_first (\<lambda>x. la_id x = lid) f (ly_layers l)\<rparr>"

definition addElement :: "item \<Rightarrow> string option \<Rightarrow> layout \<Rightarrow> string + layout" where
  "addElement element layerId l =
     bind_r (case layerId of Some lid \<Rightarrow> if lid \<noteq> [] then requireLayer l lid else activeLayer l | None \<Rightarrow> activeLayer l) (\<lambda>layer.
       if la_locked layer then Inr l
       else bind_r (if be_id element = INVALID_LAYOUT_ELEMENT_ID then Inr False
                    else bind_r (getAllElements l) (\<lambda>es. Inr (\<exists>c\<in>set es. it_ref c \<noteq> it_ref element \<and> be_id c = be_id element)))
         (\<lambda>duplicate.
            if be_id element = INVALID_LAYOUT_ELEMENT_ID \<or> duplicate
            then bind_r (allocateElementId l) (\<lambda>(i, l').
                   Inr (update_layer (la_id layer) (layer_add (set_id (Inl i) element))
                          (update_ref (it_ref element) (set_id (Inl i)) l')))
            else Inr (update_layer (la_id layer) (layer_add element) l)))"

fun remove_first :: "nat \<Rightarrow> item list \<Rightarrow> item list" where
  "remove_first r [] = []"
| "remove_first r (e # es) = (if it_ref e = r then es else e # remove_first r es)"

fun remove_from_layers :: "nat \<Rightarrow> layer list \<Rightarrow> layer list" where
  "remove_from_layers r [] = []"
| "remove_from_layers r (x # xs) =
     (if \<exists>e\<in>set (la_elements x). it_ref e = r then x\<lparr>la_elements := remove_first r (la_elements x)\<rparr> # xs
      else x # remove_from_layers r xs)"

definition removeElement :: "item \<Rightarrow> layout \<Rightarrow> layout" where
  "removeElement element l = l\<lparr>ly_layers := remove_from_layers (it_ref element) (ly_layers l)\<rparr>"

definition clearAll :: "layout \<Rightarrow> layout" where
  "clearAll l = l\<lparr>ly_layers := map layer_clear (ly_layers l), ly_nextElementId := 1\<rparr>"

subsection \<open>Queries\<close>

definition rectsIntersect :: "rect \<Rightarrow> rect \<Rightarrow> bool" where
  "rectsIntersect a b \<longleftrightarrow>
     r_x a < r_x b + r_width b \<and> r_x a + r_width a > r_x b \<and> r_y a < r_y b + r_height b \<and> r_y a + r_height a > r_y b"

definition elementsIntersect :: "'a base_element_scheme \<Rightarrow> 'b base_element_scheme \<Rightarrow> bool" where
  "elementsIntersect first second =
     (if be_type first = TRACK_BLOCK \<and> be_type second = TRACK_BLOCK then rectsIntersect (getBounds first) (getBounds second)
      else rectsIntersect (getCollisionBounds first) (getCollisionBounds second))"

definition getElementAtGrid :: "int \<Rightarrow> int \<Rightarrow> layout \<Rightarrow> string + item option" where
  "getElementAtGrid x y l = bind_r (getAllElements l) (\<lambda>es. Inr (find (\<lambda>e. hitTest e x y) (rev es)))"

definition isOccupied :: "int \<Rightarrow> int \<Rightarrow> layout \<Rightarrow> string + bool" where
  "isOccupied x y l = bind_r (getElementAtGrid x y l) (\<lambda>r. Inr (r \<noteq> None))"

definition findLayerOfElement :: "item \<Rightarrow> layout \<Rightarrow> layer option" where
  "findLayerOfElement element l = find (\<lambda>x. \<exists>e\<in>set (la_elements x). it_ref e = it_ref element) (ly_layers l)"

definition layered_elements :: "layout \<Rightarrow> item list" where
  "layered_elements l = concat (map la_elements (ly_layers l))"

definition getElement :: "int \<Rightarrow> int \<Rightarrow> layout \<Rightarrow> item option" where
  "getElement x y l = find (\<lambda>e. hitTest e x y) (layered_elements l)"

definition getLayeredElement :: "item \<Rightarrow> int \<Rightarrow> int \<Rightarrow> layout \<Rightarrow> item option" where
  "getLayeredElement referenceElement x y l =
     (let moved = referenceElement\<lparr>be_x := x, be_y := y\<rparr> in
      find (\<lambda>e. \<not> (it_ref e = it_ref referenceElement \<or> be_layerName e \<noteq> be_layerName referenceElement) \<and>
             elementsIntersect moved e) (layered_elements l))"

definition checkElementCollision :: "item \<Rightarrow> item \<Rightarrow> layout \<Rightarrow> bool" where
  "checkElementCollision first second l =
     (if map_option la_name (findLayerOfElement first l) \<noteq> map_option la_name (findLayerOfElement second l) then False
      else elementsIntersect first second)"

definition getElements :: "int \<Rightarrow> int \<Rightarrow> layout \<Rightarrow> item list" where
  "getElements x y l = filter (\<lambda>e. hitTest e x y) (layered_elements l)"

definition getElementById :: "int \<Rightarrow> layout \<Rightarrow> string + item option" where
  "getElementById lid l = bind_r (getAllElements l) (\<lambda>es. Inr (find (\<lambda>e. be_id e = lid) es))"

definition getElementByName :: "string \<Rightarrow> layout \<Rightarrow> string + item option" where
  "getElementByName name l = bind_r (getAllElements l) (\<lambda>es. Inr (find (\<lambda>e. be_name e = name) es))"

definition isExists :: "int \<Rightarrow> int \<Rightarrow> layout \<Rightarrow> bool" where
  "isExists x y l = (length (getElements x y l) > 0)"

record layout_bounds =
  lb_minX :: int
  lb_minY :: int
  lb_maxX :: int
  lb_maxY :: int

fun extend_bounds :: "layout_bounds \<Rightarrow> item list \<Rightarrow> layout_bounds" where
  "extend_bounds b [] = b"
| "extend_bounds b (e # es) =
     (let r = getBounds e in
      extend_bounds \<lparr>lb_minX = min (lb_minX b) (r_x r), lb_minY = min (lb_minY b) (r_y r),
        lb_maxX = max (lb_maxX b) (r_x r + r_width r - 1), lb_maxY = max (lb_maxY b) (r_y r + r_height r - 1)\<rparr> es)"

text \<open>The loop starts from infinite bounds, which the first element replaces by its own.\<close>

definition getLayoutBounds :: "layout \<Rightarrow> string + layout_bounds option" where
  "getLayoutBounds l =
     bind_r (getAllElements l) (\<lambda>es.
       case es of [] \<Rightarrow> Inr None
       | e # rest \<Rightarrow> let r = getBounds e in
           Inr (Some (extend_bounds \<lparr>lb_minX = r_x r, lb_minY = r_y r, lb_maxX = r_x r + r_width r - 1,
                                     lb_maxY = r_y r + r_height r - 1\<rparr> rest)))"

definition getObjectXy :: "point \<Rightarrow> layout \<Rightarrow> string + item option" where
  "getObjectXy p l = bind_r (getAllElements l) (\<lambda>es. Inr (find (\<lambda>e. hitTest e (p_x p) (p_y p)) es))"


subsection \<open>The elements of the five layers\<close>

definition layer_names :: "string list" where
  "layer_names = [''track'', ''blocks'', ''signals'', ''sensors'', ''buildings'']"

definition layer_elements_of :: "layout \<Rightarrow> string \<Rightarrow> item list" where
  "layer_elements_of l n = (case getLayer l n of Some x \<Rightarrow> la_elements x | None \<Rightarrow> [])"

definition items :: "layout \<Rightarrow> item list" where
  "items l = concat (map (layer_elements_of l) layer_names)"

definition well_layered :: "layout \<Rightarrow> bool" where
  "well_layered l \<longleftrightarrow> list_all (\<lambda>n. getLayer l n \<noteq> None) layer_names"

lemma elements_of_conv:
  "elements_of l n = (if getLayer l n = None then Inl (''Layer not found: '' @ n) else Inr (layer_elements_of l n))"
  by (simp add: elements_of_def requireLayer_def layer_elements_of_def split: option.split)

lemma getAllElements_items: "well_layered l \<Longrightarrow> getAllElements l = Inr (items l)"
  by (simp add: getAllElements_def well_layered_def layer_names_def items_def elements_of_conv)

lemma getAllElements_Inr: "getAllElements l = Inr es \<longleftrightarrow> well_layered l \<and> es = items l"
  by (auto simp: getAllElements_def well_layered_def layer_names_def items_def elements_of_conv split: if_splits)

lemma distinct_layer_names: "distinct layer_names"
  by (simp add: layer_names_def)

lemma getLayer_map:
  assumes "\<And>x. la_id (f x) = la_id x"
  shows "getLayer (l\<lparr>ly_layers := map f (ly_layers l)\<rparr>) n = map_option f (getLayer l n)"
  using assms by (simp add: getLayer_def find_map_conv comp_def)

lemma getLayer_next [simp]: "getLayer (l\<lparr>ly_nextElementId := k\<rparr>) n = getLayer l n"
  by (simp add: getLayer_def)

lemma items_next [simp]: "items (l\<lparr>ly_nextElementId := k\<rparr>) = items l" "well_layered (l\<lparr>ly_nextElementId := k\<rparr>) = well_layered l"
  by (simp_all add: items_def layer_elements_of_def [abs_def] well_layered_def)

definition at_ref :: "nat \<Rightarrow> (item \<Rightarrow> item) \<Rightarrow> item \<Rightarrow> item" where
  "at_ref r f e = (if it_ref e = r then f e else e)"

lemma getLayer_update_ref:
  "getLayer (update_ref r f l) n = map_option (\<lambda>x. x\<lparr>la_elements := map (at_ref r f) (la_elements x)\<rparr>) (getLayer l n)"
  unfolding update_ref_def by (subst getLayer_map) (simp_all add: at_ref_def [abs_def])

lemma items_update_ref [simp]: "items (update_ref r f l) = map (at_ref r f) (items l)"
proof -
  have "layer_elements_of (update_ref r f l) = (\<lambda>n. map (at_ref r f) (layer_elements_of l n))"
    by (intro ext) (simp add: layer_elements_of_def getLayer_update_ref split: option.split)
  then show ?thesis by (simp add: items_def map_concat comp_def)
qed

lemma well_layered_update_ref [simp]: "well_layered (update_ref r f l) = well_layered l"
  by (simp add: well_layered_def getLayer_update_ref)

lemma update_ref_next [simp]: "ly_nextElementId (update_ref r f l) = ly_nextElementId l"
  by (simp add: update_ref_def)

lemma getLayer_update_layer:
  assumes "\<And>x. la_id (f x) = la_id x"
  shows "getLayer (update_layer lid f l) n = (if n = lid then map_option f (getLayer l n) else getLayer l n)"
proof -
  have "find (\<lambda>x. la_id x = n) (update_first (\<lambda>x. la_id x = lid) f xs) =
      (if n = lid then map_option f (find (\<lambda>x. la_id x = n) xs) else find (\<lambda>x. la_id x = n) xs)" for xs
    using assms by (induction xs) auto
  then show ?thesis by (simp add: getLayer_def update_layer_def)
qed

lemma concat_insert:
  "distinct ns \<Longrightarrow> n \<in> set ns \<Longrightarrow> \<exists>p q. concat (map f ns) = p @ q \<and> concat (map (f(n := f n @ [e])) ns) = p @ e # q"
proof (induction ns)
  case (Cons m ns)
  show ?case
  proof (cases "n = m")
    case True
    have eq: "map (f(n := f n @ [e])) ns = map f ns" using Cons.prems True by (intro map_cong) auto
    have g: "(f(n := f n @ [e])) m = f m @ [e]" using True by simp
    have "concat (map (f(n := f n @ [e])) (m # ns)) = f m @ e # concat (map f ns)"
      by (simp only: list.map concat.simps g eq append_assoc append.simps)
    moreover have "concat (map f (m # ns)) = f m @ concat (map f ns)" by simp
    ultimately show ?thesis by blast
  next
    case False
    then have "n \<in> set ns" "distinct ns" using Cons.prems by auto
    then obtain p q where pq: "concat (map f ns) = p @ q" "concat (map (f(n := f n @ [e])) ns) = p @ e # q"
      using Cons.IH by blast
    have g: "(f(n := f n @ [e])) m = f m" using False by simp
    have "concat (map (f(n := f n @ [e])) (m # ns)) = (f m @ p) @ e # q"
      by (simp only: list.map concat.simps g pq append_assoc)
    moreover have "concat (map f (m # ns)) = (f m @ p) @ q" by (simp add: pq)
    ultimately show ?thesis by blast
  qed
qed simp

lemma items_add:
  assumes "getLayer l lid \<noteq> None"
  shows "items (update_layer lid (layer_add e) l) = items l \<or>
    (\<exists>p q. items l = p @ q \<and> items (update_layer lid (layer_add e) l) = p @ e # q)"
proof -
  have f: "layer_elements_of (update_layer lid (layer_add e) l) = (layer_elements_of l)(lid := layer_elements_of l lid @ [e])"
    using assms by (intro ext) (auto simp: layer_elements_of_def getLayer_update_layer layer_add_def)
  show ?thesis
  proof (cases "lid \<in> set layer_names")
    case True
    from concat_insert [OF distinct_layer_names True, of "layer_elements_of l" e] show ?thesis
      by (auto simp: items_def f)
  next
    case False
    then have "map (layer_elements_of (update_layer lid (layer_add e) l)) layer_names = map (layer_elements_of l) layer_names"
      unfolding f by (intro map_cong) auto
    then have "items (update_layer lid (layer_add e) l) = items l" unfolding items_def by (rule arg_cong)
    then show ?thesis by blast
  qed
qed

lemma well_layered_add [simp]: "well_layered (update_layer lid (layer_add e) l) = well_layered l"
proof -
  have "(getLayer (update_layer lid (layer_add e) l) n \<noteq> None) = (getLayer l n \<noteq> None)" for n
    by (simp add: getLayer_update_layer layer_add_def)
  then show ?thesis by (simp only: well_layered_def)
qed

subsection \<open>Allocation\<close>

lemma allocate_loop_scan:
  "allocate_loop n used c =
     (case scan n (\<lambda>i. i \<noteq> 0 \<and> i \<notin> set used) c of
        None \<Rightarrow> Inl ''No free uint16 layout element ID is available.'' | Some i \<Rightarrow> Inr (i, next_id i))"
proof (induction n arbitrary: c)
  case (Suc n)
  have "(if c \<ge> MAX_LAYOUT_ELEMENT_ID then 1 else c + 1) = next_id c" by (simp add: next_id_def)
  then show ?case by (simp add: Let_def Suc.IH INVALID_LAYOUT_ELEMENT_ID_def)
qed simp

type_synonym allocator = "int list \<times> int"

definition allocator_ready :: "allocator \<Rightarrow> bool" where "allocator_ready s \<longleftrightarrow> snd s \<in> valid_ids"
definition allocator_taken :: "allocator \<Rightarrow> int set" where "allocator_taken s = set (fst s)"
definition allocator_issue :: "allocator \<Rightarrow> string + int \<times> allocator" where
  "allocator_issue s = bind_r (allocate_loop 65535 (fst s) (snd s)) (\<lambda>(i, k). Inr (i, (fst s, k)))"
definition allocator_claim :: "int \<Rightarrow> allocator \<Rightarrow> allocator" where "allocator_claim i s = (i # fst s, snd s)"

interpretation allocation: id_supply allocator_ready allocator_taken allocator_issue allocator_claim
proof
  show "i \<in> valid_ids - allocator_taken s \<and> allocator_ready s' \<and> allocator_taken s' = allocator_taken s"
    if r: "allocator_ready s" and i: "allocator_issue s = Inr (i, s')" for s i s'
  proof -
    have "scan 65535 (\<lambda>i. i \<noteq> 0 \<and> i \<notin> set (fst s)) (snd s) = Some i" and s': "s' = (fst s, next_id i)"
      using i by (auto simp: allocator_issue_def allocate_loop_scan split: option.splits)
    from scan_Some [OF this(1)] r show ?thesis
      by (simp add: s' allocator_ready_def allocator_taken_def next_id_valid)
  qed
  show "valid_ids \<subseteq> allocator_taken s" if r: "allocator_ready s" and i: "allocator_issue s = Inl e" for s e
  proof
    fix j assume j: "j \<in> valid_ids"
    have "scan 65535 (\<lambda>i. i \<noteq> 0 \<and> i \<notin> set (fst s)) (snd s) = None"
      using i by (auto simp: allocator_issue_def allocate_loop_scan split: option.splits)
    then show "j \<in> allocator_taken s"
      using scan_finds [of "snd s" j "\<lambda>i. i \<noteq> 0 \<and> i \<notin> set (fst s)"] r j
      by (auto simp: allocator_ready_def allocator_taken_def valid_ids_iff)
  qed
  show "allocator_ready (allocator_claim i s) \<and> allocator_taken (allocator_claim i s) = insert i (allocator_taken s)"
    if "allocator_ready s" "i \<in> valid_ids" for s i
    using that by (simp add: allocator_ready_def allocator_claim_def allocator_taken_def)
qed

definition allocator_of :: "layout \<Rightarrow> allocator" where
  "allocator_of l = (map be_id (items l), ly_nextElementId l)"

lemma allocateElementId_issue:
  assumes "well_layered l"
  shows "allocateElementId l =
    (case allocator_issue (allocator_of l) of Inl e \<Rightarrow> Inl e | Inr (i, s) \<Rightarrow> Inr (i, l\<lparr>ly_nextElementId := snd s\<rparr>))"
  by (cases "allocate_loop 65535 (map be_id (items l)) (ly_nextElementId l)")
    (auto simp: allocateElementId_def getAllElements_items [OF assms] allocator_issue_def allocator_of_def)

lemma allocate_Inr:
  assumes "well_layered l" and "ly_nextElementId l \<in> valid_ids" and "allocateElementId l = Inr (i, l')"
  shows "i \<in> valid_ids - be_id ` set (items l) \<and> (\<exists>k\<in>valid_ids. l' = l\<lparr>ly_nextElementId := k\<rparr>)"
proof -
  obtain s where s: "allocator_issue (allocator_of l) = Inr (i, s)" "l' = l\<lparr>ly_nextElementId := snd s\<rparr>"
    using assms(3) by (auto simp: allocateElementId_issue [OF assms(1)] split: sum.splits prod.splits)
  have "allocator_ready (allocator_of l)" using assms(2) by (simp add: allocator_ready_def allocator_of_def)
  from allocation.issue_valid [OF this s(1)] show ?thesis
    using s(2) by (auto simp: allocator_taken_def allocator_ready_def allocator_of_def)
qed

lemma allocate_Inl:
  assumes "well_layered l" and "ly_nextElementId l \<in> valid_ids" and "allocateElementId l = Inl e"
  shows "valid_ids \<subseteq> be_id ` set (items l)"
proof -
  have s: "allocator_issue (allocator_of l) = Inl e"
    using assms(3) by (auto simp: allocateElementId_issue [OF assms(1)] split: sum.splits prod.splits)
  have "allocator_ready (allocator_of l)" using assms(2) by (simp add: allocator_ready_def allocator_of_def)
  from allocation.issue_fails [OF this s] show ?thesis by (simp add: allocator_taken_def allocator_of_def)
qed


subsection \<open>Unique ids\<close>

definition ids_ok :: "layout \<Rightarrow> bool" where
  "ids_ok l \<longleftrightarrow> well_layered l \<and> ly_nextElementId l \<in> valid_ids \<and>
     distinct (map be_id (items l)) \<and> be_id ` set (items l) \<subseteq> valid_ids"

lemma new_layout_ok: "ids_ok new_layout"
  by (simp add: ids_ok_def well_layered_def items_def layer_elements_of_def layer_names_def getLayer_def new_layout_def
      new_layer_def valid_ids_iff)

lemma be_id_set_id [simp]: "be_id (set_id v e) = normalizeAssignedId v" "it_ref (set_id v x) = it_ref x"
  by (simp_all add: set_id_def)

lemma at_ref_fresh: "r \<notin> it_ref ` set es \<Longrightarrow> map (at_ref r f) es = es"
  by (induction es) (auto simp: at_ref_def)

lemma ids_ok_add:
  assumes "ids_ok l" and "be_id e \<in> valid_ids" and "be_id e \<notin> be_id ` set (items l)" and "getLayer l lid \<noteq> None"
  shows "ids_ok (update_layer lid (layer_add e) l)"
proof -
  have n: "ly_nextElementId (update_layer lid (layer_add e) l) = ly_nextElementId l" by (simp add: update_layer_def)
  show ?thesis
    using items_add [OF assms(4), of e] assms(1-3) by (auto simp: ids_ok_def n image_subset_iff)
qed

lemma ids_ok_next: "ids_ok l \<Longrightarrow> k \<in> valid_ids \<Longrightarrow> ids_ok (l\<lparr>ly_nextElementId := k\<rparr>)"
  by (simp add: ids_ok_def)

lemma getLayer_la_id: "getLayer l n = Some x \<Longrightarrow> getLayer l (la_id x) = Some x"
  using find_SomeD [of "\<lambda>x. la_id x = n" "ly_layers l" x] by (auto simp: getLayer_def)

lemma addElement_ok:
  assumes l: "ids_ok l" and r: "it_ref e \<notin> it_ref ` set (items l)" and e: "be_id e \<in> insert 0 valid_ids"
    and a: "addElement e lid l = Inr l'"
  shows "ids_ok l'"
proof -
  obtain y where y: "(case lid of Some n \<Rightarrow> if n \<noteq> [] then requireLayer l n else activeLayer l | None \<Rightarrow> activeLayer l) = Inr y"
    using a by (auto simp: addElement_def bind_r_Inr)
  then have g: "getLayer l (la_id y) \<noteq> None"
    by (auto simp: requireLayer_def activeLayer_def split: option.splits if_splits dest: getLayer_la_id)
  have wl: "well_layered l" using l by (simp add: ids_ok_def)
  have dup: "(\<exists>c\<in>set (items l). it_ref c \<noteq> it_ref e \<and> be_id c = be_id e) \<longleftrightarrow> be_id e \<in> be_id ` set (items l)"
    using r by (auto simp: image_iff) metis+
  show ?thesis
  proof (cases "la_locked y")
    case True
    then show ?thesis using a y l by (simp add: addElement_def)
  next
    case unlocked: False
    show ?thesis
    proof (cases "be_id e = 0 \<or> be_id e \<in> be_id ` set (items l)")
      case False
      then have "l' = update_layer (la_id y) (layer_add e) l"
        using a y unlocked by (simp add: addElement_def INVALID_LAYOUT_ELEMENT_ID_def getAllElements_items [OF wl] dup)
      then show ?thesis using ids_ok_add [OF l _ _ g] False e by auto
    next
      case True
      then obtain i l1 where i: "allocateElementId l = Inr (i, l1)"
        and l': "l' = update_layer (la_id y) (layer_add (set_id (Inl i) e)) (update_ref (it_ref e) (set_id (Inl i)) l1)"
        using a y unlocked by (auto simp: addElement_def INVALID_LAYOUT_ELEMENT_ID_def getAllElements_items [OF wl] dup bind_r_Inr
            split: if_splits)
      obtain k where k: "k \<in> valid_ids" "l1 = l\<lparr>ly_nextElementId := k\<rparr>" and v: "i \<in> valid_ids" "i \<notin> be_id ` set (items l)"
        using allocate_Inr [OF wl _ i] l by (auto simp: ids_ok_def)
      have u: "items (update_ref (it_ref e) (set_id (Inl i)) l1) = items l" using k r by (simp add: at_ref_fresh)
      then have "ids_ok (update_ref (it_ref e) (set_id (Inl i)) l1)" using l k by (simp add: ids_ok_def)
      moreover have "getLayer (update_ref (it_ref e) (set_id (Inl i)) l1) (la_id y) \<noteq> None"
        using g k by (simp add: getLayer_update_ref)
      moreover have "be_id (set_id (Inl i) e) = i" using v by (simp add: normalizeAssignedId_id)
      ultimately show ?thesis unfolding l' using ids_ok_add [of _ "set_id (Inl i) e"] v u by simp
    qed
  qed
qed

lemma mset_sub_distinct:
  assumes "mset xs \<subseteq># mset ys" and "distinct ys"
  shows "distinct xs"
proof -
  obtain zs where "mset (xs @ zs) = mset ys"
    using assms(1) by (metis ex_mset mset_append subset_mset.add_diff_inverse)
  then have "distinct (xs @ zs)" using assms(2) mset_eq_imp_distinct_iff by blast
  then show ?thesis by simp
qed

lemma remove_first_sub: "mset (remove_first r es) \<subseteq># mset es"
  by (induction es) auto

lemma find_removed:
  "case find (\<lambda>x. la_id x = n) xs of
     None \<Rightarrow> find (\<lambda>x. la_id x = n) (remove_from_layers r xs) = None
   | Some x \<Rightarrow> \<exists>y. find (\<lambda>x. la_id x = n) (remove_from_layers r xs) = Some y \<and> mset (la_elements y) \<subseteq># mset (la_elements x)"
  by (induction xs) (auto simp: remove_first_sub split: option.splits)

lemma getLayer_removed:
  "case getLayer l n of None \<Rightarrow> getLayer (removeElement e l) n = None
   | Some x \<Rightarrow> \<exists>y. getLayer (removeElement e l) n = Some y \<and> mset (la_elements y) \<subseteq># mset (la_elements x)"
proof -
  have "ly_layers (removeElement e l) = remove_from_layers (it_ref e) (ly_layers l)" by (simp add: removeElement_def)
  then show ?thesis unfolding getLayer_def by (simp only: find_removed)
qed

lemma concat_sub: "(\<And>n. mset (f n) \<subseteq># mset (g n)) \<Longrightarrow> mset (concat (map f ns)) \<subseteq># mset (concat (map g ns))"
  by (induction ns) (auto intro: subset_mset.add_mono)

lemma items_removed: "mset (items (removeElement e l)) \<subseteq># mset (items l)"
  unfolding items_def
proof (rule concat_sub)
  fix n
  show "mset (layer_elements_of (removeElement e l) n) \<subseteq># mset (layer_elements_of l n)"
    using getLayer_removed [where l = l and n = n and e = e] by (auto simp: layer_elements_of_def split: option.splits)
qed

lemma removeElement_ok: "ids_ok l \<Longrightarrow> ids_ok (removeElement e l)"
proof -
  assume l: "ids_ok l"
  have "mset (map be_id (items (removeElement e l))) \<subseteq># mset (map be_id (items l))"
    unfolding mset_map by (rule image_mset_subseteq_mono [OF items_removed])
  then have "distinct (map be_id (items (removeElement e l)))"
    by (rule mset_sub_distinct) (use l in \<open>simp add: ids_ok_def\<close>)
  moreover have "set (items (removeElement e l)) \<subseteq> set (items l)"
    using set_mset_mono [OF items_removed] by simp
  moreover have "getLayer (removeElement e l) n \<noteq> None \<longleftrightarrow> getLayer l n \<noteq> None" for n
    using getLayer_removed [where l = l and n = n and e = e] by (auto split: option.splits)
  then have "well_layered (removeElement e l)" using l by (simp only: ids_ok_def well_layered_def)
  moreover have "ly_nextElementId (removeElement e l) = ly_nextElementId l" by (simp add: removeElement_def)
  ultimately show ?thesis using l by (auto simp: ids_ok_def)
qed

lemma clearAll_ok: "ids_ok l \<Longrightarrow> ids_ok (clearAll l)"
proof -
  assume l: "ids_ok l"
  have g: "getLayer (clearAll l) n = map_option layer_clear (getLayer l n)" for n
    by (simp add: clearAll_def getLayer_def find_map_conv comp_def layer_clear_def)
  have "layer_elements_of (clearAll l) = (\<lambda>n. [])"
    by (intro ext) (simp add: layer_elements_of_def g layer_clear_def split: option.split)
  then have "items (clearAll l) = []" by (simp add: items_def layer_names_def)
  moreover have "well_layered (clearAll l)" using l by (simp add: ids_ok_def well_layered_def g)
  ultimately show ?thesis by (simp add: ids_ok_def clearAll_def valid_ids_iff)
qed

lemma addLayer_ok: "ids_ok l \<Longrightarrow> ids_ok (addLayer n m v k l)"
proof -
  assume l: "ids_ok l"
  have g: "getLayer (addLayer n m v k l) x = getLayer l x" if "getLayer l x \<noteq> None" for x
    using that by (auto simp: addLayer_def getLayer_def find_append split: option.split)
  have w: "getLayer l x \<noteq> None" if "x \<in> set layer_names" for x
    using l that by (auto simp: ids_ok_def well_layered_def list_all_iff)
  have "items (addLayer n m v k l) = items l"
    unfolding items_def by (intro arg_cong [of _ _ concat] map_cong) (simp_all add: layer_elements_of_def g w)
  moreover have "well_layered (addLayer n m v k l)" using g w by (simp add: well_layered_def list_all_iff)
  moreover have "ly_nextElementId (addLayer n m v k l) = ly_nextElementId l" by (simp add: addLayer_def split: option.split)
  ultimately show ?thesis using l by (simp add: ids_ok_def)
qed

lemma set_active_ok: "ids_ok l \<Longrightarrow> ids_ok (set_activeLayerId v l)"
proof -
  have "getLayer (set_activeLayerId v l) = getLayer l" by (intro ext) (simp add: set_activeLayerId_def getLayer_def)
  then show "ids_ok l \<Longrightarrow> ids_ok (set_activeLayerId v l)"
    by (simp add: ids_ok_def well_layered_def items_def layer_elements_of_def [abs_def]) (simp add: set_activeLayerId_def)
qed

lemma allocate_ok: "ids_ok l \<Longrightarrow> allocateElementId l = Inr (i, l') \<Longrightarrow> ids_ok l'"
  using allocate_Inr [of l i l'] by (auto simp: ids_ok_def)

text \<open>What a client of the layout does to it, one operation at a time; an element put in is not already in.\<close>

inductive layout_step :: "layout \<Rightarrow> layout \<Rightarrow> bool" where
  step_add: "it_ref e \<notin> it_ref ` set (items l) \<Longrightarrow> be_id e \<in> insert 0 valid_ids \<Longrightarrow> addElement e lid l = Inr l' \<Longrightarrow> layout_step l l'"
| step_remove: "layout_step l (removeElement e l)"
| step_clear: "layout_step l (clearAll l)"
| step_layer: "layout_step l (addLayer n m v k l)"
| step_active: "layout_step l (set_activeLayerId v l)"
| step_allocate: "allocateElementId l = Inr (i, l') \<Longrightarrow> layout_step l l'"

inductive_cases layout_stepE: "layout_step l l'"

inductive layout_steps :: "layout \<Rightarrow> layout \<Rightarrow> bool" for l0 where
  steps_none: "layout_steps l0 l0"
| steps_more: "layout_steps l0 l \<Longrightarrow> layout_step l l' \<Longrightarrow> layout_steps l0 l'"

lemma layout_step_ok: "layout_step l l' \<Longrightarrow> ids_ok l \<Longrightarrow> ids_ok l'"
  by (induction rule: layout_step.induct)
    (auto intro: addElement_ok removeElement_ok clearAll_ok addLayer_ok set_active_ok allocate_ok)

lemma layout_steps_ok: "layout_steps l0 l \<Longrightarrow> ids_ok l0 \<Longrightarrow> ids_ok l"
  by (induction rule: layout_steps.induct) (auto intro: layout_step_ok)

subsection \<open>All layers\<close>

text \<open>\<open>getAllElements\<close>, against which new ids are checked, reads five layers by name, and \<open>addLayer\<close> makes
  others. What holds of every layer: the layers have different ids, and each element, wherever it is, has a valid id.\<close>

definition layers_ok :: "layout \<Rightarrow> bool" where
  "layers_ok l \<longleftrightarrow> distinct (map la_id (ly_layers l)) \<and> be_id ` set (layered_elements l) \<subseteq> valid_ids"

definition added_layers_empty :: "layout \<Rightarrow> bool" where
  "added_layers_empty l \<longleftrightarrow> list_all (\<lambda>x. la_id x \<in> set layer_names \<or> la_elements x = []) (ly_layers l)"

lemma layer_found: "distinct (map la_id xs) \<Longrightarrow> x \<in> set xs \<Longrightarrow> find (\<lambda>y. la_id y = la_id x) xs = Some x"
  by (induction xs) auto

lemma layer_elements_of_held:
  "distinct (map la_id (ly_layers l)) \<Longrightarrow> x \<in> set (ly_layers l) \<Longrightarrow> layer_elements_of l (la_id x) = la_elements x"
  by (simp add: layer_elements_of_def getLayer_def layer_found)

lemma mset_concat_distinct: "distinct ns \<Longrightarrow> mset (concat (map f ns)) = (\<Sum>n\<in>set ns. mset (f n))"
  by (simp add: mset_concat comp_def sum_list_distinct_conv_sum_set)

lemma layered_items:
  assumes d: "distinct (map la_id (ly_layers l))" and w: "well_layered l" and e: "added_layers_empty l"
  shows "mset (layered_elements l) = mset (items l)"
proof -
  let ?xs = "ly_layers l" and ?f = "\<lambda>n. mset (layer_elements_of l n)"
  have "mset (layered_elements l) = (\<Sum>x\<in>set ?xs. mset (la_elements x))"
    unfolding layered_elements_def using d by (simp add: mset_concat_distinct distinct_map)
  also have "\<dots> = (\<Sum>x\<in>set ?xs. ?f (la_id x))" by (simp add: layer_elements_of_held [OF d])
  also have "\<dots> = sum ?f (la_id ` set ?xs)" using d by (simp add: distinct_map sum.reindex comp_def)
  also have "\<dots> = sum ?f (set layer_names)"
  proof (rule sum.mono_neutral_right)
    show "set layer_names \<subseteq> la_id ` set ?xs"
      using w by (auto simp: well_layered_def list_all_iff getLayer_def dest!: find_SomeD)
    show "\<forall>n\<in>la_id ` set ?xs - set layer_names. ?f n = {#}"
      using e by (auto simp: added_layers_empty_def list_all_iff layer_elements_of_held [OF d])
  qed simp
  also have "\<dots> = mset (items l)" unfolding items_def by (simp add: mset_concat_distinct distinct_layer_names)
  finally show ?thesis .
qed

lemma map_la_id [simp]:
  "map la_id (ly_layers (update_ref r f l)) = map la_id (ly_layers l)"
  "map la_id (ly_layers (update_layer n (layer_add e) l)) = map la_id (ly_layers l)"
  "map la_id (ly_layers (removeElement e l)) = map la_id (ly_layers l)"
  "map la_id (ly_layers (clearAll l)) = map la_id (ly_layers l)"
proof -
  have u: "map la_id (update_first (\<lambda>x. la_id x = n) (layer_add e) xs) = map la_id xs" for xs
    by (induction xs) (auto simp: layer_add_def)
  have r: "map la_id (remove_from_layers k xs) = map la_id xs" for k xs by (induction xs) auto
  show "map la_id (ly_layers (update_ref r f l)) = map la_id (ly_layers l)"
    "map la_id (ly_layers (update_layer n (layer_add e) l)) = map la_id (ly_layers l)"
    "map la_id (ly_layers (removeElement e l)) = map la_id (ly_layers l)"
    "map la_id (ly_layers (clearAll l)) = map la_id (ly_layers l)"
    by (simp_all add: update_ref_def update_layer_def removeElement_def clearAll_def layer_clear_def comp_def u r)
qed

lemma set_layered_add: "set (layered_elements (update_layer n (layer_add e) l)) \<subseteq> insert e (set (layered_elements l))"
proof -
  have "set (concat (map la_elements (update_first p (layer_add e) xs))) \<subseteq> insert e (set (concat (map la_elements xs)))" for p xs
    by (induction xs) (auto simp: layer_add_def)
  then show ?thesis by (simp add: layered_elements_def update_layer_def)
qed

lemma set_layered_ref: "set (layered_elements (update_ref r f l)) \<subseteq> set (layered_elements l) \<union> f ` set (layered_elements l)"
  by (auto simp: layered_elements_def update_ref_def)

lemma set_layered_remove: "set (layered_elements (removeElement e l)) \<subseteq> set (layered_elements l)"
proof -
  have f: "set (remove_first r es) \<subseteq> set es" for r es by (induction es) auto
  have "set (concat (map la_elements (remove_from_layers r xs))) \<subseteq> set (concat (map la_elements xs))" for r xs
    by (induction xs) (auto dest: subsetD [OF f])
  then show ?thesis by (simp add: layered_elements_def removeElement_def)
qed

lemma addElement_layers:
  assumes l: "ids_ok l" "layers_ok l" and e: "be_id e \<in> insert 0 valid_ids" and a: "addElement e lid l = Inr l'"
  shows "layers_ok l'"
proof -
  have wl: "well_layered l" "ly_nextElementId l \<in> valid_ids" using l by (simp_all add: ids_ok_def)
  obtain y where y: "(case lid of Some n \<Rightarrow> if n \<noteq> [] then requireLayer l n else activeLayer l | None \<Rightarrow> activeLayer l) = Inr y"
    using a by (auto simp: addElement_def bind_r_Inr)
  have "l' = l \<or> (be_id e \<noteq> 0 \<and> l' = update_layer (la_id y) (layer_add e) l) \<or>
      (\<exists>i l1. allocateElementId l = Inr (i, l1) \<and>
        l' = update_layer (la_id y) (layer_add (set_id (Inl i) e)) (update_ref (it_ref e) (set_id (Inl i)) l1))"
    using a by (auto simp: addElement_def y bind_r_Inr INVALID_LAYOUT_ELEMENT_ID_def split: if_splits)
  then consider "l' = l" | "be_id e \<noteq> 0" "l' = update_layer (la_id y) (layer_add e) l"
    | i l1 where "allocateElementId l = Inr (i, l1)"
        "l' = update_layer (la_id y) (layer_add (set_id (Inl i) e)) (update_ref (it_ref e) (set_id (Inl i)) l1)"
    by blast
  then show ?thesis
  proof cases
    case 2
    then show ?thesis using l e set_layered_add [of "la_id y" e l] by (auto simp: layers_ok_def)
  next
    case (3 i l1)
    from allocate_Inr [OF wl 3(1)] obtain k where "l1 = l\<lparr>ly_nextElementId := k\<rparr>" and v: "i \<in> valid_ids" by blast
    then have h: "layered_elements l1 = layered_elements l" "ly_layers l1 = ly_layers l" by (simp_all add: layered_elements_def)
    from v have n: "normalizeAssignedId (Inl i) = i" by (simp add: normalizeAssignedId_id)
    have "set (layered_elements l') \<subseteq> insert (set_id (Inl i) e) (set (layered_elements l) \<union> set_id (Inl i) ` set (layered_elements l))"
      unfolding 3(2) h(1) [symmetric] by (rule order_trans [OF set_layered_add insert_mono [OF set_layered_ref]])
    then have "be_id ` set (layered_elements l') \<subseteq> insert i (be_id ` set (layered_elements l))"
      by (elim subset_trans [OF image_mono]) (auto simp: n)
    moreover have "map la_id (ly_layers l') = map la_id (ly_layers l)" by (simp add: 3(2) h)
    ultimately show ?thesis using l(2) v by (auto simp: layers_ok_def)
  qed (use l in simp)
qed

lemma addLayer_layers: "layers_ok l \<Longrightarrow> layers_ok (addLayer n m v k l)"
proof -
  assume "layers_ok l"
  moreover have "n \<notin> la_id ` set (ly_layers l)" if "getLayer l n = None"
    using that by (auto simp: getLayer_def find_None_iff)
  ultimately show ?thesis
    by (auto simp: layers_ok_def addLayer_def layered_elements_def new_layer_def split: option.split)
qed

lemma layout_step_layers: "layout_step l l' \<Longrightarrow> ids_ok l \<Longrightarrow> layers_ok l \<Longrightarrow> layers_ok l'"
proof (induction rule: layout_step.induct)
  case (step_add e l lid l')
  then show ?case using addElement_layers by blast
next
  case (step_remove l e)
  then show ?case using set_layered_remove [of e l] by (auto simp: layers_ok_def)
next
  case (step_clear l)
  moreover have "layered_elements (clearAll l) = []"
    by (auto simp: layered_elements_def clearAll_def layer_clear_def)
  ultimately show ?case by (simp add: layers_ok_def)
next
  case (step_layer l n m v k)
  then show ?case by (simp add: addLayer_layers)
next
  case (step_active l v)
  then show ?case by (simp add: layers_ok_def layered_elements_def set_activeLayerId_def)
next
  case (step_allocate l i l')
  then obtain k where "l' = l\<lparr>ly_nextElementId := k\<rparr>" using allocate_Inr [of l i l'] by (auto simp: ids_ok_def)
  then show ?case using step_allocate by (simp add: layers_ok_def layered_elements_def)
qed

lemma layout_steps_layers: "layout_steps l0 l \<Longrightarrow> ids_ok l0 \<Longrightarrow> layers_ok l0 \<Longrightarrow> ids_ok l \<and> layers_ok l"
  by (induction rule: layout_steps.induct) (auto intro: layout_step_ok layout_step_layers)

lemma new_layout_layers: "layers_ok new_layout"
  by (simp add: layers_ok_def layered_elements_def new_layout_def new_layer_def)

subsection \<open>Rebuilding the ids of loaded elements\<close>

text \<open>What the first loop leaves: the first element with a valid id keeps it.\<close>

fun keep_first :: "item list \<Rightarrow> int list \<Rightarrow> item list" where
  "keep_first [] seen = []"
| "keep_first (e # es) seen =
     (if be_id e \<in> valid_ids - set seen then e # keep_first es (set_add (be_id e) seen)
      else set_id (Inl INVALID_LAYOUT_ELEMENT_ID) e # keep_first es seen)"

lemma reset_ids_Cons:
  "reset_ids (e # es) seen m l =
     (if be_id e \<in> valid_ids - set seen then reset_ids es (set_add (be_id e) seen) (max m (be_id e)) l
      else reset_ids es seen m (update_ref (it_ref e) (set_id (Inl INVALID_LAYOUT_ELEMENT_ID)) l))"
  by (auto simp: valid_ids_iff MAX_LAYOUT_ELEMENT_ID_def)

declare reset_ids.simps(2) [simp del] reset_ids_Cons [simp]

lemma reset_ids_items:
  "items l = pre @ es \<Longrightarrow> distinct (map it_ref (items l)) \<Longrightarrow> items (snd (reset_ids es seen m l)) = pre @ keep_first es seen"
proof (induction es arbitrary: pre seen m l)
  case (Cons e es)
  show ?case
  proof (cases "be_id e \<in> valid_ids - set seen")
    case True
    then show ?thesis using Cons.IH [of l "pre @ [e]"] Cons.prems by simp
  next
    case False
    let ?l = "update_ref (it_ref e) (set_id (Inl INVALID_LAYOUT_ELEMENT_ID)) l"
    have "items ?l = (pre @ [set_id (Inl INVALID_LAYOUT_ELEMENT_ID) e]) @ es"
      using Cons.prems by (simp add: at_ref_fresh) (simp add: at_ref_def)
    moreover have "map it_ref (items ?l) = map it_ref (items l)" by (simp add: at_ref_def)
    ultimately have "items (snd (reset_ids es seen m ?l)) = (pre @ [set_id (Inl INVALID_LAYOUT_ELEMENT_ID) e]) @ keep_first es seen"
      using Cons.prems(2) by (intro Cons.IH) simp_all
    moreover have "reset_ids (e # es) seen m l = reset_ids es seen m ?l" using False by (simp only: reset_ids_Cons if_False)
    moreover have "keep_first (e # es) seen = set_id (Inl INVALID_LAYOUT_ELEMENT_ID) e # keep_first es seen"
      using False by (simp only: keep_first.simps if_False)
    ultimately show ?thesis by simp
  qed
qed simp

lemma reset_ids_other:
  "well_layered (snd (reset_ids es seen m l)) = well_layered l"
  "0 \<le> m \<Longrightarrow> 0 \<le> fst (reset_ids es seen m l)"
  by (induction es arbitrary: seen m l) auto

lemma keep_first_nth:
  "i < length es \<Longrightarrow> keep_first es seen ! i =
     (if be_id (es ! i) \<in> valid_ids - set seen - set (take i (map be_id es)) then es ! i
      else set_id (Inl INVALID_LAYOUT_ELEMENT_ID) (es ! i))"
proof (induction es arbitrary: i seen)
  case (Cons e es)
  show ?case
  proof (cases i)
    case (Suc j)
    then show ?thesis using Cons.IH [of j] Cons.prems by auto
  qed simp
qed simp

lemma length_keep_first [simp]: "length (keep_first es seen) = length es"
  by (induction es arbitrary: seen) auto

lemma refs_keep_first [simp]: "map it_ref (keep_first es seen) = map it_ref es"
  by (induction es arbitrary: seen) auto

lemma set_id_zero [simp]: "normalizeAssignedId (Inl INVALID_LAYOUT_ELEMENT_ID) = 0"
  by (simp add: normalizeAssignedId_def INVALID_LAYOUT_ELEMENT_ID_def)

definition assigned :: "item list \<Rightarrow> int list" where
  "assigned es = filter (\<lambda>i. i \<noteq> 0) (map be_id es)"

lemma keep_first_assigned:
  "distinct (assigned (keep_first es seen)) \<and> set (assigned (keep_first es seen)) \<subseteq> valid_ids - set seen"
proof (induction es arbitrary: seen)
  case (Cons e es)
  show ?case
  proof (cases "be_id e \<in> valid_ids - set seen")
    case True
    then have "assigned (keep_first (e # es) seen) = be_id e # assigned (keep_first es (set_add (be_id e) seen))"
      by (auto simp: assigned_def)
    then show ?thesis using Cons.IH [of "set_add (be_id e) seen"] True by auto
  next
    case False
    then have "assigned (keep_first (e # es) seen) = assigned (keep_first es seen)"
      by (simp only: keep_first.simps if_False) (simp add: assigned_def)
    then show ?thesis using Cons.IH [of seen] by simp
  qed
qed (simp add: assigned_def)

text \<open>The state between the two loops and during the second.\<close>

definition repairing :: "layout \<Rightarrow> bool" where
  "repairing l \<longleftrightarrow> well_layered l \<and> ly_nextElementId l \<in> valid_ids \<and> distinct (map it_ref (items l)) \<and>
     distinct (assigned (items l)) \<and> set (assigned (items l)) \<subseteq> valid_ids"

definition repairs :: "item \<Rightarrow> item \<Rightarrow> bool" where
  "repairs e e' \<longleftrightarrow> it_ref e' = it_ref e \<and> (be_id e \<noteq> 0 \<longrightarrow> e' = e)"

lemma repairs_refl: "list_all2 repairs es es"
  by (simp add: list_all2_same repairs_def)

lemma repairs_trans: "list_all2 repairs a b \<Longrightarrow> list_all2 repairs b c \<Longrightarrow> list_all2 repairs a c"
  by (rule list_all2_trans [of repairs repairs repairs]) (auto simp: repairs_def)

lemma assign_one:
  assumes l: "repairing l" and e: "find (\<lambda>e. it_ref e = r) (items l) = Some e" "be_id e = 0"
    and a: "allocateElementId l = Inr (i, l1)"
  shows "repairing (update_ref r (set_id (Inl i)) l1) \<and>
    (\<exists>p q. items l = p @ e # q \<and> items (update_ref r (set_id (Inl i)) l1) = p @ set_id (Inl i) e # q) \<and>
    be_id (set_id (Inl i) e) \<noteq> 0 \<and> it_ref e = r"
proof -
  have wl: "well_layered l" and nx: "ly_nextElementId l \<in> valid_ids" using l by (simp_all add: repairing_def)
  obtain k where k: "k \<in> valid_ids" "l1 = l\<lparr>ly_nextElementId := k\<rparr>" and i: "i \<in> valid_ids" "i \<notin> be_id ` set (items l)"
    using allocate_Inr [OF wl nx a] by auto
  have r: "it_ref e = r" "e \<in> set (items l)" using find_SomeD [OF e(1)] by simp_all
  obtain p q where pq: "items l = p @ e # q" using r(2) by (meson split_list)
  have "r \<notin> it_ref ` set p" "r \<notin> it_ref ` set q" using l r(1) by (auto simp: repairing_def pq)
  then have it: "items (update_ref r (set_id (Inl i)) l1) = p @ set_id (Inl i) e # q"
    using k r by (simp add: pq at_ref_fresh) (simp add: at_ref_def)
  have ni: "be_id (set_id (Inl i) e) = i" using i by (simp add: normalizeAssignedId_id)
  have nz: "i \<noteq> 0" using i by (auto simp: valid_ids_iff)
  have "repairing (update_ref r (set_id (Inl i)) l1)"
    using l i nz k ni e(2) unfolding repairing_def it by (auto simp: pq assigned_def)
  then show ?thesis using pq it ni nz r by auto
qed

lemma assign_missing_ok:
  "repairing l \<Longrightarrow> assign_missing rs l = Inr l' \<Longrightarrow>
     repairing l' \<and> list_all2 repairs (items l) (items l') \<and> (\<forall>e\<in>set (items l'). it_ref e \<in> set rs \<longrightarrow> be_id e \<noteq> 0)"
proof (induction rs arbitrary: l)
  case Nil
  then show ?case by (simp add: repairs_refl)
next
  case (Cons r rs)
  have wl: "well_layered l" using Cons.prems(1) by (simp add: repairing_def)
  show ?case
  proof (cases "find (\<lambda>e. it_ref e = r) (items l)")
    case None
    have "assign_missing rs l = Inr l'" using Cons.prems None by (simp add: getAllElements_items [OF wl])
    note ih = Cons.IH [OF Cons.prems(1) this]
    have "map it_ref (items l') = map it_ref (items l)"
      using ih by (auto simp: list_all2_conv_all_nth repairs_def intro: nth_equalityI)
    then have "it_ref ` set (items l') = it_ref ` set (items l)" by (metis set_map)
    then have "r \<notin> it_ref ` set (items l')" using None by (auto simp: find_None_iff)
    then show ?thesis using ih by auto
  next
    case (Some e)
    have r: "it_ref e = r" "e \<in> set (items l)" using find_SomeD [OF Some] by simp_all
    obtain l1 p q f where l1: "repairing l1" "assign_missing rs l1 = Inr l'" and p: "items l = p @ e # q" "items l1 = p @ f # q"
      and f: "be_id f \<noteq> 0" "repairs e f"
    proof (cases "be_id e = 0")
      case True
      obtain i l2 where a: "allocateElementId l = Inr (i, l2)" and rest: "assign_missing rs (update_ref r (set_id (Inl i)) l2) = Inr l'"
        using Cons.prems Some True by (auto simp: getAllElements_items [OF wl] bind_r_Inr INVALID_LAYOUT_ELEMENT_ID_def)
      from assign_one [OF Cons.prems(1) Some True a] rest show ?thesis
        by (auto simp: repairs_def True intro: that)
    next
      case False
      obtain p q where "items l = p @ e # q" using r(2) by (meson split_list)
      moreover have "assign_missing rs l = Inr l'"
        using Cons.prems Some False by (simp add: getAllElements_items [OF wl] INVALID_LAYOUT_ELEMENT_ID_def)
      ultimately show ?thesis using Cons.prems(1) False by (intro that [of l p q e]) (auto simp: repairs_def)
    qed
    note ih = Cons.IH [OF l1]
    have "list_all2 repairs (items l) (items l1)"
      using f by (simp add: p list_all2_appendI repairs_refl)
    then have "list_all2 repairs (items l) (items l')" using ih repairs_trans by blast
    moreover have "be_id x \<noteq> 0" if x: "x \<in> set (items l')" "it_ref x = r" for x
    proof -
      have f': "repairs f (items l' ! length p)" "length p < length (items l')"
        using ih by (auto simp: p list_all2_conv_all_nth nth_append dest: spec [of _ "length p"])
      then have "items l' ! length p = f" using f by (simp add: repairs_def)
      moreover obtain j where j: "j < length (items l')" "x = items l' ! j" using x(1) by (auto simp: in_set_conv_nth)
      moreover have "distinct (map it_ref (items l'))" using ih by (simp add: repairing_def)
      moreover have "it_ref f = r" using f r by (simp add: repairs_def)
      ultimately show ?thesis using f f' x(2) by (metis distinct_conv_nth length_map nth_map)
    qed
    ultimately show ?thesis using ih by auto
  qed
qed

lemma assign_missing_fails:
  "repairing l \<Longrightarrow> assign_missing rs l = Inl m \<Longrightarrow> 65535 < length (items l)"
proof (induction rs arbitrary: l)
  case (Cons r rs)
  have wl: "well_layered l" and nx: "ly_nextElementId l \<in> valid_ids" using Cons.prems(1) by (simp_all add: repairing_def)
  show ?case
  proof (cases "find (\<lambda>e. it_ref e = r) (items l)")
    case None
    then show ?thesis using Cons by (simp add: getAllElements_items [OF wl])
  next
    case (Some e)
    have e: "e \<in> set (items l)" using find_SomeD [OF Some] by simp
    show ?thesis
    proof (cases "be_id e = 0")
      case False
      then show ?thesis using Cons Some by (simp add: getAllElements_items [OF wl] INVALID_LAYOUT_ELEMENT_ID_def)
    next
      case zero: True
      show ?thesis
      proof (cases "allocateElementId l")
        case (Inl m')
        have "valid_ids \<subseteq> be_id ` set (items l)" by (rule allocate_Inl [OF wl nx Inl])
        moreover have "0 \<in> be_id ` set (items l)" using e zero by force
        ultimately have "card (insert 0 valid_ids) \<le> card (be_id ` set (items l))" by (intro card_mono) auto
        also have "\<dots> \<le> length (items l)" by (metis card_length length_map set_map)
        finally show ?thesis by (simp add: card_valid_ids)
      next
        case (Inr ir)
        obtain i l1 where a: "allocateElementId l = Inr (i, l1)" using Inr by (cases ir) auto
        have rest: "assign_missing rs (update_ref r (set_id (Inl i)) l1) = Inl m"
          using Cons.prems(2) Some zero a by (simp add: getAllElements_items [OF wl] INVALID_LAYOUT_ELEMENT_ID_def)
        note one = assign_one [OF Cons.prems(1) Some zero a]
        have "65535 < length (items (update_ref r (set_id (Inl i)) l1))" by (rule Cons.IH [OF _ rest]) (use one in simp)
        moreover obtain p q where "items l = p @ e # q" "items (update_ref r (set_id (Inl i)) l1) = p @ set_id (Inl i) e # q"
          using one by blast
        then have "length (items (update_ref r (set_id (Inl i)) l1)) = length (items l)"
          by (simp del: items_update_ref)
        ultimately show ?thesis by simp
      qed
    qed
  qed
qed simp

lemma ids_ok_few: "ids_ok l \<Longrightarrow> length (items l) \<le> 65535"
proof -
  assume l: "ids_ok l"
  then have "card (set (map be_id (items l))) = length (items l)" by (simp add: ids_ok_def distinct_card del: set_map)
  moreover have "card (set (map be_id (items l))) \<le> card valid_ids" using l by (intro card_mono) (simp_all add: ids_ok_def)
  ultimately show ?thesis by (simp add: card_valid_ids)
qed

definition first_valid :: "int list \<Rightarrow> nat \<Rightarrow> bool" where
  "first_valid is i \<longleftrightarrow> is ! i \<in> valid_ids \<and> is ! i \<notin> set (take i is)"

lemma assigned_all: "\<forall>e\<in>set es. be_id e \<noteq> 0 \<Longrightarrow> assigned es = map be_id es"
  by (simp add: assigned_def filter_id_conv)

lemma rebuild_state:
  assumes l: "well_layered l" "distinct (map it_ref (items l))"
  obtains l2 where "repairing l2" and "items l2 = keep_first (items l) []"
    and "rebuildElementIdSequence l = assign_missing (map it_ref (items l)) l2"
proof -
  obtain m l1 where r: "reset_ids (items l) [] 0 l = (m, l1)" by fastforce
  let ?l2 = "l1\<lparr>ly_nextElementId := (if m \<ge> MAX_LAYOUT_ELEMENT_ID then 1 else m + 1)\<rparr>"
  have it: "items l1 = keep_first (items l) []" using reset_ids_items [of l "[]" "items l" "[]" 0] l r by simp
  have m: "0 \<le> m" "well_layered l1" using reset_ids_other [where es = "items l" and seen = "[]" and m = 0 and l = l] l r by simp_all
  have "distinct (map it_ref (items l1))" using l it by simp
  then have "repairing ?l2"
    using keep_first_assigned [of "items l" "[]"] m by (auto simp: repairing_def it valid_ids_iff MAX_LAYOUT_ELEMENT_ID_def)
  moreover have "items ?l2 = keep_first (items l) []" using it by simp
  moreover have "rebuildElementIdSequence l = assign_missing (map it_ref (items l)) ?l2"
    unfolding rebuildElementIdSequence_def getAllElements_items [OF l(1)] by (simp add: r del: Set.filter_eq)
  ultimately show ?thesis by (rule that)
qed

lemma rebuild_result:
  assumes l: "well_layered l" "distinct (map it_ref (items l))" and r: "rebuildElementIdSequence l = Inr l'"
  shows "ids_ok l'" and "map it_ref (items l') = map it_ref (items l)"
    and "i < length (items l) \<Longrightarrow> first_valid (map be_id (items l)) i \<Longrightarrow> items l' ! i = items l ! i"
proof -
  obtain l2 where l2: "repairing l2" "items l2 = keep_first (items l) []" "assign_missing (map it_ref (items l)) l2 = Inr l'"
    using rebuild_state [OF l] r by metis
  note ok = assign_missing_ok [OF l2(1,3)]
  have all: "list_all2 repairs (keep_first (items l) []) (items l')" using ok l2(2) by simp
  have "map it_ref (items l') = map it_ref (keep_first (items l) [])"
    using all by (intro nth_equalityI) (auto simp: list_all2_conv_all_nth repairs_def simp del: refs_keep_first)
  then show refs: "map it_ref (items l') = map it_ref (items l)" by simp
  have "it_ref ` set (items l') = it_ref ` set (items l)" using refs by (metis set_map)
  then have "\<forall>e\<in>set (items l'). be_id e \<noteq> 0" using ok by auto
  then show "ids_ok l'" using ok assigned_all [of "items l'"] by (simp add: repairing_def ids_ok_def)
  show "items l' ! i = items l ! i" if i: "i < length (items l)" "first_valid (map be_id (items l)) i"
  proof -
    have k: "keep_first (items l) [] ! i = items l ! i" using i by (auto simp: keep_first_nth first_valid_def)
    have "be_id (items l ! i) \<noteq> 0" using i by (auto simp: first_valid_def valid_ids_iff)
    then show ?thesis using all i k by (auto simp: list_all2_conv_all_nth repairs_def)
  qed
qed

lemma rebuild_fails:
  assumes "well_layered l" "distinct (map it_ref (items l))" and "rebuildElementIdSequence l = Inl m"
  shows "65535 < length (items l)"
proof -
  obtain l2 where "repairing l2" "items l2 = keep_first (items l) []" "assign_missing (map it_ref (items l)) l2 = Inl m"
    using rebuild_state [OF assms(1,2)] assms(3) by metis
  then show ?thesis using assign_missing_fails by fastforce
qed

subsection \<open>Bounds\<close>

lemma extend_bounds_fold:
  "extend_bounds b es =
     \<lparr>lb_minX = fold (\<lambda>e a. min a (r_x (getBounds e))) es (lb_minX b), lb_minY = fold (\<lambda>e a. min a (r_y (getBounds e))) es (lb_minY b),
      lb_maxX = fold (\<lambda>e a. max a (r_x (getBounds e) + r_width (getBounds e) - 1)) es (lb_maxX b),
      lb_maxY = fold (\<lambda>e a. max a (r_y (getBounds e) + r_height (getBounds e) - 1)) es (lb_maxY b)\<rparr>"
  by (induction b es rule: extend_bounds.induct) (simp_all add: Let_def)

lemma fold_min: "fold (\<lambda>e a. min a (f e)) es (a::int) = Min (insert a (f ` set es))"
proof -
  have "fold (\<lambda>e a. min a (f e)) es a = fold min (map f es) a"
    by (induction es arbitrary: a) (simp_all add: min.commute)
  then show ?thesis using Min.set_eq_fold [of a "map f es"] by simp
qed

lemma fold_max: "fold (\<lambda>e a. max a (f e)) es (a::int) = Max (insert a (f ` set es))"
proof -
  have "fold (\<lambda>e a. max a (f e)) es a = fold max (map f es) a"
    by (induction es arbitrary: a) (simp_all add: max.commute)
  then show ?thesis using Max.set_eq_fold [of a "map f es"] by simp
qed

lemma getLayoutBounds_cases:
  "getLayoutBounds l =
     (if \<not> well_layered l then getLayoutBounds l
      else case items l of [] \<Rightarrow> Inr None
      | e # rest \<Rightarrow> let bs = map getBounds (items l) in
          Inr (Some \<lparr>lb_minX = Min (r_x ` set bs), lb_minY = Min (r_y ` set bs), lb_maxX = Max ((\<lambda>r. r_x r + r_width r - 1) ` set bs),
                     lb_maxY = Max ((\<lambda>r. r_y r + r_height r - 1) ` set bs)\<rparr>))"
  by (simp add: getLayoutBounds_def getAllElements_items extend_bounds_fold fold_min fold_max Let_def image_image split: list.split)

lemma getAllElements_Inl: "getAllElements l = Inl m \<Longrightarrow> \<not> well_layered l"
  using getAllElements_items [of l] by auto

subsection \<open>Properties\<close>

definition sample_item :: "nat \<Rightarrow> int \<Rightarrow> item" where
  "sample_item r i = base_element.extend ((new_base TRACK_STRAIGHT ''t'' ''track'' 45 (int r) 0)\<lparr>be_id := i\<rparr>) \<lparr>it_ref = r\<rparr>"

definition sample_layout :: "item list \<Rightarrow> layout" where
  "sample_layout es = update_layer ''track'' (\<lambda>x. x\<lparr>la_elements := es\<rparr>) new_layout"

lemmas sample_defs = sample_layout_def new_layout_def new_layer_def update_layer_def items_def layer_elements_of_def
  layer_names_def getLayer_def well_layered_def sample_item_def new_base_def base_element.defs

lemma sample_facts:
  "items (sample_layout es) = es" "well_layered (sample_layout es)" "ly_nextElementId (sample_layout es) = 1"
  "it_ref (sample_item r i) = r" "be_id (sample_item r i) = i"
  by (simp_all add: sample_defs)

text \<open>An id that the layout allocates is valid and belongs to no element; the layout keeps its elements.
  It throws exactly when all 65535 ids are in use.\<close>

theorem allocated_ids:
  assumes "well_layered l" and "ly_nextElementId l \<in> valid_ids"
  shows "(case allocateElementId l of
           Inr (i, l') \<Rightarrow> i \<in> valid_ids \<and> i \<notin> be_id ` set (items l) \<and> items l' = items l \<and> ly_nextElementId l' \<in> valid_ids
         | Inl m \<Rightarrow> valid_ids \<subseteq> be_id ` set (items l)) \<and>
         ((\<exists>m. allocateElementId l = Inl m) \<longleftrightarrow> valid_ids \<subseteq> be_id ` set (items l))"
proof (cases "allocateElementId l")
  case (Inl m)
  then show ?thesis using allocate_Inl [OF assms Inl] by simp
next
  case (Inr r)
  obtain i l' where r: "r = (i, l')" by (cases r)
  from allocate_Inr [OF assms, of i l'] Inr r show ?thesis by auto
qed

theorem allocated_ids_witness:
  "\<exists>i l'. allocateElementId (sample_layout [sample_item 1 1]) = Inr (i, l') \<and> i \<in> valid_ids - {1}"
proof -
  have n: "\<not> valid_ids \<subseteq> {1}" using valid_ids_iff [of 2] by auto
  from allocated_ids [of "sample_layout [sample_item 1 1]"] n show ?thesis
    by (auto simp: sample_facts valid_ids_iff split: sum.splits)
qed

text \<open>An added layer is not among those the layout checks a new id against: a second element with an id that an
  element of an added layer has keeps it.\<close>

lemma added_layer_repeats_id:
  "case bind_r (addElement (sample_item 1 5) (Some ''extra'') (addLayer ''extra'' ''Extra'' None None new_layout))
     (addElement (sample_item 2 5) (Some ''track'')) of Inr l \<Rightarrow> map be_id (layered_elements l) = [5, 5] | Inl m \<Rightarrow> False"
  by (simp add: addElement_def addLayer_def getAllElements_items INVALID_LAYOUT_ELEMENT_ID_def requireLayer_def
      layer_add_def sample_defs layered_elements_def)

text \<open>C9. Whatever sequence of additions, removals, clearing, new layers, activations and allocations happens
  to a layout, the elements of its five standard layers, those that getAllElements reads, keep valid
  ids of their own, and no two layers have the same id and every element of any layer has a valid id. When no added layer holds
  an element, no two elements of the whole layout have the same id; an added layer that does can repeat one.\<close>

theorem layout_ids_unique:
  assumes "layout_steps l0 l" and "ids_ok l0" and "layers_ok l0"
  shows "ids_ok l \<and> layers_ok l \<and> (added_layers_empty l \<longrightarrow> distinct (map be_id (layered_elements l)))"
proof -
  note l = layout_steps_layers [OF assms]
  have "distinct (map be_id (layered_elements l))" if "added_layers_empty l"
  proof -
    have "mset (map be_id (layered_elements l)) = mset (map be_id (items l))"
      using layered_items [of l] l that by (simp add: layers_ok_def ids_ok_def)
    moreover have "distinct (map be_id (items l))" using l by (simp add: ids_ok_def)
    ultimately show ?thesis using mset_eq_imp_distinct_iff by blast
  qed
  with l show ?thesis by blast
qed

theorem layout_ids_unique_witness:
  "\<exists>l. addElement (sample_item 1 0) None new_layout = Inr l \<and> map be_id (items (removeElement (sample_item 5 0) l)) = [1] \<and>
     ids_ok (removeElement (sample_item 5 0) l) \<and> distinct (map be_id (layered_elements (removeElement (sample_item 5 0) l)))"
proof -
  have s: "scan 65535 f c = (if f c then Some c else scan 65534 f (next_id c))" for f c
    using scan.simps(2) [of 65534 f c] by simp
  let ?l = "(sample_layout [sample_item 1 1])\<lparr>ly_nextElementId := 2\<rparr>"
  have a: "addElement (sample_item 1 0) None new_layout = Inr ?l"
    by (simp add: addElement_def activeLayer_def allocateElementId_def getAllElements_items allocate_loop_scan s
        INVALID_LAYOUT_ELEMENT_ID_def next_id_def MAX_LAYOUT_ELEMENT_ID_def set_id_def normalizeAssignedId_id valid_ids_iff
        update_ref_def layer_add_def sample_defs)
  have "layout_step new_layout ?l"
    by (rule step_add [OF _ _ a]) (simp_all add: sample_facts, simp add: sample_defs)
  then have "layout_steps new_layout (removeElement (sample_item 5 0) ?l)"
    by (rule steps_more [OF steps_more [OF steps_none] step_remove])
  note u = layout_ids_unique [OF this new_layout_ok new_layout_layers]
  have "added_layers_empty (removeElement (sample_item 5 0) ?l)"
    by (simp add: added_layers_empty_def removeElement_def sample_defs)
  with u a show ?thesis
    by (intro exI [of _ ?l]) (simp add: removeElement_def sample_defs)
qed

text \<open>Rebuilding the ids of a loaded layout leaves every element with a valid id of its own, in the same
  order, and leaves the first element that has a valid id unchanged; it throws only when there are more elements than ids.\<close>

theorem rebuild_ids:
  assumes "well_layered l" and "distinct (map it_ref (items l))"
  shows "case rebuildElementIdSequence l of
      Inl m \<Rightarrow> 65535 < length (items l)
    | Inr l' \<Rightarrow> length (items l) \<le> 65535 \<and> ids_ok l' \<and> map it_ref (items l') = map it_ref (items l) \<and>
        list_all (\<lambda>i. \<not> first_valid (map be_id (items l)) i \<or> items l' ! i = items l ! i) [0..<length (items l)]"
proof (cases "rebuildElementIdSequence l")
  case (Inl m)
  then show ?thesis using rebuild_fails [OF assms Inl] by simp
next
  case (Inr l')
  note r = rebuild_result [OF assms Inr]
  have "length (items l') = length (items l)" using r(2) by (metis length_map)
  then show ?thesis using Inr r ids_ok_few [OF r(1)] by (auto simp: list_all_iff)
qed

theorem rebuild_ids_witness:
  "\<exists>l'. rebuildElementIdSequence (sample_layout [sample_item 1 7, sample_item 2 7, sample_item 3 0]) = Inr l' \<and> ids_ok l' \<and>
     map it_ref (items l') = [1, 2, 3] \<and> be_id (items l' ! 0) = 7"
proof -
  let ?l = "sample_layout [sample_item 1 7, sample_item 2 7, sample_item 3 0]"
  have r: "case rebuildElementIdSequence ?l of Inl m \<Rightarrow> 65535 < length (items ?l)
    | Inr l' \<Rightarrow> length (items ?l) \<le> 65535 \<and> ids_ok l' \<and> map it_ref (items l') = map it_ref (items ?l) \<and>
        list_all (\<lambda>i. \<not> first_valid (map be_id (items ?l)) i \<or> items l' ! i = items ?l ! i) [0..<length (items ?l)]"
    by (rule rebuild_ids) (simp_all add: sample_facts)
  have f: "first_valid [7, 7, 0] 0" by (simp add: first_valid_def valid_ids_iff)
  from r show ?thesis
    by (cases "rebuildElementIdSequence ?l") (auto simp: sample_facts upt_rec f)
qed

text \<open>The bounds of a layout are the smallest and largest cell coordinates that its elements' bounds reach;
  they exist unless the layout has no elements.\<close>

theorem layout_bounds_exact:
  assumes "well_layered l"
  shows "getLayoutBounds l =
     (if items l = [] then Inr None
      else let bs = getBounds ` set (items l) in
          Inr (Some \<lparr>lb_minX = Min (r_x ` bs), lb_minY = Min (r_y ` bs), lb_maxX = Max ((\<lambda>r. r_x r + r_width r - 1) ` bs),
                     lb_maxY = Max ((\<lambda>r. r_y r + r_height r - 1) ` bs)\<rparr>))"
  using getLayoutBounds_cases [of l] assms by (auto simp: Let_def split: list.splits)

theorem layout_bounds_exact_witness:
  "getLayoutBounds (sample_layout [sample_item 3 1, sample_item 8 2]) =
     Inr (Some \<lparr>lb_minX = 3, lb_minY = 0, lb_maxX = 8, lb_maxY = 0\<rparr>)"
  by (subst layout_bounds_exact) (simp_all add: sample_facts, simp add: sample_item_def getBounds_def base_getBounds_def mk_rect_def Let_def new_base_def base_element.defs)

text \<open>The element found at a grid cell is one of the layout's that the cell hits, and every element after
  it in drawing order (buildings over sensors over signals over blocks over track) misses the cell.\<close>

theorem element_at_grid_topmost:
  assumes "well_layered l"
  shows "case getElementAtGrid x y l of
      Inl m \<Rightarrow> False
    | Inr None \<Rightarrow> list_all (\<lambda>e. \<not> hitTest e x y) (items l)
    | Inr (Some e) \<Rightarrow> hitTest e x y \<and> (\<exists>below above. items l = below @ e # above \<and> list_all (\<lambda>f. \<not> hitTest f x y) above)"
proof (cases "find (\<lambda>e. hitTest e x y) (rev (items l))")
  case None
  then have "list_all (\<lambda>e. \<not> hitTest e x y) (items l)" by (auto simp: find_None_iff list_all_iff)
  with None show ?thesis unfolding getElementAtGrid_def getAllElements_items [OF assms] bind_r_simps None by simp
next
  case (Some e)
  from find_split [OF Some] obtain ys zs where "rev (items l) = ys @ e # zs" "list_all (\<lambda>f. \<not> hitTest f x y) ys" "hitTest e x y"
    by blast
  moreover from this(1) have "items l = rev zs @ e # rev ys"
    by (metis rev_rev_ident rev_append rev.simps(2) append_assoc append_Cons append_Nil)
  ultimately have "\<exists>below above. items l = below @ e # above \<and> list_all (\<lambda>f. \<not> hitTest f x y) above"
    by (metis list_all_rev)
  then show ?thesis
    unfolding getElementAtGrid_def getAllElements_items [OF assms] bind_r_simps Some using find_SomeD [OF Some] by simp
qed

theorem element_at_grid_topmost_witness:
  "getElementAtGrid 3 0 (sample_layout [sample_item 3 1, (sample_item 3 2)\<lparr>it_ref := 9\<rparr>]) = Inr (Some ((sample_item 3 2)\<lparr>it_ref := 9\<rparr>)) \<and>
   (\<exists>below. items (sample_layout [sample_item 3 1, (sample_item 3 2)\<lparr>it_ref := 9\<rparr>]) = below @ [(sample_item 3 2)\<lparr>it_ref := 9\<rparr>])"
proof -
  let ?l = "sample_layout [sample_item 3 1, (sample_item 3 2)\<lparr>it_ref := 9\<rparr>]"
  have g: "getElementAtGrid 3 0 ?l = Inr (Some ((sample_item 3 2)\<lparr>it_ref := 9\<rparr>))"
    by (simp add: getElementAtGrid_def getAllElements_items sample_facts)
      (simp add: sample_item_def hitTest_def getBounds_def base_getBounds_def mk_rect_def Let_def new_base_def base_element.defs)
  show ?thesis using element_at_grid_topmost [of ?l 3 0] g by (auto simp: sample_facts)
qed

end
