(* ===== verification/JsonText.thy ===== *)
theory JsonText
  imports JsValue
begin

text \<open>
  \<open>JSON.stringify\<close> and \<open>JSON.parse\<close> of the language, as far as the sources use them. What is written
  are null, booleans, whole numbers, strings, arrays and objects with their keys in order (type
  \<open>json\<close>); whole numbers of 22 digits and more, which the language writes with an exponent, do not
  occur. What is read is any JSON text over Latin-1 code units; an escape \<open>\u\<close> beyond them
  is not represented and counts as a syntax error. The fuel of the reader is the length of the text, each nested value
  consumes at least one character. The reader inverts the writer (\<open>json_parse_stringify\<close>).
\<close>

subsection \<open>Writing\<close>

datatype json = TNull | TBool bool | TInt int | TStr string | TArr "json list" | TObj "(string \<times> json) list"

definition hex_digit :: "nat \<Rightarrow> char" where
  "hex_digit d = (if d < 10 then digit_char d else char_of (87 + d))"

definition escape :: "char \<Rightarrow> string" where
  "escape c =
     (let n = (of_char c :: nat) in
      if c = CHR 0x22 then [CHR 0x5C, CHR 0x22] else if c = CHR 0x5C then [CHR 0x5C, CHR 0x5C]
      else if n = 8 then [CHR 0x5C, CHR ''b''] else if n = 9 then [CHR 0x5C, CHR ''t''] else if n = 10 then [CHR 0x5C, CHR ''n'']
      else if n = 12 then [CHR 0x5C, CHR ''f''] else if n = 13 then [CHR 0x5C, CHR ''r'']
      else if n < 32 then [CHR 0x5C, CHR ''u'', CHR ''0'', CHR ''0'', hex_digit (n div 16), hex_digit (n mod 16)] else [c])"

definition quote :: "string \<Rightarrow> string" where
  "quote s = CHR 0x22 # concat (map escape s) @ [CHR 0x22]"

fun json_stringify :: "json \<Rightarrow> string" where
  "json_stringify TNull = ''null''"
| "json_stringify (TBool b) = (if b then ''true'' else ''false'')"
| "json_stringify (TInt i) = show_int i"
| "json_stringify (TStr s) = quote s"
| "json_stringify (TArr xs) = CHR ''['' # join_with '','' (map json_stringify xs) @ [CHR '']'']"
| "json_stringify (TObj kvs) =
     CHR ''{'' # join_with '','' (map (\<lambda>(k, v). quote k @ CHR '':'' # json_stringify v) kvs) @ [CHR ''}'']"

fun json_value :: "json \<Rightarrow> jsval" where
  "json_value TNull = JNull"
| "json_value (TBool b) = JBool b"
| "json_value (TInt i) = js_int i"
| "json_value (TStr s) = JStr s"
| "json_value (TArr xs) = JArr (map json_value xs)"
| "json_value (TObj kvs) = JObj (map (\<lambda>(k, v). (k, json_value v)) kvs)"

subsection \<open>Reading\<close>

definition json_space :: "char \<Rightarrow> bool" where
  "json_space c = (of_char c \<in> {9, 10, 13, 32 :: nat})"

definition unescape :: "char \<Rightarrow> char option" where
  "unescape c =
     (if c = CHR 0x22 \<or> c = CHR 0x5C \<or> c = CHR ''/'' then Some c else if c = CHR ''b'' then Some (CHR 0x08)
      else if c = CHR ''t'' then Some (CHR 0x09) else if c = CHR ''n'' then Some (CHR 0x0A) else if c = CHR ''f'' then Some (CHR 0x0C)
      else if c = CHR ''r'' then Some (CHR 0x0D) else None)"

definition hex_char :: "string \<Rightarrow> char option" where
  "hex_char s =
     (let ds = take 4 s; n = fold (\<lambda>c n. 16 * n + radix_val c) ds 0
      in if length ds = 4 \<and> list_all (\<lambda>c. radix_val c < 16) ds \<and> n < 256 then Some (char_of n) else None)"

definition cons_fst :: "'a \<Rightarrow> ('a list \<times> 'b) option \<Rightarrow> ('a list \<times> 'b) option" where
  "cons_fst x r = map_option (map_prod (Cons x) id) r"

fun parse_chars :: "nat \<Rightarrow> string \<Rightarrow> (string \<times> string) option" where
  "parse_chars 0 s = None"
| "parse_chars (Suc n) [] = None"
| "parse_chars (Suc n) (c # s) =
     (if c = CHR 0x22 then Some ([], s)
      else if c = CHR 0x5C
      then (case s of
              [] \<Rightarrow> None
            | e # t \<Rightarrow>
                if e = CHR ''u'' then (case hex_char t of None \<Rightarrow> None | Some u \<Rightarrow> cons_fst u (parse_chars n (drop 4 t)))
                else (case unescape e of None \<Rightarrow> None | Some u \<Rightarrow> cons_fst u (parse_chars n t)))
      else if (of_char c :: nat) < 32 then None
      else cons_fst c (parse_chars n s))"

definition parse_unsigned :: "string \<Rightarrow> (rat \<times> string) option" where
  "parse_unsigned t =
     (let whole = takeWhile is_digit t; t1 = dropWhile is_digit t;
          dotted = (t1 \<noteq> [] \<and> hd t1 = CHR ''.'');
          frac = (if dotted then takeWhile is_digit (tl t1) else []);
          t2 = (if dotted then dropWhile is_digit (tl t1) else t1);
          exponent = (t2 \<noteq> [] \<and> (hd t2 = CHR ''e'' \<or> hd t2 = CHR ''E''));
          t3 = (if exponent then tl t2 else t2);
          esigned = (exponent \<and> t3 \<noteq> [] \<and> (hd t3 = CHR ''-'' \<or> hd t3 = CHR ''+''));
          eminus = (esigned \<and> hd t3 = CHR ''-'');
          t4 = (if esigned then tl t3 else t3);
          eds = (if exponent then takeWhile is_digit t4 else []);
          rest = (if exponent then dropWhile is_digit t4 else t4);
          e = (if eminus then - int (read_digits eds) else int (read_digits eds))
      in if whole = [] \<or> (hd whole = CHR ''0'' \<and> length whole > 1) \<or> (dotted \<and> frac = []) \<or> (exponent \<and> eds = []) then None
         else Some ((of_nat (read_digits whole) + of_nat (read_digits frac) / 10 ^ length frac) * power10 e, rest))"

definition parse_number :: "string \<Rightarrow> (jsval \<times> string) option" where
  "parse_number s =
     (if s \<noteq> [] \<and> hd s = CHR ''-'' then map_option (\<lambda>(r, t). (JNum (Fin (- r)), t)) (parse_unsigned (tl s))
      else map_option (\<lambda>(r, t). (JNum (Fin r), t)) (parse_unsigned s))"

definition strip_prefix :: "string \<Rightarrow> string \<Rightarrow> string option" where
  "strip_prefix p s = (if take (length p) s = p then Some (drop (length p) s) else None)"

definition skip_space :: "string \<Rightarrow> string" where
  "skip_space s = dropWhile json_space s"

text \<open>Of several fields with one name the last one counts, in the place of the first.\<close>

definition object_of :: "(string \<times> jsval) list \<Rightarrow> jsval" where
  "object_of kvs = JObj (fold (\<lambda>(k, v) o'. AList.update k v o') kvs [])"

fun parse_value :: "nat \<Rightarrow> string \<Rightarrow> (jsval \<times> string) option"
  and parse_elements :: "nat \<Rightarrow> string \<Rightarrow> (jsval list \<times> string) option"
  and parse_fields :: "nat \<Rightarrow> string \<Rightarrow> ((string \<times> jsval) list \<times> string) option" where
  "parse_value 0 s = None"
| "parse_value (Suc n) s =
     (case skip_space s of
        [] \<Rightarrow> None
      | c # t \<Rightarrow>
          if c = CHR 0x22 then map_option (map_prod JStr id) (parse_chars (length t) t)
          else if c = CHR ''[''
          then (if skip_space t \<noteq> [] \<and> hd (skip_space t) = CHR '']'' then Some (JArr [], tl (skip_space t))
                else map_option (map_prod JArr id) (parse_elements n t))
          else if c = CHR ''{''
          then (if skip_space t \<noteq> [] \<and> hd (skip_space t) = CHR ''}'' then Some (JObj [], tl (skip_space t))
                else map_option (map_prod object_of id) (parse_fields n t))
          else if c = CHR ''t'' then map_option (Pair (JBool True)) (strip_prefix ''true'' (c # t))
          else if c = CHR ''f'' then map_option (Pair (JBool False)) (strip_prefix ''false'' (c # t))
          else if c = CHR ''n'' then map_option (Pair JNull) (strip_prefix ''null'' (c # t))
          else parse_number (c # t))"
| "parse_elements 0 s = None"
| "parse_elements (Suc n) s =
     (case parse_value n s of
        None \<Rightarrow> None
      | Some (v, t) \<Rightarrow>
          (case skip_space t of
             [] \<Rightarrow> None
           | d # u \<Rightarrow> if d = CHR '','' then cons_fst v (parse_elements n u) else if d = CHR '']'' then Some ([v], u) else None))"
| "parse_fields 0 s = None"
| "parse_fields (Suc n) s =
     (case skip_space s of
        [] \<Rightarrow> None
      | c # t \<Rightarrow>
          if c \<noteq> CHR 0x22 then None
          else (case parse_chars (length t) t of
                  None \<Rightarrow> None
                | Some (k, u) \<Rightarrow>
                    (case skip_space u of
                       [] \<Rightarrow> None
                     | d # w \<Rightarrow>
                         if d \<noteq> CHR '':'' then None
                         else (case parse_value n w of
                                 None \<Rightarrow> None
                               | Some (v, x) \<Rightarrow>
                                   (case skip_space x of
                                      [] \<Rightarrow> None
                                    | f # y \<Rightarrow> if f = CHR '','' then cons_fst (k, v) (parse_fields n y)
                                        else if f = CHR ''}'' then Some ([(k, v)], y) else None)))))"

text \<open>\<open>Inl\<close> is the \<open>SyntaxError\<close>.\<close>

definition json_parse :: "string \<Rightarrow> string + jsval" where
  "json_parse s =
     (case parse_value (length s + 1) s of
        Some (v, rest) \<Rightarrow> if skip_space rest = [] then Inr v else Inl ''SyntaxError''
      | None \<Rightarrow> Inl ''SyntaxError'')"

subsection \<open>Reading what was written\<close>

lemma of_char_eq: "of_char c = (n :: nat) \<Longrightarrow> n < 256 \<Longrightarrow> c = char_of n"
  by (metis char_of_char)

lemma control_chars:
  "char_of (8 :: nat) = CHR 0x08" "char_of (9 :: nat) = CHR 0x09" "char_of (10 :: nat) = CHR 0x0A" "char_of (12 :: nat) = CHR 0x0C"
  "char_of (13 :: nat) = CHR 0x0D"
  by code_simp+

lemma radix_hex_digit: "d < 16 \<Longrightarrow> radix_val (hex_digit d) = d"
proof -
  assume d: "d < 16"
  show ?thesis
  proof (cases "d < 10")
    case True
    then show ?thesis by (simp add: hex_digit_def radix_val_def of_char_digit_char)
  next
    case False
    then have "(of_char (char_of (87 + d) :: char) :: nat) = 87 + d" using d by simp
    then show ?thesis using False d by (simp add: hex_digit_def radix_val_def)
  qed
qed

lemma hex_char_escape:
  assumes "n < 32"
  shows "hex_char (CHR ''0'' # CHR ''0'' # hex_digit (n div 16) # hex_digit (n mod 16) # t) = Some (char_of n)"
proof -
  have "n div 16 < 16" "n mod 16 < 16" using assms by auto
  moreover have "radix_val CHR ''0'' = 0" by (simp add: radix_val_def)
  ultimately show ?thesis using assms by (simp add: hex_char_def Let_def radix_hex_digit)
qed

lemma parse_escape: "parse_chars (Suc n) (escape c @ t) = cons_fst c (parse_chars n t)"
proof -
  let ?n = "of_char c :: nat"
  have c: "c = char_of ?n" by simp
  consider "c \<in> {CHR 0x22, CHR 0x5C}" | "?n \<in> {8, 9, 10, 12, 13}" | "?n < 32" "?n \<notin> {8, 9, 10, 12, 13}" "c \<notin> {CHR 0x22, CHR 0x5C}"
    | "32 \<le> ?n" "c \<notin> {CHR 0x22, CHR 0x5C}"
    by linarith
  then show ?thesis
  proof cases
    case 1
    then show ?thesis by (auto simp: escape_def unescape_def)
  next
    case 2
    then have "c \<in> char_of ` {8, 9, 10, 12, 13 :: nat}" using c by (metis image_eqI)
    then have "c \<in> {CHR 0x08, CHR 0x09, CHR 0x0A, CHR 0x0C, CHR 0x0D}" by (simp only: image_insert image_empty control_chars)
    then show ?thesis by (auto simp: escape_def unescape_def)
  next
    case 3
    then have "escape c = [CHR 0x5C, CHR ''u'', CHR ''0'', CHR ''0'', hex_digit (?n div 16), hex_digit (?n mod 16)]"
      by (auto simp: escape_def Let_def)
    then show ?thesis using hex_char_escape [OF 3(1)] by simp
  next
    case 4
    then show ?thesis by (auto simp: escape_def Let_def)
  qed
qed

lemma length_escape: "0 < length (escape c)"
  by (simp add: escape_def Let_def)

lemma parse_chars_quoted:
  "length (concat (map escape s)) < n \<Longrightarrow> parse_chars n (concat (map escape s) @ CHR 0x22 # rest) = Some (s, rest)"
proof (induction s arbitrary: n)
  case Nil
  then show ?case by (cases n) simp_all
next
  case (Cons c s)
  then obtain m where n: "n = Suc m" by (cases n) auto
  have "length (concat (map escape s)) < m" using Cons.prems length_escape [of c] by (simp add: n del: length_greater_0_conv)
  then show ?case by (simp add: n parse_escape Cons.IH cons_fst_def)
qed

lemma hd_show_nat: "hd (show_nat n) = CHR ''0'' \<longleftrightarrow> n = 0"
proof (induction n rule: show_nat.induct)
  case (1 n)
  show ?case
  proof (cases "n < 10")
    case True
    have "digit_char n = CHR ''0'' \<longleftrightarrow> (of_char (digit_char n) :: nat) = of_char (CHR ''0'')" by (simp only: of_char_eq_iff)
    then show ?thesis using True by (simp add: show_nat.simps [of n] of_char_digit_char)
  next
    case False
    then show ?thesis using "1.IH" by (simp add: show_nat.simps [of n])
  qed
qed

definition ends_number :: "string \<Rightarrow> bool" where
  "ends_number s \<longleftrightarrow> s = [] \<or> hd s \<in> {CHR '','', CHR '']'', CHR ''}''}"

lemma ends_number_simps [simp]:
  "ends_number []" "ends_number (c # s) \<longleftrightarrow> c \<in> {CHR '','', CHR '']'', CHR ''}''}"
  by (simp_all add: ends_number_def)

lemma takeWhile_digits:
  assumes "ends_number rest"
  shows "takeWhile is_digit (show_nat n @ rest) = show_nat n" and "dropWhile is_digit (show_nat n @ rest) = rest"
proof -
  have d: "\<forall>c\<in>set (show_nat n). is_digit c" using show_nat_digits by blast
  have r: "rest = [] \<or> \<not> is_digit (hd rest)" using assms by (auto simp: ends_number_def is_digit_def)
  show "takeWhile is_digit (show_nat n @ rest) = show_nat n"
    using d r by (cases rest) (simp_all add: takeWhile_append2)
  show "dropWhile is_digit (show_nat n @ rest) = rest"
    using d r by (cases rest) (simp_all add: dropWhile_append2)
qed

lemma parse_unsigned_nat:
  assumes "ends_number rest"
  shows "parse_unsigned (show_nat n @ rest) = Some (of_nat n, rest)"
proof -
  have e: "(rest \<noteq> [] \<and> hd rest = CHR ''.'') = False" "(rest \<noteq> [] \<and> (hd rest = CHR ''e'' \<or> hd rest = CHR ''E'')) = False"
    using assms by (auto simp: ends_number_def)
  have z: "\<not> (hd (show_nat n) = CHR ''0'' \<and> length (show_nat n) > 1)"
    by (cases "n = 0") (simp_all add: hd_show_nat show_nat.simps [of 0])
  have v: "(of_nat (read_digits (show_nat n)) + of_nat (read_digits []) / 10 ^ length ([]::string)) * power10 (int (read_digits [])) = (of_nat n :: rat)"
    by (simp add: read_digits_def [of "[]"] power10_def)
  show ?thesis
    unfolding parse_unsigned_def Let_def takeWhile_digits [OF assms] e if_False simp_thms v using z by simp
qed

lemma parse_number_nat:
  assumes "ends_number rest"
  shows "parse_number (show_nat n @ rest) = Some (js_int (int n), rest)" "parse_number (CHR ''-'' # show_nat n @ rest) = Some (js_int (- int n), rest)"
proof -
  have m: "hd (show_nat n) \<noteq> CHR ''-''"
    using show_nat_not_minus [of n "tl (show_nat n)"] by (metis list.collapse show_nat_nonempty)
  show "parse_number (show_nat n @ rest) = Some (js_int (int n), rest)"
    using m by (simp add: parse_number_def parse_unsigned_nat [OF assms] js_int_def)
  show "parse_number (CHR ''-'' # show_nat n @ rest) = Some (js_int (- int n), rest)"
    by (simp add: parse_number_def parse_unsigned_nat [OF assms] js_int_def)
qed

lemma parse_number_int: "ends_number rest \<Longrightarrow> parse_number (show_int i @ rest) = Some (js_int i, rest)"
  using parse_number_nat [of rest "nat i"] parse_number_nat [of rest "nat (- i)"] by (simp add: show_int_def)

lemma skip_space_id: "s = [] \<or> \<not> json_space (hd s) \<Longrightarrow> skip_space s = s"
  by (cases s) (simp_all add: skip_space_def)

lemma show_int_hd: "\<exists>c s. show_int i = c # s \<and> (is_digit c \<or> c = CHR ''-'')"
  using show_int_chars [of "hd (show_int i)" i] show_int_nonempty [of i] by (metis list.collapse list.set_sel(1))

lemma digit_facts:
  assumes "is_digit c \<or> c = CHR ''-''"
  shows "\<not> json_space c" "c \<notin> {CHR 0x22, CHR ''['', CHR '']'', CHR ''{'', CHR ''}'', CHR ''t'', CHR ''f'', CHR ''n''}"
  using assms by (auto simp: json_space_def is_digit_def)

lemma stringify_start:
  "\<exists>c s. json_stringify t = c # s \<and> \<not> json_space c \<and> c \<noteq> CHR '']'' \<and> c \<noteq> CHR ''}''"
proof (cases t)
  case (TInt i)
  obtain c s where "show_int i = c # s" "is_digit c \<or> c = CHR ''-''" using show_int_hd by blast
  then show ?thesis using TInt digit_facts [of c] by auto
qed (auto simp: json_space_def quote_def)

lemma length_stringify: "0 < length (json_stringify t)"
  using stringify_start [of t] by auto

lemma skip_stringify [simp]: "skip_space (json_stringify t @ rest) = json_stringify t @ rest"
  using stringify_start [of t] by (auto intro: skip_space_id)

lemma skip_simps [simp]: "skip_space [] = []" "skip_space (c # s) = (if json_space c then skip_space s else c # s)"
  by (simp_all add: skip_space_def)

lemma punctuation [simp]: "\<not> json_space CHR '',''" "\<not> json_space CHR '']''" "\<not> json_space CHR ''}''" "\<not> json_space CHR '':''"
  "\<not> json_space CHR 0x22" "\<not> json_space CHR ''[''" "\<not> json_space CHR ''{''" "\<not> json_space CHR ''t''" "\<not> json_space CHR ''f''"
  "\<not> json_space CHR ''n''"
  by (simp_all add: json_space_def)

text \<open>The claim about one value, and its consequences for lists of values and fields.\<close>

definition reads_back :: "json \<Rightarrow> bool" where
  "reads_back t \<longleftrightarrow> (\<forall>n rest. length (json_stringify t) \<le> n \<longrightarrow> ends_number rest \<longrightarrow>
     parse_value n (json_stringify t @ rest) = Some (json_value t, rest))"

lemma reads_backD:
  "reads_back t \<Longrightarrow> length (json_stringify t) \<le> n \<Longrightarrow> ends_number rest \<Longrightarrow>
     parse_value n (json_stringify t @ rest) = Some (json_value t, rest)"
  by (simp add: reads_back_def)

lemma parse_elements_back:
  "xs \<noteq> [] \<Longrightarrow> (\<And>x. x \<in> set xs \<Longrightarrow> reads_back x) \<Longrightarrow> length (join_with '','' (map json_stringify xs)) < n \<Longrightarrow>
     parse_elements n (join_with '','' (map json_stringify xs) @ CHR '']'' # rest) = Some (map json_value xs, rest)"
proof (induction xs arbitrary: n)
  case (Cons x xs)
  obtain m where n: "n = Suc m" using Cons.prems(3) by (cases n) auto
  have x: "reads_back x" using Cons.prems(2) by simp
  show ?case
  proof (cases xs)
    case Nil
    then show ?thesis using Cons.prems(3) reads_backD [OF x, of m "CHR '']'' # rest"] by (simp add: n)
  next
    case (Cons y ys)
    have l: "length (json_stringify x) \<le> m" "length (join_with '','' (map json_stringify xs)) < m"
      using Cons.prems(3) length_stringify [of x] by (simp_all add: n Cons)
    have "parse_elements m (join_with '','' (map json_stringify xs) @ CHR '']'' # rest) = Some (map json_value xs, rest)"
      by (rule Cons.IH) (use Cons.prems Cons l in auto)
    then show ?thesis
      using reads_backD [OF x l(1), of "CHR '','' # join_with '','' (map json_stringify xs) @ CHR '']'' # rest"]
      by (simp add: n Cons cons_fst_def)
  qed
qed simp

definition stringify_field :: "string \<times> json \<Rightarrow> string" where
  "stringify_field f = (case f of (k, v) \<Rightarrow> quote k @ CHR '':'' # json_stringify v)"

lemma parse_field_back:
  assumes v: "reads_back v" and l: "length (stringify_field (k, v)) \<le> n" and e: "ends_number (c # rest)"
  shows "parse_fields (Suc n) (stringify_field (k, v) @ c # rest) =
     (if c = CHR '','' then cons_fst (k, json_value v) (parse_fields n rest)
      else if c = CHR ''}'' then Some ([(k, json_value v)], rest) else None)"
proof -
  define t where "t = concat (map escape k) @ CHR 0x22 # CHR '':'' # json_stringify v @ c # rest"
  have q: "stringify_field (k, v) @ c # rest = CHR 0x22 # t" by (simp add: stringify_field_def quote_def t_def)
  have k: "parse_chars (length t) t = Some (k, CHR '':'' # json_stringify v @ c # rest)"
    unfolding t_def by (rule parse_chars_quoted) simp
  have "length (json_stringify v) \<le> n" using l by (simp add: stringify_field_def)
  note v' = reads_backD [OF v this e]
  have c: "\<not> json_space c" using e by auto
  show ?thesis by (simp add: q k v' c del: parse_chars.simps)
qed

lemma parse_fields_back:
  "kvs \<noteq> [] \<Longrightarrow> (\<And>k v. (k, v) \<in> set kvs \<Longrightarrow> reads_back v) \<Longrightarrow> length (join_with '','' (map stringify_field kvs)) < n \<Longrightarrow>
     parse_fields n (join_with '','' (map stringify_field kvs) @ CHR ''}'' # rest) = Some (map (\<lambda>(k, v). (k, json_value v)) kvs, rest)"
proof (induction kvs arbitrary: n)
  case (Cons f kvs)
  obtain k v where f: "f = (k, v)" by (cases f)
  obtain m where n: "n = Suc m" using Cons.prems(3) by (cases n) auto
  have v: "reads_back v" using Cons.prems(2) [of k v] f by simp
  show ?case
  proof (cases kvs)
    case Nil
    then show ?thesis
      using Cons.prems(3) parse_field_back [OF v, of k m "CHR ''}''" rest] by (simp add: n f del: parse_fields.simps)
  next
    case (Cons y ys)
    have l: "length (stringify_field (k, v)) \<le> m" "length (join_with '','' (map stringify_field kvs)) < m"
      using Cons.prems(3) by (simp_all add: n Cons f)
    have "parse_fields m (join_with '','' (map stringify_field kvs) @ CHR ''}'' # rest) = Some (map (\<lambda>(k, v). (k, json_value v)) kvs, rest)"
      by (rule Cons.IH) (use Cons.prems Cons l in auto)
    then show ?thesis
      using parse_field_back [OF v l(1), of "CHR '',''" "join_with '','' (map stringify_field kvs) @ CHR ''}'' # rest"]
      by (simp add: n f Cons cons_fst_def del: parse_fields.simps)
  qed
qed simp

lemma update_fresh: "k \<notin> fst ` set kvs \<Longrightarrow> AList.update k v kvs = kvs @ [(k, v)]"
  by (induction kvs) auto

lemma object_of_distinct: "distinct (map fst kvs) \<Longrightarrow> object_of kvs = JObj kvs"
proof -
  have "fold (\<lambda>(k, v) o'. AList.update k v o') kvs o' = o' @ kvs" if "distinct (map fst (o' @ kvs))" for o' :: "(string \<times> jsval) list"
    using that
  proof (induction kvs arbitrary: o')
    case (Cons f kvs)
    obtain k v where f: "f = (k, v)" by (cases f)
    have "k \<notin> fst ` set o'" using Cons.prems by (auto simp: f)
    then show ?case using Cons.IH [of "o' @ [(k, v)]"] Cons.prems by (simp add: f update_fresh)
  qed simp
  from this [of "[]"] show "distinct (map fst kvs) \<Longrightarrow> object_of kvs = JObj kvs" by (simp add: object_of_def)
qed

text \<open>Objects that are written have each field once.\<close>

fun json_ok :: "json \<Rightarrow> bool" where
  "json_ok (TArr xs) = list_all json_ok xs"
| "json_ok (TObj kvs) = (distinct (map fst kvs) \<and> list_all (\<lambda>(k, v). json_ok v) kvs)"
| "json_ok _ = True"

lemma stringify_obj: "json_stringify (TObj kvs) = CHR ''{'' # join_with '','' (map stringify_field kvs) @ [CHR ''}'']"
  by (simp add: stringify_field_def [abs_def])

lemma join_start: "xs \<noteq> [] \<Longrightarrow> hd xs \<noteq> [] \<Longrightarrow> join_with sep xs \<noteq> [] \<and> hd (join_with sep xs) = hd (hd xs)"
  by (cases xs) (auto simp: join_with_Cons)

lemma parse_value_array: "(\<And>x. x \<in> set xs \<Longrightarrow> reads_back x) \<Longrightarrow> reads_back (TArr xs)"
  unfolding reads_back_def [of "TArr xs"]
proof (intro allI impI)
  fix n rest
  assume xs: "\<And>x. x \<in> set xs \<Longrightarrow> reads_back x" and l: "length (json_stringify (TArr xs)) \<le> n" and "ends_number rest"
  obtain m where n: "n = Suc m" using l by (cases n) auto
  show "parse_value n (json_stringify (TArr xs) @ rest) = Some (json_value (TArr xs), rest)"
  proof (cases xs)
    case Nil
    then show ?thesis by (simp add: n)
  next
    case (Cons x ys)
    obtain c s where c: "json_stringify x = c # s" "\<not> json_space c" "c \<noteq> CHR '']''" using stringify_start [of x] by blast
    obtain t where t: "join_with '','' (map json_stringify xs) = c # t"
      using c by (cases "join_with '','' (map json_stringify xs)") (auto simp: Cons join_with_Cons split: if_splits)
    have "parse_elements m (join_with '','' (map json_stringify xs) @ CHR '']'' # rest) = Some (map json_value xs, rest)"
      by (rule parse_elements_back) (use xs l Cons in \<open>auto simp: n\<close>)
    then show ?thesis using c by (simp add: n t)
  qed
qed

lemma parse_value_object:
  "distinct (map fst kvs) \<Longrightarrow> (\<And>k v. (k, v) \<in> set kvs \<Longrightarrow> reads_back v) \<Longrightarrow> reads_back (TObj kvs)"
  unfolding reads_back_def [of "TObj kvs"]
proof (intro allI impI)
  fix n rest
  assume d: "distinct (map fst kvs)" and kvs: "\<And>k v. (k, v) \<in> set kvs \<Longrightarrow> reads_back v"
    and l: "length (json_stringify (TObj kvs)) \<le> n" and "ends_number rest"
  obtain m where n: "n = Suc m" using l by (cases n) auto
  have d': "distinct (map fst (map (\<lambda>(k, v). (k, json_value v)) kvs))" using d by (simp add: comp_def case_prod_beta')
  show "parse_value n (json_stringify (TObj kvs) @ rest) = Some (json_value (TObj kvs), rest)"
  proof (cases kvs)
    case Nil
    then show ?thesis by (simp add: n)
  next
    case (Cons f ys)
    obtain t where t: "join_with '','' (map stringify_field kvs) = CHR 0x22 # t"
      by (cases f; cases "join_with '','' (map stringify_field kvs)")
        (auto simp: Cons join_with_Cons stringify_field_def quote_def split: if_splits)
    have l': "length (join_with '','' (map stringify_field kvs)) < m" using l by (simp add: n stringify_obj del: json_stringify.simps)
    have "parse_fields m (join_with '','' (map stringify_field kvs) @ CHR ''}'' # rest) = Some (map (\<lambda>(k, v). (k, json_value v)) kvs, rest)"
      by (rule parse_fields_back [OF _ kvs l']) (use Cons in auto)
    then show ?thesis by (simp add: n stringify_obj t object_of_distinct [OF d'] del: json_stringify.simps parse_fields.simps)
  qed
qed

lemma reads_back_all: "json_ok t \<Longrightarrow> reads_back t"
proof (induction t rule: json_ok.induct [case_names arr obj null bool int str])
  case (arr xs)
  then show ?case by (intro parse_value_array) (auto simp: list_all_iff)
next
  case (obj kvs)
  then show ?case by (intro parse_value_object) (auto simp: list_all_iff)
next
  case null
  then show ?case by (auto simp: reads_back_def strip_prefix_def Suc_le_eq dest: less_imp_Suc_add)
next
  case (bool b)
  then show ?case by (auto simp: reads_back_def strip_prefix_def Suc_le_eq dest: less_imp_Suc_add)
next
  case (int i)
  show ?case unfolding reads_back_def
  proof (intro allI impI)
    fix n rest
    assume l: "length (json_stringify (TInt i)) \<le> n" and e: "ends_number rest"
    obtain c s where c: "show_int i = c # s" "is_digit c \<or> c = CHR ''-''" using show_int_hd by blast
    obtain m where n: "n = Suc m" using l c by (cases n) auto
    show "parse_value n (json_stringify (TInt i) @ rest) = Some (json_value (TInt i), rest)"
      using parse_number_int [OF e, of i] c digit_facts [OF c(2)] by (simp add: n)
  qed
next
  case (str s)
  show ?case unfolding reads_back_def
  proof (intro allI impI)
    fix n rest
    assume l: "length (json_stringify (TStr s)) \<le> n"
    obtain m where n: "n = Suc m" using l by (cases n) (auto simp: quote_def)
    define t where "t = concat (map escape s) @ CHR 0x22 # rest"
    have "parse_chars (length t) t = Some (s, rest)" unfolding t_def by (rule parse_chars_quoted) simp
    moreover have "json_stringify (TStr s) @ rest = CHR 0x22 # t" by (simp add: quote_def t_def)
    ultimately show "parse_value n (json_stringify (TStr s) @ rest) = Some (json_value (TStr s), rest)"
      by (simp add: n del: json_stringify.simps)
  qed
qed

lemma json_parse_stringify: "json_ok t \<Longrightarrow> json_parse (json_stringify t) = Inr (json_value t)"
  using reads_backD [OF reads_back_all, of t "length (json_stringify t) + 1" "[]"] by (simp add: json_parse_def)

end
