(* ===== verification/WsClient.thy ===== *)
theory WsClient
  imports JsonText
begin

text \<open>
  \<open>web-ui/src/services/wsClient.ts\<close>: the WebSocket connection of the client with its heartbeat and its
  reconnection. The state holds the fields of the class and what the browser holds for it: the sockets that were
  created (a socket object is its index), the live timers, the clock. Listeners are numbered; what they are
  called with is recorded in \<open>w_out\<close>, as are texts that are sent. Listeners do not call the client
  back and do not throw. \<open>valid url\<close> says that \<open>new WebSocket(url)\<close> does not throw; a Boolean argument of an
  operation that sends says whether \<open>socket.send\<close> succeeds.
\<close>

subsection \<open>State\<close>

datatype ws_status = Disconnected | Connecting | Connected | Reconnecting | ErrorStatus

datatype ready_state = ReadyConnecting | ReadyOpen | ReadyClosing | ReadyClosed

datatype timer_kind = ReconnectTimer | HeartbeatTimer

datatype emitted =
    StatusTo nat ws_status
  | MessageTo nat jsval
  | TypedTo nat jsval jsval
  | OutgoingTo nat json
  | SentText nat string

record ws_socket =
  so_url :: string
  so_ready :: ready_state
  so_attached :: bool

record ws_timer =
  tm_id :: nat
  tm_kind :: timer_kind
  tm_delay :: int

record ws =
  w_sockets :: "ws_socket list"
  w_timers :: "ws_timer list"
  w_nextTimer :: nat
  w_now :: int
  w_out :: "emitted list"
  w_socket :: "nat option"
  w_status :: ws_status
  w_statusListeners :: "nat list"
  w_messageListeners :: "nat list"
  w_outgoingListeners :: "nat list"
  w_typedListeners :: "(string \<times> nat list) list"
  w_reconnectTimer :: "nat option"
  w_heartbeatTimer :: "nat option"
  w_manuallyClosed :: bool
  w_reconnectAttempts :: int
  w_lastMessageAt :: int
  w_url :: string

definition HEARTBEAT_INTERVAL_MS :: int where "HEARTBEAT_INTERVAL_MS = 5000"
definition HEARTBEAT_TIMEOUT_MS :: int where "HEARTBEAT_TIMEOUT_MS = 15000"

definition new_client :: ws where
  "new_client =
     \<lparr>w_sockets = [], w_timers = [], w_nextTimer = 0, w_now = 0, w_out = [], w_socket = None, w_status = Disconnected,
      w_statusListeners = [], w_messageListeners = [], w_outgoingListeners = [], w_typedListeners = [], w_reconnectTimer = None,
      w_heartbeatTimer = None, w_manuallyClosed = False, w_reconnectAttempts = 0, w_lastMessageAt = 0, w_url = []\<rparr>"

subsection \<open>The browser\<close>

definition emit :: "emitted list \<Rightarrow> ws \<Rightarrow> ws" where
  "emit es w = w\<lparr>w_out := w_out w @ es\<rparr>"

definition update_socket :: "nat \<Rightarrow> (ws_socket \<Rightarrow> ws_socket) \<Rightarrow> ws \<Rightarrow> ws" where
  "update_socket k f w = (if k < length (w_sockets w) then w\<lparr>w_sockets := (w_sockets w)[k := f (w_sockets w ! k)]\<rparr> else w)"

definition ready_of :: "nat \<Rightarrow> ws \<Rightarrow> ready_state" where
  "ready_of k w = (if k < length (w_sockets w) then so_ready (w_sockets w ! k) else ReadyClosed)"

definition set_ready :: "ready_state \<Rightarrow> nat \<Rightarrow> ws \<Rightarrow> ws" where
  "set_ready r k w = update_socket k (\<lambda>s. s\<lparr>so_ready := r\<rparr>) w"

text \<open>\<open>socket.onopen = socket.onmessage = socket.onclose = socket.onerror = null\<close>\<close>

definition detach :: "nat \<Rightarrow> ws \<Rightarrow> ws" where
  "detach k w = update_socket k (\<lambda>s. s\<lparr>so_attached := False\<rparr>) w"

definition close_socket :: "nat \<Rightarrow> ws \<Rightarrow> ws" where
  "close_socket k w = (if ready_of k w = ReadyOpen \<or> ready_of k w = ReadyConnecting then set_ready ReadyClosing k w else w)"

definition remove_timer :: "nat \<Rightarrow> ws \<Rightarrow> ws" where
  "remove_timer i w = w\<lparr>w_timers := filter (\<lambda>t. tm_id t \<noteq> i) (w_timers w)\<rparr>"

definition add_timer :: "timer_kind \<Rightarrow> int \<Rightarrow> ws \<Rightarrow> ws" where
  "add_timer kind delay w =
     w\<lparr>w_timers := w_timers w @ [\<lparr>tm_id = w_nextTimer w, tm_kind = kind, tm_delay = delay\<rparr>], w_nextTimer := w_nextTimer w + 1\<rparr>"

subsection \<open>Status, timers, loss of the connection\<close>

definition setStatus :: "ws_status \<Rightarrow> ws \<Rightarrow> ws" where
  "setStatus st w =
     (if w_status w = st then w
      else emit (map (\<lambda>l. StatusTo l st) (w_statusListeners w)) (w\<lparr>w_status := st\<rparr>))"

definition clearReconnectTimer :: "ws \<Rightarrow> ws" where
  "clearReconnectTimer w =
     (case w_reconnectTimer w of None \<Rightarrow> w | Some i \<Rightarrow> (remove_timer i w)\<lparr>w_reconnectTimer := None\<rparr>)"

definition stopHeartbeat :: "ws \<Rightarrow> ws" where
  "stopHeartbeat w =
     (case w_heartbeatTimer w of None \<Rightarrow> w | Some i \<Rightarrow> (remove_timer i w)\<lparr>w_heartbeatTimer := None\<rparr>)"

definition scheduleReconnect :: "ws \<Rightarrow> ws" where
  "scheduleReconnect w =
     (if w_manuallyClosed w \<or> w_reconnectTimer w \<noteq> None then w
      else (let attempts = w_reconnectAttempts w + 1; delay = min (3000 * attempts) 10000
            in (add_timer ReconnectTimer delay (w\<lparr>w_reconnectAttempts := attempts\<rparr>))\<lparr>w_reconnectTimer := Some (w_nextTimer w)\<rparr>))"

definition handleConnectionLost :: "nat \<Rightarrow> ws \<Rightarrow> ws" where
  "handleConnectionLost k w =
     (if w_socket w \<noteq> Some k then w
      else (let w1 = close_socket k (detach k ((stopHeartbeat w)\<lparr>w_socket := None\<rparr>))
            in if w_manuallyClosed w1 then setStatus Disconnected w1
               else scheduleReconnect (setStatus Reconnecting w1)))"

definition socket_open :: "ws \<Rightarrow> nat option" where
  "socket_open w = (case w_socket w of None \<Rightarrow> None | Some k \<Rightarrow> if ready_of k w = ReadyOpen then Some k else None)"

definition heartbeat_message :: json where
  "heartbeat_message = TObj [(''type'', TStr ''heartbeat''), (''data'', TObj [])]"

definition sendHeartbeat :: "bool \<Rightarrow> ws \<Rightarrow> ws" where
  "sendHeartbeat ok w =
     (case socket_open w of
        None \<Rightarrow> w
      | Some k \<Rightarrow> if ok then emit [SentText k (json_stringify heartbeat_message)] w else handleConnectionLost k w)"

definition startHeartbeat :: "bool \<Rightarrow> ws \<Rightarrow> ws" where
  "startHeartbeat ok w =
     (let w1 = sendHeartbeat ok (stopHeartbeat w)
      in (add_timer HeartbeatTimer HEARTBEAT_INTERVAL_MS w1)\<lparr>w_heartbeatTimer := Some (w_nextTimer w1)\<rparr>)"

definition heartbeat_tick :: "bool \<Rightarrow> ws \<Rightarrow> ws" where
  "heartbeat_tick ok w =
     (case socket_open w of
        None \<Rightarrow> w
      | Some k \<Rightarrow>
          if w_now w - w_lastMessageAt w \<ge> HEARTBEAT_TIMEOUT_MS then handleConnectionLost k w
          else sendHeartbeat ok w)"

subsection \<open>Connecting\<close>

text \<open>When the constructor throws, the exception leaves \<open>connect\<close> with the status already set.\<close>

definition connect :: "(string \<Rightarrow> bool) \<Rightarrow> string option \<Rightarrow> ws \<Rightarrow> ws" where
  "connect valid url w =
     (let w1 = (case url of Some u \<Rightarrow> if u \<noteq> [] then w\<lparr>w_url := u\<rparr> else w | None \<Rightarrow> w)
      in if w_url w1 = [] then w1
         else if (case w_socket w1 of Some k \<Rightarrow> ready_of k w1 = ReadyOpen \<or> ready_of k w1 = ReadyConnecting | None \<Rightarrow> False) then w1
         else (let w2 = (stopHeartbeat (clearReconnectTimer w1))\<lparr>w_manuallyClosed := False\<rparr>;
                   w3 = setStatus (if w_reconnectAttempts w2 > 0 then Reconnecting else Connecting) w2
               in if \<not> valid (w_url w3) then w3
                  else w3\<lparr>w_sockets := w_sockets w3 @ [\<lparr>so_url = w_url w3, so_ready = ReadyConnecting, so_attached = True\<rparr>],
                          w_socket := Some (length (w_sockets w3))\<rparr>))"

definition on_open :: "nat \<Rightarrow> bool \<Rightarrow> ws \<Rightarrow> ws" where
  "on_open k ok w =
     (if w_socket w \<noteq> Some k then w
      else startHeartbeat ok (setStatus Connected (w\<lparr>w_reconnectAttempts := 0, w_lastMessageAt := w_now w\<rparr>)))"

definition deliver :: "jsval \<Rightarrow> ws \<Rightarrow> ws" where
  "deliver message w =
     (if js_get message ''type'' = JStr ''heartbeatAck'' then w
      else emit (map (\<lambda>l. MessageTo l message) (w_messageListeners w) @
             (case js_get message ''type'' of
                JStr t \<Rightarrow> (case map_of (w_typedListeners w) t of
                            Some ls \<Rightarrow> map (\<lambda>l. TypedTo l (js_get message ''data'') message) ls | None \<Rightarrow> [])
              | _ \<Rightarrow> [])) w)"

text \<open>A text that is not JSON, and \<open>null\<close>, whose property \<open>type\<close> cannot be read, are caught and logged.\<close>

definition on_message :: "nat \<Rightarrow> string \<Rightarrow> ws \<Rightarrow> ws" where
  "on_message k text w =
     (if w_socket w \<noteq> Some k then w
      else (let w1 = w\<lparr>w_lastMessageAt := w_now w\<rparr>
            in case json_parse text of
                 Inl e \<Rightarrow> w1
               | Inr message \<Rightarrow> if message = JNull then w1 else deliver message w1))"

definition on_close :: "nat \<Rightarrow> ws \<Rightarrow> ws" where
  "on_close k w = (if w_socket w \<noteq> Some k then w else handleConnectionLost k w)"

definition on_error :: "nat \<Rightarrow> ws \<Rightarrow> ws" where
  "on_error k w = (if w_socket w \<noteq> Some k then w else handleConnectionLost k w)"

definition reconnect_due :: "(string \<Rightarrow> bool) \<Rightarrow> ws \<Rightarrow> ws" where
  "reconnect_due valid w =
     (let w1 = w\<lparr>w_reconnectTimer := None\<rparr> in if w_manuallyClosed w1 then w1 else connect valid None w1)"

definition drop_socket :: "ws \<Rightarrow> ws" where
  "drop_socket w =
     (case w_socket w of None \<Rightarrow> w | Some k \<Rightarrow> close_socket k (detach k (w\<lparr>w_socket := None\<rparr>)))"

definition disconnect :: "ws \<Rightarrow> ws" where
  "disconnect w = setStatus Disconnected (drop_socket (stopHeartbeat (clearReconnectTimer (w\<lparr>w_manuallyClosed := True\<rparr>))))"

definition restartConnection :: "ws \<Rightarrow> ws" where
  "restartConnection w =
     scheduleReconnect ((setStatus Reconnecting (drop_socket (stopHeartbeat (clearReconnectTimer (w\<lparr>w_manuallyClosed := False\<rparr>)))))
       \<lparr>w_reconnectAttempts := 0\<rparr>)"

definition isConnected :: "ws \<Rightarrow> bool" where
  "isConnected w = (w_status w = Connected \<and> (case w_socket w of Some k \<Rightarrow> ready_of k w = ReadyOpen | None \<Rightarrow> False))"

definition getStatus :: "ws \<Rightarrow> ws_status" where
  "getStatus w = w_status w"

subsection \<open>Sending\<close>

definition ws_send :: "json \<Rightarrow> bool \<Rightarrow> ws \<Rightarrow> ws \<times> bool" where
  "ws_send message ok w =
     (case socket_open w of
        None \<Rightarrow>
          (if w_status w = Connected \<and> \<not> w_manuallyClosed w
           then (case w_socket w of
                   Some k \<Rightarrow> handleConnectionLost k w
                 | None \<Rightarrow> scheduleReconnect (setStatus Reconnecting w))
           else w, False)
      | Some k \<Rightarrow>
          if ok then (emit (SentText k (json_stringify message) # map (\<lambda>l. OutgoingTo l message) (w_outgoingListeners w)) w, True)
          else (handleConnectionLost k w, False))"

subsection \<open>Subscriptions\<close>

definition subscribeStatus :: "nat \<Rightarrow> ws \<Rightarrow> ws" where
  "subscribeStatus l w = emit [StatusTo l (w_status w)] (w\<lparr>w_statusListeners := set_add l (w_statusListeners w)\<rparr>)"

definition unsubscribeStatus :: "nat \<Rightarrow> ws \<Rightarrow> ws" where
  "unsubscribeStatus l w = w\<lparr>w_statusListeners := set_delete l (w_statusListeners w)\<rparr>"

definition subscribeMessages :: "nat \<Rightarrow> ws \<Rightarrow> ws" where
  "subscribeMessages l w = w\<lparr>w_messageListeners := set_add l (w_messageListeners w)\<rparr>"

definition unsubscribeMessages :: "nat \<Rightarrow> ws \<Rightarrow> ws" where
  "unsubscribeMessages l w = w\<lparr>w_messageListeners := set_delete l (w_messageListeners w)\<rparr>"

definition subscribeOutgoingMessages :: "nat \<Rightarrow> ws \<Rightarrow> ws" where
  "subscribeOutgoingMessages l w = w\<lparr>w_outgoingListeners := set_add l (w_outgoingListeners w)\<rparr>"

definition unsubscribeOutgoingMessages :: "nat \<Rightarrow> ws \<Rightarrow> ws" where
  "unsubscribeOutgoingMessages l w = w\<lparr>w_outgoingListeners := set_delete l (w_outgoingListeners w)\<rparr>"

definition on_type :: "string \<Rightarrow> nat \<Rightarrow> ws \<Rightarrow> ws" where
  "on_type t l w =
     (let listeners = (case map_of (w_typedListeners w) t of Some ls \<Rightarrow> ls | None \<Rightarrow> [])
      in w\<lparr>w_typedListeners := AList.update t (set_add l listeners) (w_typedListeners w)\<rparr>)"

definition off_type :: "string \<Rightarrow> nat \<Rightarrow> ws \<Rightarrow> ws" where
  "off_type t l w =
     (case map_of (w_typedListeners w) t of
        None \<Rightarrow> w
      | Some current \<Rightarrow>
          let rest = set_delete l current
          in w\<lparr>w_typedListeners := (if length rest = 0 then AList.delete t (w_typedListeners w)
                                   else AList.update t rest (w_typedListeners w))\<rparr>)"

subsection \<open>What can happen\<close>

datatype ws_event =
    CallConnect "string option" | CallDisconnect | CallRestart | CallSend json bool
  | CallSubscribeStatus nat | CallUnsubscribeStatus nat | CallSubscribeMessages nat | CallUnsubscribeMessages nat
  | CallSubscribeOutgoing nat | CallUnsubscribeOutgoing nat | CallOn string nat | CallOff string nat
  | SocketOpens nat bool | SocketMessage nat string | SocketClosing nat | SocketCloses nat | SocketFails nat
  | TimerFires nat bool | TimePasses int

definition attached :: "nat \<Rightarrow> ws \<Rightarrow> bool" where
  "attached k w = (k < length (w_sockets w) \<and> so_attached (w_sockets w ! k))"

definition timer_of :: "nat \<Rightarrow> ws \<Rightarrow> ws_timer option" where
  "timer_of i w = find (\<lambda>t. tm_id t = i) (w_timers w)"

definition ws_enabled :: "ws_event \<Rightarrow> ws \<Rightarrow> bool" where
  "ws_enabled ev w =
     (case ev of
        SocketOpens k ok \<Rightarrow> k < length (w_sockets w) \<and> ready_of k w = ReadyConnecting
      | SocketMessage k text \<Rightarrow> k < length (w_sockets w) \<and> ready_of k w = ReadyOpen
      | SocketClosing k \<Rightarrow> k < length (w_sockets w) \<and> ready_of k w = ReadyOpen
      | SocketCloses k \<Rightarrow> k < length (w_sockets w) \<and> ready_of k w \<noteq> ReadyClosed
      | SocketFails k \<Rightarrow> k < length (w_sockets w) \<and> ready_of k w \<noteq> ReadyClosed
      | TimerFires i ok \<Rightarrow> timer_of i w \<noteq> None
      | TimePasses d \<Rightarrow> 0 \<le> d
      | _ \<Rightarrow> True)"

text \<open>A socket that fails is closed; its \<open>error\<close> event comes before its \<open>close\<close> event.\<close>

definition close_event :: "nat \<Rightarrow> ws \<Rightarrow> ws" where
  "close_event k w = (if attached k w then on_close k w else w)"

definition ws_step :: "(string \<Rightarrow> bool) \<Rightarrow> ws_event \<Rightarrow> ws \<Rightarrow> ws" where
  "ws_step valid ev w =
     (case ev of
        CallConnect url \<Rightarrow> connect valid url w
      | CallDisconnect \<Rightarrow> disconnect w
      | CallRestart \<Rightarrow> restartConnection w
      | CallSend message ok \<Rightarrow> fst (ws_send message ok w)
      | CallSubscribeStatus l \<Rightarrow> subscribeStatus l w
      | CallUnsubscribeStatus l \<Rightarrow> unsubscribeStatus l w
      | CallSubscribeMessages l \<Rightarrow> subscribeMessages l w
      | CallUnsubscribeMessages l \<Rightarrow> unsubscribeMessages l w
      | CallSubscribeOutgoing l \<Rightarrow> subscribeOutgoingMessages l w
      | CallUnsubscribeOutgoing l \<Rightarrow> unsubscribeOutgoingMessages l w
      | CallOn t l \<Rightarrow> on_type t l w
      | CallOff t l \<Rightarrow> off_type t l w
      | SocketOpens k ok \<Rightarrow> (let w1 = set_ready ReadyOpen k w in if attached k w1 then on_open k ok w1 else w1)
      | SocketMessage k text \<Rightarrow> if attached k w then on_message k text w else w
      | SocketClosing k \<Rightarrow> set_ready ReadyClosing k w
      | SocketCloses k \<Rightarrow> close_event k (set_ready ReadyClosed k w)
      | SocketFails k \<Rightarrow>
          (let w1 = set_ready ReadyClosed k w in close_event k (if attached k w1 then on_error k w1 else w1))
      | TimerFires i ok \<Rightarrow>
          (case timer_of i w of
             None \<Rightarrow> w
           | Some t \<Rightarrow>
               (case tm_kind t of
                  ReconnectTimer \<Rightarrow> reconnect_due valid (remove_timer i w)
                | HeartbeatTimer \<Rightarrow> heartbeat_tick ok w))
      | TimePasses d \<Rightarrow> w\<lparr>w_now := w_now w + d\<rparr>)"

inductive ws_reachable :: "(string \<Rightarrow> bool) \<Rightarrow> ws \<Rightarrow> bool" for valid where
  ws_start: "ws_reachable valid new_client"
| ws_next: "ws_reachable valid w \<Longrightarrow> ws_enabled ev w \<Longrightarrow> ws_reachable valid (ws_step valid ev w)"

end
