(* ===== verification/LayoutViews.thy ===== *)
theory LayoutViews
  imports SignalElement JsonText
begin

text \<open>
  \<open>web-ui/src/models/editor/core/LayoutView.ts\<close>: the layout of the editor and of the runtime page. A view is an element
  with what the page adds to it; \<open>vw_ref\<close> is the identity of the object, \<open>vw_data\<close> the fields of its class. The layout
  always has the five layers its constructor makes. Marking the routes that are set follows the track by recursion.
\<close>

subsection \<open>Views\<close>

datatype turnout_mode = ModeAccessory | ModeExtended | ModeVpin

record route_turnout =
  rt_turnoutId :: int
  rt_closed :: bool

record turnout_data =
  td_outputMode :: turnout_mode
  td_address :: int
  td_closedValue :: bool
  td_closed :: bool
  td_closedAspect :: jsval
  td_openedAspect :: jsval

record double_data =
  dd_outputMode :: turnout_mode
  dd_address1 :: int
  dd_address2 :: int
  dd_closedValue1 :: bool
  dd_closedValue2 :: bool
  dd_closed1 :: bool
  dd_closed2 :: bool

record button_data =
  bd_outputMode :: turnout_mode
  bd_address :: int
  bd_activeValue :: bool
  bd_on :: bool

record crossing_data =
  cd_address :: int
  cd_closedValue :: bool
  cd_barrierClosed :: bool

datatype view_data =
    TurnoutData turnout_data
  | DoubleData double_data
  | SensorData int bool
  | SignalData signal_element
  | ButtonData button_data
  | CrossingData crossing_data
  | RouteButtonData bool "route_turnout list"
  | BlockData int "int option"
  | NoData

record view = base_element +
  vw_ref :: nat
  vw_isRoute :: bool
  vw_section :: int
  vw_travelDirection :: element_direction
  vw_selected :: bool
  vw_data :: view_data

record view_layout =
  vl_track :: "view list"
  vl_blocks :: "view list"
  vl_signals :: "view list"
  vl_sensors :: "view list"
  vl_buildings :: "view list"

definition isTurnoutElement :: "view \<Rightarrow> bool" where
  "isTurnoutElement e \<longleftrightarrow> be_type e = TRACK_TURNOUT_LEFT \<or> be_type e = TRACK_TURNOUT_RIGHT"

definition all_views :: "view_layout \<Rightarrow> view list" where
  "all_views l = vl_track l @ vl_blocks l @ vl_signals l @ vl_sensors l @ vl_buildings l"

definition getTrackElements :: "view_layout \<Rightarrow> view list" where
  "getTrackElements l = vl_track l @ vl_blocks l @ vl_signals l @ vl_sensors l"

definition map_track_views :: "(view \<Rightarrow> view) \<Rightarrow> view_layout \<Rightarrow> view_layout" where
  "map_track_views f l =
     l\<lparr>vl_track := map f (vl_track l), vl_blocks := map f (vl_blocks l), vl_signals := map f (vl_signals l),
       vl_sensors := map f (vl_sensors l)\<rparr>"

definition map_views :: "(view \<Rightarrow> view) \<Rightarrow> view_layout \<Rightarrow> view_layout" where
  "map_views f l = (map_track_views f l)\<lparr>vl_buildings := map f (vl_buildings l)\<rparr>"

definition update_view :: "nat \<Rightarrow> (view \<Rightarrow> view) \<Rightarrow> view_layout \<Rightarrow> view_layout" where
  "update_view r f l = map_views (\<lambda>e. if vw_ref e = r then f e else e) l"

definition view_by_ref :: "nat \<Rightarrow> view_layout \<Rightarrow> view option" where
  "view_by_ref r l = find (\<lambda>e. vw_ref e = r) (all_views l)"

definition view_by_id :: "int \<Rightarrow> view_layout \<Rightarrow> view option" where
  "view_by_id i l = find (\<lambda>e. be_id e = i) (all_views l)"

text \<open>The ends of a turnout follow its position.\<close>

definition turnout_of :: "view \<Rightarrow> turnout_data" where
  "turnout_of e =
     (case vw_data e of TurnoutData d \<Rightarrow> d
      | _ \<Rightarrow> \<lparr>td_outputMode = ModeAccessory, td_address = 0, td_closedValue = False, td_closed = False,
           td_closedAspect = JUndef, td_openedAspect = JUndef\<rparr>)"

definition view_turnout :: "view \<Rightarrow> turnout_element" where
  "view_turnout e =
     track_element.extend (new_track (base_element.truncate e))
       \<lparr>tu_outputMode = (if td_outputMode (turnout_of e) = ModeVpin then Vpin else Accessory),
        tu_turnoutAddress = td_address (turnout_of e), tu_turnoutClosedValue = td_closedValue (turnout_of e),
        tu_turnoutClosed = td_closed (turnout_of e)\<rparr>"

definition view_next :: "view \<Rightarrow> point" where
  "view_next e =
     (if be_type e = TRACK_TURNOUT_LEFT then left_getNextItemXy (view_turnout e)
      else if be_type e = TRACK_TURNOUT_RIGHT then right_getNextItemXy (view_turnout e)
      else getNextItemXy e)"

definition view_prev :: "view \<Rightarrow> point" where
  "view_prev e =
     (if be_type e = TRACK_TURNOUT_LEFT then left_getPrevItemXy (view_turnout e)
      else if be_type e = TRACK_TURNOUT_RIGHT then right_getPrevItemXy (view_turnout e)
      else getPrevItemXy e)"

definition view_hit :: "point \<Rightarrow> view \<Rightarrow> bool" where
  "view_hit p e =
     (if be_type e = TRACK_CORNER \<or> be_type e = TRACK_CROSSING \<or> be_type e = TRACK_CURVE \<or> be_type e = TRACK_END
      then be_x e = p_x p \<and> be_y e = p_y p else hitTest e (p_x p) (p_y p))"

definition view_at :: "point \<Rightarrow> view_layout \<Rightarrow> view option" where
  "view_at p l = find (view_hit p) (all_views l)"

subsection \<open>Following the track\<close>

text \<open>
  \<open>startWalk\<close> and \<open>walkTrack\<close> differ in the section number that \<open>walkTrack\<close> sets and in the turnouts at which it
  stops; both are \<open>walk\<close>, without and with a section.
\<close>

definition visit_view :: "int option \<Rightarrow> view \<Rightarrow> view" where
  "visit_view sec e =
     (let e1 = e\<lparr>be_isVisited := True, vw_isRoute := True\<rparr>
      in case sec of Some s \<Rightarrow> e1\<lparr>vw_section := s\<rparr> | None \<Rightarrow> e1)"

definition set_route :: "view \<Rightarrow> view" where
  "set_route e = e\<lparr>vw_isRoute := True\<rparr>"

definition leads_back :: "view \<Rightarrow> view \<Rightarrow> bool" where
  "leads_back obj e \<longleftrightarrow> isEqual (be_pos obj) (view_next e) \<or> isEqual (be_pos obj) (view_prev e)"

definition follow :: "int option \<Rightarrow> view \<Rightarrow> point \<Rightarrow> view_layout \<Rightarrow> nat option" where
  "follow sec obj p l =
     (case view_at p l of
        None \<Rightarrow> None
      | Some e \<Rightarrow>
          if (sec = None \<or> \<not> isTurnoutElement e) \<and> \<not> be_isVisited e \<and> leads_back obj e then Some (vw_ref e) else None)"

function walk :: "int option \<Rightarrow> nat \<Rightarrow> view_layout \<Rightarrow> view_layout" where
  "walk sec r l =
     (case view_by_ref r l of
        None \<Rightarrow> l
      | Some obj \<Rightarrow>
          let l1 = update_view r (visit_view sec) l;
              l2 = (case follow sec obj (view_next obj) l1 of
                      None \<Rightarrow> l1 | Some n \<Rightarrow> walk sec n (update_view n set_route l1))
          in case follow sec obj (view_prev obj) l2 of
               None \<Rightarrow> l2 | Some p \<Rightarrow> walk sec p (update_view p set_route l2))"
  by pat_completeness auto

text \<open>Every call marks an element that was not visited before the recursive call, and none is unmarked.\<close>

definition unvisited :: "view_layout \<Rightarrow> nat" where
  "unvisited l = length (filter (\<lambda>e. \<not> be_isVisited e) (all_views l))"

lemma all_views_map [simp]: "all_views (map_views f l) = map f (all_views l)"
  by (simp add: all_views_def map_views_def map_track_views_def)

lemma all_views_update: "all_views (update_view r f l) = map (\<lambda>e. if vw_ref e = r then f e else e) (all_views l)"
  by (simp add: update_view_def)

lemma visit_view_fields [simp]: "be_isVisited (visit_view sec e)" "vw_ref (visit_view sec e) = vw_ref e"
    "vw_isRoute (visit_view sec e)"
  by (simp_all add: visit_view_def Let_def split: option.split)

lemma set_route_fields [simp]: "be_isVisited (set_route e) = be_isVisited e" "vw_ref (set_route e) = vw_ref e"
  by (simp_all add: set_route_def)

lemma unvisited_route: "unvisited (update_view r set_route l) = unvisited l"
proof -
  have "length (filter (\<lambda>e. \<not> be_isVisited e) (map (\<lambda>e. if vw_ref e = r then set_route e else e) xs)) =
      length (filter (\<lambda>e. \<not> be_isVisited e) xs)" for xs
    by (induction xs) auto
  then show ?thesis by (simp add: unvisited_def all_views_update)
qed

lemma visit_fewer: "length (filter (\<lambda>e. \<not> be_isVisited e) (map (\<lambda>e. if vw_ref e = r then visit_view s e else e) xs)) \<le>
    length (filter (\<lambda>e. \<not> be_isVisited e) xs)"
  by (induction xs) auto

lemma unvisited_visit_le: "unvisited (update_view r (visit_view s) l) \<le> unvisited l"
  unfolding unvisited_def all_views_update by (rule visit_fewer)

lemma unvisited_visit_less:
  assumes "e \<in> set (all_views l)" and "vw_ref e = r" and "\<not> be_isVisited e"
  shows "unvisited (update_view r (visit_view s) l) < unvisited l"
proof -
  obtain xs ys where l: "all_views l = xs @ e # ys" using assms(1) by (metis split_list)
  show ?thesis using visit_fewer [of r s xs] visit_fewer [of r s ys] assms unfolding unvisited_def all_views_update l by simp
qed

lemma follow_Some:
  "follow sec obj p l = Some n \<Longrightarrow> \<exists>e\<in>set (all_views l). vw_ref e = n \<and> \<not> be_isVisited e"
  by (auto simp: follow_def view_at_def dest!: find_SomeD split: option.splits if_splits)

lemma unvisited_case:
  "unvisited a \<le> k \<Longrightarrow> (\<And>p. x = Some p \<Longrightarrow> unvisited (h p) \<le> k) \<Longrightarrow> unvisited (case x of None \<Rightarrow> a | Some p \<Rightarrow> h p) \<le> k"
  by (cases x) simp_all

lemma unvisited_entered: "unvisited (update_view n (visit_view sec) (update_view n set_route l)) \<le> unvisited l"
  using unvisited_visit_le [of n sec "update_view n set_route l"] unvisited_route [of n l] by (rule order_trans [OF _ order_eq_refl])

lemma unvisited_walk:
  assumes "walk_dom (sec, r, l)"
  shows "unvisited (walk sec r l) \<le> unvisited (update_view r (visit_view sec) l)"
  using assms
proof (induction sec r l rule: walk.pinduct)
  case (1 sec r l)
  let ?l1 = "update_view r (visit_view sec) l"
  show ?case
  proof (cases "view_by_ref r l")
    case None
    then have "\<forall>e\<in>set (all_views l). vw_ref e \<noteq> r" by (auto simp: view_by_ref_def find_None_iff)
    then have "map (\<lambda>e. if vw_ref e = r then visit_view sec e else e) (all_views l) = all_views l" by (intro map_idI) auto
    then show ?thesis using None 1(1) by (simp add: walk.psimps unvisited_def all_views_update del: length_filter_map)
  next
    case (Some obj)
    have "unvisited (case follow sec obj (view_next obj) ?l1 of None \<Rightarrow> ?l1 | Some n \<Rightarrow> walk sec n (update_view n set_route ?l1)) \<le>
        unvisited ?l1"
      by (rule unvisited_case [OF order_refl]) (rule order_trans [OF 1(2) [OF Some refl] unvisited_entered])
    then show ?thesis unfolding walk.psimps [OF 1(1)] Some option.case Let_def
    proof (rule unvisited_case)
      fix p
      assume "follow sec obj (view_prev obj)
          (case follow sec obj (view_next obj) ?l1 of None \<Rightarrow> ?l1 | Some n \<Rightarrow> walk sec n (update_view n set_route ?l1)) = Some p"
      from order_trans [OF 1(3) [OF Some refl refl this] unvisited_entered]
      show "unvisited (walk sec p (update_view p set_route
          (case follow sec obj (view_next obj) ?l1 of None \<Rightarrow> ?l1 | Some n \<Rightarrow> walk sec n (update_view n set_route ?l1)))) \<le> unvisited ?l1"
        by (rule order_trans) fact
    qed
  qed
qed

lemma follow_less:
  assumes "follow sec obj p l = Some n"
  shows "unvisited (update_view n (visit_view s) (update_view n set_route l)) < unvisited l"
proof -
  obtain e where e: "e \<in> set (all_views l)" "vw_ref e = n" "\<not> be_isVisited e" using follow_Some [OF assms] by blast
  have "set_route e \<in> set (all_views (update_view n set_route l))" using e by (force simp: all_views_update)
  then show ?thesis using unvisited_visit_less [of "set_route e" "update_view n set_route l" n s] e unvisited_route [of n l] by simp
qed

termination walk
proof (relation "measure (\<lambda>(sec, r, l). unvisited (update_view r (visit_view sec) l))")
  fix sec r l obj l1 n
  assume "l1 = update_view r (visit_view sec) l" and "follow sec obj (view_next obj) l1 = Some n"
  then show "((sec, n, update_view n set_route l1), (sec, r, l)) \<in>
      measure (\<lambda>(sec, r, l). unvisited (update_view r (visit_view sec) l))"
    using follow_less by simp
next
  fix sec r l obj l1 l2 p
  assume l1: "l1 = update_view r (visit_view sec) l"
    and l2: "l2 = (case follow sec obj (view_next obj) l1 of None \<Rightarrow> l1 | Some n \<Rightarrow> walk sec n (update_view n set_route l1))"
    and dom: "\<And>n. follow sec obj (view_next obj) l1 = Some n \<Longrightarrow> walk_dom (sec, n, update_view n set_route l1)"
    and p: "follow sec obj (view_prev obj) l2 = Some p"
  have "unvisited l2 \<le> unvisited l1"
  proof (cases "follow sec obj (view_next obj) l1")
    case (Some n)
    have "unvisited (walk sec n (update_view n set_route l1)) < unvisited l1"
      using unvisited_walk [OF dom [OF Some]] follow_less [OF Some] by (rule order_le_less_trans)
    then show ?thesis using Some l2 by simp
  qed (use l2 in simp)
  then show "((sec, p, update_view p set_route l2), (sec, r, l)) \<in>
      measure (\<lambda>(sec, r, l). unvisited (update_view r (visit_view sec) l))"
    using follow_less [OF p, of sec] l1 by simp
qed simp

declare walk.simps [simp del]

subsection \<open>Routes that are set\<close>

definition startWalk :: "nat \<Rightarrow> view_layout \<Rightarrow> view_layout" where
  "startWalk r l = walk None r l"

definition walkTrack :: "int \<Rightarrow> nat \<Rightarrow> view_layout \<Rightarrow> view_layout" where
  "walkTrack s r l = walk (Some s) r l"

definition resetRoutes :: "view_layout \<Rightarrow> view_layout" where
  "resetRoutes l = map_track_views (\<lambda>e. e\<lparr>be_isVisited := False, vw_isRoute := False, vw_section := 0\<rparr>) l"

definition reset_marks :: "view_layout \<Rightarrow> view_layout" where
  "reset_marks l = map_track_views (\<lambda>e. e\<lparr>be_isVisited := False, vw_isRoute := False\<rparr>) l"

definition turnout_set :: "view_layout \<Rightarrow> route_turnout \<Rightarrow> bool" where
  "turnout_set l t =
     (case view_by_id (rt_turnoutId t) l of
        Some e \<Rightarrow> isTurnoutElement e \<and> td_closed (turnout_of e) = rt_closed t
      | None \<Rightarrow> False)"

definition set_active :: "bool \<Rightarrow> view \<Rightarrow> view" where
  "set_active b e = (case vw_data e of RouteButtonData a ts \<Rightarrow> e\<lparr>vw_data := RouteButtonData b ts\<rparr> | _ \<Rightarrow> e)"

definition route_turnouts_of :: "view \<Rightarrow> route_turnout list" where
  "route_turnouts_of e = (case vw_data e of RouteButtonData a ts \<Rightarrow> ts | _ \<Rightarrow> [])"

definition isRouteButton :: "view \<Rightarrow> bool" where
  "isRouteButton e \<longleftrightarrow> be_type e = BUTTON_ROUTE"

text \<open>The body of the loop over the route buttons.\<close>

definition check_route_button :: "view \<Rightarrow> view_layout \<Rightarrow> view_layout" where
  "check_route_button button l =
     (let ts = route_turnouts_of button;
          active = list_all (turnout_set l) ts;
          l1 = update_view (vw_ref button) (set_active active) l
      in if active \<and> length ts > 0
         then (case view_by_id (rt_turnoutId (hd ts)) l1 of
                 Some turnout \<Rightarrow> if isTurnoutElement turnout then startWalk (vw_ref turnout) l1 else l1
               | None \<Rightarrow> l1)
         else l1)"

definition checkRoutes :: "view_layout \<Rightarrow> view_layout" where
  "checkRoutes l = (let l1 = reset_marks l in fold check_route_button (filter isRouteButton (all_views l1)) l1)"

subsection \<open>Selection, blocks, runtime data of the route graph\<close>

definition getSelected :: "view_layout \<Rightarrow> view option" where
  "getSelected l = find vw_selected (all_views l)"

definition unselectAll :: "view_layout \<Rightarrow> view_layout" where
  "unselectAll l = map_views (\<lambda>e. e\<lparr>vw_selected := False\<rparr>) l"

definition setSelected :: "int \<Rightarrow> view_layout \<Rightarrow> view_layout" where
  "setSelected elementId l = map_views (\<lambda>e. if be_id e = elementId then e\<lparr>vw_selected := True\<rparr> else e) (unselectAll l)"

definition set_locoAddress :: "int \<Rightarrow> view \<Rightarrow> view" where
  "set_locoAddress a e = (case vw_data e of BlockData old rotation \<Rightarrow> e\<lparr>vw_data := BlockData a rotation\<rparr> | _ \<Rightarrow> e)"

definition locoAddress_of :: "view \<Rightarrow> int" where
  "locoAddress_of e = (case vw_data e of BlockData a rotation \<Rightarrow> a | _ \<Rightarrow> 0)"

definition isBlock :: "view \<Rightarrow> bool" where
  "isBlock e \<longleftrightarrow> be_type e = TRACK_BLOCK"

definition setBlockLocoAddress :: "nat \<Rightarrow> int \<Rightarrow> view_layout \<Rightarrow> view_layout" where
  "setBlockLocoAddress selectedBlock locoAddress l =
     update_view selectedBlock (set_locoAddress locoAddress)
       (map_views (\<lambda>e. if isBlock e \<and> locoAddress_of e = locoAddress then set_locoAddress 0 e else e) l)"

definition remove_turnout :: "int \<Rightarrow> view \<Rightarrow> view" where
  "remove_turnout i e =
     (case vw_data e of
        RouteButtonData a ts \<Rightarrow> e\<lparr>vw_data := RouteButtonData a (filter (\<lambda>t. rt_turnoutId t \<noteq> i) ts)\<rparr>
      | _ \<Rightarrow> e)"

text \<open>The element is in one layer; the names of the route buttons that lost a turnout are what the page shows.\<close>

fun remove_first_view :: "nat \<Rightarrow> view list \<Rightarrow> view list" where
  "remove_first_view r [] = []"
| "remove_first_view r (e # es) = (if vw_ref e = r then es else e # remove_first_view r es)"

definition has_ref :: "nat \<Rightarrow> view list \<Rightarrow> bool" where
  "has_ref r es \<longleftrightarrow> (\<exists>e\<in>set es. vw_ref e = r)"

definition remove_view :: "nat \<Rightarrow> view_layout \<Rightarrow> view_layout" where
  "remove_view r l =
     (if has_ref r (vl_buildings l) then l\<lparr>vl_buildings := remove_first_view r (vl_buildings l)\<rparr>
      else if has_ref r (vl_blocks l) then l\<lparr>vl_blocks := remove_first_view r (vl_blocks l)\<rparr>
      else if has_ref r (vl_sensors l) then l\<lparr>vl_sensors := remove_first_view r (vl_sensors l)\<rparr>
      else if has_ref r (vl_signals l) then l\<lparr>vl_signals := remove_first_view r (vl_signals l)\<rparr>
      else l\<lparr>vl_track := remove_first_view r (vl_track l)\<rparr>)"

definition mentions_turnout :: "int \<Rightarrow> view \<Rightarrow> bool" where
  "mentions_turnout i e \<longleftrightarrow> isRouteButton e \<and> (\<exists>t\<in>set (route_turnouts_of e). rt_turnoutId t = i)"

definition view_removeElement :: "view \<Rightarrow> view_layout \<Rightarrow> view_layout \<times> string list" where
  "view_removeElement element l =
     (remove_view (vw_ref element)
        (map_views (\<lambda>e. if mentions_turnout (be_id element) e then remove_turnout (be_id element) e else e) l),
      map be_name (filter (mentions_turnout (be_id element)) (all_views l)))"

record track_runtime =
  tk_id :: int
  tk_section :: int
  tk_travelDirection :: element_direction

definition isTrack :: "view \<Rightarrow> bool" where
  "isTrack e \<longleftrightarrow> be_type e \<in> {TRACK_STRAIGHT, TRACK_DIRECTION, TRACK_END, TRACK_CORNER, TRACK_CURVE, TRACK_CROSSING, TRACK_LEVEL_CROSSING,
     TRACK_TURNOUT, TRACK_TURNOUT_LEFT, TRACK_TURNOUT_RIGHT, TRACK_TURNOUT_DOUBLE, TRACK_TURNOUT_TWO_WAY, TRACK_TURNOUT_THREE_WAY,
     TRACK_SENSOR, TRACK_SIGNAL, TRACK_SIGNAL2, TRACK_SIGNAL3, TRACK_SIGNAL4, TRACK_BLOCK}"

text \<open>The map by id keeps the last of several elements with one id.\<close>

definition apply_runtime :: "view list \<Rightarrow> track_runtime \<Rightarrow> view_layout \<Rightarrow> view_layout" where
  "apply_runtime tracks t l =
     (case find (\<lambda>e. be_id e = tk_id t) (rev tracks) of
        Some e \<Rightarrow> update_view (vw_ref e) (\<lambda>v. v\<lparr>vw_section := tk_section t, vw_travelDirection := tk_travelDirection t\<rparr>) l
      | None \<Rightarrow> l)"

definition forward_rotation :: "view list \<Rightarrow> view \<Rightarrow> int option" where
  "forward_rotation physical block =
     (case find (\<lambda>t. be_x t = be_x block \<and> be_y t = be_y block) physical of
        None \<Rightarrow> None
      | Some t \<Rightarrow>
          if vw_travelDirection t = DirUnknown then None
          else Some (normalizeRotation (if vw_travelDirection t = DirForward then be_rotation t else be_rotation t + 180)))"

definition set_forward_rotation :: "view list \<Rightarrow> view \<Rightarrow> view" where
  "set_forward_rotation physical e =
     (if isBlock e
      then (case vw_data e of BlockData a old \<Rightarrow> e\<lparr>vw_data := BlockData a (forward_rotation physical e)\<rparr> | _ \<Rightarrow> e)
      else e)"

definition applyRouteGraphRuntime :: "track_runtime list option \<Rightarrow> view_layout \<Rightarrow> view_layout" where
  "applyRouteGraphRuntime trackRuntime l =
     (let l1 = map_track_views (\<lambda>e. e\<lparr>vw_section := 0, vw_travelDirection := DirUnknown\<rparr>) l
      in case trackRuntime of
           None \<Rightarrow> l1
         | Some ts \<Rightarrow>
             let l2 = fold (apply_runtime (getTrackElements l)) ts l1
             in map_track_views (set_forward_rotation (filter isTrack (vl_track l2))) l2)"

end
