(* ===== verification/Commands.thy ===== *)
theory Commands
  imports WsClient LayoutViews
begin

text \<open>
  The commands the client sends: \<open>services/wsApi.ts\<close>, whose methods build the message that \<open>wsClient.send\<close> writes;
  \<open>services/layoutOutput.ts\<close> and \<open>models/editor/turnout/turnoutAccessoryHelpers.ts\<close>, which choose the command for an
  output. A method is the message it builds; a function that may send nothing gives an option.
\<close>

subsection \<open>Messages\<close>

definition message :: "string \<Rightarrow> (string \<times> json) list \<Rightarrow> json" where
  "message type payload = TObj [(''type'', TStr type), (''data'', TObj payload)]"

definition optional_json :: "string \<Rightarrow> json option \<Rightarrow> (string \<times> json) list" where
  "optional_json k v = (case v of Some x \<Rightarrow> [(k, x)] | None \<Rightarrow> [])"

definition string_or_null :: "string option \<Rightarrow> json" where
  "string_or_null v = (case v of Some s \<Rightarrow> TStr s | None \<Rightarrow> TNull)"

text \<open>\<open>...(x ? { k: x } : {})\<close> for a text that may be missing\<close>

definition filled_json :: "string \<Rightarrow> string option \<Rightarrow> (string \<times> json) list" where
  "filled_json k v = (case v of Some s \<Rightarrow> if s = [] then [] else [(k, TStr s)] | None \<Rightarrow> [])"

definition api_send :: "json \<Rightarrow> bool \<Rightarrow> ws \<Rightarrow> ws \<times> bool" where
  "api_send m ok w = ws_send m ok w"

definition setTrackPower :: "bool \<Rightarrow> json" where
  "setTrackPower b = message ''setTrackPower'' [(''on'', TBool b)]"

definition powerOn :: json where "powerOn = setTrackPower True"
definition powerOff :: json where "powerOff = setTrackPower False"

definition setProgrammingPower :: "bool \<Rightarrow> json" where
  "setProgrammingPower b = message ''setProgrammingPower'' [(''on'', TBool b)]"

definition emergencyStop :: json where "emergencyStop = message ''emergencyStop'' []"

definition writeDccExDirectCommand :: "string \<Rightarrow> json" where
  "writeDccExDirectCommand command = message ''writeDccExDirectCommand'' [(''command'', TStr command)]"

definition setLoco :: "int \<Rightarrow> int \<Rightarrow> string \<Rightarrow> json" where
  "setLoco locoAddress speed direction =
     message ''setLoco'' [(''locoAddress'', TInt locoAddress), (''speed'', TInt speed), (''direction'', TStr direction)]"

definition getLoco :: "int \<Rightarrow> json" where
  "getLoco locoAddress = message ''getLoco'' [(''locoAddress'', TInt locoAddress)]"

definition setLocoFunction :: "int \<Rightarrow> int \<Rightarrow> bool \<Rightarrow> json" where
  "setLocoFunction locoAddress functionNumber active =
     message ''setLocoFunction'' [(''locoAddress'', TInt locoAddress), (''functionNumber'', TInt functionNumber), (''active'', TBool active)]"

definition reserveLoco :: "int \<Rightarrow> string \<Rightarrow> string \<Rightarrow> string option \<Rightarrow> string option \<Rightarrow> json" where
  "reserveLoco locoAddress ownerId ownerType ownerName reason =
     message ''reserveLoco''
       ([(''locoAddress'', TInt locoAddress), (''ownerId'', TStr ownerId), (''ownerType'', TStr ownerType)] @
        filled_json ''ownerName'' ownerName @ filled_json ''reason'' reason)"

definition releaseLocoReservation :: "int \<Rightarrow> string \<Rightarrow> json" where
  "releaseLocoReservation locoAddress ownerId =
     message ''releaseLocoReservation'' [(''locoAddress'', TInt locoAddress), (''ownerId'', TStr ownerId)]"

definition setTurnout :: "int \<Rightarrow> bool \<Rightarrow> json" where
  "setTurnout address shut = message ''setTurnout'' [(''address'', TInt address), (''closed'', TBool shut)]"

definition setSensor :: "int \<Rightarrow> bool \<Rightarrow> json" where
  "setSensor address b = message ''setSensor'' [(''address'', TInt address), (''on'', TBool b)]"

definition setBasicAccessory :: "int \<Rightarrow> bool \<Rightarrow> json" where
  "setBasicAccessory address active = message ''setBasicAccessory'' [(''address'', TInt address), (''active'', TBool active)]"

definition setVpin :: "int \<Rightarrow> bool \<Rightarrow> json" where
  "setVpin vpin active = message ''setVpin'' [(''vpin'', TInt vpin), (''active'', TBool active)]"

definition setSignalAspect :: "int \<Rightarrow> int \<Rightarrow> bool option \<Rightarrow> json" where
  "setSignalAspect address aspect turnoutPhysicalValue =
     message ''setSignalAspect''
       ([(''address'', TInt address), (''aspect'', TInt aspect)] @
        optional_json ''turnoutPhysicalValue'' (map_option TBool turnoutPhysicalValue))"

definition programmingCommand :: "string \<Rightarrow> string \<Rightarrow> (string \<times> json) list \<Rightarrow> json" where
  "programmingCommand requestId action values =
     message ''programmingCommand'' ([(''requestId'', TStr requestId), (''action'', TStr action)] @ values)"

definition setBlock :: "string \<Rightarrow> string option \<Rightarrow> int option \<Rightarrow> json" where
  "setBlock blockId locoId locoAddress =
     message ''setBlock''
       ([(''blockId'', TStr blockId), (''locoId'', string_or_null locoId)] @ optional_json ''locoAddress'' (map_option TInt locoAddress))"

definition setBlockRemove :: "string \<Rightarrow> string option \<Rightarrow> json" where
  "setBlockRemove blockId locoId = message ''setBlockRemove'' [(''blockId'', TStr blockId), (''locoId'', string_or_null locoId)]"

definition setBlocksReset :: json where "setBlocksReset = message ''setBlocksReset'' []"
definition getBlocks :: json where "getBlocks = message ''getBlocks'' []"
definition getLayoutRuntimeSnapshot :: json where "getLayoutRuntimeSnapshot = message ''getLayoutRuntimeSnapshot'' []"
definition routeLock :: json where "routeLock = message ''routeLock'' []"
definition routeUnlock :: json where "routeUnlock = message ''routeUnlock'' []"

definition reserveRoute :: "string \<Rightarrow> string \<Rightarrow> json" where
  "reserveRoute fromBlockName toBlockName =
     message ''reserveRoute'' [(''fromBlockName'', TStr fromBlockName), (''toBlockName'', TStr toBlockName)]"

definition releaseRouteReservation :: "string \<Rightarrow> string \<Rightarrow> json" where
  "releaseRouteReservation fromBlockName toBlockName =
     message ''releaseRouteReservation'' [(''fromBlockName'', TStr fromBlockName), (''toBlockName'', TStr toBlockName)]"

definition clearAllRouteReservations :: json where "clearAllRouteReservations = message ''clearAllRouteReservations'' []"
definition getRouteReservations :: json where "getRouteReservations = message ''getRouteReservations'' []"

definition levelCrossingCommand :: "string \<Rightarrow> string \<Rightarrow> json option \<Rightarrow> json" where
  "levelCrossingCommand requestId action document =
     message ''levelCrossingCommand'' ([(''requestId'', TStr requestId), (''action'', TStr action)] @ optional_json ''document'' document)"

definition automationCommand :: "string \<Rightarrow> string \<Rightarrow> json" where
  "automationCommand requestId action = message ''automationCommand'' [(''requestId'', TStr requestId), (''action'', TStr action)]"

definition runScript :: "string option \<Rightarrow> string \<Rightarrow> string option \<Rightarrow> json" where
  "runScript script source elementId =
     message ''runScript''
       (optional_json ''script'' (map_option TStr script) @ [(''source'', TStr source), (''elementId'', string_or_null elementId)])"

definition stopScript :: json where "stopScript = message ''stopScript'' []"
definition getScriptRuntimeState :: json where "getScriptRuntimeState = message ''getScriptRuntimeState'' []"

definition task_command :: "string \<Rightarrow> string \<Rightarrow> json" where
  "task_command type taskIdOrName = message type [(''taskIdOrName'', TStr taskIdOrName)]"

definition startTask :: "string \<Rightarrow> json" where "startTask = task_command ''startTask''"
definition startAllTasks :: json where "startAllTasks = message ''startAllTasks'' []"
definition pauseTask :: "string \<Rightarrow> json" where "pauseTask = task_command ''pauseTask''"
definition pauseAllTasks :: json where "pauseAllTasks = message ''pauseAllTasks'' []"
definition resumeTask :: "string \<Rightarrow> json" where "resumeTask = task_command ''resumeTask''"
definition finishTask :: "string \<Rightarrow> json" where "finishTask = task_command ''finishTask''"
definition abortTask :: "string \<Rightarrow> json" where "abortTask = task_command ''abortTask''"
definition finishAllTasks :: json where "finishAllTasks = message ''finishAllTasks'' []"
definition abortAllTasks :: json where "abortAllTasks = message ''abortAllTasks'' []"

definition setRuntimeVariable :: "string \<Rightarrow> json \<Rightarrow> json" where
  "setRuntimeVariable key v = message ''setRuntimeVariable'' [(''key'', TStr key), (''value'', v)]"

definition getRuntimeVariables :: json where "getRuntimeVariables = message ''getRuntimeVariables'' []"

definition setEditorEditMode :: "bool \<Rightarrow> json" where
  "setEditorEditMode editMode = message ''setEditorEditMode'' [(''editMode'', TBool editMode)]"

definition getTaskRuntimeState :: json where "getTaskRuntimeState = message ''getTaskRuntimeState'' []"

subsection \<open>Output modes and aspects\<close>

definition normalizeOutputCommandMode :: "jsval \<Rightarrow> turnout_mode" where
  "normalizeOutputCommandMode v = (if v = JStr ''vpin'' then ModeVpin else ModeAccessory)"

definition normalizeTurnoutOutputMode :: "jsval \<Rightarrow> turnout_mode" where
  "normalizeTurnoutOutputMode v = (if v = JStr ''extended'' then ModeExtended else ModeAccessory)"

definition DEFAULT_TURNOUT_CLOSED_ASPECT :: int where "DEFAULT_TURNOUT_CLOSED_ASPECT = 0"
definition DEFAULT_TURNOUT_OPENED_ASPECT :: int where "DEFAULT_TURNOUT_OPENED_ASPECT = 1"

definition normalizeTurnoutAspect :: "jsval \<Rightarrow> int \<Rightarrow> int" where
  "normalizeTurnoutAspect v fallback =
     (case to_number v of Fin r \<Rightarrow> max 0 (min 255 (js_trunc r)) | _ \<Rightarrow> fallback)"

definition getTurnoutClosedAspect :: "turnout_data \<Rightarrow> int" where
  "getTurnoutClosedAspect d = normalizeTurnoutAspect (td_closedAspect d) DEFAULT_TURNOUT_CLOSED_ASPECT"

definition getTurnoutOpenedAspect :: "turnout_data \<Rightarrow> int" where
  "getTurnoutOpenedAspect d = normalizeTurnoutAspect (td_openedAspect d) DEFAULT_TURNOUT_OPENED_ASPECT"

text \<open>
  \<open>installTurnoutAccessoryModes\<close> replaces \<open>fromJSON\<close>, \<open>toJSON\<close> and \<open>clone\<close> of the turnout views by ones that go on
  with the output mode and the aspects.
\<close>

definition turnout_mode_json :: "turnout_mode \<Rightarrow> jsval" where
  "turnout_mode_json m = JStr (case m of ModeAccessory \<Rightarrow> ''accessory'' | ModeExtended \<Rightarrow> ''extended'' | ModeVpin \<Rightarrow> ''vpin'')"

definition installed_fromJSON :: "jsval \<Rightarrow> turnout_data \<Rightarrow> turnout_data" where
  "installed_fromJSON data d =
     d\<lparr>td_outputMode := normalizeTurnoutOutputMode (js_get data ''outputMode''),
       td_closedAspect := js_int (normalizeTurnoutAspect (js_get data ''turnoutClosedAspect'') 0),
       td_openedAspect := js_int (normalizeTurnoutAspect (js_get data ''turnoutOpenedAspect'') 1)\<rparr>"

definition installed_toJSON :: "turnout_data \<Rightarrow> (string \<times> jsval) list" where
  "installed_toJSON d =
     [(''outputMode'', turnout_mode_json (normalizeTurnoutOutputMode (turnout_mode_json (td_outputMode d)))),
      (''turnoutClosedAspect'', js_int (getTurnoutClosedAspect d)), (''turnoutOpenedAspect'', js_int (getTurnoutOpenedAspect d))]"

definition installed_clone :: "turnout_data \<Rightarrow> turnout_data \<Rightarrow> turnout_data" where
  "installed_clone original copy =
     copy\<lparr>td_outputMode := normalizeTurnoutOutputMode (turnout_mode_json (td_outputMode original)),
          td_closedAspect := js_int (getTurnoutClosedAspect original), td_openedAspect := js_int (getTurnoutOpenedAspect original)\<rparr>"

subsection \<open>Choosing the command for an output\<close>

definition sendBinaryOutput :: "turnout_mode \<Rightarrow> int \<Rightarrow> bool \<Rightarrow> json option" where
  "sendBinaryOutput mode address active =
     (if address \<le> 0 \<or> address > 32767 then None
      else if mode = ModeVpin then Some (setVpin address active)
      else Some (setBasicAccessory address active))"

record turnout_options =
  to_closedValue :: "bool option"
  to_closedAspect :: "int option"
  to_openedAspect :: "int option"

definition no_options :: turnout_options where
  "no_options = \<lparr>to_closedValue = None, to_closedAspect = None, to_openedAspect = None\<rparr>"

definition option_or :: "'a option \<Rightarrow> 'a \<Rightarrow> 'a" where
  "option_or v d = (case v of Some x \<Rightarrow> x | None \<Rightarrow> d)"

definition sendTurnoutOutput :: "turnout_mode \<Rightarrow> int \<Rightarrow> bool \<Rightarrow> turnout_options \<Rightarrow> json option" where
  "sendTurnoutOutput mode address physicalValue options =
     (if address \<le> 0 \<or> address > 2048 then None
      else if mode = ModeExtended
      then (let logicalClosed = (physicalValue = option_or (to_closedValue options) False);
                rawAspect = (if logicalClosed then option_or (to_closedAspect options) 0 else option_or (to_openedAspect options) 1)
            in Some (setSignalAspect address (max 0 (min 255 rawAspect)) (Some physicalValue)))
      else if mode = ModeVpin then Some (setVpin address physicalValue)
      else Some (setTurnout address physicalValue))"

end
