(* ===== verification/RouteMarking.thy ===== *)
theory RouteMarking
  imports LayoutViews
begin

text \<open>
  What \<open>checkRoutes\<close> of theory \<open>LayoutViews\<close> shows: a walk marks what can be reached over ends that meet, and the
  check marks what the walks from its starting turnouts mark and activates the route buttons that are in place.
\<close>

subsection \<open>What a walk marks\<close>

text \<open>The element at one end of an element, when one of its own ends is there; elements that are linked in this way.\<close>

definition side :: "int option \<Rightarrow> view_layout \<Rightarrow> view \<Rightarrow> point \<Rightarrow> nat option" where
  "side sec l obj p =
     (case view_at p l of
        None \<Rightarrow> None
      | Some e \<Rightarrow> if (sec = None \<or> \<not> isTurnoutElement e) \<and> leads_back obj e then Some (vw_ref e) else None)"

definition linked :: "int option \<Rightarrow> view_layout \<Rightarrow> nat \<Rightarrow> nat \<Rightarrow> bool" where
  "linked sec l a b \<longleftrightarrow>
     (case view_by_ref a l of
        None \<Rightarrow> False
      | Some obj \<Rightarrow> side sec l obj (view_next obj) = Some b \<or> side sec l obj (view_prev obj) = Some b)"

definition visited_ref :: "view_layout \<Rightarrow> nat \<Rightarrow> bool" where
  "visited_ref l r \<longleftrightarrow> (\<exists>e\<in>set (all_views l). vw_ref e = r \<and> be_isVisited e)"

definition fresh_links :: "int option \<Rightarrow> view_layout \<Rightarrow> (nat \<times> nat) set" where
  "fresh_links sec l = {(a, b). linked sec l a b \<and> \<not> visited_ref l b}"

definition route_from :: "int option \<Rightarrow> view_layout \<Rightarrow> nat \<Rightarrow> nat set" where
  "route_from sec l r = {x. (r, x) \<in> (fresh_links sec l)\<^sup>*}"

definition marked :: "int option \<Rightarrow> nat set \<Rightarrow> view_layout \<Rightarrow> view_layout" where
  "marked sec S l = map_views (\<lambda>e. if vw_ref e \<in> S then visit_view sec e else e) l"

definition refs_distinct :: "view_layout \<Rightarrow> bool" where
  "refs_distinct l \<longleftrightarrow> distinct (map vw_ref (all_views l))"

text \<open>Marking changes neither the identity nor the place of an element.\<close>

definition neutral :: "(view \<Rightarrow> view) \<Rightarrow> bool" where
  "neutral f \<longleftrightarrow> (\<forall>e. vw_ref (f e) = vw_ref e \<and> be_type (f e) = be_type e \<and> view_next (f e) = view_next e \<and> view_prev (f e) = view_prev e \<and>
     be_pos (f e) = be_pos e \<and> (\<forall>p. view_hit p (f e) = view_hit p e))"

lemma place_fields:
  assumes "e' = e\<lparr>be_isVisited := v, vw_isRoute := b, vw_section := s\<rparr>"
  shows "be_type e' = be_type e" "view_next e' = view_next e" "view_prev e' = view_prev e" "be_pos e' = be_pos e" "view_hit p e' = view_hit p e"
  unfolding assms
  by (simp_all add: view_next_def view_prev_def view_hit_def be_pos_def view_turnout_def turnout_of_def hitTest_def getBounds_def
      block_getBounds_def base_getBounds_def getNextItemXy_def getPrevItemXy_def corner_getNextItemXy_def corner_getPrevItemXy_def
      curve_getNextItemXy_def curve_getPrevItemXy_def base_getNextItemXy_def base_getPrevItemXy_def left_getNextItemXy_def
      left_getPrevItemXy_def right_getNextItemXy_def right_getPrevItemXy_def isClosed_def base_element.defs track_element.defs
      new_track_def cong: element_type.case_cong)

lemma neutral_visit: "neutral (visit_view sec)" and neutral_route: "neutral set_route" and neutral_id: "neutral (\<lambda>e. e)"
proof -
  have "\<exists>v b s. visit_view sec e = e\<lparr>be_isVisited := v, vw_isRoute := b, vw_section := s\<rparr>" for e
    by (rule exI [of _ True], rule exI [of _ True], rule exI [of _ "case sec of None \<Rightarrow> vw_section e | Some s \<Rightarrow> s"])
      (simp add: visit_view_def split: option.split)
  then show "neutral (visit_view sec)" unfolding neutral_def using place_fields by (metis visit_view_fields(2))
  have "set_route e = e\<lparr>be_isVisited := be_isVisited e, vw_isRoute := True, vw_section := vw_section e\<rparr>" for e
    by (simp add: set_route_def)
  then show "neutral set_route" unfolding neutral_def using place_fields by (metis set_route_fields(2))
qed (simp add: neutral_def)

lemma neutral_if: "neutral f \<Longrightarrow> neutral g \<Longrightarrow> neutral (\<lambda>e. if P e then f e else g e)"
  by (simp add: neutral_def)

lemma by_ref_neutral: "neutral f \<Longrightarrow> view_by_ref r (map_views f l) = map_option f (view_by_ref r l)"
  by (simp add: view_by_ref_def find_map_conv comp_def neutral_def)

lemma at_neutral: "neutral f \<Longrightarrow> view_at p (map_views f l) = map_option f (view_at p l)"
  by (simp add: view_at_def find_map_conv comp_def neutral_def)

lemma leads_back_neutral: "neutral f \<Longrightarrow> neutral g \<Longrightarrow> leads_back (f obj) (g e) = leads_back obj e"
  by (simp add: leads_back_def neutral_def)

lemma side_neutral: "neutral f \<Longrightarrow> neutral g \<Longrightarrow> side sec (map_views f l) (g obj) p = side sec l obj p"
  using leads_back_neutral [of g f]
  by (cases "view_at p l") (simp_all add: side_def at_neutral isTurnoutElement_def neutral_def)

lemma linked_neutral: "neutral f \<Longrightarrow> linked sec (map_views f l) a b = linked sec l a b"
  by (cases "view_by_ref a l") (simp_all add: linked_def by_ref_neutral side_neutral, simp add: neutral_def)

lemma marked_neutral: "neutral (\<lambda>e. if vw_ref e \<in> S then visit_view sec e else e)"
  by (intro neutral_if neutral_visit neutral_id)

lemmas marked_places =
  by_ref_neutral [OF marked_neutral, folded marked_def] side_neutral [OF marked_neutral, folded marked_def]
  linked_neutral [OF marked_neutral, folded marked_def]

lemma linked_route: "linked sec (update_view n set_route l) a b = linked sec l a b"
  unfolding update_view_def by (intro linked_neutral neutral_if neutral_route neutral_id)

lemma by_ref_route: "view_by_ref r (update_view n set_route l) = None \<longleftrightarrow> view_by_ref r l = None"
  unfolding update_view_def by (subst by_ref_neutral) (intro neutral_if neutral_route neutral_id, simp)

lemma refs_map: "neutral f \<Longrightarrow> map vw_ref (all_views (map_views f l)) = map vw_ref (all_views l)"
  by (simp add: neutral_def)

lemma refs_distinct_marked: "refs_distinct (marked sec S l) = refs_distinct l"
  unfolding refs_distinct_def marked_def by (subst refs_map [OF marked_neutral]) simp

lemma refs_distinct_route: "refs_distinct (update_view n set_route l) = refs_distinct l"
  unfolding refs_distinct_def update_view_def by (subst refs_map) (intro neutral_if neutral_route neutral_id, simp)

lemma visited_map: "visited_ref (map_views f l) r \<longleftrightarrow> (\<exists>e\<in>set (all_views l). vw_ref (f e) = r \<and> be_isVisited (f e))"
  by (simp add: visited_ref_def)

lemma by_ref_some: "view_by_ref r l \<noteq> None \<longleftrightarrow> (\<exists>e\<in>set (all_views l). vw_ref e = r)"
  by (auto simp: view_by_ref_def find_None_iff)

lemma visited_marked: "visited_ref (marked sec S l) r \<longleftrightarrow> visited_ref l r \<or> (r \<in> S \<and> view_by_ref r l \<noteq> None)"
  unfolding marked_def visited_map unfolding by_ref_some visited_ref_def by (auto split: if_splits)

lemma visited_route: "visited_ref (update_view n set_route l) r = visited_ref l r"
  unfolding update_view_def visited_map unfolding visited_ref_def by (intro bex_cong) (auto split: if_splits)

lemma visit_visit [simp]: "visit_view sec (visit_view sec e) = visit_view sec e" "visit_view sec (set_route e) = visit_view sec e"
  by (simp_all add: visit_view_def set_route_def Let_def split: option.split)

lemma map_views_comp: "map_views f (map_views g l) = map_views (\<lambda>e. f (g e)) l"
  by (simp add: map_views_def map_track_views_def comp_def)

lemma map_views_cong: "(\<And>e. f e = g e) \<Longrightarrow> map_views f l = map_views g l"
  by (simp add: map_views_def map_track_views_def)

lemma marked_marked: "marked sec S (marked sec T l) = marked sec (S \<union> T) l"
  unfolding marked_def map_views_comp by (rule map_views_cong) simp

lemma marked_route: "n \<in> S \<Longrightarrow> marked sec S (update_view n set_route l) = marked sec S l"
  unfolding marked_def update_view_def map_views_comp by (rule map_views_cong) simp

lemma visit_marked: "update_view r (visit_view sec) l = marked sec {r} l"
  unfolding marked_def update_view_def by (rule map_views_cong) simp

lemma side_in: "side sec l obj p = Some n \<Longrightarrow> view_by_ref n l \<noteq> None"
  by (auto simp: side_def view_at_def view_by_ref_def find_None_iff dest!: find_SomeD split: option.splits if_splits)

lemma follow_side:
  assumes "refs_distinct l"
  shows "follow sec obj p l = (case side sec l obj p of None \<Rightarrow> None | Some n \<Rightarrow> if visited_ref l n then None else Some n)"
proof (cases "view_at p l")
  case (Some e)
  then have "e \<in> set (all_views l)" by (auto simp: view_at_def dest: find_SomeD)
  then have "visited_ref l (vw_ref e) = be_isVisited e"
    using assms by (auto simp: visited_ref_def refs_distinct_def distinct_map inj_on_def)
  then show ?thesis using Some by (auto simp: follow_def side_def)
qed (simp add: follow_def side_def)

text \<open>One of the two branches of a walk: it marks elements that are reachable over fresh links, and all that are behind them.\<close>

definition closed_under :: "int option \<Rightarrow> view_layout \<Rightarrow> nat set \<Rightarrow> nat set \<Rightarrow> bool" where
  "closed_under sec l A S \<longleftrightarrow> (\<forall>x\<in>A. \<forall>y. linked sec l x y \<longrightarrow> y \<in> S \<or> visited_ref l y)"

definition walk_ok :: "int option \<Rightarrow> view_layout \<Rightarrow> nat \<Rightarrow> nat set \<Rightarrow> bool" where
  "walk_ok sec l r S \<longleftrightarrow> walk sec r l = marked sec S l \<and> r \<in> S \<and> S \<subseteq> route_from sec l r \<and> closed_under sec l S S"

lemma fresh_links_marked: "fresh_links sec (update_view n set_route (marked sec S l)) \<subseteq> fresh_links sec l"
  by (auto simp: fresh_links_def linked_route marked_places(3) visited_route visited_marked)

lemma route_from_step:
  assumes "linked sec l r n" and "\<not> visited_ref l n"
  shows "route_from sec (update_view n set_route (marked sec S l)) n \<subseteq> route_from sec l r"
proof
  fix x assume "x \<in> route_from sec (update_view n set_route (marked sec S l)) n"
  then have "(n, x) \<in> (fresh_links sec l)\<^sup>*"
    using rtrancl_mono [OF fresh_links_marked, of sec n S l] by (auto simp: route_from_def)
  then show "x \<in> route_from sec l r"
    using assms by (auto simp: route_from_def fresh_links_def intro: converse_rtrancl_into_rtrancl)
qed

lemma walk_branch:
  assumes "refs_distinct l" and obj: "view_by_ref r l = Some obj" and p: "p = view_next obj \<or> p = view_prev obj"
    and IH: "\<And>n. follow sec obj' p (marked sec S l) = Some n \<Longrightarrow> \<exists>T. walk_ok sec (update_view n set_route (marked sec S l)) n T"
    and obj': "side sec (marked sec S l) obj' p = side sec l obj p"
    and S: "S \<subseteq> route_from sec l r" and A: "closed_under sec l A S" "S \<subseteq> insert r A"
  shows "\<exists>T. (case follow sec obj' p (marked sec S l) of None \<Rightarrow> marked sec S l
      | Some n \<Rightarrow> walk sec n (update_view n set_route (marked sec S l))) = marked sec T l \<and> S \<subseteq> T \<and> T \<subseteq> route_from sec l r \<and>
      closed_under sec l (T - {r}) T \<and> (\<forall>n. side sec l obj p = Some n \<longrightarrow> n \<in> T \<or> visited_ref l n)"
proof -
  let ?l = "marked sec S l"
  have follow: "follow sec obj' p ?l = (case side sec l obj p of None \<Rightarrow> None | Some n \<Rightarrow> if visited_ref ?l n then None else Some n)"
    using follow_side [of ?l sec obj' p] assms(1) obj' by (simp add: refs_distinct_marked)
  have old: "closed_under sec l (S - {r}) S" using A by (auto simp: closed_under_def)
  show ?thesis
  proof (cases "follow sec obj' p ?l")
    case None
    then have "\<forall>n. side sec l obj p = Some n \<longrightarrow> n \<in> S \<or> visited_ref l n"
      using follow by (auto simp: visited_marked split: option.splits if_splits)
    then show ?thesis using None S old by (intro exI [of _ S]) simp
  next
    case (Some n)
    then have n: "side sec l obj p = Some n" "\<not> visited_ref ?l n" using follow by (auto split: option.splits if_splits)
    have link: "linked sec l r n" using n(1) obj p by (auto simp: linked_def)
    obtain T where T: "walk_ok sec (update_view n set_route ?l) n T" using IH [OF Some] by blast
    have "walk sec n (update_view n set_route ?l) = marked sec (T \<union> S) l"
      using T by (simp add: walk_ok_def marked_route marked_marked)
    moreover have "T \<subseteq> route_from sec l r"
      using T route_from_step [OF link, of S] n(2) by (auto simp: walk_ok_def visited_marked)
    moreover have "closed_under sec l T (T \<union> S)"
      using T by (auto simp: walk_ok_def closed_under_def linked_route marked_places(3) visited_route visited_marked)
    moreover have "n \<in> T" using T by (simp add: walk_ok_def)
    ultimately show ?thesis using Some n(1) S old by (intro exI [of _ "T \<union> S"]) (auto simp: closed_under_def)
  qed
qed

lemma follow_enters:
  "follow sec obj p l = Some n \<Longrightarrow> view_by_ref n (update_view n set_route l) \<noteq> None"
proof -
  assume "follow sec obj p l = Some n"
  then have "view_by_ref n l \<noteq> None" unfolding by_ref_some using follow_Some by blast
  then show ?thesis by (simp only: by_ref_route) simp
qed

lemma walk_ok_exists:
  "refs_distinct l \<Longrightarrow> view_by_ref r l \<noteq> None \<Longrightarrow> \<exists>T. walk_ok sec l r T"
proof (induction sec r l rule: walk.induct)
  case (1 sec r l)
  then obtain obj where obj: "view_by_ref r l = Some obj" by blast
  have l1: "update_view r (visit_view sec) l = marked sec {r} l" by (rule visit_marked)
  have IH1: "\<exists>T. walk_ok sec (update_view n set_route (marked sec {r} l)) n T"
    if "follow sec obj (view_next obj) (marked sec {r} l) = Some n" for n
    using 1(1) [OF obj refl] that 1(3) follow_enters [OF that] by (simp add: l1 refs_distinct_route refs_distinct_marked)
  have side_obj: "side sec (marked sec S l) obj p = side sec l obj p" for S p
    using side_neutral [OF marked_neutral neutral_id] by (simp add: marked_def)
  have start: "{r} \<subseteq> route_from sec l r" "closed_under sec l {} {r}" by (simp_all add: route_from_def closed_under_def)
  let ?l2 = "case follow sec obj (view_next obj) (marked sec {r} l) of None \<Rightarrow> marked sec {r} l
      | Some n \<Rightarrow> walk sec n (update_view n set_route (marked sec {r} l))"
  have "\<exists>T. ?l2 = marked sec T l \<and> {r} \<subseteq> T \<and> T \<subseteq> route_from sec l r \<and> closed_under sec l (T - {r}) T \<and>
      (\<forall>n. side sec l obj (view_next obj) = Some n \<longrightarrow> n \<in> T \<or> visited_ref l n)"
    using walk_branch [where p = "view_next obj" and obj' = obj and S = "{r}" and A = "{}", OF 1(3) obj _ IH1 side_obj start] by simp
  then obtain T where T: "?l2 = marked sec T l" "r \<in> T" "T \<subseteq> route_from sec l r" "closed_under sec l (T - {r}) T"
      "\<forall>n. side sec l obj (view_next obj) = Some n \<longrightarrow> n \<in> T \<or> visited_ref l n"
    by auto
  have IH2: "\<exists>U. walk_ok sec (update_view n set_route (marked sec T l)) n U"
    if f: "follow sec obj (view_prev obj) (marked sec T l) = Some n" for n
  proof -
    have "follow sec obj (view_prev obj) ?l2 = Some n" using f T(1) by simp
    from 1(2) [OF obj refl refl, unfolded l1, OF this] follow_enters [OF f] 1(3) show ?thesis
      by (simp only: T(1) refs_distinct_route refs_distinct_marked) simp
  qed
  let ?l3 = "case follow sec obj (view_prev obj) (marked sec T l) of None \<Rightarrow> marked sec T l
      | Some p \<Rightarrow> walk sec p (update_view p set_route (marked sec T l))"
  have "\<exists>U. ?l3 = marked sec U l \<and> T \<subseteq> U \<and> U \<subseteq> route_from sec l r \<and> closed_under sec l (U - {r}) U \<and>
      (\<forall>n. side sec l obj (view_prev obj) = Some n \<longrightarrow> n \<in> U \<or> visited_ref l n)"
    using T by (intro walk_branch [where p = "view_prev obj" and A = "T - {r}", OF 1(3) obj _ IH2 side_obj]) auto
  then obtain U where U: "?l3 = marked sec U l" "T \<subseteq> U" "U \<subseteq> route_from sec l r" "closed_under sec l (U - {r}) U"
      "\<forall>n. side sec l obj (view_prev obj) = Some n \<longrightarrow> n \<in> U \<or> visited_ref l n"
    by blast
  have "walk sec r l = ?l3" by (simp only: walk.simps [of sec r l] obj option.case Let_def l1 T(1))
  moreover have "closed_under sec l U U"
    unfolding closed_under_def
  proof (intro ballI allI impI)
    fix x y assume "x \<in> U" and "linked sec l x y"
    then show "y \<in> U \<or> visited_ref l y"
      using U(2,4,5) T(5) obj by (cases "x = r") (auto simp: closed_under_def linked_def)
  qed
  ultimately have "walk_ok sec l r U" using U T(2) by (auto simp: walk_ok_def)
  then show ?case by blast
qed

lemma route_from_closed:
  assumes "r \<in> S" and "closed_under sec l S S"
  shows "route_from sec l r \<subseteq> S"
proof
  fix x assume "x \<in> route_from sec l r"
  then have "(r, x) \<in> (fresh_links sec l)\<^sup>*" by (simp add: route_from_def)
  then show "x \<in> S"
    by induction (use assms in \<open>auto simp: closed_under_def fresh_links_def\<close>)
qed

text \<open>A walk marks exactly the elements that links over unvisited elements lead to, and changes nothing else.\<close>

lemma walk_marks:
  assumes "refs_distinct l" and "view_by_ref r l \<noteq> None"
  shows "walk sec r l = marked sec (route_from sec l r) l"
proof -
  obtain S where "walk_ok sec l r S" using walk_ok_exists [OF assms] by blast
  then have "walk sec r l = marked sec S l" and "S = route_from sec l r"
    using route_from_closed [of r S sec l] by (auto simp: walk_ok_def)
  then show ?thesis by simp
qed

subsection \<open>What is marked when routes are checked\<close>

definition button_set :: "view_layout \<Rightarrow> view \<Rightarrow> bool" where
  "button_set l b \<longleftrightarrow> list_all (turnout_set l) (route_turnouts_of b)"

text \<open>The turnouts at which the marking starts: the first one of every route button whose turnouts are all in place.\<close>

definition route_start :: "view_layout \<Rightarrow> view \<Rightarrow> nat option" where
  "route_start l b =
     (if button_set l b \<and> route_turnouts_of b \<noteq> []
      then (case view_by_id (rt_turnoutId (hd (route_turnouts_of b))) l of
              Some t \<Rightarrow> if isTurnoutElement t then Some (vw_ref t) else None
            | None \<Rightarrow> None)
      else None)"

definition activated :: "(nat \<times> bool) list \<Rightarrow> view_layout \<Rightarrow> view_layout" where
  "activated bs l = map_views (\<lambda>e. case map_of bs (vw_ref e) of Some b \<Rightarrow> set_active b e | None \<Rightarrow> e) l"

text \<open>A map of the views that keeps identity, place and turnouts.\<close>

definition harmless :: "(view \<Rightarrow> view) \<Rightarrow> bool" where
  "harmless f \<longleftrightarrow> neutral f \<and> (\<forall>e. be_id (f e) = be_id e \<and> turnout_of (f e) = turnout_of e)"

lemma harmless_visit: "harmless (visit_view sec)"
  unfolding harmless_def using neutral_visit by (auto simp: visit_view_def turnout_of_def Let_def split: option.split)

lemma set_active_cases: "set_active b e = e \<or> (\<exists>a ts. vw_data e = RouteButtonData a ts \<and> set_active b e = e\<lparr>vw_data := RouteButtonData b ts\<rparr>)"
  by (simp add: set_active_def split: view_data.split)

lemma data_place_fields:
  assumes "vw_data e = RouteButtonData a ts"
  shows "view_next (e\<lparr>vw_data := RouteButtonData b ts\<rparr>) = view_next e" "view_prev (e\<lparr>vw_data := RouteButtonData b ts\<rparr>) = view_prev e"
    "be_pos (e\<lparr>vw_data := d\<rparr>) = be_pos e" "view_hit p (e\<lparr>vw_data := d\<rparr>) = view_hit p e"
    "turnout_of (e\<lparr>vw_data := RouteButtonData b ts\<rparr>) = turnout_of e"
  using assms
  by (simp_all add: view_next_def view_prev_def view_hit_def be_pos_def view_turnout_def turnout_of_def hitTest_def getBounds_def
      block_getBounds_def base_getBounds_def getNextItemXy_def getPrevItemXy_def corner_getNextItemXy_def corner_getPrevItemXy_def
      curve_getNextItemXy_def curve_getPrevItemXy_def base_getNextItemXy_def base_getPrevItemXy_def base_element.defs
      cong: element_type.case_cong)

lemma harmless_active: "harmless (set_active b)"
  unfolding harmless_def neutral_def
proof (intro conjI allI)
  fix e p
  show "vw_ref (set_active b e) = vw_ref e" "be_type (set_active b e) = be_type e" "be_id (set_active b e) = be_id e"
    using set_active_cases [of b e] by auto
  show "view_next (set_active b e) = view_next e" "view_prev (set_active b e) = view_prev e" "be_pos (set_active b e) = be_pos e"
    "view_hit p (set_active b e) = view_hit p e" "turnout_of (set_active b e) = turnout_of e"
    using set_active_cases [of b e] data_place_fields [of e] by auto
qed

lemma harmless_if: "harmless f \<Longrightarrow> harmless g \<Longrightarrow> harmless (\<lambda>e. if P e then f e else g e)"
  by (simp add: harmless_def neutral_def)

lemma harmless_comp: "harmless f \<Longrightarrow> harmless g \<Longrightarrow> harmless (\<lambda>e. f (g e))"
  by (simp add: harmless_def neutral_def)

lemma harmless_id: "harmless (\<lambda>e. e)"
  by (simp add: harmless_def neutral_def)

lemma by_id_harmless: "harmless f \<Longrightarrow> view_by_id i (map_views f l) = map_option f (view_by_id i l)"
  by (simp add: view_by_id_def find_map_conv comp_def harmless_def)

lemma turnout_set_harmless: "harmless f \<Longrightarrow> turnout_set (map_views f l) = turnout_set l"
proof
  fix t
  assume f: "harmless f"
  then show "turnout_set (map_views f l) t = turnout_set l t"
    by (cases "view_by_id (rt_turnoutId t) l")
      (simp_all add: turnout_set_def by_id_harmless isTurnoutElement_def, simp add: harmless_def neutral_def)
qed

lemma harmless_marked: "harmless (\<lambda>e. if vw_ref e \<in> S then visit_view sec e else e)"
  by (intro harmless_if harmless_visit harmless_id)

lemma harmless_activated: "harmless (\<lambda>e. case map_of bs (vw_ref e) of Some b \<Rightarrow> set_active b e | None \<Rightarrow> e)"
proof -
  have "harmless (\<lambda>e. if f e = None then e else set_active (the (f e)) e)" for f :: "view \<Rightarrow> bool option"
    unfolding harmless_def neutral_def using harmless_active [unfolded harmless_def neutral_def] by simp
  from this [of "\<lambda>e. map_of bs (vw_ref e)"] show ?thesis by (rule back_subst [of harmless]) (auto split: option.split)
qed

lemma harmless_neutral: "harmless f \<Longrightarrow> neutral f"
  by (simp add: harmless_def)

lemma set_active_other [simp]: "be_isVisited (set_active b e) = be_isVisited e" "vw_isRoute (set_active b e) = vw_isRoute e"
    "vw_ref (set_active b e) = vw_ref e" "set_active b (set_active c e) = set_active b e"
    "set_active b (visit_view sec e) = visit_view sec (set_active b e)"
  by (cases "vw_data e"; cases sec; simp add: set_active_def visit_view_def Let_def)+

lemma activated_more: "update_view r (set_active b) (activated bs l) = activated ((r, b) # bs) l"
  unfolding activated_def update_view_def map_views_comp by (rule map_views_cong) (simp split: option.split)

lemma activate_marked: "update_view r (set_active b) (marked sec S l) = marked sec S (update_view r (set_active b) l)"
  unfolding marked_def update_view_def map_views_comp by (rule map_views_cong) simp

lemma visited_activated: "visited_ref (activated bs l) r = visited_ref l r"
  unfolding activated_def visited_map unfolding visited_ref_def by (intro bex_cong) (auto split: option.split)

lemma fresh_links_activated: "fresh_links sec (activated bs l) = fresh_links sec l"
  using linked_neutral [OF harmless_neutral [OF harmless_activated]]
  by (simp add: fresh_links_def visited_activated) (simp add: activated_def)

lemma refs_distinct_activated: "refs_distinct (activated bs l) = refs_distinct l"
  unfolding refs_distinct_def activated_def by (subst refs_map [OF harmless_neutral [OF harmless_activated]]) simp

text \<open>Walking on from a set that no fresh link leaves.\<close>

definition link_closed :: "int option \<Rightarrow> view_layout \<Rightarrow> nat set \<Rightarrow> bool" where
  "link_closed sec l S \<longleftrightarrow> (\<forall>a b. a \<in> S \<longrightarrow> (a, b) \<in> fresh_links sec l \<longrightarrow> b \<in> S)"

lemma link_closed_reach: "link_closed sec l S \<Longrightarrow> a \<in> S \<Longrightarrow> (a, x) \<in> (fresh_links sec l)\<^sup>* \<Longrightarrow> x \<in> S"
  by (rotate_tac 2, induction rule: rtrancl_induct) (auto simp: link_closed_def)

lemma link_closed_route: "link_closed sec l (route_from sec l r)"
  by (auto simp: link_closed_def route_from_def intro: rtrancl_into_rtrancl)

lemma route_from_marked:
  assumes "link_closed sec l S"
  shows "S \<union> route_from sec (marked sec S l) r = S \<union> route_from sec l r"
proof (intro equalityI subsetI)
  fix x assume "x \<in> S \<union> route_from sec (marked sec S l) r"
  moreover have "fresh_links sec (marked sec S l) \<subseteq> fresh_links sec l"
    by (auto simp: fresh_links_def marked_places(3) visited_marked)
  ultimately show "x \<in> S \<union> route_from sec l r" using rtrancl_mono by (auto simp: route_from_def)
next
  fix x assume "x \<in> S \<union> route_from sec l r"
  moreover have "x \<in> S \<or> (r, x) \<in> (fresh_links sec (marked sec S l))\<^sup>*" if "(r, x) \<in> (fresh_links sec l)\<^sup>*"
    using that
  proof induction
    case (step y z)
    show ?case
    proof (cases "y \<in> S \<or> z \<in> S")
      case True
      then show ?thesis using assms step.hyps(2) by (auto simp: link_closed_def)
    next
      case False
      then have "(y, z) \<in> fresh_links sec (marked sec S l)"
        using step.hyps(2) by (auto simp: fresh_links_def marked_places(3) visited_marked)
      then show ?thesis using step.IH False by (auto intro: rtrancl_into_rtrancl)
    qed
  qed simp
  ultimately show "x \<in> S \<union> route_from sec (marked sec S l) r" by (auto simp: route_from_def)
qed

definition routes_from :: "view_layout \<Rightarrow> view list \<Rightarrow> nat set" where
  "routes_from l bs = {x. \<exists>b\<in>set bs. \<exists>s. route_start l b = Some s \<and> x \<in> route_from None l s}"

lemma check_button:
  assumes distinct: "refs_distinct l" and S: "link_closed None l S"
  shows "check_route_button b (marked None S (activated bs l)) =
    marked None (S \<union> routes_from l [b]) (activated ((vw_ref b, button_set l b) # bs) l)"
proof -
  let ?l1 = "marked None S (activated ((vw_ref b, button_set l b) # bs) l)"
  have ts: "turnout_set (marked None S (activated bs l)) = turnout_set l"
    unfolding marked_def activated_def by (simp add: turnout_set_harmless harmless_marked harmless_activated)
  have l1: "update_view (vw_ref b) (set_active (button_set l b)) (marked None S (activated bs l)) = ?l1"
    by (simp add: activate_marked activated_more)
  obtain f where f: "harmless f" "?l1 = map_views f l"
  proof (rule that)
    show "?l1 = map_views (\<lambda>e. (\<lambda>e. if vw_ref e \<in> S then visit_view None e else e)
        ((\<lambda>e. case map_of ((vw_ref b, button_set l b) # bs) (vw_ref e) of Some b \<Rightarrow> set_active b e | None \<Rightarrow> e) e)) l"
      by (simp only: marked_def activated_def map_views_comp)
    show "harmless (\<lambda>e. (\<lambda>e. if vw_ref e \<in> S then visit_view None e else e)
        ((\<lambda>e. case map_of ((vw_ref b, button_set l b) # bs) (vw_ref e) of Some b \<Rightarrow> set_active b e | None \<Rightarrow> e) e))"
      by (rule harmless_comp [OF harmless_marked harmless_activated])
  qed
  have place: "vw_ref (f e) = vw_ref e" "isTurnoutElement (f e) = isTurnoutElement e" for e
    using f(1) by (simp_all add: harmless_def neutral_def isTurnoutElement_def)
  have by_id: "view_by_id i ?l1 = map_option f (view_by_id i l)" for i by (simp only: f(2) by_id_harmless [OF f(1)])
  have walk: "startWalk (vw_ref e) ?l1 = marked None (S \<union> route_from None l (vw_ref e)) (activated ((vw_ref b, button_set l b) # bs) l)"
    if "view_by_id i l = Some e" for i e
  proof -
    have "e \<in> set (all_views l)" using that by (auto simp: view_by_id_def dest: find_SomeD)
    then have "view_by_ref (vw_ref e) ?l1 \<noteq> None" unfolding f(2) by_ref_some using place by auto
    moreover have "refs_distinct ?l1" using distinct by (simp add: refs_distinct_marked refs_distinct_activated)
    moreover have "S \<union> route_from None ?l1 (vw_ref e) = S \<union> route_from None l (vw_ref e)"
      using route_from_marked [of None "activated ((vw_ref b, button_set l b) # bs) l" S "vw_ref e"] S
      by (simp add: link_closed_def route_from_def fresh_links_activated)
    ultimately show ?thesis by (simp add: startWalk_def walk_marks marked_marked Un_commute)
  qed
  obtain m where m: "m = ?l1" by simp
  have "check_route_button b (marked None S (activated bs l)) = (case route_start l b of Some s \<Rightarrow> startWalk s m | None \<Rightarrow> m)"
    unfolding check_route_button_def Let_def ts button_set_def [symmetric] l1 m [symmetric] route_start_def
    by (cases "view_by_id (rt_turnoutId (hd (route_turnouts_of b))) l") (simp_all add: by_id [folded m] place)
  then have "check_route_button b (marked None S (activated bs l)) = (case route_start l b of Some s \<Rightarrow> startWalk s ?l1 | None \<Rightarrow> ?l1)"
    unfolding m .
  moreover have "startWalk s ?l1 = marked None (S \<union> route_from None l s) (activated ((vw_ref b, button_set l b) # bs) l)"
    if "route_start l b = Some s" for s
    using that walk by (auto simp: route_start_def split: if_splits option.splits)
  moreover have "routes_from l [b] = (case route_start l b of Some s \<Rightarrow> route_from None l s | None \<Rightarrow> {})"
    by (auto simp: routes_from_def split: option.split)
  ultimately show ?thesis by (cases "route_start l b") simp_all
qed

lemma link_closed_routes: "link_closed None l S \<Longrightarrow> link_closed None l (S \<union> routes_from l bs)"
  using link_closed_route [of None l] unfolding link_closed_def routes_from_def by blast

lemma routes_from_Cons: "routes_from l (b # bs) = routes_from l [b] \<union> routes_from l bs"
  by (auto simp: routes_from_def)

lemma check_buttons:
  assumes "refs_distinct l" and "link_closed None l S"
  shows "fold check_route_button buttons (marked None S (activated bs l)) =
    marked None (S \<union> routes_from l buttons) (activated (rev (map (\<lambda>b. (vw_ref b, button_set l b)) buttons) @ bs) l)"
  using assms(2)
proof (induction buttons arbitrary: S bs)
  case (Cons b buttons)
  have "fold check_route_button (b # buttons) (marked None S (activated bs l)) =
      fold check_route_button buttons (marked None (S \<union> routes_from l [b]) (activated ((vw_ref b, button_set l b) # bs) l))"
    using check_button [OF assms(1) Cons.prems] by simp
  also have "\<dots> = marked None (S \<union> routes_from l [b] \<union> routes_from l buttons)
      (activated (rev (map (\<lambda>b. (vw_ref b, button_set l b)) buttons) @ (vw_ref b, button_set l b) # bs) l)"
    by (rule Cons.IH) (rule link_closed_routes [OF Cons.prems])
  finally show ?case by (simp add: routes_from_Cons [of l b buttons] Un_assoc)
qed (simp add: routes_from_def)

lemma marked_none: "marked sec {} l = l" and activated_none: "activated [] l = l"
  by (simp_all add: marked_def activated_def map_views_def map_track_views_def)

lemma checkRoutes_conv:
  assumes "refs_distinct l"
  shows "checkRoutes l = (let l0 = reset_marks l; bs = filter isRouteButton (all_views l0)
    in marked None (routes_from l0 bs) (activated (rev (map (\<lambda>b. (vw_ref b, button_set l0 b)) bs)) l0))"
proof -
  have "map vw_ref (all_views (reset_marks l)) = map vw_ref (all_views l)"
    by (simp add: reset_marks_def all_views_def map_track_views_def)
  then have "refs_distinct (reset_marks l)" using assms by (simp add: refs_distinct_def)
  from check_buttons [OF this, of "{}" "filter isRouteButton (all_views (reset_marks l))" "[]"]
  show ?thesis by (simp add: checkRoutes_def Let_def link_closed_def marked_none activated_none)
qed

text \<open>What the check makes of one view.\<close>

definition shown :: "nat set \<Rightarrow> (nat \<times> bool) list \<Rightarrow> view \<Rightarrow> view" where
  "shown R bs e0 =
     (let e1 = (case map_of bs (vw_ref e0) of Some b \<Rightarrow> set_active b e0 | None \<Rightarrow> e0)
      in if vw_ref e0 \<in> R then visit_view None e1 else e1)"

lemma shown_fields: "vw_ref (shown R bs e0) = vw_ref e0" "vw_isRoute (shown R bs e0) \<longleftrightarrow> vw_isRoute e0 \<or> vw_ref e0 \<in> R"
  by (auto simp: shown_def Let_def split: option.split)

lemma getTrackElements_map: "getTrackElements (map_views f l) = map f (getTrackElements l)"
  by (simp add: getTrackElements_def map_views_def map_track_views_def)

lemma track_views_all: "set (getTrackElements l) \<subseteq> set (all_views l)"
  by (auto simp: getTrackElements_def all_views_def)

lemma checkRoutes_view:
  assumes "refs_distinct l" and "e \<in> set (all_views (checkRoutes l))"
  shows "\<exists>e0. e0 \<in> set (all_views (reset_marks l)) \<and>
    e = shown (routes_from (reset_marks l) (filter isRouteButton (all_views (reset_marks l))))
      (rev (map (\<lambda>b. (vw_ref b, button_set (reset_marks l) b)) (filter isRouteButton (all_views (reset_marks l))))) e0 \<and>
    (e \<in> set (getTrackElements (checkRoutes l)) \<longrightarrow> \<not> vw_isRoute e0)"
proof -
  let ?l0 = "reset_marks l"
  let ?bs = "filter isRouteButton (all_views ?l0)"
  let ?f = "shown (routes_from ?l0 ?bs) (rev (map (\<lambda>b. (vw_ref b, button_set ?l0 b)) ?bs))"
  have conv: "checkRoutes l = map_views ?f ?l0"
    unfolding checkRoutes_conv [OF assms(1)] Let_def marked_def activated_def map_views_comp
    by (rule map_views_cong) (simp add: shown_def Let_def split: option.split)
  have clean: "\<not> vw_isRoute e0" if "e0 \<in> set (getTrackElements ?l0)" for e0
    using that by (auto simp: getTrackElements_def reset_marks_def map_track_views_def)
  show ?thesis
  proof (cases "e \<in> set (getTrackElements (checkRoutes l))")
    case True
    then obtain e0 where "e0 \<in> set (getTrackElements ?l0)" "e = ?f e0" by (auto simp: conv getTrackElements_map)
    then show ?thesis using clean track_views_all by blast
  next
    case False
    then show ?thesis using assms(2) by (auto simp: conv)
  qed
qed

text \<open>Resetting the marks does not concern the turnouts and the route buttons.\<close>

definition view_key :: "view \<Rightarrow> int \<times> element_type \<times> turnout_data \<times> nat" where
  "view_key e = (be_id e, be_type e, turnout_of e, vw_ref e)"

lemma view_keys_reset: "map view_key (all_views (reset_marks l)) = map view_key (all_views l)"
  by (simp add: reset_marks_def all_views_def map_track_views_def view_key_def turnout_of_def)

lemma by_id_key: "map_option view_key (view_by_id i l) = find (\<lambda>k. fst k = i) (map view_key (all_views l))"
  by (simp add: view_by_id_def find_map_conv comp_def view_key_def)

lemma by_id_reset: "map_option view_key (view_by_id i (reset_marks l)) = map_option view_key (view_by_id i l)"
  unfolding by_id_key view_keys_reset ..

lemma turnout_set_reset: "turnout_set (reset_marks l) = turnout_set l"
proof
  show "turnout_set (reset_marks l) t = turnout_set l t" for t
    using by_id_reset [of "rt_turnoutId t" l]
    by (cases "view_by_id (rt_turnoutId t) l"; cases "view_by_id (rt_turnoutId t) (reset_marks l)")
      (simp_all add: turnout_set_def view_key_def isTurnoutElement_def)
qed

lemma button_set_reset: "button_set (reset_marks l) = button_set l"
  by (intro ext) (simp add: button_set_def turnout_set_reset)

lemma reset_buttons:
  "(\<exists>b\<in>set (all_views (reset_marks l)). isRouteButton b \<and> P (route_turnouts_of b)) \<longleftrightarrow>
   (\<exists>b\<in>set (all_views l). isRouteButton b \<and> P (route_turnouts_of b))"
proof -
  have f: "isRouteButton (e\<lparr>be_isVisited := False, vw_isRoute := False\<rparr>) = isRouteButton e"
      "route_turnouts_of (e\<lparr>be_isVisited := False, vw_isRoute := False\<rparr>) = route_turnouts_of e" for e
    by (simp_all add: isRouteButton_def route_turnouts_of_def)
  show ?thesis by (simp add: reset_marks_def all_views_def map_track_views_def bex_Un f)
qed

definition start_of :: "view_layout \<Rightarrow> route_turnout list \<Rightarrow> nat option" where
  "start_of l ts =
     (if list_all (turnout_set l) ts \<and> ts \<noteq> []
      then (case view_by_id (rt_turnoutId (hd ts)) l of Some t \<Rightarrow> if isTurnoutElement t then Some (vw_ref t) else None | None \<Rightarrow> None)
      else None)"

lemma route_start_of: "route_start l b = start_of l (route_turnouts_of b)"
  by (simp add: route_start_def start_of_def button_set_def)

lemma start_of_reset: "start_of (reset_marks l) ts = start_of l ts"
  using by_id_reset [of "rt_turnoutId (hd ts)" l]
  by (cases "view_by_id (rt_turnoutId (hd ts)) l"; cases "view_by_id (rt_turnoutId (hd ts)) (reset_marks l)")
    (simp_all add: start_of_def turnout_set_reset view_key_def isTurnoutElement_def)

lemma routes_from_reset:
  "x \<in> routes_from (reset_marks l) (filter isRouteButton (all_views (reset_marks l))) \<longleftrightarrow>
   (\<exists>b\<in>set (all_views l). \<exists>s. isRouteButton b \<and> route_start l b = Some s \<and> (s, x) \<in> (fresh_links None (reset_marks l))\<^sup>*)"
proof -
  have "x \<in> routes_from (reset_marks l) (filter isRouteButton (all_views (reset_marks l))) \<longleftrightarrow>
      (\<exists>b\<in>set (all_views (reset_marks l)). isRouteButton b \<and>
        (\<exists>s. start_of l (route_turnouts_of b) = Some s \<and> (s, x) \<in> (fresh_links None (reset_marks l))\<^sup>*))"
    by (auto simp: routes_from_def route_from_def route_start_of start_of_reset)
  also have "\<dots> \<longleftrightarrow> (\<exists>b\<in>set (all_views l). isRouteButton b \<and>
        (\<exists>s. start_of l (route_turnouts_of b) = Some s \<and> (s, x) \<in> (fresh_links None (reset_marks l))\<^sup>*))"
    by (rule reset_buttons)
  finally show ?thesis unfolding route_start_of by blast
qed

lemma shown_active:
  assumes "refs_distinct l" and e0: "e0 \<in> set (all_views (reset_marks l))"
    and e: "e = shown R (rev (map (\<lambda>b. (vw_ref b, button_set (reset_marks l) b)) (filter isRouteButton (all_views (reset_marks l))))) e0"
    and "isRouteButton e" and "vw_data e = RouteButtonData active ts"
  shows "active = list_all (turnout_set (reset_marks l)) ts"
proof -
  let ?bs = "filter isRouteButton (all_views (reset_marks l))"
  let ?m = "rev (map (\<lambda>b. (vw_ref b, button_set (reset_marks l) b)) ?bs)"
  have type: "be_type (set_active b e0) = be_type e0" "be_type (visit_view None (set_active b e0)) = be_type e0"
      "be_type (visit_view None e0) = be_type e0" for b
    using set_active_cases [of b e0] by (auto simp: visit_view_def)
  have "isRouteButton e0" using assms(4) e type by (auto simp: isRouteButton_def shown_def Let_def split: option.splits if_splits)
  have "map vw_ref (all_views (reset_marks l)) = map vw_ref (all_views l)"
    by (simp add: reset_marks_def all_views_def map_track_views_def)
  then have "distinct (map vw_ref ?bs)" using assms(1) by (simp add: refs_distinct_def distinct_map_filter)
  then have "distinct (map fst ?m)" by (simp add: rev_map [symmetric] comp_def)
  moreover have "(vw_ref e0, button_set (reset_marks l) e0) \<in> set ?m" using e0 \<open>isRouteButton e0\<close> by auto
  ultimately have "map_of ?m (vw_ref e0) = Some (button_set (reset_marks l) e0)" by (rule map_of_is_SomeI)
  then have "vw_data e = vw_data (set_active (button_set (reset_marks l) e0) e0)"
    by (simp add: e shown_def Let_def visit_view_def)
  then show ?thesis using assms(5) by (auto simp: set_active_def button_set_def route_turnouts_of_def split: view_data.splits)
qed

text \<open>C20. Checking the routes shows exactly the routes that are set. A route button becomes active when each of its turnouts
  exists and is in its place. A track element becomes part of a route exactly when, from the first turnout of a
  route button whose turnouts are all in place, it can be reached by going from element to element over ends that meet, through elements
  that the check has not to pass over because an earlier check left them visited.\<close>

theorem checkRoutes_marks:
  assumes "refs_distinct l" and "e \<in> set (all_views (checkRoutes l))"
  shows "(isRouteButton e \<and> vw_data e = RouteButtonData active ts \<longrightarrow> active = list_all (turnout_set l) ts) \<and>
    (e \<in> set (getTrackElements (checkRoutes l)) \<longrightarrow>
       (vw_isRoute e \<longleftrightarrow> (\<exists>b\<in>set (all_views l). \<exists>s. isRouteButton b \<and> route_start l b = Some s \<and>
          (s, vw_ref e) \<in> (fresh_links None (reset_marks l))\<^sup>*)))"
proof -
  let ?l0 = "reset_marks l" and ?bs = "filter isRouteButton (all_views (reset_marks l))"
  obtain e0 where e0: "e0 \<in> set (all_views ?l0)"
      "e = shown (routes_from ?l0 ?bs) (rev (map (\<lambda>b. (vw_ref b, button_set ?l0 b)) ?bs)) e0"
      "e \<in> set (getTrackElements (checkRoutes l)) \<Longrightarrow> \<not> vw_isRoute e0"
    using checkRoutes_view [OF assms] by blast
  have "active = list_all (turnout_set l) ts" if "isRouteButton e" "vw_data e = RouteButtonData active ts"
    using shown_active [OF assms(1) e0(1,2) that] by (simp add: turnout_set_reset)
  moreover have "vw_isRoute e \<longleftrightarrow> vw_ref e \<in> routes_from ?l0 ?bs" if "e \<in> set (getTrackElements (checkRoutes l))"
    using e0(3) [OF that] by (simp add: e0(2) shown_fields)
  moreover have "vw_ref e \<in> routes_from ?l0 ?bs \<longleftrightarrow> (\<exists>b\<in>set (all_views l). \<exists>s. isRouteButton b \<and> route_start l b = Some s \<and>
      (s, vw_ref e) \<in> (fresh_links None ?l0)\<^sup>*)"
    by (rule routes_from_reset)
  ultimately show ?thesis by blast
qed

definition sample_view :: "nat \<Rightarrow> int \<Rightarrow> element_type \<Rightarrow> int \<Rightarrow> int \<Rightarrow> view_data \<Rightarrow> view" where
  "sample_view r i type x y d =
     base_element.extend ((new_base type ''element'' ''track'' 45 x y)\<lparr>be_id := i\<rparr>)
       \<lparr>vw_ref = r, vw_isRoute = False, vw_section = 0, vw_travelDirection = DirUnknown, vw_selected = False, vw_data = d\<rparr>"

definition sample_views :: view_layout where
  "sample_views =
     \<lparr>vl_track = [sample_view 0 1 TRACK_TURNOUT_LEFT 1 0
          (TurnoutData \<lparr>td_outputMode = ModeAccessory, td_address = 5, td_closedValue = True, td_closed = True,
            td_closedAspect = JUndef, td_openedAspect = JUndef\<rparr>),
        sample_view 1 2 TRACK_STRAIGHT 2 0 NoData, sample_view 2 3 TRACK_STRAIGHT 3 0 NoData, sample_view 3 4 TRACK_STRAIGHT 5 0 NoData],
      vl_blocks = [], vl_signals = [], vl_sensors = [],
      vl_buildings = [sample_view 4 5 BUTTON_ROUTE 0 5 (RouteButtonData False [\<lparr>rt_turnoutId = 1, rt_closed = True\<rparr>])]\<rparr>"

theorem checkRoutes_marks_witness:
  "map vw_isRoute (getTrackElements (checkRoutes sample_views)) = [True, True, True, False] \<and>
   (\<exists>b\<in>set (all_views sample_views). \<exists>s. isRouteButton b \<and> route_start sample_views b = Some s \<and>
      (s, vw_ref (getTrackElements (checkRoutes sample_views) ! 2)) \<in> (fresh_links None (reset_marks sample_views))\<^sup>*)"
proof -
  let ?e = "getTrackElements (checkRoutes sample_views) ! 2"
  have marks: "map vw_isRoute (getTrackElements (checkRoutes sample_views)) = [True, True, True, False]" by code_simp
  have "length (getTrackElements (checkRoutes sample_views)) = 4" using arg_cong [OF marks, of length] by simp
  then have e: "?e \<in> set (getTrackElements (checkRoutes sample_views))" and r: "vw_isRoute ?e"
    using marks nth_map [of 2 "getTrackElements (checkRoutes sample_views)" vw_isRoute] by simp_all
  have "refs_distinct sample_views" by code_simp
  from checkRoutes_marks [OF this subsetD [OF track_views_all e]] show ?thesis using e r marks by blast
qed

end
