(* ===== verification/RouteExecution.thy ===== *)
theory RouteExecution
  imports Commands RouteMarking RouteGraph
begin

text \<open>
  What a click on the layout does (\<open>components/track-canvas/trackCanvasClickableActions.ts\<close>, \<open>trackCanvasRouteActions.ts\<close>,
  \<open>services/routeButtonExecutor.ts\<close>, \<open>core/view/support/TrackTurnoutElementViewSupport.ts\<close>, \<open>ButtonElementView.ts\<close>), and
  how the pages apply what the server reports (\<open>LiteLayoutPage.tsx\<close>, \<open>RuntimeLayoutOverlay.tsx\<close>). The effects of an
  operation besides its new layout are a list of actions; other events between the waits of a route are not part of it.
\<close>

datatype action = Send json | Busy bool | Wait int | Warn string | Confirm string string string | Fail string | NotifyBusy | Pulse int

definition send_option :: "json option \<Rightarrow> action list" where
  "send_option c = (case c of Some m \<Rightarrow> [Send m] | None \<Rightarrow> [])"

subsection \<open>Setting a turnout\<close>

definition set_closed :: "bool \<Rightarrow> view \<Rightarrow> view" where
  "set_closed b e = (case vw_data e of TurnoutData d \<Rightarrow> e\<lparr>vw_data := TurnoutData (d\<lparr>td_closed := b\<rparr>)\<rparr> | _ \<Rightarrow> e)"

definition turnout_options_of :: "turnout_data \<Rightarrow> turnout_options" where
  "turnout_options_of d =
     \<lparr>to_closedValue = Some (td_closedValue d), to_closedAspect = Some (getTurnoutClosedAspect d),
      to_openedAspect = Some (getTurnoutOpenedAspect d)\<rparr>"

definition send_turnout :: "turnout_data \<Rightarrow> bool \<Rightarrow> turnout_options \<Rightarrow> action list" where
  "send_turnout d physical options = send_option (sendTurnoutOutput (td_outputMode d) (td_address d) physical options)"

definition toggleTurnout :: "view \<Rightarrow> view_layout \<Rightarrow> view_layout \<times> action list" where
  "toggleTurnout e l =
     (let d = turnout_of e; nextPhysicalValue = (\<not> td_closed d)
      in (update_view (vw_ref e) (set_closed nextPhysicalValue) l, send_turnout d nextPhysicalValue (turnout_options_of d)))"

subsection \<open>Route buttons\<close>

text \<open>The loop over the turnouts of a route button; \<open>configured\<close> says whether the aspects of the turnout are passed on.\<close>

fun set_route_turnouts :: "bool \<Rightarrow> route_turnout list \<Rightarrow> view_layout \<Rightarrow> view_layout \<times> action list" where
  "set_route_turnouts configured [] l = (l, [])"
| "set_route_turnouts configured (t # ts) l =
     (case view_by_id (rt_turnoutId t) l of
        None \<Rightarrow> set_route_turnouts configured ts l
      | Some e \<Rightarrow>
          if \<not> isTurnoutElement e then set_route_turnouts configured ts l
          else let (l', actions) = set_route_turnouts configured ts (update_view (vw_ref e) (set_closed (rt_closed t)) l);
                   d = turnout_of e
               in (l', send_turnout d (rt_closed t) (if configured then turnout_options_of d else no_options) @ [Wait 1000] @ actions))"

definition run_route :: "bool \<Rightarrow> view \<Rightarrow> view_layout \<Rightarrow> view_layout \<times> action list" where
  "run_route configured button l =
     (let (l', actions) = set_route_turnouts configured (route_turnouts_of button) l
      in (l', [Send routeLock, Busy True, Wait 1000] @ actions @ [Send routeUnlock, Busy False]))"

definition executeRouteButton :: "bool \<Rightarrow> view \<Rightarrow> view_layout \<Rightarrow> view_layout \<times> action list" where
  "executeRouteButton commandCenterLocked button l =
     (if commandCenterLocked then (l, [Warn ''routesPanel.commandCenterBusy'']) else run_route False button l)"

definition executeLegacyRouteButton :: "bool \<Rightarrow> view \<Rightarrow> view_layout \<Rightarrow> (view_layout \<times> action list) \<times> bool" where
  "executeLegacyRouteButton commandCenterLocked button l =
     (if commandCenterLocked then ((l, [NotifyBusy]), False)
      else if length (route_turnouts_of button) = 0 then ((l, []), False)
      else (run_route True button l, True))"

text \<open>The result of loading the route graph: an error, no graph, or the graph.\<close>

definition executeExtendedRouteButton :: "bool \<Rightarrow> int \<Rightarrow> int \<Rightarrow> bool \<Rightarrow> string + graph option \<Rightarrow> action list" where
  "executeExtendedRouteButton commandCenterLocked fromBlockId toBlockId active loaded =
     (if fromBlockId = 0 \<or> toBlockId = 0 then [Warn ''routesPanel.automaticRouteMissingBlocks'']
      else case loaded of
        Inl e \<Rightarrow> [Fail e]
      | Inr None \<Rightarrow> [Warn ''routesPanel.noServerGraph'']
      | Inr (Some g) \<Rightarrow>
          (case (findBlockById g fromBlockId, findBlockById g toBlockId) of
             (Some fromBlock, Some toBlock) \<Rightarrow>
               if active
               then [Send (releaseRouteReservation (sb_name fromBlock) (sb_name toBlock)),
                     Confirm ''routesPanel.releaseRequested'' (sb_label fromBlock) (sb_label toBlock)]
               else if commandCenterLocked then [Warn ''routesPanel.commandCenterBusy'']
               else [Send (reserveRoute (sb_name fromBlock) (sb_name toBlock)),
                     Confirm ''routesPanel.reservationRequested'' (sb_label fromBlock) (sb_label toBlock)]
           | _ \<Rightarrow> [Warn ''routesPanel.configuredBlocksMissing'']))"

subsection \<open>Clicks\<close>

definition executeLevelCrossingToggle :: "crossing_data \<Rightarrow> action list" where
  "executeLevelCrossingToggle c =
     (if cd_address c \<le> 0 then []
      else let nextClosed = (\<not> cd_barrierClosed c)
           in [Send (setBasicAccessory (cd_address c) (if nextClosed then cd_closedValue c else \<not> cd_closedValue c))])"

definition executeSensorToggle :: "int \<Rightarrow> bool \<Rightarrow> action list" where
  "executeSensorToggle address active = (if address \<le> 0 then [] else [Send (setSensor address (\<not> active))])"

datatype button_behavior = Toggle | Push | Momentary

record button_state =
  bs_data :: button_data
  bs_behavior :: button_behavior
  bs_pulseDurationMs :: int
  bs_pressed :: bool

definition sendLogicalState :: "button_data \<Rightarrow> bool \<Rightarrow> json option" where
  "sendLogicalState d logicalOn =
     sendBinaryOutput (bd_outputMode d) (bd_address d) (if logicalOn then bd_activeValue d else \<not> bd_activeValue d)"

text \<open>Whether a message was sent depends on the connection, which is the argument \<open>sent\<close>; a pulse is a timer that is restarted.\<close>

definition button_mouseDown :: "bool \<Rightarrow> button_state \<Rightarrow> button_state \<times> action list" where
  "button_mouseDown sent b =
     (let d = bs_data b in
      case bs_behavior b of
        Toggle \<Rightarrow> (b, send_option (sendLogicalState d (\<not> bd_on d)))
      | Momentary \<Rightarrow>
          if bs_pressed b then (b, [])
          else (b\<lparr>bs_pressed := (sendLogicalState d True \<noteq> None \<and> sent)\<rparr>, send_option (sendLogicalState d True))
      | Push \<Rightarrow> (b, send_option (sendLogicalState d True) @ [Pulse (max 50 (min 10000 (bs_pulseDurationMs b)))]))"

definition button_pulse_ends :: "button_state \<Rightarrow> action list" where
  "button_pulse_ends b = send_option (sendLogicalState (bs_data b) False)"

definition button_mouseUp :: "button_state \<Rightarrow> button_state \<times> action list" where
  "button_mouseUp b =
     (if bs_behavior b \<noteq> Momentary \<or> \<not> bs_pressed b then (b, [])
      else (b\<lparr>bs_pressed := False\<rparr>, send_option (sendLogicalState (bs_data b) False)))"

subsection \<open>What the server reports\<close>

definition turnout_changed :: "turnout_mode \<Rightarrow> int \<Rightarrow> bool \<Rightarrow> view \<Rightarrow> view" where
  "turnout_changed mode address shut e =
     (case vw_data e of
        TurnoutData d \<Rightarrow>
          if isTurnoutElement e \<and> td_outputMode d = mode \<and> td_address d = address then set_closed shut e else e
      | DoubleData d \<Rightarrow>
          if dd_outputMode d = mode
          then e\<lparr>vw_data := DoubleData (d\<lparr>dd_closed1 := (if dd_address1 d = address then shut else dd_closed1 d),
                                          dd_closed2 := (if dd_address2 d = address then shut else dd_closed2 d)\<rparr>)\<rparr>
          else e
      | _ \<Rightarrow> e)"

definition button_changed :: "turnout_mode \<Rightarrow> int \<Rightarrow> bool \<Rightarrow> view \<Rightarrow> view" where
  "button_changed mode address active e =
     (case vw_data e of
        ButtonData d \<Rightarrow>
          if bd_outputMode d = mode \<and> bd_address d = address
          then e\<lparr>vw_data := ButtonData (d\<lparr>bd_on := (active = bd_activeValue d)\<rparr>)\<rparr> else e
      | _ \<Rightarrow> e)"

text \<open>The layout page looks at the protocol of a signal, the overlay at its output mode, which is always \<open>accessory\<close>.\<close>

definition signal_changed :: "bool \<Rightarrow> int \<Rightarrow> bool \<Rightarrow> view \<Rightarrow> view" where
  "signal_changed overlay address active e =
     (case vw_data e of
        SignalData s \<Rightarrow>
          if (if overlay then te_address s \<le> address
              else oc_protocol (se_signalOutput s) = Dcc \<and> oc_address (se_signalOutput s) \<le> address) \<and> lastAddress s \<ge> address
          then e\<lparr>vw_data := SignalData (setValue address active s)\<rparr> else e
      | _ \<Rightarrow> e)"

definition crossing_changed :: "int \<Rightarrow> bool \<Rightarrow> view \<Rightarrow> view" where
  "crossing_changed address active e =
     (case vw_data e of
        CrossingData c \<Rightarrow>
          if cd_address c = address then e\<lparr>vw_data := CrossingData (c\<lparr>cd_barrierClosed := (active = cd_closedValue c)\<rparr>)\<rparr> else e
      | _ \<Rightarrow> e)"

definition on_turnoutChanged :: "int \<Rightarrow> bool \<Rightarrow> view_layout \<Rightarrow> view_layout" where
  "on_turnoutChanged address shut l = checkRoutes (map_views (turnout_changed ModeAccessory address shut) l)"

definition on_vpinChanged :: "int \<Rightarrow> bool \<Rightarrow> view_layout \<Rightarrow> view_layout" where
  "on_vpinChanged vpin active l =
     checkRoutes (map_views (\<lambda>e. button_changed ModeVpin vpin active (turnout_changed ModeVpin vpin active e)) l)"

definition on_accessoryChanged :: "bool \<Rightarrow> int \<Rightarrow> bool \<Rightarrow> view_layout \<Rightarrow> view_layout" where
  "on_accessoryChanged overlay address active l =
     map_views (\<lambda>e. crossing_changed address active (button_changed ModeAccessory address active (signal_changed overlay address active e))) l"

definition sensor_changed :: "int \<Rightarrow> bool \<Rightarrow> view \<Rightarrow> view" where
  "sensor_changed address b e =
     (case vw_data e of SensorData a old \<Rightarrow> if a = address then e\<lparr>vw_data := SensorData a b\<rparr> else e | _ \<Rightarrow> e)"

definition on_sensorChanged :: "int \<Rightarrow> bool \<Rightarrow> view_layout \<Rightarrow> view_layout" where
  "on_sensorChanged address b l = map_views (sensor_changed address b) l"

text \<open>A group of a snapshot has the state of 16 addresses and which of them are known, as 32-bit masks.\<close>

definition sensor_group :: "int \<times> 32 word \<times> 32 word \<Rightarrow> view \<Rightarrow> view" where
  "sensor_group g e =
     (case g of (baseAddress, activeBits, knownBits) \<Rightarrow>
        case vw_data e of
          SensorData a old \<Rightarrow>
            (let offset = a - baseAddress in
             if offset < 0 \<or> offset > 15 then e
             else if \<not> bit knownBits (nat offset) then e
             else e\<lparr>vw_data := SensorData a (bit activeBits (nat offset))\<rparr>)
        | _ \<Rightarrow> e)"

definition on_sensorSnapshot :: "(int \<times> 32 word \<times> 32 word) list \<Rightarrow> view_layout \<Rightarrow> view_layout" where
  "on_sensorSnapshot groups l = fold (\<lambda>g. map_views (sensor_group g)) groups l"

definition aspect_changed :: "int \<Rightarrow> int \<Rightarrow> view \<Rightarrow> view" where
  "aspect_changed address aspect e =
     (case vw_data e of
        SignalData s \<Rightarrow>
          if oc_protocol (se_signalOutput s) = DccExt \<and> oc_address (se_signalOutput s) = address
          then e\<lparr>vw_data := SignalData (setCurrentStateByAspect aspect s)\<rparr> else e
      | _ \<Rightarrow> e)"

definition on_signalAspectChanged :: "int \<Rightarrow> int \<Rightarrow> view_layout \<Rightarrow> view_layout" where
  "on_signalAspectChanged address aspect l = map_views (aspect_changed address aspect) l"

record block_state =
  bk_locoId :: "string option"
  bk_locoAddress :: "int option"

record page_loco =
  pl_id :: string
  pl_address :: int

definition block_loco :: "page_loco list \<Rightarrow> block_state \<Rightarrow> int" where
  "block_loco locos st =
     (case bk_locoAddress st of
        Some a \<Rightarrow> a
      | None \<Rightarrow> (case find (\<lambda>p. Some (pl_id p) = bk_locoId st) locos of Some p \<Rightarrow> pl_address p | None \<Rightarrow> 0))"

definition apply_block_state :: "page_loco list \<Rightarrow> string \<times> block_state \<Rightarrow> view_layout \<Rightarrow> view_layout" where
  "apply_block_state locos entry l =
     (case entry of (wireBlockId, st) \<Rightarrow>
        case string_to_number wireBlockId of
          Fin r \<Rightarrow>
            if \<not> is_whole r \<or> r < 1 \<or> r > 65535 then l
            else (case find (\<lambda>e. be_id e = \<lfloor>r\<rfloor>) (filter isBlock (all_views l)) of
                    Some e \<Rightarrow> update_view (vw_ref e) (set_locoAddress (block_loco locos st)) l
                  | None \<Rightarrow> l)
        | _ \<Rightarrow> l)"

definition on_blockStateChanged :: "page_loco list \<Rightarrow> (string \<times> block_state) list \<Rightarrow> view_layout \<Rightarrow> view_layout" where
  "on_blockStateChanged locos data l =
     fold (apply_block_state locos) data (map_views (\<lambda>e. if isBlock e then set_locoAddress 0 e else e) l)"

subsection \<open>A route button sets its route\<close>

definition typed_turnout :: "view_layout \<Rightarrow> int \<Rightarrow> bool" where
  "typed_turnout l i \<longleftrightarrow> (\<exists>e d. view_by_id i l = Some e \<and> isTurnoutElement e \<and> vw_data e = TurnoutData d)"

definition consistent :: "route_turnout list \<Rightarrow> bool" where
  "consistent ts \<longleftrightarrow> (\<forall>t\<in>set ts. \<forall>u\<in>set ts. rt_turnoutId t = rt_turnoutId u \<longrightarrow> rt_closed t = rt_closed u)"

lemma set_closed_fields [simp]: "vw_ref (set_closed b e) = vw_ref e" "be_id (set_closed b e) = be_id e" "be_type (set_closed b e) = be_type e"
  by (simp_all add: set_closed_def split: view_data.split)

lemma set_closed_turnout: "vw_data e = TurnoutData d \<Longrightarrow> vw_data (set_closed b e) = TurnoutData (d\<lparr>td_closed := b\<rparr>)"
  by (simp add: set_closed_def)

lemma by_id_map: "(\<And>e. be_id (f e) = be_id e) \<Longrightarrow> view_by_id i (map_views f l) = map_option f (view_by_id i l)"
  by (simp add: view_by_id_def find_map_conv comp_def)

lemma by_id_closed:
  "view_by_id i (update_view r (set_closed b) l) = map_option (\<lambda>e. if vw_ref e = r then set_closed b e else e) (view_by_id i l)"
  unfolding update_view_def by (rule by_id_map) simp

lemma turnout_set_closed:
  assumes "view_by_id (rt_turnoutId t) l = Some e" and "isTurnoutElement e" and "vw_data e = TurnoutData d"
  shows "turnout_set (update_view (vw_ref e) (set_closed (rt_closed t)) l) t"
  using assms by (simp add: turnout_set_def by_id_closed isTurnoutElement_def turnout_of_def set_closed_turnout)

lemma typed_closed: "typed_turnout (update_view r (set_closed b) l) i = typed_turnout l i"
proof (cases "view_by_id i l")
  case (Some e)
  have "(\<exists>d. vw_data (set_closed b e) = TurnoutData d) \<longleftrightarrow> (\<exists>d. vw_data e = TurnoutData d)"
    by (cases "vw_data e") (simp_all add: set_closed_def)
  then show ?thesis using Some by (simp add: typed_turnout_def by_id_closed isTurnoutElement_def)
qed (simp add: typed_turnout_def by_id_closed)

lemma by_id_found: "view_by_id i l = Some e \<Longrightarrow> e \<in> set (all_views l) \<and> be_id e = i"
  by (auto simp: view_by_id_def dest: find_SomeD)

text \<open>Setting a turnout keeps the others that are in place, as long as the same turnout is not wanted in two positions.\<close>

lemma turnout_set_kept:
  assumes "refs_distinct l" and "turnout_set l u" and "view_by_id (rt_turnoutId t) l = Some e"
    and "rt_turnoutId u = rt_turnoutId t \<longrightarrow> rt_closed u = rt_closed t"
  shows "turnout_set (update_view (vw_ref e) (set_closed (rt_closed t)) l) u"
proof -
  obtain f where f: "view_by_id (rt_turnoutId u) l = Some f" "isTurnoutElement f" "td_closed (turnout_of f) = rt_closed u"
    using assms(2) by (auto simp: turnout_set_def split: option.splits)
  show ?thesis
  proof (cases "vw_ref f = vw_ref e")
    case True
    then have "f = e" using by_id_found [OF f(1)] by_id_found [OF assms(3)] assms(1)
      by (auto simp: refs_distinct_def distinct_map inj_on_def)
    then have "rt_closed u = rt_closed t" using by_id_found [OF f(1)] by_id_found [OF assms(3)] assms(4) by simp
    then show ?thesis using f True
      by (cases "vw_data f") (simp_all add: turnout_set_def by_id_closed isTurnoutElement_def turnout_of_def set_closed_def)
  next
    case False
    then show ?thesis using f by (simp add: turnout_set_def by_id_closed)
  qed
qed

lemma refs_closed: "refs_distinct (update_view r (set_closed b) l) = refs_distinct l"
proof -
  have "map vw_ref (all_views (update_view r (set_closed b) l)) = map vw_ref (all_views l)"
    unfolding all_views_update map_map by (rule map_cong) simp_all
  then show ?thesis by (simp add: refs_distinct_def)
qed

lemma set_route_turnouts_Cons:
  "fst (set_route_turnouts c (t # ts) l) =
     (case view_by_id (rt_turnoutId t) l of
        None \<Rightarrow> fst (set_route_turnouts c ts l)
      | Some e \<Rightarrow> fst (set_route_turnouts c ts (if isTurnoutElement e then update_view (vw_ref e) (set_closed (rt_closed t)) l else l)))"
  by (simp add: split_beta Let_def split: option.split)

lemma set_route_turnouts_keeps:
  assumes "refs_distinct l" and "turnout_set l u" and "\<forall>t\<in>set ts. rt_turnoutId u = rt_turnoutId t \<longrightarrow> rt_closed u = rt_closed t"
  shows "turnout_set (fst (set_route_turnouts c ts l)) u"
  using assms
proof (induction ts arbitrary: l)
  case (Cons t ts)
  then have same: "rt_turnoutId u = rt_turnoutId t \<longrightarrow> rt_closed u = rt_closed t"
    and rest: "\<forall>t\<in>set ts. rt_turnoutId u = rt_turnoutId t \<longrightarrow> rt_closed u = rt_closed t" by simp_all
  show ?case
  proof (cases "view_by_id (rt_turnoutId t) l")
    case None
    then show ?thesis using Cons.IH [OF Cons.prems(1,2) rest] by (simp add: set_route_turnouts_Cons)
  next
    case (Some e)
    let ?l1 = "update_view (vw_ref e) (set_closed (rt_closed t)) l"
    have "turnout_set ?l1 u" by (rule turnout_set_kept [OF Cons.prems(1,2) Some same])
    moreover have "refs_distinct ?l1" using Cons.prems(1) by (simp only: refs_closed)
    ultimately have "turnout_set (fst (set_route_turnouts c ts (if isTurnoutElement e then ?l1 else l))) u"
      using Cons.IH [OF _ _ rest, of ?l1] Cons.IH [OF Cons.prems(1,2) rest] by (cases "isTurnoutElement e") (simp_all only: if_True if_False)
    then show ?thesis by (simp only: set_route_turnouts_Cons Some option.case)
  qed
qed simp

lemma set_route_turnouts_sets:
  assumes "refs_distinct l" and "\<forall>t\<in>set ts. typed_turnout l (rt_turnoutId t)" and "consistent ts"
  shows "list_all (turnout_set (fst (set_route_turnouts c ts l))) ts"
  using assms
proof (induction ts arbitrary: l)
  case (Cons t ts)
  obtain e d where e: "view_by_id (rt_turnoutId t) l = Some e" "isTurnoutElement e" "vw_data e = TurnoutData d"
    using Cons.prems(2) by (auto simp: typed_turnout_def)
  let ?l1 = "update_view (vw_ref e) (set_closed (rt_closed t)) l"
  have run: "fst (set_route_turnouts c (t # ts) l) = fst (set_route_turnouts c ts ?l1)"
    using e by (simp only: set_route_turnouts_Cons option.case if_True)
  have ok: "refs_distinct ?l1" "\<forall>t\<in>set ts. typed_turnout ?l1 (rt_turnoutId t)"
    using Cons.prems(1,2) by (simp_all only: refs_closed typed_closed) simp
  have rest: "consistent ts" and same: "\<forall>u\<in>set ts. rt_turnoutId t = rt_turnoutId u \<longrightarrow> rt_closed t = rt_closed u"
    using Cons.prems(3) unfolding consistent_def by (meson list.set_intros)+
  have "turnout_set (fst (set_route_turnouts c ts ?l1)) t"
    by (rule set_route_turnouts_keeps [OF ok(1) turnout_set_closed [OF e] same])
  then show ?case using Cons.IH [OF ok rest] by (simp only: run list.pred_inject)
qed simp

definition turnout_actions :: "bool \<Rightarrow> view_layout \<Rightarrow> route_turnout \<Rightarrow> action list" where
  "turnout_actions configured l t =
     (case view_by_id (rt_turnoutId t) l of
        Some e \<Rightarrow>
          if isTurnoutElement e
          then send_turnout (turnout_of e) (rt_closed t) (if configured then turnout_options_of (turnout_of e) else no_options) @ [Wait 1000]
          else []
      | None \<Rightarrow> [])"

lemma send_turnout_closed:
  "send_turnout (turnout_of (set_closed b e)) v (if c then turnout_options_of (turnout_of (set_closed b e)) else no_options) =
   send_turnout (turnout_of e) v (if c then turnout_options_of (turnout_of e) else no_options)"
  by (cases "vw_data e")
    (simp_all add: send_turnout_def turnout_of_def set_closed_def turnout_options_of_def getTurnoutClosedAspect_def getTurnoutOpenedAspect_def)

lemma turnout_actions_closed: "turnout_actions c (update_view r (set_closed b) l) t = turnout_actions c l t"
  using send_turnout_closed
  by (cases "view_by_id (rt_turnoutId t) l") (simp_all add: turnout_actions_def by_id_closed isTurnoutElement_def)

lemma route_actions: "snd (set_route_turnouts c ts l) = concat (map (turnout_actions c l) ts)"
proof (induction ts arbitrary: l)
  case (Cons t ts)
  have rest: "concat (map (turnout_actions c (update_view r (set_closed b) l)) ts) = concat (map (turnout_actions c l) ts)" for r b
    by (simp only: turnout_actions_closed [abs_def])
  show ?case
    by (cases "view_by_id (rt_turnoutId t) l")
      (simp_all add: Cons.IH turnout_actions_def [of c l t] split_beta Let_def rest)
qed simp

lemma kept_view:
  assumes "e \<in> set (all_views l)" and "\<forall>t\<in>set ts. be_id e \<noteq> rt_turnoutId t" and "refs_distinct l"
  shows "e \<in> set (all_views (fst (set_route_turnouts c ts l)))"
  using assms
proof (induction ts arbitrary: l)
  case (Cons t ts)
  have rest: "\<forall>t\<in>set ts. be_id e \<noteq> rt_turnoutId t" using Cons.prems(2) by simp
  show ?case
  proof (cases "view_by_id (rt_turnoutId t) l")
    case None
    then show ?thesis using Cons.IH [OF Cons.prems(1) rest Cons.prems(3)] by (simp only: set_route_turnouts_Cons option.case)
  next
    case (Some f)
    have "be_id f = rt_turnoutId t" "f \<in> set (all_views l)" using by_id_found [OF Some] by simp_all
    then have "vw_ref e \<noteq> vw_ref f" using Cons.prems by (auto simp: refs_distinct_def distinct_map inj_on_def)
    then have "e \<in> set (all_views (update_view (vw_ref f) (set_closed (rt_closed t)) l))" using Cons.prems(1) by (force simp: all_views_update)
    then have "e \<in> set (all_views (fst (set_route_turnouts c ts (if isTurnoutElement f then update_view (vw_ref f) (set_closed (rt_closed t)) l else l))))"
      using Cons.IH [OF _ rest] Cons.prems by (cases "isTurnoutElement f") (simp_all only: if_True if_False refs_closed)
    then show ?thesis by (simp only: set_route_turnouts_Cons Some option.case)
  qed
qed simp

text \<open>C21. A click on a route button whose turnouts exist and are not wanted in two positions at once puts all its turnouts in place,
  sends the command of each of them in the order of the button between locking and unlocking the command center, and leaves
  every other element alone; when the command center is locked it does nothing but warn.\<close>

theorem route_button_sets_route:
  assumes "refs_distinct l" and "\<forall>t\<in>set (route_turnouts_of b). typed_turnout l (rt_turnoutId t)" and "consistent (route_turnouts_of b)"
  shows "list_all (turnout_set (fst (executeRouteButton False b l))) (route_turnouts_of b) \<and>
    snd (executeRouteButton False b l) =
      [Send routeLock, Busy True, Wait 1000] @ concat (map (turnout_actions False l) (route_turnouts_of b)) @ [Send routeUnlock, Busy False] \<and>
    (\<forall>e\<in>set (all_views l). (\<forall>t\<in>set (route_turnouts_of b). be_id e \<noteq> rt_turnoutId t) \<longrightarrow>
       e \<in> set (all_views (fst (executeRouteButton False b l)))) \<and>
    executeRouteButton True b l = (l, [Warn ''routesPanel.commandCenterBusy''])"
proof -
  have "fst (executeRouteButton False b l) = fst (set_route_turnouts False (route_turnouts_of b) l)"
    and "snd (executeRouteButton False b l) = [Send routeLock, Busy True, Wait 1000] @ snd (set_route_turnouts False (route_turnouts_of b) l) @
      [Send routeUnlock, Busy False]"
    and "executeRouteButton True b l = (l, [Warn ''routesPanel.commandCenterBusy''])"
    by (simp_all add: executeRouteButton_def run_route_def split_beta)
  then show ?thesis
    using set_route_turnouts_sets [OF assms, of False] kept_view [where c = False and ts = "route_turnouts_of b", OF _ _ assms(1)]
    by (simp only: route_actions) blast
qed

definition sample_button :: view where
  "sample_button = sample_view 4 5 BUTTON_ROUTE 0 5 (RouteButtonData False [\<lparr>rt_turnoutId = 1, rt_closed = False\<rparr>])"

theorem route_button_sets_route_witness:
  "list_all (turnout_set (fst (executeRouteButton False sample_button sample_views))) (route_turnouts_of sample_button) \<and>
   snd (executeRouteButton False sample_button sample_views) =
     [Send routeLock, Busy True, Wait 1000, Send (setTurnout 5 False), Wait 1000, Send routeUnlock, Busy False]"
proof -
  have d: "refs_distinct sample_views" by code_simp
  have "view_by_id 1 sample_views = Some (hd (vl_track sample_views))" "isTurnoutElement (hd (vl_track sample_views))"
      "\<exists>d. vw_data (hd (vl_track sample_views)) = TurnoutData d"
    by (simp_all add: view_by_id_def all_views_def sample_views_def sample_view_def new_base_def base_element.defs isTurnoutElement_def)
  then have t: "\<forall>t\<in>set (route_turnouts_of sample_button). typed_turnout sample_views (rt_turnoutId t)"
    by (simp add: sample_button_def route_turnouts_of_def sample_view_def base_element.defs typed_turnout_def)
  have c: "consistent (route_turnouts_of sample_button)"
    by (simp add: sample_button_def route_turnouts_of_def sample_view_def base_element.defs consistent_def)
  have "[Send routeLock, Busy True, Wait 1000] @ concat (map (turnout_actions False sample_views) (route_turnouts_of sample_button)) @
      [Send routeUnlock, Busy False] =
      [Send routeLock, Busy True, Wait 1000, Send (setTurnout 5 False), Wait 1000, Send routeUnlock, Busy False]"
    by code_simp
  then show ?thesis using route_button_sets_route [OF d t c] by simp
qed

subsection \<open>Turnouts follow the reports\<close>

definition turnout_key :: "view \<Rightarrow> element_type \<times> turnout_data option" where
  "turnout_key e = (be_type e, case vw_data e of TurnoutData d \<Rightarrow> Some d | _ \<Rightarrow> None)"

lemma by_ref_map: "(\<And>e. vw_ref (f e) = vw_ref e) \<Longrightarrow> view_by_ref r (map_views f l) = map_option f (view_by_ref r l)"
  by (simp add: view_by_ref_def find_map_conv comp_def)

lemma refs_kept: "(\<And>e. vw_ref (f e) = vw_ref e) \<Longrightarrow> map vw_ref (all_views (map_views f l)) = map vw_ref (all_views l)"
  by (simp add: comp_def)

lemma shown_key: "turnout_key (shown R bs e) = turnout_key e"
proof -
  have "turnout_key (set_active b e) = turnout_key e" for b using set_active_cases [of b e] by (auto simp: turnout_key_def)
  moreover have "turnout_key (visit_view None e) = turnout_key e" for e by (simp add: turnout_key_def visit_view_def)
  ultimately show ?thesis by (simp add: shown_def Let_def split: option.split)
qed

lemma reset_key: "map_option turnout_key (view_by_ref r (reset_marks l)) = map_option turnout_key (view_by_ref r l)"
proof -
  have "map_option turnout_key (view_by_ref r l) = map_option snd (find (\<lambda>k. fst k = r) (map (\<lambda>e. (vw_ref e, turnout_key e)) (all_views l)))" for l
    by (simp add: view_by_ref_def find_map_conv comp_def option.map_comp)
  moreover have "map (\<lambda>e. (vw_ref e, turnout_key e)) (all_views (reset_marks l)) = map (\<lambda>e. (vw_ref e, turnout_key e)) (all_views l)"
    by (simp add: reset_marks_def all_views_def map_track_views_def turnout_key_def)
  ultimately show ?thesis by simp
qed

lemma checkRoutes_keeps:
  assumes "refs_distinct l"
  shows "map_option turnout_key (view_by_ref r (checkRoutes l)) = map_option turnout_key (view_by_ref r l)" and "refs_distinct (checkRoutes l)"
proof -
  let ?l0 = "reset_marks l"
  let ?bs = "filter isRouteButton (all_views ?l0)"
  let ?f = "shown (routes_from ?l0 ?bs) (rev (map (\<lambda>b. (vw_ref b, button_set ?l0 b)) ?bs))"
  have conv: "checkRoutes l = map_views ?f ?l0"
    unfolding checkRoutes_conv [OF assms] Let_def marked_def activated_def map_views_comp
    by (rule map_views_cong) (simp add: shown_def Let_def split: option.split)
  show "map_option turnout_key (view_by_ref r (checkRoutes l)) = map_option turnout_key (view_by_ref r l)"
    unfolding conv by_ref_map [OF shown_fields(1)] option.map_comp comp_def shown_key by (rule reset_key)
  have "map vw_ref (all_views (checkRoutes l)) = map vw_ref (all_views l)"
    by (simp add: conv shown_fields(1) comp_def reset_marks_def all_views_def map_track_views_def map_views_def)
  then show "refs_distinct (checkRoutes l)" using assms by (simp add: refs_distinct_def)
qed

lemma turnout_changed_ref: "vw_ref (turnout_changed m a c e) = vw_ref e"
  by (simp add: turnout_changed_def split: view_data.split)

lemma turnout_changed_key:
  assumes "isTurnoutElement e" and "vw_data e = TurnoutData d"
  shows "turnout_key (turnout_changed m a c e) =
    (be_type e, Some (if td_outputMode d = m \<and> td_address d = a then d\<lparr>td_closed := c\<rparr> else d))"
  using assms by (simp add: turnout_changed_def turnout_key_def set_closed_turnout)

lemma key_turnout: "turnout_key e = (t, Some d) \<longleftrightarrow> be_type e = t \<and> vw_data e = TurnoutData d"
  by (auto simp: turnout_key_def split: view_data.splits)

lemma turnout_report:
  assumes "refs_distinct l" and e: "view_by_ref r l = Some e" "isTurnoutElement e" "vw_data e = TurnoutData d"
  shows "refs_distinct (on_turnoutChanged a c l)" and
    "\<exists>f. view_by_ref r (on_turnoutChanged a c l) = Some f \<and> isTurnoutElement f \<and> be_type f = be_type e \<and>
       vw_data f = TurnoutData (if td_outputMode d = ModeAccessory \<and> td_address d = a then d\<lparr>td_closed := c\<rparr> else d)"
proof -
  let ?l1 = "map_views (turnout_changed ModeAccessory a c) l"
  have l1: "refs_distinct ?l1"
    using assms(1) unfolding refs_distinct_def by (simp only: refs_kept [OF turnout_changed_ref])
  then show "refs_distinct (on_turnoutChanged a c l)" by (simp add: on_turnoutChanged_def checkRoutes_keeps(2))
  have "map_option turnout_key (view_by_ref r (on_turnoutChanged a c l)) =
      Some (be_type e, Some (if td_outputMode d = ModeAccessory \<and> td_address d = a then d\<lparr>td_closed := c\<rparr> else d))"
    unfolding on_turnoutChanged_def checkRoutes_keeps(1) [OF l1] by_ref_map [OF turnout_changed_ref]
    by (simp only: e(1) option.map turnout_changed_key [OF e(2,3)])
  then show "\<exists>f. view_by_ref r (on_turnoutChanged a c l) = Some f \<and> isTurnoutElement f \<and> be_type f = be_type e \<and>
       vw_data f = TurnoutData (if td_outputMode d = ModeAccessory \<and> td_address d = a then d\<lparr>td_closed := c\<rparr> else d)"
    using e(2) by (auto simp: key_turnout isTurnoutElement_def)
qed

text \<open>C22. After any sequence of turnout reports of the server, each followed by the check of the routes, a turnout with an
  accessory output is in the position of the last report for its address, and where it was when there was none; a turnout
  with another output keeps its position, and nothing else of a turnout changes.\<close>

theorem turnout_follows_reports:
  assumes "refs_distinct l" and "view_by_ref r l = Some e" and "isTurnoutElement e" and "vw_data e = TurnoutData d"
  shows "\<exists>f. view_by_ref r (fold (\<lambda>(a, c). on_turnoutChanged a c) reports l) = Some f \<and> be_type f = be_type e \<and>
    vw_data f = TurnoutData (d\<lparr>td_closed :=
      (case map_of (rev reports) (td_address d) of
         Some c \<Rightarrow> if td_outputMode d = ModeAccessory then c else td_closed d
       | None \<Rightarrow> td_closed d)\<rparr>)"
  using assms
proof (induction reports arbitrary: l e d)
  case (Cons p reports)
  obtain a c where p: "p = (a, c)" by force
  let ?d = "if td_outputMode d = ModeAccessory \<and> td_address d = a then d\<lparr>td_closed := c\<rparr> else d"
  obtain f where f: "view_by_ref r (on_turnoutChanged a c l) = Some f" "isTurnoutElement f" "be_type f = be_type e" "vw_data f = TurnoutData ?d"
    using turnout_report(2) [OF Cons.prems] by blast
  have "map_of (rev (p # reports)) x = (case map_of (rev reports) x of Some c \<Rightarrow> Some c | None \<Rightarrow> if x = a then Some c else None)" for x
    by (simp add: p map_add_def split: option.split)
  then show ?case
    using Cons.IH [OF turnout_report(1) [OF Cons.prems] f(1,2,4)] f(3) by (auto simp: p split: option.splits if_splits)
qed simp

theorem turnout_follows_reports_witness:
  "\<exists>f. view_by_ref 0 (fold (\<lambda>(a, c). on_turnoutChanged a c) [(5, True), (6, True), (5, False)] sample_views) = Some f \<and>
     be_type f = TRACK_TURNOUT_LEFT \<and> \<not> td_closed (turnout_of f)"
proof -
  let ?e = "hd (vl_track sample_views)"
  have d: "refs_distinct sample_views" by code_simp
  have e: "view_by_ref 0 sample_views = Some ?e" "isTurnoutElement ?e" "be_type ?e = TRACK_TURNOUT_LEFT"
    by (simp_all add: view_by_ref_def all_views_def sample_views_def sample_view_def new_base_def base_element.defs isTurnoutElement_def)
  have t: "vw_data ?e = TurnoutData \<lparr>td_outputMode = ModeAccessory, td_address = 5, td_closedValue = True, td_closed = True,
      td_closedAspect = JUndef, td_openedAspect = JUndef\<rparr>"
    by (simp add: sample_views_def sample_view_def base_element.defs)
  show ?thesis
    using turnout_follows_reports [OF d e(1,2) t, of "[(5, True), (6, True), (5, False)]"] e(3) by (auto simp: turnout_of_def)
qed

end
