(* ===== verification/RouteGraphStore.thy ===== *)
theory RouteGraphStore
  imports RouteSearch LayoutViews
begin

text \<open>
  \<open>services/routeGraphDtoMapper.ts\<close> and \<open>services/routeGraphStore.ts\<close>: the graph of the server as the client
  rebuilds it, and the store that loads it once for all who ask. A node object is identified by its position in the
  message. A pending load is a number; the answer of the server and the \<open>finally\<close> of the caller that started the load
  are two events, since other code may run between them.
\<close>

subsection \<open>The message of the server\<close>

record node_dto =
  nd_name :: string
  nd_trackName :: string
  nd_x :: int
  nd_y :: int
  nd_isVirtual :: bool
  nd_busy :: bool
  nd_detectors :: "section_detector list"
  nd_signals :: "section_signal list"
  nd_blocks :: "section_block list"
  nd_elementIds :: "layout_element_id list"

record edge_dto =
  ed_from :: string
  ed_to :: string
  ed_turnoutStates :: "turnout_requirement list"
  ed_locoDirection :: travel_direction

record route_graph_dto =
  rg_nodes :: "node_dto list"
  rg_edges :: "edge_dto list"
  rg_trackRuntime :: "track_runtime list option"

datatype graph_response = NotReady | Ready route_graph_dto

subsection \<open>The mapper\<close>

definition new_node :: "nat \<Rightarrow> node_dto \<Rightarrow> graph_node" where
  "new_node k d =
     \<lparr>gn_ref = k, gn_name = nd_name d, gn_trackName = nd_trackName d, gn_x = nd_x d, gn_y = nd_y d,
      gn_isVirtual = nd_isVirtual d, gn_busy = nd_busy d, gn_detectors = nd_detectors d, gn_signals = nd_signals d,
      gn_blocks = nd_blocks d, gn_elementIds = nd_elementIds d\<rparr>"

type_synonym name_map = "(string \<times> graph_node) list"

fun add_nodes :: "nat \<Rightarrow> node_dto list \<Rightarrow> graph \<times> name_map \<Rightarrow> graph \<times> name_map" where
  "add_nodes k [] s = s"
| "add_nodes k (d # ds) s =
     (case s of (g, nodesByName) \<Rightarrow>
        let node = new_node k d in add_nodes (k + 1) ds (addNode node g, AList.update (gn_name node) node nodesByName))"

fun add_edges :: "name_map \<Rightarrow> edge_dto list \<Rightarrow> graph \<Rightarrow> graph" where
  "add_edges nodesByName [] g = g"
| "add_edges nodesByName (e # es) g =
     (case (map_of nodesByName (ed_from e), map_of nodesByName (ed_to e)) of
        (Some fromNode, Some toNode) \<Rightarrow>
          add_edges nodesByName es
            (addEdge \<lparr>e_from = fromNode, e_to = toNode, e_turnoutStates = ed_turnoutStates e, e_locoDirection = ed_locoDirection e\<rparr> g)
      | _ \<Rightarrow> add_edges nodesByName es g)"

definition createClientGraphFromRouteGraphDto :: "route_graph_dto \<Rightarrow> graph" where
  "createClientGraphFromRouteGraphDto dto =
     (case add_nodes 0 (rg_nodes dto) (\<lparr>g_nodes = [], g_edges = []\<rparr>, []) of
        (g, nodesByName) \<Rightarrow> add_edges nodesByName (rg_edges dto) g)"

subsection \<open>The store\<close>

datatype store_told = Told nat "graph option"

record graph_store =
  st_graph :: "graph option"
  st_trackRuntime :: "track_runtime list"
  st_stale :: bool
  st_listeners :: "nat list"
  st_loading :: "nat option"
  st_asked :: "nat list"
  st_answered :: "nat list"
  st_next :: nat
  st_out :: "store_told list"

definition new_store :: graph_store where
  "new_store =
     \<lparr>st_graph = None, st_trackRuntime = [], st_stale = True, st_listeners = [], st_loading = None, st_asked = [],
      st_answered = [], st_next = 0, st_out = []\<rparr>"

definition getGraph :: "graph_store \<Rightarrow> graph option" where
  "getGraph s = st_graph s"

definition getTrackRuntime :: "graph_store \<Rightarrow> track_runtime list" where
  "getTrackRuntime s = st_trackRuntime s"

definition isLoaded :: "graph_store \<Rightarrow> bool" where
  "isLoaded s \<longleftrightarrow> st_graph s \<noteq> None \<and> \<not> st_stale s"

definition store_emit :: "graph_store \<Rightarrow> graph_store" where
  "store_emit s = s\<lparr>st_out := st_out s @ map (\<lambda>l. Told l (st_graph s)) (st_listeners s)\<rparr>"

definition setGraph :: "graph option \<Rightarrow> graph_store \<Rightarrow> graph_store" where
  "setGraph g s =
     (let s1 = s\<lparr>st_graph := g, st_stale := (g = None)\<rparr>
      in store_emit (if g = None then s1\<lparr>st_trackRuntime := []\<rparr> else s1))"

definition store_invalidate :: "graph_store \<Rightarrow> graph_store" where
  "store_invalidate s = store_emit (s\<lparr>st_graph := None, st_trackRuntime := [], st_stale := True\<rparr>)"

definition store_clear :: "graph_store \<Rightarrow> graph_store" where
  "store_clear s = store_invalidate s"

text \<open>What \<open>ensureLoaded\<close> returns: a graph it has, or the promise of a load.\<close>

datatype graph_answer = HasGraph graph | AwaitLoad nat

definition ensureLoaded :: "graph_store \<Rightarrow> graph_answer \<times> graph_store" where
  "ensureLoaded s =
     (case (st_graph s, st_stale s, st_loading s) of
        (Some g, False, _) \<Rightarrow> (HasGraph g, s)
      | (_, _, Some n) \<Rightarrow> (AwaitLoad n, s)
      | (_, _, None) \<Rightarrow>
          let n = st_next s
          in (AwaitLoad n, s\<lparr>st_loading := Some n, st_asked := st_asked s @ [n], st_next := n + 1\<rparr>))"

definition store_reload :: "graph_store \<Rightarrow> graph_answer \<times> graph_store" where
  "store_reload s = ensureLoaded (store_emit (s\<lparr>st_stale := True, st_graph := None, st_trackRuntime := []\<rparr>))"

definition loadFromServer :: "graph_response \<Rightarrow> graph_store \<Rightarrow> graph_store" where
  "loadFromServer response s =
     (case response of
        NotReady \<Rightarrow> store_emit (s\<lparr>st_graph := None, st_trackRuntime := [], st_stale := True\<rparr>)
      | Ready dto \<Rightarrow>
          store_emit (s\<lparr>st_graph := Some (createClientGraphFromRouteGraphDto dto),
            st_trackRuntime := (case rg_trackRuntime dto of Some ts \<Rightarrow> ts | None \<Rightarrow> []), st_stale := False\<rparr>))"

text \<open>A request that fails leaves the store as it is; then the caller that started the load forgets it.\<close>

definition load_answered :: "nat \<Rightarrow> string + graph_response \<Rightarrow> graph_store \<Rightarrow> graph_store" where
  "load_answered n result s =
     (let s1 = s\<lparr>st_asked := set_delete n (st_asked s), st_answered := st_answered s @ [n]\<rparr>
      in case result of Inl e \<Rightarrow> s1 | Inr response \<Rightarrow> loadFromServer response s1)"

definition load_finished :: "nat \<Rightarrow> graph_store \<Rightarrow> graph_store" where
  "load_finished n s = s\<lparr>st_loading := None, st_answered := set_delete n (st_answered s)\<rparr>"

definition store_subscribe :: "nat \<Rightarrow> graph_store \<Rightarrow> graph_store" where
  "store_subscribe l s = s\<lparr>st_listeners := set_add l (st_listeners s), st_out := st_out s @ [Told l (st_graph s)]\<rparr>"

definition store_unsubscribe :: "nat \<Rightarrow> graph_store \<Rightarrow> graph_store" where
  "store_unsubscribe l s = s\<lparr>st_listeners := set_delete l (st_listeners s)\<rparr>"

datatype store_event =
    SetGraph "graph option" | Invalidate | Clear | EnsureLoaded | Reload | Subscribe nat | Unsubscribe nat
  | LoadAnswered nat "string + graph_response" | LoadFinished nat

definition store_enabled :: "store_event \<Rightarrow> graph_store \<Rightarrow> bool" where
  "store_enabled ev s =
     (case ev of LoadAnswered n r \<Rightarrow> n \<in> set (st_asked s) | LoadFinished n \<Rightarrow> n \<in> set (st_answered s) | _ \<Rightarrow> True)"

definition store_step :: "store_event \<Rightarrow> graph_store \<Rightarrow> graph_store" where
  "store_step ev s =
     (case ev of
        SetGraph g \<Rightarrow> setGraph g s
      | Invalidate \<Rightarrow> store_invalidate s
      | Clear \<Rightarrow> store_clear s
      | EnsureLoaded \<Rightarrow> snd (ensureLoaded s)
      | Reload \<Rightarrow> snd (store_reload s)
      | Subscribe l \<Rightarrow> store_subscribe l s
      | Unsubscribe l \<Rightarrow> store_unsubscribe l s
      | LoadAnswered n r \<Rightarrow> load_answered n r s
      | LoadFinished n \<Rightarrow> load_finished n s)"

inductive store_reachable :: "graph_store \<Rightarrow> bool" where
  store_start: "store_reachable new_store"
| store_next: "store_reachable s \<Longrightarrow> store_enabled ev s \<Longrightarrow> store_reachable (store_step ev s)"

subsection \<open>The mapped graph\<close>

definition mapped_nodes :: "route_graph_dto \<Rightarrow> graph_node list" where
  "mapped_nodes dto = map2 new_node [0..<length (rg_nodes dto)] (rg_nodes dto)"

definition node_map :: "graph_node list \<Rightarrow> string \<Rightarrow> graph_node option" where
  "node_map ns name = find (\<lambda>n. gn_name n = name) (rev ns)"

definition map_edge :: "(string \<Rightarrow> graph_node option) \<Rightarrow> edge_dto \<Rightarrow> edge option" where
  "map_edge node e =
     (case (node (ed_from e), node (ed_to e)) of
        (Some fromNode, Some toNode) \<Rightarrow>
          Some \<lparr>e_from = fromNode, e_to = toNode, e_turnoutStates = ed_turnoutStates e, e_locoDirection = ed_locoDirection e\<rparr>
      | _ \<Rightarrow> None)"

lemma map_update_node: "map_of (AList.update (gn_name n) n m) = (\<lambda>x. if x = gn_name n then Some n else map_of m x)"
  by (auto simp: update_conv')

lemma add_nodes_conv:
  assumes "map_of m = node_map (g_nodes g)"
  shows "fst (add_nodes k ds (g, m)) = g\<lparr>g_nodes := g_nodes g @ map2 new_node [k..<k + length ds] ds\<rparr> \<and>
    map_of (snd (add_nodes k ds (g, m))) = node_map (g_nodes g @ map2 new_node [k..<k + length ds] ds)"
  using assms
proof (induction ds arbitrary: k g m)
  case (Cons d ds)
  let ?n = "new_node k d"
  have "map_of (AList.update (gn_name ?n) ?n m) = node_map (g_nodes (addNode ?n g))"
    using Cons.prems by (auto simp: map_update_node node_map_def addNode_def fun_eq_iff)
  moreover have "map2 new_node [k..<k + length (d # ds)] (d # ds) = ?n # map2 new_node [k + 1..<k + 1 + length ds] ds"
    by (simp add: upt_conv_Cons del: upt_Suc)
  ultimately show ?case
    using Cons.IH [of m "addNode ?n g" "k + 1"] Cons.IH [of "AList.update (gn_name ?n) ?n m" "addNode ?n g" "k + 1"]
    by (simp only: add_nodes.simps prod.case Let_def) (simp add: addNode_def)
qed simp

lemma add_edges_conv: "add_edges m es g = g\<lparr>g_edges := g_edges g @ filter_some (map_edge (map_of m)) es\<rparr>"
  by (induction m es g rule: add_edges.induct) (auto simp: map_edge_def addEdge_def split: option.splits)

lemma mapped_graph:
  "createClientGraphFromRouteGraphDto dto =
     \<lparr>g_nodes = mapped_nodes dto, g_edges = filter_some (map_edge (node_map (mapped_nodes dto))) (rg_edges dto)\<rparr>"
proof -
  have "map_of [] = node_map (g_nodes \<lparr>g_nodes = [], g_edges = []\<rparr>)" by (simp add: node_map_def fun_eq_iff)
  from add_nodes_conv [OF this, of 0 "rg_nodes dto"] show ?thesis
    by (simp add: createClientGraphFromRouteGraphDto_def split_beta add_edges_conv mapped_nodes_def)
qed

lemma mapped_names: "map gn_name (mapped_nodes dto) = map nd_name (rg_nodes dto)"
  by (rule nth_equalityI) (simp_all add: mapped_nodes_def new_node_def)


lemma node_map_in: "node_map (mapped_nodes dto) name = Some n \<Longrightarrow> n \<in> set (mapped_nodes dto) \<and> gn_name n = name"
  by (auto simp: node_map_def dest: find_SomeD)

lemma mapped_name_set: "gn_name ` set (mapped_nodes dto) = nd_name ` set (rg_nodes dto)"
  using arg_cong [OF mapped_names, of set dto] by simp

lemma node_map_known: "name \<in> nd_name ` set (rg_nodes dto) \<Longrightarrow> \<exists>n. node_map (mapped_nodes dto) name = Some n"
  unfolding mapped_name_set [symmetric] node_map_def using find_is_Some [of _ "rev (mapped_nodes dto)" "\<lambda>n. gn_name n = name"] by auto

lemma mapped_refs: "map gn_ref (mapped_nodes dto) = [0..<length (rg_nodes dto)]"
  by (rule nth_equalityI) (simp_all add: mapped_nodes_def new_node_def)

lemma mapped_same: "n \<in> set (mapped_nodes dto) \<Longrightarrow> n' \<in> set (mapped_nodes dto) \<Longrightarrow> same_node n n' \<longleftrightarrow> n = n'"
  using mapped_refs [of dto] distinct_upt [of 0 "length (rg_nodes dto)"]
  by (auto simp: same_node_def distinct_map inj_on_def simp flip: mapped_refs)

lemma mapped_edge:
  "e \<in> set (g_edges (createClientGraphFromRouteGraphDto dto)) \<longleftrightarrow>
     (\<exists>d\<in>set (rg_edges dto). node_map (mapped_nodes dto) (ed_from d) = Some (e_from e) \<and> node_map (mapped_nodes dto) (ed_to d) = Some (e_to e) \<and>
        e_turnoutStates e = ed_turnoutStates d \<and> e_locoDirection e = ed_locoDirection d)"
  by (force simp: mapped_graph set_filter_some map_edge_def split: option.splits)

lemma mapped_graph_nodes: "g_nodes (createClientGraphFromRouteGraphDto dto) = mapped_nodes dto"
  by (simp add: mapped_graph)

lemma mapped_universe: "universe (createClientGraphFromRouteGraphDto dto) = set (mapped_nodes dto)"
  by (auto simp: universe_def mapped_graph_nodes mapped_edge dest: node_map_in)

lemma mapped_distinct:
  assumes "distinct (map nd_name (rg_nodes dto))" and "n \<in> set (mapped_nodes dto)" and "n' \<in> set (mapped_nodes dto)" and "gn_name n = gn_name n'"
  shows "n = n'"
proof -
  have "distinct (map gn_name (mapped_nodes dto))" using assms(1) by (simp only: mapped_names)
  then show ?thesis using assms(2-4) by (auto simp: distinct_map inj_on_def)
qed

lemma mapped_well_named: "distinct (map nd_name (rg_nodes dto)) \<Longrightarrow> well_named (createClientGraphFromRouteGraphDto dto)"
  unfolding well_named_def universe_def [symmetric] mapped_universe using mapped_distinct by (metis same_node_refl)

lemma mapped_node_named:
  assumes "distinct (map nd_name (rg_nodes dto))"
  shows "node_named (createClientGraphFromRouteGraphDto dto) name = node_map (mapped_nodes dto) name"
proof (cases "node_map (mapped_nodes dto) name")
  case None
  then have "find (\<lambda>n. gn_name n = name) (mapped_nodes dto) = None" by (auto simp: node_map_def find_None_iff)
  then show ?thesis by (simp add: None node_named_def mapped_graph_nodes)
next
  case (Some n)
  have n: "n \<in> set (mapped_nodes dto)" "gn_name n = name" using node_map_in [OF Some] by simp_all
  have "find (\<lambda>n. gn_name n = name) (mapped_nodes dto) = Some n"
  proof (rule find_eq_unique [OF n(1)])
    show "gn_name n = name" by (rule n(2))
    show "y = n" if "y \<in> set (mapped_nodes dto)" "gn_name y = name" for y
      using mapped_distinct [OF assms that(1) n(1)] that(2) n(2) by simp
  qed
  then show ?thesis by (simp add: node_named_def mapped_graph_nodes Some)
qed

text \<open>A chain of edges in the message of the server, and what such a chain requires.\<close>

fun dto_walk :: "route_graph_dto \<Rightarrow> string \<Rightarrow> edge_dto list \<Rightarrow> string \<Rightarrow> bool" where
  "dto_walk dto a [] b \<longleftrightarrow> a = b"
| "dto_walk dto a (e # es) b \<longleftrightarrow>
     e \<in> set (rg_edges dto) \<and> ed_from e = a \<and> ed_to e \<in> nd_name ` set (rg_nodes dto) \<and> dto_walk dto (ed_to e) es b"

definition dto_compatible :: "edge_dto list \<Rightarrow> bool" where
  "dto_compatible es \<longleftrightarrow> agreeing (concat (map ed_turnoutStates es)) \<and> one_way (map ed_locoDirection es)"

definition same_demands :: "edge list \<Rightarrow> edge_dto list \<Rightarrow> bool" where
  "same_demands es ds \<longleftrightarrow> list_all2 (\<lambda>e d. e_turnoutStates e = ed_turnoutStates d \<and> e_locoDirection e = ed_locoDirection d) es ds"

lemma same_demands_compatible: "same_demands es ds \<Longrightarrow> compatible es = dto_compatible ds"
proof -
  assume "same_demands es ds"
  then have "map e_turnoutStates es = map ed_turnoutStates ds \<and> map e_locoDirection es = map ed_locoDirection ds"
    unfolding same_demands_def by (induction rule: list_all2_induct) auto
  then show ?thesis by (simp add: compatible_def dto_compatible_def requirements_of_def)
qed

lemma walk_of_message:
  assumes "dto_walk dto a ds b" and "node_map (mapped_nodes dto) a = Some u" and "node_map (mapped_nodes dto) b = Some v"
  shows "\<exists>es. edge_walk (createClientGraphFromRouteGraphDto dto) u es v \<and> same_demands es ds"
  using assms
proof (induction ds arbitrary: a u)
  case Nil
  then show ?case by (intro exI [of _ "[]"]) (simp add: same_demands_def)
next
  case (Cons d ds)
  obtain w where w: "node_map (mapped_nodes dto) (ed_to d) = Some w" using Cons.prems(1) node_map_known by auto
  obtain es where es: "edge_walk (createClientGraphFromRouteGraphDto dto) w es v" "same_demands es ds"
    using Cons.IH [OF _ w Cons.prems(3)] Cons.prems(1) by auto
  let ?e = "\<lparr>e_from = u, e_to = w, e_turnoutStates = ed_turnoutStates d, e_locoDirection = ed_locoDirection d\<rparr>"
  have "?e \<in> set (g_edges (createClientGraphFromRouteGraphDto dto))"
    unfolding mapped_edge using Cons.prems(1,2) w by (intro bexI [of _ d]) simp_all
  then show ?case using es by (intro exI [of _ "?e # es"]) (simp add: same_demands_def)
qed

lemma message_of_walk:
  assumes "edge_walk (createClientGraphFromRouteGraphDto dto) u es v" and "u \<in> set (mapped_nodes dto)" and "v \<in> set (mapped_nodes dto)"
  shows "\<exists>ds. dto_walk dto (gn_name u) ds (gn_name v) \<and> same_demands es ds"
  using assms
proof (induction es arbitrary: u)
  case Nil
  then have "u = v" by (simp add: mapped_same)
  then show ?case by (intro exI [of _ "[]"]) (simp add: same_demands_def)
next
  case (Cons e es)
  obtain d where d: "d \<in> set (rg_edges dto)" "node_map (mapped_nodes dto) (ed_from d) = Some (e_from e)"
      "node_map (mapped_nodes dto) (ed_to d) = Some (e_to e)" "e_turnoutStates e = ed_turnoutStates d" "e_locoDirection e = ed_locoDirection d"
    using Cons.prems(1) by (auto simp: mapped_edge)
  have u: "e_from e = u" 
    using Cons.prems(1,2) node_map_in [OF d(2)] mapped_same [of "e_from e" dto u] by simp
  have to: "e_to e \<in> set (mapped_nodes dto)" "gn_name (e_to e) = ed_to d" using node_map_in [OF d(3)] by simp_all
  obtain ds where ds: "dto_walk dto (ed_to d) ds (gn_name v)" "same_demands es ds"
    using Cons.IH [OF _ to(1) Cons.prems(3)] Cons.prems(1) to(2) by auto
  have "ed_from d = gn_name u" using node_map_in [OF d(2)] u by simp
  moreover have "ed_to d \<in> nd_name ` set (rg_nodes dto)" 
    using imageI [OF to(1), of gn_name] by (simp only: to(2) mapped_name_set)
  ultimately have "dto_walk dto (gn_name u) (d # ds) (gn_name v)" using d(1) ds(1) by (simp only: dto_walk.simps simp_thms)
  moreover have "same_demands (e # es) (d # ds)" using d(4,5) ds(2) by (simp add: same_demands_def)
  ultimately show ?case by blast
qed

text \<open>C23. For a message with distinct node names, the search in the mapped graph finds a route between two nodes of the message
  exactly when some chain of its edges, through nodes it lists, joins them without contradictory turnouts or directions; what
  it finds is such a chain of the message, and no other chain has fewer edges.\<close>

theorem mapped_search:
  assumes "distinct (map nd_name (rg_nodes dto))" and "a \<in> nd_name ` set (rg_nodes dto)" and "b \<in> nd_name ` set (rg_nodes dto)"
  shows "\<exists>result. findRoute (createClientGraphFromRouteGraphDto dto) a b = Some result \<and>
    (case result of
       None \<Rightarrow> \<not> (\<exists>ds. dto_walk dto a ds b \<and> dto_compatible ds)
     | Some sol \<Rightarrow>
         (\<exists>ds. dto_walk dto a ds b \<and> dto_compatible ds \<and> same_demands (rs_edges sol) ds) \<and>
         (\<forall>ds. dto_walk dto a ds b \<and> dto_compatible ds \<longrightarrow> length (rs_edges sol) \<le> length ds))"
proof -
  let ?g = "createClientGraphFromRouteGraphDto dto"
  obtain u v where uv: "node_map (mapped_nodes dto) a = Some u" "node_map (mapped_nodes dto) b = Some v"
    using node_map_known assms(2,3) by meson
  then have named: "node_named ?g a = Some u" "node_named ?g b = Some v" by (simp_all add: mapped_node_named [OF assms(1)])
  have u: "u \<in> set (mapped_nodes dto)" "gn_name u = a" and v: "v \<in> set (mapped_nodes dto)" "gn_name v = b"
    using uv node_map_in by auto
  have found: "\<exists>sol. findRoute ?g a b = Some (Some sol) \<and> length (rs_edges sol) \<le> length ds" if ds: "dto_walk dto a ds b" "dto_compatible ds" for ds
  proof -
    obtain es where es: "edge_walk ?g u es v" "same_demands es ds" using walk_of_message [OF ds(1) uv] by blast
    then have "length es = length ds" "compatible es"
      using ds(2) same_demands_compatible by (auto simp: same_demands_def dest: list_all2_lengthD)
    then show ?thesis using findRoute_finds [OF mapped_well_named [OF assms(1)] named es(1)] by simp
  qed
  have sound: "\<exists>ds. dto_walk dto a ds b \<and> dto_compatible ds \<and> same_demands (rs_edges sol) ds" if "findRoute ?g a b = Some (Some sol)" for sol
  proof -
    have r: "is_route ?g u v sol" using findRoute_is_route [OF named that] .
    then obtain ds where "dto_walk dto a ds b" "same_demands (rs_edges sol) ds"
      using message_of_walk [of dto u "rs_edges sol" v] u v by (auto simp: is_route_def)
    then show ?thesis using r same_demands_compatible by (auto simp: is_route_def)
  qed
  obtain result where result: "findRoute ?g a b = Some result" using findRoute_ends by blast
  show ?thesis
  proof (intro exI [of _ result] conjI)
    show "findRoute ?g a b = Some result" by (rule result)
    show "case result of
       None \<Rightarrow> \<not> (\<exists>ds. dto_walk dto a ds b \<and> dto_compatible ds)
     | Some sol \<Rightarrow>
         (\<exists>ds. dto_walk dto a ds b \<and> dto_compatible ds \<and> same_demands (rs_edges sol) ds) \<and>
         (\<forall>ds. dto_walk dto a ds b \<and> dto_compatible ds \<longrightarrow> length (rs_edges sol) \<le> length ds)"
      using found sound result by (cases result) fastforce+
  qed
qed

definition sample_node_dto :: "string \<Rightarrow> node_dto" where
  "sample_node_dto name = \<lparr>nd_name = name, nd_trackName = name, nd_x = 0, nd_y = 0, nd_isVirtual = False, nd_busy = False,
     nd_detectors = [], nd_signals = [], nd_blocks = [], nd_elementIds = []\<rparr>"

definition sample_dto :: route_graph_dto where
  "sample_dto = \<lparr>rg_nodes = map sample_node_dto [''A'', ''B'', ''C''],
     rg_edges = [\<lparr>ed_from = ''A'', ed_to = ''B'', ed_turnoutStates = [\<lparr>tr_address = 3, tr_closed = True\<rparr>], ed_locoDirection = Forward\<rparr>,
       \<lparr>ed_from = ''B'', ed_to = ''C'', ed_turnoutStates = [\<lparr>tr_address = 3, tr_closed = False\<rparr>], ed_locoDirection = Unknown\<rparr>,
       \<lparr>ed_from = ''B'', ed_to = ''X'', ed_turnoutStates = [], ed_locoDirection = Unknown\<rparr>],
     rg_trackRuntime = None\<rparr>"

theorem mapped_search_witness:
  "(\<exists>ds. dto_walk sample_dto ''A'' ds ''B'' \<and> dto_compatible ds) \<and> \<not> (\<exists>ds. dto_walk sample_dto ''A'' ds ''C'' \<and> dto_compatible ds)"
proof -
  have d: "distinct (map nd_name (rg_nodes sample_dto))" by (simp add: sample_dto_def sample_node_dto_def)
  have n: "n \<in> nd_name ` set (rg_nodes sample_dto)" if "n \<in> {''A'', ''B'', ''C''}" for n
    using that by (auto simp: sample_dto_def sample_node_dto_def)
  have "map_option (map_option (\<lambda>s. length (rs_edges s))) (findRoute (createClientGraphFromRouteGraphDto sample_dto) ''A'' ''B'') = Some (Some 1)"
      "map_option (map_option (\<lambda>s. length (rs_edges s))) (findRoute (createClientGraphFromRouteGraphDto sample_dto) ''A'' ''C'') = Some None"
    by code_simp+
  then show ?thesis
    using mapped_search [OF d n n, of "''A''" "''B''"] mapped_search [OF d n n, of "''A''" "''C''"] by (auto split: option.splits)
qed

subsection \<open>The store is consistent\<close>

fun told :: "nat \<Rightarrow> store_told \<Rightarrow> bool" where
  "told l (Told k g) = (k = l)"

fun news :: "store_told \<Rightarrow> graph option" where
  "news (Told k g) = g"

definition last_told :: "nat \<Rightarrow> graph_store \<Rightarrow> graph option option" where
  "last_told l s = map_option news (find (told l) (rev (st_out s)))"

text \<open>There is a graph exactly when it is not stale; at most one load is under way, the one all callers wait for; every listener
  was last told the graph the store has.\<close>

definition store_ok :: "graph_store \<Rightarrow> bool" where
  "store_ok s \<longleftrightarrow> (st_graph s = None \<longleftrightarrow> st_stale s) \<and> (st_graph s = None \<longrightarrow> st_trackRuntime s = []) \<and>
     st_asked s @ st_answered s = (case st_loading s of None \<Rightarrow> [] | Some n \<Rightarrow> [n]) \<and>
     (\<forall>l\<in>set (st_listeners s). last_told l s = Some (st_graph s))"

lemma informed_all: "l \<in> set ls \<Longrightarrow> map_option news (find (told l) (rev (out @ map (\<lambda>k. Told k g) ls))) = Some g"
proof -
  assume "l \<in> set ls"
  then have "\<exists>e. find (told l) (rev (map (\<lambda>k. Told k g) ls)) = Some e" by (intro find_is_Some [of "Told l g"]) auto
  then obtain e where e: "find (told l) (rev (map (\<lambda>k. Told k g) ls)) = Some e" by blast
  then have "news e = g" using find_SomeD [OF e] by auto
  then show ?thesis using e by (simp add: find_append)
qed

lemma emit_ok:
  assumes "store_ok s" and "st_asked t = st_asked s" and "st_answered t = st_answered s" and "st_loading t = st_loading s"
    and "st_graph t = None \<longleftrightarrow> st_stale t" and "st_graph t = None \<Longrightarrow> st_trackRuntime t = []"
  shows "store_ok (store_emit t)"
  using assms informed_all by (simp add: store_ok_def store_emit_def last_told_def)

lemma ensure_ok: "store_ok s \<Longrightarrow> store_ok (snd (ensureLoaded s))"
  by (auto simp: ensureLoaded_def store_ok_def last_told_def Let_def split: option.split bool.split)

lemma ensureLoaded_cases:
  assumes "store_ok s"
  shows "case ensureLoaded s of
    (HasGraph g, s') \<Rightarrow> st_graph s = Some g \<and> s' = s
  | (AwaitLoad n, s') \<Rightarrow> st_graph s = None \<and> st_loading s' = Some n \<and> st_asked s' @ st_answered s' = [n] \<and>
      st_graph s' = None \<and> st_out s' = st_out s"
  using assms by (cases "st_graph s"; cases "st_loading s") (auto simp: ensureLoaded_def store_ok_def Let_def)

lemma step_ok:
  assumes "store_ok s" and "store_enabled ev s"
  shows "store_ok (store_step ev s)"
proof (cases ev)
  case (SetGraph g)
  have "store_ok (setGraph g s)" unfolding setGraph_def Let_def
    by (rule emit_ok [OF assms(1)]) auto
  then show ?thesis using SetGraph by (simp add: store_step_def)
next
  case (LoadAnswered n r)
  then have n: "st_asked s = [n]" "st_answered s = []" "st_loading s = Some n"
    using assms by (auto simp: store_enabled_def store_ok_def Cons_eq_append_conv append_eq_Cons_conv split: option.splits)
  let ?s1 = "s\<lparr>st_asked := [], st_answered := [n]\<rparr>"
  have "store_ok ?s1" using assms(1) n by (simp add: store_ok_def last_told_def)
  moreover have "store_ok (loadFromServer resp t)" if "store_ok t" for resp t
    unfolding loadFromServer_def by (cases resp) (simp_all, (rule emit_ok [OF that], simp_all)+)
  ultimately show ?thesis using LoadAnswered n
    by (cases r) (simp_all add: store_step_def load_answered_def set_delete_def)
next
  case (LoadFinished n)
  then have "st_asked s = []" "st_answered s = [n]" "st_loading s = Some n"
    using assms by (auto simp: store_enabled_def store_ok_def Cons_eq_append_conv append_eq_Cons_conv split: option.splits)
  then show ?thesis using LoadFinished assms(1)
    by (simp add: store_step_def load_finished_def set_delete_def store_ok_def last_told_def)
next
  case (Subscribe l)
  have "last_told k (store_subscribe l s) = (if k = l then Some (st_graph s) else last_told k s)" for k
    by (simp add: last_told_def store_subscribe_def)
  then show ?thesis using assms(1) Subscribe by (auto simp: store_step_def store_ok_def store_subscribe_def)
next
  case (Unsubscribe l)
  then show ?thesis using assms(1) by (auto simp: store_step_def store_unsubscribe_def store_ok_def last_told_def)
next
  case Reload
  have "store_ok (store_emit (s\<lparr>st_stale := True, st_graph := None, st_trackRuntime := []\<rparr>))"
    by (rule emit_ok [OF assms(1)]) simp_all
  then show ?thesis using Reload by (simp add: store_step_def store_reload_def ensure_ok)
qed (use assms in \<open>simp_all add: store_step_def store_clear_def store_invalidate_def ensure_ok emit_ok\<close>)

lemma store_reachable_ok: "store_reachable s \<Longrightarrow> store_ok s"
proof (induction rule: store_reachable.induct)
  case store_start
  show ?case by (simp add: store_ok_def new_store_def)
qed (rule step_ok)

text \<open>C24. Through any sequence of calls, answers of the server and failures in any order the store stays consistent: it has a graph
  exactly when it counts as loaded, without a graph it has no track data, at most one request is under way however many ask for
  the graph, and every listener was last told the graph the store has. Asking for the graph gives the graph it has and changes
  nothing, or else the promise of the one load that is under way.\<close>

theorem store_consistent:
  assumes "store_reachable s"
  shows "store_ok s \<and> (isLoaded s \<longleftrightarrow> getGraph s \<noteq> None) \<and>
    (case ensureLoaded s of
       (HasGraph g, s') \<Rightarrow> getGraph s = Some g \<and> s' = s
     | (AwaitLoad n, s') \<Rightarrow> getGraph s = None \<and> st_loading s' = Some n \<and> st_asked s' @ st_answered s' = [n])"
proof -
  have ok: "store_ok s" by (rule store_reachable_ok [OF assms])
  then show ?thesis using ensureLoaded_cases [OF ok]
    by (auto simp: store_ok_def isLoaded_def getGraph_def split: graph_answer.splits)
qed

definition sample_store :: graph_store where
  "sample_store = store_step (LoadAnswered 0 (Inr (Ready sample_dto))) (store_step EnsureLoaded (store_step EnsureLoaded (store_step (Subscribe 7) new_store)))"

theorem store_consistent_witness:
  "store_ok sample_store \<and> isLoaded sample_store \<and> last_told 7 sample_store = Some (getGraph sample_store) \<and> st_answered sample_store = [0]"
proof -
  have "store_reachable sample_store"
    unfolding sample_store_def by (intro store_next store_start; code_simp)
  moreover have "isLoaded sample_store" "st_answered sample_store = [0]" "st_listeners sample_store = [7]" by code_simp+
  ultimately show ?thesis using store_consistent [of sample_store] by (simp add: store_ok_def getGraph_def)
qed

end
