(* ===== verification/WsInvariant.thy ===== *)
theory WsInvariant
  imports WsClient
begin

text \<open>
  The invariant of the connection of theory \<open>WsClient\<close>, for every sequence of calls and browser events: its timers
  (\<open>timers_ok\<close>), its control state (\<open>control_ok\<close>), and that it can always be led back to a connection.
\<close>

subsection \<open>What the operations leave alone\<close>

lemma setStatus_fields [simp]:
  "w_sockets (setStatus st w) = w_sockets w" "w_timers (setStatus st w) = w_timers w" "w_nextTimer (setStatus st w) = w_nextTimer w"
  "w_now (setStatus st w) = w_now w" "w_socket (setStatus st w) = w_socket w" "w_status (setStatus st w) = st"
  "w_reconnectTimer (setStatus st w) = w_reconnectTimer w" "w_heartbeatTimer (setStatus st w) = w_heartbeatTimer w"
  "w_manuallyClosed (setStatus st w) = w_manuallyClosed w" "w_reconnectAttempts (setStatus st w) = w_reconnectAttempts w"
  "w_lastMessageAt (setStatus st w) = w_lastMessageAt w" "w_url (setStatus st w) = w_url w"
  by (simp_all add: setStatus_def emit_def)

lemma emit_fields [simp]:
  "w_sockets (emit es w) = w_sockets w" "w_timers (emit es w) = w_timers w" "w_nextTimer (emit es w) = w_nextTimer w"
  "w_now (emit es w) = w_now w" "w_socket (emit es w) = w_socket w" "w_status (emit es w) = w_status w"
  "w_reconnectTimer (emit es w) = w_reconnectTimer w" "w_heartbeatTimer (emit es w) = w_heartbeatTimer w"
  "w_manuallyClosed (emit es w) = w_manuallyClosed w" "w_reconnectAttempts (emit es w) = w_reconnectAttempts w"
  "w_lastMessageAt (emit es w) = w_lastMessageAt w" "w_url (emit es w) = w_url w"
  by (simp_all add: emit_def)

lemma update_socket_fields [simp]:
  "length (w_sockets (update_socket k f w)) = length (w_sockets w)"
  "w_timers (update_socket k f w) = w_timers w" "w_nextTimer (update_socket k f w) = w_nextTimer w"
  "w_now (update_socket k f w) = w_now w" "w_socket (update_socket k f w) = w_socket w" "w_status (update_socket k f w) = w_status w"
  "w_reconnectTimer (update_socket k f w) = w_reconnectTimer w" "w_heartbeatTimer (update_socket k f w) = w_heartbeatTimer w"
  "w_manuallyClosed (update_socket k f w) = w_manuallyClosed w" "w_reconnectAttempts (update_socket k f w) = w_reconnectAttempts w"
  "w_lastMessageAt (update_socket k f w) = w_lastMessageAt w" "w_url (update_socket k f w) = w_url w"
  by (simp_all add: update_socket_def)

lemma set_ready_fields [simp]:
  "length (w_sockets (set_ready r k w)) = length (w_sockets w)"
  "w_timers (set_ready r k w) = w_timers w" "w_nextTimer (set_ready r k w) = w_nextTimer w"
  "w_now (set_ready r k w) = w_now w" "w_socket (set_ready r k w) = w_socket w" "w_status (set_ready r k w) = w_status w"
  "w_reconnectTimer (set_ready r k w) = w_reconnectTimer w" "w_heartbeatTimer (set_ready r k w) = w_heartbeatTimer w"
  "w_manuallyClosed (set_ready r k w) = w_manuallyClosed w" "w_reconnectAttempts (set_ready r k w) = w_reconnectAttempts w"
  "w_lastMessageAt (set_ready r k w) = w_lastMessageAt w" "w_url (set_ready r k w) = w_url w"
  by (simp_all add: set_ready_def)

lemma detach_close_fields [simp]:
  "length (w_sockets (close_socket k (detach k w))) = length (w_sockets w)"
  "w_timers (close_socket k (detach k w)) = w_timers w" "w_nextTimer (close_socket k (detach k w)) = w_nextTimer w"
  "w_now (close_socket k (detach k w)) = w_now w" "w_socket (close_socket k (detach k w)) = w_socket w"
  "w_status (close_socket k (detach k w)) = w_status w" "w_reconnectTimer (close_socket k (detach k w)) = w_reconnectTimer w"
  "w_heartbeatTimer (close_socket k (detach k w)) = w_heartbeatTimer w" "w_manuallyClosed (close_socket k (detach k w)) = w_manuallyClosed w"
  "w_reconnectAttempts (close_socket k (detach k w)) = w_reconnectAttempts w"
  "w_lastMessageAt (close_socket k (detach k w)) = w_lastMessageAt w" "w_url (close_socket k (detach k w)) = w_url w"
  by (simp_all add: close_socket_def detach_def)

lemma clear_fields [simp]:
  "w_sockets (clearReconnectTimer w) = w_sockets w" "w_nextTimer (clearReconnectTimer w) = w_nextTimer w"
  "w_now (clearReconnectTimer w) = w_now w" "w_socket (clearReconnectTimer w) = w_socket w" "w_status (clearReconnectTimer w) = w_status w"
  "w_reconnectTimer (clearReconnectTimer w) = None" "w_heartbeatTimer (clearReconnectTimer w) = w_heartbeatTimer w"
  "w_manuallyClosed (clearReconnectTimer w) = w_manuallyClosed w" "w_reconnectAttempts (clearReconnectTimer w) = w_reconnectAttempts w"
  "w_lastMessageAt (clearReconnectTimer w) = w_lastMessageAt w" "w_url (clearReconnectTimer w) = w_url w"
  by (simp_all add: clearReconnectTimer_def remove_timer_def split: option.split)

lemma stop_fields [simp]:
  "w_sockets (stopHeartbeat w) = w_sockets w" "w_nextTimer (stopHeartbeat w) = w_nextTimer w"
  "w_now (stopHeartbeat w) = w_now w" "w_socket (stopHeartbeat w) = w_socket w" "w_status (stopHeartbeat w) = w_status w"
  "w_reconnectTimer (stopHeartbeat w) = w_reconnectTimer w" "w_heartbeatTimer (stopHeartbeat w) = None"
  "w_manuallyClosed (stopHeartbeat w) = w_manuallyClosed w" "w_reconnectAttempts (stopHeartbeat w) = w_reconnectAttempts w"
  "w_lastMessageAt (stopHeartbeat w) = w_lastMessageAt w" "w_url (stopHeartbeat w) = w_url w"
  by (simp_all add: stopHeartbeat_def remove_timer_def split: option.split)

lemma schedule_fields [simp]:
  "w_sockets (scheduleReconnect w) = w_sockets w" "w_now (scheduleReconnect w) = w_now w" "w_socket (scheduleReconnect w) = w_socket w"
  "w_status (scheduleReconnect w) = w_status w" "w_heartbeatTimer (scheduleReconnect w) = w_heartbeatTimer w"
  "w_manuallyClosed (scheduleReconnect w) = w_manuallyClosed w" "w_lastMessageAt (scheduleReconnect w) = w_lastMessageAt w"
  "w_url (scheduleReconnect w) = w_url w"
  by (simp_all add: scheduleReconnect_def add_timer_def Let_def)

lemma schedule_timer [simp]:
  "w_reconnectTimer (scheduleReconnect w) = None \<longleftrightarrow> w_manuallyClosed w \<and> w_reconnectTimer w = None"
  by (cases "w_reconnectTimer w") (simp_all add: scheduleReconnect_def add_timer_def Let_def)

subsection \<open>Timers\<close>

text \<open>A live timer is the one that the field of its kind names, and has the delay of its kind.\<close>

definition timer_ok :: "ws \<Rightarrow> ws_timer \<Rightarrow> bool" where
  "timer_ok w t \<longleftrightarrow> tm_id t < w_nextTimer w \<and>
     (tm_kind t = ReconnectTimer \<longrightarrow> w_reconnectTimer w = Some (tm_id t) \<and> 3000 \<le> tm_delay t \<and> tm_delay t \<le> 10000) \<and>
     (tm_kind t = HeartbeatTimer \<longrightarrow> w_heartbeatTimer w = Some (tm_id t) \<and> tm_delay t = HEARTBEAT_INTERVAL_MS)"

definition has_timer :: "timer_kind \<Rightarrow> nat option \<Rightarrow> ws \<Rightarrow> bool" where
  "has_timer kind field w \<longleftrightarrow> (\<forall>i. field = Some i \<longrightarrow> (\<exists>t\<in>set (w_timers w). tm_id t = i \<and> tm_kind t = kind))"

definition timers_ok :: "ws \<Rightarrow> bool" where
  "timers_ok w \<longleftrightarrow> 0 \<le> w_reconnectAttempts w \<and> distinct (map tm_id (w_timers w)) \<and> (\<forall>t\<in>set (w_timers w). timer_ok w t) \<and>
     has_timer ReconnectTimer (w_reconnectTimer w) w \<and> has_timer HeartbeatTimer (w_heartbeatTimer w) w"

lemma timers_ok_same:
  assumes "timers_ok w" and "w_timers w' = w_timers w" and "w_nextTimer w' = w_nextTimer w" and "w_reconnectTimer w' = w_reconnectTimer w"
    and "w_heartbeatTimer w' = w_heartbeatTimer w" and "0 \<le> w_reconnectAttempts w'"
  shows "timers_ok w'"
  using assms(1,6) by (simp add: timers_ok_def timer_ok_def has_timer_def assms(2-5))

lemma timers_ok_new: "timers_ok new_client"
  by (simp add: timers_ok_def has_timer_def new_client_def)

lemma timers_unique:
  assumes "timers_ok w" and "t \<in> set (w_timers w)" and "u \<in> set (w_timers w)" and "tm_id t = tm_id u"
  shows "t = u"
  using assms by (auto simp: timers_ok_def distinct_map inj_on_def)

text \<open>A timer is forgotten together with the field that names it.\<close>

lemma timers_ok_forget_reconnect:
  assumes ok: "timers_ok w" and field: "w_reconnectTimer w = Some i"
  shows "timers_ok ((remove_timer i w)\<lparr>w_reconnectTimer := None\<rparr>)" (is "timers_ok ?v")
proof -
  have left: "t \<in> set (w_timers ?v) \<longleftrightarrow> t \<in> set (w_timers w) \<and> tm_id t \<noteq> i" for t by (auto simp: remove_timer_def)
  have "\<forall>t\<in>set (w_timers ?v). timer_ok ?v t"
    using ok field by (auto simp: left timers_ok_def timer_ok_def remove_timer_def)
  moreover have "has_timer HeartbeatTimer (w_heartbeatTimer ?v) ?v"
    unfolding has_timer_def
  proof (intro allI impI)
    fix j assume "w_heartbeatTimer ?v = Some j"
    then have "w_heartbeatTimer w = Some j" by (simp add: remove_timer_def)
    then obtain t where t: "t \<in> set (w_timers w)" "tm_id t = j" "tm_kind t = HeartbeatTimer"
      using ok by (auto simp: timers_ok_def has_timer_def)
    obtain u where u: "u \<in> set (w_timers w)" "tm_id u = i" "tm_kind u = ReconnectTimer"
      using ok field by (auto simp: timers_ok_def has_timer_def)
    have "j \<noteq> i" using timers_unique [OF ok t(1) u(1)] t u by auto
    then show "\<exists>t\<in>set (w_timers ?v). tm_id t = j \<and> tm_kind t = HeartbeatTimer" using t left by auto
  qed
  ultimately show ?thesis using ok by (simp add: timers_ok_def has_timer_def remove_timer_def distinct_map_filter)
qed

lemma timers_ok_forget_heartbeat:
  assumes ok: "timers_ok w" and field: "w_heartbeatTimer w = Some i"
  shows "timers_ok ((remove_timer i w)\<lparr>w_heartbeatTimer := None\<rparr>)" (is "timers_ok ?v")
proof -
  have left: "t \<in> set (w_timers ?v) \<longleftrightarrow> t \<in> set (w_timers w) \<and> tm_id t \<noteq> i" for t by (auto simp: remove_timer_def)
  have "\<forall>t\<in>set (w_timers ?v). timer_ok ?v t"
    using ok field by (auto simp: left timers_ok_def timer_ok_def remove_timer_def)
  moreover have "has_timer ReconnectTimer (w_reconnectTimer ?v) ?v"
    unfolding has_timer_def
  proof (intro allI impI)
    fix j assume "w_reconnectTimer ?v = Some j"
    then have "w_reconnectTimer w = Some j" by (simp add: remove_timer_def)
    then obtain t where t: "t \<in> set (w_timers w)" "tm_id t = j" "tm_kind t = ReconnectTimer"
      using ok by (auto simp: timers_ok_def has_timer_def)
    obtain u where u: "u \<in> set (w_timers w)" "tm_id u = i" "tm_kind u = HeartbeatTimer"
      using ok field by (auto simp: timers_ok_def has_timer_def)
    have "j \<noteq> i" using timers_unique [OF ok t(1) u(1)] t u by auto
    then show "\<exists>t\<in>set (w_timers ?v). tm_id t = j \<and> tm_kind t = ReconnectTimer" using t left by auto
  qed
  ultimately show ?thesis using ok by (simp add: timers_ok_def has_timer_def remove_timer_def distinct_map_filter)
qed

lemma timers_ok_clear: "timers_ok w \<Longrightarrow> timers_ok (clearReconnectTimer w)"
  by (cases "w_reconnectTimer w") (simp_all add: clearReconnectTimer_def timers_ok_forget_reconnect)

lemma timers_ok_stop: "timers_ok w \<Longrightarrow> timers_ok (stopHeartbeat w)"
  by (cases "w_heartbeatTimer w") (simp_all add: stopHeartbeat_def timers_ok_forget_heartbeat)

lemma timers_ok_status: "timers_ok w \<Longrightarrow> timers_ok (setStatus st w)"
  by (rule timers_ok_same) (simp_all add: timers_ok_def)

text \<open>A timer that is started gets a fresh identifier.\<close>

lemma timers_fresh: "timers_ok w \<Longrightarrow> t \<in> set (w_timers w) \<Longrightarrow> tm_id t < w_nextTimer w"
  by (auto simp: timers_ok_def timer_ok_def)

lemma timers_kind_field:
  "timers_ok w \<Longrightarrow> w_reconnectTimer w = None \<Longrightarrow> t \<in> set (w_timers w) \<Longrightarrow> tm_kind t \<noteq> ReconnectTimer"
  "timers_ok w \<Longrightarrow> w_heartbeatTimer w = None \<Longrightarrow> t \<in> set (w_timers w) \<Longrightarrow> tm_kind t \<noteq> HeartbeatTimer"
  by (auto simp: timers_ok_def timer_ok_def)

lemma has_timer_mono: "has_timer kind f w \<Longrightarrow> set (w_timers w) \<subseteq> set (w_timers v) \<Longrightarrow> has_timer kind f v"
  unfolding has_timer_def by blast

lemma timers_ok_schedule:
  assumes ok: "timers_ok w"
  shows "timers_ok (scheduleReconnect w)"
proof (cases "w_manuallyClosed w \<or> w_reconnectTimer w \<noteq> None")
  case True
  then show ?thesis using ok by (simp add: scheduleReconnect_def)
next
  case False
  then have idle: "w_reconnectTimer w = None" by simp
  let ?v = "scheduleReconnect w"
  let ?t = "\<lparr>tm_id = w_nextTimer w, tm_kind = ReconnectTimer, tm_delay = min (3000 * (w_reconnectAttempts w + 1)) 10000\<rparr>"
  have v: "w_timers ?v = w_timers w @ [?t]" "w_nextTimer ?v = w_nextTimer w + 1" "w_reconnectTimer ?v = Some (w_nextTimer w)"
      "w_reconnectAttempts ?v = w_reconnectAttempts w + 1"
    using False by (simp_all add: scheduleReconnect_def add_timer_def Let_def)
  have attempts: "0 \<le> w_reconnectAttempts w" using ok by (simp add: timers_ok_def)
  have old: "timer_ok ?v t" if "t \<in> set (w_timers w)" for t
    using timers_kind_field(1) [OF ok idle that] ok that by (auto simp: timers_ok_def timer_ok_def v)
  have new: "timer_ok ?v ?t" using attempts by (simp add: timer_ok_def v)
  have hb: "has_timer HeartbeatTimer (w_heartbeatTimer ?v) ?v"
    using ok by (auto simp: timers_ok_def v intro: has_timer_mono)
  have "distinct (map tm_id (w_timers ?v))" using ok timers_fresh [OF ok] by (fastforce simp: timers_ok_def v)
  moreover have "has_timer ReconnectTimer (w_reconnectTimer ?v) ?v" by (simp add: has_timer_def v)
  ultimately show ?thesis using attempts old new hb by (simp add: timers_ok_def v)
qed

lemma timers_ok_heartbeat:
  assumes ok: "timers_ok w" and idle: "w_heartbeatTimer w = None"
  shows "timers_ok ((add_timer HeartbeatTimer HEARTBEAT_INTERVAL_MS w)\<lparr>w_heartbeatTimer := Some (w_nextTimer w)\<rparr>)" (is "timers_ok ?v")
proof -
  let ?t = "\<lparr>tm_id = w_nextTimer w, tm_kind = HeartbeatTimer, tm_delay = HEARTBEAT_INTERVAL_MS\<rparr>"
  have v: "w_timers ?v = w_timers w @ [?t]" "w_nextTimer ?v = w_nextTimer w + 1" "w_heartbeatTimer ?v = Some (w_nextTimer w)"
      "w_reconnectAttempts ?v = w_reconnectAttempts w" "w_reconnectTimer ?v = w_reconnectTimer w"
    by (simp_all add: add_timer_def)
  have old: "timer_ok ?v t" if "t \<in> set (w_timers w)" for t
    using timers_kind_field(2) [OF ok idle that] ok that by (auto simp: timers_ok_def timer_ok_def v)
  have rt: "has_timer ReconnectTimer (w_reconnectTimer ?v) ?v"
    using ok by (auto simp: timers_ok_def v intro: has_timer_mono)
  have "distinct (map tm_id (w_timers ?v))" using ok timers_fresh [OF ok] by (fastforce simp: timers_ok_def v)
  moreover have "timer_ok ?v ?t" by (simp add: timer_ok_def v)
  moreover have "has_timer HeartbeatTimer (w_heartbeatTimer ?v) ?v" by (simp add: has_timer_def add_timer_def)
  ultimately show ?thesis using ok old rt by (simp add: timers_ok_def v)
qed

subsection \<open>Control\<close>

text \<open>
  A socket field names an attached socket that is not closed, and one that is open only while the status says so;
  \<open>connected\<close> has a socket and a heartbeat; after \<open>disconnect\<close> nothing is left; a reconnection is pending only
  without a socket; without both, there is no address that a socket could be opened for.
\<close>

definition control_ok :: "(string \<Rightarrow> bool) \<Rightarrow> ws \<Rightarrow> bool" where
  "control_ok valid w \<longleftrightarrow>
     (\<forall>k. w_socket w = Some k \<longrightarrow> attached k w \<and> ready_of k w \<noteq> ReadyClosed \<and> (ready_of k w = ReadyOpen \<longrightarrow> w_status w = Connected)) \<and>
     (w_status w = Connected \<longrightarrow> w_socket w \<noteq> None \<and> w_heartbeatTimer w \<noteq> None) \<and>
     (w_manuallyClosed w \<longrightarrow>
        w_status w = Disconnected \<and> w_socket w = None \<and> w_reconnectTimer w = None \<and> w_heartbeatTimer w = None) \<and>
     (w_reconnectTimer w \<noteq> None \<longrightarrow> w_socket w = None \<and> w_status w = Reconnecting) \<and>
     (\<not> w_manuallyClosed w \<and> w_socket w = None \<and> w_reconnectTimer w = None \<longrightarrow> w_url w = [] \<or> \<not> valid (w_url w))"

definition ws_ok :: "(string \<Rightarrow> bool) \<Rightarrow> ws \<Rightarrow> bool" where
  "ws_ok valid w \<longleftrightarrow> timers_ok w \<and> control_ok valid w"

lemma socket_fields [simp]:
  "ready_of k (set_ready r j w) = (if k = j \<and> j < length (w_sockets w) then r else ready_of k w)"
  "ready_of k (detach j w) = ready_of k w" "attached k (set_ready r j w) = attached k w"
  "attached k (detach j w) = (attached k w \<and> k \<noteq> j)"
  by (auto simp: ready_of_def set_ready_def detach_def update_socket_def attached_def nth_list_update)

lemma attached_in_range: "attached k w \<Longrightarrow> k < length (w_sockets w)"
  by (simp add: attached_def)

lemma sockets_same:
  "w_sockets w' = w_sockets w \<Longrightarrow> ready_of k w' = ready_of k w"
  "w_sockets w' = w_sockets w \<Longrightarrow> attached k w' = attached k w"
  by (simp_all add: ready_of_def attached_def)

lemma control_ok_same:
  assumes "control_ok valid w" and "w_sockets w' = w_sockets w" and "w_socket w' = w_socket w" and "w_status w' = w_status w"
    and "w_reconnectTimer w' = w_reconnectTimer w" and "w_heartbeatTimer w' = w_heartbeatTimer w"
    and "w_manuallyClosed w' = w_manuallyClosed w" and "w_url w' = w_url w"
  shows "control_ok valid w'"
  using assms(1) by (simp add: control_ok_def sockets_same [OF assms(2)] assms(3-))

lemma ws_ok_same:
  assumes "ws_ok valid w" and "w_sockets w' = w_sockets w" and "w_socket w' = w_socket w" and "w_status w' = w_status w"
    and "w_reconnectTimer w' = w_reconnectTimer w" and "w_heartbeatTimer w' = w_heartbeatTimer w"
    and "w_manuallyClosed w' = w_manuallyClosed w" and "w_url w' = w_url w"
    and "w_timers w' = w_timers w" and "w_nextTimer w' = w_nextTimer w" and "0 \<le> w_reconnectAttempts w'"
  shows "ws_ok valid w'"
  using assms control_ok_same [of valid w w'] timers_ok_same [of w w'] by (simp add: ws_ok_def)

lemma ws_ok_attempts: "ws_ok valid w \<Longrightarrow> 0 \<le> w_reconnectAttempts w"
  by (simp add: ws_ok_def timers_ok_def)

lemma ws_ok_new: "ws_ok valid new_client"
  using timers_ok_new by (simp add: ws_ok_def control_ok_def new_client_def)

subsection \<open>Loss of the connection, closing, restarting\<close>

lemma handleConnectionLost_ok:
  assumes "timers_ok w" and "\<not> w_manuallyClosed w" and "w_socket w = Some k" and "w_reconnectTimer w = None"
  shows "ws_ok valid (handleConnectionLost k w)"
proof -
  let ?w1 = "close_socket k (detach k ((stopHeartbeat w)\<lparr>w_socket := None\<rparr>))"
  have "timers_ok ?w1"
    by (rule timers_ok_same [OF timers_ok_stop [OF assms(1)]]) (use assms(1) in \<open>simp_all add: timers_ok_def\<close>)
  then have timers: "timers_ok (scheduleReconnect (setStatus Reconnecting ?w1))" by (intro timers_ok_schedule timers_ok_status)
  show ?thesis using assms timers by (simp add: handleConnectionLost_def Let_def ws_ok_def control_ok_def)
qed

lemma lost_ok:
  assumes "ws_ok valid w" and "w_socket w = Some k"
  shows "ws_ok valid (handleConnectionLost k w)"
  using assms by (intro handleConnectionLost_ok) (auto simp: ws_ok_def control_ok_def)

lemma lost_fields:
  assumes "w_socket w = Some k" and "\<not> w_manuallyClosed w"
  shows "w_socket (handleConnectionLost k w) = None" "w_status (handleConnectionLost k w) = Reconnecting"
    "w_reconnectTimer (handleConnectionLost k w) \<noteq> None" "w_url (handleConnectionLost k w) = w_url w"
    "w_manuallyClosed (handleConnectionLost k w) = w_manuallyClosed w" "w_heartbeatTimer (handleConnectionLost k w) = None"
  using assms by (simp_all add: handleConnectionLost_def Let_def)

lemma drop_socket_fields [simp]:
  "w_timers (drop_socket w) = w_timers w" "w_nextTimer (drop_socket w) = w_nextTimer w"
  "w_socket (drop_socket w) = None" "w_status (drop_socket w) = w_status w" "w_reconnectTimer (drop_socket w) = w_reconnectTimer w"
  "w_heartbeatTimer (drop_socket w) = w_heartbeatTimer w" "w_manuallyClosed (drop_socket w) = w_manuallyClosed w"
  "w_reconnectAttempts (drop_socket w) = w_reconnectAttempts w" "w_url (drop_socket w) = w_url w"
  by (auto simp: drop_socket_def split: option.split)

lemma timers_ok_quiet:
  assumes "timers_ok w"
  shows "timers_ok (drop_socket (stopHeartbeat (clearReconnectTimer (w\<lparr>w_manuallyClosed := b\<rparr>))))"
proof -
  have "timers_ok (w\<lparr>w_manuallyClosed := b\<rparr>)" by (rule timers_ok_same [OF assms]) (use assms in \<open>simp_all add: timers_ok_def\<close>)
  then have "timers_ok (stopHeartbeat (clearReconnectTimer (w\<lparr>w_manuallyClosed := b\<rparr>)))" by (intro timers_ok_stop timers_ok_clear)
  from this show ?thesis by (rule timers_ok_same) (use assms in \<open>simp_all add: timers_ok_def\<close>)
qed

lemma disconnect_ok: "timers_ok w \<Longrightarrow> ws_ok valid (disconnect w)"
  by (simp add: ws_ok_def disconnect_def timers_ok_status timers_ok_quiet control_ok_def)

lemma restart_ok:
  assumes "timers_ok w"
  shows "ws_ok valid (restartConnection w)"
proof -
  let ?w1 = "setStatus Reconnecting (drop_socket (stopHeartbeat (clearReconnectTimer (w\<lparr>w_manuallyClosed := False\<rparr>))))"
  have "timers_ok ?w1" using assms by (intro timers_ok_status timers_ok_quiet)
  then have "timers_ok (?w1\<lparr>w_reconnectAttempts := 0\<rparr>)" by (rule timers_ok_same) simp_all
  then have "timers_ok (scheduleReconnect (?w1\<lparr>w_reconnectAttempts := 0\<rparr>))" by (rule timers_ok_schedule)
  then show ?thesis by (simp add: ws_ok_def restartConnection_def control_ok_def)
qed

subsection \<open>Connecting\<close>

definition set_url :: "string option \<Rightarrow> ws \<Rightarrow> ws" where
  "set_url url w = (case url of Some u \<Rightarrow> if u \<noteq> [] then w\<lparr>w_url := u\<rparr> else w | None \<Rightarrow> w)"

definition try_socket :: "(string \<Rightarrow> bool) \<Rightarrow> ws \<Rightarrow> ws" where
  "try_socket valid w =
     (let w2 = (stopHeartbeat (clearReconnectTimer w))\<lparr>w_manuallyClosed := False\<rparr>;
          w3 = setStatus (if w_reconnectAttempts w2 > 0 then Reconnecting else Connecting) w2
      in if \<not> valid (w_url w3) then w3
         else w3\<lparr>w_sockets := w_sockets w3 @ [\<lparr>so_url = w_url w3, so_ready = ReadyConnecting, so_attached = True\<rparr>],
                 w_socket := Some (length (w_sockets w3))\<rparr>)"

definition socket_busy :: "ws \<Rightarrow> bool" where
  "socket_busy w = (case w_socket w of Some k \<Rightarrow> ready_of k w = ReadyOpen \<or> ready_of k w = ReadyConnecting | None \<Rightarrow> False)"

lemma connect_split:
  "connect valid url w =
     (let w1 = set_url url w in if w_url w1 = [] \<or> socket_busy w1 then w1 else try_socket valid w1)"
  by (simp add: connect_def set_url_def try_socket_def socket_busy_def Let_def)

lemma set_url_fields [simp]:
  "w_sockets (set_url url w) = w_sockets w" "w_timers (set_url url w) = w_timers w" "w_nextTimer (set_url url w) = w_nextTimer w"
  "w_socket (set_url url w) = w_socket w" "w_status (set_url url w) = w_status w" "w_reconnectTimer (set_url url w) = w_reconnectTimer w"
  "w_heartbeatTimer (set_url url w) = w_heartbeatTimer w" "w_manuallyClosed (set_url url w) = w_manuallyClosed w"
  "w_reconnectAttempts (set_url url w) = w_reconnectAttempts w"
  by (simp_all add: set_url_def split: option.split)

lemma set_url_empty: "w_url (set_url url w) = [] \<Longrightarrow> set_url url w = w \<and> w_url w = []"
proof (cases url)
  case (Some u)
  then show "w_url (set_url url w) = [] \<Longrightarrow> set_url url w = w \<and> w_url w = []" by (cases "u = []") (simp_all add: set_url_def)
qed (simp add: set_url_def)

lemma setStatus_sockets [simp]: "ready_of k (setStatus st w) = ready_of k w" "attached k (setStatus st w) = attached k w"
  by (simp_all add: ready_of_def attached_def)

lemma quiet_sockets [simp]:
  "ready_of k ((stopHeartbeat (clearReconnectTimer w))\<lparr>w_manuallyClosed := b\<rparr>) = ready_of k w"
  "attached k ((stopHeartbeat (clearReconnectTimer w))\<lparr>w_manuallyClosed := b\<rparr>) = attached k w"
  by (simp_all add: ready_of_def attached_def)

lemma try_socket_ok:
  assumes timers: "timers_ok w" and old: "\<And>k. w_socket w = Some k \<Longrightarrow> attached k w \<and> ready_of k w = ReadyClosing"
  shows "ws_ok valid (try_socket valid w)"
proof -
  let ?w2 = "(stopHeartbeat (clearReconnectTimer w))\<lparr>w_manuallyClosed := False\<rparr>"
  obtain st where st: "st = (if w_reconnectAttempts ?w2 > 0 then Reconnecting else Connecting)" by simp
  let ?w3 = "setStatus st ?w2"
  let ?w4 = "?w3\<lparr>w_sockets := w_sockets ?w3 @ [\<lparr>so_url = w_url ?w3, so_ready = ReadyConnecting, so_attached = True\<rparr>],
                 w_socket := Some (length (w_sockets ?w3))\<rparr>"
  have st': "st \<noteq> Connected" using st by simp
  have "timers_ok (stopHeartbeat (clearReconnectTimer w))" by (intro timers_ok_stop timers_ok_clear timers)
  then have "timers_ok ?w2" by (rule timers_ok_same) (use timers in \<open>simp_all add: timers_ok_def\<close>)
  then have t3: "timers_ok ?w3" by (rule timers_ok_status)
  then have t4: "timers_ok ?w4" by (rule timers_ok_same) (use timers in \<open>simp_all add: timers_ok_def\<close>)
  have c3: "control_ok valid ?w3" if "\<not> valid (w_url w)" using that old st' by (simp add: control_ok_def)
  have "ready_of (length (w_sockets w)) ?w4 = ReadyConnecting" and "attached (length (w_sockets w)) ?w4"
    by (simp_all add: ready_of_def attached_def)
  then have c4: "control_ok valid ?w4" using st' by (simp add: control_ok_def)
  have "try_socket valid w = (if \<not> valid (w_url w) then ?w3 else ?w4)" by (simp add: try_socket_def Let_def st)
  then show ?thesis using t3 t4 c3 c4 by (simp add: ws_ok_def)
qed

lemma set_url_sockets [simp]: "ready_of k (set_url url w) = ready_of k w" "attached k (set_url url w) = attached k w"
  by (simp_all add: ready_of_def attached_def)

lemma set_url_timers: "timers_ok w \<Longrightarrow> timers_ok (set_url url w)"
  by (rule timers_ok_same [of w]) (simp_all add: timers_ok_def)

lemma set_url_ok:
  assumes "ws_ok valid w" and "w_url (set_url url w) = [] \<or> w_socket w \<noteq> None"
  shows "ws_ok valid (set_url url w)"
proof (cases "w_url (set_url url w) = []")
  case True
  then show ?thesis using assms(1) set_url_empty [OF True] by simp
next
  case False
  then show ?thesis using assms set_url_timers by (auto simp: ws_ok_def control_ok_def)
qed

lemma connect_ok:
  assumes ok: "ws_ok valid w"
  shows "ws_ok valid (connect valid url w)"
proof -
  let ?w1 = "set_url url w"
  consider "w_url ?w1 = []" | "w_url ?w1 \<noteq> []" "socket_busy ?w1" | "w_url ?w1 \<noteq> []" "\<not> socket_busy ?w1" by blast
  then show ?thesis
  proof cases
    case 1
    then show ?thesis using set_url_ok [OF ok] by (simp add: connect_split Let_def)
  next
    case 2
    then have "w_socket w \<noteq> None" by (cases "w_socket w") (simp_all add: socket_busy_def)
    then show ?thesis using 2 set_url_ok [OF ok] by (simp add: connect_split Let_def)
  next
    case 3
    have "ws_ok valid (try_socket valid ?w1)"
    proof (rule try_socket_ok)
      show "timers_ok ?w1" using ok by (simp add: ws_ok_def set_url_timers)
      fix k assume k: "w_socket ?w1 = Some k"
      have "ready_of k w \<noteq> ReadyClosed" "attached k w" using k ok by (auto simp: ws_ok_def control_ok_def)
      moreover have "ready_of k w \<noteq> ReadyOpen" "ready_of k w \<noteq> ReadyConnecting" using k 3(2) by (simp_all add: socket_busy_def)
      ultimately have "ready_of k w = ReadyClosing" by (cases "ready_of k w") simp_all
      then show "attached k ?w1 \<and> ready_of k ?w1 = ReadyClosing" using \<open>attached k w\<close> by simp
    qed
    then show ?thesis using 3 by (simp add: connect_split Let_def)
  qed
qed

lemma reconnect_due_ok:
  assumes ok: "ws_ok valid w" and timer: "w_reconnectTimer w = Some i"
  shows "ws_ok valid (reconnect_due valid (remove_timer i w))"
proof -
  let ?w1 = "(remove_timer i w)\<lparr>w_reconnectTimer := None\<rparr>"
  have timers: "timers_ok ?w1" using ok timer by (simp add: ws_ok_def timers_ok_forget_reconnect)
  have w: "w_socket w = None" "w_status w = Reconnecting" "\<not> w_manuallyClosed w" using ok timer by (auto simp: ws_ok_def control_ok_def)
  have empty: "ws_ok valid ?w1" if "w_url w = []" using timers w that by (simp add: ws_ok_def control_ok_def remove_timer_def)
  have full: "ws_ok valid (try_socket valid ?w1)" by (rule try_socket_ok [OF timers]) (use w in \<open>simp add: remove_timer_def\<close>)
  have url: "set_url None ?w1 = ?w1" "w_url ?w1 = w_url w" "\<not> socket_busy ?w1" "\<not> w_manuallyClosed ?w1"
    using w by (simp_all add: set_url_def remove_timer_def socket_busy_def)
  have "reconnect_due valid (remove_timer i w) = connect valid None ?w1"
    using url(4) unfolding reconnect_due_def Let_def by simp
  also have "\<dots> = (if w_url w = [] then ?w1 else try_socket valid ?w1)"
    using url(1-3) unfolding connect_split Let_def by simp
  finally show ?thesis using empty full by simp
qed

subsection \<open>Events of the open socket\<close>

lemma heartbeat_ok:
  assumes "ws_ok valid w" shows "ws_ok valid (sendHeartbeat b w)"
proof -
  have "ws_ok valid (emit es w)" for es by (rule ws_ok_same [OF assms]) (use assms in \<open>simp_all add: ws_ok_attempts\<close>)
  then show ?thesis
    using assms lost_ok [OF assms] by (auto simp: sendHeartbeat_def socket_open_def split: option.splits if_splits)
qed

lemma install_heartbeat_ok:
  assumes timers: "timers_ok w" and idle: "w_heartbeatTimer w = None"
    and control: "control_ok valid (w\<lparr>w_heartbeatTimer := Some (w_nextTimer w)\<rparr>)"
  shows "ws_ok valid ((add_timer HeartbeatTimer HEARTBEAT_INTERVAL_MS w)\<lparr>w_heartbeatTimer := Some (w_nextTimer w)\<rparr>)"
proof -
  have "control_ok valid ((add_timer HeartbeatTimer HEARTBEAT_INTERVAL_MS w)\<lparr>w_heartbeatTimer := Some (w_nextTimer w)\<rparr>)"
    using control by (rule control_ok_same) (simp_all add: add_timer_def)
  then show ?thesis using timers_ok_heartbeat [OF timers idle] by (simp add: ws_ok_def)
qed

lemma startHeartbeat_ok:
  assumes timers: "timers_ok w" and socket: "w_socket w = Some k" "attached k w" "ready_of k w = ReadyOpen"
    and rest: "\<not> w_manuallyClosed w" "w_reconnectTimer w = None" "w_status w = Connected"
  shows "ws_ok valid (startHeartbeat b w)"
proof -
  let ?w0 = "stopHeartbeat w"
  have t0: "timers_ok ?w0" using timers by (rule timers_ok_stop)
  have s0: "attached k ?w0" "ready_of k ?w0 = ReadyOpen" using socket by (simp_all add: attached_def ready_of_def)
  then have open_socket: "socket_open ?w0 = Some k" using socket by (simp add: socket_open_def)
  show ?thesis
  proof (cases b)
    case True
    let ?w1 = "emit [SentText k (json_stringify heartbeat_message)] ?w0"
    have w1: "sendHeartbeat b ?w0 = ?w1" using True open_socket by (simp add: sendHeartbeat_def)
    have "timers_ok ?w1" using t0 by (rule timers_ok_same) (use timers in \<open>simp_all add: timers_ok_def\<close>)
    moreover have "control_ok valid (?w1\<lparr>w_heartbeatTimer := Some (w_nextTimer ?w1)\<rparr>)"
      using s0 socket rest by (auto simp: control_ok_def attached_def ready_of_def)
    ultimately show ?thesis unfolding startHeartbeat_def Let_def w1 by (intro install_heartbeat_ok) simp_all
  next
    case False
    let ?w1 = "handleConnectionLost k ?w0"
    have w1: "sendHeartbeat b ?w0 = ?w1" using False open_socket by (simp add: sendHeartbeat_def)
    have ok1: "ws_ok valid ?w1" using t0 rest socket by (intro handleConnectionLost_ok) simp_all
    have f: "w_heartbeatTimer ?w1 = None" "w_socket ?w1 = None" "w_status ?w1 = Reconnecting" "\<not> w_manuallyClosed ?w1"
        "w_reconnectTimer ?w1 \<noteq> None"
      using lost_fields [of ?w0 k] socket rest by simp_all
    have "control_ok valid (?w1\<lparr>w_heartbeatTimer := Some (w_nextTimer ?w1)\<rparr>)" using f by (auto simp: control_ok_def)
    then show ?thesis using ok1 f unfolding startHeartbeat_def Let_def w1 by (intro install_heartbeat_ok) (simp_all add: ws_ok_def)
  qed
qed

lemma set_ready_other: "ws_ok valid w \<Longrightarrow> w_socket w \<noteq> Some k \<Longrightarrow> ws_ok valid (set_ready r k w)"
  using timers_ok_same [of w "set_ready r k w"] by (auto simp: ws_ok_def control_ok_def timers_ok_def)

lemma socket_opens_ok:
  assumes ok: "ws_ok valid w" and current: "w_socket w = Some k" and enabled: "ready_of k w = ReadyConnecting"
  shows "ws_ok valid (on_open k b (set_ready ReadyOpen k w))"
proof -
  let ?w1 = "set_ready ReadyOpen k w"
  let ?w2 = "setStatus Connected (?w1\<lparr>w_reconnectAttempts := 0, w_lastMessageAt := w_now ?w1\<rparr>)"
  have k: "attached k w" "\<not> w_manuallyClosed w" "w_reconnectTimer w = None" using ok current by (auto simp: ws_ok_def control_ok_def)
  have "timers_ok w" using ok by (simp add: ws_ok_def)
  then have "timers_ok (?w1\<lparr>w_reconnectAttempts := 0, w_lastMessageAt := w_now ?w1\<rparr>)" by (rule timers_ok_same) simp_all
  then have t2: "timers_ok ?w2" by (rule timers_ok_status)
  have "attached k ?w1" "ready_of k ?w1 = ReadyOpen" using k attached_in_range by simp_all
  then have "attached k ?w2" "ready_of k ?w2 = ReadyOpen" by (simp_all add: attached_def ready_of_def)
  with t2 current k have "ws_ok valid (startHeartbeat b ?w2)" by (intro startHeartbeat_ok [where k = k]) simp_all
  then show ?thesis using current by (simp add: on_open_def)
qed

lemma socket_lost_ok:
  assumes "ws_ok valid w" and "w_socket w = Some k"
  shows "ws_ok valid (handleConnectionLost k (set_ready r k w))"
proof (rule handleConnectionLost_ok)
  show "timers_ok (set_ready r k w)"
    by (rule timers_ok_same [of w]) (use assms in \<open>simp_all add: ws_ok_def timers_ok_def\<close>)
qed (use assms in \<open>auto simp: ws_ok_def control_ok_def\<close>)

lemma close_event_other: "w_socket w \<noteq> Some k \<Longrightarrow> close_event k w = w"
  by (simp add: close_event_def on_close_def)

lemma lost_socket_gone: "w_socket (handleConnectionLost k w) \<noteq> Some k"
  by (simp add: handleConnectionLost_def Let_def)

lemma socket_closes_ok:
  assumes ok: "ws_ok valid w"
  shows "ws_ok valid (close_event k (set_ready ReadyClosed k w))"
proof (cases "w_socket w = Some k")
  case True
  then show ?thesis using ok socket_lost_ok [OF ok True] by (simp add: close_event_def on_close_def ws_ok_def control_ok_def)
qed (use ok in \<open>simp add: close_event_other set_ready_other\<close>)

lemma socket_fails_ok:
  assumes ok: "ws_ok valid w"
  shows "ws_ok valid (let w1 = set_ready ReadyClosed k w in close_event k (if attached k w1 then on_error k w1 else w1))"
proof (cases "w_socket w = Some k")
  case True
  then have "attached k w" using ok by (simp add: ws_ok_def control_ok_def)
  then show ?thesis
    using True socket_lost_ok [OF ok True] by (simp add: Let_def on_error_def close_event_other lost_socket_gone)
qed (use ok in \<open>simp add: Let_def on_error_def close_event_other set_ready_other\<close>)

lemma socket_closing_ok:
  assumes ok: "ws_ok valid w"
  shows "ws_ok valid (set_ready ReadyClosing k w)"
proof (cases "w_socket w = Some k")
  case True
  have "timers_ok (set_ready ReadyClosing k w)"
    by (rule timers_ok_same [of w]) (use ok in \<open>simp_all add: ws_ok_def timers_ok_def\<close>)
  then show ?thesis using True ok attached_in_range [of k w] by (auto simp: ws_ok_def control_ok_def)
qed (use ok in \<open>simp add: set_ready_other\<close>)

lemma deliver_fields [simp]:
  "w_sockets (deliver m w) = w_sockets w" "w_timers (deliver m w) = w_timers w" "w_nextTimer (deliver m w) = w_nextTimer w"
  "w_socket (deliver m w) = w_socket w" "w_status (deliver m w) = w_status w" "w_reconnectTimer (deliver m w) = w_reconnectTimer w"
  "w_heartbeatTimer (deliver m w) = w_heartbeatTimer w" "w_manuallyClosed (deliver m w) = w_manuallyClosed w"
  "w_reconnectAttempts (deliver m w) = w_reconnectAttempts w" "w_url (deliver m w) = w_url w"
  by (simp_all add: deliver_def)

lemma on_message_ok:
  assumes "ws_ok valid w"
  shows "ws_ok valid (on_message k text w)"
  by (rule ws_ok_same [OF assms])
    (use ws_ok_attempts [OF assms] in \<open>simp_all add: on_message_def Let_def split: sum.split\<close>)

lemma socket_open_socket: "socket_open w = Some k \<Longrightarrow> w_socket w = Some k \<and> ready_of k w = ReadyOpen"
  by (simp add: socket_open_def split: option.splits if_splits)

lemma heartbeat_tick_ok: "ws_ok valid w \<Longrightarrow> ws_ok valid (heartbeat_tick b w)"
  using heartbeat_ok lost_ok by (auto simp: heartbeat_tick_def dest: socket_open_socket split: option.split)

lemma ws_send_ok:
  assumes ok: "ws_ok valid w"
  shows "ws_ok valid (fst (ws_send message b w))"
proof (cases "socket_open w")
  case None
  have "w_status w = Connected \<Longrightarrow> w_socket w \<noteq> None" using ok by (simp add: ws_ok_def control_ok_def)
  then show ?thesis using None ok lost_ok [OF ok] by (auto simp: ws_send_def split: option.split)
next
  case (Some k)
  have "ws_ok valid (emit es w)" for es by (rule ws_ok_same [OF ok]) (use ok in \<open>simp_all add: ws_ok_attempts\<close>)
  then show ?thesis using Some lost_ok [OF ok] socket_open_socket [OF Some] by (simp add: ws_send_def)
qed

lemmas subscription_defs =
  subscribeStatus_def unsubscribeStatus_def subscribeMessages_def unsubscribeMessages_def subscribeOutgoingMessages_def
  unsubscribeOutgoingMessages_def on_type_def off_type_def Let_def

lemma subscriptions_ok:
  assumes ok: "ws_ok valid w"
  shows "ws_ok valid (subscribeStatus l w)" and "ws_ok valid (unsubscribeStatus l w)" and "ws_ok valid (subscribeMessages l w)"
    and "ws_ok valid (unsubscribeMessages l w)" and "ws_ok valid (subscribeOutgoingMessages l w)"
    and "ws_ok valid (unsubscribeOutgoingMessages l w)" and "ws_ok valid (on_type t l w)" and "ws_ok valid (off_type t l w)"
    and "ws_ok valid (w\<lparr>w_now := n\<rparr>)"
proof -
  note attempts = ws_ok_attempts [OF ok]
  show "ws_ok valid (subscribeStatus l w)" by (rule ws_ok_same [OF ok]) (simp_all add: subscription_defs attempts)
  show "ws_ok valid (unsubscribeStatus l w)" by (rule ws_ok_same [OF ok]) (simp_all add: subscription_defs attempts)
  show "ws_ok valid (subscribeMessages l w)" by (rule ws_ok_same [OF ok]) (simp_all add: subscription_defs attempts)
  show "ws_ok valid (unsubscribeMessages l w)" by (rule ws_ok_same [OF ok]) (simp_all add: subscription_defs attempts)
  show "ws_ok valid (subscribeOutgoingMessages l w)" by (rule ws_ok_same [OF ok]) (simp_all add: subscription_defs attempts)
  show "ws_ok valid (unsubscribeOutgoingMessages l w)" by (rule ws_ok_same [OF ok]) (simp_all add: subscription_defs attempts)
  show "ws_ok valid (on_type t l w)" by (rule ws_ok_same [OF ok]) (simp_all add: subscription_defs attempts)
  show "ws_ok valid (off_type t l w)"
    by (rule ws_ok_same [OF ok]) (simp_all add: subscription_defs attempts split: option.split)
  show "ws_ok valid (w\<lparr>w_now := n\<rparr>)" by (rule ws_ok_same [OF ok]) (simp_all add: attempts)
qed

lemma timer_of_found: "timer_of i w = Some t \<Longrightarrow> t \<in> set (w_timers w) \<and> tm_id t = i"
  unfolding timer_of_def find_Some_iff by auto

lemma timer_fires_ok:
  assumes ok: "ws_ok valid w" and timer: "timer_of i w = Some t"
  shows "ws_ok valid (ws_step valid (TimerFires i b) w)"
proof (cases "tm_kind t")
  case ReconnectTimer
  then have "w_reconnectTimer w = Some i"
    using ok timer_of_found [OF timer] by (auto simp: ws_ok_def timers_ok_def timer_ok_def)
  then show ?thesis using reconnect_due_ok [OF ok] timer ReconnectTimer by (simp add: ws_step_def)
next
  case HeartbeatTimer
  then show ?thesis using heartbeat_tick_ok [OF ok] timer by (simp add: ws_step_def)
qed

lemma socket_opens_step:
  assumes ok: "ws_ok valid w" and "ws_enabled (SocketOpens k b) w"
  shows "ws_ok valid (ws_step valid (SocketOpens k b) w)"
proof (cases "w_socket w = Some k")
  case True
  then have "attached k w" using ok by (simp add: ws_ok_def control_ok_def)
  then show ?thesis using True assms socket_opens_ok [OF ok True] by (simp add: ws_step_def ws_enabled_def Let_def)
next
  case False
  then show ?thesis using set_ready_other [OF ok False] by (simp add: ws_step_def Let_def on_open_def)
qed

text \<open>Every call and every event keeps the invariant.\<close>

lemma ws_step_ok:
  assumes ok: "ws_ok valid w" and enabled: "ws_enabled ev w"
  shows "ws_ok valid (ws_step valid ev w)"
proof (cases ev)
  case (CallConnect url)
  then show ?thesis using connect_ok [OF ok] by (simp add: ws_step_def)
next
  case CallDisconnect
  then show ?thesis using ok disconnect_ok by (simp add: ws_step_def ws_ok_def)
next
  case CallRestart
  then show ?thesis using ok restart_ok by (simp add: ws_step_def ws_ok_def)
next
  case (CallSend m b)
  then show ?thesis using ws_send_ok [OF ok] by (simp add: ws_step_def)
next
  case (SocketOpens k b)
  then show ?thesis using socket_opens_step [OF ok] enabled by simp
next
  case (SocketMessage k body)
  then show ?thesis using on_message_ok [OF ok] ok by (simp add: ws_step_def)
next
  case (SocketClosing k)
  then show ?thesis using socket_closing_ok [OF ok] by (simp add: ws_step_def)
next
  case (SocketCloses k)
  then show ?thesis using socket_closes_ok [OF ok] by (simp add: ws_step_def)
next
  case (SocketFails k)
  then show ?thesis using socket_fails_ok [OF ok] by (simp add: ws_step_def)
next
  case (TimerFires i b)
  then show ?thesis using enabled timer_fires_ok [OF ok] by (auto simp: ws_enabled_def)
qed (simp_all add: ws_step_def subscriptions_ok [OF ok])

lemma ws_reachable_ok: "ws_reachable valid w \<Longrightarrow> ws_ok valid w"
  by (induction rule: ws_reachable.induct) (simp_all add: ws_ok_new ws_step_ok)

subsection \<open>Status listeners\<close>

definition last_status_to :: "nat \<Rightarrow> emitted list \<Rightarrow> ws_status option" where
  "last_status_to l es =
     foldl (\<lambda>told e. case e of StatusTo j st \<Rightarrow> if j = l then Some st else told | _ \<Rightarrow> told) None es"

definition informed :: "ws \<Rightarrow> bool" where
  "informed w \<longleftrightarrow> (\<forall>l\<in>set (w_statusListeners w). last_status_to l (w_out w) = Some (w_status w))"

definition no_status :: "emitted list \<Rightarrow> bool" where
  "no_status es \<longleftrightarrow> list_all (\<lambda>e. case e of StatusTo j st \<Rightarrow> False | _ \<Rightarrow> True) es"

lemma told_other: "no_status es \<Longrightarrow> last_status_to l (out @ es) = last_status_to l out"
proof (induction es arbitrary: out)
  case (Cons e es)
  have "last_status_to l (out @ e # es) = last_status_to l ((out @ [e]) @ es)" by simp
  also have "\<dots> = last_status_to l (out @ [e])" using Cons.IH Cons.prems by (simp add: no_status_def del: append_assoc)
  also have "\<dots> = last_status_to l out" using Cons.prems by (cases e) (simp_all add: no_status_def last_status_to_def)
  finally show ?case .
qed simp

lemma told_all: "l \<in> set ls \<Longrightarrow> last_status_to l (out @ map (\<lambda>j. StatusTo j st) ls) = Some st"
proof (induction ls rule: rev_induct)
  case (snoc j ls)
  have "last_status_to l (out @ map (\<lambda>j. StatusTo j st) (ls @ [j])) =
      (if j = l then Some st else last_status_to l (out @ map (\<lambda>j. StatusTo j st) ls))"
    by (simp add: last_status_to_def)
  then show ?case using snoc by auto
qed simp

lemma informed_same:
  "informed w \<Longrightarrow> w_statusListeners w' = w_statusListeners w \<Longrightarrow> w_status w' = w_status w \<Longrightarrow>
     w_out w' = w_out w @ es \<Longrightarrow> no_status es \<Longrightarrow> informed w'"
  by (simp add: informed_def told_other)

lemma informed_status: "informed w \<Longrightarrow> informed (setStatus st w)"
  by (auto simp: informed_def setStatus_def emit_def told_all)

text \<open>The operations on sockets and timers call no listener.\<close>

lemma silent_ops [simp]:
  "w_out (set_ready r k w) = w_out w" "w_statusListeners (set_ready r k w) = w_statusListeners w"
  "w_out (detach k w) = w_out w" "w_statusListeners (detach k w) = w_statusListeners w"
  "w_out (close_socket k w) = w_out w" "w_statusListeners (close_socket k w) = w_statusListeners w"
  "w_out (remove_timer i w) = w_out w" "w_statusListeners (remove_timer i w) = w_statusListeners w"
  "w_out (clearReconnectTimer w) = w_out w" "w_statusListeners (clearReconnectTimer w) = w_statusListeners w"
  "w_out (stopHeartbeat w) = w_out w" "w_statusListeners (stopHeartbeat w) = w_statusListeners w"
  "w_out (scheduleReconnect w) = w_out w" "w_statusListeners (scheduleReconnect w) = w_statusListeners w"
  "w_out (drop_socket w) = w_out w" "w_statusListeners (drop_socket w) = w_statusListeners w"
  "w_out (set_url url w) = w_out w" "w_statusListeners (set_url url w) = w_statusListeners w"
  by (simp_all add: set_ready_def update_socket_def detach_def close_socket_def remove_timer_def clearReconnectTimer_def
      stopHeartbeat_def scheduleReconnect_def add_timer_def Let_def drop_socket_def set_url_def split: option.split)

lemma informed_quiet:
  "informed w \<Longrightarrow> w_out w' = w_out w \<Longrightarrow> w_status w' = w_status w \<Longrightarrow> w_statusListeners w' = w_statusListeners w \<Longrightarrow> informed w'"
  by (simp add: informed_def)

lemma informed_schedule: "informed w \<Longrightarrow> informed (scheduleReconnect w)"
  by (rule informed_quiet) simp_all

lemma informed_lost: "informed w \<Longrightarrow> informed (handleConnectionLost k w)"
proof -
  assume "informed w"
  then have "informed (close_socket k (detach k ((stopHeartbeat w)\<lparr>w_socket := None\<rparr>)))" by (rule informed_quiet) simp_all
  then show ?thesis using \<open>informed w\<close> by (simp add: handleConnectionLost_def Let_def informed_status informed_schedule)
qed

lemma informed_sent: "informed w \<Longrightarrow> no_status es \<Longrightarrow> informed (emit es w)"
  by (rule informed_same [of w _ es]) (simp_all add: emit_def)

lemma informed_heartbeat: "informed w \<Longrightarrow> informed (sendHeartbeat b w)"
  by (auto simp: sendHeartbeat_def no_status_def split: option.split intro: informed_sent informed_lost)

lemma informed_startHeartbeat: "informed w \<Longrightarrow> informed (startHeartbeat b w)"
proof -
  assume "informed w"
  then have "informed (stopHeartbeat w)" by (rule informed_quiet) simp_all
  then have "informed (sendHeartbeat b (stopHeartbeat w))" by (rule informed_heartbeat)
  then show ?thesis unfolding startHeartbeat_def Let_def by (rule informed_quiet) (simp_all add: add_timer_def)
qed

lemma informed_try_socket: "informed w \<Longrightarrow> informed (try_socket valid w)"
proof -
  assume "informed w"
  then have "informed ((stopHeartbeat (clearReconnectTimer w))\<lparr>w_manuallyClosed := False\<rparr>)" by (rule informed_quiet) simp_all
  then have "informed (setStatus st ((stopHeartbeat (clearReconnectTimer w))\<lparr>w_manuallyClosed := False\<rparr>))" for st
    by (rule informed_status)
  then have quiet: "informed v" if "w_out v = w_out w3" "w_status v = w_status w3" "w_statusListeners v = w_statusListeners w3"
      "w3 = setStatus st ((stopHeartbeat (clearReconnectTimer w))\<lparr>w_manuallyClosed := False\<rparr>)" for v w3 st
    using that by (intro informed_quiet [of w3 v]) simp_all
  show ?thesis unfolding try_socket_def Let_def
    by (rule quiet [OF _ _ _ refl, where st = "if w_reconnectAttempts w > 0 then Reconnecting else Connecting"]) simp_all
qed

lemma informed_connect: "informed w \<Longrightarrow> informed (connect valid url w)"
proof -
  assume "informed w"
  then have "informed (set_url url w)" by (rule informed_quiet) simp_all
  then show ?thesis by (simp add: connect_split Let_def informed_try_socket)
qed

lemma informed_drop:
  "informed w \<Longrightarrow> informed (setStatus st (drop_socket (stopHeartbeat (clearReconnectTimer (w\<lparr>w_manuallyClosed := b\<rparr>)))))"
  by (rule informed_status, erule informed_quiet) simp_all

lemma informed_restart: "informed w \<Longrightarrow> informed (restartConnection w)"
  unfolding restartConnection_def
  by (rule informed_schedule, rule informed_quiet, erule informed_drop [where b = False and st = Reconnecting]) simp_all

lemma informed_deliver: "informed w \<Longrightarrow> informed (deliver m w)"
  by (auto simp: deliver_def no_status_def list_all_iff split: jsval.split option.split intro!: informed_sent)

lemma informed_message: "informed w \<Longrightarrow> informed (on_message k body w)"
proof -
  assume "informed w"
  then have "informed (w\<lparr>w_lastMessageAt := w_now w\<rparr>)" by (rule informed_quiet) simp_all
  then show ?thesis using \<open>informed w\<close> informed_deliver by (simp add: on_message_def Let_def split: sum.split)
qed

lemma informed_open: "informed w \<Longrightarrow> informed (on_open k b w)"
proof -
  assume "informed w"
  then have "informed (w\<lparr>w_reconnectAttempts := 0, w_lastMessageAt := w_now w\<rparr>)" by (rule informed_quiet) simp_all
  then show ?thesis using \<open>informed w\<close> by (simp add: on_open_def informed_startHeartbeat informed_status)
qed

lemma informed_send: "informed w \<Longrightarrow> informed (fst (ws_send m b w))"
  by (auto simp: ws_send_def no_status_def list_all_iff split: option.split
      intro!: informed_sent informed_lost informed_schedule informed_status)

lemma informed_subscribe: "informed w \<Longrightarrow> informed (subscribeStatus l w)" "informed w \<Longrightarrow> informed (unsubscribeStatus l w)"
  by (auto simp: informed_def subscribeStatus_def unsubscribeStatus_def emit_def last_status_to_def set_add_def set_delete_def
      split: if_splits)

lemma informed_tick: "informed w \<Longrightarrow> informed (heartbeat_tick b w)"
  by (auto simp: heartbeat_tick_def split: option.split intro: informed_lost informed_heartbeat)

lemma informed_due: "informed w \<Longrightarrow> informed (reconnect_due valid (remove_timer i w))"
proof -
  assume "informed w"
  then have "informed ((remove_timer i w)\<lparr>w_reconnectTimer := None\<rparr>)" by (rule informed_quiet) (simp_all add: remove_timer_def)
  then show ?thesis by (simp add: reconnect_due_def Let_def informed_connect)
qed

lemma informed_ready: "informed w \<Longrightarrow> informed (set_ready r k w)"
  by (erule informed_quiet) simp_all

lemma informed_close: "informed w \<Longrightarrow> informed (close_event k w)"
  by (simp add: close_event_def on_close_def informed_lost)

lemma informed_error: "informed w \<Longrightarrow> informed (on_error k w)"
  by (simp add: on_error_def informed_lost)

lemmas informed_ops =
  informed_connect informed_restart informed_send informed_subscribe informed_message informed_open informed_ready
  informed_close informed_error informed_tick informed_due

lemma informed_step: "informed w \<Longrightarrow> informed (ws_step valid ev w)"
proof -
  assume w: "informed w"
  have quiet: "informed w'" if "w_out w' = w_out w" "w_status w' = w_status w" "w_statusListeners w' = w_statusListeners w" for w'
    using w that by (rule informed_quiet)
  show ?thesis
    by (cases ev)
      (auto simp: ws_step_def informed_ops w disconnect_def informed_drop Let_def subscribeMessages_def unsubscribeMessages_def
        subscribeOutgoingMessages_def unsubscribeOutgoingMessages_def on_type_def off_type_def
        split: option.split timer_kind.split intro!: quiet)
qed

lemma informed_new: "informed new_client"
  by (simp add: informed_def new_client_def)

lemma ws_reachable_informed: "ws_reachable valid w \<Longrightarrow> informed w"
  by (induction rule: ws_reachable.induct) (simp_all add: informed_step informed_new)

subsection \<open>Runs\<close>

fun ws_run :: "(string \<Rightarrow> bool) \<Rightarrow> ws_event list \<Rightarrow> ws \<Rightarrow> ws option" where
  "ws_run valid [] w = Some w"
| "ws_run valid (ev # evs) w = (if ws_enabled ev w then ws_run valid evs (ws_step valid ev w) else None)"

lemma ws_run_reachable: "ws_reachable valid w \<Longrightarrow> ws_run valid evs w = Some w' \<Longrightarrow> ws_reachable valid w'"
  by (induction evs arbitrary: w) (auto split: if_splits intro: ws_next)

text \<open>What the browser does by itself, and the calls that open no connection.\<close>

definition browser_event :: "ws_event \<Rightarrow> bool" where
  "browser_event ev =
     (case ev of SocketOpens k b \<Rightarrow> True | SocketMessage k body \<Rightarrow> True | SocketClosing k \<Rightarrow> True | SocketCloses k \<Rightarrow> True
      | SocketFails k \<Rightarrow> True | TimerFires i b \<Rightarrow> True | TimePasses d \<Rightarrow> True | _ \<Rightarrow> False)"

definition opening_call :: "ws_event \<Rightarrow> bool" where
  "opening_call ev = (case ev of CallConnect url \<Rightarrow> True | CallRestart \<Rightarrow> True | _ \<Rightarrow> False)"

text \<open>After \<open>disconnect\<close> the client is still.\<close>

definition still :: "ws \<Rightarrow> bool" where
  "still w \<longleftrightarrow> w_manuallyClosed w \<and> w_status w = Disconnected \<and> w_socket w = None \<and> w_timers w = []"

lemma timers_none: "timers_ok w \<Longrightarrow> w_reconnectTimer w = None \<Longrightarrow> w_heartbeatTimer w = None \<Longrightarrow> w_timers w = []"
  using timers_kind_field [of w] by (cases "w_timers w") (auto, metis list.set_intros(1) timer_kind.exhaust)

lemma still_iff: "ws_ok valid w \<Longrightarrow> still w \<longleftrightarrow> w_manuallyClosed w"
  using timers_none by (auto simp: still_def ws_ok_def control_ok_def)

definition sent_texts :: "emitted list \<Rightarrow> emitted list" where
  "sent_texts = filter (\<lambda>e. case e of SentText k body \<Rightarrow> True | _ \<Rightarrow> False)"

lemma still_step:
  assumes "still w" and "ws_enabled ev w" and "\<not> opening_call ev"
  shows "still (ws_step valid ev w) \<and> length (w_sockets (ws_step valid ev w)) = length (w_sockets w) \<and>
    sent_texts (w_out (ws_step valid ev w)) = sent_texts (w_out w)"
  using assms
  by (cases ev)
    (auto simp: still_def opening_call_def ws_step_def ws_enabled_def Let_def disconnect_def drop_socket_def setStatus_def
      clearReconnectTimer_def stopHeartbeat_def remove_timer_def subscription_defs emit_def sent_texts_def ws_send_def socket_open_def
      on_open_def on_message_def on_error_def close_event_def on_close_def timer_of_def split: option.split)

lemma still_run:
  assumes "still w" and "ws_run valid evs w = Some w'" and "\<forall>ev\<in>set evs. \<not> opening_call ev"
  shows "still w' \<and> length (w_sockets w') = length (w_sockets w) \<and> sent_texts (w_out w') = sent_texts (w_out w)"
  using assms
proof (induction evs arbitrary: w)
  case (Cons ev evs)
  let ?v = "ws_step valid ev w"
  have enabled: "ws_enabled ev w" and run: "ws_run valid evs ?v = Some w'" using Cons.prems(2) by (auto split: if_splits)
  have "still ?v \<and> length (w_sockets ?v) = length (w_sockets w) \<and> sent_texts (w_out ?v) = sent_texts (w_out w)"
    using Cons.prems(3) by (intro still_step Cons.prems(1) enabled) simp
  then show ?case using Cons.IH [of ?v] run Cons.prems(3) by simp
qed simp

subsection \<open>Recovery\<close>

lemma open_step:
  assumes "w_socket w = Some k" and "attached k w" and "ready_of k w = ReadyConnecting"
  shows "ws_enabled (SocketOpens k True) w" and "isConnected (ws_step valid (SocketOpens k True) w)"
proof -
  have k: "k < length (w_sockets w)" using assms(2) by (rule attached_in_range)
  then show "ws_enabled (SocketOpens k True) w" using assms by (simp add: ws_enabled_def)
  let ?w2 = "setStatus Connected ((set_ready ReadyOpen k w)\<lparr>w_reconnectAttempts := 0, w_lastMessageAt := w_now w\<rparr>)"
  let ?w3 = "stopHeartbeat ?w2"
  have r: "ready_of k ?w3 = ReadyOpen" using k by (simp add: ready_of_def set_ready_def update_socket_def)
  then have "socket_open ?w3 = Some k" using assms(1) by (simp add: socket_open_def)
  then have "startHeartbeat True ?w2 =
      (add_timer HeartbeatTimer HEARTBEAT_INTERVAL_MS (emit [SentText k (json_stringify heartbeat_message)] ?w3))
        \<lparr>w_heartbeatTimer := Some (w_nextTimer ?w3)\<rparr>"
    by (simp add: startHeartbeat_def sendHeartbeat_def Let_def)
  then have "isConnected (startHeartbeat True ?w2)"
    using assms(1) k by (simp add: isConnected_def add_timer_def ready_of_def set_ready_def update_socket_def)
  then show "isConnected (ws_step valid (SocketOpens k True) w)"
    using assms by (simp add: ws_step_def Let_def on_open_def)
qed

lemma try_socket_fields:
  assumes "valid (w_url w)"
  shows "w_socket (try_socket valid w) = Some (length (w_sockets w))" "attached (length (w_sockets w)) (try_socket valid w)"
    "ready_of (length (w_sockets w)) (try_socket valid w) = ReadyConnecting"
  using assms by (simp_all add: try_socket_def Let_def attached_def ready_of_def)

lemma due_step:
  assumes ok: "ws_ok valid w" and timer: "w_reconnectTimer w = Some i" and url: "w_url w \<noteq> []" "valid (w_url w)"
  shows "ws_enabled (TimerFires i b) w" and "w_socket (ws_step valid (TimerFires i b) w) = Some (length (w_sockets w))"
    and "attached (length (w_sockets w)) (ws_step valid (TimerFires i b) w)"
    and "ready_of (length (w_sockets w)) (ws_step valid (TimerFires i b) w) = ReadyConnecting"
proof -
  obtain t where t: "t \<in> set (w_timers w)" "tm_id t = i" "tm_kind t = ReconnectTimer"
    using ok timer by (auto simp: ws_ok_def timers_ok_def has_timer_def)
  then obtain u where u: "timer_of i w = Some u" unfolding timer_of_def by (metis (mono_tags, lifting) find_None_iff not_Some_eq)
  then have "u = t" using timers_unique [of w u t] timer_of_found [OF u] t ok by (simp add: ws_ok_def)
  show "ws_enabled (TimerFires i b) w" using u by (simp add: ws_enabled_def)
  let ?w1 = "(remove_timer i w)\<lparr>w_reconnectTimer := None\<rparr>"
  have w: "w_socket w = None" "\<not> w_manuallyClosed w" using ok timer by (auto simp: ws_ok_def control_ok_def)
  have "connect valid None ?w1 = try_socket valid ?w1"
    using w url by (simp add: connect_split set_url_def socket_busy_def Let_def remove_timer_def)
  then have step: "ws_step valid (TimerFires i b) w = try_socket valid ?w1"
    using u \<open>u = t\<close> t w by (simp add: ws_step_def reconnect_due_def Let_def remove_timer_def)
  have "valid (w_url ?w1)" and l: "length (w_sockets ?w1) = length (w_sockets w)" using url by (simp_all add: remove_timer_def)
  from try_socket_fields [of valid ?w1, OF this(1)]
  show "w_socket (ws_step valid (TimerFires i b) w) = Some (length (w_sockets w))"
    and "attached (length (w_sockets w)) (ws_step valid (TimerFires i b) w)"
    and "ready_of (length (w_sockets w)) (ws_step valid (TimerFires i b) w) = ReadyConnecting"
    unfolding step l by auto
qed

definition reconnects :: "(string \<Rightarrow> bool) \<Rightarrow> nat \<Rightarrow> ws \<Rightarrow> bool" where
  "reconnects valid n w \<longleftrightarrow>
     (\<exists>evs w'. length evs \<le> n \<and> list_all browser_event evs \<and> ws_run valid evs w = Some w' \<and> isConnected w')"

lemma reconnects_now: "isConnected w \<Longrightarrow> reconnects valid n w"
  unfolding reconnects_def by (rule exI [of _ "[]"]) simp

lemma reconnects_step:
  assumes "browser_event ev" and "ws_enabled ev w" and "reconnects valid n (ws_step valid ev w)"
  shows "reconnects valid (Suc n) w"
proof -
  obtain evs w' where "length evs \<le> n" "list_all browser_event evs" "ws_run valid evs (ws_step valid ev w) = Some w'" "isConnected w'"
    using assms(3) by (auto simp: reconnects_def)
  then show ?thesis unfolding reconnects_def using assms(1,2) by (intro exI [of _ "ev # evs"] exI [of _ w']) simp
qed

lemma reconnects_by_opening:
  "w_socket w = Some k \<Longrightarrow> attached k w \<Longrightarrow> ready_of k w = ReadyConnecting \<Longrightarrow> reconnects valid (Suc n) w"
  by (rule reconnects_step [of "SocketOpens k True"]) (simp_all add: browser_event_def open_step reconnects_now)

lemma reconnects_by_timer:
  assumes "ws_ok valid w" and "w_reconnectTimer w = Some i" and "w_url w \<noteq> []" and "valid (w_url w)"
  shows "reconnects valid (Suc (Suc n)) w"
proof (rule reconnects_step [of "TimerFires i True"])
  show "reconnects valid (Suc n) (ws_step valid (TimerFires i True) w)"
    using due_step [OF assms] by (intro reconnects_by_opening) auto
qed (simp_all add: browser_event_def due_step [OF assms])

lemma recovers:
  assumes ok: "ws_ok valid w" and wanted: "\<not> w_manuallyClosed w" and url: "w_url w \<noteq> []" "valid (w_url w)"
  shows "reconnects valid 3 w"
proof (cases "w_socket w")
  case None
  then obtain i where "w_reconnectTimer w = Some i" using ok wanted url by (auto simp: ws_ok_def control_ok_def)
  then show ?thesis using reconnects_by_timer [OF ok _ url, of i 1] by (simp add: numeral_3_eq_3)
next
  case (Some k)
  then have k: "attached k w" "ready_of k w \<noteq> ReadyClosed" "ready_of k w = ReadyOpen \<Longrightarrow> w_status w = Connected"
    using ok by (auto simp: ws_ok_def control_ok_def)
  show ?thesis
  proof (cases "ready_of k w")
    case ReadyConnecting
    then show ?thesis using reconnects_by_opening [OF Some k(1), of valid 2] by (simp add: numeral_3_eq_3)
  next
    case ReadyOpen
    then show ?thesis using Some k by (intro reconnects_now) (simp add: isConnected_def)
  next
    case ReadyClosing
    let ?ev = "SocketCloses k"
    let ?v = "handleConnectionLost k (set_ready ReadyClosed k w)"
    have step: "ws_step valid ?ev w = ?v" using Some k by (simp add: ws_step_def close_event_def on_close_def)
    have v: "w_reconnectTimer ?v \<noteq> None" "w_url ?v = w_url w" using lost_fields [of "set_ready ReadyClosed k w" k] Some wanted by simp_all
    then obtain i where i: "w_reconnectTimer ?v = Some i" by auto
    have "reconnects valid 2 (ws_step valid ?ev w)"
      using reconnects_by_timer [OF socket_lost_ok [OF ok Some] i, of 0] v url by (simp add: step numeral_2_eq_2)
    moreover have "ws_enabled ?ev w" using k attached_in_range ReadyClosing by (simp add: ws_enabled_def)
    ultimately have "reconnects valid (Suc 2) w" by (intro reconnects_step [of ?ev]) (simp_all add: browser_event_def)
    then show ?thesis by (simp add: numeral_3_eq_3 numeral_2_eq_2)
  next
    case ReadyClosed
    then show ?thesis using k by simp
  qed
qed

subsection \<open>Properties\<close>

text \<open>C17. In every state that calls and browser events can lead the WebSocket client to, the fields, the sockets and the
  timers fit together: connected has a socket and a heartbeat, a socket is open only while the status is
  connected, a reconnection is pending only without a socket and with a delay of 3 to 10 seconds, at most one timer
  of each kind lives and its field names it, a manual close leaves nothing behind, and every status listener was
  last told the present status.\<close>

theorem ws_invariant:
  assumes "ws_reachable valid w"
  shows "timers_ok w \<and> control_ok valid w \<and> informed w"
  using ws_reachable_ok [OF assms] ws_reachable_informed [OF assms] by (simp add: ws_ok_def)

definition sample_run :: "ws_event list" where
  "sample_run = [CallSubscribeStatus 7, CallConnect (Some ''ws://a''), SocketOpens 0 True, TimePasses 16000, TimerFires 0 True]"

lemma sample_run_reaches: "ws_run (\<lambda>u. True) sample_run new_client = Some (the (ws_run (\<lambda>u. True) sample_run new_client))"
  by code_simp

lemma sample_reachable: "ws_reachable (\<lambda>u. True) (the (ws_run (\<lambda>u. True) sample_run new_client))"
  using ws_run_reachable [OF ws_start sample_run_reaches] .

theorem ws_invariant_witness:
  "timers_ok (the (ws_run (\<lambda>u. True) sample_run new_client)) \<and> control_ok (\<lambda>u. True) (the (ws_run (\<lambda>u. True) sample_run new_client)) \<and>
   informed (the (ws_run (\<lambda>u. True) sample_run new_client))"
  by (rule ws_invariant [OF sample_reachable])

text \<open>C18. The client never gets stuck: from every reachable state that was not closed by hand and has an address a socket can be
  opened for, at most three events of the browser (the close event of a dying socket, the pending timer, the opening of the
  new socket) lead to an established connection, without any call of the application.\<close>

theorem ws_recovers:
  assumes "ws_reachable valid w" and "\<not> w_manuallyClosed w" and "w_url w \<noteq> []" and "valid (w_url w)"
  shows "\<exists>evs w'. length evs \<le> 3 \<and> list_all browser_event evs \<and> ws_run valid evs w = Some w' \<and> isConnected w'"
  using recovers [OF ws_reachable_ok [OF assms(1)] assms(2-4)] by (simp add: reconnects_def)

theorem ws_recovers_witness:
  "\<exists>evs w'. length evs \<le> 3 \<and> list_all browser_event evs \<and>
     ws_run (\<lambda>u. True) evs (the (ws_run (\<lambda>u. True) sample_run new_client)) = Some w' \<and> isConnected w'"
  by (rule ws_recovers [OF sample_reachable]) (code_simp, code_simp, simp)

text \<open>C19. After disconnect, in whatever state it was called, nothing happens until connect or restartConnection is called: through
  any run of sends, subscriptions and late browser events the status stays disconnected, no socket is created and no
  text is sent.\<close>

theorem ws_disconnect_is_final:
  assumes "ws_reachable valid w" and "ws_run valid evs (disconnect w) = Some w'" and "\<forall>ev\<in>set evs. \<not> opening_call ev"
  shows "getStatus w' = Disconnected \<and> \<not> isConnected w' \<and> length (w_sockets w') = length (w_sockets (disconnect w)) \<and>
    sent_texts (w_out w') = sent_texts (w_out (disconnect w))"
proof -
  have "ws_ok valid (disconnect w)" using ws_reachable_ok [OF assms(1)] by (simp add: ws_ok_def disconnect_ok [unfolded ws_ok_def])
  then have "still (disconnect w)" by (simp add: still_iff) (simp add: disconnect_def)
  from still_run [OF this assms(2,3)] show ?thesis by (simp add: still_def getStatus_def isConnected_def)
qed

theorem ws_disconnect_is_final_witness:
  "getStatus (the (ws_run (\<lambda>u. True) [SocketCloses 0, TimePasses 9000] (disconnect (the (ws_run (\<lambda>u. True) sample_run new_client))))) =
   Disconnected"
proof -
  let ?evs = "[SocketCloses 0, TimePasses 9000]"
  let ?w = "the (ws_run (\<lambda>u. True) sample_run new_client)"
  have run: "ws_run (\<lambda>u. True) ?evs (disconnect ?w) = Some (the (ws_run (\<lambda>u. True) ?evs (disconnect ?w)))" by code_simp
  show ?thesis using ws_disconnect_is_final [OF sample_reachable run] by (simp add: opening_call_def)
qed

end
