(* ===== verification/Requests.thy ===== *)
theory Requests
  imports Commands WsInvariant
begin

text \<open>
  Requests over the WebSocket: \<open>waitUntilConnected\<close> and \<open>request\<close> of \<open>services/wsApi.ts\<close>, \<open>api/wsRequest.ts\<close>. A request is a
  promise with its phase; its continuation after an \<open>await\<close> is an event of its own. The listeners a request subscribes at
  the client of theory \<open>WsClient\<close> are fresh numbers. What the client calls during an operation is handled, in order, after the
  operation; a listener that unsubscribes itself in the middle of an operation is thereby told more than in the program, but
  its request has left the phase in which it listens. Other listeners do not matter for requests and are left out.
\<close>

subsection \<open>Request identifiers\<close>

definition base36_char :: "nat \<Rightarrow> char" where
  "base36_char d = (if d < 10 then char_of (48 + d) else char_of (87 + d))"

fun show_base36 :: "nat \<Rightarrow> string" where
  "show_base36 n = (if n < 36 then [base36_char n] else show_base36 (n div 36) @ [base36_char (n mod 36)])"

declare show_base36.simps [simp del]

text \<open>The new value of \<open>requestSequence\<close> and the identifier.\<close>

definition newRequestId :: "int \<Rightarrow> int \<times> string" where
  "newRequestId requestSequence =
     (let next = requestSequence + 1; wrapped = (if next > 0x7fffffff then 1 else next)
      in (wrapped, show_base36 (nat wrapped)))"

definition isMatchingRequestId :: "jsval \<Rightarrow> string \<Rightarrow> bool" where
  "isMatchingRequestId data requestId = (js_get data ''requestId'' = JStr requestId)"

subsection \<open>Requests\<close>

datatype outcome = Resolved jsval | Rejected string

datatype phase = AwaitingConnection nat | ConnectionReady | AwaitingResponse nat nat | Settled outcome

record request =
  rq_clientType :: string
  rq_data :: "(string \<times> json) list"
  rq_responseType :: string
  rq_matches :: "jsval \<Rightarrow> bool"
  rq_phase :: phase

record api =
  ap_ws :: ws
  ap_requests :: "request list"
  ap_nextListener :: nat
  ap_sequence :: int

definition new_api :: api where
  "new_api = \<lparr>ap_ws = new_client, ap_requests = [], ap_nextListener = 0, ap_sequence = 0\<rparr>"

definition set_phase :: "nat \<Rightarrow> phase \<Rightarrow> api \<Rightarrow> api" where
  "set_phase n p s = s\<lparr>ap_requests := (ap_requests s)[n := (ap_requests s ! n)\<lparr>rq_phase := p\<rparr>]\<rparr>"

definition connection_ready :: "nat \<Rightarrow> api \<Rightarrow> api" where
  "connection_ready n s =
     (case rq_phase (ap_requests s ! n) of
        AwaitingConnection l \<Rightarrow> set_phase n ConnectionReady (s\<lparr>ap_ws := unsubscribeStatus l (ap_ws s)\<rparr>)
      | _ \<Rightarrow> s)"

definition connection_failed :: "nat \<Rightarrow> string \<Rightarrow> api \<Rightarrow> api" where
  "connection_failed n e s =
     (case rq_phase (ap_requests s ! n) of
        AwaitingConnection l \<Rightarrow> set_phase n (Settled (Rejected e)) (s\<lparr>ap_ws := unsubscribeStatus l (ap_ws s)\<rparr>)
      | _ \<Rightarrow> s)"

text \<open>\<open>resolveOnce\<close> and \<open>rejectOnce\<close> of a request that waits for its response, with their \<open>cleanup\<close>\<close>

definition settle :: "nat \<Rightarrow> outcome \<Rightarrow> api \<Rightarrow> api" where
  "settle n r s =
     (case rq_phase (ap_requests s ! n) of
        AwaitingResponse l1 l2 \<Rightarrow>
          set_phase n (Settled r)
            (s\<lparr>ap_ws := unsubscribeStatus l2 (off_type (rq_responseType (ap_requests s ! n)) l1 (ap_ws s))\<rparr>)
      | _ \<Rightarrow> s)"

definition status_text :: "ws_status \<Rightarrow> string" where
  "status_text st =
     (case st of Disconnected \<Rightarrow> ''disconnected'' | Connecting \<Rightarrow> ''connecting'' | Connected \<Rightarrow> ''connected''
      | Reconnecting \<Rightarrow> ''reconnecting'' | ErrorStatus \<Rightarrow> ''error'')"

definition status_failed :: "ws_status \<Rightarrow> bool" where
  "status_failed st \<longleftrightarrow> \<not> (st = Connected \<or> st = Connecting \<or> st = Reconnecting)"

definition status_error :: "ws_status \<Rightarrow> request \<Rightarrow> string" where
  "status_error st q = ''WebSocket request failed because connection is '' @ status_text st @ '': '' @ rq_clientType q"

text \<open>
  The listeners of request \<open>n\<close>. The client announces \<open>connected\<close> only while its socket is open, so the check of
  \<open>isConnected()\<close> in the status listener of \<open>waitUntilConnected\<close> succeeds then.
\<close>

definition react_request :: "emitted \<Rightarrow> nat \<Rightarrow> api \<Rightarrow> api" where
  "react_request e n s =
     (let q = ap_requests s ! n in
      case e of
        TypedTo l data msg \<Rightarrow>
          (case rq_phase q of
             AwaitingResponse l1 l2 \<Rightarrow> if l = l1 \<and> rq_matches q data then settle n (Resolved data) s else s
           | _ \<Rightarrow> s)
      | StatusTo l st \<Rightarrow>
          (case rq_phase q of
             AwaitingConnection l1 \<Rightarrow> if l = l1 \<and> st = Connected then connection_ready n s else s
           | AwaitingResponse l1 l2 \<Rightarrow> if l = l2 \<and> status_failed st then settle n (Rejected (status_error st q)) s else s
           | _ \<Rightarrow> s)
      | _ \<Rightarrow> s)"

definition react :: "emitted \<Rightarrow> api \<Rightarrow> api" where
  "react e s = fold (react_request e) [0..<length (ap_requests s)] s"

definition perform :: "ws \<Rightarrow> api \<Rightarrow> api" where
  "perform w s = fold react (drop (length (w_out (ap_ws s))) (w_out w)) (s\<lparr>ap_ws := w\<rparr>)"

subsection \<open>The steps of a request\<close>

text \<open>Up to the first \<open>await\<close>: a client that is not connected is watched by a status listener, which it calls at once and in vain.\<close>

definition start_request :: "string \<Rightarrow> (string \<times> json) list \<Rightarrow> string \<Rightarrow> (jsval \<Rightarrow> bool) \<Rightarrow> api \<Rightarrow> api" where
  "start_request clientType data responseType matches s =
     (let q = \<lparr>rq_clientType = clientType, rq_data = data, rq_responseType = responseType, rq_matches = matches, rq_phase = ConnectionReady\<rparr>
      in if isConnected (ap_ws s) then s\<lparr>ap_requests := ap_requests s @ [q]\<rparr>
         else (let l = ap_nextListener s
               in s\<lparr>ap_ws := subscribeStatus l (ap_ws s), ap_nextListener := l + 1,
                    ap_requests := ap_requests s @ [q\<lparr>rq_phase := AwaitingConnection l\<rparr>]\<rparr>))"

definition wait_poll :: "nat \<Rightarrow> api \<Rightarrow> api" where
  "wait_poll n s = (if isConnected (ap_ws s) then connection_ready n s else s)"

definition wait_timeout :: "nat \<Rightarrow> api \<Rightarrow> api" where
  "wait_timeout n s = connection_failed n ''WebSocket connection timed out.'' s"

text \<open>
  After the \<open>await\<close>. The status listener is called within \<open>subscribeStatus\<close>, before its unsubscribe function is known: when the
  status has become a failure by then, the request is rejected and the listener stays subscribed.
\<close>

definition continue_request :: "nat \<Rightarrow> bool \<Rightarrow> api \<Rightarrow> api" where
  "continue_request n ok s =
     (let q = ap_requests s ! n in
      if rq_phase q \<noteq> ConnectionReady then s
      else let l1 = ap_nextListener s; l2 = l1 + 1;
               st = w_status (ap_ws s);
               s1 = s\<lparr>ap_nextListener := l1 + 2, ap_ws := subscribeStatus l2 (on_type (rq_responseType q) l1 (ap_ws s))\<rparr>
           in if status_failed st
              then set_phase n (Settled (Rejected (status_error st q))) (s1\<lparr>ap_ws := off_type (rq_responseType q) l1 (ap_ws s1)\<rparr>)
              else let s2 = set_phase n (AwaitingResponse l1 l2) s1
                   in if \<not> isConnected (ap_ws s2) then settle n (Rejected ''WebSocket is not connected.'') s2
                      else (case api_send (message (rq_clientType q) (rq_data q)) ok (ap_ws s2) of
                              (w, sent) \<Rightarrow>
                                let s3 = perform w s2
                                in if sent then s3 else settle n (Rejected ''WebSocket is not connected.'') s3))"

definition response_timeout :: "nat \<Rightarrow> api \<Rightarrow> api" where
  "response_timeout n s = settle n (Rejected (''WebSocket request timed out: '' @ rq_clientType (ap_requests s ! n))) s"

text \<open>\<open>requestWsCommand\<close> up to its \<open>await\<close>, and what it makes of the outcome: the thrown value is what \<open>new Error\<close> is given.\<close>

definition start_command :: "string \<Rightarrow> (string \<times> json) list \<Rightarrow> string \<Rightarrow> api \<Rightarrow> api" where
  "start_command clientType payload serverType s =
     (case newRequestId (ap_sequence s) of
        (sequence', requestId) \<Rightarrow>
          start_request clientType ((''requestId'', TStr requestId) # payload) serverType (\<lambda>data. isMatchingRequestId data requestId)
            (s\<lparr>ap_sequence := sequence'\<rparr>))"

definition wrapWsRequestError :: "string \<Rightarrow> string \<Rightarrow> string \<Rightarrow> string" where
  "wrapWsRequestError error clientType serverType =
     ''WebSocket command failed ('' @ clientType @ '' -> '' @ serverType @ ''): '' @ error"

definition command_result :: "string \<Rightarrow> string \<Rightarrow> string \<Rightarrow> outcome \<Rightarrow> jsval + jsval" where
  "command_result clientType serverType fallbackError r =
     (case r of
        Rejected e \<Rightarrow> Inl (JStr (wrapWsRequestError e clientType serverType))
      | Resolved response \<Rightarrow>
          if \<not> to_boolean (js_get response ''ok'')
          then Inl (case js_get response ''message'' of JUndef \<Rightarrow> JStr fallbackError | JNull \<Rightarrow> JStr fallbackError | m \<Rightarrow> m)
          else Inr response)"

definition programmingRequest :: "string \<Rightarrow> string \<Rightarrow> (string \<times> json) list \<Rightarrow> api \<Rightarrow> api" where
  "programmingRequest requestId action values s =
     start_request ''programmingCommand'' ((''requestId'', TStr requestId) # (''action'', TStr action) # values) ''programmingResponse''
       (\<lambda>response. js_get response ''requestId'' = JStr requestId) s"

subsection \<open>What can happen\<close>

datatype api_event =
    ClientEvent ws_event | StartRequest string "(string \<times> json) list" string "jsval \<Rightarrow> bool"
  | StartCommand string "(string \<times> json) list" string
  | WaitPoll nat | WaitTimeout nat | ContinueRequest nat bool | ResponseTimeout nat

definition subscription :: "ws_event \<Rightarrow> bool" where
  "subscription ev =
     (case ev of CallSubscribeStatus l \<Rightarrow> True | CallUnsubscribeStatus l \<Rightarrow> True | CallSubscribeMessages l \<Rightarrow> True
      | CallUnsubscribeMessages l \<Rightarrow> True | CallSubscribeOutgoing l \<Rightarrow> True | CallUnsubscribeOutgoing l \<Rightarrow> True
      | CallOn t l \<Rightarrow> True | CallOff t l \<Rightarrow> True | _ \<Rightarrow> False)"

definition phase_of :: "nat \<Rightarrow> api \<Rightarrow> phase option" where
  "phase_of n s = (if n < length (ap_requests s) then Some (rq_phase (ap_requests s ! n)) else None)"

definition awaits_connection :: "phase option \<Rightarrow> bool" where
  "awaits_connection p = (case p of Some (AwaitingConnection l) \<Rightarrow> True | _ \<Rightarrow> False)"

definition awaits_response :: "phase option \<Rightarrow> bool" where
  "awaits_response p = (case p of Some (AwaitingResponse l1 l2) \<Rightarrow> True | _ \<Rightarrow> False)"

definition api_enabled :: "api_event \<Rightarrow> api \<Rightarrow> bool" where
  "api_enabled ev s =
     (case ev of
        ClientEvent e \<Rightarrow> ws_enabled e (ap_ws s) \<and> \<not> subscription e
      | WaitPoll n \<Rightarrow> awaits_connection (phase_of n s)
      | WaitTimeout n \<Rightarrow> awaits_connection (phase_of n s)
      | ContinueRequest n ok \<Rightarrow> phase_of n s = Some ConnectionReady
      | ResponseTimeout n \<Rightarrow> awaits_response (phase_of n s)
      | _ \<Rightarrow> True)"

definition api_step :: "(string \<Rightarrow> bool) \<Rightarrow> api_event \<Rightarrow> api \<Rightarrow> api" where
  "api_step valid ev s =
     (case ev of
        ClientEvent e \<Rightarrow> perform (ws_step valid e (ap_ws s)) s
      | StartRequest ct d rt m \<Rightarrow> start_request ct d rt m s
      | StartCommand ct d rt \<Rightarrow> start_command ct d rt s
      | WaitPoll n \<Rightarrow> wait_poll n s
      | WaitTimeout n \<Rightarrow> wait_timeout n s
      | ContinueRequest n ok \<Rightarrow> continue_request n ok s
      | ResponseTimeout n \<Rightarrow> response_timeout n s)"

inductive api_reachable :: "(string \<Rightarrow> bool) \<Rightarrow> api \<Rightarrow> bool" for valid where
  api_start: "api_reachable valid new_api"
| api_next: "api_reachable valid s \<Longrightarrow> api_enabled ev s \<Longrightarrow> api_reachable valid (api_step valid ev s)"

fun api_run :: "(string \<Rightarrow> bool) \<Rightarrow> api_event list \<Rightarrow> api \<Rightarrow> api option" where
  "api_run valid [] s = Some s"
| "api_run valid (ev # evs) s = (if api_enabled ev s then api_run valid evs (api_step valid ev s) else None)"

lemma api_run_reachable: "api_reachable valid s \<Longrightarrow> api_run valid evs s = Some s' \<Longrightarrow> api_reachable valid s'"
  by (induction evs arbitrary: s) (auto split: if_splits intro: api_next)

subsection \<open>Identifiers are distinct\<close>

definition base36_val :: "char \<Rightarrow> nat" where
  "base36_val c = (if of_char c < (58 :: nat) then of_char c - 48 else of_char c - 87)"

lemma base36_val_char: "d < 36 \<Longrightarrow> base36_val (base36_char d) = d"
  by (auto simp: base36_val_def base36_char_def)

lemma base36_read: "foldl (\<lambda>a c. 36 * a + base36_val c) 0 (show_base36 n) = n"
proof (induction n rule: show_base36.induct)
  case (1 n)
  show ?case
  proof (cases "n < 36")
    case True
    then show ?thesis by (simp add: show_base36.simps [of n] base36_val_char)
  next
    case False
    then show ?thesis using 1 by (simp add: show_base36.simps [of n] base36_val_char)
  qed
qed

lemma show_base36_inj: "show_base36 m = show_base36 n \<longleftrightarrow> m = n"
  by (metis base36_read)

definition request_sequence :: "nat \<Rightarrow> int" where
  "request_sequence k = ((\<lambda>s. fst (newRequestId s)) ^^ k) 0"

lemma request_sequence_value: "request_sequence (Suc k) = int (k mod 2147483647) + 1"
proof (induction k)
  case 0
  show ?case by (simp add: request_sequence_def newRequestId_def)
next
  case (Suc k)
  have "request_sequence (Suc (Suc k)) = fst (newRequestId (request_sequence (Suc k)))" by (simp add: request_sequence_def)
  also have "\<dots> = int (Suc k mod 2147483647) + 1"
    unfolding Suc.IH by (simp add: newRequestId_def Let_def mod_Suc) (use mod_less_divisor [of 2147483647 k] in linarith)
  finally show ?case .
qed

lemma request_id: "snd (newRequestId (request_sequence k)) = show_base36 (k mod 2147483647 + 1)"
proof -
  have "snd (newRequestId (request_sequence k)) = show_base36 (nat (request_sequence (Suc k)))"
    by (simp add: request_sequence_def newRequestId_def Let_def)
  then show ?thesis by (simp add: request_sequence_value nat_add_distrib)
qed

text \<open>No two of any 2147483646 consecutive commands get the same identifier, so a response that matches one of them matches no
  other.\<close>

theorem command_ids_distinct:
  assumes "i < j" and "j - i < 2147483647"
  shows "snd (newRequestId (request_sequence i)) \<noteq> snd (newRequestId (request_sequence j)) \<and>
    \<not> (isMatchingRequestId data (snd (newRequestId (request_sequence i))) \<and>
       isMatchingRequestId data (snd (newRequestId (request_sequence j))))"
proof -
  have "i mod 2147483647 \<noteq> j mod 2147483647"
  proof
    assume "i mod 2147483647 = j mod 2147483647"
    then have "2147483647 dvd j - i" using assms(1) mod_eq_dvd_iff_nat [of i j 2147483647] by simp
    then show False using assms by (auto dest: dvd_imp_le)
  qed
  then have "snd (newRequestId (request_sequence i)) \<noteq> snd (newRequestId (request_sequence j))"
    by (simp add: request_id show_base36_inj)
  then show ?thesis by (auto simp: isMatchingRequestId_def)
qed

theorem command_ids_distinct_witness:
  "snd (newRequestId (request_sequence 0)) = ''1'' \<and> snd (newRequestId (request_sequence 36)) = ''11'' \<and>
   \<not> (isMatchingRequestId (JObj [(''requestId'', JStr ''11'')]) ''1'' \<and> isMatchingRequestId (JObj [(''requestId'', JStr ''11'')]) ''11'')"
proof -
  have "snd (newRequestId (request_sequence 0)) = ''1''" "snd (newRequestId (request_sequence 36)) = ''11''"
    unfolding request_id by (simp_all add: show_base36.simps base36_char_def char_of_def bit_0)
  then show ?thesis using command_ids_distinct [of 0 36 "JObj [(''requestId'', JStr ''11'')]"] by simp
qed

subsection \<open>What the client does to its listeners\<close>

definition typed :: "string \<Rightarrow> ws \<Rightarrow> nat set" where
  "typed t w = (case map_of (w_typedListeners w) t of Some ls \<Rightarrow> set ls | None \<Rightarrow> {})"

lemma typed_on: "typed t' (on_type t l w) = (if t' = t then insert l (typed t w) else typed t' w)"
  by (auto simp: typed_def on_type_def Let_def update_conv' split: option.split)

lemma typed_off: "typed t' (off_type t l w) = (if t' = t then typed t w - {l} else typed t' w)"
  by (auto simp: typed_def off_type_def Let_def update_conv' delete_conv' set_delete_def filter_empty_conv split: option.split)

text \<open>The client writes more to its output, and touches no listener, in all its operations but the subscriptions.\<close>

definition extends_out :: "ws \<Rightarrow> ws \<Rightarrow> bool" where
  "extends_out w w' \<longleftrightarrow> w_typedListeners w' = w_typedListeners w \<and> w_statusListeners w' = w_statusListeners w \<and>
     (\<exists>es. w_out w' = w_out w @ es)"

lemma extends_refl: "extends_out w w"
  by (simp add: extends_out_def)

lemma extends_trans: "extends_out u v \<Longrightarrow> extends_out v w \<Longrightarrow> extends_out u w"
  by (auto simp: extends_out_def)

lemma extends_same:
  "w_typedListeners w' = w_typedListeners w \<Longrightarrow> w_statusListeners w' = w_statusListeners w \<Longrightarrow> w_out w' = w_out w \<Longrightarrow> extends_out w w'"
  by (simp add: extends_out_def)

lemma extends_emit: "extends_out w (emit es w)"
  by (simp add: extends_out_def emit_def)

lemma extends_setStatus: "extends_out w (setStatus st w)"
  by (simp add: extends_out_def setStatus_def emit_def)

lemma quiet_parts:
  "extends_out w (clearReconnectTimer w)" "extends_out w (stopHeartbeat w)" "extends_out w (scheduleReconnect w)"
  "extends_out w (close_socket k w)" "extends_out w (detach k w)" "extends_out w (set_ready r k w)" "extends_out w (remove_timer i w)"
  by (rule extends_same; simp add: clearReconnectTimer_def stopHeartbeat_def scheduleReconnect_def close_socket_def detach_def set_ready_def
      remove_timer_def update_socket_def add_timer_def Let_def split: option.split)+

lemma extends_drop: "extends_out w (drop_socket w)"
  by (rule extends_same; simp add: drop_socket_def close_socket_def detach_def set_ready_def update_socket_def split: option.split)

lemma extends_fields:
  "extends_out u w \<Longrightarrow> extends_out u (w\<lparr>w_socket := a\<rparr>)" "extends_out u w \<Longrightarrow> extends_out u (w\<lparr>w_manuallyClosed := b\<rparr>)"
  "extends_out u w \<Longrightarrow> extends_out u (w\<lparr>w_url := c\<rparr>)" "extends_out u w \<Longrightarrow> extends_out u (w\<lparr>w_reconnectAttempts := d\<rparr>)"
  "extends_out u w \<Longrightarrow> extends_out u (w\<lparr>w_lastMessageAt := d\<rparr>)" "extends_out u w \<Longrightarrow> extends_out u (w\<lparr>w_reconnectTimer := f\<rparr>)"
  "extends_out u w \<Longrightarrow> extends_out u (w\<lparr>w_heartbeatTimer := f\<rparr>)" "extends_out u w \<Longrightarrow> extends_out u (w\<lparr>w_sockets := g\<rparr>)"
  "extends_out u w \<Longrightarrow> extends_out u (w\<lparr>w_now := d\<rparr>)"
  by (simp_all add: extends_out_def)

lemma extends_parts:
  "extends_out u w \<Longrightarrow> extends_out u (emit es w)" "extends_out u w \<Longrightarrow> extends_out u (setStatus st w)"
  "extends_out u w \<Longrightarrow> extends_out u (clearReconnectTimer w)" "extends_out u w \<Longrightarrow> extends_out u (stopHeartbeat w)"
  "extends_out u w \<Longrightarrow> extends_out u (scheduleReconnect w)" "extends_out u w \<Longrightarrow> extends_out u (close_socket k w)"
  "extends_out u w \<Longrightarrow> extends_out u (detach k w)" "extends_out u w \<Longrightarrow> extends_out u (set_ready r k w)"
  "extends_out u w \<Longrightarrow> extends_out u (remove_timer i w)" "extends_out u w \<Longrightarrow> extends_out u (drop_socket w)"
  "extends_out u w \<Longrightarrow> extends_out u (add_timer kind delay w)"
  by ((erule extends_trans, rule extends_emit extends_setStatus quiet_parts extends_drop), (erule extends_trans,
      rule extends_setStatus quiet_parts extends_drop)+, simp add: extends_out_def add_timer_def)

lemma extends_lost: "extends_out u w \<Longrightarrow> extends_out u (handleConnectionLost k w)"
  unfolding handleConnectionLost_def Let_def by (simp, intro conjI impI extends_parts extends_fields)

lemma extends_heartbeat: "extends_out u w \<Longrightarrow> extends_out u (sendHeartbeat ok w)"
  unfolding sendHeartbeat_def by (auto split: option.split intro: extends_parts extends_lost)

lemma extends_connect: "extends_out u w \<Longrightarrow> extends_out u (connect valid url w)"
  unfolding connect_def Let_def by (auto split: option.split intro!: extends_parts extends_fields)

lemma extends_open: "extends_out u w \<Longrightarrow> extends_out u (on_open k ok w)"
  unfolding on_open_def startHeartbeat_def Let_def by (auto intro!: extends_parts extends_fields extends_heartbeat)

lemma extends_message: "extends_out u w \<Longrightarrow> extends_out u (on_message k body w)"
  unfolding on_message_def deliver_def Let_def by (auto split: sum.split intro!: extends_parts extends_fields)

lemma extends_close: "extends_out u w \<Longrightarrow> extends_out u (close_event k w)"
  unfolding close_event_def on_close_def by (auto intro: extends_lost)

lemma extends_send: "extends_out u w \<Longrightarrow> extends_out u (fst (ws_send m ok w))"
  unfolding ws_send_def by (auto split: option.split intro!: extends_parts extends_lost)

lemma extends_step: "\<not> subscription ev \<Longrightarrow> extends_out w (ws_step valid ev w)"
  unfolding ws_step_def
  by (cases ev)
    (auto simp: subscription_def disconnect_def restartConnection_def on_error_def reconnect_due_def heartbeat_tick_def Let_def
      split: option.split timer_kind.split
      intro!: extends_refl extends_parts extends_fields extends_connect extends_open extends_message extends_close extends_send
        extends_lost extends_heartbeat)

subsection \<open>Listeners of requests\<close>

definition response_listener :: "phase \<Rightarrow> nat set" where
  "response_listener p = (case p of AwaitingResponse l1 l2 \<Rightarrow> {l1} | _ \<Rightarrow> {})"

definition status_listener :: "phase \<Rightarrow> nat set" where
  "status_listener p = (case p of AwaitingConnection l \<Rightarrow> {l} | AwaitingResponse l1 l2 \<Rightarrow> {l2} | _ \<Rightarrow> {})"

definition phase_listeners :: "phase \<Rightarrow> nat set" where
  "phase_listeners p = response_listener p \<union> status_listener p"

text \<open>
  Requests have listeners of their own, which are subscribed; a listener for a type of messages is the one of a request that
  waits for a response of that type.
\<close>

definition listeners_ok :: "ws \<Rightarrow> request list \<Rightarrow> nat \<Rightarrow> bool" where
  "listeners_ok w qs next \<longleftrightarrow>
     (\<forall>n<length qs. \<forall>l\<in>phase_listeners (rq_phase (qs ! n)). l < next) \<and>
     (\<forall>m<length qs. \<forall>n<length qs. m \<noteq> n \<longrightarrow> phase_listeners (rq_phase (qs ! m)) \<inter> phase_listeners (rq_phase (qs ! n)) = {}) \<and>
     (\<forall>n<length qs. response_listener (rq_phase (qs ! n)) \<inter> status_listener (rq_phase (qs ! n)) = {}) \<and>
     (\<forall>n<length qs. status_listener (rq_phase (qs ! n)) \<subseteq> set (w_statusListeners w)) \<and>
     (\<forall>t l. l \<in> typed t w \<longleftrightarrow> (\<exists>n<length qs. rq_responseType (qs ! n) = t \<and> l \<in> response_listener (rq_phase (qs ! n))))"

abbreviation api_listeners_ok :: "api \<Rightarrow> bool" where
  "api_listeners_ok s \<equiv> listeners_ok (ap_ws s) (ap_requests s) (ap_nextListener s)"

lemma listeners_typed:
  "listeners_ok w qs next \<Longrightarrow> l \<in> typed t w \<longleftrightarrow> (\<exists>n<length qs. rq_responseType (qs ! n) = t \<and> l \<in> response_listener (rq_phase (qs ! n)))"
  by (simp add: listeners_ok_def)

lemma listeners_status: "listeners_ok w qs next \<Longrightarrow> n < length qs \<Longrightarrow> status_listener (rq_phase (qs ! n)) \<subseteq> set (w_statusListeners w)"
  by (simp add: listeners_ok_def)

lemma listeners_apart:
  "listeners_ok w qs next \<Longrightarrow> m < length qs \<Longrightarrow> n < length qs \<Longrightarrow> m \<noteq> n \<Longrightarrow>
     phase_listeners (rq_phase (qs ! m)) \<inter> phase_listeners (rq_phase (qs ! n)) = {}"
  by (simp add: listeners_ok_def)

lemma listeners_release:
  assumes ok: "listeners_ok w qs next" and n: "n < length qs" and p: "phase_listeners p = {}"
    and typed: "\<And>t. typed t w' = (if t = rq_responseType (qs ! n) then typed t w - response_listener (rq_phase (qs ! n)) else typed t w)"
    and status: "set (w_statusListeners w') = set (w_statusListeners w) - status_listener (rq_phase (qs ! n))"
  shows "listeners_ok w' (qs[n := (qs ! n)\<lparr>rq_phase := p\<rparr>]) next"
proof -
  let ?qs = "qs[n := (qs ! n)\<lparr>rq_phase := p\<rparr>]"
  have none: "response_listener p = {}" "status_listener p = {}" using p by (auto simp: phase_listeners_def)
  have same: "rq_phase (?qs ! m) = (if m = n then p else rq_phase (qs ! m))" "rq_responseType (?qs ! m) = rq_responseType (qs ! m)" if "m < length qs" for m
    using that n by (simp_all add: nth_list_update)
  have disjoint: "phase_listeners (rq_phase (qs ! m)) \<inter> phase_listeners (rq_phase (qs ! n)) = {}" if "m < length qs" "m \<noteq> n" for m
    using ok that n unfolding listeners_ok_def by blast
  have "\<forall>m<length qs. status_listener (rq_phase (?qs ! m)) \<subseteq> set (w_statusListeners w')"
  proof (intro allI impI)
    fix m assume m: "m < length qs"
    show "status_listener (rq_phase (?qs ! m)) \<subseteq> set (w_statusListeners w')"
    proof (cases "m = n")
      case False
      have "status_listener (rq_phase (qs ! m)) \<subseteq> set (w_statusListeners w)" using ok m unfolding listeners_ok_def by blast
      then show ?thesis using disjoint [OF m False] False by (auto simp: same(1) [OF m] status phase_listeners_def)
    next
      case True
      then show ?thesis unfolding same(1) [OF m] by (simp add: none)
    qed
  qed
  moreover have "l \<in> typed t w' \<longleftrightarrow> (\<exists>m<length qs. rq_responseType (qs ! m) = t \<and> m \<noteq> n \<and> l \<in> response_listener (rq_phase (qs ! m)))" for t l
  proof -
    have "l \<in> typed t w \<longleftrightarrow> (\<exists>m<length qs. rq_responseType (qs ! m) = t \<and> l \<in> response_listener (rq_phase (qs ! m)))"
      using ok unfolding listeners_ok_def by blast
    then show ?thesis using disjoint n unfolding typed by (auto simp: phase_listeners_def)
  qed
  ultimately show ?thesis using ok n none p unfolding listeners_ok_def by (auto simp: same split: if_splits)
qed

lemma unsubscribe_fields:
  "typed t (unsubscribeStatus l w) = typed t w" "set (w_statusListeners (unsubscribeStatus l w)) = set (w_statusListeners w) - {l}"
  "w_statusListeners (off_type t l w) = w_statusListeners w" "w_out (unsubscribeStatus l w) = w_out w" "w_out (off_type t l w) = w_out w"
  "w_status (unsubscribeStatus l w) = w_status w" "w_status (off_type t l w) = w_status w"
  by (simp_all add: typed_def unsubscribeStatus_def off_type_def Let_def split: option.split)

lemma length_set_phase [simp]: "length (ap_requests (set_phase n p s)) = length (ap_requests s)"
  by (simp add: set_phase_def)

lemma set_phase_fields [simp]: "ap_ws (set_phase n p s) = ap_ws s" "ap_nextListener (set_phase n p s) = ap_nextListener s"
    "ap_sequence (set_phase n p s) = ap_sequence s"
  by (simp_all add: set_phase_def)

lemma release_ok:
  assumes "api_listeners_ok s" and "n < length (ap_requests s)"
  shows "api_listeners_ok (connection_ready n s)" and "api_listeners_ok (connection_failed n e s)" and "api_listeners_ok (settle n r s)"
proof -
  note release = listeners_release [OF assms]
  show "api_listeners_ok (connection_ready n s)"
    using assms(1) release [of ConnectionReady] by (cases "rq_phase (ap_requests s ! n)")
      (auto simp: connection_ready_def set_phase_def phase_listeners_def response_listener_def status_listener_def unsubscribe_fields)
  show "api_listeners_ok (connection_failed n e s)"
    using assms(1) release [of "Settled (Rejected e)"] by (cases "rq_phase (ap_requests s ! n)")
      (auto simp: connection_failed_def set_phase_def phase_listeners_def response_listener_def status_listener_def unsubscribe_fields)
  show "api_listeners_ok (settle n r s)"
    using assms(1) release [of "Settled r"] by (cases "rq_phase (ap_requests s ! n)")
      (auto simp: settle_def set_phase_def phase_listeners_def response_listener_def status_listener_def unsubscribe_fields typed_off)
qed

lemma react_request_ok: "api_listeners_ok s \<Longrightarrow> n < length (ap_requests s) \<Longrightarrow> api_listeners_ok (react_request e n s)"
  unfolding react_request_def Let_def using release_ok by (cases e) (auto split: phase.split)

subsection \<open>What a request makes of a call of its listeners\<close>

definition next_request :: "emitted \<Rightarrow> request \<Rightarrow> request" where
  "next_request e q =
     (case (e, rq_phase q) of
        (TypedTo l data msg, AwaitingResponse l1 l2) \<Rightarrow> if l = l1 \<and> rq_matches q data then q\<lparr>rq_phase := Settled (Resolved data)\<rparr> else q
      | (StatusTo l st, AwaitingConnection l1) \<Rightarrow> if l = l1 \<and> st = Connected then q\<lparr>rq_phase := ConnectionReady\<rparr> else q
      | (StatusTo l st, AwaitingResponse l1 l2) \<Rightarrow>
          if l = l2 \<and> status_failed st then q\<lparr>rq_phase := Settled (Rejected (status_error st q))\<rparr> else q
      | _ \<Rightarrow> q)"

lemma react_request_requests:
  "n < length (ap_requests s) \<Longrightarrow> ap_requests (react_request e n s) = (ap_requests s)[n := next_request e (ap_requests s ! n)]"
  by (auto simp: react_request_def next_request_def Let_def settle_def connection_ready_def set_phase_def split: emitted.split phase.split)

lemma react_request_fields:
  "w_out (ap_ws (react_request e n s)) = w_out (ap_ws s)" "w_status (ap_ws (react_request e n s)) = w_status (ap_ws s)"
  "ap_nextListener (react_request e n s) = ap_nextListener s" "ap_sequence (react_request e n s) = ap_sequence s"
  by (auto simp: react_request_def Let_def settle_def connection_ready_def unsubscribe_fields split: emitted.split phase.split)

lemma react_prefix:
  assumes "k \<le> length (ap_requests s)"
  shows "ap_requests (fold (react_request e) [0..<k] s) = map (next_request e) (take k (ap_requests s)) @ drop k (ap_requests s)"
  using assms
proof (induction k)
  case (Suc k)
  let ?s = "fold (react_request e) [0..<k] s"
  have qs: "ap_requests ?s = map (next_request e) (take k (ap_requests s)) @ drop k (ap_requests s)" using Suc by simp
  then have "k < length (ap_requests ?s)" "ap_requests ?s ! k = ap_requests s ! k" using Suc.prems by (simp_all add: nth_append)
  then have "ap_requests (react_request e k ?s) = (ap_requests ?s)[k := next_request e (ap_requests s ! k)]"
    by (simp add: react_request_requests)
  then show ?case using Suc.prems by (simp add: qs list_update_append take_Suc_conv_app_nth flip: Cons_nth_drop_Suc [of k "ap_requests s"])
qed simp

lemma react_requests: "ap_requests (react e s) = map (next_request e) (ap_requests s)"
  by (simp add: react_def react_prefix)

lemma react_ok: "api_listeners_ok s \<Longrightarrow> api_listeners_ok (react e s)"
proof -
  assume ok: "api_listeners_ok s"
  have "k \<le> length (ap_requests s) \<Longrightarrow> api_listeners_ok (fold (react_request e) [0..<k] s)" for k
    by (induction k) (simp_all add: ok react_request_ok react_prefix)
  then show ?thesis by (simp add: react_def)
qed

lemma react_fields:
  "w_out (ap_ws (react e s)) = w_out (ap_ws s)" "w_status (ap_ws (react e s)) = w_status (ap_ws s)"
  "ap_nextListener (react e s) = ap_nextListener s" "ap_sequence (react e s) = ap_sequence s"
proof -
  have "w_out (ap_ws (fold (react_request e) ns s)) = w_out (ap_ws s) \<and> w_status (ap_ws (fold (react_request e) ns s)) = w_status (ap_ws s) \<and>
      ap_nextListener (fold (react_request e) ns s) = ap_nextListener s \<and> ap_sequence (fold (react_request e) ns s) = ap_sequence s" for ns
    by (induction ns arbitrary: s) (simp_all add: react_request_fields)
  then show "w_out (ap_ws (react e s)) = w_out (ap_ws s)" "w_status (ap_ws (react e s)) = w_status (ap_ws s)"
    "ap_nextListener (react e s) = ap_nextListener s" "ap_sequence (react e s) = ap_sequence s"
    by (simp_all add: react_def)
qed

subsection \<open>The invariant of the requests\<close>

definition was_sent :: "request \<Rightarrow> ws \<Rightarrow> bool" where
  "was_sent q w \<longleftrightarrow> (\<exists>k. SentText k (json_stringify (message (rq_clientType q) (rq_data q))) \<in> set (w_out w))"

definition sent_ok :: "ws \<Rightarrow> request \<Rightarrow> bool" where
  "sent_ok w q \<longleftrightarrow>
     (case rq_phase q of
        AwaitingResponse l1 l2 \<Rightarrow> was_sent q w
      | Settled (Resolved d) \<Rightarrow> was_sent q w \<and> rq_matches q d
      | _ \<Rightarrow> True)"

definition status_ok :: "ws \<Rightarrow> request \<Rightarrow> bool" where
  "status_ok w q \<longleftrightarrow> (case rq_phase q of AwaitingResponse l1 l2 \<Rightarrow> \<not> status_failed (w_status w) | _ \<Rightarrow> True)"

definition api_ok :: "(string \<Rightarrow> bool) \<Rightarrow> api \<Rightarrow> bool" where
  "api_ok valid s \<longleftrightarrow> ws_reachable valid (ap_ws s) \<and> api_listeners_ok s \<and>
     (\<forall>q\<in>set (ap_requests s). sent_ok (ap_ws s) q \<and> status_ok (ap_ws s) q)"

lemma next_request_fields [simp]:
  "rq_clientType (next_request e q) = rq_clientType q" "rq_data (next_request e q) = rq_data q"
  "rq_responseType (next_request e q) = rq_responseType q" "rq_matches (next_request e q) = rq_matches q"
  by (auto simp: next_request_def split: emitted.split phase.split)

lemma sent_ok_next: "sent_ok w q \<Longrightarrow> sent_ok w (next_request e q)"
  by (auto simp: sent_ok_def next_request_def was_sent_def split: emitted.splits phase.splits)

lemma sent_ok_run: "sent_ok w q \<Longrightarrow> sent_ok w (fold next_request es q)"
  by (induction es arbitrary: q) (simp_all add: sent_ok_next)

lemma sent_ok_more: "sent_ok w q \<Longrightarrow> extends_out w w' \<Longrightarrow> sent_ok w' q"
  by (force simp: sent_ok_def was_sent_def extends_out_def split: phase.splits outcome.splits)

lemma sent_ok_same: "w_out w' = w_out w \<Longrightarrow> sent_ok w' q = sent_ok w q"
  by (simp add: sent_ok_def was_sent_def split: phase.split outcome.split)

lemma status_ok_same: "w_status w' = w_status w \<Longrightarrow> status_ok w' q = status_ok w q"
  by (simp add: status_ok_def split: phase.split)

text \<open>A request that still waits after some calls of its listeners waited before, and was told of no failure.\<close>

lemma still_waiting:
  "rq_phase (fold next_request es q) = AwaitingResponse l1 l2 \<Longrightarrow>
     rq_phase q = AwaitingResponse l1 l2 \<and> (\<forall>st. StatusTo l2 st \<in> set es \<longrightarrow> \<not> status_failed st)"
proof (induction es arbitrary: q)
  case (Cons e es)
  from Cons.IH [of "next_request e q"] Cons.prems
  have "rq_phase (next_request e q) = AwaitingResponse l1 l2" "\<forall>st. StatusTo l2 st \<in> set es \<longrightarrow> \<not> status_failed st" by simp_all
  then show ?case by (cases e; cases "rq_phase q") (auto simp: next_request_def split: if_splits)
qed simp

lemma last_status_append:
  "last_status_to l (out @ es) = Some st \<Longrightarrow> StatusTo l st \<in> set es \<or> last_status_to l out = Some st"
proof (induction es rule: rev_induct)
  case (snoc e es)
  then show ?case by (cases e) (auto simp: last_status_to_def split: if_splits simp flip: append_assoc)
qed simp

lemma perform_requests:
  "ap_requests (perform w s) = map (fold next_request (drop (length (w_out (ap_ws s))) (w_out w))) (ap_requests s)"
proof -
  have "ap_requests (fold react es t) = map (fold next_request es) (ap_requests t)" for es t
    by (induction es arbitrary: t) (simp_all add: react_requests comp_def)
  then show ?thesis by (simp add: perform_def)
qed

lemma perform_fields:
  "w_out (ap_ws (perform w s)) = w_out w" "w_status (ap_ws (perform w s)) = w_status w"
  "ap_nextListener (perform w s) = ap_nextListener s" "ap_sequence (perform w s) = ap_sequence s"
proof -
  have "w_out (ap_ws (fold react es t)) = w_out (ap_ws t) \<and> w_status (ap_ws (fold react es t)) = w_status (ap_ws t) \<and>
      ap_nextListener (fold react es t) = ap_nextListener t \<and> ap_sequence (fold react es t) = ap_sequence t" for es t
    by (induction es arbitrary: t) (simp_all add: react_fields)
  then show "w_out (ap_ws (perform w s)) = w_out w" "w_status (ap_ws (perform w s)) = w_status w"
    "ap_nextListener (perform w s) = ap_nextListener s" "ap_sequence (perform w s) = ap_sequence s"
    by (simp_all add: perform_def)
qed

lemma perform_listeners:
  assumes "api_listeners_ok s" and "extends_out (ap_ws s) w"
  shows "api_listeners_ok (perform w s)"
proof -
  have "typed t w = typed t (ap_ws s)" for t using assms(2) by (simp add: extends_out_def typed_def)
  then have start: "api_listeners_ok (s\<lparr>ap_ws := w\<rparr>)" using assms by (simp add: listeners_ok_def extends_out_def)
  have "api_listeners_ok (fold react es t)" if "api_listeners_ok t" for es t
    using that by (induction es arbitrary: t) (simp_all add: react_ok)
  then show ?thesis using start by (simp add: perform_def)
qed

lemma unsubscribe_reachable:
  assumes "ws_reachable valid w"
  shows "ws_reachable valid (unsubscribeStatus l w)" and "ws_reachable valid (off_type t l w)"
    and "ws_reachable valid (subscribeStatus l w)" and "ws_reachable valid (on_type t l w)"
  using ws_next [OF assms, of "CallUnsubscribeStatus l"] ws_next [OF assms, of "CallOff t l"]
    ws_next [OF assms, of "CallSubscribeStatus l"] ws_next [OF assms, of "CallOn t l"]
  by (simp_all add: ws_enabled_def ws_step_def)

lemma release_reachable:
  assumes "ws_reachable valid (ap_ws s)"
  shows "ws_reachable valid (ap_ws (connection_ready n s))" and "ws_reachable valid (ap_ws (connection_failed n e s))"
    and "ws_reachable valid (ap_ws (settle n r s))"
  using assms by (auto simp: connection_ready_def connection_failed_def settle_def intro: unsubscribe_reachable split: phase.split)

lemma perform_reachable:
  assumes "ws_reachable valid w"
  shows "ws_reachable valid (ap_ws (perform w s))"
proof -
  have one: "ws_reachable valid (ap_ws (react_request e n t))" if "ws_reachable valid (ap_ws t)" for e n t
    using that release_reachable [OF that] by (auto simp: react_request_def Let_def split: emitted.split phase.split)
  have all: "ws_reachable valid (ap_ws (fold (react_request e) ns t))" if "ws_reachable valid (ap_ws t)" for e ns t
    using that by (induction ns arbitrary: t) (simp_all add: one)
  have "ws_reachable valid (ap_ws (fold react es t))" if "ws_reachable valid (ap_ws t)" for es t
    using that by (induction es arbitrary: t) (simp_all add: react_def all)
  then show ?thesis using assms by (simp add: perform_def)
qed

lemma perform_status:
  assumes old: "ws_reachable valid (ap_ws s)" and new: "ws_reachable valid w" and more: "extends_out (ap_ws s) w"
    and listeners: "api_listeners_ok s" and status: "\<forall>q\<in>set (ap_requests s). status_ok (ap_ws s) q"
  shows "\<forall>q\<in>set (ap_requests (perform w s)). status_ok w q"
proof
  fix q' assume "q' \<in> set (ap_requests (perform w s))"
  then obtain n where n: "n < length (ap_requests s)"
      and q': "q' = fold next_request (drop (length (w_out (ap_ws s))) (w_out w)) (ap_requests s ! n)"
    unfolding perform_requests by (auto simp: in_set_conv_nth)
  show "status_ok w q'"
  proof (cases "rq_phase q'")
    case (AwaitingResponse l1 l2)
    obtain es where es: "w_out w = w_out (ap_ws s) @ es" using more by (auto simp: extends_out_def)
    note before = still_waiting [OF AwaitingResponse [unfolded q']]
    have l2: "l2 \<in> set (w_statusListeners (ap_ws s))" "l2 \<in> set (w_statusListeners w)"
      using listeners n before more unfolding listeners_ok_def extends_out_def by (auto simp: status_listener_def)
    have told: "last_status_to l2 (w_out (ap_ws s)) = Some (w_status (ap_ws s))" "last_status_to l2 (w_out w) = Some (w_status w)"
      using ws_reachable_informed [OF old] ws_reachable_informed [OF new] l2 by (simp_all add: informed_def)
    have "\<not> status_failed (w_status (ap_ws s))"
      using bspec [OF status nth_mem [OF n]] before by (simp add: status_ok_def)
    then have "\<not> status_failed (w_status w)" using last_status_append told before unfolding es by fastforce
    then show ?thesis by (simp add: status_ok_def AwaitingResponse)
  qed (simp_all add: status_ok_def)
qed

lemma perform_ok:
  assumes "api_ok valid s" and "ws_reachable valid w" and "extends_out (ap_ws s) w"
  shows "api_ok valid (perform w s)"
proof -
  have "sent_ok w q" if "q \<in> set (ap_requests (perform w s))" for q
    using that assms(1,3) by (auto simp: perform_requests api_ok_def intro!: sent_ok_run intro: sent_ok_more)
  then show ?thesis
    using assms perform_status [OF _ assms(2,3)] perform_reachable [OF assms(2)] perform_listeners [OF _ assms(3)]
    by (simp add: api_ok_def sent_ok_same [OF perform_fields(1)] status_ok_same [OF perform_fields(2)])
qed

subsection \<open>Every step keeps the invariant\<close>

lemma listeners_fresh: "listeners_ok w qs next \<Longrightarrow> n < length qs \<Longrightarrow> l \<in> phase_listeners (rq_phase (qs ! n)) \<Longrightarrow> l < next"
  by (simp add: listeners_ok_def)

lemma listeners_grow:
  assumes ok: "listeners_ok w qs next" and len: "length qs' = length qs"
    and same: "\<And>m. m < length qs \<Longrightarrow> response_listener (rq_phase (qs' ! m)) = response_listener (rq_phase (qs ! m)) \<and>
      status_listener (rq_phase (qs' ! m)) = status_listener (rq_phase (qs ! m)) \<and> rq_responseType (qs' ! m) = rq_responseType (qs ! m)"
    and "\<And>t. typed t w' = typed t w" and "set (w_statusListeners w) \<subseteq> set (w_statusListeners w')" and "next \<le> next'"
  shows "listeners_ok w' qs' next'"
proof -
  have pl: "phase_listeners (rq_phase (qs' ! m)) = phase_listeners (rq_phase (qs ! m))" if "m < length qs" for m
    using same [OF that] by (simp add: phase_listeners_def)
  have "\<forall>m<length qs'. \<forall>l\<in>phase_listeners (rq_phase (qs' ! m)). l < next'"
    using listeners_fresh [OF ok] \<open>next \<le> next'\<close> by (auto simp: len pl intro: order_less_le_trans)
  moreover have "\<forall>m<length qs'. \<forall>n<length qs'. m \<noteq> n \<longrightarrow> phase_listeners (rq_phase (qs' ! m)) \<inter> phase_listeners (rq_phase (qs' ! n)) = {}"
    using ok unfolding listeners_ok_def by (simp add: len pl)
  moreover have "\<forall>m<length qs'. response_listener (rq_phase (qs' ! m)) \<inter> status_listener (rq_phase (qs' ! m)) = {}"
    using ok unfolding listeners_ok_def by (simp add: len same)
  moreover have "\<forall>m<length qs'. status_listener (rq_phase (qs' ! m)) \<subseteq> set (w_statusListeners w')"
    using listeners_status [OF ok] assms(5) by (simp add: len same order_trans [OF _ assms(5)])
  moreover have "\<forall>t l. l \<in> typed t w' \<longleftrightarrow> (\<exists>m<length qs'. rq_responseType (qs' ! m) = t \<and> l \<in> response_listener (rq_phase (qs' ! m)))"
    by (simp add: assms(4) listeners_typed [OF ok] len same cong: conj_cong)
  ultimately show ?thesis by (simp add: listeners_ok_def)
qed

lemma typed_fresh: "listeners_ok w qs next \<Longrightarrow> next \<le> l \<Longrightarrow> l \<notin> typed t w"
proof
  assume ok: "listeners_ok w qs next" and l: "next \<le> l" and "l \<in> typed t w"
  then obtain n where "n < length qs" "l \<in> response_listener (rq_phase (qs ! n))" using listeners_typed [OF ok] by auto
  then have "l < next" using listeners_fresh [OF ok] by (auto simp: phase_listeners_def)
  then show False using l by simp
qed

lemma listeners_enter:
  assumes ok: "listeners_ok w qs next" and n: "n < length qs" and ready: "rq_phase (qs ! n) = ConnectionReady"
    and typed: "\<And>t. typed t w' = (if t = rq_responseType (qs ! n) then insert next (typed t w) else typed t w)"
    and status: "set (w_statusListeners w') = insert (Suc next) (set (w_statusListeners w))"
  shows "listeners_ok w' (qs[n := (qs ! n)\<lparr>rq_phase := AwaitingResponse next (Suc next)\<rparr>]) (Suc (Suc next))"
proof -
  let ?p = "AwaitingResponse next (Suc next)"
  let ?qs = "qs[n := (qs ! n)\<lparr>rq_phase := ?p\<rparr>]"
  have p: "response_listener ?p = {next}" "status_listener ?p = {Suc next}" "phase_listeners ?p = {next, Suc next}"
      "response_listener ConnectionReady = {}" "status_listener ConnectionReady = {}"
    by (auto simp: phase_listeners_def response_listener_def status_listener_def)
  have same: "rq_phase (?qs ! m) = (if m = n then ?p else rq_phase (qs ! m))" "rq_responseType (?qs ! m) = rq_responseType (qs ! m)" if "m < length qs" for m
    using that n by (simp_all add: nth_list_update)
  have fresh: "next \<notin> phase_listeners (rq_phase (qs ! m))" "Suc next \<notin> phase_listeners (rq_phase (qs ! m))"
    if "m < length qs" for m using listeners_fresh [OF ok that] by fastforce+
  have "l \<in> typed t w' \<longleftrightarrow> (\<exists>m<length qs. rq_responseType (?qs ! m) = t \<and> l \<in> response_listener (rq_phase (?qs ! m)))" for t l
  proof -
    have "l \<in> typed t w \<longleftrightarrow> (\<exists>m<length qs. rq_responseType (qs ! m) = t \<and> l \<in> response_listener (rq_phase (qs ! m)))"
      using ok unfolding listeners_ok_def by blast
    moreover have "(\<exists>m<length qs. rq_responseType (?qs ! m) = t \<and> l \<in> response_listener (rq_phase (?qs ! m))) \<longleftrightarrow>
        (\<exists>m<length qs. rq_responseType (qs ! m) = t \<and> (if m = n then l = next else l \<in> response_listener (rq_phase (qs ! m))))"
      by (rule ex_cong1) (auto simp: same p)
    ultimately show ?thesis using n ready p(4) unfolding typed by (auto split: if_splits)
  qed
  moreover have "\<forall>m<length qs. \<forall>l\<in>phase_listeners (rq_phase (?qs ! m)). l < Suc (Suc next)"
    using less_SucI [OF less_SucI [OF listeners_fresh [OF ok]]] by (auto simp: same p split: if_splits)
  moreover have "\<forall>m<length qs. \<forall>k<length qs. m \<noteq> k \<longrightarrow> phase_listeners (rq_phase (?qs ! m)) \<inter> phase_listeners (rq_phase (?qs ! k)) = {}"
    using ok fresh unfolding listeners_ok_def by (simp add: same p)
  moreover have "\<forall>m<length qs. response_listener (rq_phase (?qs ! m)) \<inter> status_listener (rq_phase (?qs ! m)) = {}"
    using ok unfolding listeners_ok_def by (simp add: same p)
  moreover have "\<forall>m<length qs. status_listener (rq_phase (?qs ! m)) \<subseteq> set (w_statusListeners w')"
    using ok status unfolding listeners_ok_def by (auto simp: same p)
  ultimately show ?thesis by (simp add: listeners_ok_def)
qed

lemma listeners_new:
  assumes ok: "listeners_ok w qs next" and q: "response_listener (rq_phase q) = {}" "status_listener (rq_phase q) \<subseteq> {next}"
    and typed: "\<And>t. typed t w' = typed t w" and status: "set (w_statusListeners w') = set (w_statusListeners w) \<union> status_listener (rq_phase q)"
    and next': "status_listener (rq_phase q) = {} \<Longrightarrow> next \<le> next'" "status_listener (rq_phase q) \<noteq> {} \<Longrightarrow> next < next'"
  shows "listeners_ok w' (qs @ [q]) next'"
proof -
  have fresh: "phase_listeners (rq_phase (qs ! m)) \<inter> phase_listeners (rq_phase q) = {}" if "m < length qs" for m
    using listeners_fresh [OF ok that] q by (fastforce simp: phase_listeners_def)
  have lt: "l < next'" if "l \<in> status_listener (rq_phase q)" for l using that q(2) next'(2) by auto
  have le: "next \<le> next'" using next' by (cases "status_listener (rq_phase q) = {}") auto
  have "\<forall>m<length (qs @ [q]). \<forall>l\<in>phase_listeners (rq_phase ((qs @ [q]) ! m)). l < next'"
    using order_less_le_trans [OF listeners_fresh [OF ok] le] lt q(1) by (auto simp: nth_append less_Suc_eq phase_listeners_def)
  moreover have "\<forall>m<length (qs @ [q]). \<forall>k<length (qs @ [q]). m \<noteq> k \<longrightarrow>
      phase_listeners (rq_phase ((qs @ [q]) ! m)) \<inter> phase_listeners (rq_phase ((qs @ [q]) ! k)) = {}"
    using ok fresh unfolding listeners_ok_def by (auto simp: nth_append less_Suc_eq Int_commute)
  moreover have "\<forall>m<length (qs @ [q]). response_listener (rq_phase ((qs @ [q]) ! m)) \<inter> status_listener (rq_phase ((qs @ [q]) ! m)) = {}"
    using ok q unfolding listeners_ok_def by (simp add: nth_append less_Suc_eq)
  moreover have "\<forall>m<length (qs @ [q]). status_listener (rq_phase ((qs @ [q]) ! m)) \<subseteq> set (w_statusListeners w')"
    using ok status unfolding listeners_ok_def by (auto simp: nth_append less_Suc_eq)
  moreover have "l \<in> typed t w' \<longleftrightarrow> (\<exists>m<length (qs @ [q]). rq_responseType ((qs @ [q]) ! m) = t \<and> l \<in> response_listener (rq_phase ((qs @ [q]) ! m)))" for t l
  proof -
    have "l \<in> typed t w \<longleftrightarrow> (\<exists>m<length qs. rq_responseType (qs ! m) = t \<and> l \<in> response_listener (rq_phase (qs ! m)))"
      using ok unfolding listeners_ok_def by blast
    then show ?thesis using q by (auto simp: typed nth_append less_Suc_eq)
  qed
  ultimately show ?thesis by (simp add: listeners_ok_def)
qed

lemma subscribe_fields:
  "typed t (subscribeStatus l w) = typed t w" "set (w_statusListeners (subscribeStatus l w)) = insert l (set (w_statusListeners w))"
  "w_statusListeners (on_type t' l w) = w_statusListeners w" "w_status (subscribeStatus l w) = w_status w" "w_status (on_type t' l w) = w_status w"
  "w_out (on_type t' l w) = w_out w" "w_out (subscribeStatus l w) = w_out w @ [StatusTo l (w_status w)]"
  by (simp_all add: typed_def subscribeStatus_def on_type_def emit_def Let_def split: option.split)

lemma sent_ok_out: "sent_ok w q \<Longrightarrow> w_out w' = w_out w @ es \<Longrightarrow> sent_ok w' q"
  by (force simp: sent_ok_def was_sent_def split: phase.splits outcome.splits)

lemma start_ok:
  assumes "api_ok valid s"
  shows "api_ok valid (start_request ct d rt m s)"
proof -
  have ws: "ws_reachable valid (ap_ws s)" and ls: "api_listeners_ok s" using assms by (simp_all add: api_ok_def)
  show ?thesis
  proof (cases "isConnected (ap_ws s)")
    case True
    let ?q = "\<lparr>rq_clientType = ct, rq_data = d, rq_responseType = rt, rq_matches = m, rq_phase = ConnectionReady\<rparr>"
    have "listeners_ok (ap_ws s) (ap_requests s @ [?q]) (ap_nextListener s)"
      by (rule listeners_new [OF ls]) (simp_all add: response_listener_def status_listener_def)
    then show ?thesis using assms True by (auto simp: start_request_def api_ok_def sent_ok_def status_ok_def)
  next
    case False
    let ?l = "ap_nextListener s"
    let ?q = "\<lparr>rq_clientType = ct, rq_data = d, rq_responseType = rt, rq_matches = m, rq_phase = AwaitingConnection ?l\<rparr>"
    have "listeners_ok (subscribeStatus ?l (ap_ws s)) (ap_requests s @ [?q]) (?l + 1)"
      by (rule listeners_new [OF ls]) (simp_all add: response_listener_def status_listener_def subscribe_fields)
    moreover have "sent_ok (subscribeStatus ?l (ap_ws s)) q \<and> status_ok (subscribeStatus ?l (ap_ws s)) q" if "q \<in> set (ap_requests s)" for q
      using that assms sent_ok_out [OF _ subscribe_fields(7)] by (simp add: api_ok_def status_ok_same [OF subscribe_fields(4)])
    moreover have "sent_ok (subscribeStatus ?l (ap_ws s)) ?q \<and> status_ok (subscribeStatus ?l (ap_ws s)) ?q"
      by (simp add: sent_ok_def status_ok_def)
    ultimately show ?thesis using False unsubscribe_reachable(3) [OF ws]
      by (auto simp: start_request_def api_ok_def Let_def)
  qed
qed

lemma settled_answers: "sent_ok w (q\<lparr>rq_phase := ConnectionReady\<rparr>)" "status_ok w (q\<lparr>rq_phase := ConnectionReady\<rparr>)"
    "sent_ok w (q\<lparr>rq_phase := Settled (Rejected e)\<rparr>)" "status_ok w (q\<lparr>rq_phase := Settled r\<rparr>)"
  by (simp_all add: sent_ok_def status_ok_def)

lemma api_ok_update:
  assumes ok: "api_ok valid s" and "ws_reachable valid (ap_ws t)" and "api_listeners_ok t" and qs: "ap_requests t = (ap_requests s)[n := x]"
    and out: "w_out (ap_ws t) = w_out (ap_ws s)" and status: "w_status (ap_ws t) = w_status (ap_ws s)"
    and "sent_ok (ap_ws t) x" and "status_ok (ap_ws t) x"
  shows "api_ok valid t"
proof -
  have "sent_ok (ap_ws t) q \<and> status_ok (ap_ws t) q" if "q \<in> set (ap_requests t)" for q
    using that ok assms(7,8) set_update_subset_insert [of "ap_requests s" n x] unfolding qs
    by (auto simp: api_ok_def sent_ok_same [OF out] status_ok_same [OF status])
  then show ?thesis using assms(2,3) by (simp add: api_ok_def)
qed

lemma release_api_ok:
  assumes "api_ok valid s" and "n < length (ap_requests s)"
  shows "api_ok valid (connection_ready n s)" and "api_ok valid (connection_failed n e s)" and "api_ok valid (settle n (Rejected e) s)"
proof -
  have ws: "ws_reachable valid (ap_ws s)" and ls: "api_listeners_ok s"
    using assms(1) by (simp_all add: api_ok_def)
  let ?q = "ap_requests s ! n"
  note parts = release_ok [OF ls assms(2)] release_reachable [OF ws]
  show "api_ok valid (connection_ready n s)"
  proof (cases "rq_phase ?q")
    case (AwaitingConnection l)
    then show ?thesis
      by (intro api_ok_update [OF assms(1) parts(4) parts(1), where x = "?q\<lparr>rq_phase := ConnectionReady\<rparr>" and n = n])
        (simp_all add: connection_ready_def set_phase_def unsubscribe_fields settled_answers)
  qed (use assms(1) in \<open>simp_all add: connection_ready_def\<close>)
  show "api_ok valid (connection_failed n e s)"
  proof (cases "rq_phase ?q")
    case (AwaitingConnection l)
    then show ?thesis
      by (intro api_ok_update [OF assms(1) parts(5) parts(2), where x = "?q\<lparr>rq_phase := Settled (Rejected e)\<rparr>" and n = n])
        (simp_all add: connection_failed_def set_phase_def unsubscribe_fields settled_answers)
  qed (use assms(1) in \<open>simp_all add: connection_failed_def\<close>)
  show "api_ok valid (settle n (Rejected e) s)"
  proof (cases "rq_phase ?q")
    case (AwaitingResponse l1 l2)
    then show ?thesis
      by (intro api_ok_update [OF assms(1) parts(6) parts(3), where x = "?q\<lparr>rq_phase := Settled (Rejected e)\<rparr>" and n = n])
        (simp_all add: settle_def set_phase_def unsubscribe_fields settled_answers)
  qed (use assms(1) in \<open>simp_all add: settle_def\<close>)
qed

text \<open>A message that cannot be sent ends in status reports only.\<close>

definition untyped :: "emitted list \<Rightarrow> bool" where
  "untyped es \<longleftrightarrow> (\<forall>l data msg. TypedTo l data msg \<notin> set es)"

lemma lost_out: "\<exists>es. w_out (handleConnectionLost k w) = w_out w @ es \<and> untyped es"
proof (cases "w_socket w = Some k")
  case True
  let ?w1 = "close_socket k (detach k ((stopHeartbeat w)\<lparr>w_socket := None\<rparr>))"
  have "w_out ?w1 = w_out w" by simp
  then have "\<exists>es. w_out (setStatus st ?w1) = w_out w @ es \<and> untyped es" for st
    by (auto simp: setStatus_def emit_def untyped_def)
  then show ?thesis using True by (simp add: handleConnectionLost_def Let_def)
qed (simp add: handleConnectionLost_def untyped_def)

lemma send_out:
  "\<exists>es. w_out (fst (ws_send m ok w)) = w_out w @ es \<and> untyped es \<and> (snd (ws_send m ok w) \<longrightarrow> (\<exists>k. SentText k (json_stringify m) \<in> set es))"
proof (cases "socket_open w")
  case None
  have "\<exists>es. w_out (setStatus Reconnecting w) = w_out w @ es \<and> untyped es" by (auto simp: setStatus_def emit_def untyped_def)
  then show ?thesis using lost_out None by (auto simp: ws_send_def untyped_def split: option.split)
next
  case (Some k)
  then show ?thesis using lost_out by (auto simp: ws_send_def emit_def untyped_def)
qed

lemma untyped_run:
  "untyped es \<Longrightarrow> rq_phase q = AwaitingResponse l1 l2 \<Longrightarrow>
     rq_phase (fold next_request es q) = AwaitingResponse l1 l2 \<or> (\<exists>e. rq_phase (fold next_request es q) = Settled (Rejected e))"
proof (induction es rule: rev_induct)
  case (snoc e es)
  then have "untyped es" "\<And>l d m. e \<noteq> TypedTo l d m" by (auto simp: untyped_def)
  with snoc show ?case by (cases e) (auto simp: next_request_def)
qed simp

lemma send_reachable: "ws_reachable valid w \<Longrightarrow> ws_reachable valid (fst (ws_send m ok w))"
  using ws_next [of valid w "CallSend m ok"] by (simp add: ws_enabled_def ws_step_def)

lemma settle_unsent:
  assumes ws: "ws_reachable valid (ap_ws t)" and ls: "api_listeners_ok t" and n: "n < length (ap_requests t)"
    and status: "\<forall>q\<in>set (ap_requests t). status_ok (ap_ws t) q"
    and sent: "\<And>m. m < length (ap_requests t) \<Longrightarrow> m \<noteq> n \<Longrightarrow> sent_ok (ap_ws t) (ap_requests t ! m)"
    and p: "(\<exists>l1 l2. rq_phase (ap_requests t ! n) = AwaitingResponse l1 l2) \<or> (\<exists>e. rq_phase (ap_requests t ! n) = Settled (Rejected e))"
  shows "api_ok valid (settle n (Rejected e) t)"
proof -
  let ?t = "settle n (Rejected e) t"
  have out: "w_out (ap_ws ?t) = w_out (ap_ws t)" and st: "w_status (ap_ws ?t) = w_status (ap_ws t)"
    by (simp_all add: settle_def unsubscribe_fields split: phase.split)
  have qs: "ap_requests ?t = (ap_requests t)[n := ap_requests ?t ! n]" and en: "\<exists>e. rq_phase (ap_requests ?t ! n) = Settled (Rejected e)"
    using p n by (auto simp: settle_def set_phase_def)
  have "sent_ok (ap_ws t) q \<and> status_ok (ap_ws t) q" if "q \<in> set (ap_requests ?t)" for q
  proof -
    obtain m where m: "m < length (ap_requests t)" "q = ap_requests ?t ! m" using \<open>q \<in> _\<close> qs by (metis in_set_conv_nth length_list_update)
    show ?thesis
    proof (cases "m = n")
      case True
      then show ?thesis using en m(2) by (auto simp: sent_ok_def status_ok_def)
    next
      case False
      then have "q = ap_requests t ! m" using m qs by (metis nth_list_update_neq)
      then show ?thesis using sent [OF m(1) False] status m(1) by simp
    qed
  qed
  then show ?thesis using release_reachable(3) [OF ws] release_ok(3) [OF ls n]
    by (simp add: api_ok_def sent_ok_same [OF out] status_ok_same [OF st])
qed

definition entered :: "nat \<Rightarrow> api \<Rightarrow> api" where
  "entered n s =
     (let l1 = ap_nextListener s; q = ap_requests s ! n
      in set_phase n (AwaitingResponse l1 (Suc l1))
           (s\<lparr>ap_nextListener := Suc (Suc l1), ap_ws := subscribeStatus (Suc l1) (on_type (rq_responseType q) l1 (ap_ws s))\<rparr>))"

lemma continue_cases:
  assumes "rq_phase (ap_requests s ! n) = ConnectionReady" and "n < length (ap_requests s)"
  shows "continue_request n ok s =
    (let q = ap_requests s ! n; l1 = ap_nextListener s; m = message (rq_clientType q) (rq_data q);
         w1 = subscribeStatus (Suc l1) (on_type (rq_responseType q) l1 (ap_ws s)) in
     if status_failed (w_status (ap_ws s))
     then set_phase n (Settled (Rejected (status_error (w_status (ap_ws s)) q)))
        (s\<lparr>ap_nextListener := Suc (Suc l1), ap_ws := off_type (rq_responseType q) l1 w1\<rparr>)
     else if \<not> isConnected w1 then settle n (Rejected ''WebSocket is not connected.'') (entered n s)
     else if snd (ws_send m ok w1) then perform (fst (ws_send m ok w1)) (entered n s)
     else settle n (Rejected ''WebSocket is not connected.'') (perform (fst (ws_send m ok w1)) (entered n s)))"
  using assms by (simp add: continue_request_def entered_def Let_def api_send_def split_beta set_phase_def)

lemma continue_ok:
  assumes ok: "api_ok valid s" and n: "n < length (ap_requests s)"
  shows "api_ok valid (continue_request n b s)"
proof (cases "rq_phase (ap_requests s ! n) = ConnectionReady")
  case True
  let ?q = "ap_requests s ! n" and ?l = "ap_nextListener s"
  let ?w1 = "subscribeStatus (Suc ?l) (on_type (rq_responseType ?q) ?l (ap_ws s))"
  let ?send = "ws_send (message (rq_clientType ?q) (rq_data ?q)) b ?w1"
  have ws: "ws_reachable valid (ap_ws s)" and ls: "api_listeners_ok s"
    and qs: "\<And>q. q \<in> set (ap_requests s) \<Longrightarrow> sent_ok (ap_ws s) q \<and> status_ok (ap_ws s) q"
    using ok by (simp_all add: api_ok_def)
  have w1: "ws_reachable valid ?w1" using ws by (intro unsubscribe_reachable)
  have w1_out: "w_out ?w1 = w_out (ap_ws s) @ [StatusTo (Suc ?l) (w_status (ap_ws s))]" and w1_status: "w_status ?w1 = w_status (ap_ws s)"
    by (simp_all add: subscribe_fields)
  show ?thesis
  proof (cases "status_failed (w_status (ap_ws s))")
    case failed: True
    let ?w2 = "off_type (rq_responseType ?q) ?l ?w1"
    let ?q2 = "?q\<lparr>rq_phase := Settled (Rejected (status_error (w_status (ap_ws s)) ?q))\<rparr>"
    have "listeners_ok ?w2 ((ap_requests s)[n := ?q2]) (Suc (Suc ?l))"
    proof (rule listeners_grow [OF ls])
      show "typed t ?w2 = typed t (ap_ws s)" for t
        using typed_fresh [OF ls order_refl, of "rq_responseType ?q"] by (auto simp: typed_off subscribe_fields typed_on)
    qed (use True n in \<open>auto simp: nth_list_update response_listener_def status_listener_def subscribe_fields unsubscribe_fields\<close>)
    moreover have "sent_ok ?w2 q \<and> status_ok ?w2 q" if "q \<in> set ((ap_requests s)[n := ?q2])" for q
    proof (cases "q = ?q2")
      case True
      then show ?thesis by (simp add: settled_answers)
    next
      case False
      then have q: "q \<in> set (ap_requests s)" using that set_update_subset_insert [of "ap_requests s" n ?q2] by auto
      have "w_out ?w2 = w_out (ap_ws s) @ [StatusTo (Suc ?l) (w_status (ap_ws s))]" and st: "w_status ?w2 = w_status (ap_ws s)"
        by (simp_all add: unsubscribe_fields subscribe_fields)
      then show ?thesis using qs [OF q] sent_ok_out [of "ap_ws s" q ?w2] by (simp add: status_ok_same [OF st])
    qed
    ultimately show ?thesis using failed unsubscribe_reachable(2) [OF w1] True n
      by (simp add: continue_cases api_ok_def Let_def set_phase_def)
  next
    case up: False
    let ?s2 = "entered n s"
    have s2: "ap_ws ?s2 = ?w1" "ap_requests ?s2 = (ap_requests s)[n := ?q\<lparr>rq_phase := AwaitingResponse ?l (Suc ?l)\<rparr>]"
        "ap_nextListener ?s2 = Suc (Suc ?l)"
      by (simp_all add: entered_def Let_def set_phase_def)
    have ls2: "api_listeners_ok ?s2"
      unfolding s2 by (rule listeners_enter [OF ls n True]) (simp_all add: subscribe_fields typed_on)
    have others: "sent_ok w q" if "q \<in> set (ap_requests s)" "w_out w = w_out ?w1 @ es" for q w es
      using sent_ok_out [of "ap_ws s" q w] qs [OF that(1)] that(2) w1_out by simp
    have status2: "\<forall>q\<in>set (ap_requests ?s2). status_ok ?w1 q"
      using qs up status_ok_same [OF w1_status] set_update_subset_insert [of "ap_requests s" n "?q\<lparr>rq_phase := AwaitingResponse ?l (Suc ?l)\<rparr>"]
      unfolding s2 by (auto simp: status_ok_def w1_status)
    have m: "m < length (ap_requests ?s2) \<Longrightarrow> m \<noteq> n \<Longrightarrow> ap_requests ?s2 ! m \<in> set (ap_requests s)" for m by (simp add: s2)
    have en: "ap_requests ?s2 ! n = ?q\<lparr>rq_phase := AwaitingResponse ?l (Suc ?l)\<rparr>" "n < length (ap_requests ?s2)" using n by (simp_all add: s2)
    obtain es where es: "w_out (fst ?send) = w_out ?w1 @ es" "untyped es"
        "snd ?send \<longrightarrow> (\<exists>k. SentText k (json_stringify (message (rq_clientType ?q) (rq_data ?q))) \<in> set es)"
      using send_out by blast
    let ?t = "perform (fst ?send) ?s2"
    have t1: "ws_reachable valid (ap_ws ?t)" by (rule perform_reachable [OF send_reachable [OF w1]])
    have more: "extends_out (ap_ws ?s2) (fst ?send)" unfolding s2(1) by (rule extends_send [OF extends_refl])
    have t2: "api_listeners_ok ?t" by (rule perform_listeners [OF ls2 more])
    have "ws_reachable valid (ap_ws ?s2)" using w1 by (simp only: s2(1))
    then have "\<forall>q\<in>set (ap_requests ?t). status_ok (fst ?send) q"
      by (rule perform_status [OF _ send_reachable [OF w1] more ls2]) (use status2 in \<open>simp only: s2(1)\<close>)
    then have t3: "\<forall>q\<in>set (ap_requests ?t). status_ok (ap_ws ?t) q" by (simp only: status_ok_same [OF perform_fields(2)])
    note t = t1 t2 t3
    have t_qs: "ap_requests ?t = map (fold next_request es) (ap_requests ?s2)"
      using es(1) by (simp add: perform_requests s2(1))
    have t_others: "sent_ok (ap_ws ?t) (ap_requests ?t ! k)" if "k < length (ap_requests ?t)" "k \<noteq> n" for k
    proof -
      have "sent_ok (fst ?send) (ap_requests ?s2 ! k)" using others [OF m _] that es(1) by (simp add: t_qs)
      then show ?thesis using that(1) by (simp add: t_qs sent_ok_run sent_ok_same [OF perform_fields(1)])
    qed
    consider "\<not> isConnected ?w1" | "isConnected ?w1" "\<not> snd ?send" | "isConnected ?w1" "snd ?send" by blast
    then show ?thesis
    proof cases
      case 1
      have "api_ok valid (settle n (Rejected ''WebSocket is not connected.'') ?s2)"
      proof (rule settle_unsent)
        show "sent_ok (ap_ws ?s2) (ap_requests ?s2 ! k)" if "k < length (ap_requests ?s2)" "k \<noteq> n" for k
          using others [OF m [OF that], of ?w1 "[]"] by (simp add: s2(1))
      qed (use w1 ls2 en status2 in \<open>simp_all add: s2(1)\<close>)
      then show ?thesis using 1 up True n by (simp add: continue_cases Let_def)
    next
      case 2
      have p: "(\<exists>l1 l2. rq_phase (ap_requests ?t ! n) = AwaitingResponse l1 l2) \<or> (\<exists>e. rq_phase (ap_requests ?t ! n) = Settled (Rejected e))"
        using untyped_run [OF es(2), of "ap_requests ?s2 ! n"] en by (auto simp: t_qs)
      have "n < length (ap_requests ?t)" using en(2) by (simp add: t_qs)
      from settle_unsent [OF t(1,2) this t(3) t_others p] have "api_ok valid (settle n (Rejected ''WebSocket is not connected.'') ?t)" by simp
      then show ?thesis using 2 up True n by (simp add: continue_cases Let_def)
    next
      case 3
      have "was_sent (ap_requests ?s2 ! n) (fst ?send)" using es 3 by (auto simp: was_sent_def en(1))
      then have "sent_ok (fst ?send) (ap_requests ?s2 ! n)" by (simp add: sent_ok_def en(1))
      then have "sent_ok (ap_ws ?t) (ap_requests ?t ! n)" using en(2) by (simp add: t_qs sent_ok_run sent_ok_same [OF perform_fields(1)])
      then have "\<forall>q\<in>set (ap_requests ?t). sent_ok (ap_ws ?t) q" using t_others by (metis in_set_conv_nth)
      then have "api_ok valid ?t" using t by (simp add: api_ok_def)
      then show ?thesis using 3 up True n by (simp add: continue_cases Let_def)
    qed
  qed
qed (use ok in \<open>simp add: continue_request_def Let_def\<close>)

lemma enabled_index: "phase_of n s = Some p \<Longrightarrow> n < length (ap_requests s)" "awaits_connection (phase_of n s) \<Longrightarrow> n < length (ap_requests s)"
    "awaits_response (phase_of n s) \<Longrightarrow> n < length (ap_requests s)"
  by (simp_all add: phase_of_def awaits_connection_def awaits_response_def split: if_splits)

lemma api_step_ok:
  assumes "api_ok valid s" and "api_enabled ev s"
  shows "api_ok valid (api_step valid ev s)"
proof (cases ev)
  case (ClientEvent e)
  then have "ws_enabled e (ap_ws s)" "\<not> subscription e" using assms(2) by (simp_all add: api_enabled_def)
  then show ?thesis using ClientEvent perform_ok [OF assms(1) ws_next extends_step] assms(1) by (simp add: api_step_def api_ok_def)
next
  case (StartCommand ct d rt)
  have "api_ok valid (s\<lparr>ap_sequence := i\<rparr>)" for i using assms(1) by (simp add: api_ok_def)
  then show ?thesis using StartCommand by (simp add: api_step_def start_command_def start_ok split: prod.split)
next
  case (ContinueRequest n ok)
  then show ?thesis using assms continue_ok enabled_index by (simp add: api_step_def api_enabled_def)
next
  case (WaitPoll n)
  then show ?thesis using assms release_api_ok(1) enabled_index by (auto simp: api_step_def api_enabled_def wait_poll_def)
next
  case (WaitTimeout n)
  then show ?thesis using assms release_api_ok(2) enabled_index by (auto simp: api_step_def api_enabled_def wait_timeout_def)
next
  case (ResponseTimeout n)
  then show ?thesis using assms release_api_ok(3) enabled_index by (auto simp: api_step_def api_enabled_def response_timeout_def)
qed (use assms in \<open>simp add: api_step_def start_ok\<close>)

lemma api_reachable_ok: "api_reachable valid s \<Longrightarrow> api_ok valid s"
proof (induction rule: api_reachable.induct)
  case api_start
  have "ws_reachable valid (ap_ws new_api)" by (simp add: new_api_def ws_start)
  then show ?case by (simp add: api_ok_def) (simp add: new_api_def listeners_ok_def typed_def new_client_def)
qed (rule api_step_ok)

subsection \<open>Status listeners\<close>

text \<open>The status listeners that no request owns, and the requests that were rejected because the status of the client was a
  failure. A rejection within \<open>subscribeStatus\<close> leaves a listener behind; nothing else does.\<close>

definition owned_status :: "request list \<Rightarrow> nat set" where
  "owned_status qs = (\<Union>q\<in>set qs. status_listener (rq_phase q))"

definition leaked :: "api \<Rightarrow> nat set" where
  "leaked s = set (w_statusListeners (ap_ws s)) - owned_status (ap_requests s)"

definition status_rejected :: "request \<Rightarrow> bool" where
  "status_rejected q \<longleftrightarrow>
     rq_phase q = Settled (Rejected (status_error Disconnected q)) \<or> rq_phase q = Settled (Rejected (status_error ErrorStatus q))"

definition rejections :: "api \<Rightarrow> nat" where
  "rejections s = length (filter status_rejected (ap_requests s))"

definition leak_step :: "api \<Rightarrow> api \<Rightarrow> bool" where
  "leak_step s s' \<longleftrightarrow> card (leaked s') + rejections s \<le> card (leaked s) + rejections s'"

lemma leak_refl: "leak_step s s" and leak_trans: "leak_step s t \<Longrightarrow> leak_step t u \<Longrightarrow> leak_step s u"
  by (simp_all add: leak_step_def)

lemma leak_mono: "leaked s' \<subseteq> leaked s \<Longrightarrow> rejections s \<le> rejections s' \<Longrightarrow> leak_step s s'"
  using card_mono [of "leaked s" "leaked s'"] by (simp add: leak_step_def leaked_def)

lemma rejections_set:
  assumes "n < length qs" and "\<not> status_rejected (qs ! n)"
  shows "length (filter status_rejected (qs[n := q])) = length (filter status_rejected qs) + (if status_rejected q then 1 else 0)"
  using assms
proof (induction qs arbitrary: n)
  case (Cons x qs)
  then show ?case by (cases n) simp_all
qed simp

lemma owned_set: "owned_status qs \<subseteq> status_listener (rq_phase (qs ! n)) \<union> owned_status (qs[n := q])"
proof
  fix l assume "l \<in> owned_status qs"
  then obtain m where m: "m < length qs" "l \<in> status_listener (rq_phase (qs ! m))" by (auto simp: owned_status_def in_set_conv_nth)
  show "l \<in> status_listener (rq_phase (qs ! n)) \<union> owned_status (qs[n := q])"
  proof (cases "m = n")
    case False
    then have "qs[n := q] ! m = qs ! m" "m < length (qs[n := q])" using m by simp_all
    then have "qs ! m \<in> set (qs[n := q])" by (metis nth_mem)
    then show ?thesis using m by (auto simp: owned_status_def)
  qed (use m in simp)
qed

lemma leak_phase:
  assumes n: "n < length (ap_requests s)" and before: "\<not> status_rejected (ap_requests s ! n)"
    and after: "set (w_statusListeners w) \<subseteq> set (w_statusListeners (ap_ws s)) - status_listener (rq_phase (ap_requests s ! n))"
  shows "leak_step s (set_phase n p (s\<lparr>ap_ws := w\<rparr>))"
proof (rule leak_mono)
  show "leaked (set_phase n p (s\<lparr>ap_ws := w\<rparr>)) \<subseteq> leaked s"
    using after owned_set [of "ap_requests s" n "(ap_requests s ! n)\<lparr>rq_phase := p\<rparr>"] by (auto simp: leaked_def set_phase_def)
  show "rejections s \<le> rejections (set_phase n p (s\<lparr>ap_ws := w\<rparr>))"
    using rejections_set [OF n before] by (simp add: rejections_def set_phase_def)
qed

lemma leak_release:
  assumes "n < length (ap_requests s)"
  shows "leak_step s (connection_ready n s)" and "leak_step s (connection_failed n e s)" and "leak_step s (settle n r s)"
  using assms
  by (auto simp: connection_ready_def connection_failed_def settle_def status_rejected_def status_listener_def unsubscribe_fields
      intro!: leak_phase leak_refl split: phase.split)

lemma leak_react: "n < length (ap_requests s) \<Longrightarrow> leak_step s (react_request e n s)"
  unfolding react_request_def Let_def using leak_release leak_refl by (cases e) (auto split: phase.split)

lemma leak_run: "leak_step s (fold react es s)"
proof (induction es arbitrary: s)
  case (Cons e es)
  have "k \<le> length (ap_requests s) \<Longrightarrow> leak_step s (fold (react_request e) [0..<k] s)" for k
  proof (induction k)
    case (Suc k)
    then show ?case using leak_trans [OF _ leak_react, of s "fold (react_request e) [0..<k] s" k] by (simp add: react_prefix)
  qed (simp add: leak_refl)
  then have "leak_step s (react e s)" by (simp add: react_def)
  then show ?case using Cons leak_trans by simp
qed (simp add: leak_refl)

lemma leak_ws: "w_statusListeners w = w_statusListeners (ap_ws s) \<Longrightarrow> leak_step s (s\<lparr>ap_ws := w\<rparr>)"
  by (simp add: leak_step_def leaked_def rejections_def)

lemma leak_perform: "extends_out (ap_ws s) w \<Longrightarrow> leak_step s (perform w s)"
  unfolding perform_def by (rule leak_trans [OF leak_ws leak_run]) (simp add: extends_out_def)

lemma leak_start: "leak_step s (start_request ct d rt m s)"
  by (rule leak_mono) (auto simp: start_request_def leaked_def owned_status_def rejections_def status_rejected_def status_listener_def
      subscribe_fields Let_def)

lemma leak_entered:
  assumes n: "n < length (ap_requests s)" and ready: "rq_phase (ap_requests s ! n) = ConnectionReady"
  shows "leak_step s (entered n s)"
proof (rule leak_mono)
  let ?q = "(ap_requests s ! n)\<lparr>rq_phase := AwaitingResponse (ap_nextListener s) (Suc (ap_nextListener s))\<rparr>"
  have "?q \<in> set ((ap_requests s)[n := ?q])" by (rule set_update_memI [OF n])
  then have "Suc (ap_nextListener s) \<in> owned_status ((ap_requests s)[n := ?q])"
    by (force simp: owned_status_def status_listener_def)
  then show "leaked (entered n s) \<subseteq> leaked s" using owned_set [of "ap_requests s" n ?q] ready
    by (auto simp: leaked_def entered_def Let_def set_phase_def subscribe_fields status_listener_def)
  show "rejections s \<le> rejections (entered n s)" using rejections_set [OF n, of ?q] ready
    by (simp add: rejections_def entered_def Let_def set_phase_def status_rejected_def)
qed

lemma leak_rejected:
  assumes n: "n < length (ap_requests s)" and ready: "rq_phase (ap_requests s ! n) = ConnectionReady" and st: "status_failed st"
    and w: "set (w_statusListeners w) = insert l (set (w_statusListeners (ap_ws s)))"
  shows "leak_step s (set_phase n (Settled (Rejected (status_error st (ap_requests s ! n)))) (s\<lparr>ap_nextListener := k, ap_ws := w\<rparr>))"
    (is "leak_step s ?s")
proof -
  let ?q = "(ap_requests s ! n)\<lparr>rq_phase := Settled (Rejected (status_error st (ap_requests s ! n)))\<rparr>"
  have "leaked ?s \<subseteq> insert l (leaked s)" using owned_set [of "ap_requests s" n ?q] ready w
    by (auto simp: leaked_def set_phase_def status_listener_def)
  then have "card (leaked ?s) \<le> card (insert l (leaked s))" by (rule card_mono [rotated]) (simp add: leaked_def)
  then have "card (leaked ?s) \<le> Suc (card (leaked s))" by (simp add: card_insert_if leaked_def split: if_splits)
  moreover have "rejections ?s = Suc (rejections s)" using rejections_set [OF n, of ?q] ready st
    by (cases st) (simp_all add: rejections_def set_phase_def status_rejected_def status_error_def status_failed_def)
  ultimately show ?thesis by (simp add: leak_step_def)
qed

lemma leak_continue:
  assumes n: "n < length (ap_requests s)" and ready: "rq_phase (ap_requests s ! n) = ConnectionReady"
  shows "leak_step s (continue_request n ok s)"
proof -
  let ?q = "ap_requests s ! n" and ?m = "message (rq_clientType (ap_requests s ! n)) (rq_data (ap_requests s ! n))"
  let ?w = "subscribeStatus (Suc (ap_nextListener s)) (on_type (rq_responseType ?q) (ap_nextListener s) (ap_ws s))"
  have e: "leak_step s (entered n s)" "n < length (ap_requests (entered n s))" "ap_ws (entered n s) = ?w"
    using leak_entered [OF n ready] n by (simp_all add: entered_def set_phase_def Let_def)
  then have p: "leak_step s (perform (fst (ws_send ?m ok ?w)) (entered n s))"
    "n < length (ap_requests (perform (fst (ws_send ?m ok ?w)) (entered n s)))"
    using leak_trans [OF e(1) leak_perform] extends_send [OF extends_refl] by (simp_all add: perform_requests)
  show ?thesis unfolding continue_cases [OF ready n] Let_def
    using leak_rejected [OF n ready, where l = "Suc (ap_nextListener s)"] leak_trans [OF e(1) leak_release(3) [OF e(2)]] p
      leak_trans [OF p(1) leak_release(3) [OF p(2)]]
    by (simp add: unsubscribe_fields subscribe_fields)
qed

lemma leak_api_step: "api_enabled ev s \<Longrightarrow> leak_step s (api_step valid ev s)"
proof (cases ev)
  case (StartCommand ct d rt)
  have "leak_step s (s\<lparr>ap_sequence := i\<rparr>)" for i by (simp add: leak_step_def leaked_def rejections_def)
  then show ?thesis using StartCommand leak_trans [OF _ leak_start] by (simp add: api_step_def start_command_def split: prod.split)
next
  case (ContinueRequest n ok)
  assume "api_enabled ev s"
  then have "n < length (ap_requests s)" "rq_phase (ap_requests s ! n) = ConnectionReady"
    using ContinueRequest by (auto simp: api_enabled_def phase_of_def split: if_splits)
  then show ?thesis using ContinueRequest leak_continue by (simp add: api_step_def)
qed (auto simp: api_step_def api_enabled_def wait_poll_def wait_timeout_def response_timeout_def
    intro!: leak_refl leak_start leak_release leak_perform extends_step dest: enabled_index(2,3))

lemma reachable_leaks: "api_reachable valid s \<Longrightarrow> card (leaked s) \<le> rejections s"
proof (induction rule: api_reachable.induct)
  case api_start
  show ?case by (simp add: leaked_def new_api_def new_client_def)
next
  case (api_next s ev)
  then show ?case using leak_api_step [of ev s valid] by (simp add: leak_step_def)
qed

text \<open>A settled request stays settled.\<close>

lemma settled_next: "rq_phase q = Settled r \<Longrightarrow> next_request e q = q"
  by (auto simp: next_request_def split: emitted.split)

lemma settled_run: "rq_phase q = Settled r \<Longrightarrow> fold next_request es q = q"
  by (induction es) (simp_all add: settled_next)

lemma phase_set: "phase_of n s = Some (Settled r) \<Longrightarrow> (m = n \<Longrightarrow> rq_phase (ap_requests s ! m) \<noteq> Settled r) \<Longrightarrow>
    phase_of n (set_phase m p s) = Some (Settled r)"
  by (cases "m = n") (auto simp: phase_of_def set_phase_def split: if_splits)

lemma phase_ws: "phase_of n (s\<lparr>ap_ws := w\<rparr>) = phase_of n s" "phase_of n (s\<lparr>ap_nextListener := l\<rparr>) = phase_of n s"
    "phase_of n (s\<lparr>ap_sequence := i\<rparr>) = phase_of n s"
  by (simp_all add: phase_of_def)

lemma settled_parts:
  assumes "phase_of n s = Some (Settled r)"
  shows "phase_of n (connection_ready m s) = Some (Settled r)" and "phase_of n (connection_failed m e s) = Some (Settled r)"
    and "phase_of n (settle m r' s) = Some (Settled r)" and "phase_of n (start_request ct d rt f s) = Some (Settled r)"
    and "phase_of n (perform w s) = Some (Settled r)"
proof -
  show "phase_of n (connection_ready m s) = Some (Settled r)" using assms
    by (auto simp: connection_ready_def phase_ws intro!: phase_set split: phase.split)
  show "phase_of n (connection_failed m e s) = Some (Settled r)" using assms
    by (auto simp: connection_failed_def phase_ws intro!: phase_set split: phase.split)
  show "phase_of n (settle m r' s) = Some (Settled r)" using assms
    by (auto simp: settle_def phase_ws intro!: phase_set split: phase.split)
  show "phase_of n (start_request ct d rt f s) = Some (Settled r)" using assms
    by (auto simp: start_request_def phase_of_def Let_def nth_append split: if_splits)
  show "phase_of n (perform w s) = Some (Settled r)" using assms
    by (auto simp: phase_of_def perform_requests settled_run split: if_splits)
qed

lemma settled_continue: "phase_of n s = Some (Settled r) \<Longrightarrow> phase_of n (continue_request m ok s) = Some (Settled r)"
  unfolding continue_request_def Let_def split_beta
  by (auto intro!: settled_parts phase_set simp: phase_ws)

text \<open>A command over an open connection and its answer, then a second answer that comes late.\<close>

definition is_ok_response :: "jsval \<Rightarrow> bool" where
  "is_ok_response data = (js_get data ''ok'' = JBool True)"

definition sample_answer :: string where
  "sample_answer = json_stringify (TObj [(''type'', TStr ''locoState''), (''data'', TObj [(''ok'', TBool True)])])"

definition sample_events :: "api_event list" where
  "sample_events =
     [StartRequest ''getLoco'' [(''address'', TInt 3)] ''locoState'' is_ok_response, ClientEvent (CallConnect (Some ''ws://a'')),
      ClientEvent (SocketOpens 0 True), ContinueRequest 0 True]"

definition sample_api :: "api_event list \<Rightarrow> api" where
  "sample_api evs = the (api_run (\<lambda>u. True) evs new_api)"

lemma sample_runs: "api_run (\<lambda>u. True) sample_events new_api \<noteq> None"
  by code_simp

lemma sample_waits: "api_run (\<lambda>u. True) sample_events new_api = Some (sample_api sample_events)"
    "phase_of 0 (sample_api sample_events) = Some (AwaitingResponse 1 2)"
  using sample_runs by (simp add: sample_api_def) code_simp

lemma sample_resolves:
  "phase_of 0 (sample_api (sample_events @ [ClientEvent (SocketMessage 0 sample_answer)])) =
     Some (Settled (Resolved (JObj [(''ok'', JBool True)])))"
  by code_simp

text \<open>C25. In every state that calls of the client, requests, their continuations and their time-outs can lead to: requests have
  listeners of their own, which are subscribed; the listeners of typed messages are exactly those of the requests that wait for a
  response (none is left behind by a settled one); the status listeners are those of the waiting requests and at most one more for
  each request that was rejected because the status of the client was a failure (so exactly those of the waiting requests when there was no such
  rejection); a waiting request was sent and the status of the client is no failure, and a request was resolved only
  after it was sent, with a response that it matches.\<close>

theorem requests_consistent:
  assumes "api_reachable valid s"
  shows "api_listeners_ok s \<and> card (leaked s) \<le> length (filter status_rejected (ap_requests s)) \<and>
    (\<forall>q\<in>set (ap_requests s). sent_ok (ap_ws s) q \<and> status_ok (ap_ws s) q)"
  using api_reachable_ok [OF assms] reachable_leaks [OF assms] by (simp add: api_ok_def rejections_def)

theorem requests_consistent_witness:
  "api_listeners_ok (sample_api sample_events) \<and> was_sent (ap_requests (sample_api sample_events) ! 0) (ap_ws (sample_api sample_events)) \<and>
   \<not> status_failed (w_status (ap_ws (sample_api sample_events)))"
proof -
  have n: "0 < length (ap_requests (sample_api sample_events))" and p: "rq_phase (ap_requests (sample_api sample_events) ! 0) = AwaitingResponse 1 2"
    using sample_waits(2) by (simp_all add: phase_of_def split: if_splits)
  note all = requests_consistent [OF api_run_reachable [OF api_start sample_waits(1)]]
  from bspec [OF conjunct2 [OF conjunct2 [OF all]] nth_mem [OF n]] show ?thesis using conjunct1 [OF all] p by (simp add: sent_ok_def status_ok_def)
qed

text \<open>At most one settlement: whatever happens after a request is settled (a second matching response, a late time-out, a
  lost connection, other requests), its outcome stays what it was.\<close>

theorem settled_is_final:
  assumes "phase_of n s = Some (Settled r)"
  shows "phase_of n (foldl (\<lambda>t ev. api_step valid ev t) s evs) = Some (Settled r)"
  using assms
proof (induction evs arbitrary: s)
  case (Cons ev evs)
  have "phase_of n (api_step valid ev s) = Some (Settled r)"
    using Cons.prems by (cases ev) (simp_all add: api_step_def settled_parts settled_continue wait_poll_def wait_timeout_def response_timeout_def
        start_command_def phase_ws split: prod.split)
  then show ?case using Cons.IH by simp
qed simp

theorem settled_is_final_witness:
  "phase_of 0 (foldl (\<lambda>t ev. api_step (\<lambda>u. True) ev t) (sample_api (sample_events @ [ClientEvent (SocketMessage 0 sample_answer)]))
     [ResponseTimeout 0, ClientEvent CallDisconnect]) = Some (Settled (Resolved (JObj [(''ok'', JBool True)])))"
  by (rule settled_is_final [OF sample_resolves])

definition own_event :: "nat \<Rightarrow> api_event \<Rightarrow> bool" where
  "own_event n ev = (case ev of WaitTimeout m \<Rightarrow> m = n | ContinueRequest m ok \<Rightarrow> m = n | ResponseTimeout m \<Rightarrow> m = n | _ \<Rightarrow> False)"

lemma timeouts_settle:
  "phase_of n s = Some (AwaitingConnection l) \<Longrightarrow> phase_of n (wait_timeout n s) = Some (Settled (Rejected ''WebSocket connection timed out.''))"
  "phase_of n s = Some (AwaitingResponse l1 l2) \<Longrightarrow> \<exists>e. phase_of n (response_timeout n s) = Some (Settled (Rejected e))"
  by (auto simp: phase_of_def wait_timeout_def connection_failed_def response_timeout_def settle_def set_phase_def split: if_splits)

lemma waiting_runs:
  "phase_of n s = Some (AwaitingResponse l1 l2) \<Longrightarrow> (\<exists>l1 l2. phase_of n (perform w s) = Some (AwaitingResponse l1 l2)) \<or>
     (\<exists>r. phase_of n (perform w s) = Some (Settled r))"
proof -
  have step: "(\<exists>l1 l2. rq_phase (next_request e q) = AwaitingResponse l1 l2) \<or> (\<exists>r. rq_phase (next_request e q) = Settled r)"
    if "(\<exists>l1 l2. rq_phase q = AwaitingResponse l1 l2) \<or> (\<exists>r. rq_phase q = Settled r)" for e q
    using that by (cases e) (auto simp: next_request_def)
  have "(\<exists>l1 l2. rq_phase (fold next_request es q) = AwaitingResponse l1 l2) \<or> (\<exists>r. rq_phase (fold next_request es q) = Settled r)"
    if "(\<exists>l1 l2. rq_phase q = AwaitingResponse l1 l2) \<or> (\<exists>r. rq_phase q = Settled r)" for es q
    using that by (induction es arbitrary: q) (simp_all add: step)
  then show "phase_of n s = Some (AwaitingResponse l1 l2) \<Longrightarrow> ?thesis" by (simp add: phase_of_def perform_requests split: if_splits)
qed

lemma continue_settles:
  assumes "phase_of n s = Some ConnectionReady"
  shows "(\<exists>l1 l2. phase_of n (continue_request n ok s) = Some (AwaitingResponse l1 l2)) \<or>
    (\<exists>r. phase_of n (continue_request n ok s) = Some (Settled r))"
proof -
  have n: "n < length (ap_requests s)" and ready: "rq_phase (ap_requests s ! n) = ConnectionReady"
    using assms by (simp_all add: phase_of_def split: if_splits)
  have en: "phase_of n (entered n s) = Some (AwaitingResponse (ap_nextListener s) (Suc (ap_nextListener s)))"
    using n by (simp add: phase_of_def entered_def set_phase_def Let_def)
  have end_: "\<exists>r. phase_of n (settle n r' t) = Some (Settled r)"
    if "(\<exists>l1 l2. phase_of n t = Some (AwaitingResponse l1 l2)) \<or> (\<exists>r. phase_of n t = Some (Settled r))" for r' t
    using that by (auto simp: phase_of_def settle_def set_phase_def split: if_splits)
  show ?thesis using waiting_runs [OF en] en end_ n
    by (auto simp: continue_cases [OF ready n] Let_def) (auto simp: phase_of_def set_phase_def)
qed

text \<open>C26. No request waits for ever: whatever phase it is in, at most two events of its own (its continuation, its time-out),
  each possible when its turn comes, settle it.\<close>

theorem request_settles:
  assumes "phase_of n s = Some p"
  shows "\<exists>evs s' r. length evs \<le> 2 \<and> list_all (own_event n) evs \<and> api_run valid evs s = Some s' \<and> phase_of n s' = Some (Settled r)"
proof (cases p)
  case (AwaitingConnection l)
  then show ?thesis using assms timeouts_settle(1) [of n s l]
    by (intro exI [of _ "[WaitTimeout n]"]) (simp add: own_event_def api_enabled_def awaits_connection_def api_step_def)
next
  case ConnectionReady
  let ?s = "continue_request n True s"
  have e: "api_enabled (ContinueRequest n True) s" using assms ConnectionReady by (simp add: api_enabled_def)
  from continue_settles [of n s True] assms ConnectionReady
  consider l1 l2 where "phase_of n ?s = Some (AwaitingResponse l1 l2)" | r where "phase_of n ?s = Some (Settled r)" by auto
  then show ?thesis
  proof cases
    case 1
    then show ?thesis using e timeouts_settle(2) [OF 1]
      by (intro exI [of _ "[ContinueRequest n True, ResponseTimeout n]"]) (auto simp: own_event_def api_enabled_def awaits_response_def api_step_def)
  next
    case 2
    then show ?thesis using e by (intro exI [of _ "[ContinueRequest n True]"]) (simp add: own_event_def api_step_def)
  qed
next
  case (AwaitingResponse l1 l2)
  then show ?thesis using assms timeouts_settle(2) [of n s l1 l2]
    by (intro exI [of _ "[ResponseTimeout n]"]) (auto simp: own_event_def api_enabled_def awaits_response_def api_step_def)
next
  case (Settled r)
  then show ?thesis using assms by (intro exI [of _ "[]"]) simp
qed

theorem request_settles_witness:
  "\<exists>evs s' r. length evs \<le> 2 \<and> list_all (own_event 0) evs \<and> api_run (\<lambda>u. True) evs (sample_api sample_events) = Some s' \<and>
     phase_of 0 s' = Some (Settled r)"
  by (rule request_settles [OF sample_waits(2)])

end
