(* ===== verification/JsPrint.thy ===== *)
theory JsPrint
  imports JsonText
begin

text \<open>
  Writing values: \<open>String(x)\<close> and \<open>JSON.stringify(x)\<close> of the language. A finite number is written by the algorithm of
  \<open>Number::toString\<close> from its exact decimal expansion; a number without a finite one does not come out of a JSON text and is
  cut after \<open>max_decimals\<close> decimals.
\<close>

subsection \<open>Numbers\<close>

definition max_decimals :: nat where "max_decimals = 400"

text \<open>The least \<open>k\<close> for which \<open>10 ^ k * r\<close> is an integer.\<close>

definition decimals_of :: "rat \<Rightarrow> nat" where
  "decimals_of r = (case find (\<lambda>k. is_whole (r * 10 ^ k)) [0..<max_decimals] of Some k \<Rightarrow> k | None \<Rightarrow> max_decimals)"

definition strip_zeros :: "string \<Rightarrow> string" where
  "strip_zeros ds = rev (dropWhile (\<lambda>c. c = CHR ''0'') (rev ds))"

text \<open>The digits \<open>ds\<close> stand for \<open>0.ds * 10 ^ n\<close>.\<close>

definition place_point :: "string \<Rightarrow> int \<Rightarrow> string" where
  "place_point ds n =
     (let k = int (length ds) in
      if k \<le> n \<and> n \<le> 21 then ds @ replicate (nat (n - k)) CHR ''0''
      else if 0 < n \<and> n \<le> 21 then take (nat n) ds @ CHR ''.'' # drop (nat n) ds
      else if - 6 < n \<and> n \<le> 0 then ''0.'' @ replicate (nat (- n)) CHR ''0'' @ ds
      else (let e = (if n - 1 < 0 then ''-'' else ''+'') @ show_nat (nat \<bar>n - 1\<bar>)
            in if k = 1 then ds @ CHR ''e'' # e else hd ds # CHR ''.'' # tl ds @ CHR ''e'' # e))"

definition positive_text :: "rat \<Rightarrow> string" where
  "positive_text r =
     (let k = decimals_of r; all_digits = show_nat (nat \<lfloor>r * 10 ^ k\<rfloor>)
      in place_point (strip_zeros all_digits) (int (length all_digits) - int k))"

definition number_text :: "rat \<Rightarrow> string" where
  "number_text r = (if r = 0 then ''0'' else if r < 0 then CHR ''-'' # positive_text (- r) else positive_text r)"

definition jsnum_text :: "jsnum \<Rightarrow> string" where
  "jsnum_text n = (case n of NaN \<Rightarrow> ''NaN'' | PosInf \<Rightarrow> ''Infinity'' | NegInf \<Rightarrow> ''-Infinity'' | Fin r \<Rightarrow> number_text r)"

subsection \<open>Texts and JSON of values\<close>

text \<open>\<open>String(x)\<close>; in an array \<open>undefined\<close> and \<open>null\<close> are written as nothing.\<close>

fun to_text :: "jsval \<Rightarrow> string" where
  "to_text JUndef = ''undefined''"
| "to_text JNull = ''null''"
| "to_text (JBool b) = (if b then ''true'' else ''false'')"
| "to_text (JNum n) = jsnum_text n"
| "to_text (JStr s) = s"
| "to_text (JArr xs) = join_with '','' (map (\<lambda>x. if x = JUndef \<or> x = JNull then [] else to_text x) xs)"
| "to_text (JObj kvs) = ''[object Object]''"

text \<open>\<open>JSON.stringify\<close> of a value inside another one: a field that is \<open>undefined\<close> is left out, an element becomes \<open>null\<close>.\<close>

fun js_stringify :: "jsval \<Rightarrow> string" where
  "js_stringify JUndef = ''null''"
| "js_stringify JNull = ''null''"
| "js_stringify (JBool b) = (if b then ''true'' else ''false'')"
| "js_stringify (JNum n) = (case n of Fin r \<Rightarrow> number_text r | _ \<Rightarrow> ''null'')"
| "js_stringify (JStr s) = quote s"
| "js_stringify (JArr xs) = CHR ''['' # join_with '','' (map js_stringify xs) @ [CHR '']'']"
| "js_stringify (JObj kvs) =
     CHR ''{'' # join_with '','' (map (\<lambda>(k, v). quote k @ CHR '':'' # js_stringify v) (filter (\<lambda>(k, v). v \<noteq> JUndef) kvs)) @ [CHR ''}'']"

subsection \<open>Integers\<close>

lemma find_here: "n \<noteq> 0 \<Longrightarrow> p 0 \<Longrightarrow> find p [0..<n] = Some (0 :: nat)"
  by (cases n) (auto simp: upt_rec [of 0])

lemma decimals_of_int: "decimals_of (of_int i) = 0"
  using find_here [of max_decimals "\<lambda>k. is_whole (of_int i * 10 ^ k)"] by (simp add: decimals_of_def max_decimals_def)

lemma takeWhile_zeros: "takeWhile (\<lambda>c. c = CHR ''0'') ds = replicate (length (takeWhile (\<lambda>c. c = CHR ''0'') ds)) CHR ''0''"
  by (induction ds) auto

lemma strip_zeros_split: "ds = strip_zeros ds @ replicate (length ds - length (strip_zeros ds)) CHR ''0''"
proof -
  let ?p = "\<lambda>c. c = CHR ''0''"
  have r: "rev ds = takeWhile ?p (rev ds) @ dropWhile ?p (rev ds)" by simp
  then have l: "length ds = length (takeWhile ?p (rev ds)) + length (dropWhile ?p (rev ds))" by (metis length_append length_rev)
  have "ds = rev (dropWhile ?p (rev ds)) @ rev (takeWhile ?p (rev ds))" using r by (metis rev_append rev_rev_ident)
  also have "rev (takeWhile ?p (rev ds)) = replicate (length (takeWhile ?p (rev ds))) CHR ''0''"
    by (subst takeWhile_zeros) simp
  finally show ?thesis using l by (simp add: strip_zeros_def)
qed

lemma length_strip_zeros: "length (strip_zeros ds) \<le> length ds"
  by (simp add: strip_zeros_def length_dropWhile_le [of _ "rev ds", simplified])

lemma length_show_nat: "n < 10 ^ k \<Longrightarrow> 0 < k \<Longrightarrow> length (show_nat n) \<le> k"
proof (induction n arbitrary: k rule: show_nat.induct)
  case (1 n)
  show ?case
  proof (cases "n < 10")
    case True
    then show ?thesis using 1 by (simp add: show_nat.simps [of n])
  next
    case False
    obtain j where k: "k = Suc j" using "1.prems" by (cases k) auto
    then have "n div 10 < 10 ^ j" using "1.prems" by (simp add: less_mult_imp_div_less mult.commute)
    moreover have "0 < j" using False "1.prems" k by (cases j) auto
    ultimately show ?thesis using "1.IH" False k by (simp add: show_nat.simps [of n])
  qed
qed

lemma number_text_int: "\<bar>i\<bar> < 10 ^ 21 \<Longrightarrow> number_text (of_int i) = show_int i"
proof -
  have pos: "positive_text (of_int j) = show_nat (nat j)" if "0 < j" "j < 10 ^ 21" for j
  proof -
    let ?ds = "show_nat (nat j)"
    have "nat j < 10 ^ 21" using that by (simp add: nat_less_iff)
    then have l: "length ?ds \<le> 21" by (rule length_show_nat) simp
    have "positive_text (of_int j) = place_point (strip_zeros ?ds) (int (length ?ds))"
      by (simp add: positive_text_def decimals_of_int Let_def)
    also have "\<dots> = strip_zeros ?ds @ replicate (length ?ds - length (strip_zeros ?ds)) CHR ''0''"
      using l length_strip_zeros [of ?ds] by (simp add: place_point_def Let_def nat_minus_as_int [symmetric] nat_diff_distrib')
    finally show ?thesis using strip_zeros_split [of ?ds] by simp
  qed
  assume "\<bar>i\<bar> < 10 ^ 21"
  moreover have "show_nat 0 = ''0''" by code_simp
  ultimately show ?thesis using pos [of i] pos [of "- i"]
    by (cases "i = 0"; cases "i < 0") (simp_all add: number_text_def show_int_def)
qed

text \<open>The two writers agree where both apply: on values with integers below the limit of the exponent notation.\<close>

fun small_json :: "json \<Rightarrow> bool" where
  "small_json (TInt i) = (\<bar>i\<bar> < 10 ^ 21)"
| "small_json (TArr xs) = list_all small_json xs"
| "small_json (TObj kvs) = list_all (\<lambda>(k, v). small_json v) kvs"
| "small_json _ = True"

lemma json_value_defined: "json_value t \<noteq> JUndef"
  by (cases t) (simp_all add: js_int_def)

lemma js_stringify_value: "small_json t \<Longrightarrow> js_stringify (json_value t) = json_stringify t"
proof (induction t)
  case (TInt i)
  then show ?case by (simp add: js_int_def number_text_int)
next
  case (TArr xs)
  then have "map js_stringify (map json_value xs) = map json_stringify xs" by (auto simp: list_all_iff)
  then show ?case by (simp del: map_map)
next
  case (TObj kvs)
  have f: "filter (\<lambda>(k, v). v \<noteq> JUndef) (map (\<lambda>(k, v). (k, json_value v)) kvs) = map (\<lambda>(k, v). (k, json_value v)) kvs"
    by (auto simp: filter_id_conv json_value_defined)
  have "\<And>k v. (k, v) \<in> set kvs \<Longrightarrow> js_stringify (json_value v) = json_stringify v"
    using TObj by (fastforce simp: list_all_iff)
  then show ?case by (auto simp: f intro!: arg_cong [where f = "join_with '',''"])
qed simp_all

end
