(* ===== verification/DemoServer.thy ===== *)
theory DemoServer
  imports JsPrint WsClient
begin

text \<open>
  \<open>web-ui/src/demo/demoBackend.ts\<close>: the server that the demo mode plays inside the browser. \<open>handleDemoFetch\<close> answers HTTP
  requests out of the local storage; \<open>DemoWebSocket\<close> stands in for the WebSocket. The demo data of the generated file
  \<open>demoSeed.generated.ts\<close> is the argument \<open>seed\<close>. A response body is the value it is the JSON of, or a text.
\<close>

subsection \<open>Storage\<close>

text \<open>Reading and writing the local storage can throw.\<close>

record demo_storage =
  sg_items :: "(string \<times> string) list"
  sg_readable :: bool
  sg_writable :: bool

definition STORAGE_PREFIX :: string where "STORAGE_PREFIX = ''dccexpress-lite.demo.''"

definition storageGet :: "string \<Rightarrow> string \<Rightarrow> demo_storage \<Rightarrow> string" where
  "storageGet key fallback st =
     (if sg_readable st then (case map_of (sg_items st) (STORAGE_PREFIX @ key) of Some v \<Rightarrow> v | None \<Rightarrow> fallback) else fallback)"

definition storageSet :: "string \<Rightarrow> string \<Rightarrow> demo_storage \<Rightarrow> demo_storage" where
  "storageSet key v st =
     (if sg_writable st then st\<lparr>sg_items := AList.update (STORAGE_PREFIX @ key) v (sg_items st)\<rparr> else st)"

subsection \<open>Requests\<close>

record demo_seed =
  sd_layout :: jsval
  sd_locos :: jsval
  sd_signalRules :: string

text \<open>
  What the code reads of a request: the path of its address, the parameter \<open>path\<close>, the method, the body (which may not be
  readable) and the field \<open>file\<close> of a form (the form may not be readable, and may hold no file).
\<close>

record demo_request =
  dr_pathname :: string
  dr_path :: "string option"
  dr_method :: string
  dr_body :: "string option"
  dr_form :: "(string \<times> string) option option"

datatype demo_body = JsonBody jsval | TextBody string

record demo_response =
  rs_status :: int
  rs_body :: demo_body

definition jsonResponse :: "jsval \<Rightarrow> int option \<Rightarrow> demo_response" where
  "jsonResponse v status = \<lparr>rs_status = (case status of Some s \<Rightarrow> s | None \<Rightarrow> 200), rs_body = JsonBody v\<rparr>"

definition textResponse :: "string \<Rightarrow> int option \<Rightarrow> demo_response" where
  "textResponse v status = \<lparr>rs_status = (case status of Some s \<Rightarrow> s | None \<Rightarrow> 200), rs_body = TextBody v\<rparr>"

definition requestBodyText :: "demo_request \<Rightarrow> string" where
  "requestBodyText r = (case dr_body r of Some s \<Rightarrow> s | None \<Rightarrow> [])"

definition defaultNetworkSettings :: "string \<Rightarrow> jsval" where
  "defaultNetworkSettings href =
     JObj [(''configured'', JBool False), (''ssid'', JStr []), (''hasPassword'', JBool False), (''hostname'', JStr ''dccex-demo''),
       (''mode'', JStr ''station''), (''currentIp'', JStr ''demo''), (''connectionUrl'', JStr href), (''restartPending'', JBool False)]"

definition ends_with :: "string \<Rightarrow> string \<Rightarrow> bool" where
  "ends_with s t \<longleftrightarrow> length t \<le> length s \<and> drop (length s - length t) s = t"

definition upper_char :: "char \<Rightarrow> char" where
  "upper_char c = (if 97 \<le> (of_char c :: nat) \<and> (of_char c :: nat) \<le> 122 then char_of ((of_char c :: nat) - 32) else c)"

definition ok_demo :: jsval where
  "ok_demo = JObj [(''ok'', JBool True), (''demo'', JBool True)]"

definition network_unchanged :: jsval where
  "network_unchanged = JObj [(''ok'', JBool True), (''message'', JStr ''Demo mode: network settings are not changed.'')]"

definition fsinfo :: jsval where
  "fsinfo =
     JObj [(''total'', js_int 4096), (''used'', js_int 860), (''free'', js_int 3236), (''totalBytes'', js_int (4 * 1024 * 1024)),
       (''usedBytes'', js_int (860 * 1024)), (''freeBytes'', js_int (3236 * 1024)), (''flashChipBytes'', js_int (16 * 1024 * 1024)),
       (''firmwareBytes'', js_int (1450 * 1024)), (''firmwarePartitionBytes'', js_int (2 * 1024 * 1024)),
       (''otaPartitionBytes'', js_int (2 * 1024 * 1024)), (''systemReservedBytes'', js_int (8 * 1024 * 1024))]"

text \<open>A document that is kept in the storage. \<open>JSON.parse\<close> throws on a text that is no JSON; the request then fails.\<close>

definition stored_document :: "string \<Rightarrow> jsval \<Rightarrow> demo_storage \<Rightarrow> string + demo_response option" where
  "stored_document key fallback st =
     (case json_parse (storageGet key (js_stringify fallback) st) of
        Inl e \<Rightarrow> Inl e
      | Inr v \<Rightarrow> Inr (Some (jsonResponse v None)))"

definition handleDemoFetch :: "demo_seed \<Rightarrow> string \<Rightarrow> int \<Rightarrow> demo_request \<Rightarrow> demo_storage \<Rightarrow> (string + demo_response option) \<times> demo_storage" where
  "handleDemoFetch seed href now r st =
     (let pathname = dr_pathname r; method = map upper_char (dr_method r); answer = (\<lambda>v. (Inr (Some (jsonResponse v None)), st)) in
      if ends_with pathname ''/version.json'' then answer (JObj [(''version'', JStr ''DEMO'')])
      else if pathname = ''/api/locos'' \<and> method = ''GET'' then (stored_document ''locos'' (sd_locos seed) st, st)
      else if pathname = ''/api/locos'' \<and> method = ''POST'' then
        (Inr (Some (jsonResponse ok_demo None)), storageSet ''locos'' (requestBodyText r) st)
      else if pathname = ''/api/layout'' \<and> method = ''GET'' then (stored_document ''layout'' (sd_layout seed) st, st)
      else if pathname = ''/api/layout'' \<and> method = ''POST'' then
        (Inr (Some (jsonResponse ok_demo None)), storageSet ''layout'' (requestBodyText r) st)
      else if pathname = ''/api/settings/network'' \<and> method = ''GET'' then answer (defaultNetworkSettings href)
      else if pathname = ''/api/settings/network'' \<and> method = ''POST'' then answer network_unchanged
      else if pathname = ''/api/settings/network/reset'' then answer network_unchanged
      else if pathname = ''/fsinfo'' then answer fsinfo
      else if pathname = ''/api/devices'' then
        answer (JObj [(''scannedAtMs'', js_int now), (''configuredDevices'', JArr []), (''i2cDevices'', JArr [])])
      else if pathname = ''/api/files/text'' then
        (if (case dr_path r of Some p \<Rightarrow> p | None \<Rightarrow> []) = ''/signal-rules.jsonl''
         then (Inr (Some (textResponse (storageGet ''signal-rules.jsonl'' (sd_signalRules seed) st) None)), st)
         else (Inr (Some (textResponse ''Demo file not found.'' (Some 404))), st))
      else if pathname = ''/upload'' \<and> method = ''POST'' then
        (case dr_form r of
           None \<Rightarrow> (Inr (Some (jsonResponse (JObj [(''ok'', JBool False), (''message'', JStr ''Demo upload failed.'')]) (Some 400))), st)
         | Some file \<Rightarrow>
             (Inr (Some (jsonResponse ok_demo None)), case file of Some (name, body) \<Rightarrow> storageSet name body st | None \<Rightarrow> st))
      else if pathname = ''/list'' then
        answer (JObj [(''path'', JStr (case dr_path r of Some p \<Rightarrow> p | None \<Rightarrow> ''/'')), (''entries'', JArr [])])
      else if pathname = ''/delete'' then answer ok_demo
      else (Inr None, st))"

subsection \<open>The socket\<close>

text \<open>
  The messages to come are the pending timers without delay, in their order; the connection timer is one of its own.
\<close>

record demo_socket =
  dm_readyState :: ready_state
  dm_opening :: bool
  dm_trackPowerOn :: bool
  dm_queue :: "(string \<times> jsval) list"

definition new_demo_socket :: demo_socket where
  "new_demo_socket = \<lparr>dm_readyState = ReadyConnecting, dm_opening = True, dm_trackPowerOn = True, dm_queue = []\<rparr>"

definition demo_emit :: "string \<Rightarrow> jsval \<Rightarrow> demo_socket \<Rightarrow> demo_socket" where
  "demo_emit type data s = s\<lparr>dm_queue := dm_queue s @ [(type, data)]\<rparr>"

definition message_text :: "string \<times> jsval \<Rightarrow> string" where
  "message_text m = (case m of (type, data) \<Rightarrow> js_stringify (JObj [(''type'', JStr type), (''data'', data)]))"

definition emitPowerInfo :: "demo_socket \<Rightarrow> demo_socket" where
  "emitPowerInfo s =
     demo_emit ''powerInfo''
       (JObj [(''emergencyStop'', JBool False), (''trackVoltageOn'', JBool (dm_trackPowerOn s)),
          (''trackVoltageOff'', JBool (\<not> dm_trackPowerOn s)), (''shortCircuit'', JBool False), (''programmingModeActive'', JBool False)]) s"

definition demo_status :: "int \<Rightarrow> bool \<Rightarrow> jsval" where
  "demo_status now powered =
     JObj [(''version'', JStr ''DEMO''), (''hardware'', JStr ''Browser simulator''), (''trackVoltageOn'', JBool powered),
       (''voltageMeasured'', JBool False), (''trackVoltageV'', JNull), (''mainCurrentMa'', js_int 185), (''progCurrentMa'', js_int 0),
       (''uptimeMs'', js_int now), (''freeHeapBytes'', js_int (196 * 1024)), (''minimumFreeHeapBytes'', js_int (164 * 1024)),
       (''largestFreeHeapBlockBytes'', js_int (120 * 1024)), (''cpuCores'', js_int 2), (''cpuFrequencyMhz'', js_int 240),
       (''cpuCore0Percent'', js_int 8), (''cpuCore1Percent'', js_int 4), (''chipTemperatureC'', JNum (Fin (85 / 2))),
       (''wsClients'', js_int 1), (''wsCommandQueueLength'', js_int 0), (''droppedWsCommands'', js_int 0),
       (''droppedWsTelemetry'', js_int 0), (''droppedWsControl'', js_int 0), (''droppedWsLowMemory'', js_int 0),
       (''resetReason'', JStr ''demo'')]"

definition emitInitialState :: "int \<Rightarrow> demo_socket \<Rightarrow> demo_socket" where
  "emitInitialState now s =
     (let s1 = demo_emit ''commandCenterInfo''
            (JObj [(''alive'', JBool True), (''type'', JStr ''dcc-ex-demo''), (''name'', JStr ''DCCExpress Lite DEMO''),
               (''connectionString'', JStr ''demo://browser'')]) s;
          s2 = emitPowerInfo s1;
          s3 = demo_emit ''commandCenterLockChanged'' (JObj [(''locked'', JBool False), (''lockOwner'', JNull), (''reason'', JNull)]) s2
      in demo_emit ''dccExStatus'' (demo_status now (dm_trackPowerOn s3)) s3)"

text \<open>\<open>Number(x) || n\<close>, \<open>String(x ?? s)\<close>, \<open>x === true\<close>\<close>

definition number_or :: "int \<Rightarrow> jsval \<Rightarrow> jsval" where
  "number_or n v = (let x = to_number v in if x = NaN \<or> x = Fin 0 then js_int n else JNum x)"

definition text_or :: "string \<Rightarrow> jsval \<Rightarrow> jsval" where
  "text_or s v = JStr (if v = JUndef \<or> v = JNull then s else to_text v)"

definition is_true :: "jsval \<Rightarrow> jsval" where
  "is_true v = JBool (v = JBool True)"

definition handleCommand :: "int \<Rightarrow> string \<Rightarrow> jsval \<Rightarrow> demo_socket \<Rightarrow> demo_socket" where
  "handleCommand now type payload s =
     (let field = js_get payload in
      if type = ''heartbeat'' then demo_emit ''heartbeatAck'' (JObj []) s
      else if type = ''setTrackPower'' then emitPowerInfo (s\<lparr>dm_trackPowerOn := (field ''on'' = JBool True)\<rparr>)
      else if type = ''setTurnout'' then
        demo_emit ''turnoutChanged'' (JObj [(''address'', number_or 0 (field ''address'')), (''closed'', is_true (field ''closed''))]) s
      else if type = ''setBasicAccessory'' then
        demo_emit ''accessoryChanged'' (JObj [(''address'', number_or 0 (field ''address'')), (''active'', is_true (field ''active''))]) s
      else if type = ''setVpin'' then
        demo_emit ''vpinChanged'' (JObj [(''vpin'', number_or 0 (field ''vpin'')), (''active'', is_true (field ''active''))]) s
      else if type = ''setSignalAspect'' then
        demo_emit ''signalAspectChanged'' (JObj [(''address'', number_or 0 (field ''address'')), (''aspect'', number_or 0 (field ''aspect''))]) s
      else if type = ''setSensor'' then
        demo_emit ''sensorChanged'' (JObj [(''address'', number_or 0 (field ''address'')), (''on'', is_true (field ''on''))]) s
      else if type = ''setLoco'' \<or> type = ''getLoco'' then
        demo_emit ''locoState''
          (JObj [(''loco'', JObj [(''address'', number_or 3 (field ''locoAddress'')), (''speed'', number_or 0 (field ''speed'')),
             (''direction'', JStr (if field ''direction'' = JStr ''reverse'' then ''reverse'' else ''forward'')), (''functions'', JObj [])])]) s
      else if type = ''writeDccExDirectCommand'' then
        demo_emit ''dccExDirectCommandResponse'' (JObj [(''response'', text_or [] (field ''command''))]) s
      else if type = ''getLayoutRuntimeSnapshot'' then
        demo_emit ''blockStateChanged'' (JObj []) (demo_emit ''sensorSnapshot'' (JObj [(''groups'', JArr [])]) (emitInitialState now s))
      else if type = ''programmingCommand'' then
        demo_emit ''programmingResponse''
          (JObj [(''requestId'', text_or ''demo'' (field ''requestId'')), (''action'', text_or [] (field ''action'')), (''ok'', JBool True),
             (''message'', JStr ''Demo mode: no decoder was changed.'')]) s
      else if type = ''signalLogicCommand'' then
        demo_emit ''signalLogicResponse''
          (JObj [(''requestId'', text_or ''demo'' (field ''requestId'')), (''action'', text_or [] (field ''action'')), (''ok'', JBool True),
             (''created'', JBool False),
             (''document'', JObj [(''version'', js_int 3), (''enabled'', JBool False), (''groups'', JArr [])]),
             (''issues'', JArr []), (''state'', JObj [(''running'', JBool False), (''enabled'', JBool False)])]) s
      else s)"

text \<open>
  \<open>send\<close>: a socket that is not open throws, as does reading a property of \<open>null\<close>; a text that is no JSON is ignored.
\<close>

definition demo_send :: "int \<Rightarrow> string \<Rightarrow> demo_socket \<Rightarrow> string + demo_socket" where
  "demo_send now data s =
     (if dm_readyState s \<noteq> ReadyOpen then Inl ''Demo WebSocket is not open.''
      else case json_parse data of
        Inl e \<Rightarrow> Inr s
      | Inr JNull \<Rightarrow> Inl ''TypeError''
      | Inr message \<Rightarrow>
          let type = (case js_get message ''type'' of JStr t \<Rightarrow> t | _ \<Rightarrow> []);
              payload = (case js_get message ''data'' of JObj kvs \<Rightarrow> JObj kvs | JArr xs \<Rightarrow> JArr xs | _ \<Rightarrow> JObj [])
          in Inr (handleCommand now type payload s))"

text \<open>Its state after \<open>close\<close>, and whether the close event is told.\<close>

definition demo_close :: "demo_socket \<Rightarrow> demo_socket \<times> bool" where
  "demo_close s = (if dm_readyState s = ReadyClosed then (s, False) else (s\<lparr>dm_readyState := ReadyClosed\<rparr>, True))"

text \<open>The two kinds of timers: whether the open event is told, and the text that is delivered.\<close>

definition open_timer :: "demo_socket \<Rightarrow> demo_socket \<times> bool" where
  "open_timer s =
     (let s1 = s\<lparr>dm_opening := False\<rparr>
      in if dm_readyState s1 \<noteq> ReadyConnecting then (s1, False) else (s1\<lparr>dm_readyState := ReadyOpen\<rparr>, True))"

definition emit_timer :: "demo_socket \<Rightarrow> demo_socket \<times> string option" where
  "emit_timer s =
     (case dm_queue s of
        [] \<Rightarrow> (s, None)
      | m # ms \<Rightarrow> (s\<lparr>dm_queue := ms\<rparr>, if dm_readyState s \<noteq> ReadyOpen then None else Some (message_text m)))"

subsection \<open>Documents survive\<close>

definition get_request :: "string \<Rightarrow> demo_request" where
  "get_request pathname = \<lparr>dr_pathname = pathname, dr_path = None, dr_method = ''GET'', dr_body = Some [], dr_form = None\<rparr>"

definition post_request :: "string \<Rightarrow> string \<Rightarrow> demo_request" where
  "post_request pathname body = \<lparr>dr_pathname = pathname, dr_path = None, dr_method = ''POST'', dr_body = Some body, dr_form = None\<rparr>"

definition document_default :: "demo_seed \<Rightarrow> string \<Rightarrow> jsval" where
  "document_default seed key = (if key = ''locos'' then sd_locos seed else sd_layout seed)"

lemma upper_fixed: "map upper_char ''GET'' = ''GET''" "map upper_char ''POST'' = ''POST''"
  by (simp_all add: upper_char_def)

lemma document_requests:
  assumes "key = ''locos'' \<or> key = ''layout''"
  shows "handleDemoFetch seed href now (get_request (''/api/'' @ key)) st = (stored_document key (document_default seed key) st, st)"
    and "handleDemoFetch seed href now (post_request (''/api/'' @ key) body) st = (Inr (Some (jsonResponse ok_demo None)), storageSet key body st)"
proof -
  have no: "\<not> ends_with ''/api/locos'' ''/version.json''" "\<not> ends_with ''/api/layout'' ''/version.json''" by (simp_all add: ends_with_def)
  show "handleDemoFetch seed href now (get_request (''/api/'' @ key)) st = (stored_document key (document_default seed key) st, st)"
    "handleDemoFetch seed href now (post_request (''/api/'' @ key) body) st = (Inr (Some (jsonResponse ok_demo None)), storageSet key body st)"
    using assms no upper_fixed
    by (auto simp: handleDemoFetch_def get_request_def post_request_def document_default_def Let_def requestBodyText_def)
qed

lemma storage_read:
  "storageGet k fallback (storageSet key v st) =
     (if k = key \<and> sg_readable st \<and> sg_writable st then v else storageGet k fallback st)"
  by (simp add: storageGet_def storageSet_def update_conv')

text \<open>What is saved in the demo is loaded again: after the layout (or the locomotives) was posted as a JSON text, getting it
  answers the value of that text, a text that is no JSON makes it fail until the next post, and the other document is not touched. When the storage is
  blocked nothing changes, and an empty storage answers the demo data.\<close>

theorem demo_saves:
  assumes "(key, other) = (''locos'', ''layout'') \<or> (key, other) = (''layout'', ''locos'')"
    and "st' = snd (handleDemoFetch seed href now (post_request (''/api/'' @ key) body) st)"
  shows "fst (handleDemoFetch seed href now' (get_request (''/api/'' @ key)) st') =
      (if sg_readable st \<and> sg_writable st
       then (case json_parse body of Inr v \<Rightarrow> Inr (Some (jsonResponse v None)) | Inl e \<Rightarrow> Inl e)
       else fst (handleDemoFetch seed href now' (get_request (''/api/'' @ key)) st)) \<and>
    fst (handleDemoFetch seed href now' (get_request (''/api/'' @ other)) st') =
      fst (handleDemoFetch seed href now' (get_request (''/api/'' @ other)) st) \<and>
    (sg_items st = [] \<longrightarrow>
      fst (handleDemoFetch seed href now' (get_request (''/api/'' @ key)) st) =
        (case json_parse (js_stringify (document_default seed key)) of
           Inr v \<Rightarrow> Inr (Some (jsonResponse v None)) | Inl e \<Rightarrow> Inl e))"
proof -
  have key: "key = ''locos'' \<or> key = ''layout''" and other: "other = ''locos'' \<or> other = ''layout''" and ne: "other \<noteq> key"
    using assms(1) by auto
  have st': "st' = storageSet key body st" using assms(2) document_requests(2) [OF key] by simp
  show ?thesis
    unfolding document_requests(1) [OF key] document_requests(1) [OF other] st' fst_conv stored_document_def storage_read
    using ne by (auto simp: storageGet_def)
qed

theorem demo_saves_witness:
  "fst (handleDemoFetch \<lparr>sd_layout = JObj [], sd_locos = JArr [], sd_signalRules = []\<rparr> [] 7 (get_request ''/api/layout'')
     (snd (handleDemoFetch \<lparr>sd_layout = JObj [], sd_locos = JArr [], sd_signalRules = []\<rparr> [] 5 (post_request ''/api/layout'' ''[true]'')
        \<lparr>sg_items = [], sg_readable = True, sg_writable = True\<rparr>))) = Inr (Some (jsonResponse (JArr [JBool True]) None))"
proof -
  have "json_parse ''[true]'' = Inr (JArr [JBool True])" by code_simp
  then show ?thesis
    using demo_saves [of "''layout''" "''locos''" _ "\<lparr>sd_layout = JObj [], sd_locos = JArr [], sd_signalRules = []\<rparr>" "[]" 5 "''[true]''"
        "\<lparr>sg_items = [], sg_readable = True, sg_writable = True\<rparr>" 7, OF _ refl] by simp
qed

end
