(* ===== verification/DemoClient.thy ===== *)
theory DemoClient
  imports DemoServer RouteExecution WsInvariant
begin

text \<open>
  The client of theory \<open>WsClient\<close> over the sockets of the demo server: \<open>window.WebSocket = DemoWebSocket\<close>. A step is a call
  of the client, a timer of the client, or a timer of a demo socket; what the client does to its sockets meanwhile reaches the
  demo sockets at once, and closing one tells the close event within the call. Theorem \<open>demo_refines\<close>: the demo behaves
  as the browser that theory \<open>WsClient\<close> assumes, so everything that is proved of the client there holds in the demo.
\<close>

subsection \<open>Client and demo sockets\<close>

record demo_system =
  ds_ws :: ws
  ds_sockets :: "demo_socket list"

definition new_demo :: demo_system where
  "new_demo = \<lparr>ds_ws = new_client, ds_sockets = []\<rparr>"

definition any_url :: "string \<Rightarrow> bool" where "any_url u = True"

definition update_demo :: "nat \<Rightarrow> (demo_socket \<Rightarrow> demo_socket) \<Rightarrow> demo_socket list \<Rightarrow> demo_socket list" where
  "update_demo k f ss = (if k < length ss then ss[k := f (ss ! k)] else ss)"

text \<open>The texts that an operation sent reach the demo sockets; a \<open>send\<close> that throws changes nothing.\<close>

definition receive :: "int \<Rightarrow> emitted \<Rightarrow> demo_socket list \<Rightarrow> demo_socket list" where
  "receive now e ss =
     (case e of
        SentText k text \<Rightarrow> update_demo k (\<lambda>s. case demo_send now text s of Inr s' \<Rightarrow> s' | Inl err \<Rightarrow> s) ss
      | _ \<Rightarrow> ss)"

text \<open>\<open>close()\<close> of socket \<open>k\<close>, with the close event that it tells\<close>

definition close_demo :: "nat \<Rightarrow> demo_system \<Rightarrow> demo_system" where
  "close_demo k d =
     (if k < length (ds_sockets d) \<and> ready_of k (ds_ws d) = ReadyClosing
      then (case demo_close (ds_sockets d ! k) of
              (s, told) \<Rightarrow>
                \<lparr>ds_ws = (let w = set_ready ReadyClosed k (ds_ws d) in if told then close_event k w else w),
                 ds_sockets = (ds_sockets d)[k := s]\<rparr>)
      else d)"

text \<open>The demo system after an operation of the client has turned it into \<open>w\<close>: new sockets, sent texts, closed sockets.\<close>

definition after_client :: "ws \<Rightarrow> demo_system \<Rightarrow> demo_system" where
  "after_client w d =
     (let created = ds_sockets d @ replicate (length (w_sockets w) - length (ds_sockets d)) new_demo_socket;
          received = fold (receive (w_now w)) (drop (length (w_out (ds_ws d))) (w_out w)) created
      in fold close_demo [0..<length received] \<lparr>ds_ws = w, ds_sockets = received\<rparr>)"

text \<open>Whether \<open>socket.send\<close> of the client succeeds.\<close>

definition accepts :: "string \<Rightarrow> demo_system \<Rightarrow> bool" where
  "accepts text d =
     (case w_socket (ds_ws d) of
        Some k \<Rightarrow> k < length (ds_sockets d) \<and> (case demo_send (w_now (ds_ws d)) text (ds_sockets d ! k) of Inr s \<Rightarrow> True | Inl e \<Rightarrow> False)
      | None \<Rightarrow> False)"

datatype demo_event = ClientCalls ws_event | OpenTimer nat | EmitTimer nat

definition socket_event :: "ws_event \<Rightarrow> bool" where
  "socket_event ev =
     (case ev of SocketOpens k ok \<Rightarrow> True | SocketMessage k text \<Rightarrow> True | SocketClosing k \<Rightarrow> True | SocketCloses k \<Rightarrow> True
      | SocketFails k \<Rightarrow> True | _ \<Rightarrow> False)"

definition with_demo :: "demo_system \<Rightarrow> ws_event \<Rightarrow> ws_event" where
  "with_demo d ev =
     (case ev of
        CallSend m ok \<Rightarrow> CallSend m (accepts (json_stringify m) d)
      | TimerFires i ok \<Rightarrow> TimerFires i (accepts (json_stringify heartbeat_message) d)
      | _ \<Rightarrow> ev)"

definition demo_enabled :: "demo_event \<Rightarrow> demo_system \<Rightarrow> bool" where
  "demo_enabled ev d =
     (case ev of
        ClientCalls e \<Rightarrow> ws_enabled e (ds_ws d) \<and> \<not> socket_event e
      | OpenTimer k \<Rightarrow> k < length (ds_sockets d) \<and> dm_opening (ds_sockets d ! k)
      | EmitTimer k \<Rightarrow> k < length (ds_sockets d) \<and> dm_queue (ds_sockets d ! k) \<noteq> [])"

text \<open>
  The open event is told with the demo socket open already, so the heartbeat that the client sends in its handler arrives; the initial
  state follows.
\<close>

definition demo_step :: "demo_event \<Rightarrow> demo_system \<Rightarrow> demo_system" where
  "demo_step ev d =
     (case ev of
        ClientCalls e \<Rightarrow> after_client (ws_step any_url (with_demo d e) (ds_ws d)) d
      | OpenTimer k \<Rightarrow>
          (case open_timer (ds_sockets d ! k) of
             (s, told) \<Rightarrow>
               let d1 = d\<lparr>ds_sockets := (ds_sockets d)[k := s]\<rparr> in
               if \<not> told then d1
               else let d2 = after_client (ws_step any_url (SocketOpens k (accepts (json_stringify heartbeat_message) d1)) (ds_ws d1)) d1
                    in d2\<lparr>ds_sockets := update_demo k (emitInitialState (w_now (ds_ws d2))) (ds_sockets d2)\<rparr>)
      | EmitTimer k \<Rightarrow>
          (case emit_timer (ds_sockets d ! k) of
             (s, text) \<Rightarrow>
               let d1 = d\<lparr>ds_sockets := (ds_sockets d)[k := s]\<rparr> in
               case text of
                 None \<Rightarrow> d1
               | Some t \<Rightarrow> after_client (ws_step any_url (SocketMessage k t) (ds_ws d1)) d1))"

inductive demo_reachable :: "demo_system \<Rightarrow> bool" where
  demo_start: "demo_reachable new_demo"
| demo_next: "demo_reachable d \<Longrightarrow> demo_enabled ev d \<Longrightarrow> demo_reachable (demo_step ev d)"

fun demo_run :: "demo_event list \<Rightarrow> demo_system \<Rightarrow> demo_system option" where
  "demo_run [] d = Some d"
| "demo_run (ev # evs) d = (if demo_enabled ev d then demo_run evs (demo_step ev d) else None)"

lemma demo_run_reachable: "demo_reachable d \<Longrightarrow> demo_run evs d = Some d' \<Longrightarrow> demo_reachable d'"
  by (induction evs arbitrary: d) (auto split: if_splits intro: demo_next)

lemma demo_run_append: "demo_run (es @ fs) d = (case demo_run es d of Some d' \<Rightarrow> demo_run fs d' | None \<Rightarrow> None)"
  by (induction es arbitrary: d) auto

subsection \<open>What the client does to its sockets\<close>

text \<open>Sockets are only added, the new ones connecting; an old one keeps its state or was told to close.\<close>

definition socket_before :: "ws \<Rightarrow> nat \<Rightarrow> ready_state" where
  "socket_before w k = (if k < length (w_sockets w) then ready_of k w else ReadyConnecting)"

definition sockets_step :: "ws \<Rightarrow> ws \<Rightarrow> bool" where
  "sockets_step w w' \<longleftrightarrow> length (w_sockets w) \<le> length (w_sockets w') \<and>
     (\<forall>k<length (w_sockets w'). ready_of k w' = socket_before w k \<or> ready_of k w' = ReadyClosing \<and> socket_before w k \<noteq> ReadyClosed)"

lemma sockets_stepD:
  "sockets_step w w' \<Longrightarrow> k < length (w_sockets w') \<Longrightarrow>
     ready_of k w' = socket_before w k \<or> ready_of k w' = ReadyClosing \<and> socket_before w k \<noteq> ReadyClosed"
  by (simp add: sockets_step_def)

lemma sockets_step_refl: "sockets_step w w"
  by (simp add: sockets_step_def socket_before_def)

lemma sockets_step_trans:
  assumes uv: "sockets_step u v" and vw: "sockets_step v w"
  shows "sockets_step u w"
proof -
  have "ready_of k w = socket_before u k \<or> ready_of k w = ReadyClosing \<and> socket_before u k \<noteq> ReadyClosed"
    if k: "k < length (w_sockets w)" for k
  proof (cases "k < length (w_sockets v)")
    case True
    then show ?thesis using sockets_stepD [OF uv True] sockets_stepD [OF vw k] by (auto simp: socket_before_def [of v])
  next
    case False
    then have "\<not> k < length (w_sockets u)" using uv by (simp add: sockets_step_def)
    then show ?thesis using False sockets_stepD [OF vw k] by (auto simp: socket_before_def)
  qed
  then show ?thesis using uv vw by (auto simp: sockets_step_def)
qed

lemma sockets_step_same: "w_sockets w' = w_sockets w \<Longrightarrow> sockets_step w w'"
  by (simp add: sockets_step_def socket_before_def ready_of_def)

lemma close_detach_step: "sockets_step w (close_socket k w)" "sockets_step w (detach k w)"
  by (auto simp: sockets_step_def socket_before_def close_socket_def detach_def set_ready_def update_socket_def ready_of_def nth_list_update)

lemma drop_step: "sockets_step w (drop_socket w)"
  unfolding drop_socket_def
  by (auto split: option.split intro: sockets_step_refl sockets_step_trans [OF sockets_step_trans [OF sockets_step_same close_detach_step(2)] close_detach_step(1)])

lemma plain_steps:
  "sockets_step w (emit es w)" "sockets_step w (setStatus st w)" "sockets_step w (clearReconnectTimer w)" "sockets_step w (stopHeartbeat w)"
  "sockets_step w (scheduleReconnect w)" "sockets_step w (remove_timer i w)" "sockets_step w (add_timer kind delay w)"
  "sockets_step w (w\<lparr>w_socket := a\<rparr>)" "sockets_step w (w\<lparr>w_manuallyClosed := b\<rparr>)" "sockets_step w (w\<lparr>w_url := c\<rparr>)"
  "sockets_step w (w\<lparr>w_reconnectAttempts := i'\<rparr>)" "sockets_step w (w\<lparr>w_lastMessageAt := i'\<rparr>)" "sockets_step w (w\<lparr>w_reconnectTimer := a\<rparr>)"
  "sockets_step w (w\<lparr>w_heartbeatTimer := a\<rparr>)" "sockets_step w (w\<lparr>w_now := i'\<rparr>)" "sockets_step w (w\<lparr>w_typedListeners := ls\<rparr>)"
  "sockets_step w (w\<lparr>w_statusListeners := ns\<rparr>)" "sockets_step w (w\<lparr>w_messageListeners := ns\<rparr>)" "sockets_step w (w\<lparr>w_outgoingListeners := ns\<rparr>)"
  by (rule sockets_step_same; simp add: emit_def setStatus_def clearReconnectTimer_def stopHeartbeat_def scheduleReconnect_def
      remove_timer_def add_timer_def Let_def split: option.split)+

lemma new_socket_step:
  "w_sockets w' = w_sockets w @ [\<lparr>so_url = u, so_ready = ReadyConnecting, so_attached = b\<rparr>] \<Longrightarrow> sockets_step w w'"
  by (auto simp: sockets_step_def socket_before_def ready_of_def nth_append less_Suc_eq)

lemma connect_sockets:
  "w_sockets (connect valid url w) = w_sockets w \<or>
   (\<exists>u. w_sockets (connect valid url w) = w_sockets w @ [\<lparr>so_url = u, so_ready = ReadyConnecting, so_attached = True\<rparr>])"
  by (auto simp: connect_def Let_def split: option.split)

lemmas socket_steps = plain_steps [THEN sockets_step_trans [rotated]] close_detach_step [THEN sockets_step_trans [rotated]]
  drop_step [THEN sockets_step_trans [rotated]]

lemma lost_step: "sockets_step u w \<Longrightarrow> sockets_step u (handleConnectionLost k w)"
  unfolding handleConnectionLost_def Let_def by (auto intro!: socket_steps)

lemma heartbeat_step: "sockets_step u w \<Longrightarrow> sockets_step u (sendHeartbeat ok w)"
  unfolding sendHeartbeat_def by (auto split: option.split intro: socket_steps lost_step)

lemma connect_step: "sockets_step u w \<Longrightarrow> sockets_step u (connect valid url w)"
  using connect_sockets [of valid url w] by (blast intro: sockets_step_trans sockets_step_same new_socket_step)

lemma open_socket_step: "sockets_step u w \<Longrightarrow> sockets_step u (on_open k ok w)"
  unfolding on_open_def startHeartbeat_def Let_def by (auto intro!: socket_steps heartbeat_step)

lemma message_step: "sockets_step u w \<Longrightarrow> sockets_step u (on_message k body w)"
  unfolding on_message_def deliver_def Let_def by (auto split: sum.split intro!: socket_steps)

lemma send_step: "sockets_step u w \<Longrightarrow> sockets_step u (fst (ws_send m ok w))"
  unfolding ws_send_def by (auto split: option.split intro!: socket_steps lost_step)

lemma client_step: "\<not> socket_event ev \<Longrightarrow> sockets_step w (ws_step any_url ev w)"
  unfolding ws_step_def
  by (cases ev)
    (auto simp: socket_event_def disconnect_def restartConnection_def reconnect_due_def heartbeat_tick_def Let_def
      subscribeStatus_def unsubscribeStatus_def subscribeMessages_def unsubscribeMessages_def subscribeOutgoingMessages_def
      unsubscribeOutgoingMessages_def on_type_def off_type_def
      split: option.split timer_kind.split
      intro!: sockets_step_refl socket_steps connect_step send_step lost_step heartbeat_step)

subsection \<open>The demo behaves as a browser\<close>

lemma handleCommand_fields [simp]:
  "dm_readyState (handleCommand now type payload s) = dm_readyState s" "dm_opening (handleCommand now type payload s) = dm_opening s"
  "dm_readyState (emitInitialState now s) = dm_readyState s" "dm_opening (emitInitialState now s) = dm_opening s"
  by (simp_all add: handleCommand_def emitInitialState_def emitPowerInfo_def demo_emit_def Let_def
      if_distrib [where f = dm_readyState] if_distrib [where f = dm_opening] cong: if_weak_cong)

lemma demo_send_fields:
  "demo_send now text s = Inr s' \<Longrightarrow> dm_readyState s' = dm_readyState s \<and> dm_opening s' = dm_opening s"
  by (cases "json_parse text"; cases "projr (json_parse text)") (auto simp: demo_send_def Let_def split: if_splits)

definition socket_kept :: "demo_socket \<Rightarrow> demo_socket \<Rightarrow> bool" where
  "socket_kept s s' \<longleftrightarrow> dm_readyState s' = dm_readyState s \<and> dm_opening s' = dm_opening s"

definition sockets_kept :: "demo_socket list \<Rightarrow> demo_socket list \<Rightarrow> bool" where
  "sockets_kept ss ss' \<longleftrightarrow> length ss' = length ss \<and> (\<forall>k<length ss. socket_kept (ss ! k) (ss' ! k))"

lemma sockets_kept_refl: "sockets_kept ss ss"
  by (simp add: sockets_kept_def socket_kept_def)

lemma update_kept: "(\<And>s. socket_kept s (f s)) \<Longrightarrow> sockets_kept ss (update_demo k f ss)"
  by (simp add: sockets_kept_def update_demo_def nth_list_update socket_kept_def)

lemma receive_kept: "sockets_kept ss (fold (receive now) es ss)"
proof (induction es arbitrary: ss)
  case (Cons e es)
  have "sockets_kept ss (receive now e ss)"
    by (auto simp: receive_def sockets_kept_refl socket_kept_def intro!: update_kept split: emitted.split sum.split dest: demo_send_fields)
  then show ?case using Cons.IH [of "receive now e ss"] by (auto simp: sockets_kept_def socket_kept_def)
qed (simp add: sockets_kept_refl)

text \<open>The demo sockets have the states the client thinks they have, but for those that the client is just closing.\<close>

definition sync_at :: "bool \<Rightarrow> demo_socket \<Rightarrow> ready_state \<Rightarrow> bool" where
  "sync_at closed_already s r \<longleftrightarrow>
     dm_readyState s \<noteq> ReadyClosing \<and> (dm_readyState s = ReadyConnecting \<longrightarrow> dm_opening s) \<and>
     (dm_readyState s = r \<or> \<not> closed_already \<and> r = ReadyClosing \<and> dm_readyState s \<noteq> ReadyClosed)"

definition sync_below :: "nat \<Rightarrow> demo_system \<Rightarrow> bool" where
  "sync_below n d \<longleftrightarrow> length (ds_sockets d) = length (w_sockets (ds_ws d)) \<and>
     (\<forall>k<length (ds_sockets d). sync_at (k < n) (ds_sockets d ! k) (ready_of k (ds_ws d)))"

definition in_sync :: "demo_system \<Rightarrow> bool" where
  "in_sync d \<longleftrightarrow> sync_below (length (ds_sockets d)) d"

lemma sync_at_same: "socket_kept s s' \<Longrightarrow> sync_at b s' r = sync_at b s r"
  by (simp add: sync_at_def socket_kept_def)

lemma close_event_sockets:
  assumes "ready_of k w = ReadyClosed"
  shows "length (w_sockets (close_event k w)) = length (w_sockets w)" and "ready_of j (close_event k w) = ready_of j w"
proof -
  have closed_socket: "ready_of k w' = ReadyClosed \<Longrightarrow> close_socket k w' = w'" for w' by (simp add: close_socket_def)
  have same: "ready_of j (detach k w') = ready_of j w'" "length (w_sockets (detach k w')) = length (w_sockets w')" for j w'
    by (auto simp: detach_def update_socket_def ready_of_def nth_list_update)
  have stop: "ready_of j ((stopHeartbeat w)\<lparr>w_socket := None\<rparr>) = ready_of j w" for j by (simp add: ready_of_def)
  have schedule: "ready_of j (scheduleReconnect w') = ready_of j w'" "length (w_sockets (scheduleReconnect w')) = length (w_sockets w')" for w'
    by (simp_all add: ready_of_def scheduleReconnect_def add_timer_def Let_def)
  let ?w = "detach k ((stopHeartbeat w)\<lparr>w_socket := None\<rparr>)"
  have "ready_of k ?w = ReadyClosed" by (simp only: same stop assms)
  then have c: "close_socket k ?w = ?w" by (rule closed_socket)
  have "length (w_sockets (handleConnectionLost k w)) = length (w_sockets w) \<and> ready_of j (handleConnectionLost k w) = ready_of j w"
    unfolding handleConnectionLost_def Let_def c
    by (simp add: same stop schedule)
  then show "length (w_sockets (close_event k w)) = length (w_sockets w)" "ready_of j (close_event k w) = ready_of j w"
    by (auto simp: close_event_def on_close_def)
qed

lemma ready_set_ready: "k < length (w_sockets w) \<Longrightarrow> ready_of j (set_ready r k w) = (if j = k then r else ready_of j w)"
  by (auto simp: ready_of_def set_ready_def update_socket_def nth_list_update)

lemma close_demo_step:
  assumes sync: "sync_below k d" and k: "k < length (ds_sockets d)" and ws: "ws_reachable any_url (ds_ws d)"
  shows "sync_below (Suc k) (close_demo k d) \<and> ws_reachable any_url (ds_ws (close_demo k d)) \<and>
    length (ds_sockets (close_demo k d)) = length (ds_sockets d)"
proof (cases "ready_of k (ds_ws d) = ReadyClosing")
  case True
  let ?w = "set_ready ReadyClosed k (ds_ws d)"
  have kw: "k < length (w_sockets (ds_ws d))" and at: "sync_at False (ds_sockets d ! k) ReadyClosing"
    using sync k True by (auto simp: sync_below_def split: if_splits)
  have s: "dm_readyState (ds_sockets d ! k) \<noteq> ReadyClosed" using at by (auto simp: sync_at_def)
  have eq: "close_demo k d = \<lparr>ds_ws = close_event k ?w, ds_sockets = (ds_sockets d)[k := (ds_sockets d ! k)\<lparr>dm_readyState := ReadyClosed\<rparr>]\<rparr>"
    using True k s by (simp add: close_demo_def demo_close_def)
  have rw: "ready_of k ?w = ReadyClosed" using kw by (simp add: ready_set_ready)
  have "ws_reachable any_url (ws_step any_url (SocketCloses k) (ds_ws d))"
    using ws_next [OF ws, of "SocketCloses k"] kw True by (simp add: ws_enabled_def)
  then have r: "ws_reachable any_url (close_event k ?w)" by (simp add: ws_step_def)
  have lw: "length (w_sockets ?w) = length (w_sockets (ds_ws d))" by (simp add: set_ready_def update_socket_def)
  have "sync_below (Suc k) (close_demo k d)"
    unfolding eq sync_below_def
  proof (intro conjI allI impI)
    fix j assume "j < length (ds_sockets \<lparr>ds_ws = close_event k ?w, ds_sockets = (ds_sockets d)[k := (ds_sockets d ! k)\<lparr>dm_readyState := ReadyClosed\<rparr>]\<rparr>)"
    then have j: "j < length (ds_sockets d)" by simp
    then have at: "sync_at (j < k) (ds_sockets d ! j) (ready_of j (ds_ws d))" using sync by (simp add: sync_below_def)
    show "sync_at (j < Suc k) (ds_sockets \<lparr>ds_ws = close_event k ?w, ds_sockets = (ds_sockets d)[k := (ds_sockets d ! k)\<lparr>dm_readyState := ReadyClosed\<rparr>]\<rparr> ! j)
       (ready_of j (ds_ws \<lparr>ds_ws = close_event k ?w, ds_sockets = (ds_sockets d)[k := (ds_sockets d ! k)\<lparr>dm_readyState := ReadyClosed\<rparr>]\<rparr>))"
      using at j k by (auto simp: close_event_sockets(2) [OF rw] ready_set_ready [OF kw] nth_list_update sync_at_def less_Suc_eq kw)
  qed (use sync in \<open>simp add: sync_below_def close_event_sockets(1) [OF rw] lw\<close>)
  then show ?thesis using r by (simp add: eq)
next
  case False
  have "close_demo k d = d" using False by (simp add: close_demo_def)
  moreover have "sync_below (Suc k) d"
    using sync False unfolding sync_below_def by (auto simp: sync_at_def less_Suc_eq)
  ultimately show ?thesis using ws by simp
qed

lemma close_all:
  assumes "sync_below 0 d" and "ws_reachable any_url (ds_ws d)" and "n \<le> length (ds_sockets d)"
  shows "sync_below n (fold close_demo [0..<n] d) \<and> ws_reachable any_url (ds_ws (fold close_demo [0..<n] d)) \<and>
    length (ds_sockets (fold close_demo [0..<n] d)) = length (ds_sockets d)"
  using assms(3)
proof (induction n)
  case (Suc n)
  let ?d = "fold close_demo [0..<n] d"
  have "sync_below n ?d" "ws_reachable any_url (ds_ws ?d)" "length (ds_sockets ?d) = length (ds_sockets d)" using Suc by simp_all
  then show ?case using close_demo_step [of n ?d] Suc.prems by simp
qed (use assms in simp)

lemma after_client_ok:
  assumes sync: "in_sync \<lparr>ds_ws = v, ds_sockets = ds_sockets d\<rparr>" and step: "sockets_step v w" and ws: "ws_reachable any_url w"
  shows "in_sync (after_client w d) \<and> ws_reachable any_url (ds_ws (after_client w d))"
proof -
  let ?created = "ds_sockets d @ replicate (length (w_sockets w) - length (ds_sockets d)) new_demo_socket"
  define received where "received = fold (receive (w_now w)) (drop (length (w_out (ds_ws d))) (w_out w)) ?created"
  have kept: "sockets_kept ?created received" by (simp add: received_def receive_kept)
  have lv: "length (ds_sockets d) = length (w_sockets v)" using sync by (simp add: in_sync_def sync_below_def)
  have "sync_at False (?created ! k) (ready_of k w)" if k: "k < length (w_sockets w)" for k
  proof (cases "k < length (ds_sockets d)")
    case True
    then have "sync_at True (ds_sockets d ! k) (ready_of k v)" using sync by (simp add: in_sync_def sync_below_def)
    moreover have "ready_of k w = ready_of k v \<or> ready_of k w = ReadyClosing \<and> ready_of k v \<noteq> ReadyClosed"
      using sockets_stepD [OF step k] True lv by (auto simp: socket_before_def)
    ultimately show ?thesis using True by (auto simp: sync_at_def nth_append)
  next
    case False
    then have "ready_of k w = ReadyConnecting \<or> ready_of k w = ReadyClosing"
      using sockets_stepD [OF step k] lv by (auto simp: socket_before_def)
    then show ?thesis using False k by (auto simp: sync_at_def nth_append new_demo_socket_def)
  qed
  moreover have l: "length ?created = length (w_sockets w)" using step lv by (simp add: sockets_step_def)
  ultimately have "sync_below 0 \<lparr>ds_ws = w, ds_sockets = received\<rparr>"
    using kept by (auto simp: sync_below_def sockets_kept_def sync_at_same)
  from close_all [OF this, of "length received"] ws
  have "sync_below (length received) (after_client w d)" "ws_reachable any_url (ds_ws (after_client w d))"
      "length (ds_sockets (after_client w d)) = length received"
    by (simp_all add: after_client_def Let_def flip: received_def)
  then show ?thesis by (simp add: in_sync_def)
qed

lemma with_demo_kept: "socket_event (with_demo d e) = socket_event e" "ws_enabled (with_demo d e) w = ws_enabled e w"
  by (cases e; simp add: with_demo_def socket_event_def ws_enabled_def)+

lemma sync_length: "in_sync d \<Longrightarrow> length (ds_sockets d) = length (w_sockets (ds_ws d))"
  by (simp add: in_sync_def sync_below_def)

lemma sync_ready:
  "in_sync d \<Longrightarrow> k < length (ds_sockets d) \<Longrightarrow> dm_readyState (ds_sockets d ! k) = ready_of k (ds_ws d) \<and>
     ready_of k (ds_ws d) \<noteq> ReadyClosing \<and> (ready_of k (ds_ws d) = ReadyConnecting \<longrightarrow> dm_opening (ds_sockets d ! k))"
  by (auto simp: in_sync_def sync_below_def sync_at_def)

lemma in_syncI:
  assumes "length (ds_sockets d) = length (w_sockets (ds_ws d))"
    and "\<And>k. k < length (ds_sockets d) \<Longrightarrow> dm_readyState (ds_sockets d ! k) = ready_of k (ds_ws d) \<and>
      ready_of k (ds_ws d) \<noteq> ReadyClosing \<and> (ready_of k (ds_ws d) = ReadyConnecting \<longrightarrow> dm_opening (ds_sockets d ! k))"
  shows "in_sync d"
  using assms by (simp add: in_sync_def sync_below_def sync_at_def)

lemma sync_kept: "in_sync d \<Longrightarrow> sockets_kept (ds_sockets d) ss \<Longrightarrow> in_sync (d\<lparr>ds_sockets := ss\<rparr>)"
  by (auto simp: in_sync_def sync_below_def sockets_kept_def sync_at_same)

lemma after_in_sync: "in_sync d \<Longrightarrow> sockets_step (ds_ws d) w \<Longrightarrow> ws_reachable any_url w \<Longrightarrow>
    in_sync (after_client w d) \<and> ws_reachable any_url (ds_ws (after_client w d))"
  by (rule after_client_ok [where v = "ds_ws d"]) (simp_all add: in_sync_def sync_below_def)

lemma pop_kept: "emit_timer s = (s', m) \<Longrightarrow> socket_kept s s'"
  by (auto simp: emit_timer_def socket_kept_def split: list.splits)

lemma kept_at: "socket_kept (ss ! k) s \<Longrightarrow> sockets_kept ss (ss[k := s])"
  by (cases "k < length ss") (simp_all add: sockets_kept_def socket_kept_def nth_list_update)

lemma emit_timer_text: "emit_timer s = (s', Some m) \<Longrightarrow> dm_readyState s = ReadyOpen"
  by (auto simp: emit_timer_def split: list.splits if_splits)

lemma ready_open_sockets:
  "length (w_sockets (set_ready r k w)) = length (w_sockets w)" "sockets_step (set_ready ReadyOpen k w) (ws_step any_url (SocketOpens k b) w)"
  by (simp_all add: set_ready_def [of r] update_socket_def ws_step_def Let_def open_socket_step [OF sockets_step_refl] sockets_step_refl)

lemma demo_step_ok:
  assumes sync: "in_sync d" and ws: "ws_reachable any_url (ds_ws d)" and "demo_enabled ev d"
  shows "in_sync (demo_step ev d) \<and> ws_reachable any_url (ds_ws (demo_step ev d))"
proof (cases ev)
  case (ClientCalls e)
  then have "ws_enabled (with_demo d e) (ds_ws d)" "\<not> socket_event (with_demo d e)" using assms(3) by (simp_all add: demo_enabled_def with_demo_kept)
  then show ?thesis using after_in_sync [OF sync client_step ws_next [OF ws]] ClientCalls by (simp add: demo_step_def)
next
  case (OpenTimer k)
  then have k: "k < length (ds_sockets d)" using assms(3) by (simp add: demo_enabled_def)
  let ?s = "ds_sockets d ! k"
  show ?thesis
  proof (cases "dm_readyState ?s = ReadyConnecting")
    case False
    then have "demo_step ev d = d\<lparr>ds_sockets := (ds_sockets d)[k := ?s\<lparr>dm_opening := False\<rparr>]\<rparr>"
      using OpenTimer by (simp add: demo_step_def open_timer_def)
    moreover have "in_sync (d\<lparr>ds_sockets := (ds_sockets d)[k := ?s\<lparr>dm_opening := False\<rparr>]\<rparr>)"
      using sync_ready [OF sync] sync_length [OF sync] False k by (intro in_syncI) (auto simp: nth_list_update)
    ultimately show ?thesis using ws by simp
  next
    case True
    let ?d1 = "d\<lparr>ds_sockets := (ds_sockets d)[k := ?s\<lparr>dm_opening := False, dm_readyState := ReadyOpen\<rparr>]\<rparr>"
    let ?b = "accepts (json_stringify heartbeat_message) ?d1"
    let ?w = "ws_step any_url (SocketOpens k ?b) (ds_ws d)"
    have kw: "k < length (w_sockets (ds_ws d))" and r: "ready_of k (ds_ws d) = ReadyConnecting"
      using k sync_length [OF sync] sync_ready [OF sync k] True by simp_all
    have "in_sync \<lparr>ds_ws = set_ready ReadyOpen k (ds_ws d), ds_sockets = ds_sockets ?d1\<rparr>"
      using sync_ready [OF sync] sync_length [OF sync] k
      by (intro in_syncI) (auto simp: nth_list_update ready_set_ready [OF kw] ready_open_sockets(1))
    moreover have "ws_reachable any_url ?w" using kw r by (intro ws_next [OF ws]) (simp add: ws_enabled_def)
    ultimately have after: "in_sync (after_client ?w ?d1) \<and> ws_reachable any_url (ds_ws (after_client ?w ?d1))"
      using after_client_ok ready_open_sockets(2) by blast
    have "demo_step ev d = (after_client ?w ?d1)\<lparr>ds_sockets :=
        update_demo k (emitInitialState (w_now (ds_ws (after_client ?w ?d1)))) (ds_sockets (after_client ?w ?d1))\<rparr>"
      using OpenTimer True by (simp add: demo_step_def open_timer_def Let_def)
    then show ?thesis using after by (auto simp: socket_kept_def intro!: sync_kept update_kept)
  qed
next
  case (EmitTimer k)
  then have k: "k < length (ds_sockets d)" using assms(3) by (simp add: demo_enabled_def)
  obtain s m where sm: "emit_timer (ds_sockets d ! k) = (s, m)" by force
  let ?d1 = "d\<lparr>ds_sockets := (ds_sockets d)[k := s]\<rparr>"
  have d1: "in_sync ?d1" by (rule sync_kept [OF sync kept_at [OF pop_kept [OF sm]]])
  show ?thesis
  proof (cases m)
    case None
    then show ?thesis using EmitTimer sm d1 ws by (simp add: demo_step_def)
  next
    case (Some t)
    have r: "ready_of k (ds_ws d) = ReadyOpen" using emit_timer_text sm Some sync_ready [OF sync k] by fastforce
    have "ws_reachable any_url (ws_step any_url (SocketMessage k t) (ds_ws d))"
      using k r sync_length [OF sync] by (intro ws_next [OF ws]) (simp add: ws_enabled_def)
    moreover have "sockets_step (ds_ws d) (ws_step any_url (SocketMessage k t) (ds_ws d))"
      by (simp add: ws_step_def message_step sockets_step_refl)
    ultimately show ?thesis using after_in_sync [OF d1] EmitTimer sm Some by (simp add: demo_step_def)
  qed
qed

lemma demo_reachable_ok: "demo_reachable d \<Longrightarrow> in_sync d \<and> ws_reachable any_url (ds_ws d)"
proof (induction rule: demo_reachable.induct)
  case demo_start
  show ?case by (simp add: new_demo_def in_sync_def sync_below_def ws_start) (simp add: new_client_def)
qed (simp add: demo_step_ok)

text \<open>A message of the client is an object, which an open demo socket accepts.\<close>

lemma demo_send_object:
  "dm_readyState s = ReadyOpen \<Longrightarrow> json_parse text = Inr (JObj kvs) \<Longrightarrow>
     demo_send now text s = Inr (handleCommand now (case js_get (JObj kvs) ''type'' of JStr t \<Rightarrow> t | _ \<Rightarrow> [])
       (case js_get (JObj kvs) ''data'' of JObj kvs \<Rightarrow> JObj kvs | JArr xs \<Rightarrow> JArr xs | _ \<Rightarrow> JObj []) s)"
  by (simp add: demo_send_def Let_def)

definition sample_demo_run :: "demo_event list" where
  "sample_demo_run = [ClientCalls (CallConnect (Some ''ws://demo'')), OpenTimer 0, EmitTimer 0]"

definition sample_demo :: demo_system where
  "sample_demo = the (demo_run sample_demo_run new_demo)"

lemma sample_demo_runs: "demo_run sample_demo_run new_demo = Some sample_demo"
proof -
  have "demo_run sample_demo_run new_demo \<noteq> None" by code_simp
  then show ?thesis by (auto simp: sample_demo_def)
qed

lemma sample_demo_reachable: "demo_reachable sample_demo"
  by (rule demo_run_reachable [OF demo_start sample_demo_runs])

text \<open>C27. The demo mode is a browser for the client: whatever the client calls and whichever timers of the client and the demo sockets fire,
  the client is in a state that theory WsClient reaches with an ordinary browser, every demo socket is in the state the client thinks
  it is in, and no socket that is still connecting has lost the timer that opens it.\<close>

theorem demo_refines:
  assumes "demo_reachable d"
  shows "ws_reachable any_url (ds_ws d) \<and> length (ds_sockets d) = length (w_sockets (ds_ws d)) \<and>
    (\<forall>k<length (ds_sockets d). dm_readyState (ds_sockets d ! k) = ready_of k (ds_ws d) \<and>
       (ready_of k (ds_ws d) = ReadyConnecting \<longrightarrow> dm_opening (ds_sockets d ! k)))"
  using demo_reachable_ok [OF assms] sync_length sync_ready by blast

theorem demo_refines_witness:
  "ws_reachable any_url (ds_ws sample_demo) \<and> length (ds_sockets sample_demo) = length (w_sockets (ds_ws sample_demo))"
  using demo_refines [OF sample_demo_reachable] by blast

end
