(* ===== verification/DemoAnswers.thy ===== *)
theory DemoAnswers
  imports DemoClient Commands
begin

text \<open>
  What the demo server answers, as the client hears it: the output commands of \<open>services/wsApi.ts\<close> come back as reports to the
  listeners of the page, and a click on a turnout ends in the report that the page shows.
\<close>

subsection \<open>Output commands and their reports\<close>

datatype output_command =
  OutTurnout int bool | OutAccessory int bool | OutVpin int bool | OutSensor int bool | OutAspect int int "bool option"

definition command_json :: "output_command \<Rightarrow> json" where
  "command_json c =
     (case c of OutTurnout a b \<Rightarrow> setTurnout a b | OutAccessory a b \<Rightarrow> setBasicAccessory a b | OutVpin a b \<Rightarrow> setVpin a b
      | OutSensor a b \<Rightarrow> setSensor a b | OutAspect a s p \<Rightarrow> setSignalAspect a s p)"

definition report_type :: "output_command \<Rightarrow> string" where
  "report_type c =
     (case c of OutTurnout a b \<Rightarrow> ''turnoutChanged'' | OutAccessory a b \<Rightarrow> ''accessoryChanged'' | OutVpin a b \<Rightarrow> ''vpinChanged''
      | OutSensor a b \<Rightarrow> ''sensorChanged'' | OutAspect a s p \<Rightarrow> ''signalAspectChanged'')"

definition report_data :: "output_command \<Rightarrow> (string \<times> json) list" where
  "report_data c =
     (case c of
        OutTurnout a b \<Rightarrow> [(''address'', TInt a), (''closed'', TBool b)]
      | OutAccessory a b \<Rightarrow> [(''address'', TInt a), (''active'', TBool b)]
      | OutVpin a b \<Rightarrow> [(''vpin'', TInt a), (''active'', TBool b)]
      | OutSensor a b \<Rightarrow> [(''address'', TInt a), (''on'', TBool b)]
      | OutAspect a s p \<Rightarrow> [(''address'', TInt a), (''aspect'', TInt s)])"

text \<open>Numbers that are written without an exponent\<close>

definition plain_command :: "output_command \<Rightarrow> bool" where
  "plain_command c =
     (case c of OutTurnout a b \<Rightarrow> \<bar>a\<bar> < 10 ^ 21 | OutAccessory a b \<Rightarrow> \<bar>a\<bar> < 10 ^ 21 | OutVpin a b \<Rightarrow> \<bar>a\<bar> < 10 ^ 21
      | OutSensor a b \<Rightarrow> \<bar>a\<bar> < 10 ^ 21 | OutAspect a s p \<Rightarrow> \<bar>a\<bar> < 10 ^ 21 \<and> \<bar>s\<bar> < 10 ^ 21)"

lemma number_or_int: "number_or 0 (js_int a) = js_int a"
  by (simp add: number_or_def Let_def) (simp add: js_int_def)

lemma message_accepted:
  assumes "dm_readyState s = ReadyOpen" and "json_ok (message type payload)"
  shows "demo_send now (json_stringify (message type payload)) s = Inr (handleCommand now type (json_value (TObj payload)) s)"
proof -
  have "json_parse (json_stringify (message type payload)) = Inr (JObj [(''type'', JStr type), (''data'', json_value (TObj payload))])"
    using json_parse_stringify [OF assms(2)] by (simp add: message_def)
  from demo_send_object [OF assms(1) this] show ?thesis by (simp add: js_get_def)
qed

lemmas output_commands = setTurnout_def setBasicAccessory_def setVpin_def setSensor_def setSignalAspect_def

lemma command_accepted:
  assumes "dm_readyState s = ReadyOpen"
  shows "demo_send now (json_stringify (command_json c)) s = Inr (demo_emit (report_type c) (json_value (TObj (report_data c))) s)"
proof (cases c)
  case (OutAspect a i p)
  then show ?thesis
    by (cases p) (simp_all add: command_json_def output_commands message_accepted [OF assms] message_def [THEN arg_cong [of _ _ json_ok]]
        handleCommand_def number_or_int report_type_def report_data_def js_get_def optional_json_def)
qed (simp_all add: command_json_def output_commands message_accepted [OF assms] message_def [THEN arg_cong [of _ _ json_ok]]
      handleCommand_def number_or_int is_true_def report_type_def report_data_def js_get_def)

lemma report_read:
  assumes "plain_command c"
  shows "json_parse (message_text (report_type c, json_value (TObj (report_data c)))) =
    Inr (json_value (message (report_type c) (report_data c)))"
proof -
  let ?m = "message (report_type c) (report_data c)"
  have "message_text (report_type c, json_value (TObj (report_data c))) = js_stringify (json_value ?m)"
    by (simp add: message_text_def message_def del: js_stringify.simps)
  also have "\<dots> = json_stringify ?m"
    using assms by (intro js_stringify_value) (cases c; simp add: message_def report_data_def plain_command_def)
  finally show ?thesis
    by (simp only:) (intro json_parse_stringify, cases c; simp add: message_def report_data_def)
qed

subsection \<open>Steps that leave the sockets alone\<close>

definition no_text :: "emitted list \<Rightarrow> bool" where
  "no_text es \<longleftrightarrow> (\<forall>k text. SentText k text \<notin> set es)"

lemma receive_nothing: "no_text es \<Longrightarrow> fold (receive now) es ss = ss"
proof (induction es arbitrary: ss)
  case (Cons e es)
  then have "no_text es" "receive now e ss = ss" by (cases e; auto simp: no_text_def receive_def)+
  then show ?case using Cons.IH by simp
qed simp

lemma close_nothing:
  assumes "\<And>k. k < length (ds_sockets d) \<Longrightarrow> ready_of k (ds_ws d) \<noteq> ReadyClosing"
  shows "fold close_demo ks d = d"
proof -
  have "close_demo k d = d" for k using assms by (auto simp: close_demo_def)
  then show ?thesis by (induction ks) simp_all
qed

text \<open>An operation that leaves the client's sockets as they are brings only its texts to the demo sockets.\<close>

lemma after_client_quiet:
  assumes sync: "in_sync \<lparr>ds_ws = v, ds_sockets = ds_sockets d\<rparr>" and same: "w_sockets w = w_sockets v"
    and out: "w_out w = w_out (ds_ws d) @ es"
  shows "after_client w d = \<lparr>ds_ws = w, ds_sockets = fold (receive (w_now w)) es (ds_sockets d)\<rparr>"
proof -
  let ?d = "\<lparr>ds_ws = w, ds_sockets = fold (receive (w_now w)) es (ds_sockets d)\<rparr>"
  have l: "length (fold (receive (w_now w)) es (ds_sockets d)) = length (ds_sockets d)"
    using receive_kept by (simp add: sockets_kept_def)
  have "fold close_demo [0..<length (ds_sockets d)] ?d = ?d"
  proof (rule close_nothing)
    fix k assume "k < length (ds_sockets ?d)"
    then show "ready_of k (ds_ws ?d) \<noteq> ReadyClosing"
      using sync_ready [OF sync, of k] sync_length [OF sync] l same by (auto simp: ready_of_def)
  qed
  then show ?thesis using sync_length [OF sync] same out l by (simp add: after_client_def Let_def)
qed

definition hears :: "nat \<Rightarrow> demo_system \<Rightarrow> bool" where
  "hears k d \<longleftrightarrow> in_sync d \<and> w_socket (ds_ws d) = Some k \<and> attached k (ds_ws d) \<and> ready_of k (ds_ws d) = ReadyOpen \<and> k < length (ds_sockets d)"

lemma reachable_hears:
  assumes "demo_reachable d" and "socket_open (ds_ws d) = Some k"
  shows "hears k d"
proof -
  have r: "in_sync d" "control_ok any_url (ds_ws d)"
    using demo_reachable_ok [OF assms(1)] ws_reachable_ok [of any_url "ds_ws d"] by (simp_all add: ws_ok_def)
  moreover have "w_socket (ds_ws d) = Some k" "ready_of k (ds_ws d) = ReadyOpen" using socket_open_socket [OF assms(2)] by simp_all
  moreover have "attached k (ds_ws d)" using calculation by (simp add: control_ok_def)
  ultimately show ?thesis using attached_in_range sync_length [OF r(1)] by (simp add: hears_def)
qed

lemma on_message_quiet:
  "w_sockets (on_message k body w) = w_sockets w" "w_socket (on_message k body w) = w_socket w"
  "w_typedListeners (on_message k body w) = w_typedListeners w" "w_messageListeners (on_message k body w) = w_messageListeners w"
  "\<exists>es. w_out (on_message k body w) = w_out w @ es \<and> no_text es"
  by (auto simp: on_message_def deliver_def emit_def Let_def no_text_def split: sum.split jsval.split option.split)

lemma message_delivered:
  assumes "hears k d" and "dm_queue (ds_sockets d ! k) = m # ms"
  shows "demo_enabled (EmitTimer k) d" and
    "demo_step (EmitTimer k) d =
      \<lparr>ds_ws = on_message k (message_text m) (ds_ws d), ds_sockets = (ds_sockets d)[k := (ds_sockets d ! k)\<lparr>dm_queue := ms\<rparr>]\<rparr>"
    and "hears k (demo_step (EmitTimer k) d)"
proof -
  let ?s = "ds_sockets d ! k" and ?w = "on_message k (message_text m) (ds_ws d)"
  have k: "k < length (ds_sockets d)" "in_sync d" and open_socket: "dm_readyState ?s = ReadyOpen"
    using assms(1) sync_ready [of d k] by (auto simp: hears_def)
  let ?d1 = "d\<lparr>ds_sockets := (ds_sockets d)[k := ?s\<lparr>dm_queue := ms\<rparr>]\<rparr>"
  have e: "emit_timer ?s = (?s\<lparr>dm_queue := ms\<rparr>, Some (message_text m))" using assms(2) open_socket by (simp add: emit_timer_def)
  have sync: "in_sync ?d1" by (rule sync_kept [OF k(2) kept_at [OF pop_kept [OF e]]])
  obtain es where es: "w_out ?w = w_out (ds_ws d) @ es" "no_text es" using on_message_quiet(5) by blast
  show "demo_enabled (EmitTimer k) d" using k(1) assms(2) by (simp add: demo_enabled_def)
  have "ws_step any_url (SocketMessage k (message_text m)) (ds_ws d) = ?w" using assms(1) by (simp add: ws_step_def hears_def)
  then have "demo_step (EmitTimer k) d = after_client ?w ?d1" using e by (simp add: demo_step_def)
  also have "\<dots> = \<lparr>ds_ws = ?w, ds_sockets = ds_sockets ?d1\<rparr>"
    using after_client_quiet [of "ds_ws d" ?d1 ?w es] sync es on_message_quiet(1)
    by (simp add: receive_nothing in_sync_def sync_below_def)
  finally show eq: "demo_step (EmitTimer k) d = \<lparr>ds_ws = ?w, ds_sockets = (ds_sockets d)[k := ?s\<lparr>dm_queue := ms\<rparr>]\<rparr>" by simp
  have "ready_of j ?w = ready_of j (ds_ws d)" "attached j ?w = attached j (ds_ws d)" for j
    by (simp_all add: ready_of_def attached_def on_message_quiet(1))
  then show "hears k (demo_step (EmitTimer k) d)"
    unfolding eq hears_def using assms(1) sync by (auto simp: hears_def on_message_quiet in_sync_def sync_below_def)
qed

text \<open>All messages of the queue, in their order\<close>

lemma queue_delivered:
  assumes "hears k d" and "dm_queue (ds_sockets d ! k) = ms"
  shows "\<exists>d'. demo_run (replicate (length ms) (EmitTimer k)) d = Some d' \<and>
    ds_ws d' = fold (on_message k) (map message_text ms) (ds_ws d)"
  using assms
proof (induction ms arbitrary: d)
  case (Cons m ms)
  let ?d = "demo_step (EmitTimer k) d"
  note step = message_delivered [OF Cons.prems]
  have k: "k < length (ds_sockets d)" using Cons.prems(1) by (simp add: hears_def)
  have "dm_queue (ds_sockets ?d ! k) = ms" using k by (simp add: step(2))
  from Cons.IH [OF step(3) this] show ?case using step(1) by (simp add: step(2))
qed simp

lemma delivered_keeps:
  "w_socket (fold (on_message k) ts w) = w_socket w" "w_typedListeners (fold (on_message k) ts w) = w_typedListeners w"
  by (induction ts arbitrary: w) (simp_all add: on_message_quiet)

subsection \<open>Commands come back as reports\<close>

lemma command_sent:
  assumes h: "hears k d"
  shows "demo_step (ClientCalls (CallSend (command_json c) b)) d =
      \<lparr>ds_ws = fst (ws_send (command_json c) True (ds_ws d)),
       ds_sockets = (ds_sockets d)[k := demo_emit (report_type c) (json_value (TObj (report_data c))) (ds_sockets d ! k)]\<rparr>"
    and "hears k (demo_step (ClientCalls (CallSend (command_json c) b)) d)"
proof -
  have sync: "in_sync d" and k: "k < length (ds_sockets d)" and r: "dm_readyState (ds_sockets d ! k) = ReadyOpen"
    and so: "socket_open (ds_ws d) = Some k" "w_socket (ds_ws d) = Some k"
    using h sync_ready [of d k] by (auto simp: hears_def socket_open_def)
  let ?m = "command_json c"
  let ?w = "fst (ws_send ?m True (ds_ws d))"
  have acc: "accepts (json_stringify ?m) d" using so k r by (simp add: accepts_def command_accepted)
  have w: "?w = emit (SentText k (json_stringify ?m) # map (\<lambda>l. OutgoingTo l ?m) (w_outgoingListeners (ds_ws d))) (ds_ws d)"
    using so by (simp add: ws_send_def)
  have keep: "w_sockets ?w = w_sockets (ds_ws d)" "w_socket ?w = w_socket (ds_ws d)" "w_now ?w = w_now (ds_ws d)"
    by (simp_all add: w emit_def)
  have "no_text (map (\<lambda>l. OutgoingTo l ?m) (w_outgoingListeners (ds_ws d)))" by (auto simp: no_text_def)
  then have recv: "fold (receive (w_now ?w)) (SentText k (json_stringify ?m) # map (\<lambda>l. OutgoingTo l ?m) (w_outgoingListeners (ds_ws d)))
      (ds_sockets d) = (ds_sockets d)[k := demo_emit (report_type c) (json_value (TObj (report_data c))) (ds_sockets d ! k)]"
    using k r by (simp add: receive_nothing) (simp add: receive_def update_demo_def command_accepted)
  have "ws_step any_url (with_demo d (CallSend ?m b)) (ds_ws d) = ?w" using acc by (simp add: with_demo_def ws_step_def)
  then have "demo_step (ClientCalls (CallSend ?m b)) d = after_client ?w d" by (simp add: demo_step_def)
  also have "\<dots> = \<lparr>ds_ws = ?w, ds_sockets = (ds_sockets d)[k := demo_emit (report_type c) (json_value (TObj (report_data c))) (ds_sockets d ! k)]\<rparr>"
    using after_client_quiet [of "ds_ws d" d ?w "SentText k (json_stringify ?m) # map (\<lambda>l. OutgoingTo l ?m) (w_outgoingListeners (ds_ws d))"]
      sync keep(1) recv by (simp add: w emit_def in_sync_def sync_below_def)
  finally show eq: "demo_step (ClientCalls (CallSend ?m b)) d =
      \<lparr>ds_ws = ?w, ds_sockets = (ds_sockets d)[k := demo_emit (report_type c) (json_value (TObj (report_data c))) (ds_sockets d ! k)]\<rparr>" .
  have "socket_kept (ds_sockets d ! k) (demo_emit (report_type c) (json_value (TObj (report_data c))) (ds_sockets d ! k))"
    by (simp add: socket_kept_def demo_emit_def)
  from sync_kept [OF sync kept_at [OF this]] have "in_sync (demo_step (ClientCalls (CallSend ?m b)) d)"
    unfolding eq using keep(1) by (auto simp: in_sync_def sync_below_def ready_of_def)
  then show "hears k (demo_step (ClientCalls (CallSend ?m b)) d)"
    using h unfolding eq by (auto simp: hears_def keep attached_def ready_of_def)
qed

lemma report_heard:
  assumes "plain_command c" and "w_socket w = Some k" and "map_of (w_typedListeners w) (report_type c) = Some ls" and "l \<in> set ls"
  shows "TypedTo l (json_value (TObj (report_data c))) (json_value (message (report_type c) (report_data c)))
    \<in> set (w_out (on_message k (message_text (report_type c, json_value (TObj (report_data c)))) w))"
proof -
  have m: "js_get (json_value (message (report_type c) (report_data c))) ''type'' = JStr (report_type c)"
      "js_get (json_value (message (report_type c) (report_data c))) ''data'' = json_value (TObj (report_data c))"
      "json_value (message (report_type c) (report_data c)) \<noteq> JNull"
    by (simp_all add: message_def js_get_def)
  have t: "report_type c \<noteq> ''heartbeatAck''" by (cases c) (simp_all add: report_type_def)
  have "on_message k (message_text (report_type c, json_value (TObj (report_data c)))) w =
      deliver (json_value (message (report_type c) (report_data c))) (w\<lparr>w_lastMessageAt := w_now w\<rparr>)"
    using assms(2) m(3) by (simp only: on_message_def report_read [OF assms(1)]) (simp add: Let_def)
  then show ?thesis using assms(3,4) t by (simp only: deliver_def m) (simp add: emit_def)
qed

lemma answered:
  assumes "demo_reachable d" and "socket_open (ds_ws d) = Some k" and "plain_command c"
    and "map_of (w_typedListeners (ds_ws d)) (report_type c) = Some ls" and "l \<in> set ls"
  shows "\<exists>d'. demo_run (ClientCalls (CallSend (command_json c) True) # replicate (Suc (length (dm_queue (ds_sockets d ! k)))) (EmitTimer k)) d = Some d' \<and>
    TypedTo l (json_value (TObj (report_data c))) (json_value (message (report_type c) (report_data c))) \<in> set (w_out (ds_ws d'))"
proof -
  let ?d = "demo_step (ClientCalls (CallSend (command_json c) True)) d"
  let ?m = "(report_type c, json_value (TObj (report_data c)))"
  let ?q = "dm_queue (ds_sockets d ! k)"
  have h: "hears k d" by (rule reachable_hears [OF assms(1,2)])
  have k: "k < length (ds_sockets d)" using h by (simp add: hears_def)
  have q: "dm_queue (ds_sockets ?d ! k) = ?q @ [?m]" using k by (simp add: command_sent(1) [OF h] demo_emit_def)
  have e: "demo_enabled (ClientCalls (CallSend (command_json c) True)) d" by (simp add: demo_enabled_def ws_enabled_def socket_event_def)
  obtain d' where run: "demo_run (replicate (length (?q @ [?m])) (EmitTimer k)) ?d = Some d'"
      and ws: "ds_ws d' = fold (on_message k) (map message_text (?q @ [?m])) (ds_ws ?d)"
    using queue_delivered [OF command_sent(2) [OF h] q] by blast
  have "w_socket (ds_ws ?d) = Some k" "w_typedListeners (ds_ws ?d) = w_typedListeners (ds_ws d)"
    using assms(2) h by (simp_all add: command_sent(1) [OF h] ws_send_def emit_def hears_def)
  then have "TypedTo l (json_value (TObj (report_data c))) (json_value (message (report_type c) (report_data c))) \<in> set (w_out (ds_ws d'))"
    using report_heard [OF assms(3) _ _ assms(5)] assms(4) by (simp add: ws delivered_keeps)
  then show ?thesis using run e by auto
qed

text \<open>In the demo every output command comes back: sent over the open socket, it ends, when the messages that were waiting have been
  delivered, in the report of the new state to every listener of its type, with the address and the state that were sent.\<close>

theorem demo_answers:
  assumes "demo_reachable d" and "socket_open (ds_ws d) = Some k" and "plain_command c"
    and "map_of (w_typedListeners (ds_ws d)) (report_type c) = Some ls" and "l \<in> set ls"
  shows "\<exists>d'. demo_run (ClientCalls (CallSend (command_json c) True) # replicate (Suc (length (dm_queue (ds_sockets d ! k)))) (EmitTimer k)) d = Some d' \<and>
    TypedTo l (json_value (TObj (report_data c))) (json_value (message (report_type c) (report_data c))) \<in> set (w_out (ds_ws d'))"
  by (rule answered [OF assms])

definition listening_demo :: demo_system where
  "listening_demo = demo_step (ClientCalls (CallOn ''turnoutChanged'' 5)) sample_demo"

lemma listening:
  "demo_reachable listening_demo" "socket_open (ds_ws listening_demo) = Some 0"
  "map_of (w_typedListeners (ds_ws listening_demo)) ''turnoutChanged'' = Some [5]"
  by (simp add: listening_demo_def demo_next [OF sample_demo_reachable] demo_enabled_def ws_enabled_def socket_event_def) code_simp+

theorem demo_answers_witness:
  "\<exists>d'. demo_run (ClientCalls (CallSend (setTurnout 12 True) True) #
       replicate (Suc (length (dm_queue (ds_sockets listening_demo ! 0)))) (EmitTimer 0)) listening_demo = Some d' \<and>
     TypedTo 5 (JObj [(''address'', js_int 12), (''closed'', JBool True)])
       (json_value (message ''turnoutChanged'' [(''address'', TInt 12), (''closed'', TBool True)])) \<in> set (w_out (ds_ws d'))"
  using demo_answers [OF listening(1,2), of "OutTurnout 12 True" "[5]" 5] listening(3)
  by (simp add: plain_command_def report_type_def report_data_def command_json_def)

subsection \<open>A click on a turnout\<close>

lemma by_ref_closed:
  "view_by_ref r (update_view r' (set_closed b) l) = map_option (\<lambda>e. if vw_ref e = r' then set_closed b e else e) (view_by_ref r l)"
  unfolding update_view_def by (rule by_ref_map) simp

lemma click_sends:
  assumes "vw_data e = TurnoutData td" and "td_outputMode td = ModeAccessory" and "0 < td_address td" and "td_address td \<le> 2048"
  shows "toggleTurnout e l = (update_view (vw_ref e) (set_closed (\<not> td_closed td)) l, [Send (setTurnout (td_address td) (\<not> td_closed td))])"
  using assms by (simp add: toggleTurnout_def turnout_of_def send_turnout_def sendTurnoutOutput_def send_option_def Let_def)

text \<open>C28. A click on a turnout with an accessory output, from end to end in the demo: the page turns the turnout over and sends one command;
  the demo server answers it; every listener for turnout reports gets the address of the turnout and the position that the click asked
  for; and the page that applies this report shows the turnout in that position.\<close>

theorem demo_click:
  assumes "demo_reachable d" and "socket_open (ds_ws d) = Some k"
    and "map_of (w_typedListeners (ds_ws d)) ''turnoutChanged'' = Some ls" and "h \<in> set ls"
    and "refs_distinct l" and "view_by_ref r l = Some e" and "isTurnoutElement e" and "vw_data e = TurnoutData td"
    and "td_outputMode td = ModeAccessory" and "0 < td_address td" and "td_address td \<le> 2048"
  shows "\<exists>l' m d' data msg. toggleTurnout e l = (l', [Send m]) \<and>
    demo_run (ClientCalls (CallSend m True) # replicate (Suc (length (dm_queue (ds_sockets d ! k)))) (EmitTimer k)) d = Some d' \<and>
    TypedTo h data msg \<in> set (w_out (ds_ws d')) \<and>
    js_get data ''address'' = js_int (td_address td) \<and> js_get data ''closed'' = JBool (\<not> td_closed td) \<and>
    (\<exists>f. view_by_ref r (on_turnoutChanged (td_address td) (\<not> td_closed td) l') = Some f \<and>
       vw_data f = TurnoutData (td\<lparr>td_closed := \<not> td_closed td\<rparr>))"
proof -
  let ?c = "OutTurnout (td_address td) (\<not> td_closed td)" and ?l = "update_view (vw_ref e) (set_closed (\<not> td_closed td)) l"
  have type: "report_type ?c = ''turnoutChanged''" by (simp add: report_type_def)
  have plain: "plain_command ?c" using assms(10,11) by (simp add: plain_command_def)
  have "map_of (w_typedListeners (ds_ws d)) (report_type ?c) = Some ls" using assms(3) by (simp only: type)
  note run = answered [OF assms(1,2) plain this assms(4)]
  have r: "vw_ref e = r" using assms(6) by (auto simp: view_by_ref_def dest: find_SomeD)
  let ?e = "set_closed (\<not> td_closed td) e"
  have e: "view_by_ref r ?l = Some ?e" "isTurnoutElement ?e" "vw_data ?e = TurnoutData (td\<lparr>td_closed := \<not> td_closed td\<rparr>)"
    using assms(6-8) r by (simp_all add: by_ref_closed isTurnoutElement_def set_closed_turnout)
  have "refs_distinct ?l" using assms(5) by (simp only: refs_closed)
  then obtain f where f: "view_by_ref r (on_turnoutChanged (td_address td) (\<not> td_closed td) ?l) = Some f"
      "vw_data f = TurnoutData (td\<lparr>td_closed := \<not> td_closed td\<rparr>)"
    using turnout_report(2) [OF _ e, of "td_address td" "\<not> td_closed td"] assms(9) by auto
  have "js_get (json_value (TObj (report_data ?c))) ''address'' = js_int (td_address td)"
      "js_get (json_value (TObj (report_data ?c))) ''closed'' = JBool (\<not> td_closed td)"
    by (simp_all add: report_data_def js_get_def)
  moreover have "command_json ?c = setTurnout (td_address td) (\<not> td_closed td)" by (simp add: command_json_def)
  ultimately show ?thesis using run f click_sends [OF assms(8-11), of l] by metis
qed

theorem demo_click_witness:
  "\<exists>l' m d' data msg. toggleTurnout (hd (vl_track sample_views)) sample_views = (l', [Send m]) \<and>
     demo_run (ClientCalls (CallSend m True) # replicate (Suc (length (dm_queue (ds_sockets listening_demo ! 0)))) (EmitTimer 0)) listening_demo = Some d' \<and>
     TypedTo 5 data msg \<in> set (w_out (ds_ws d')) \<and> js_get data ''address'' = js_int 5 \<and> js_get data ''closed'' = JBool False"
proof -
  let ?e = "hd (vl_track sample_views)"
  have d: "refs_distinct sample_views" by code_simp
  have e: "view_by_ref 0 sample_views = Some ?e" "isTurnoutElement ?e"
    by (simp_all add: view_by_ref_def all_views_def sample_views_def sample_view_def new_base_def base_element.defs isTurnoutElement_def)
  have t: "vw_data ?e = TurnoutData \<lparr>td_outputMode = ModeAccessory, td_address = 5, td_closedValue = True, td_closed = True,
      td_closedAspect = JUndef, td_openedAspect = JUndef\<rparr>"
    by (simp add: sample_views_def sample_view_def base_element.defs)
  show ?thesis using demo_click [OF listening _ d e t] by (simp del: replicate_Suc demo_run.simps) blast
qed

end
