(* ===== verification/FastClock.thy ===== *)
theory FastClock
  imports JsValue WsClient
begin

text \<open>
  \<open>services/fastClockStore.ts\<close> with \<open>getFastClockSnapshot\<close> of \<open>api/fastClockApi.ts\<close>: the model time that the client shows. The
  snapshots come from the server; between them the client extrapolates by its own clock (\<open>performance.now()\<close>), and freezes the time
  when the connection is lost. Times are exact rationals. Loading a snapshot is a numbered request that is answered later; animation frames
  are numbered; listeners are numbers, do not call back, and are told a state in \<open>ck_out\<close>.
\<close>

definition DAY_MS :: rat where "DAY_MS = 24 * 60 * 60 * 1000"

record clock_snapshot =
  cs_timeMs :: rat
  cs_running :: bool
  cs_speed :: rat
  cs_serverNowMs :: rat

type_synonym clock_view = "clock_snapshot option \<times> bool"

record clock_store =
  ck_serverSnapshot :: "clock_snapshot option"
  ck_receivedAtClientMs :: rat
  ck_listeners :: "nat list"
  ck_initialized :: bool
  ck_loadingPromise :: "nat option"
  ck_animationFrameId :: "nat option"
  ck_connected :: bool
  ck_now :: rat
  ck_frames :: "nat list"
  ck_nextFrame :: nat
  ck_requests :: "nat list"
  ck_nextRequest :: nat
  ck_out :: "(nat \<times> clock_view) list"

definition new_clock :: "ws_status \<Rightarrow> clock_store" where
  "new_clock status =
     \<lparr>ck_serverSnapshot = None, ck_receivedAtClientMs = 0, ck_listeners = [], ck_initialized = False, ck_loadingPromise = None,
      ck_animationFrameId = None, ck_connected = (status = Connected), ck_now = 0, ck_frames = [], ck_nextFrame = 0,
      ck_requests = [], ck_nextRequest = 0, ck_out = []\<rparr>"

subsection \<open>The shown time\<close>

text \<open>\<open>value % DAY_MS\<close> has the sign of \<open>value\<close>.\<close>

definition rat_rem :: "rat \<Rightarrow> rat \<Rightarrow> rat" where
  "rat_rem a b = a - b * of_int (js_trunc (a / b))"

definition normalizeDayTime :: "rat \<Rightarrow> rat" where
  "normalizeDayTime v = (let normalized = rat_rem v DAY_MS in if normalized < 0 then normalized + DAY_MS else normalized)"

definition getDisplaySnapshot :: "clock_store \<Rightarrow> clock_snapshot option" where
  "getDisplaySnapshot s =
     (case ck_serverSnapshot s of
        None \<Rightarrow> None
      | Some snap \<Rightarrow>
          if \<not> ck_connected s \<or> \<not> cs_running snap then Some snap
          else let elapsedClientMs = max 0 (ck_now s - ck_receivedAtClientMs s)
               in Some (snap\<lparr>cs_timeMs := normalizeDayTime (cs_timeMs snap + elapsedClientMs * cs_speed snap)\<rparr>))"

definition getViewState :: "clock_store \<Rightarrow> clock_view" where
  "getViewState s = (getDisplaySnapshot s, ck_connected s)"

definition clock_emit :: "clock_store \<Rightarrow> clock_store" where
  "clock_emit s = s\<lparr>ck_out := ck_out s @ map (\<lambda>l. (l, getViewState s)) (ck_listeners s)\<rparr>"

subsection \<open>Animation frames\<close>

definition frame_wanted :: "clock_store \<Rightarrow> bool" where
  "frame_wanted s \<longleftrightarrow> length (ck_listeners s) > 0 \<and> ck_connected s \<and> (case ck_serverSnapshot s of Some snap \<Rightarrow> cs_running snap | None \<Rightarrow> False)"

definition requestAnimationFrame :: "clock_store \<Rightarrow> clock_store" where
  "requestAnimationFrame s =
     s\<lparr>ck_frames := ck_frames s @ [ck_nextFrame s], ck_nextFrame := ck_nextFrame s + 1, ck_animationFrameId := Some (ck_nextFrame s)\<rparr>"

definition ensureAnimationFrame :: "clock_store \<Rightarrow> clock_store" where
  "ensureAnimationFrame s = (if ck_animationFrameId s \<noteq> None \<or> \<not> frame_wanted s then s else requestAnimationFrame s)"

definition frame_tick :: "nat \<Rightarrow> clock_store \<Rightarrow> clock_store" where
  "frame_tick i s =
     (let s1 = clock_emit (s\<lparr>ck_frames := filter (\<lambda>j. j \<noteq> i) (ck_frames s), ck_animationFrameId := None\<rparr>)
      in if frame_wanted s1 then requestAnimationFrame s1 else s1)"

definition stopAnimationFrame :: "clock_store \<Rightarrow> clock_store" where
  "stopAnimationFrame s =
     (case ck_animationFrameId s of
        None \<Rightarrow> s
      | Some i \<Rightarrow> s\<lparr>ck_frames := filter (\<lambda>j. j \<noteq> i) (ck_frames s), ck_animationFrameId := None\<rparr>)"

subsection \<open>Snapshots\<close>

text \<open>A snapshot comes out of a JSON text, whose numbers are finite.\<close>

definition valid_snapshot :: "jsval \<Rightarrow> clock_snapshot option" where
  "valid_snapshot v =
     (case (js_get v ''timeMs'', js_get v ''running'', js_get v ''speed'', js_get v ''serverNowMs'') of
        (JNum (Fin t), JBool r, JNum (Fin f), JNum (Fin n)) \<Rightarrow>
          Some \<lparr>cs_timeMs = t, cs_running = r, cs_speed = f, cs_serverNowMs = n\<rparr>
      | _ \<Rightarrow> None)"

definition applyServerSnapshot :: "jsval \<Rightarrow> clock_store \<Rightarrow> clock_store" where
  "applyServerSnapshot snapshot s =
     (case valid_snapshot snapshot of
        None \<Rightarrow> s
      | Some snap \<Rightarrow>
          ensureAnimationFrame
            (clock_emit (s\<lparr>ck_serverSnapshot := Some (snap\<lparr>cs_speed := max 1 (cs_speed snap)\<rparr>), ck_receivedAtClientMs := ck_now s\<rparr>)))"

definition refreshFromHttp :: "clock_store \<Rightarrow> clock_store" where
  "refreshFromHttp s = s\<lparr>ck_requests := ck_requests s @ [ck_nextRequest s], ck_nextRequest := ck_nextRequest s + 1\<rparr>"

text \<open>The answer: the response of the command, or none when it was rejected. A response without a snapshot is an error too.\<close>

definition refresh_answered :: "nat \<Rightarrow> jsval option \<Rightarrow> clock_store \<Rightarrow> clock_store" where
  "refresh_answered i response s =
     (let s1 = s\<lparr>ck_requests := filter (\<lambda>j. j \<noteq> i) (ck_requests s)\<rparr>;
          s2 = (case response of
                  None \<Rightarrow> s1
                | Some r \<Rightarrow> if \<not> to_boolean (js_get r ''snapshot'') then s1 else applyServerSnapshot (js_get r ''snapshot'') s1)
      in if ck_loadingPromise s2 = Some i then s2\<lparr>ck_loadingPromise := None\<rparr> else s2)"

definition load_snapshot :: "clock_store \<Rightarrow> clock_store" where
  "load_snapshot s =
     (if ck_serverSnapshot s \<noteq> None \<or> ck_loadingPromise s \<noteq> None then s
      else (refreshFromHttp s)\<lparr>ck_loadingPromise := Some (ck_nextRequest s)\<rparr>)"

definition handleWsStatusChanged :: "ws_status \<Rightarrow> clock_store \<Rightarrow> clock_store" where
  "handleWsStatusChanged status s =
     (let nextConnected = (status = Connected) in
      if ck_connected s = nextConnected then (if nextConnected then refreshFromHttp s else s)
      else if \<not> nextConnected
      then (let s1 = (case getDisplaySnapshot s of
                        Some frozen \<Rightarrow> s\<lparr>ck_serverSnapshot := Some frozen, ck_receivedAtClientMs := ck_now s\<rparr>
                      | None \<Rightarrow> s)
            in clock_emit (stopAnimationFrame (s1\<lparr>ck_connected := False\<rparr>)))
      else refreshFromHttp (clock_emit (s\<lparr>ck_connected := True\<rparr>)))"

text \<open>The subscription of the status is told the present status at once.\<close>

definition clock_initialize :: "ws_status \<Rightarrow> clock_store \<Rightarrow> clock_store" where
  "clock_initialize status s =
     (if ck_initialized s then s else load_snapshot (handleWsStatusChanged status (s\<lparr>ck_initialized := True\<rparr>)))"

definition clock_ensureLoaded :: "ws_status \<Rightarrow> clock_store \<Rightarrow> clock_store" where
  "clock_ensureLoaded status s = load_snapshot (clock_initialize status s)"

definition clock_changed :: "jsval \<Rightarrow> clock_store \<Rightarrow> clock_store" where
  "clock_changed data s = applyServerSnapshot data (s\<lparr>ck_connected := True\<rparr>)"

definition clock_subscribe :: "ws_status \<Rightarrow> nat \<Rightarrow> clock_store \<Rightarrow> clock_store" where
  "clock_subscribe status l s =
     (let s1 = clock_initialize status s; s2 = s1\<lparr>ck_listeners := set_add l (ck_listeners s1)\<rparr>
      in ensureAnimationFrame (s2\<lparr>ck_out := ck_out s2 @ [(l, getViewState s2)]\<rparr>))"

definition clock_unsubscribe :: "nat \<Rightarrow> clock_store \<Rightarrow> clock_store" where
  "clock_unsubscribe l s =
     (let s1 = s\<lparr>ck_listeners := set_delete l (ck_listeners s)\<rparr> in if length (ck_listeners s1) = 0 then stopAnimationFrame s1 else s1)"

subsection \<open>What can happen\<close>

datatype clock_event =
    ClockSubscribe ws_status nat | ClockUnsubscribe nat | ClockEnsureLoaded ws_status | ClockStatus ws_status | ClockChanged jsval
  | ClockAnswer nat "jsval option" | ClockFrame nat | ClockPasses rat

definition clock_enabled :: "clock_event \<Rightarrow> clock_store \<Rightarrow> bool" where
  "clock_enabled ev s =
     (case ev of
        ClockStatus st \<Rightarrow> ck_initialized s
      | ClockChanged data \<Rightarrow> ck_initialized s
      | ClockAnswer i r \<Rightarrow> i \<in> set (ck_requests s)
      | ClockFrame i \<Rightarrow> i \<in> set (ck_frames s)
      | ClockPasses d \<Rightarrow> 0 \<le> d
      | _ \<Rightarrow> True)"

definition clock_step :: "clock_event \<Rightarrow> clock_store \<Rightarrow> clock_store" where
  "clock_step ev s =
     (case ev of
        ClockSubscribe st l \<Rightarrow> clock_subscribe st l s
      | ClockUnsubscribe l \<Rightarrow> clock_unsubscribe l s
      | ClockEnsureLoaded st \<Rightarrow> clock_ensureLoaded st s
      | ClockStatus st \<Rightarrow> handleWsStatusChanged st s
      | ClockChanged data \<Rightarrow> clock_changed data s
      | ClockAnswer i r \<Rightarrow> refresh_answered i r s
      | ClockFrame i \<Rightarrow> frame_tick i s
      | ClockPasses d \<Rightarrow> s\<lparr>ck_now := ck_now s + d\<rparr>)"

inductive clock_reachable :: "clock_store \<Rightarrow> bool" where
  clock_start: "clock_reachable (new_clock st)"
| clock_next: "clock_reachable s \<Longrightarrow> clock_enabled ev s \<Longrightarrow> clock_reachable (clock_step ev s)"

subsection \<open>The day\<close>

lemma day_pos [simp]: "0 < DAY_MS"
  by (simp add: DAY_MS_def)

definition day_time :: "rat \<Rightarrow> rat" where
  "day_time v = v - DAY_MS * of_int \<lfloor>v / DAY_MS\<rfloor>"

lemma day_time_range: "0 \<le> day_time v" "day_time v < DAY_MS"
proof -
  have f: "of_int \<lfloor>v / DAY_MS\<rfloor> \<le> v / DAY_MS" "v / DAY_MS < of_int \<lfloor>v / DAY_MS\<rfloor> + 1" by linarith+
  have "DAY_MS * of_int \<lfloor>v / DAY_MS\<rfloor> \<le> v" using f(1) pos_le_divide_eq [OF day_pos] by (simp add: mult.commute)
  moreover have "v < DAY_MS * (of_int \<lfloor>v / DAY_MS\<rfloor> + 1)" using f(2) pos_divide_less_eq [OF day_pos] by (simp add: mult.commute)
  ultimately show "0 \<le> day_time v" "day_time v < DAY_MS" by (simp_all add: day_time_def algebra_simps)
qed

lemma normalizeDayTime: "normalizeDayTime v = day_time v"
proof (cases "0 \<le> v")
  case True
  then have "0 \<le> v / DAY_MS" by (simp add: less_imp_le)
  then have "rat_rem v DAY_MS = day_time v" by (simp add: rat_rem_def js_trunc_def day_time_def)
  then show ?thesis using day_time_range(1) [of v] by (simp add: normalizeDayTime_def Let_def)
next
  case False
  then have neg: "v / DAY_MS < 0" by (simp add: divide_neg_pos)
  let ?c = "\<lceil>v / DAY_MS\<rceil>"
  have r: "rat_rem v DAY_MS = v - DAY_MS * of_int ?c" using neg by (simp add: rat_rem_def js_trunc_def ceiling_def)
  show ?thesis
  proof (cases "of_int \<lfloor>v / DAY_MS\<rfloor> = v / DAY_MS")
    case True
    then have "?c = \<lfloor>v / DAY_MS\<rfloor>" by (metis ceiling_of_int)
    then have "rat_rem v DAY_MS = day_time v" by (simp add: r day_time_def)
    then show ?thesis using day_time_range(1) [of v] by (simp add: normalizeDayTime_def Let_def)
  next
    case False
    then have c: "?c = \<lfloor>v / DAY_MS\<rfloor> + 1" by (metis ceiling_altdef)
    then have "rat_rem v DAY_MS = day_time v - DAY_MS" by (simp add: r day_time_def algebra_simps)
    then show ?thesis using day_time_range [of v] by (simp add: normalizeDayTime_def Let_def)
  qed
qed

lemma day_time_add: "day_time (day_time a + b) = day_time (a + b)"
proof -
  have ne: "DAY_MS \<noteq> 0" using day_pos by linarith
  have "day_time a + b = (a + b) - DAY_MS * of_int \<lfloor>a / DAY_MS\<rfloor>" by (simp add: day_time_def)
  then have "(day_time a + b) / DAY_MS = (a + b) / DAY_MS - of_int \<lfloor>a / DAY_MS\<rfloor>" using ne by (simp only: diff_divide_distrib) simp
  then have f: "\<lfloor>(day_time a + b) / DAY_MS\<rfloor> = \<lfloor>(a + b) / DAY_MS\<rfloor> - \<lfloor>a / DAY_MS\<rfloor>" by simp
  have "day_time (day_time a + b) = day_time a + b - DAY_MS * (of_int \<lfloor>(a + b) / DAY_MS\<rfloor> - of_int \<lfloor>a / DAY_MS\<rfloor>)"
    unfolding day_time_def [of "day_time a + b"] f by simp
  then show ?thesis by (simp add: day_time_def [of a] day_time_def [of "a + b"] right_diff_distrib)
qed

subsection \<open>The invariant of the store\<close>

definition clock_ok :: "clock_store \<Rightarrow> bool" where
  "clock_ok s \<longleftrightarrow>
     ck_frames s = (case ck_animationFrameId s of None \<Rightarrow> [] | Some i \<Rightarrow> [i]) \<and>
     (ck_animationFrameId s \<noteq> None \<longrightarrow> ck_listeners s \<noteq> [] \<and> ck_connected s) \<and>
     (\<forall>snap. ck_serverSnapshot s = Some snap \<longrightarrow> 1 \<le> cs_speed snap) \<and>
     ck_receivedAtClientMs s \<le> ck_now s \<and>
     (\<forall>i. ck_loadingPromise s = Some i \<longrightarrow> i \<in> set (ck_requests s))"

lemma clock_ok_new: "clock_ok (new_clock st)"
  by (simp add: clock_ok_def new_clock_def)

lemma clock_ok_emit [simp]: "clock_ok (clock_emit s) = clock_ok s"
  by (simp add: clock_ok_def clock_emit_def)

lemma clock_ok_ensure: "clock_ok s \<Longrightarrow> clock_ok (ensureAnimationFrame s)"
  by (auto simp: clock_ok_def ensureAnimationFrame_def requestAnimationFrame_def frame_wanted_def split: option.splits)

lemma clock_ok_stop: "clock_ok s \<Longrightarrow> clock_ok (stopAnimationFrame s)"
  by (auto simp: clock_ok_def stopAnimationFrame_def split: option.splits)

lemma clock_ok_apply: "clock_ok s \<Longrightarrow> clock_ok (applyServerSnapshot v s)"
proof -
  assume "clock_ok s"
  then have "clock_ok (s\<lparr>ck_serverSnapshot := Some (snap\<lparr>cs_speed := max 1 f\<rparr>), ck_receivedAtClientMs := ck_now s\<rparr>)" for snap f
    by (simp add: clock_ok_def)
  then show ?thesis using \<open>clock_ok s\<close> by (simp add: applyServerSnapshot_def clock_ok_ensure split: option.split)
qed

lemma clock_ok_refresh: "clock_ok s \<Longrightarrow> clock_ok (refreshFromHttp s)"
  by (auto simp: clock_ok_def refreshFromHttp_def split: option.splits)

lemma clock_ok_load: "clock_ok s \<Longrightarrow> clock_ok (load_snapshot s)"
  by (auto simp: clock_ok_def load_snapshot_def refreshFromHttp_def split: option.splits)

lemma display_speed: "getDisplaySnapshot s = Some d \<Longrightarrow> \<exists>snap. ck_serverSnapshot s = Some snap \<and> cs_speed d = cs_speed snap \<and> cs_running d = cs_running snap"
  by (auto simp: getDisplaySnapshot_def Let_def split: option.splits if_splits)

lemma clock_ok_status: "clock_ok s \<Longrightarrow> clock_ok (handleWsStatusChanged st s)"
proof -
  assume ok: "clock_ok s"
  have lost: "clock_ok (stopAnimationFrame (s1\<lparr>ck_connected := False\<rparr>))"
    if "s1 = (case getDisplaySnapshot s of Some frozen \<Rightarrow> s\<lparr>ck_serverSnapshot := Some frozen, ck_receivedAtClientMs := ck_now s\<rparr> | None \<Rightarrow> s)" for s1
    using ok that display_speed [of s] by (auto simp: clock_ok_def stopAnimationFrame_def split: option.splits)
  have up: "clock_ok (s\<lparr>ck_connected := True\<rparr>)" using ok by (auto simp: clock_ok_def split: option.splits)
  show ?thesis using ok lost up by (simp add: handleWsStatusChanged_def Let_def clock_ok_refresh)
qed

lemma clock_ok_initialize: "clock_ok s \<Longrightarrow> clock_ok (clock_initialize st s)"
proof -
  assume "clock_ok s"
  then have "clock_ok (s\<lparr>ck_initialized := True\<rparr>)" by (simp add: clock_ok_def)
  then show ?thesis using \<open>clock_ok s\<close> by (simp add: clock_initialize_def clock_ok_load clock_ok_status)
qed

lemma clock_step_ok: "clock_ok s \<Longrightarrow> clock_enabled ev s \<Longrightarrow> clock_ok (clock_step ev s)"
proof (cases ev)
  case (ClockSubscribe st l)
  assume ok: "clock_ok s"
  let ?s1 = "clock_initialize st s"
  have "clock_ok ?s1" using ok by (rule clock_ok_initialize)
  then have "clock_ok (?s1\<lparr>ck_listeners := set_add l (ck_listeners ?s1), ck_out := os\<rparr>)" for os
    by (auto simp: clock_ok_def set_add_def split: option.splits)
  then show ?thesis using ClockSubscribe by (simp add: clock_step_def clock_subscribe_def Let_def clock_ok_ensure)
next
  case (ClockUnsubscribe l)
  assume ok: "clock_ok s"
  show ?thesis
  proof (cases "set_delete l (ck_listeners s) = []")
    case True
    then show ?thesis using ok ClockUnsubscribe
      by (auto simp: clock_step_def clock_unsubscribe_def Let_def stopAnimationFrame_def clock_ok_def split: option.splits)
  next
    case False
    then show ?thesis using ok ClockUnsubscribe by (simp add: clock_step_def clock_unsubscribe_def Let_def clock_ok_def)
  qed
next
  case (ClockChanged data)
  assume "clock_ok s"
  then have "clock_ok (s\<lparr>ck_connected := True\<rparr>)" by (auto simp: clock_ok_def split: option.splits)
  then show ?thesis using ClockChanged by (simp add: clock_step_def clock_changed_def clock_ok_apply)
next
  case (ClockAnswer i r)
  assume ok: "clock_ok s"
  let ?s1 = "s\<lparr>ck_requests := filter (\<lambda>j. j \<noteq> i) (ck_requests s)\<rparr>"
  have keep: "ck_loadingPromise (applyServerSnapshot v u) = ck_loadingPromise u" "ck_requests (applyServerSnapshot v u) = ck_requests u" for v u
    by (simp_all add: applyServerSnapshot_def ensureAnimationFrame_def requestAnimationFrame_def clock_emit_def split: option.split)
  have part: "clock_ok (?s1\<lparr>ck_loadingPromise := None\<rparr>)" "ck_loadingPromise s \<noteq> Some i \<Longrightarrow> clock_ok ?s1"
    using ok by (auto simp: clock_ok_def)
  have drop: "(applyServerSnapshot v u)\<lparr>ck_loadingPromise := None\<rparr> = applyServerSnapshot v (u\<lparr>ck_loadingPromise := None\<rparr>)" for v u
    by (simp add: applyServerSnapshot_def ensureAnimationFrame_def requestAnimationFrame_def clock_emit_def frame_wanted_def
        getViewState_def getDisplaySnapshot_def split: option.split)
  show ?thesis
    using ClockAnswer part by (auto simp: clock_step_def refresh_answered_def Let_def drop keep clock_ok_apply split: option.split)
next
  case (ClockFrame i)
  assume ok: "clock_ok s" "clock_enabled ev s"
  then have "ck_animationFrameId s = Some i" using ClockFrame by (auto simp: clock_enabled_def clock_ok_def split: option.splits)
  then have "clock_ok (s\<lparr>ck_frames := filter (\<lambda>j. j \<noteq> i) (ck_frames s), ck_animationFrameId := None\<rparr>)"
    using ok(1) by (auto simp: clock_ok_def split: option.splits)
  then have "clock_ok (clock_emit (s\<lparr>ck_frames := filter (\<lambda>j. j \<noteq> i) (ck_frames s), ck_animationFrameId := None\<rparr>))" by simp
  then show ?thesis using ClockFrame
    by (auto simp: clock_step_def frame_tick_def Let_def requestAnimationFrame_def clock_ok_def clock_emit_def frame_wanted_def)
next
  case (ClockPasses d)
  assume "clock_ok s" "clock_enabled ev s"
  then show ?thesis using ClockPasses by (simp add: clock_step_def clock_enabled_def clock_ok_def)
qed (simp_all add: clock_step_def clock_ok_load clock_ok_initialize clock_ok_status clock_ensureLoaded_def)

lemma clock_reachable_ok: "clock_reachable s \<Longrightarrow> clock_ok s"
  by (induction rule: clock_reachable.induct) (simp_all add: clock_ok_new clock_step_ok)

subsection \<open>Properties\<close>

definition shown_time :: "clock_store \<Rightarrow> rat option" where
  "shown_time s = map_option cs_timeMs (getDisplaySnapshot s)"

definition sample_snapshot :: jsval where
  "sample_snapshot = JObj [(''timeMs'', js_int 86399000), (''running'', JBool True), (''speed'', js_int 10), (''serverNowMs'', js_int 1)]"

definition sample_clock :: clock_store where
  "sample_clock = clock_step (ClockPasses 200) (clock_step (ClockChanged sample_snapshot) (clock_step (ClockSubscribe Connected 4) (new_clock Connected)))"

lemma sample_clock_reachable: "clock_reachable sample_clock"
  unfolding sample_clock_def by (intro clock_next clock_start) (simp_all add: clock_enabled_def, code_simp)

lemma sample_clock_state: "ck_connected sample_clock" "\<exists>snap. ck_serverSnapshot sample_clock = Some snap \<and> cs_running snap"
  by code_simp (intro exI conjI, code_simp+)

text \<open>C29. While the clock runs over a live connection the shown time is a time of day (at least 0 and less than 24 hours), it is the time of the
  last snapshot advanced by the elapsed client time at the speed of the clock, and it goes on at that speed, over midnight too.\<close>

theorem clock_time:
  assumes "clock_reachable s" and "ck_connected s" and "ck_serverSnapshot s = Some snap" and "cs_running snap" and "0 \<le> d"
  shows "\<exists>t. shown_time s = Some t \<and> 0 \<le> t \<and> t < DAY_MS \<and>
    t = day_time (cs_timeMs snap + (ck_now s - ck_receivedAtClientMs s) * cs_speed snap) \<and> 1 \<le> cs_speed snap \<and>
    shown_time (clock_step (ClockPasses d) s) = Some (day_time (t + d * cs_speed snap))"
proof -
  have ok: "ck_receivedAtClientMs s \<le> ck_now s" "1 \<le> cs_speed snap"
    using clock_reachable_ok [OF assms(1)] assms(3) by (simp_all add: clock_ok_def)
  let ?e = "cs_timeMs snap + (ck_now s - ck_receivedAtClientMs s) * cs_speed snap"
  have "shown_time s = Some (day_time ?e)"
    using assms(2-4) ok(1) by (simp add: shown_time_def getDisplaySnapshot_def normalizeDayTime)
  moreover have "shown_time (clock_step (ClockPasses d) s) = Some (day_time (day_time ?e + d * cs_speed snap))"
    using assms ok(1) by (simp add: clock_step_def shown_time_def getDisplaySnapshot_def normalizeDayTime day_time_add) (simp add: algebra_simps)
  ultimately show ?thesis using day_time_range ok(2) by blast
qed

theorem clock_time_witness:
  "\<exists>t. shown_time sample_clock = Some t \<and> 0 \<le> t \<and> t < DAY_MS \<and> shown_time (clock_step (ClockPasses 100) sample_clock) = Some (day_time (t + 1000))"
proof -
  obtain snap where snap: "ck_serverSnapshot sample_clock = Some snap" "cs_running snap" using sample_clock_state by blast
  have "ck_serverSnapshot sample_clock = Some \<lparr>cs_timeMs = 86399000, cs_running = True, cs_speed = 10, cs_serverNowMs = 1\<rparr>" by code_simp
  then show ?thesis using clock_time [OF sample_clock_reachable sample_clock_state(1) snap, of 100] snap by auto
qed

text \<open>The events that bring neither a snapshot nor the connection\<close>

definition quiet_clock :: "clock_event \<Rightarrow> bool" where
  "quiet_clock ev =
     (case ev of
        ClockStatus st \<Rightarrow> st \<noteq> Connected
      | ClockSubscribe st l \<Rightarrow> st \<noteq> Connected
      | ClockEnsureLoaded st \<Rightarrow> st \<noteq> Connected
      | ClockChanged data \<Rightarrow> False
      | ClockAnswer i r \<Rightarrow> r = None
      | _ \<Rightarrow> True)"

definition frozen_at :: "clock_snapshot option \<Rightarrow> (nat \<times> clock_view) list \<Rightarrow> clock_store \<Rightarrow> bool" where
  "frozen_at f out s \<longleftrightarrow> \<not> ck_connected s \<and> ck_serverSnapshot s = f \<and> (\<exists>es. ck_out s = out @ es \<and> (\<forall>e\<in>set es. snd e = (f, False)))"

lemma frozen_display: "frozen_at f out s \<Longrightarrow> getDisplaySnapshot s = f"
  by (auto simp: frozen_at_def getDisplaySnapshot_def split: option.split)

lemma frozen_view: "frozen_at f out s \<Longrightarrow> getViewState s = (f, False)"
  by (simp add: getViewState_def frozen_display) (simp add: frozen_at_def)

lemma frozen_same:
  "frozen_at f out s \<Longrightarrow> ck_connected s' = ck_connected s \<Longrightarrow> ck_serverSnapshot s' = ck_serverSnapshot s \<Longrightarrow> ck_out s' = ck_out s \<Longrightarrow> frozen_at f out s'"
  by (simp add: frozen_at_def)

lemma frozen_told:
  "frozen_at f out s \<Longrightarrow> \<forall>e\<in>set es. snd e = (f, False) \<Longrightarrow> frozen_at f out (s\<lparr>ck_out := ck_out s @ es\<rparr>)"
  unfolding frozen_at_def by auto

lemma frozen_emit: "frozen_at f out s \<Longrightarrow> frozen_at f out (clock_emit s)"
  unfolding clock_emit_def by (rule frozen_told) (auto simp: frozen_view)

lemma frozen_no_frame: "frozen_at f out s \<Longrightarrow> \<not> frame_wanted s"
  by (simp add: frozen_at_def frame_wanted_def)

lemma frozen_load: "frozen_at f out s \<Longrightarrow> frozen_at f out (load_snapshot s)"
  by (erule frozen_same) (simp_all add: load_snapshot_def refreshFromHttp_def)

lemma frozen_status: "frozen_at f out s \<Longrightarrow> st \<noteq> Connected \<Longrightarrow> handleWsStatusChanged st s = s"
  by (simp add: frozen_at_def handleWsStatusChanged_def)

lemma frozen_initialize: "frozen_at f out s \<Longrightarrow> st \<noteq> Connected \<Longrightarrow> frozen_at f out (clock_initialize st s)"
proof -
  assume s: "frozen_at f out s" "st \<noteq> Connected"
  then have "frozen_at f out (s\<lparr>ck_initialized := True\<rparr>)" by (auto intro: frozen_same)
  then show ?thesis using s by (simp add: clock_initialize_def frozen_status frozen_load)
qed

lemma frozen_step: "frozen_at f out s \<Longrightarrow> quiet_clock ev \<Longrightarrow> frozen_at f out (clock_step ev s)"
proof (cases ev)
  case (ClockSubscribe st l)
  assume s: "frozen_at f out s" "quiet_clock ev"
  let ?s = "clock_initialize st s" let ?t = "(clock_initialize st s)\<lparr>ck_listeners := set_add l (ck_listeners ?s)\<rparr>"
  have "frozen_at f out ?s" using s ClockSubscribe by (simp add: quiet_clock_def frozen_initialize)
  then have t: "frozen_at f out ?t" by (rule frozen_same) simp_all
  then have "frozen_at f out (?t\<lparr>ck_out := ck_out ?t @ [(l, getViewState ?t)]\<rparr>)"
    by (rule frozen_told) (use frozen_view [OF t] in simp)
  then show ?thesis using ClockSubscribe by (simp add: clock_step_def clock_subscribe_def Let_def ensureAnimationFrame_def frozen_no_frame)
next
  case (ClockFrame i)
  assume s: "frozen_at f out s" "quiet_clock ev"
  let ?s = "s\<lparr>ck_frames := filter (\<lambda>j. j \<noteq> i) (ck_frames s), ck_animationFrameId := None\<rparr>"
  have "frozen_at f out (clock_emit ?s)" by (rule frozen_emit, rule frozen_same [OF s(1)]) simp_all
  then show ?thesis using ClockFrame by (simp add: clock_step_def frame_tick_def Let_def frozen_no_frame)
qed (auto simp: clock_step_def quiet_clock_def clock_unsubscribe_def stopAnimationFrame_def clock_ensureLoaded_def refresh_answered_def Let_def
    frozen_load frozen_initialize frozen_status split: option.split intro: frozen_same)

text \<open>When the connection is lost the clock stands still at the time it just showed: it does not jump back to the last snapshot, it
  is the same after any time and any events that bring neither a snapshot nor a new connection, and that time is all the listeners are told.\<close>

theorem clock_freezes:
  assumes "ck_connected s" and "st \<noteq> Connected" and "list_all quiet_clock evs"
    and "s' = foldl (\<lambda>u ev. clock_step ev u) (handleWsStatusChanged st s) evs"
  shows "getDisplaySnapshot s' = getDisplaySnapshot s \<and>
    (\<exists>es. ck_out s' = ck_out s @ es \<and> (\<forall>e\<in>set es. snd e = (getDisplaySnapshot s, False)))"
proof -
  let ?f = "getDisplaySnapshot s"
  let ?s1 = "case ?f of Some frozen \<Rightarrow> s\<lparr>ck_serverSnapshot := Some frozen, ck_receivedAtClientMs := ck_now s\<rparr> | None \<Rightarrow> s"
  have "?f = None \<Longrightarrow> ck_serverSnapshot s = None" by (auto simp: getDisplaySnapshot_def Let_def split: option.splits if_splits)
  then have "frozen_at ?f (ck_out s) (stopAnimationFrame (?s1\<lparr>ck_connected := False\<rparr>))"
    by (cases ?f) (auto simp: frozen_at_def stopAnimationFrame_def split: option.split)
  then have start: "frozen_at ?f (ck_out s) (handleWsStatusChanged st s)"
    using assms(1,2) frozen_emit by (simp add: handleWsStatusChanged_def Let_def)
  have "frozen_at ?f (ck_out s) (foldl (\<lambda>u ev. clock_step ev u) u evs)" if "frozen_at ?f (ck_out s) u" "list_all quiet_clock evs" for u evs
    using that by (induction evs arbitrary: u) (simp_all add: frozen_step)
  then have "frozen_at ?f (ck_out s) s'" using start assms(3,4) by blast
  then show ?thesis using frozen_display [of ?f "ck_out s" s'] unfolding frozen_at_def by blast
qed

theorem clock_freezes_witness:
  "getDisplaySnapshot (foldl (\<lambda>u ev. clock_step ev u) (handleWsStatusChanged Reconnecting sample_clock) [ClockPasses 5000, ClockFrame 0, ClockUnsubscribe 4]) =
     getDisplaySnapshot sample_clock"
  using clock_freezes [OF sample_clock_state(1), of Reconnecting "[ClockPasses 5000, ClockFrame 0, ClockUnsubscribe 4]"]
  by (simp add: quiet_clock_def)

end
