(* ===== verification/AppSettings.thy ===== *)
theory AppSettings
  imports JsValue
begin

text \<open>
  \<open>domain/appSettings.ts\<close>: the settings of the application, read from unknown input and normalized, and the conversion between a time
  of day and the value of a time input; \<open>domain/runtimeVariables.ts\<close>. \<open>value?.k\<close> of a value that is no object is
  \<open>undefined\<close>, as \<open>js_get\<close> gives it.
\<close>

subsection \<open>Settings\<close>

record endpoint =
  ep_host :: string
  ep_port :: int

record tcp_endpoint =
  tp_host :: string
  tp_port :: int
  tp_init :: string

record serial_endpoint =
  sp_serialPort :: string
  sp_baudRate :: int
  sp_init :: string

record command_center =
  cc_type :: string
  cc_z21 :: endpoint
  cc_dccexTcp :: tcp_endpoint
  cc_dccexSerial :: serial_endpoint
  cc_autoConnect :: bool

record app_settings =
  ap_language :: string
  ap_commandCenter :: command_center
  ap_resetSource :: string
  ap_resetTimeMs :: int

definition APP_DAY_MS :: int where "APP_DAY_MS = 24 * 60 * 60 * 1000"
definition DEFAULT_FAST_CLOCK_RESET_TIME_MS :: int where "DEFAULT_FAST_CLOCK_RESET_TIME_MS = 0"
definition DEFAULT_LANGUAGE :: string where "DEFAULT_LANGUAGE = ''en''"

definition DEFAULT_COMMAND_CENTER_SETTINGS :: command_center where
  "DEFAULT_COMMAND_CENTER_SETTINGS =
     \<lparr>cc_type = ''simulator'', cc_z21 = \<lparr>ep_host = [], ep_port = 21105\<rparr>, cc_dccexTcp = \<lparr>tp_host = [], tp_port = 2560, tp_init = []\<rparr>,
      cc_dccexSerial = \<lparr>sp_serialPort = [], sp_baudRate = 115200, sp_init = []\<rparr>, cc_autoConnect = False\<rparr>"

definition DEFAULT_APP_SETTINGS :: app_settings where
  "DEFAULT_APP_SETTINGS =
     \<lparr>ap_language = DEFAULT_LANGUAGE, ap_commandCenter = DEFAULT_COMMAND_CENTER_SETTINGS, ap_resetSource = ''system'',
      ap_resetTimeMs = DEFAULT_FAST_CLOCK_RESET_TIME_MS\<rparr>"

text \<open>\<open>Math.floor(x) % APP_DAY_MS\<close> for a finite \<open>x\<close>.\<close>

definition normalizeDayTimeMs :: "jsval \<Rightarrow> int" where
  "normalizeDayTimeMs v =
     (case (case v of JNum n \<Rightarrow> n | _ \<Rightarrow> to_number v) of
        Fin r \<Rightarrow> (let normalized = js_rem \<lfloor>r\<rfloor> APP_DAY_MS in if normalized < 0 then normalized + APP_DAY_MS else normalized)
      | _ \<Rightarrow> DEFAULT_FAST_CLOCK_RESET_TIME_MS)"

definition isValidCommandCenterType :: "jsval \<Rightarrow> bool" where
  "isValidCommandCenterType v \<longleftrightarrow> v = JStr ''z21'' \<or> v = JStr ''dcc-ex-tcp'' \<or> v = JStr ''dcc-ex-serial'' \<or> v = JStr ''simulator''"

definition isValidAppLanguage :: "jsval \<Rightarrow> bool" where
  "isValidAppLanguage v \<longleftrightarrow> v = JStr ''en'' \<or> v = JStr ''hu''"

definition normalizeString :: "jsval \<Rightarrow> string \<Rightarrow> string" where
  "normalizeString v fallback = (case v of JStr s \<Rightarrow> s | _ \<Rightarrow> fallback)"

definition normalizeTrimmedString :: "jsval \<Rightarrow> string \<Rightarrow> string" where
  "normalizeTrimmedString v fallback = trim (normalizeString v fallback)"

definition normalizeNumber :: "jsval \<Rightarrow> int \<Rightarrow> rat" where
  "normalizeNumber v fallback = (case v of JNum (Fin r) \<Rightarrow> r | _ \<Rightarrow> of_int fallback)"

text \<open>\<open>Math.round\<close> rounds halves up.\<close>

definition math_round :: "rat \<Rightarrow> int" where
  "math_round r = \<lfloor>r + 1 / 2\<rfloor>"

definition normalizeIntegerRange :: "jsval \<Rightarrow> int \<Rightarrow> int \<Rightarrow> int \<Rightarrow> int" where
  "normalizeIntegerRange v fallback mn mx =
     (let integer = math_round (normalizeNumber v fallback) in if integer \<ge> mn \<and> integer \<le> mx then integer else fallback)"

definition normalizePort :: "jsval \<Rightarrow> int \<Rightarrow> int" where
  "normalizePort v fallback = normalizeIntegerRange v fallback 1 65535"

definition normalizeBaudRate :: "jsval \<Rightarrow> int \<Rightarrow> int" where
  "normalizeBaudRate v fallback = normalizeIntegerRange v fallback 1 10000000"

definition normalizeGeneralSettings :: "jsval \<Rightarrow> string" where
  "normalizeGeneralSettings v =
     (if isValidAppLanguage (js_get v ''language'') then normalizeString (js_get v ''language'') DEFAULT_LANGUAGE else DEFAULT_LANGUAGE)"

definition normalizeCommandCenterSettings :: "jsval \<Rightarrow> command_center" where
  "normalizeCommandCenterSettings v =
     (let z21 = js_get v ''z21''; tcp = js_get v ''dccexTcp''; serial = js_get v ''dccexSerial'' in
      \<lparr>cc_type = (if isValidCommandCenterType (js_get v ''type'') then normalizeString (js_get v ''type'') ''simulator'' else ''simulator''),
       cc_z21 = \<lparr>ep_host = normalizeTrimmedString (js_get z21 ''host'') [], ep_port = normalizePort (js_get z21 ''port'') 21105\<rparr>,
       cc_dccexTcp = \<lparr>tp_host = normalizeTrimmedString (js_get tcp ''host'') [], tp_port = normalizePort (js_get tcp ''port'') 2560,
         tp_init = normalizeString (js_get tcp ''init'') []\<rparr>,
       cc_dccexSerial = \<lparr>sp_serialPort = normalizeTrimmedString (js_get serial ''serialPort'') [],
         sp_baudRate = normalizeBaudRate (js_get serial ''baudRate'') 115200, sp_init = normalizeString (js_get serial ''init'') []\<rparr>,
       cc_autoConnect = (case js_get v ''autoConnect'' of JBool b \<Rightarrow> b | _ \<Rightarrow> False)\<rparr>)"

definition normalizeAppSettings :: "jsval \<Rightarrow> app_settings" where
  "normalizeAppSettings v =
     (let clock = js_get v ''fastClock'' in
      \<lparr>ap_language = normalizeGeneralSettings (js_get v ''general''),
       ap_commandCenter = normalizeCommandCenterSettings (js_get v ''commandCenter''),
       ap_resetSource = (if js_get clock ''resetSource'' = JStr ''configured'' then ''configured'' else ''system''),
       ap_resetTimeMs = normalizeDayTimeMs (js_get clock ''resetTimeMs'')\<rparr>)"

subsection \<open>Time inputs\<close>

text \<open>\<open>String(n).padStart(2, "0")\<close>\<close>

definition pad2 :: "int \<Rightarrow> string" where
  "pad2 n = (let s = show_int n in replicate (2 - length s) CHR ''0'' @ s)"

definition dayTimeMsToTimeInputValue :: "int \<Rightarrow> string" where
  "dayTimeMsToTimeInputValue v =
     (let normalized = normalizeDayTimeMs (js_int v);
          totalSeconds = normalized div 1000;
          hours = totalSeconds div 3600;
          minutes = js_rem totalSeconds 3600 div 60
      in pad2 hours @ '':'' @ pad2 minutes)"

fun split_char :: "char \<Rightarrow> string \<Rightarrow> string list" where
  "split_char c [] = [[]]"
| "split_char c (x # xs) =
     (if x = c then [] # split_char c xs
      else case split_char c xs of p # ps \<Rightarrow> (x # p) # ps | [] \<Rightarrow> [[x]])"

definition timeInputValueToDayTimeMs :: "string \<Rightarrow> int" where
  "timeInputValueToDayTimeMs v =
     (let parts = split_char CHR '':'' v;
          hours = string_to_number (parts ! 0);
          minutes = string_to_number (if 1 < length parts then parts ! 1 else ''0'')
      in case (hours, minutes) of
           (Fin h, Fin m) \<Rightarrow> normalizeDayTimeMs (JNum (Fin (h * 60 * 60 * 1000 + m * 60 * 1000)))
         | _ \<Rightarrow> DEFAULT_FAST_CLOCK_RESET_TIME_MS)"

subsection \<open>Runtime variables\<close>

record runtime_variable =
  rv_key :: string
  rv_defaultValue :: bool
  rv_serverAuthoritative :: bool
  rv_persistent :: bool

definition RUNTIME_VARIABLES :: "runtime_variable list" where
  "RUNTIME_VARIABLES =
     [\<lparr>rv_key = ''editor.editMode'', rv_defaultValue = False, rv_serverAuthoritative = True, rv_persistent = False\<rparr>]"

definition getRuntimeVariableDefault :: "string \<Rightarrow> string + bool" where
  "getRuntimeVariableDefault key =
     (case find (\<lambda>v. rv_key v = key) RUNTIME_VARIABLES of
        None \<Rightarrow> Inl (''Unknown runtime variable: '' @ key)
      | Some v \<Rightarrow> Inr (rv_defaultValue v))"

definition isRuntimeVariableKey :: "jsval \<Rightarrow> bool" where
  "isRuntimeVariableKey v = (case v of JStr s \<Rightarrow> list_ex (\<lambda>d. rv_key d = s) RUNTIME_VARIABLES | _ \<Rightarrow> False)"

subsection \<open>Normal settings\<close>

definition settings_ok :: "app_settings \<Rightarrow> bool" where
  "settings_ok s \<longleftrightarrow>
     ap_language s \<in> {''en'', ''hu''} \<and> ap_resetSource s \<in> {''system'', ''configured''} \<and>
     0 \<le> ap_resetTimeMs s \<and> ap_resetTimeMs s < APP_DAY_MS \<and>
     (let c = ap_commandCenter s in
      cc_type c \<in> {''z21'', ''dcc-ex-tcp'', ''dcc-ex-serial'', ''simulator''} \<and>
      1 \<le> ep_port (cc_z21 c) \<and> ep_port (cc_z21 c) \<le> 65535 \<and> 1 \<le> tp_port (cc_dccexTcp c) \<and> tp_port (cc_dccexTcp c) \<le> 65535 \<and>
      1 \<le> sp_baudRate (cc_dccexSerial c) \<and> sp_baudRate (cc_dccexSerial c) \<le> 10000000 \<and>
      trim (ep_host (cc_z21 c)) = ep_host (cc_z21 c) \<and> trim (tp_host (cc_dccexTcp c)) = tp_host (cc_dccexTcp c) \<and>
      trim (sp_serialPort (cc_dccexSerial c)) = sp_serialPort (cc_dccexSerial c))"

definition settings_json :: "app_settings \<Rightarrow> jsval" where
  "settings_json s =
     (let c = ap_commandCenter s in
      JObj [(''version'', js_int 1), (''general'', JObj [(''language'', JStr (ap_language s))]),
        (''commandCenter'', JObj
           [(''type'', JStr (cc_type c)),
            (''z21'', JObj [(''host'', JStr (ep_host (cc_z21 c))), (''port'', js_int (ep_port (cc_z21 c)))]),
            (''dccexTcp'', JObj [(''host'', JStr (tp_host (cc_dccexTcp c))), (''port'', js_int (tp_port (cc_dccexTcp c))),
               (''init'', JStr (tp_init (cc_dccexTcp c)))]),
            (''dccexSerial'', JObj [(''serialPort'', JStr (sp_serialPort (cc_dccexSerial c))), (''baudRate'', js_int (sp_baudRate (cc_dccexSerial c))),
               (''init'', JStr (sp_init (cc_dccexSerial c)))]),
            (''autoConnect'', JBool (cc_autoConnect c))]),
        (''fastClock'', JObj [(''resetSource'', JStr (ap_resetSource s)), (''resetTimeMs'', js_int (ap_resetTimeMs s))])])"

lemma settings_json_get:
  "js_get (js_get (settings_json s) ''general'') ''language'' = JStr (ap_language s)"
  "js_get (js_get (settings_json s) ''fastClock'') ''resetSource'' = JStr (ap_resetSource s)"
  "js_get (js_get (settings_json s) ''fastClock'') ''resetTimeMs'' = js_int (ap_resetTimeMs s)"
  "js_get (js_get (settings_json s) ''commandCenter'') ''type'' = JStr (cc_type (ap_commandCenter s))"
  "js_get (js_get (settings_json s) ''commandCenter'') ''autoConnect'' = JBool (cc_autoConnect (ap_commandCenter s))"
  "js_get (js_get (js_get (settings_json s) ''commandCenter'') ''z21'') ''host'' = JStr (ep_host (cc_z21 (ap_commandCenter s)))"
  "js_get (js_get (js_get (settings_json s) ''commandCenter'') ''z21'') ''port'' = js_int (ep_port (cc_z21 (ap_commandCenter s)))"
  "js_get (js_get (js_get (settings_json s) ''commandCenter'') ''dccexTcp'') ''host'' = JStr (tp_host (cc_dccexTcp (ap_commandCenter s)))"
  "js_get (js_get (js_get (settings_json s) ''commandCenter'') ''dccexTcp'') ''port'' = js_int (tp_port (cc_dccexTcp (ap_commandCenter s)))"
  "js_get (js_get (js_get (settings_json s) ''commandCenter'') ''dccexTcp'') ''init'' = JStr (tp_init (cc_dccexTcp (ap_commandCenter s)))"
  "js_get (js_get (js_get (settings_json s) ''commandCenter'') ''dccexSerial'') ''serialPort'' = JStr (sp_serialPort (cc_dccexSerial (ap_commandCenter s)))"
  "js_get (js_get (js_get (settings_json s) ''commandCenter'') ''dccexSerial'') ''baudRate'' = js_int (sp_baudRate (cc_dccexSerial (ap_commandCenter s)))"
  "js_get (js_get (js_get (settings_json s) ''commandCenter'') ''dccexSerial'') ''init'' = JStr (sp_init (cc_dccexSerial (ap_commandCenter s)))"
  by (simp_all add: settings_json_def js_get_def Let_def)

lemma day_mod: "(let n = js_rem i APP_DAY_MS in if n < 0 then n + APP_DAY_MS else n) = i mod APP_DAY_MS"
  unfolding Let_def by (rule js_rem_fix) (simp add: APP_DAY_MS_def)

lemma normalizeDayTimeMs_range: "0 \<le> normalizeDayTimeMs v \<and> normalizeDayTimeMs v < APP_DAY_MS"
  unfolding normalizeDayTimeMs_def day_mod DEFAULT_FAST_CLOCK_RESET_TIME_MS_def by (simp add: APP_DAY_MS_def split: jsnum.split)

lemma normalizeDayTimeMs_int: "normalizeDayTimeMs (js_int i) = i mod APP_DAY_MS"
  unfolding normalizeDayTimeMs_def day_mod by (simp add: js_int_def)

lemma math_round_int [simp]: "math_round (of_int i) = i"
proof -
  have "\<lfloor>(of_int i :: rat) + 1 / 2\<rfloor> = i" by (rule floor_unique) simp_all
  then show ?thesis by (simp add: math_round_def)
qed

lemma normalizeIntegerRange: "mn \<le> fallback \<Longrightarrow> fallback \<le> mx \<Longrightarrow> mn \<le> normalizeIntegerRange v fallback mn mx \<and> normalizeIntegerRange v fallback mn mx \<le> mx"
  by (simp add: normalizeIntegerRange_def Let_def)

lemma normalizeIntegerRange_int: "mn \<le> i \<Longrightarrow> i \<le> mx \<Longrightarrow> normalizeIntegerRange (js_int i) fallback mn mx = i"
  by (simp add: normalizeIntegerRange_def normalizeNumber_def js_int_def Let_def)

lemma normalizeAppSettings_ok: "settings_ok (normalizeAppSettings v)"
proof -
  have port: "1 \<le> normalizePort u 21105 \<and> normalizePort u 21105 \<le> 65535" "1 \<le> normalizePort u 2560 \<and> normalizePort u 2560 \<le> 65535"
      "1 \<le> normalizeBaudRate u 115200 \<and> normalizeBaudRate u 115200 \<le> 10000000" for u
    by (simp_all add: normalizePort_def normalizeBaudRate_def normalizeIntegerRange)
  have language: "normalizeGeneralSettings u \<in> {''en'', ''hu''}" for u
    by (auto simp: normalizeGeneralSettings_def isValidAppLanguage_def normalizeString_def DEFAULT_LANGUAGE_def)
  have kind: "(if isValidCommandCenterType u then normalizeString u ''simulator'' else ''simulator'') \<in> {''z21'', ''dcc-ex-tcp'', ''dcc-ex-serial'', ''simulator''}" for u
    by (auto simp: isValidCommandCenterType_def normalizeString_def)
  show ?thesis
    using port language kind normalizeDayTimeMs_range
    by (simp add: settings_ok_def normalizeAppSettings_def normalizeCommandCenterSettings_def Let_def normalizeTrimmedString_def)
qed

lemma command_center_reread:
  assumes "settings_ok s"
  shows "normalizeCommandCenterSettings (js_get (settings_json s) ''commandCenter'') = ap_commandCenter s"
proof (rule command_center.equality)
  let ?n = "normalizeCommandCenterSettings (js_get (settings_json s) ''commandCenter'')"
  let ?c = "ap_commandCenter s"
  note fields = normalizeCommandCenterSettings_def Let_def settings_json_get normalizeTrimmedString_def normalizeString_def
  have ok: "isValidCommandCenterType (JStr (cc_type ?c))" "trim (ep_host (cc_z21 ?c)) = ep_host (cc_z21 ?c)"
      "trim (tp_host (cc_dccexTcp ?c)) = tp_host (cc_dccexTcp ?c)" "trim (sp_serialPort (cc_dccexSerial ?c)) = sp_serialPort (cc_dccexSerial ?c)"
    using assms by (auto simp: settings_ok_def Let_def isValidCommandCenterType_def)
  have port: "normalizePort (js_int (ep_port (cc_z21 ?c))) 21105 = ep_port (cc_z21 ?c)"
      "normalizePort (js_int (tp_port (cc_dccexTcp ?c))) 2560 = tp_port (cc_dccexTcp ?c)"
      "normalizeBaudRate (js_int (sp_baudRate (cc_dccexSerial ?c))) 115200 = sp_baudRate (cc_dccexSerial ?c)"
    using assms unfolding settings_ok_def Let_def normalizePort_def normalizeBaudRate_def by (simp_all add: normalizeIntegerRange_int)
  show "cc_type ?n = cc_type ?c" "cc_autoConnect ?n = cc_autoConnect ?c" by (simp_all add: fields ok)
  show "cc_z21 ?n = cc_z21 ?c" by (rule endpoint.equality) (simp_all add: fields ok port)
  show "cc_dccexTcp ?n = cc_dccexTcp ?c" by (rule tcp_endpoint.equality) (simp_all add: fields ok port)
  show "cc_dccexSerial ?n = cc_dccexSerial ?c" by (rule serial_endpoint.equality) (simp_all add: fields ok port)
qed simp

lemma settings_reread:
  assumes "settings_ok s"
  shows "normalizeAppSettings (settings_json s) = s"
proof (rule app_settings.equality)
  let ?n = "normalizeAppSettings (settings_json s)"
  show "ap_language ?n = ap_language s"
    using assms by (auto simp: normalizeAppSettings_def Let_def settings_json_get settings_ok_def normalizeGeneralSettings_def
        isValidAppLanguage_def normalizeString_def)
  show "ap_commandCenter ?n = ap_commandCenter s" using command_center_reread [OF assms] by (simp add: normalizeAppSettings_def Let_def)
  show "ap_resetSource ?n = ap_resetSource s"
    using assms by (auto simp: normalizeAppSettings_def Let_def settings_json_get settings_ok_def)
  show "ap_resetTimeMs ?n = ap_resetTimeMs s"
    using assms by (simp add: normalizeAppSettings_def Let_def settings_json_get normalizeDayTimeMs_int settings_ok_def)
qed simp

interpretation app: normalizer normalizeAppSettings settings_json settings_ok
  by unfold_locales (simp_all add: normalizeAppSettings_ok settings_reread)

subsection \<open>Time inputs\<close>

lemma split_at: "c \<notin> set xs \<Longrightarrow> split_char c (xs @ c # ys) = xs # split_char c ys"
  by (induction xs) auto

lemma split_none: "c \<notin> set xs \<Longrightarrow> split_char c xs = [xs]"
  by (induction xs) auto

lemma pad2_digits: "0 \<le> n \<Longrightarrow> CHR '':'' \<notin> set (pad2 n)"
  using show_int_chars [of "CHR '':''" n] by (auto simp: pad2_def Let_def is_digit_def)

lemma digits_to_number:
  assumes "s \<noteq> []" and digits: "\<forall>c\<in>set s. is_digit c"
  shows "string_to_number s = Fin (of_nat (read_digits s))"
proof -
  have nd: "\<not> is_digit CHR ''x''" "\<not> is_digit CHR ''X''" "\<not> is_digit CHR ''o''" "\<not> is_digit CHR ''O''" "\<not> is_digit CHR ''b''"
      "\<not> is_digit CHR ''B''" "\<not> is_digit CHR ''-''" "\<not> is_digit CHR ''+''" "\<not> is_digit CHR ''I''"
    by (simp_all add: is_digit_def)
  have space: "\<not> is_space c" if "is_digit c" for c using that by (auto simp: is_digit_def is_space_def)
  have "trim s = s" using assms space by (intro trim_id) auto
  moreover have "take 2 s \<noteq> [CHR ''0'', c]" if "\<not> is_digit c" for c
    using that digits by (cases s; cases "tl s") auto
  moreover have "hd s \<noteq> CHR ''-''" "hd s \<noteq> CHR ''+''" "s \<noteq> ''Infinity''" using assms nd by (cases s; auto)+
  moreover have "decimal_number s = Fin (of_nat (read_digits s))"
    using assms by (simp add: decimal_number_def Let_def takeWhile_eq_all_conv [THEN iffD2] dropWhile_eq_Nil_conv [THEN iffD2] exponent_part_def
        power10_def read_digits_def)
  ultimately show ?thesis using assms(1) nd by (simp add: string_to_number_def Let_def unsigned_number_def)
qed

lemma pad2_number: "0 \<le> n \<Longrightarrow> string_to_number (pad2 n) = Fin (of_int n)"
proof -
  assume n: "0 \<le> n"
  have zeros: "read_digits (replicate k CHR ''0'' @ s) = read_digits s" for k s
    by (induction k) (simp_all add: read_digits_def digit_val_def)
  have "\<forall>c\<in>set (pad2 n). is_digit c"
    using n show_nat_digits by (auto simp: pad2_def Let_def show_int_def) (auto simp: is_digit_def)
  moreover have "pad2 n \<noteq> []" by (simp add: pad2_def Let_def)
  moreover have "read_digits (pad2 n) = nat n" using n by (simp add: pad2_def Let_def zeros show_int_def)
  ultimately show ?thesis using n by (simp add: digits_to_number)
qed

text \<open>C30. Whatever the input is, the normalized settings are well-typed: a known language, reset source and kind of command center, ports
  from 1 to 65535, a baud rate up to 10 million, trimmed hosts and a reset time within the day; nothing at all gives the default settings;
  and settings of this type are left as they are when they are written and read again.\<close>

theorem settings_typed:
  "settings_ok (normalizeAppSettings v) \<and> normalizeAppSettings JUndef = DEFAULT_APP_SETTINGS \<and>
   normalizeAppSettings (settings_json (normalizeAppSettings v)) = normalizeAppSettings v \<and>
   (settings_ok s \<longleftrightarrow> (\<exists>u. normalizeAppSettings u = s))"
proof -
  have "js_get JUndef k = JUndef" "normalizeNumber JUndef i = of_int i" for k i by (simp_all add: js_get_def normalizeNumber_def)
  then have "normalizeAppSettings JUndef = DEFAULT_APP_SETTINGS"
    by (simp add: normalizeAppSettings_def Let_def normalizeGeneralSettings_def isValidAppLanguage_def DEFAULT_APP_SETTINGS_def
        normalizeCommandCenterSettings_def DEFAULT_COMMAND_CENTER_SETTINGS_def isValidCommandCenterType_def normalizeTrimmedString_def
        normalizeString_def normalizePort_def normalizeBaudRate_def normalizeIntegerRange_def normalizeDayTimeMs_def
        del: of_int_numeral)
  then show ?thesis using app.normalize_normal app.normalize_again app.normal_iff by simp
qed

lemma minutes_of: "(a + (60 * h) * 60) div 60 = 60 * h + a div (60 :: int)"
  by simp

lemma minutes_part: "(n :: int) div 60000 = n div 1000 div 3600 * 60 + n div 1000 mod 3600 div 60"
proof -
  define s where "s = n div 1000"
  have "s mod 3600 + (60 * (s div 3600)) * 60 = s" by simp
  then have "s div 60 = 60 * (s div 3600) + s mod 3600 div 60" using minutes_of [of "s mod 3600" "s div 3600"] by simp
  moreover have "n div 60000 = s div 60" unfolding s_def by (simp add: zdiv_zmult2_eq [symmetric])
  ultimately show ?thesis unfolding s_def [symmetric] by simp
qed

lemma time_input_value:
  assumes "0 \<le> h" "h < 24" "0 \<le> m" "m < 60"
  shows "timeInputValueToDayTimeMs (pad2 h @ CHR '':'' # pad2 m) = (h * 60 + m) * 60000"
proof -
  have parts: "split_char CHR '':'' (pad2 h @ CHR '':'' # pad2 m) = [pad2 h, pad2 m]"
    using assms by (simp add: split_at split_none pad2_digits)
  have eq: "of_int h * 60 * 60 * 1000 + of_int m * 60 * 1000 = (of_int ((h * 60 + m) * 60000) :: rat)" by simp
  have "0 \<le> (h * 60 + m) * 60000" "(h * 60 + m) * 60000 < 86400000" using assms by auto
  then have "(h * 60 + m) * 60000 mod 86400000 = (h * 60 + m) * 60000" by (rule mod_pos_pos_trivial)
  moreover have "timeInputValueToDayTimeMs (pad2 h @ CHR '':'' # pad2 m) = normalizeDayTimeMs (js_int ((h * 60 + m) * 60000))"
    unfolding timeInputValueToDayTimeMs_def parts Let_def js_int_def eq [symmetric] using assms by (simp add: pad2_number)
  ultimately show ?thesis by (simp only: normalizeDayTimeMs_int) (simp only: APP_DAY_MS_def, simp)
qed

lemma time_input_shown:
  assumes "n = v mod APP_DAY_MS"
  shows "dayTimeMsToTimeInputValue v = pad2 (n div 1000 div 3600) @ CHR '':'' # pad2 (n div 1000 mod 3600 div 60)"
proof -
  have "0 \<le> n div 1000" using assms by (simp add: APP_DAY_MS_def)
  then have "js_rem (n div 1000) 3600 = n div 1000 mod 3600" by (simp add: js_rem_nonneg)
  then show ?thesis unfolding dayTimeMsToTimeInputValue_def normalizeDayTimeMs_int assms [symmetric] Let_def by simp
qed

text \<open>A time input shows the hour and the minute of a time of day, and reading it back gives that time without its seconds.\<close>

theorem time_input_roundtrip:
  "timeInputValueToDayTimeMs (dayTimeMsToTimeInputValue v) = v mod APP_DAY_MS div 60000 * 60000"
proof -
  obtain n where n: "n = v mod APP_DAY_MS" by blast
  then have "0 \<le> n" "n < 86400000" by (simp_all add: APP_DAY_MS_def)
  then have "0 \<le> n div 1000 div 3600" "n div 1000 div 3600 < 24" "0 \<le> n div 1000 mod 3600 div 60" "n div 1000 mod 3600 div 60 < 60"
    by auto
  from time_input_value [OF this] show ?thesis unfolding time_input_shown [OF n] n [symmetric] minutes_part [of n] .
qed

end
