(* ===== verification/TrackEditor.thy ===== *)
theory TrackEditor
  imports LayoutViews LayoutModel
begin

text \<open>
  Editing a layout on the canvas: the handlers of \<open>components/track-canvas\<close> for the mouse, the wheel and the keys, over the
  layout of theory \<open>LayoutViews\<close>. Screen coordinates are exact rationals. The mutable references of \<open>TrackCanvas.tsx\<close> are the
  fields of \<open>editor\<close>; those that a render writes (tool, mode, selected element, open popovers) are changed by no handler. What
  a handler calls is a list of actions. The grid size is positive.
\<close>

subsection \<open>State\<close>

datatype tool_mode = ToolCursor | ToolDraw | ToolDelete

record view_state =
  vs_scale :: rat
  vs_offsetX :: rat
  vs_offsetY :: rat

record pan_state =
  pn_isPanning :: bool
  pn_lastX :: rat
  pn_lastY :: rat

record dragged =
  dg_id :: int
  dg_startX :: int
  dg_startY :: int

record drag_state =
  dr_isDraggingElement :: bool
  dr_elementId :: "int option"
  dr_startMouseGridX :: int
  dr_startMouseGridY :: int
  dr_startElementX :: int
  dr_startElementY :: int
  dr_draggedElements :: "dragged list"

record selection_rect =
  sr_startGridX :: int
  sr_startGridY :: int
  sr_endGridX :: int
  sr_endGridY :: int

record selection_state = selection_rect +
  sn_isSelecting :: bool
  sn_additive :: bool

record editor =
  ed_layout :: view_layout
  ed_gridSize :: rat
  ed_nextRef :: nat
  ed_tool :: tool_mode
  ed_view :: view_state
  ed_editMode :: bool
  ed_turnoutSelectionMode :: bool
  ed_selectedElement :: "nat option"
  ed_currentCursor :: "view option"
  ed_signalPopover :: bool
  ed_doublePopover :: bool
  ed_pan :: pan_state
  ed_drag :: drag_state
  ed_selection :: selection_state
  ed_style :: string
  ed_hoverGrid :: "point option"
  ed_mouseGrid :: point

datatype editor_action =
    BeforeLayoutChange | LayoutChange | SelectedElementChange "nat option" | PersistView | Invalidate | OnInvalidate
  | OpenSignalPopover nat rat rat | ReopenSignalPopover nat rat rat | CloseSignalPopover
  | OpenDoublePopover nat rat rat | ReopenDoublePopover nat rat rat | CloseDoublePopover
  | PressAudio nat | SelectBlock nat | OpenLocoPicker | MarkRouteTurnouts nat | ClickableDown "nat option"
  | SetCursor view | RouteTurnoutRemoved string | ShowError | Alert

text \<open>Where the canvas lies on the page (\<open>getBoundingClientRect\<close>), and the mouse events.\<close>

record canvas_rect =
  cr_left :: rat
  cr_top :: rat
  cr_width :: rat
  cr_height :: rat

record mouse_event =
  me_clientX :: rat
  me_clientY :: rat
  me_button :: int
  me_ctrlKey :: bool

subsection \<open>Geometry\<close>

definition screenToGrid :: "rat \<Rightarrow> rat \<Rightarrow> view_state \<Rightarrow> rat \<Rightarrow> point" where
  "screenToGrid screenX screenY v gridSize =
     (let worldX = (screenX - vs_offsetX v) / vs_scale v; worldY = (screenY - vs_offsetY v) / vs_scale v
      in mk_point \<lfloor>worldX / gridSize\<rfloor> \<lfloor>worldY / gridSize\<rfloor>)"

definition getCenteredElementGridAnchor :: "view \<Rightarrow> point \<Rightarrow> point" where
  "getCenteredElementGridAnchor e g =
     (let bounds = getBounds e in
      mk_point (p_x g - r_width bounds div 2 - (r_x bounds - be_x e)) (p_y g - r_height bounds div 2 - (r_y bounds - be_y e)))"

definition clamp_view :: "rat \<Rightarrow> rat \<Rightarrow> rat \<Rightarrow> rat" where
  "clamp_view v lo hi = max lo (min hi v)"

definition event_grid :: "canvas_rect \<Rightarrow> mouse_event \<Rightarrow> editor \<Rightarrow> point" where
  "event_grid r ev s = screenToGrid (me_clientX ev - cr_left r) (me_clientY ev - cr_top r) (ed_view s) (ed_gridSize s)"

subsection \<open>Elements of the layout\<close>

text \<open>The layers in the order of the layout, and in the order of \<open>getAllLayoutElements\<close>.\<close>

definition layered_views :: "view_layout \<Rightarrow> view list" where
  "layered_views l = vl_buildings l @ vl_blocks l @ vl_sensors l @ vl_signals l @ vl_track l"

definition getAllLayoutElements :: "view_layout \<Rightarrow> view list" where
  "getAllLayoutElements l = vl_track l @ vl_sensors l @ vl_signals l @ vl_blocks l @ vl_buildings l"

definition element_at :: "point \<Rightarrow> view_layout \<Rightarrow> view option" where
  "element_at p l = find (view_hit p) (layered_views l)"

definition layered_element_at :: "view \<Rightarrow> point \<Rightarrow> view_layout \<Rightarrow> view option" where
  "layered_element_at e p l =
     find (\<lambda>o'. \<not> (vw_ref o' = vw_ref e \<or> be_layerName o' \<noteq> be_layerName e) \<and>
             elementsIntersect (e\<lparr>be_x := p_x p, be_y := p_y p\<rparr>) o') (layered_views l)"

definition place :: "int \<Rightarrow> int \<Rightarrow> view \<Rightarrow> view" where
  "place x y e = e\<lparr>be_x := x, be_y := y\<rparr>"

definition select_view :: "bool \<Rightarrow> view \<Rightarrow> view" where
  "select_view b e = e\<lparr>vw_selected := b\<rparr>"

subsection \<open>The selection rectangle\<close>

record normalized_rect =
  nr_left :: int
  nr_right :: int
  nr_top :: int
  nr_bottom :: int

definition normalizeSelectionRect :: "selection_rect \<Rightarrow> normalized_rect" where
  "normalizeSelectionRect r =
     \<lparr>nr_left = min (sr_startGridX r) (sr_endGridX r), nr_right = max (sr_startGridX r) (sr_endGridX r),
      nr_top = min (sr_startGridY r) (sr_endGridY r), nr_bottom = max (sr_startGridY r) (sr_endGridY r)\<rparr>"

definition getSelectionRect :: "selection_state \<Rightarrow> selection_rect option" where
  "getSelectionRect s = (if \<not> sn_isSelecting s then None else Some (selection_rect.truncate s))"

definition in_selection :: "normalized_rect \<Rightarrow> view \<Rightarrow> bool" where
  "in_selection n e \<longleftrightarrow>
     (let b = getBounds e; left = r_x b; right = r_x b + r_width b - 1; top = r_y b; bottom = r_y b + r_height b - 1
      in left \<le> nr_right n \<and> right \<ge> nr_left n \<and> top \<le> nr_bottom n \<and> bottom \<ge> nr_top n)"

definition applySelectionRect :: "view_layout \<Rightarrow> selection_rect \<Rightarrow> bool \<Rightarrow> view_layout \<times> view list" where
  "applySelectionRect l r add =
     (let l1 = (if add then l else unselectAll l);
          l2 = map_views (\<lambda>e. if in_selection (normalizeSelectionRect r) e then select_view True e else e) l1
      in (l2, filter vw_selected (getAllLayoutElements l2)))"

subsection \<open>Bounds, fitting and centring\<close>

fun extend_view_bounds :: "layout_bounds \<Rightarrow> view list \<Rightarrow> layout_bounds" where
  "extend_view_bounds b [] = b"
| "extend_view_bounds b (e # es) =
     (let r = getBounds e in
      extend_view_bounds \<lparr>lb_minX = min (lb_minX b) (r_x r), lb_minY = min (lb_minY b) (r_y r),
        lb_maxX = max (lb_maxX b) (r_x r + r_width r - 1), lb_maxY = max (lb_maxY b) (r_y r + r_height r - 1)\<rparr> es)"

text \<open>The loop starts from infinite bounds, which the first element replaces by its own.\<close>

definition view_bounds :: "view_layout \<Rightarrow> layout_bounds option" where
  "view_bounds l =
     (case getAllLayoutElements l of
        [] \<Rightarrow> None
      | e # rest \<Rightarrow> let r = getBounds e in
          Some (extend_view_bounds \<lparr>lb_minX = r_x r, lb_minY = r_y r, lb_maxX = r_x r + r_width r - 1,
                                    lb_maxY = r_y r + r_height r - 1\<rparr> rest))"

definition world :: "rat \<Rightarrow> int \<Rightarrow> rat" where
  "world gridSize c = of_int c * gridSize"

definition fitLayoutToView :: "view_layout \<Rightarrow> rat \<Rightarrow> rat \<Rightarrow> rat \<Rightarrow> view_state \<Rightarrow> view_state" where
  "fitLayoutToView l gridSize canvasWidth canvasHeight v =
     (case view_bounds l of
        None \<Rightarrow> v
      | Some b \<Rightarrow>
          let padding = 40;
              worldLeft = world gridSize (lb_minX b); worldTop = world gridSize (lb_minY b);
              worldRight = world gridSize (lb_maxX b + 1); worldBottom = world gridSize (lb_maxY b + 1);
              worldWidth = worldRight - worldLeft; worldHeight = worldBottom - worldTop
          in if worldWidth \<le> 0 \<or> worldHeight \<le> 0 then v
             else
               let availableWidth = max 1 (canvasWidth - padding * 2);
                   availableHeight = max 1 (canvasHeight - padding * 2);
                   newScale = clamp_view (min (availableWidth / worldWidth) (availableHeight / worldHeight)) (1 / 5) 4
               in v\<lparr>vs_scale := newScale,
                    vs_offsetX := (canvasWidth - worldWidth * newScale) / 2 - worldLeft * newScale,
                    vs_offsetY := (canvasHeight - worldHeight * newScale) / 2 - worldTop * newScale\<rparr>)"

definition centerLayoutInView :: "view_layout \<Rightarrow> rat \<Rightarrow> rat \<Rightarrow> rat \<Rightarrow> view_state \<Rightarrow> view_state" where
  "centerLayoutInView l gridSize canvasWidth canvasHeight v =
     (case view_bounds l of
        None \<Rightarrow> v
      | Some b \<Rightarrow>
          let worldCenterX = (world gridSize (lb_minX b) + world gridSize (lb_maxX b + 1)) / 2;
              worldCenterY = (world gridSize (lb_minY b) + world gridSize (lb_maxY b + 1)) / 2
          in v\<lparr>vs_offsetX := canvasWidth / 2 - worldCenterX * vs_scale v,
               vs_offsetY := canvasHeight / 2 - worldCenterY * vs_scale v\<rparr>)"

subsection \<open>Pressing a mouse button\<close>

definition isSignalView :: "view \<Rightarrow> bool" where
  "isSignalView e \<longleftrightarrow> be_type e \<in> {TRACK_SIGNAL, TRACK_SIGNAL2, TRACK_SIGNAL3, TRACK_SIGNAL4}"

definition isDoubleTurnoutView :: "view \<Rightarrow> bool" where
  "isDoubleTurnoutView e \<longleftrightarrow> be_type e = TRACK_TURNOUT_DOUBLE"

definition isClickableView :: "view \<Rightarrow> bool" where
  "isClickableView e \<longleftrightarrow> be_type e \<in> {BUTTON, BUTTON_AUDIO_LIST, BUTTON_ROUTE, BUTTON_ROUTE_EXTENDED}"

text \<open>What a click does to the element is in theory \<open>RouteExecution\<close>; here, whether it is handled.\<close>

definition clickable_handled :: "view \<Rightarrow> bool" where
  "clickable_handled e \<longleftrightarrow>
     be_type e = TRACK_SENSOR \<or> be_type e = TRACK_LEVEL_CROSSING \<or> isClickableView e \<or> isTurnoutElement e"

definition close_popovers :: "editor \<Rightarrow> editor_action list" where
  "close_popovers s =
     (if ed_signalPopover s then [CloseSignalPopover] else []) @ (if ed_doublePopover s then [CloseDoublePopover] else [])"

definition addOrUpdateTurnout :: "int \<Rightarrow> bool \<Rightarrow> route_turnout list \<Rightarrow> route_turnout list" where
  "addOrUpdateTurnout i b ts =
     (case find_index (\<lambda>t. rt_turnoutId t = i) ts of
        Some k \<Rightarrow> ts[k := (ts ! k)\<lparr>rt_closed := b\<rparr>]
      | None \<Rightarrow> ts @ [\<lparr>rt_turnoutId = i, rt_closed = b\<rparr>])"

definition add_route_turnout :: "int \<Rightarrow> bool \<Rightarrow> view \<Rightarrow> view" where
  "add_route_turnout i b e =
     (case vw_data e of RouteButtonData a ts \<Rightarrow> e\<lparr>vw_data := RouteButtonData a (addOrUpdateTurnout i b ts)\<rparr> | _ \<Rightarrow> e)"

text \<open>Choosing the turnouts of the route button that is selected.\<close>

definition selection_click :: "view option \<Rightarrow> editor \<Rightarrow> editor \<times> editor_action list" where
  "selection_click hit s =
     (case hit of
        None \<Rightarrow> (s, [])
      | Some e \<Rightarrow>
          (case Option.bind (ed_selectedElement s) (\<lambda>r. view_by_ref r (ed_layout s)) of
             Some b \<Rightarrow>
               if isRouteButton b
               then (if isTurnoutElement e
                     then (s\<lparr>ed_layout := update_view (vw_ref b) (add_route_turnout (be_id e) (td_closed (turnout_of e))) (ed_layout s)\<rparr>,
                           [MarkRouteTurnouts (vw_ref b), OnInvalidate])
                     else (s, []))
               else (s, [Alert])
           | None \<Rightarrow> (s, [Alert])))"

text \<open>A click while the layout is in use.\<close>

definition runtime_click :: "view option \<Rightarrow> mouse_event \<Rightarrow> editor \<Rightarrow> editor_action list" where
  "runtime_click hit ev s =
     (let x = me_clientX ev; y = me_clientY ev;
          onBlock = (case hit of Some e \<Rightarrow> if isBlock e then [SelectBlock (vw_ref e), OpenLocoPicker] else [] | None \<Rightarrow> []);
          onClick = (case hit of
                       Some e \<Rightarrow> if ed_tool s = ToolCursor \<and> clickable_handled e then [ClickableDown (Some (vw_ref e))] else []
                     | None \<Rightarrow> []);
          rest = onBlock @ close_popovers s @ onClick
      in case hit of
           None \<Rightarrow> rest
         | Some e \<Rightarrow>
             if be_type e = BUTTON_AUDIO then [PressAudio (vw_ref e)]
             else if isSignalView e
             then (if ed_doublePopover s then [CloseDoublePopover] else []) @
                  (if ed_signalPopover s then [ReopenSignalPopover (vw_ref e) x y] else [OpenSignalPopover (vw_ref e) x y])
             else if isDoubleTurnoutView e
             then (if ed_signalPopover s then [CloseSignalPopover] else []) @
                  (if ed_doublePopover s then [ReopenDoublePopover (vw_ref e) x y] else [OpenDoublePopover (vw_ref e) x y])
             else rest)"

definition delete_click :: "view option \<Rightarrow> editor \<Rightarrow> editor \<times> editor_action list" where
  "delete_click hit s =
     (case hit of
        None \<Rightarrow> (s, [])
      | Some e \<Rightarrow>
          let (l, names) = view_removeElement e (ed_layout s)
          in (s\<lparr>ed_layout := l\<rparr>, [BeforeLayoutChange] @ map RouteTurnoutRemoved names @ [LayoutChange, Invalidate]))"

text \<open>
  The elements that are drawn are clones of cursors, which are as their constructor made them but for the rotation; a clone is a
  new object without id: \<open>id\<close> is set to a text, which the setter of \<open>BaseElement\<close> takes for no id.
\<close>

definition clone_cursor :: "nat \<Rightarrow> view \<Rightarrow> view" where
  "clone_cursor r e = e\<lparr>vw_ref := r, be_id := INVALID_LAYOUT_ELEMENT_ID\<rparr>"

definition push_view :: "view \<Rightarrow> view_layout \<Rightarrow> view_layout" where
  "push_view e l =
     (if be_layerName e = ''blocks'' then l\<lparr>vl_blocks := vl_blocks l @ [e]\<rparr>
      else if be_layerName e = ''signals'' then l\<lparr>vl_signals := vl_signals l @ [e]\<rparr>
      else if be_layerName e = ''sensors'' then l\<lparr>vl_sensors := vl_sensors l @ [e]\<rparr>
      else if be_layerName e = ''track'' then l\<lparr>vl_track := vl_track l @ [e]\<rparr>
      else if be_layerName e = ''buildings'' then l\<lparr>vl_buildings := vl_buildings l @ [e]\<rparr>
      else l)"

definition draw_click :: "point \<Rightarrow> editor \<Rightarrow> editor \<times> editor_action list" where
  "draw_click grid s =
     (case ed_currentCursor s of
        None \<Rightarrow> (s, [])
      | Some cursor \<Rightarrow>
          let anchor = getCenteredElementGridAnchor cursor grid in
          (case layered_element_at cursor anchor (ed_layout s) of
             Some occupant \<Rightarrow> (s, [ShowError])
           | None \<Rightarrow>
               let e = select_view False (place (p_x anchor) (p_y anchor) (clone_cursor (ed_nextRef s) cursor))
               in (s\<lparr>ed_layout := push_view e (ed_layout s), ed_nextRef := ed_nextRef s + 1\<rparr>,
                   [BeforeLayoutChange, LayoutChange, Invalidate])))"

definition the_only :: "view list \<Rightarrow> nat option" where
  "the_only es = (case es of [e] \<Rightarrow> Some (vw_ref e) | _ \<Rightarrow> None)"

definition dragged_of :: "view \<Rightarrow> dragged" where
  "dragged_of e = \<lparr>dg_id = be_id e, dg_startX = be_x e, dg_startY = be_y e\<rparr>"

definition element_click :: "view \<Rightarrow> point \<Rightarrow> mouse_event \<Rightarrow> editor \<Rightarrow> editor \<times> editor_action list" where
  "element_click e grid ev s =
     (if me_ctrlKey ev
      then let l = update_view (vw_ref e) (select_view (\<not> vw_selected e)) (ed_layout s)
           in (s\<lparr>ed_layout := l\<rparr>,
               [SelectedElementChange (the_only (filter vw_selected (getAllLayoutElements l))), LayoutChange, Invalidate])
      else let l = (if vw_selected e then ed_layout s
                    else update_view (vw_ref e) (select_view True) (unselectAll (ed_layout s)))
           in (s\<lparr>ed_layout := l,
                 ed_drag := \<lparr>dr_isDraggingElement = True, dr_elementId = Some (be_id e),
                    dr_startMouseGridX = p_x grid, dr_startMouseGridY = p_y grid,
                    dr_startElementX = be_x e, dr_startElementY = be_y e,
                    dr_draggedElements = map dragged_of (filter vw_selected (getAllLayoutElements l))\<rparr>,
                 ed_style := ''move''\<rparr>,
               (if vw_selected e then [] else [SelectedElementChange (Some (vw_ref e))]) @ [BeforeLayoutChange, Invalidate]))"

definition empty_click :: "point \<Rightarrow> mouse_event \<Rightarrow> editor \<Rightarrow> editor \<times> editor_action list" where
  "empty_click grid ev s =
     (let l = (if me_ctrlKey ev then ed_layout s else unselectAll (ed_layout s));
          unselect = (if me_ctrlKey ev then [] else [SelectedElementChange None])
      in (s\<lparr>ed_layout := l,
            ed_selection := \<lparr>sr_startGridX = p_x grid, sr_startGridY = p_y grid, sr_endGridX = p_x grid, sr_endGridY = p_y grid,
               sn_isSelecting = True, sn_additive = me_ctrlKey ev\<rparr>,
            ed_style := ''crosshair''\<rparr>,
          unselect @ [Invalidate]))"

definition handleTrackCanvasMouseDown :: "canvas_rect \<Rightarrow> mouse_event \<Rightarrow> editor \<Rightarrow> editor \<times> editor_action list" where
  "handleTrackCanvasMouseDown r ev s =
     (if me_button ev = 2
      then (s\<lparr>ed_pan := \<lparr>pn_isPanning = True, pn_lastX = me_clientX ev, pn_lastY = me_clientY ev\<rparr>, ed_style := ''grabbing''\<rparr>,
            close_popovers s)
      else
        let grid = event_grid r ev s; hit = element_at grid (ed_layout s)
        in if \<not> ed_editMode s then (s, runtime_click hit ev s)
           else if ed_turnoutSelectionMode s then selection_click hit s
           else
             let (s', out) =
               (if ed_tool s = ToolDelete then delete_click hit s
                else if ed_tool s = ToolDraw then draw_click grid s
                else case hit of Some e \<Rightarrow> element_click e grid ev s | None \<Rightarrow> empty_click grid ev s)
             in (s', close_popovers s @ out))"

subsection \<open>Moving the mouse\<close>

definition isTrackCanvasPointerElement :: "view option \<Rightarrow> bool" where
  "isTrackCanvasPointerElement hit =
     (case hit of
        None \<Rightarrow> False
      | Some e \<Rightarrow> isTurnoutElement e \<or> be_type e = TRACK_TURNOUT_TWO_WAY \<or> isDoubleTurnoutView e \<or> isSignalView e \<or>
          be_type e = TRACK_SENSOR \<or> be_type e = TRACK_LEVEL_CROSSING \<or> isClickableView e \<or> be_type e = BUTTON_AUDIO \<or> isBlock e)"

definition getTrackCanvasCursor :: "bool \<Rightarrow> tool_mode \<Rightarrow> view option \<Rightarrow> string" where
  "getTrackCanvasCursor editMode tool hovered =
     (if \<not> editMode then (if isTrackCanvasPointerElement hovered then ''pointer'' else ''default'')
      else if tool = ToolDraw then ''crosshair'' else ''default'')"

definition dragged_element :: "dragged \<Rightarrow> view_layout \<Rightarrow> view option" where
  "dragged_element d l = find (\<lambda>e. be_id e = dg_id d) (getAllLayoutElements l)"

text \<open>The first loop of a drag: is an element in the way that is not dragged itself?\<close>

definition drag_blocked :: "int \<Rightarrow> int \<Rightarrow> dragged list \<Rightarrow> view_layout \<Rightarrow> bool" where
  "drag_blocked dx dy ds l \<longleftrightarrow>
     (\<exists>d\<in>set ds.
        case dragged_element d l of
          None \<Rightarrow> False
        | Some e \<Rightarrow>
            (case layered_element_at e (mk_point (dg_startX d + dx) (dg_startY d + dy)) l of
               None \<Rightarrow> False | Some occupied \<Rightarrow> be_id occupied \<notin> dg_id ` set ds))"

text \<open>The second loop. Moving changes no id, so looking up in the list made before gives the same objects.\<close>

definition drag_one :: "int \<Rightarrow> int \<Rightarrow> dragged \<Rightarrow> view_layout \<Rightarrow> view_layout" where
  "drag_one dx dy d l =
     (case dragged_element d l of
        None \<Rightarrow> l
      | Some e \<Rightarrow> update_view (vw_ref e) (place (dg_startX d + dx) (dg_startY d + dy)) l)"

definition drag_all :: "int \<Rightarrow> int \<Rightarrow> dragged list \<Rightarrow> view_layout \<Rightarrow> view_layout" where
  "drag_all dx dy ds l = fold (drag_one dx dy) ds l"

definition truthy_id :: "int option \<Rightarrow> bool" where
  "truthy_id i \<longleftrightarrow> i \<noteq> None \<and> i \<noteq> Some 0"

definition drag_move :: "point \<Rightarrow> editor \<Rightarrow> editor \<times> editor_action list" where
  "drag_move grid s =
     (let d = ed_drag s; dx = p_x grid - dr_startMouseGridX d; dy = p_y grid - dr_startMouseGridY d in
      if drag_blocked dx dy (dr_draggedElements d) (ed_layout s)
      then (s\<lparr>ed_hoverGrid := Some grid, ed_style := ''not-allowed''\<rparr>, [])
      else (s\<lparr>ed_hoverGrid := None, ed_layout := drag_all dx dy (dr_draggedElements d) (ed_layout s), ed_style := ''move''\<rparr>,
            [Invalidate]))"

definition hover_cursor :: "point \<Rightarrow> editor \<Rightarrow> editor \<times> editor_action list" where
  "hover_cursor grid s =
     (case (ed_tool s, ed_currentCursor s) of
        (ToolDraw, Some cursor) \<Rightarrow>
          let anchor = getCenteredElementGridAnchor cursor grid
          in (s\<lparr>ed_hoverGrid := (if layered_element_at cursor anchor (ed_layout s) \<noteq> None then Some anchor else None)\<rparr>, [Invalidate])
      | _ \<Rightarrow> (s, []))"

definition handleTrackCanvasMouseMove :: "canvas_rect \<Rightarrow> mouse_event \<Rightarrow> editor \<Rightarrow> editor \<times> editor_action list" where
  "handleTrackCanvasMouseMove r ev s0 =
     (let grid = event_grid r ev s0;
          hovered = element_at grid (ed_layout s0);
          (s, out) = hover_cursor grid (s0\<lparr>ed_mouseGrid := grid\<rparr>)
      in if pn_isPanning (ed_pan s)
         then let dx = me_clientX ev - pn_lastX (ed_pan s); dy = me_clientY ev - pn_lastY (ed_pan s)
              in (s\<lparr>ed_pan := (ed_pan s)\<lparr>pn_lastX := me_clientX ev, pn_lastY := me_clientY ev\<rparr>,
                    ed_view := (ed_view s)\<lparr>vs_offsetX := vs_offsetX (ed_view s) + dx, vs_offsetY := vs_offsetY (ed_view s) + dy\<rparr>\<rparr>,
                  out @ [PersistView, Invalidate])
         else if sn_isSelecting (ed_selection s)
         then (s\<lparr>ed_selection := (ed_selection s)\<lparr>sr_endGridX := p_x grid, sr_endGridY := p_y grid\<rparr>, ed_style := ''crosshair''\<rparr>,
               out @ [Invalidate])
         else if dr_isDraggingElement (ed_drag s) \<and> truthy_id (dr_elementId (ed_drag s))
         then (let (s', out') = drag_move grid s in (s', out @ out'))
         else (s\<lparr>ed_style := getTrackCanvasCursor (ed_editMode s) (ed_tool s) hovered\<rparr>, out))"

subsection \<open>Releasing the mouse\<close>

definition stop_selecting :: "editor \<Rightarrow> editor \<times> editor_action list" where
  "stop_selecting s =
     (case getSelectionRect (ed_selection s) of
        None \<Rightarrow> (s, [])
      | Some r \<Rightarrow>
          let (l, selected) = applySelectionRect (ed_layout s) r (sn_additive (ed_selection s))
          in (s\<lparr>ed_layout := l, ed_selection := (ed_selection s)\<lparr>sn_isSelecting := False, sn_additive := False\<rparr>\<rparr>,
              [SelectedElementChange (the_only selected), LayoutChange]))"

definition actually_moved :: "editor \<Rightarrow> bool" where
  "actually_moved s \<longleftrightarrow>
     (\<exists>d\<in>set (dr_draggedElements (ed_drag s)).
        case dragged_element d (ed_layout s) of
          None \<Rightarrow> False | Some e \<Rightarrow> be_x e \<noteq> dg_startX d \<or> be_y e \<noteq> dg_startY d)"

definition stopTrackCanvasInteraction :: "editor \<Rightarrow> editor \<times> editor_action list" where
  "stopTrackCanvasInteraction s0 =
     (let (s, out) = stop_selecting s0;
          persist = (if pn_isPanning (ed_pan s) then [PersistView] else []);
          moved = (if dr_isDraggingElement (ed_drag s) \<and> actually_moved s then [LayoutChange] else []);
          hover = (case ed_currentCursor s of
                     None \<Rightarrow> None
                   | Some cursor \<Rightarrow>
                       if layered_element_at cursor (be_pos cursor) (ed_layout s) \<noteq> None
                       then Some (be_pos cursor) else ed_hoverGrid s)
      in (s\<lparr>ed_pan := (ed_pan s)\<lparr>pn_isPanning := False\<rparr>,
            ed_drag := (ed_drag s)\<lparr>dr_isDraggingElement := False, dr_elementId := None, dr_draggedElements := []\<rparr>,
            ed_style := ''default'', ed_hoverGrid := hover\<rparr>,
          out @ persist @ moved @ [Invalidate]))"

subsection \<open>The wheel and the keys\<close>

definition handleTrackCanvasWheel :: "canvas_rect \<Rightarrow> mouse_event \<Rightarrow> rat \<Rightarrow> editor \<Rightarrow> editor \<times> editor_action list" where
  "handleTrackCanvasWheel r ev deltaY s =
     (let out = (if ed_signalPopover s then [CloseSignalPopover] else []);
          mouseX = me_clientX ev - cr_left r; mouseY = me_clientY ev - cr_top r;
          zoomFactor = (if deltaY < 0 then 11 / 10 else 9 / 10);
          v = ed_view s;
          oldScale = vs_scale v;
          newScale = clamp_view (oldScale * zoomFactor) (1 / 5) 4
      in if newScale = oldScale then (s, out)
         else
           let worldX = (mouseX - vs_offsetX v) / oldScale; worldY = (mouseY - vs_offsetY v) / oldScale
           in (s\<lparr>ed_view := \<lparr>vs_scale = newScale, vs_offsetX = mouseX - worldX * newScale, vs_offsetY = mouseY - worldY * newScale\<rparr>\<rparr>,
               out @ [PersistView, Invalidate]))"

definition rotate_step :: "view \<Rightarrow> view" where
  "rotate_step e = e\<lparr>be_rotation := js_rem (be_rotation e + be_rotationStep e) 360\<rparr>"

text \<open>\<open>canvas\<close> is where the canvas lies, when there is one; \<open>onCanvas\<close> says that the focus is on it.\<close>

definition key_fit :: "canvas_rect option \<Rightarrow> editor \<Rightarrow> editor \<times> editor_action list" where
  "key_fit canvas s =
     (case canvas of
        None \<Rightarrow> (s, [])
      | Some r \<Rightarrow>
          (s\<lparr>ed_view := fitLayoutToView (ed_layout s) (ed_gridSize s) (cr_width r) (cr_height r) (ed_view s)\<rparr>,
           [PersistView, Invalidate]))"

definition key_rotate :: "editor \<Rightarrow> editor \<times> editor_action list" where
  "key_rotate s =
     (case ed_tool s of
        ToolDraw \<Rightarrow>
          (case ed_currentCursor s of
             None \<Rightarrow> (s, [])
           | Some cursor \<Rightarrow>
               let c = rotate_step cursor
               in (s\<lparr>ed_currentCursor := Some c, ed_nextRef := ed_nextRef s + 1\<rparr>,
                   [SetCursor (clone_cursor (ed_nextRef s) c), Invalidate]))
      | ToolCursor \<Rightarrow>
          (case getSelected (ed_layout s) of
             None \<Rightarrow> (s, [])
           | Some e \<Rightarrow>
               (s\<lparr>ed_layout := update_view (vw_ref e) rotate_step (ed_layout s)\<rparr>, [BeforeLayoutChange, LayoutChange, Invalidate]))
      | ToolDelete \<Rightarrow> (s, []))"

definition remove_step :: "view \<Rightarrow> view_layout \<times> editor_action list \<Rightarrow> view_layout \<times> editor_action list" where
  "remove_step e x = (let (l, names) = view_removeElement e (fst x) in (l, snd x @ map RouteTurnoutRemoved names))"

definition key_delete :: "editor \<Rightarrow> editor \<times> editor_action list" where
  "key_delete s =
     (case getSelected (ed_layout s) of
        None \<Rightarrow> (s, [])
      | Some selected \<Rightarrow>
          let (l, warnings) = fold remove_step (filter vw_selected (getAllLayoutElements (ed_layout s))) (ed_layout s, []);
              current = Option.bind (ed_selectedElement s) (\<lambda>r. view_by_ref r (ed_layout s));
              unselect = (if map_option be_id current = Some (be_id selected) then [SelectedElementChange None] else [])
          in (s\<lparr>ed_layout := l\<rparr>, [BeforeLayoutChange] @ warnings @ unselect @ [LayoutChange, Invalidate]))"

definition handleTrackCanvasKeyDown :: "bool \<Rightarrow> canvas_rect option \<Rightarrow> string \<Rightarrow> editor \<Rightarrow> editor \<times> editor_action list" where
  "handleTrackCanvasKeyDown onCanvas canvas key s =
     (if \<not> onCanvas then (s, [])
      else
        let out = (if to_lower key = ''escape'' then [CloseSignalPopover] else []);
            (s', out') =
              (if to_lower key = ''f'' then key_fit canvas s
               else if \<not> ed_editMode s then (s, [])
               else if key = ''r'' \<or> key = ''R'' then key_rotate s
               else if key = ''Delete'' \<or> key = ''Backspace'' then key_delete s
               else (s, []))
        in (s', out @ out'))"

subsection \<open>Steps\<close>

datatype editor_event =
    MouseDown canvas_rect mouse_event
  | MouseMove canvas_rect mouse_event
  | Stop
  | Wheel canvas_rect mouse_event rat
  | KeyDown bool "canvas_rect option" string

definition editor_step :: "editor_event \<Rightarrow> editor \<Rightarrow> editor \<times> editor_action list" where
  "editor_step ev s =
     (case ev of
        MouseDown r e \<Rightarrow> handleTrackCanvasMouseDown r e s
      | MouseMove r e \<Rightarrow> handleTrackCanvasMouseMove r e s
      | Stop \<Rightarrow> stopTrackCanvasInteraction s
      | Wheel r e d \<Rightarrow> handleTrackCanvasWheel r e d s
      | KeyDown b c k \<Rightarrow> handleTrackCanvasKeyDown b c k s)"

definition editor_run :: "editor_event list \<Rightarrow> editor \<Rightarrow> editor" where
  "editor_run evs s = fold (\<lambda>ev s. fst (editor_step ev s)) evs s"

text \<open>The references of \<open>TrackCanvas.tsx\<close> when it is mounted.\<close>

definition new_editor :: "view_layout \<Rightarrow> rat \<Rightarrow> nat \<Rightarrow> tool_mode \<Rightarrow> bool \<Rightarrow> view option \<Rightarrow> view_state \<Rightarrow> editor" where
  "new_editor l gridSize nextRef tool editMode cursor v =
     \<lparr>ed_layout = l, ed_gridSize = gridSize, ed_nextRef = nextRef, ed_tool = tool, ed_view = v, ed_editMode = editMode,
      ed_turnoutSelectionMode = False, ed_selectedElement = None, ed_currentCursor = cursor, ed_signalPopover = False,
      ed_doublePopover = False, ed_pan = \<lparr>pn_isPanning = False, pn_lastX = 0, pn_lastY = 0\<rparr>,
      ed_drag = \<lparr>dr_isDraggingElement = False, dr_elementId = None, dr_startMouseGridX = 0, dr_startMouseGridY = 0,
        dr_startElementX = 0, dr_startElementY = 0, dr_draggedElements = []\<rparr>,
      ed_selection = \<lparr>sr_startGridX = 0, sr_startGridY = 0, sr_endGridX = 0, sr_endGridY = 0, sn_isSelecting = False, sn_additive = False\<rparr>,
      ed_style = ''default'', ed_hoverGrid = None, ed_mouseGrid = mk_point 0 0\<rparr>"

definition straight_view :: "int \<Rightarrow> nat \<Rightarrow> int \<Rightarrow> int \<Rightarrow> view" where
  "straight_view i r x y =
     base_element.extend ((new_base TRACK_STRAIGHT ''element'' ''track'' 45 x y)\<lparr>be_id := i\<rparr>)
       \<lparr>vw_ref = r, vw_isRoute = False, vw_section = 0, vw_travelDirection = DirUnknown, vw_selected = False, vw_data = NoData\<rparr>"

definition two_tracks :: view_layout where
  "two_tracks = \<lparr>vl_track = [straight_view 1 1 1 1, straight_view 2 2 3 1], vl_blocks = [], vl_signals = [], vl_sensors = [], vl_buildings = []\<rparr>"

definition at_origin :: view_state where "at_origin = \<lparr>vs_scale = 1, vs_offsetX = 0, vs_offsetY = 0\<rparr>"

definition whole_page :: canvas_rect where "whole_page = \<lparr>cr_left = 0, cr_top = 0, cr_width = 800, cr_height = 600\<rparr>"

definition mouse_at :: "rat \<Rightarrow> rat \<Rightarrow> mouse_event" where
  "mouse_at x y = \<lparr>me_clientX = x, me_clientY = y, me_button = 0, me_ctrlKey = False\<rparr>"

lemmas editor_sample_defs = new_editor_def straight_view_def two_tracks_def at_origin_def whole_page_def mouse_at_def base_element.extend_def
  new_base_def

lemma sample_grid: "event_grid whole_page (mouse_at x y) (new_editor l 40 n t e c at_origin) = mk_point \<lfloor>x / 40\<rfloor> \<lfloor>y / 40\<rfloor>"
  by (simp add: event_grid_def screenToGrid_def new_editor_def at_origin_def whole_page_def mouse_at_def)

lemma sample_floors [simp]: "\<lfloor>3 / 2 :: rat\<rfloor> = 1" "\<lfloor>5 / 2 :: rat\<rfloor> = 2"
  by (simp_all add: floor_eq_iff)

subsection \<open>Zooming\<close>

definition in_range :: "view_state \<Rightarrow> bool" where
  "in_range v \<longleftrightarrow> 1 / 5 \<le> vs_scale v \<and> vs_scale v \<le> 4"

lemma new_editor_in_range: "in_range (ed_view (new_editor l g n t e c at_origin))"
  by (simp add: new_editor_def at_origin_def in_range_def)

lemma clamp_view_range: "lo \<le> hi \<Longrightarrow> lo \<le> clamp_view v lo hi \<and> clamp_view v lo hi \<le> hi"
  by (simp add: clamp_view_def)

lemma in_range_pos: "in_range v \<Longrightarrow> 0 < vs_scale v"
  by (simp add: in_range_def)

lemma zoom_point:
  fixes m off old new :: rat
  assumes "new \<noteq> 0"
  shows "(m - (m - (m - off) / old * new)) / new = (m - off) / old"
  using assms by simp

lemma wheel_view:
  fixes r :: canvas_rect and ev :: mouse_event and d :: rat
  assumes "in_range (ed_view s)"
  defines "v \<equiv> ed_view s" and "v' \<equiv> ed_view (fst (handleTrackCanvasWheel r ev d s))"
  shows "in_range v'"
    and "(me_clientX ev - cr_left r - vs_offsetX v') / vs_scale v' = (me_clientX ev - cr_left r - vs_offsetX v) / vs_scale v"
    and "(me_clientY ev - cr_top r - vs_offsetY v') / vs_scale v' = (me_clientY ev - cr_top r - vs_offsetY v) / vs_scale v"
    and "vs_scale v' = clamp_view (vs_scale v * (if d < 0 then 11 / 10 else 9 / 10)) (1 / 5) 4"
proof -
  let ?n = "clamp_view (vs_scale v * (if d < 0 then 11 / 10 else 9 / 10)) (1 / 5) 4"
  have n: "1 / 5 \<le> ?n" "?n \<le> 4" by (simp_all add: clamp_view_def)
  then have nz: "?n \<noteq> 0" by linarith
  show "in_range v'" "vs_scale v' = ?n"
    using n assms(1) by (auto simp: v'_def v_def handleTrackCanvasWheel_def Let_def in_range_def)
  show "(me_clientX ev - cr_left r - vs_offsetX v') / vs_scale v' = (me_clientX ev - cr_left r - vs_offsetX v) / vs_scale v"
    "(me_clientY ev - cr_top r - vs_offsetY v') / vs_scale v' = (me_clientY ev - cr_top r - vs_offsetY v) / vs_scale v"
    using zoom_point [OF nz] unfolding v'_def v_def handleTrackCanvasWheel_def Let_def by (simp_all split: if_split)
qed

lemma wheel_keeps [simp]: "ed_layout (fst (handleTrackCanvasWheel r ev d s)) = ed_layout s"
    "ed_gridSize (fst (handleTrackCanvasWheel r ev d s)) = ed_gridSize s" "ed_drag (fst (handleTrackCanvasWheel r ev d s)) = ed_drag s"
    "ed_selection (fst (handleTrackCanvasWheel r ev d s)) = ed_selection s"
    "ed_editMode (fst (handleTrackCanvasWheel r ev d s)) = ed_editMode s"
  by (simp_all add: handleTrackCanvasWheel_def Let_def)

text \<open>Turning the wheel keeps what is under the mouse under the mouse: the grid cell there stays the same and with it the
  element that a click would hit. The scale becomes a tenth larger or smaller, within 0.2 and 4.\<close>

theorem zoom_keeps_point:
  assumes "in_range (ed_view s)" and "s' = fst (handleTrackCanvasWheel r ev d s)"
  shows "event_grid r ev s' = event_grid r ev s \<and> element_at (event_grid r ev s') (ed_layout s') = element_at (event_grid r ev s) (ed_layout s) \<and>
    vs_scale (ed_view s') = max (1 / 5) (min 4 (if d < 0 then vs_scale (ed_view s) * 11 / 10 else vs_scale (ed_view s) * 9 / 10)) \<and>
    in_range (ed_view s')"
proof -
  note w = wheel_view [OF assms(1), where r = r and ev = ev and d = d]
  have g: "event_grid r ev s' = event_grid r ev s"
    unfolding event_grid_def screenToGrid_def Let_def assms(2) w(2) w(3) wheel_keeps ..
  show ?thesis using w(1) w(4) g by (auto simp: assms(2) clamp_view_def)
qed

lemma zoom_keeps_point_witness:
  "event_grid whole_page (mouse_at 100 60) (fst (handleTrackCanvasWheel whole_page (mouse_at 100 60) 1 (new_editor two_tracks 40 3 ToolCursor True None at_origin)))
     = mk_point 2 1"
  using zoom_keeps_point [OF new_editor_in_range [of two_tracks 40 3 ToolCursor True None] refl,
      where r = whole_page and ev = "mouse_at 100 60" and d = 1]
  by (simp add: sample_grid)

subsection \<open>What handlers leave alone\<close>

named_theorems handler_defs

lemmas [handler_defs] = selection_click_def delete_click_def draw_click_def element_click_def empty_click_def
  drag_move_def hover_cursor_def stop_selecting_def key_fit_def key_rotate_def key_delete_def

lemma mouseDown_keeps [simp]:
  "ed_view (fst (handleTrackCanvasMouseDown r ev s)) = ed_view s"
  "ed_editMode (fst (handleTrackCanvasMouseDown r ev s)) = ed_editMode s"
  "ed_gridSize (fst (handleTrackCanvasMouseDown r ev s)) = ed_gridSize s"
  by (simp_all add: handleTrackCanvasMouseDown_def Let_def handler_defs split: option.split prod.split)

lemma hover_keeps [simp]:
  "ed_view (fst (hover_cursor g s)) = ed_view s" "ed_editMode (fst (hover_cursor g s)) = ed_editMode s"
  "ed_gridSize (fst (hover_cursor g s)) = ed_gridSize s" "ed_layout (fst (hover_cursor g s)) = ed_layout s"
  "ed_pan (fst (hover_cursor g s)) = ed_pan s" "ed_selection (fst (hover_cursor g s)) = ed_selection s"
  "ed_drag (fst (hover_cursor g s)) = ed_drag s" "ed_nextRef (fst (hover_cursor g s)) = ed_nextRef s"
  by (simp_all add: hover_cursor_def Let_def split: option.split tool_mode.split)

lemma drag_move_keeps [simp]:
  "ed_view (fst (drag_move g s)) = ed_view s" "ed_editMode (fst (drag_move g s)) = ed_editMode s"
  "ed_gridSize (fst (drag_move g s)) = ed_gridSize s" "ed_pan (fst (drag_move g s)) = ed_pan s"
  "ed_selection (fst (drag_move g s)) = ed_selection s" "ed_drag (fst (drag_move g s)) = ed_drag s"
  by (simp_all add: drag_move_def Let_def)

lemma mouseMove_keeps [simp]:
  "ed_editMode (fst (handleTrackCanvasMouseMove r ev s)) = ed_editMode s"
  "ed_gridSize (fst (handleTrackCanvasMouseMove r ev s)) = ed_gridSize s"
  "vs_scale (ed_view (fst (handleTrackCanvasMouseMove r ev s))) = vs_scale (ed_view s)"
  "ed_drag (fst (handleTrackCanvasMouseMove r ev s)) = ed_drag s"
  "sn_isSelecting (ed_selection (fst (handleTrackCanvasMouseMove r ev s))) = sn_isSelecting (ed_selection s)"
  by (simp_all add: handleTrackCanvasMouseMove_def Let_def split_beta)

lemma stop_keeps [simp]:
  "ed_view (fst (stopTrackCanvasInteraction s)) = ed_view s"
  "ed_editMode (fst (stopTrackCanvasInteraction s)) = ed_editMode s"
  "ed_gridSize (fst (stopTrackCanvasInteraction s)) = ed_gridSize s"
  by (simp_all add: stopTrackCanvasInteraction_def stop_selecting_def Let_def split_beta split: option.split)

lemma in_range_clamp: "in_range (v\<lparr>vs_scale := clamp_view x (1 / 5) 4, vs_offsetX := a, vs_offsetY := b\<rparr>)"
  using clamp_view_range [of "1 / 5" 4 x] unfolding in_range_def by simp

lemma fit_in_range: "in_range v \<Longrightarrow> in_range (fitLayoutToView l g w h v)"
  by (simp add: fitLayoutToView_def in_range_clamp Let_def split: option.split)

lemma center_in_range: "in_range v \<Longrightarrow> in_range (centerLayoutInView l g w h v)"
  by (simp add: centerLayoutInView_def in_range_def Let_def split: option.split)

lemma key_keeps [simp]:
  "ed_editMode (fst (handleTrackCanvasKeyDown b c k s)) = ed_editMode s"
  "ed_gridSize (fst (handleTrackCanvasKeyDown b c k s)) = ed_gridSize s"
  "ed_drag (fst (handleTrackCanvasKeyDown b c k s)) = ed_drag s"
  "ed_selection (fst (handleTrackCanvasKeyDown b c k s)) = ed_selection s"
  by (simp_all add: handleTrackCanvasKeyDown_def Let_def handler_defs split_beta split: option.split tool_mode.split)

lemma key_view: "in_range (ed_view s) \<Longrightarrow> in_range (ed_view (fst (handleTrackCanvasKeyDown b c k s)))"
  by (simp add: handleTrackCanvasKeyDown_def Let_def handler_defs split_beta fit_in_range split: option.split tool_mode.split)

lemma step_in_range: "in_range (ed_view s) \<Longrightarrow> in_range (ed_view (fst (editor_step ev s)))"
  by (cases ev) (simp_all add: editor_step_def key_view wheel_view(1), simp add: in_range_def)

subsection \<open>While the layout is in use\<close>

definition at_rest :: "editor \<Rightarrow> bool" where
  "at_rest s \<longleftrightarrow> \<not> sn_isSelecting (ed_selection s) \<and> \<not> dr_isDraggingElement (ed_drag s)"

lemma step_in_use:
  assumes "\<not> ed_editMode s" and "at_rest s"
  shows "ed_layout (fst (editor_step ev s)) = ed_layout s \<and> \<not> ed_editMode (fst (editor_step ev s)) \<and> at_rest (fst (editor_step ev s))"
  using assms
  by (cases ev) (auto simp: editor_step_def at_rest_def handleTrackCanvasMouseDown_def handleTrackCanvasMouseMove_def
      stopTrackCanvasInteraction_def stop_selecting_def getSelectionRect_def handleTrackCanvasKeyDown_def key_fit_def Let_def split_beta
      split: option.split)

lemma run_in_use:
  "\<not> ed_editMode s \<Longrightarrow> at_rest s \<Longrightarrow> in_range (ed_view s) \<Longrightarrow>
   ed_layout (editor_run evs s) = ed_layout s \<and> \<not> ed_editMode (editor_run evs s) \<and> in_range (ed_view (editor_run evs s))"
  unfolding editor_run_def
proof (induction evs arbitrary: s)
  case (Cons ev evs)
  then show ?case using step_in_use [of s ev] step_in_range [of s ev] by simp
qed simp

text \<open>While the layout is in use (not in edit mode), no sequence of mouse, wheel and key events moves, adds, removes or selects
  an element; the view stays between the scales 0.2 and 4. Clicks are passed on as actions.\<close>

theorem use_keeps_layout:
  assumes "\<not> ed_editMode s" "at_rest s" "in_range (ed_view s)"
  shows "ed_layout (editor_run evs s) = ed_layout s \<and> in_range (ed_view (editor_run evs s))"
  using run_in_use [OF assms] by blast

lemma use_keeps_layout_witness:
  "ed_layout (editor_run [MouseDown whole_page (mouse_at 60 60), MouseMove whole_page (mouse_at 100 60), Stop, KeyDown True None ''Delete'']
     (new_editor two_tracks 40 3 ToolCursor False None at_origin)) = two_tracks"
  using use_keeps_layout [of "new_editor two_tracks 40 3 ToolCursor False None at_origin"
      "[MouseDown whole_page (mouse_at 60 60), MouseMove whole_page (mouse_at 100 60), Stop, KeyDown True None ''Delete'']"]
  by (simp add: new_editor_def at_rest_def at_origin_def in_range_def)

end
