(* ===== verification/EditorDrag.thy ===== *)
theory EditorDrag
  imports TrackEditor
begin

text \<open>
  Editing on the canvas (theory \<open>TrackEditor\<close>): a drag moves the selection as one body by the way of the mouse, unless an element
  is in the way; a drawn element lies under the mouse and on no element of its layer; the selection rectangle selects what it touches.
\<close>

subsection \<open>Dragging\<close>

definition shifted :: "int \<Rightarrow> int \<Rightarrow> view_layout \<Rightarrow> view_layout" where
  "shifted a b l = map_views (\<lambda>e. if vw_selected e then place (be_x e + a) (be_y e + b) e else e) l"

definition own_ids :: "view_layout \<Rightarrow> bool" where
  "own_ids l \<longleftrightarrow> distinct (map be_id (all_views l)) \<and> distinct (map vw_ref (all_views l))"

definition apart :: "view_layout \<Rightarrow> bool" where
  "apart l \<longleftrightarrow>
     (\<forall>e\<in>set (all_views l). \<forall>o'\<in>set (all_views l).
        vw_ref e \<noteq> vw_ref o' \<and> be_layerName e = be_layerName o' \<longrightarrow> \<not> elementsIntersect e o')"

definition one_cell :: "view \<Rightarrow> bool" where
  "one_cell e \<longleftrightarrow> be_type e \<noteq> TRACK_BLOCK \<and> be_w e = 1 \<and> be_h e = 1"

text \<open>On a layer with larger elements at most one element is selected. The program has no such check: the code asks
  for the first element in the way only, and when that one is selected too, another one behind it is overlooked.\<close>

definition few_large :: "view_layout \<Rightarrow> bool" where
  "few_large l \<longleftrightarrow>
     (\<forall>e\<in>set (all_views l). \<forall>o'\<in>set (all_views l).
        vw_selected e \<and> vw_selected o' \<and> vw_ref e \<noteq> vw_ref o' \<and> be_layerName e = be_layerName o' \<longrightarrow>
        (\<forall>c\<in>set (all_views l). be_layerName c = be_layerName e \<longrightarrow> one_cell c))"

lemma set_orders: "set (getAllLayoutElements l) = set (all_views l)" "set (layered_views l) = set (all_views l)"
  by (auto simp: getAllLayoutElements_def layered_views_def all_views_def)

lemma placed_fields [simp]: "be_id (place x y e) = be_id e" "vw_ref (place x y e) = vw_ref e" "be_x (place x y e) = x"
    "be_y (place x y e) = y" "vw_selected (place x y e) = vw_selected e" "be_layerName (place x y e) = be_layerName e"
    "place x y (place x' y' e) = place x y e" "be_type (place x y e) = be_type e" "be_w (place x y e) = be_w e"
    "be_h (place x y e) = be_h e" "be_rotation (place x y e) = be_rotation e"
  by (simp_all add: place_def)

lemma views_cong: "(\<And>e. e \<in> set (all_views l) \<Longrightarrow> f e = g e) \<Longrightarrow> map_views f l = map_views g l"
  by (simp add: map_views_def map_track_views_def all_views_def)

lemma map_views_twice: "map_views f (map_views g l) = map_views (\<lambda>e. f (g e)) l"
  by (simp add: map_views_def map_track_views_def comp_def)

lemma map_views_same: "(\<And>e. e \<in> set (all_views l) \<Longrightarrow> f e = e) \<Longrightarrow> map_views f l = l"
  by (simp add: map_views_def map_track_views_def all_views_def map_idI)

definition drag_element :: "int \<Rightarrow> int \<Rightarrow> dragged \<Rightarrow> view \<Rightarrow> view" where
  "drag_element dx dy d e = (if be_id e = dg_id d then place (dg_startX d + dx) (dg_startY d + dy) e else e)"

lemma drag_element_fields [simp]: "be_id (drag_element dx dy d e) = be_id e" "vw_ref (drag_element dx dy d e) = vw_ref e"
  by (simp_all add: drag_element_def)

lemma own_ids_map: "(\<And>e. be_id (f e) = be_id e) \<Longrightarrow> (\<And>e. vw_ref (f e) = vw_ref e) \<Longrightarrow> own_ids (map_views f l) = own_ids l"
  by (simp add: own_ids_def comp_def)

lemma own_ids_eq: "own_ids l \<Longrightarrow> e \<in> set (all_views l) \<Longrightarrow> o' \<in> set (all_views l) \<Longrightarrow> vw_ref e = vw_ref o' \<longleftrightarrow> be_id e = be_id o'"
  unfolding own_ids_def distinct_map by (metis inj_onD)

lemma drag_one_map: "own_ids l \<Longrightarrow> drag_one dx dy d l = map_views (drag_element dx dy d) l"
proof (cases "dragged_element d l")
  case None
  then have "be_id e \<noteq> dg_id d" if "e \<in> set (all_views l)" for e
    using that unfolding dragged_element_def find_None_iff set_orders by blast
  then show ?thesis using None by (simp add: drag_one_def drag_element_def map_views_same)
next
  case (Some e)
  assume own: "own_ids l"
  have e: "e \<in> set (all_views l)" "be_id e = dg_id d" using find_SomeD [OF Some [unfolded dragged_element_def]] set_orders by auto
  have "drag_one dx dy d l = map_views (\<lambda>e'. if vw_ref e' = vw_ref e then place (dg_startX d + dx) (dg_startY d + dy) e' else e') l"
    using Some by (simp add: drag_one_def update_view_def)
  also have "\<dots> = map_views (drag_element dx dy d) l"
    using own_ids_eq [OF own _ e(1)] e(2) by (intro views_cong) (simp add: drag_element_def)
  finally show ?thesis .
qed

lemma drag_all_map: "own_ids l \<Longrightarrow> drag_all dx dy ds l = map_views (\<lambda>e. fold (drag_element dx dy) ds e) l"
  unfolding drag_all_def
proof (induction ds arbitrary: l)
  case Nil
  then show ?case by (simp add: map_views_same)
next
  case (Cons d ds)
  then show ?case using own_ids_map [of "drag_element dx dy d" l] by (simp add: drag_one_map map_views_twice)
qed

lemma fold_drag_other: "be_id e \<notin> dg_id ` set ds \<Longrightarrow> fold (drag_element dx dy) ds e = e"
  by (induction ds) (auto simp: drag_element_def)

lemma fold_drag_own:
  "distinct (map dg_id ds) \<Longrightarrow> d \<in> set ds \<Longrightarrow> dg_id d = be_id e \<Longrightarrow>
   fold (drag_element dx dy) ds e = place (dg_startX d + dx) (dg_startY d + dy) e"
proof (induction ds arbitrary: e)
  case (Cons c ds)
  show ?case
  proof (cases "c = d")
    case True
    then have "be_id (place (dg_startX d + dx) (dg_startY d + dy) e) \<notin> dg_id ` set ds" using Cons.prems by auto
    moreover have "drag_element dx dy c e = place (dg_startX d + dx) (dg_startY d + dy) e"
      using True Cons.prems by (simp add: drag_element_def)
    ultimately show ?thesis using fold_drag_other [of "place (dg_startX d + dx) (dg_startY d + dy) e" ds dx dy] by simp
  next
    case False
    then have "d \<in> set ds" and "dg_id c \<noteq> dg_id d" using Cons.prems by (auto simp: rev_image_eqI)
    then have "drag_element dx dy c e = e" using Cons.prems(3) by (simp add: drag_element_def)
    with False show ?thesis using Cons.prems Cons.IH [of e] by simp
  qed
qed simp

definition dragged_list :: "view_layout \<Rightarrow> dragged list" where
  "dragged_list l = map dragged_of (filter vw_selected (getAllLayoutElements l))"

lemma shifted_views: "all_views (shifted a b l) = map (\<lambda>e. if vw_selected e then place (be_x e + a) (be_y e + b) e else e) (all_views l)"
  by (simp add: shifted_def)

lemma own_ids_shifted [simp]: "own_ids (shifted a b l) = own_ids l"
  unfolding shifted_def by (rule own_ids_map) simp_all

lemma dragged_ids: "dg_id ` set (dragged_list l) = be_id ` {e \<in> set (all_views l). vw_selected e}"
  by (auto simp: dragged_list_def dragged_of_def set_orders image_image intro!: image_eqI)

lemma distinct_ids_order: "own_ids l \<Longrightarrow> distinct (map be_id (getAllLayoutElements l))"
  by (auto simp: own_ids_def all_views_def getAllLayoutElements_def)

lemma distinct_dragged: "own_ids l \<Longrightarrow> distinct (map dg_id (dragged_list l))"
  using distinct_ids_order [of l] by (simp add: dragged_list_def dragged_of_def comp_def distinct_map_filter)

lemma drag_all_shifted:
  assumes "own_ids l"
  shows "drag_all dx dy (dragged_list l) (shifted a b l) = shifted dx dy l"
proof -
  let ?sh = "\<lambda>a b e. if vw_selected e then place (be_x e + a) (be_y e + b) e else e"
  have "drag_all dx dy (dragged_list l) (shifted a b l) = map_views (\<lambda>e. fold (drag_element dx dy) (dragged_list l) (?sh a b e)) l"
    using assms by (simp add: drag_all_map) (simp add: shifted_def map_views_twice)
  also have "\<dots> = map_views (?sh dx dy) l"
  proof (rule views_cong)
    fix e assume e: "e \<in> set (all_views l)"
    show "fold (drag_element dx dy) (dragged_list l) (?sh a b e) = ?sh dx dy e"
    proof (cases "vw_selected e")
      case True
      then have "dragged_of e \<in> set (dragged_list l)" using e by (auto simp: dragged_list_def set_orders)
      from fold_drag_own [OF distinct_dragged [OF assms] this, of "?sh a b e" dx dy] True
      show ?thesis by (simp add: dragged_of_def)
    next
      case False
      have "be_id e \<notin> dg_id ` set (dragged_list l)"
        using False e own_ids_eq [OF assms e] assms unfolding dragged_ids own_ids_def distinct_map by (auto dest: inj_onD)
      from fold_drag_other [OF this] False show ?thesis by simp
    qed
  qed
  finally show ?thesis by (simp add: shifted_def)
qed

lemma intersect_sym: "elementsIntersect e o' = elementsIntersect o' e"
  by (auto simp: elementsIntersect_def rectsIntersect_def)

lemma intersect_one_cell: "one_cell e \<Longrightarrow> one_cell o' \<Longrightarrow> elementsIntersect e o' \<longleftrightarrow> be_x e = be_x o' \<and> be_y e = be_y o'"
  by (auto simp: one_cell_def elementsIntersect_def rectsIntersect_def getCollisionBounds_def getBounds_def base_getBounds_def mk_rect_def)

lemma one_cell_place [simp]: "one_cell (place x y e) = one_cell e"
  by (simp add: one_cell_def)

lemma bounds_place:
  "getBounds (place (be_x e + a) (be_y e + b) e) =
     mk_rect (r_x (getBounds e) + a) (r_y (getBounds e) + b) (r_width (getBounds e)) (r_height (getBounds e))"
  by (simp add: getBounds_def block_getBounds_def base_getBounds_def mk_rect_def)

lemma collision_place:
  "getCollisionBounds (place (be_x e + a) (be_y e + b) e) =
     mk_rect (r_x (getCollisionBounds e) + a) (r_y (getCollisionBounds e) + b) (r_width (getCollisionBounds e))
       (r_height (getCollisionBounds e))"
  by (simp add: getCollisionBounds_def block_getCollisionBounds_def bounds_place) (simp add: mk_rect_def)

lemma intersect_translate:
  "elementsIntersect (place (be_x e + a) (be_y e + b) e) (place (be_x o' + a) (be_y o' + b) o') = elementsIntersect e o'"
  by (simp add: elementsIntersect_def bounds_place collision_place rectsIntersect_def mk_rect_def)

lemma dragged_by_id:
  assumes "own_ids l" and "e \<in> set (all_views l)" and "dg_id d = be_id e"
  shows "dragged_element d l = Some e"
proof -
  obtain c where c: "dragged_element d l = Some c"
    using assms(2,3) set_orders unfolding dragged_element_def by (metis (mono_tags, lifting) find_None_iff not_None_eq)
  then have "c \<in> set (all_views l)" "be_id c = be_id e"
    using find_SomeD [OF c [unfolded dragged_element_def]] assms(3) set_orders by auto
  then show ?thesis using c assms(1,2) unfolding own_ids_def distinct_map by (metis inj_onD)
qed

abbreviation moved_by :: "int \<Rightarrow> int \<Rightarrow> view \<Rightarrow> view" where
  "moved_by a b e \<equiv> place (be_x e + a) (be_y e + b) e"

lemma shifted_in:
  "e \<in> set (all_views l) \<Longrightarrow> vw_selected e \<Longrightarrow> moved_by a b e \<in> set (all_views (shifted a b l))"
  "e \<in> set (all_views l) \<Longrightarrow> \<not> vw_selected e \<Longrightarrow> e \<in> set (all_views (shifted a b l))"
  by (auto simp: shifted_views intro!: image_eqI)

text \<open>A move of the selection is allowed when for each selected element, at its new place, the first element in the way (of its
  layer, in the order of the layers, as they are before the move) is selected itself, if there is one.\<close>

definition way_free :: "view_layout \<Rightarrow> int \<times> int \<Rightarrow> int \<Rightarrow> int \<Rightarrow> bool" where
  "way_free l c dx dy \<longleftrightarrow>
     (\<forall>e\<in>set (all_views l). vw_selected e \<longrightarrow>
        (case find (\<lambda>o'. vw_ref o' \<noteq> vw_ref e \<and> be_layerName o' = be_layerName e \<and> elementsIntersect (moved_by dx dy e) o')
                (layered_views (shifted (fst c) (snd c) l)) of
           None \<Rightarrow> True | Some o' \<Rightarrow> vw_selected o'))"

lemma dragged_ids_selected:
  assumes "own_ids l" and "c \<in> set (all_views (shifted a b l))"
  shows "be_id c \<in> dg_id ` set (dragged_list l) \<longleftrightarrow> vw_selected c"
proof -
  obtain c0 where c0: "c0 \<in> set (all_views l)" "c = (if vw_selected c0 then moved_by a b c0 else c0)"
    using assms(2) unfolding shifted_views by auto
  have "be_id c0 = be_id x \<longleftrightarrow> c0 = x" if "x \<in> set (all_views l)" for x
    using assms(1) c0(1) that unfolding own_ids_def distinct_map by (metis inj_onD)
  then show ?thesis unfolding dragged_ids using c0 by auto
qed

lemma drag_blocked_way:
  assumes own: "own_ids l"
  shows "drag_blocked dx dy (dragged_list l) (shifted a b l) \<longleftrightarrow> \<not> way_free l (a, b) dx dy"
proof -
  let ?cur = "shifted a b l"
  have one: "(case dragged_element (dragged_of e) ?cur of None \<Rightarrow> False
      | Some x \<Rightarrow> (case layered_element_at x (mk_point (dg_startX (dragged_of e) + dx) (dg_startY (dragged_of e) + dy)) ?cur of
          None \<Rightarrow> False | Some occupied \<Rightarrow> be_id occupied \<notin> dg_id ` set (dragged_list l))) \<longleftrightarrow>
    \<not> (case find (\<lambda>o'. vw_ref o' \<noteq> vw_ref e \<and> be_layerName o' = be_layerName e \<and> elementsIntersect (moved_by dx dy e) o')
          (layered_views ?cur) of None \<Rightarrow> True | Some o' \<Rightarrow> vw_selected o')"
    if e: "e \<in> set (all_views l)" "vw_selected e" for e
  proof -
    have el: "dragged_element (dragged_of e) ?cur = Some (moved_by a b e)"
      using own shifted_in(1) [OF e] by (intro dragged_by_id) (simp_all add: dragged_of_def)
    have target: "(moved_by a b e)\<lparr>be_x := be_x e + dx, be_y := be_y e + dy\<rparr> = moved_by dx dy e" by (simp add: place_def)
    have at: "layered_element_at (moved_by a b e) (mk_point (be_x e + dx) (be_y e + dy)) ?cur =
        find (\<lambda>o'. vw_ref o' \<noteq> vw_ref e \<and> be_layerName o' = be_layerName e \<and> elementsIntersect (moved_by dx dy e) o') (layered_views ?cur)"
      by (simp add: layered_element_at_def mk_point_def target)
    let ?f = "find (\<lambda>o'. vw_ref o' \<noteq> vw_ref e \<and> be_layerName o' = be_layerName e \<and> elementsIntersect (moved_by dx dy e) o') (layered_views ?cur)"
    have "be_id o' \<in> dg_id ` set (dragged_list l) \<longleftrightarrow> vw_selected o'" if "?f = Some o'" for o'
      using find_SomeD [OF that] set_orders(2) dragged_ids_selected [OF own, of o' a b] by auto
    moreover have "dg_startX (dragged_of e) = be_x e" "dg_startY (dragged_of e) = be_y e" by (simp_all add: dragged_of_def)
    ultimately show ?thesis by (cases ?f) (simp_all add: el at)
  qed
  have "set (dragged_list l) = dragged_of ` {e \<in> set (all_views l). vw_selected e}" by (auto simp: dragged_list_def set_orders)
  then show ?thesis unfolding drag_blocked_def way_free_def using one by auto
qed

lemma free_target:
  assumes own: "own_ids l" and few: "few_large l" and ap: "apart (shifted a b l)" and free: "way_free l (a, b) dx dy"
    and e: "e \<in> set (all_views l)" "vw_selected e" and o: "o' \<in> set (all_views l)" "\<not> vw_selected o'"
    and layer: "be_layerName e = be_layerName o'"
  shows "\<not> elementsIntersect (moved_by dx dy e) o'"
proof
  assume hit: "elementsIntersect (moved_by dx dy e) o'"
  let ?cur = "shifted a b l"
  let ?P = "\<lambda>o'. vw_ref o' \<noteq> vw_ref e \<and> be_layerName o' = be_layerName e \<and> elementsIntersect (moved_by dx dy e) o'"
  have ref: "vw_ref e \<noteq> vw_ref o'"
    using e o own unfolding own_ids_def distinct_map by (metis inj_onD)
  have "find ?P (layered_views ?cur) \<noteq> None"
    using shifted_in(2) [OF o, of a b] hit layer ref unfolding find_None_iff set_orders by auto
  then obtain c where c: "find ?P (layered_views ?cur) = Some c" by blast
  have c1: "c \<in> set (all_views ?cur)" "vw_ref c \<noteq> vw_ref e" "be_layerName c = be_layerName e" "elementsIntersect (moved_by dx dy e) c"
    using find_SomeD [OF c] set_orders by auto
  have cs: "vw_selected c" using free e c unfolding way_free_def by fastforce
  obtain c0 where c0: "c0 \<in> set (all_views l)" "c = (if vw_selected c0 then moved_by a b c0 else c0)"
    using c1(1) unfolding shifted_views by auto
  have sel: "vw_selected c0" using cs c0(2) by (simp split: if_splits)
  then have c2: "c = moved_by a b c0" using c0(2) by simp
  have r: "vw_ref c0 \<noteq> vw_ref e" "be_layerName c0 = be_layerName e" using c1(2,3) c2 by simp_all
  have "\<forall>x\<in>set (all_views l). be_layerName x = be_layerName e \<longrightarrow> one_cell x"
    using few e c0(1) sel r unfolding few_large_def by metis
  then have oc: "one_cell e" "one_cell c0" "one_cell o'" using e(1) c0(1) o(1) r layer by auto
  have "elementsIntersect c o'"
    using hit c1(4) oc unfolding c2 by (simp add: intersect_one_cell)
  moreover have "vw_ref c \<noteq> vw_ref o'"
    using c2 sel o c0(1) own unfolding own_ids_def distinct_map by (metis inj_onD placed_fields(2))
  ultimately show False
    using ap c1(1,3) shifted_in(2) [OF o, of a b] layer unfolding apart_def by metis
qed

lemma drag_stays_apart:
  assumes "own_ids l" "few_large l" "apart (shifted a b l)" "way_free l (a, b) dx dy"
  shows "apart (shifted dx dy l)"
  unfolding apart_def
proof (intro ballI impI)
  fix x y assume x: "x \<in> set (all_views (shifted dx dy l))" and y: "y \<in> set (all_views (shifted dx dy l))"
    and xy: "vw_ref x \<noteq> vw_ref y \<and> be_layerName x = be_layerName y"
  obtain e where e: "e \<in> set (all_views l)" "x = (if vw_selected e then moved_by dx dy e else e)" using x unfolding shifted_views by auto
  obtain o' where o: "o' \<in> set (all_views l)" "y = (if vw_selected o' then moved_by dx dy o' else o')" using y unfolding shifted_views by auto
  have r: "vw_ref e \<noteq> vw_ref o'" "be_layerName e = be_layerName o'" using xy e(2) o(2) by (simp_all split: if_splits)
  consider "vw_selected e" "vw_selected o'" | "vw_selected e" "\<not> vw_selected o'" | "\<not> vw_selected e" "vw_selected o'"
    | "\<not> vw_selected e" "\<not> vw_selected o'" by blast
  then show "\<not> elementsIntersect x y"
  proof cases
    case 1
    have "\<not> elementsIntersect (moved_by a b e) (moved_by a b o')"
      using assms(3) shifted_in(1) [OF e(1) 1(1)] shifted_in(1) [OF o(1) 1(2)] r unfolding apart_def by (metis placed_fields(2,6))
    then show ?thesis using e(2) o(2) 1 by (simp add: intersect_translate)
  next
    case 2
    then show ?thesis using free_target [OF assms e(1) 2(1) o(1) 2(2) r(2)] e(2) o(2) by simp
  next
    case 3
    then show ?thesis
      using free_target [OF assms o(1) 3(2) e(1) 3(1) r(2) [symmetric]] e(2) o(2) intersect_sym [of x y] by simp
  next
    case 4
    then show ?thesis
      using assms(3) shifted_in(2) [OF e(1) 4(1)] shifted_in(2) [OF o(1) 4(2)] r e(2) o(2) unfolding apart_def by auto
  qed
qed

text \<open>Where the mouse is, in cells, each time it moves: the wheel changes what a position on the page means.\<close>

definition is_motion :: "editor_event \<Rightarrow> bool" where
  "is_motion ev \<longleftrightarrow> (case ev of MouseMove r e \<Rightarrow> True | Wheel r e d \<Rightarrow> True | _ \<Rightarrow> False)"

fun pointer_path :: "editor_event list \<Rightarrow> editor \<Rightarrow> point list" where
  "pointer_path [] s = []"
| "pointer_path (MouseMove r e # evs) s = event_grid r e s # pointer_path evs s"
| "pointer_path (Wheel r e d # evs) s = pointer_path evs (fst (handleTrackCanvasWheel r e d s))"
| "pointer_path (ev # evs) s = pointer_path evs s"

text \<open>How far the selection is from where it was when the mouse was pressed at \<open>p\<close>: as far as the mouse is, after the last move that was allowed.\<close>

definition drag_offset :: "view_layout \<Rightarrow> point \<Rightarrow> int \<times> int \<Rightarrow> point \<Rightarrow> int \<times> int" where
  "drag_offset l p c g =
     (if way_free l c (p_x g - p_x p) (p_y g - p_y p) then (p_x g - p_x p, p_y g - p_y p) else c)"

text \<open>A drag under way.\<close>

definition dragging :: "view_layout \<Rightarrow> point \<Rightarrow> int \<times> int \<Rightarrow> editor \<Rightarrow> bool" where
  "dragging l p c s \<longleftrightarrow>
     ed_layout s = shifted (fst c) (snd c) l \<and> dr_isDraggingElement (ed_drag s) \<and> truthy_id (dr_elementId (ed_drag s)) \<and>
     dr_draggedElements (ed_drag s) = dragged_list l \<and>
     dr_startMouseGridX (ed_drag s) = p_x p \<and> dr_startMouseGridY (ed_drag s) = p_y p \<and>
     \<not> pn_isPanning (ed_pan s) \<and> \<not> sn_isSelecting (ed_selection s)"

lemma drag_move_dragging:
  assumes "own_ids l" "dragging l p c s"
  shows "dragging l p (drag_offset l p c g) (fst (drag_move g s))"
proof -
  obtain a b where c: "c = (a, b)" by (cases c)
  have s: "ed_layout s = shifted a b l" "dr_draggedElements (ed_drag s) = dragged_list l" "dr_startMouseGridX (ed_drag s) = p_x p"
    "dr_startMouseGridY (ed_drag s) = p_y p" using assms(2) by (simp_all add: dragging_def c)
  have "ed_layout (fst (drag_move g s)) = shifted (fst (drag_offset l p c g)) (snd (drag_offset l p c g)) l"
    using drag_all_shifted [OF assms(1)] by (simp add: drag_move_def Let_def s drag_blocked_way [OF assms(1)] drag_offset_def c)
  then show ?thesis using assms(2) by (simp add: dragging_def)
qed

lemma dragging_cong:
  "dragging l p c s \<Longrightarrow> ed_layout s' = ed_layout s \<Longrightarrow> ed_drag s' = ed_drag s \<Longrightarrow>
   pn_isPanning (ed_pan s') = pn_isPanning (ed_pan s) \<Longrightarrow> sn_isSelecting (ed_selection s') = sn_isSelecting (ed_selection s) \<Longrightarrow> dragging l p c s'"
  by (simp add: dragging_def)

lemma move_dragging:
  assumes "own_ids l" "dragging l p c s"
  shows "dragging l p (drag_offset l p c (event_grid r e s)) (fst (editor_step (MouseMove r e) s))"
    and "ed_view (fst (editor_step (MouseMove r e) s)) = ed_view s" and "ed_gridSize (fst (editor_step (MouseMove r e) s)) = ed_gridSize s"
proof -
  let ?g = "event_grid r e s"
  let ?s = "fst (hover_cursor ?g (s\<lparr>ed_mouseGrid := ?g\<rparr>))"
  have d: "dragging l p c ?s" using assms(2) by (rule dragging_cong) simp_all
  have s: "fst (editor_step (MouseMove r e) s) = fst (drag_move ?g ?s)"
    using d unfolding dragging_def by (simp add: editor_step_def handleTrackCanvasMouseMove_def Let_def split_beta)
  show "dragging l p (drag_offset l p c ?g) (fst (editor_step (MouseMove r e) s))" unfolding s by (rule drag_move_dragging [OF assms(1) d])
  show "ed_view (fst (editor_step (MouseMove r e) s)) = ed_view s" "ed_gridSize (fst (editor_step (MouseMove r e) s)) = ed_gridSize s"
    unfolding s by simp_all
qed

lemma wheel_dragging:
  "dragging l p c s \<Longrightarrow> dragging l p c (fst (handleTrackCanvasWheel r e d s))"
  "ed_view t = ed_view s \<Longrightarrow> ed_view (fst (handleTrackCanvasWheel r e d t)) = ed_view (fst (handleTrackCanvasWheel r e d s))"
  "ed_gridSize (fst (handleTrackCanvasWheel r e d s)) = ed_gridSize s"
  by (simp_all add: dragging_def handleTrackCanvasWheel_def Let_def)

lemma run_dragging:
  assumes own: "own_ids l"
  shows "dragging l p c s \<Longrightarrow> list_all is_motion evs \<Longrightarrow> ed_view t = ed_view s \<Longrightarrow> ed_gridSize t = ed_gridSize s \<Longrightarrow>
    dragging l p (foldl (drag_offset l p) c (pointer_path evs t)) (editor_run evs s)"
proof (induction evs arbitrary: c s t)
  case (Cons ev evs)
  have run: "editor_run (ev # evs) s = editor_run evs (fst (editor_step ev s))" by (simp add: editor_run_def)
  show ?case
  proof (cases ev)
    case (MouseMove r e)
    have g: "event_grid r e t = event_grid r e s" using Cons.prems by (simp add: event_grid_def)
    have "dragging l p (foldl (drag_offset l p) (drag_offset l p c (event_grid r e s)) (pointer_path evs t))
        (editor_run evs (fst (editor_step (MouseMove r e) s)))"
      using Cons.IH [OF move_dragging(1) [OF own Cons.prems(1)]] Cons.prems move_dragging(2,3) [OF own Cons.prems(1)] by simp
    then show ?thesis unfolding run by (simp add: MouseMove g)
  next
    case (Wheel r e d)
    have "editor_step ev s = handleTrackCanvasWheel r e d s" by (simp add: editor_step_def Wheel)
    moreover have "ed_gridSize (fst (handleTrackCanvasWheel r e d t)) = ed_gridSize (fst (handleTrackCanvasWheel r e d s))"
      using Cons.prems(4) by (simp add: wheel_dragging(3))
    ultimately show ?thesis
      using Cons.IH [OF wheel_dragging(1) [OF Cons.prems(1)] _ wheel_dragging(2) [OF Cons.prems(3)]] Cons.prems(2) unfolding run by (simp add: Wheel)
  qed (use Cons.prems(2) in \<open>simp_all add: is_motion_def\<close>)
qed (simp add: editor_run_def)

lemma drag_apart:
  "own_ids l \<Longrightarrow> few_large l \<Longrightarrow> apart (shifted (fst c) (snd c) l) \<Longrightarrow> c' = foldl (drag_offset l p) c gs \<Longrightarrow> apart (shifted (fst c') (snd c') l)"
proof (induction gs arbitrary: c)
  case (Cons g gs)
  have "apart (shifted (fst (drag_offset l p c g)) (snd (drag_offset l p c g)) l)"
    using drag_stays_apart [OF Cons.prems(1-3)] Cons.prems(3) by (simp add: drag_offset_def)
  from Cons.IH [OF Cons.prems(1,2) this] Cons.prems(4) show ?case by simp
qed simp

lemma shifted_none: "shifted 0 0 l = l"
  unfolding shifted_def by (rule map_views_same) (simp add: place_def)

definition with_selection :: "view \<Rightarrow> view_layout \<Rightarrow> view_layout" where
  "with_selection e l = (if vw_selected e then l else update_view (vw_ref e) (select_view True) (unselectAll l))"

lemma select_view_fields [simp]: "be_id (select_view b e) = be_id e" "vw_ref (select_view b e) = vw_ref e"
    "be_layerName (select_view b e) = be_layerName e" "vw_selected (select_view b e) = b"
    "elementsIntersect (select_view b e) o' = elementsIntersect e o'" "elementsIntersect o' (select_view b e) = elementsIntersect o' e"
  by (simp_all add: select_view_def elementsIntersect_def getBounds_def block_getBounds_def base_getBounds_def
      getCollisionBounds_def block_getCollisionBounds_def)

lemma unselect_select: "unselectAll l = map_views (select_view False) l"
  by (simp add: unselectAll_def select_view_def [abs_def])

lemma with_selection_map: "\<exists>f. with_selection e l = map_views (\<lambda>x. select_view (f x) x) l"
proof (cases "vw_selected e")
  case True
  then show ?thesis unfolding with_selection_def
    by (intro exI [where x = vw_selected]) (simp add: select_view_def map_views_same)
next
  case False
  then show ?thesis unfolding with_selection_def
    by (intro exI [where x = "\<lambda>x. vw_ref x = vw_ref e"])
      (simp add: unselect_select update_view_def map_views_twice, rule views_cong, simp add: select_view_def)
qed

lemma with_selection_keeps: "own_ids (with_selection e l) = own_ids l" "apart (with_selection e l) = apart l"
proof -
  obtain f where f: "with_selection e l = map_views (\<lambda>x. select_view (f x) x) l" using with_selection_map by blast
  show "own_ids (with_selection e l) = own_ids l" unfolding f by (rule own_ids_map) simp_all
  show "apart (with_selection e l) = apart l" unfolding f by (simp add: apart_def)
qed

lemma press_on_element:
  assumes "ed_editMode s" "\<not> ed_turnoutSelectionMode s" "ed_tool s = ToolCursor" "me_button ev \<noteq> 2" "\<not> me_ctrlKey ev"
    "element_at (event_grid r ev s) (ed_layout s) = Some e" "be_id e \<noteq> 0" "\<not> pn_isPanning (ed_pan s)" "\<not> sn_isSelecting (ed_selection s)"
  defines "s1 \<equiv> fst (handleTrackCanvasMouseDown r ev s)"
  shows "dragging (with_selection e (ed_layout s)) (event_grid r ev s) (0, 0) s1" and "ed_view s1 = ed_view s" and "ed_gridSize s1 = ed_gridSize s"
proof -
  have "dragged_list (with_selection e (ed_layout s)) =
      map dragged_of (filter vw_selected (getAllLayoutElements (with_selection e (ed_layout s))))"
    by (simp add: dragged_list_def)
  then show "dragging (with_selection e (ed_layout s)) (event_grid r ev s) (0, 0) s1" "ed_view s1 = ed_view s" "ed_gridSize s1 = ed_gridSize s"
    using assms(1-9) by (simp_all add: s1_def handleTrackCanvasMouseDown_def Let_def element_click_def split_beta dragging_def shifted_none
        truthy_id_def with_selection_def [symmetric])
qed

text \<open>C31. A drag moves the selection as a whole and by the way of the mouse: after a press on an element, with the cursor tool in edit mode, and
  any moves of the mouse and turns of the wheel, the elements selected at the press are where they were then plus one offset, and everything
  else is where it was. The offset is 0 at the press and becomes the way from the press to the mouse with
  each move of the mouse at which the way is free: the first element in the way of each selected element is itself selected. When no two elements of a layer
  overlap at the press, and several elements are selected on layers with elements of one cell only, no two elements of a layer overlap
  afterwards. Elements have different ids, and the pressed one has an id that is not 0; the press is not with the right button or control.\<close>

theorem drag_is_rigid:
  assumes "ed_editMode s" "\<not> ed_turnoutSelectionMode s" "ed_tool s = ToolCursor" "me_button ev \<noteq> 2" "\<not> me_ctrlKey ev"
    and "element_at (event_grid r ev s) (ed_layout s) = Some e" "be_id e \<noteq> 0" "own_ids (ed_layout s)"
    and "\<not> pn_isPanning (ed_pan s)" "\<not> sn_isSelecting (ed_selection s)" "list_all is_motion evs"
    and "l = with_selection e (ed_layout s)"
  shows "case foldl (drag_offset l (event_grid r ev s)) (0, 0) (pointer_path evs s) of (a, b) \<Rightarrow>
    ed_layout (editor_run (MouseDown r ev # evs) s) = shifted a b l \<and> (apart (ed_layout s) \<and> few_large l \<longrightarrow> apart (shifted a b l))"
proof -
  let ?c = "foldl (drag_offset l (event_grid r ev s)) (0, 0) (pointer_path evs s)"
  note press = press_on_element [OF assms(1-7,9,10), folded assms(12)]
  have own: "own_ids l" using assms(8,12) by (simp add: with_selection_keeps)
  have "editor_run (MouseDown r ev # evs) s = editor_run evs (fst (handleTrackCanvasMouseDown r ev s))"
    by (simp add: editor_run_def editor_step_def)
  then have "ed_layout (editor_run (MouseDown r ev # evs) s) = shifted (fst ?c) (snd ?c) l"
    using run_dragging [OF own press(1) assms(11), of s] press(2,3) by (simp add: dragging_def)
  moreover have "apart (shifted (fst ?c) (snd ?c) l)" if "apart (ed_layout s)" "few_large l"
    using drag_apart [OF own that(2) _ refl] that(1) by (simp add: shifted_none assms(12) with_selection_keeps)
  ultimately show ?thesis by (simp add: case_prod_beta)
qed

abbreviation sample_editor :: "tool_mode \<Rightarrow> view option \<Rightarrow> editor" where
  "sample_editor tool cursor \<equiv> new_editor two_tracks 40 3 tool True cursor at_origin"

lemma sample_hits:
  "element_at (mk_point 1 1) two_tracks = Some (straight_view 1 1 1 1)"
  "element_at (mk_point 2 2) two_tracks = None"
  by (simp_all add: element_at_def layered_views_def editor_sample_defs view_hit_def hitTest_def getBounds_def base_getBounds_def mk_rect_def
      mk_point_def Let_def)

lemma sample_ok: "own_ids two_tracks" "apart two_tracks"
  by (simp_all add: own_ids_def apart_def all_views_def editor_sample_defs elementsIntersect_def rectsIntersect_def getCollisionBounds_def
      getBounds_def base_getBounds_def mk_rect_def)

lemma sample_small: "few_large (with_selection e two_tracks)"
proof -
  obtain f where f: "with_selection e two_tracks = map_views (\<lambda>x. select_view (f x) x) two_tracks" using with_selection_map by blast
  have "one_cell (select_view b x) = one_cell x" for b x by (simp add: one_cell_def select_view_def)
  moreover have "\<forall>x\<in>set (all_views two_tracks). one_cell x" by (simp add: all_views_def editor_sample_defs one_cell_def)
  ultimately show ?thesis unfolding f few_large_def by simp
qed

lemma drag_is_rigid_witness:
  "ed_layout (editor_run [MouseDown whole_page (mouse_at 60 60), MouseMove whole_page (mouse_at 100 100)] (sample_editor ToolCursor None)) =
     shifted 1 1 (with_selection (straight_view 1 1 1 1) two_tracks) \<and> apart (shifted 1 1 (with_selection (straight_view 1 1 1 1) two_tracks))"
proof -
  let ?s = "sample_editor ToolCursor None" and ?l = "with_selection (straight_view 1 1 1 1) two_tracks"
  have f: "ed_layout ?s = two_tracks" "ed_editMode ?s" "\<not> ed_turnoutSelectionMode ?s" "ed_tool ?s = ToolCursor"
    "\<not> pn_isPanning (ed_pan ?s)" "\<not> sn_isSelecting (ed_selection ?s)"
    by (simp_all add: new_editor_def)
  have m: "me_button (mouse_at 60 60) \<noteq> 2" "\<not> me_ctrlKey (mouse_at 60 60)" by (simp_all add: mouse_at_def)
  have e: "element_at (event_grid whole_page (mouse_at 60 60) ?s) (ed_layout ?s) = Some (straight_view 1 1 1 1)" "be_id (straight_view 1 1 1 1) \<noteq> 0"
    by (simp add: f(1) sample_grid sample_hits) (simp add: editor_sample_defs)
  have "way_free ?l (0, 0) 1 1" by (simp add: shifted_none) code_simp
  then have "drag_offset ?l (mk_point 1 1) (0, 0) (mk_point 2 2) = (1, 1)" by (simp add: drag_offset_def mk_point_def)
  with drag_is_rigid [OF f(2-4) m e _ f(5,6) _ refl, of "[MouseMove whole_page (mouse_at 100 100)]"] show ?thesis
    by (simp add: f(1) sample_grid sample_ok sample_small is_motion_def)
qed

subsection \<open>Drawing\<close>

definition drawn :: "view \<Rightarrow> nat \<Rightarrow> point \<Rightarrow> view" where
  "drawn cursor r grid =
     (let p = getCenteredElementGridAnchor cursor grid in select_view False (place (p_x p) (p_y p) (clone_cursor r cursor)))"

lemma clone_fields [simp]: "be_layerName (clone_cursor r e) = be_layerName e" "vw_ref (clone_cursor r e) = r" "be_x (clone_cursor r e) = be_x e"
    "be_y (clone_cursor r e) = be_y e" "getBounds (clone_cursor r e) = getBounds e" "getCollisionBounds (clone_cursor r e) = getCollisionBounds e"
    "be_type (clone_cursor r e) = be_type e" "be_id (clone_cursor r e) = INVALID_LAYOUT_ELEMENT_ID"
  by (simp_all add: clone_cursor_def getBounds_def block_getBounds_def base_getBounds_def getCollisionBounds_def block_getCollisionBounds_def)

lemma select_bounds [simp]: "getBounds (select_view b e) = getBounds e" "getCollisionBounds (select_view b e) = getCollisionBounds e"
    "be_type (select_view b e) = be_type e" "be_x (select_view b e) = be_x e" "be_y (select_view b e) = be_y e"
  by (simp_all add: select_view_def getBounds_def block_getBounds_def base_getBounds_def getCollisionBounds_def block_getCollisionBounds_def)

lemma bounds_place_abs:
  "getBounds (place x y e) = mk_rect (r_x (getBounds e) + (x - be_x e)) (r_y (getBounds e) + (y - be_y e)) (r_width (getBounds e)) (r_height (getBounds e))"
  using bounds_place [of e "x - be_x e" "y - be_y e"] by simp

lemma place_bounds_cong: "be_x e = be_x o' \<Longrightarrow> getBounds e = getBounds o' \<Longrightarrow> getCollisionBounds e = getCollisionBounds o' \<Longrightarrow> be_y e = be_y o' \<Longrightarrow>
    getBounds (place x y e) = getBounds (place x y o') \<and> getCollisionBounds (place x y e) = getCollisionBounds (place x y o')"
  using bounds_place [of e "x - be_x e" "y - be_y e"] bounds_place [of o' "x - be_x o'" "y - be_y o'"]
    collision_place [of e "x - be_x e" "y - be_y e"] collision_place [of o' "x - be_x o'" "y - be_y o'"] by simp

lemma drawn_intersects:
  "elementsIntersect (drawn c r g) o' = elementsIntersect (c\<lparr>be_x := p_x (getCenteredElementGridAnchor c g),
     be_y := p_y (getCenteredElementGridAnchor c g)\<rparr>) o'"
  using place_bounds_cong [of "clone_cursor r c" c]
  by (simp add: drawn_def Let_def elementsIntersect_def place_def [symmetric])

lemma drawn_under_mouse:
  assumes "1 \<le> be_w c" "1 \<le> be_h c"
  shows "hitTest (drawn c r g) (p_x g) (p_y g)"
proof -
  let ?p = "getCenteredElementGridAnchor c g"
  have "getBounds (drawn c r g) = getBounds (place (p_x ?p) (p_y ?p) c)"
    using place_bounds_cong [of "clone_cursor r c" c] by (simp add: drawn_def Let_def)
  also have "\<dots> = mk_rect (p_x g - r_width (getBounds c) div 2) (p_y g - r_height (getBounds c) div 2) (r_width (getBounds c)) (r_height (getBounds c))"
    unfolding bounds_place_abs by (simp add: getCenteredElementGridAnchor_def Let_def mk_point_def)
  finally have b: "getBounds (drawn c r g) = \<dots>" .
  have "1 \<le> r_width (getBounds c)" "1 \<le> r_height (getBounds c)"
    using assms by (simp_all add: getBounds_def block_getBounds_def base_getBounds_def mk_rect_def)
  then have "r_width (getBounds c) div 2 < r_width (getBounds c)" "r_height (getBounds c) div 2 < r_height (getBounds c)"
    by presburger+
  then show ?thesis unfolding hitTest_rect b r_right_def r_bottom_def mk_rect_def using \<open>1 \<le> r_width (getBounds c)\<close>
      \<open>1 \<le> r_height (getBounds c)\<close> by simp
qed

lemma draw_views:
  assumes "be_layerName e \<in> {''blocks'', ''signals'', ''sensors'', ''track'', ''buildings''}"
  shows "set (all_views (push_view e l)) = insert e (set (all_views l))"
  using assms by (auto simp: push_view_def all_views_def)

lemma drawn_apart:
  assumes "apart l" "set (all_views l') = insert e (set (all_views l))"
    and "\<And>o'. o' \<in> set (all_views l) \<Longrightarrow> be_layerName o' = be_layerName e \<Longrightarrow> \<not> elementsIntersect e o'"
  shows "apart l'"
  using assms intersect_sym unfolding apart_def by (metis insert_iff)

text \<open>C32. A click in draw mode either is refused, because an element of the layer of the cursor is in the way, and changes
  nothing, or adds one element: the cursor, centred over the cell of the mouse, as a new object that is not selected and
  has no id yet. The elements of a layer stay apart.\<close>

theorem draw_adds_element:
  assumes "ed_editMode s" "\<not> ed_turnoutSelectionMode s" "ed_tool s = ToolDraw" "me_button ev \<noteq> 2" "ed_currentCursor s = Some c"
    and "be_layerName c \<in> {''blocks'', ''signals'', ''sensors'', ''track'', ''buildings''}" "1 \<le> be_w c" "1 \<le> be_h c"
    and "vw_ref c \<notin> vw_ref ` set (all_views (ed_layout s))" "apart (ed_layout s)"
    and "g = event_grid r ev s" "e = drawn c (ed_nextRef s) g" "s' = fst (handleTrackCanvasMouseDown r ev s)"
  shows "(if \<exists>o'\<in>set (all_views (ed_layout s)). be_layerName o' = be_layerName c \<and> elementsIntersect e o' then s' = s
      else set (all_views (ed_layout s')) = insert e (set (all_views (ed_layout s)))) \<and>
    apart (ed_layout s') \<and> hitTest e (p_x g) (p_y g) \<and> be_id e = 0 \<and> vw_ref e = ed_nextRef s \<and> \<not> vw_selected e"
proof -
  let ?p = "getCenteredElementGridAnchor c g"
  have e: "be_id e = 0" "vw_ref e = ed_nextRef s" "\<not> vw_selected e" "be_layerName e = be_layerName c"
    by (simp_all add: assms(12) drawn_def Let_def INVALID_LAYOUT_ELEMENT_ID_def)
  have free: "layered_element_at c ?p (ed_layout s) = None \<longleftrightarrow>
      \<not> (\<exists>o'\<in>set (all_views (ed_layout s)). be_layerName o' = be_layerName c \<and> elementsIntersect e o')"
    using assms(9) unfolding layered_element_at_def find_None_iff set_orders assms(12) drawn_intersects by (simp add: image_iff) metis
  have under: "hitTest e (p_x g) (p_y g)" using drawn_under_mouse [OF assms(7,8)] assms(12) by simp
  have s': "s' = fst (draw_click g s)"
    using assms(1-4) by (simp add: assms(11,13) handleTrackCanvasMouseDown_def Let_def split_beta)
  show ?thesis
  proof (cases "layered_element_at c ?p (ed_layout s)")
    case None
    then have l: "ed_layout s' = push_view e (ed_layout s)" by (simp add: s' draw_click_def assms(5,12) drawn_def Let_def)
    have v: "set (all_views (ed_layout s')) = insert e (set (all_views (ed_layout s)))"
      unfolding l using assms(6) e(4) by (intro draw_views) simp
    moreover have x: "\<not> (\<exists>o'\<in>set (all_views (ed_layout s)). be_layerName o' = be_layerName c \<and> elementsIntersect e o')"
      using None free by simp
    moreover have "apart (ed_layout s')" using x e(4) by (intro drawn_apart [OF assms(10) v]) metis
    ultimately show ?thesis using e(1-3) under by (simp only: if_False simp_thms)
  next
    case (Some o')
    then have "s' = s" by (simp add: s' draw_click_def assms(5) Let_def)
    moreover have "\<exists>o'\<in>set (all_views (ed_layout s)). be_layerName o' = be_layerName c \<and> elementsIntersect e o'"
      using Some free by simp
    ultimately show ?thesis using e(1-3) under assms(10) by (simp only: if_True simp_thms)
  qed
qed

lemma draw_adds_element_witness:
  "be_id (drawn (straight_view 0 9 0 0) 3 (mk_point 2 2)) = 0 \<and>
   apart (ed_layout (fst (handleTrackCanvasMouseDown whole_page (mouse_at 100 100) (sample_editor ToolDraw (Some (straight_view 0 9 0 0))))))"
proof -
  let ?c = "straight_view 0 9 0 0" and ?s = "sample_editor ToolDraw (Some (straight_view 0 9 0 0))"
  have f: "ed_layout ?s = two_tracks" "ed_editMode ?s" "\<not> ed_turnoutSelectionMode ?s" "ed_tool ?s = ToolDraw" "ed_currentCursor ?s = Some ?c"
    "ed_nextRef ?s = 3" by (simp_all add: new_editor_def)
  have c: "be_layerName ?c \<in> {''blocks'', ''signals'', ''sensors'', ''track'', ''buildings''}" "1 \<le> be_w ?c" "1 \<le> be_h ?c"
    "me_button (mouse_at 100 100) \<noteq> 2" by (simp_all add: editor_sample_defs)
  have r: "vw_ref ?c \<notin> vw_ref ` set (all_views (ed_layout ?s))" unfolding f by (simp add: all_views_def editor_sample_defs)
  have a: "apart (ed_layout ?s)" unfolding f by (rule sample_ok)
  show ?thesis using draw_adds_element [OF f(2-4) c(4) f(5) c(1-3) r a refl refl refl, of whole_page] by (simp add: f(6) sample_grid)
qed

subsection \<open>The selection rectangle\<close>

text \<open>An element shares a cell with the rectangle between two cells.\<close>

definition touches :: "view \<Rightarrow> point \<Rightarrow> point \<Rightarrow> bool" where
  "touches e p q \<longleftrightarrow>
     (\<exists>x\<in>{min (p_x p) (p_x q)..max (p_x p) (p_x q)}. \<exists>y\<in>{min (p_y p) (p_y q)..max (p_y p) (p_y q)}. hitTest e x y)"

definition rect_between :: "point \<Rightarrow> point \<Rightarrow> selection_rect" where
  "rect_between p q = \<lparr>sr_startGridX = p_x p, sr_startGridY = p_y p, sr_endGridX = p_x q, sr_endGridY = p_y q\<rparr>"

lemma intervals_meet: "(\<exists>x\<in>{a..b}. c \<le> x \<and> x < d) \<longleftrightarrow> c \<le> b \<and> a \<le> d - 1" if "a \<le> b" "c < d" for a b c d :: int
proof
  assume "c \<le> b \<and> a \<le> d - 1"
  then have "max a c \<in> {a..b} \<and> c \<le> max a c \<and> max a c < d" using that by auto
  then show "\<exists>x\<in>{a..b}. c \<le> x \<and> x < d" by blast
qed auto

lemma in_selection_touches:
  assumes "1 \<le> be_w e" "1 \<le> be_h e"
  shows "in_selection (normalizeSelectionRect (rect_between p q)) e \<longleftrightarrow> touches e p q"
proof -
  let ?b = "getBounds e"
  have w: "1 \<le> r_width ?b" "1 \<le> r_height ?b"
    using assms by (simp_all add: getBounds_def block_getBounds_def base_getBounds_def mk_rect_def)
  let ?X = "{min (p_x p) (p_x q)..max (p_x p) (p_x q)}" and ?Y = "{min (p_y p) (p_y q)..max (p_y p) (p_y q)}"
  have "touches e p q \<longleftrightarrow> (\<exists>x\<in>?X. r_x ?b \<le> x \<and> x < r_x ?b + r_width ?b) \<and> (\<exists>y\<in>?Y. r_y ?b \<le> y \<and> y < r_y ?b + r_height ?b)"
    unfolding touches_def hitTest_rect r_right_def r_bottom_def by blast
  also have "\<dots> \<longleftrightarrow> (r_x ?b \<le> max (p_x p) (p_x q) \<and> min (p_x p) (p_x q) \<le> r_x ?b + r_width ?b - 1) \<and>
      (r_y ?b \<le> max (p_y p) (p_y q) \<and> min (p_y p) (p_y q) \<le> r_y ?b + r_height ?b - 1)"
    using w by (subst (1 2) intervals_meet) auto
  finally show ?thesis by (simp add: in_selection_def normalizeSelectionRect_def rect_between_def Let_def conj_ac)
qed

text \<open>Selecting under way: the rectangle runs from the cell of the press to the cell of the last move.\<close>

definition selecting :: "view_layout \<Rightarrow> bool \<Rightarrow> point \<Rightarrow> point \<Rightarrow> editor \<Rightarrow> bool" where
  "selecting l add p q s \<longleftrightarrow>
     ed_layout s = (if add then l else unselectAll l) \<and> \<not> pn_isPanning (ed_pan s) \<and> sn_isSelecting (ed_selection s) \<and>
     sn_additive (ed_selection s) = add \<and> selection_rect.truncate (ed_selection s) = rect_between p q"

lemma press_selecting:
  assumes "ed_editMode s" "\<not> ed_turnoutSelectionMode s" "ed_tool s = ToolCursor" "me_button ev \<noteq> 2"
    "element_at (event_grid r ev s) (ed_layout s) = None" "\<not> pn_isPanning (ed_pan s)"
  shows "selecting (ed_layout s) (me_ctrlKey ev) (event_grid r ev s) (event_grid r ev s) (fst (handleTrackCanvasMouseDown r ev s))"
  using assms by (simp add: handleTrackCanvasMouseDown_def empty_click_def Let_def split_beta selecting_def rect_between_def
      selection_rect.truncate_def)

lemma move_selecting:
  "selecting l add p q s \<Longrightarrow> selecting l add p (event_grid r e s) (fst (handleTrackCanvasMouseMove r e s))"
  by (simp add: selecting_def handleTrackCanvasMouseMove_def Let_def split_beta rect_between_def selection_rect.truncate_def)

lemma motion_selecting: "selecting l add p q s \<Longrightarrow> is_motion ev \<Longrightarrow> \<exists>q'. selecting l add p q' (fst (editor_step ev s))"
proof (cases ev)
  case (Wheel r e d)
  moreover have "ed_pan (fst (handleTrackCanvasWheel r e d s)) = ed_pan s" by (simp add: handleTrackCanvasWheel_def Let_def)
  moreover assume "selecting l add p q s"
  ultimately show ?thesis by (intro exI [where x = q]) (simp add: editor_step_def selecting_def)
qed (auto simp: editor_step_def is_motion_def dest: move_selecting)

lemma run_selecting: "selecting l add p q s \<Longrightarrow> list_all is_motion evs \<Longrightarrow> \<exists>q'. selecting l add p q' (editor_run evs s)"
  unfolding editor_run_def
proof (induction evs arbitrary: q s)
  case (Cons ev evs)
  then show ?case using motion_selecting [of l add p q s ev] by auto
qed auto

lemma stop_selecting_layout:
  assumes "selecting l add p q s" "\<And>e. e \<in> set (all_views l) \<Longrightarrow> 1 \<le> be_w e \<and> 1 \<le> be_h e"
  shows "ed_layout (fst (stopTrackCanvasInteraction s)) =
    map_views (\<lambda>e. select_view (add \<and> vw_selected e \<or> touches e p q) e) l"
proof -
  have touch: "touches (select_view b e) p q = touches e p q" for b e by (simp add: touches_def hitTest_rect)
  have sel: "in_selection n (select_view b e) = in_selection n e" for n b e by (simp add: in_selection_def)
  have same: "select_view (vw_selected e) e = e" for e by (simp add: select_view_def)
  have twice: "select_view b (select_view c e) = select_view b e" for b c e by (simp add: select_view_def)
  have un: "unselectAll (unselectAll l) = unselectAll l" by (simp add: unselect_select map_views_twice twice)
  have "ed_layout (fst (stopTrackCanvasInteraction s)) =
      map_views (\<lambda>e. if in_selection (normalizeSelectionRect (rect_between p q)) e then select_view True e else e)
        (if add then l else unselectAll l)"
    using assms(1) by (simp add: stopTrackCanvasInteraction_def stop_selecting_def getSelectionRect_def applySelectionRect_def selecting_def
        Let_def split_beta un)
  also have "\<dots> = map_views (\<lambda>e. if touches e p q then select_view True e else select_view (add \<and> vw_selected e) e) l"
    by (cases add) (auto simp: unselect_select map_views_twice sel twice same in_selection_touches assms(2) intro!: views_cong)
  also have "\<dots> = map_views (\<lambda>e. select_view (add \<and> vw_selected e \<or> touches e p q) e) l"
    by (rule views_cong) simp
  finally show ?thesis .
qed

text \<open>C33. A selection rectangle, opened by a press on an empty cell and ended where the mouse moved last, selects exactly the elements
  that share a cell with it, and, with the control key, those selected before; nothing else changes.\<close>

theorem rectangle_selects:
  assumes "ed_editMode s" "\<not> ed_turnoutSelectionMode s" "ed_tool s = ToolCursor" "me_button ev \<noteq> 2"
    and "element_at (event_grid r ev s) (ed_layout s) = None" "\<not> pn_isPanning (ed_pan s)" "list_all is_motion evs"
    and "\<And>e. e \<in> set (all_views (ed_layout s)) \<Longrightarrow> 1 \<le> be_w e \<and> 1 \<le> be_h e"
    and "p = event_grid r ev s" "q = event_grid r' ev' (editor_run (MouseDown r ev # evs) s)"
  shows "ed_layout (editor_run (MouseDown r ev # evs @ [MouseMove r' ev', Stop]) s) =
    map_views (\<lambda>e. select_view (me_ctrlKey ev \<and> vw_selected e \<or> touches e p q) e) (ed_layout s)"
proof -
  let ?l = "ed_layout s" and ?s = "editor_run (MouseDown r ev # evs) s"
  have run: "?s = editor_run evs (fst (handleTrackCanvasMouseDown r ev s))" by (simp add: editor_run_def editor_step_def)
  obtain q' where "selecting ?l (me_ctrlKey ev) p q' ?s"
    using run_selecting [OF press_selecting [OF assms(1-6)] assms(7)] unfolding run assms(9) by blast
  then have "selecting ?l (me_ctrlKey ev) p q (fst (handleTrackCanvasMouseMove r' ev' ?s))" unfolding assms(10) by (rule move_selecting)
  from stop_selecting_layout [OF this assms(8)] show ?thesis by (simp add: editor_run_def editor_step_def)
qed

lemma rectangle_selects_witness:
  "ed_layout (editor_run [MouseDown whole_page (mouse_at 100 100), MouseMove whole_page (mouse_at 60 60), Stop] (sample_editor ToolCursor None)) =
   map_views (\<lambda>e. select_view (touches e (mk_point 2 2) (mk_point 1 1)) e) two_tracks"
proof -
  let ?s = "sample_editor ToolCursor None" and ?e = "mouse_at 100 100"
  have f: "ed_layout ?s = two_tracks" "ed_editMode ?s" "\<not> ed_turnoutSelectionMode ?s" "ed_tool ?s = ToolCursor"
    "\<not> pn_isPanning (ed_pan ?s)" by (simp_all add: new_editor_def)
  have m: "me_button ?e \<noteq> 2" "\<not> me_ctrlKey ?e" by (simp_all add: mouse_at_def)
  have n: "element_at (event_grid whole_page ?e ?s) (ed_layout ?s) = None" unfolding f(1) by (simp add: sample_grid sample_hits)
  have sizes: "1 \<le> be_w e \<and> 1 \<le> be_h e" if "e \<in> set (all_views (ed_layout ?s))" for e
    using that unfolding f(1) by (auto simp: all_views_def editor_sample_defs)
  let ?t = "editor_run [MouseDown whole_page ?e] ?s"
  have "ed_view ?t = at_origin" "ed_gridSize ?t = 40" by (simp_all add: editor_run_def editor_step_def) (simp_all add: new_editor_def)
  then have q: "event_grid whole_page (mouse_at 60 60) ?t = mk_point 1 1"
    by (simp add: event_grid_def screenToGrid_def at_origin_def whole_page_def mouse_at_def)
  show ?thesis
    using rectangle_selects [OF f(2-4) m(1) n f(5) _ sizes refl refl, of "[]" whole_page "mouse_at 60 60"]
    unfolding q sample_grid f(1) by (simp add: m(2))
qed

end
