(* ===== verification/CanvasView.thy ===== *)
theory CanvasView
  imports TrackEditor
begin

text \<open>
  What the canvas shows: fitting the layout into the canvas (\<open>trackCanvasLayoutBounds.ts\<close>), and keeping the view in the local
  storage (\<open>trackCanvasViewStorage.ts\<close>), where writing is delayed.
\<close>

subsection \<open>Bounds\<close>

definition lies_in :: "view \<Rightarrow> layout_bounds \<Rightarrow> bool" where
  "lies_in e b \<longleftrightarrow>
     (let r = getBounds e in
      lb_minX b \<le> r_x r \<and> lb_minY b \<le> r_y r \<and> r_x r + r_width r - 1 \<le> lb_maxX b \<and> r_y r + r_height r - 1 \<le> lb_maxY b)"

definition narrower :: "layout_bounds \<Rightarrow> layout_bounds \<Rightarrow> bool" where
  "narrower a b \<longleftrightarrow> lb_minX b \<le> lb_minX a \<and> lb_minY b \<le> lb_minY a \<and> lb_maxX a \<le> lb_maxX b \<and> lb_maxY a \<le> lb_maxY b"

lemma lies_in_narrower: "lies_in e a \<Longrightarrow> narrower a b \<Longrightarrow> lies_in e b"
  by (auto simp: lies_in_def narrower_def Let_def)

lemma extend_covers: "narrower b (extend_view_bounds b es) \<and> (\<forall>e\<in>set es. lies_in e (extend_view_bounds b es))"
proof (induction es arbitrary: b)
  case Nil
  then show ?case by (simp add: narrower_def)
next
  case (Cons e es)
  let ?r = "getBounds e"
  let ?b = "\<lparr>lb_minX = min (lb_minX b) (r_x ?r), lb_minY = min (lb_minY b) (r_y ?r),
        lb_maxX = max (lb_maxX b) (r_x ?r + r_width ?r - 1), lb_maxY = max (lb_maxY b) (r_y ?r + r_height ?r - 1)\<rparr>"
  have "lies_in e ?b" by (simp add: lies_in_def Let_def)
  then have "lies_in e (extend_view_bounds ?b es)" using Cons.IH [of ?b] lies_in_narrower by blast
  moreover have "narrower b (extend_view_bounds ?b es)" using Cons.IH [of ?b] by (auto simp: narrower_def)
  ultimately show ?case using Cons.IH [of ?b] by (simp add: Let_def)
qed

lemma set_order: "set (getAllLayoutElements l) = set (all_views l)"
  by (auto simp: getAllLayoutElements_def all_views_def)

lemma view_bounds_cover: "view_bounds l = Some b \<Longrightarrow> e \<in> set (all_views l) \<Longrightarrow> lies_in e b"
proof -
  assume b: "view_bounds l = Some b" and e: "e \<in> set (all_views l)"
  then obtain e0 rest where l: "getAllLayoutElements l = e0 # rest"
    unfolding view_bounds_def by (cases "getAllLayoutElements l") simp_all
  let ?r = "getBounds e0"
  let ?b = "\<lparr>lb_minX = r_x ?r, lb_minY = r_y ?r, lb_maxX = r_x ?r + r_width ?r - 1, lb_maxY = r_y ?r + r_height ?r - 1\<rparr>"
  have "b = extend_view_bounds ?b rest" using b by (simp add: view_bounds_def l Let_def)
  moreover have "lies_in e0 ?b" by (simp add: lies_in_def Let_def)
  ultimately show "lies_in e b" using extend_covers [of ?b rest] e l set_order [of l] by (auto intro: lies_in_narrower)
qed

text \<open>Where a grid line is on the screen.\<close>

definition screenX :: "rat \<Rightarrow> view_state \<Rightarrow> int \<Rightarrow> rat" where
  "screenX g v c = world g c * vs_scale v + vs_offsetX v"

definition screenY :: "rat \<Rightarrow> view_state \<Rightarrow> int \<Rightarrow> rat" where
  "screenY g v c = world g c * vs_scale v + vs_offsetY v"

lemma fit_axis:
  fixes k W left x c :: rat
  assumes "0 < k" "W * k \<le> c - 80" "left \<le> x" "x \<le> left + W"
  shows "40 \<le> x * k + ((c - W * k) / 2 - left * k) \<and> x * k + ((c - W * k) / 2 - left * k) \<le> c - 40"
proof -
  have "left * k \<le> x * k" "x * k \<le> (left + W) * k" using assms by (simp_all add: mult_right_mono)
  then show ?thesis using assms(2) by (simp add: field_simps)
qed

lemma fit_scale:
  fixes W H cw ch :: rat
  assumes "0 < W" "0 < H" "81 \<le> cw" "81 \<le> ch" "W \<le> 5 * (cw - 80)" "H \<le> 5 * (ch - 80)"
  defines "k \<equiv> clamp_view (min (max 1 (cw - 40 * 2) / W) (max 1 (ch - 40 * 2) / H)) (1 / 5) 4"
  shows "0 < k \<and> W * k \<le> cw - 80 \<and> H * k \<le> ch - 80"
proof -
  have m: "max 1 (cw - 40 * 2) = cw - 80" "max 1 (ch - 40 * 2) = ch - 80" using assms(3,4) by (simp_all add: max_def)
  have "1 / 5 \<le> (cw - 80) / W" "1 / 5 \<le> (ch - 80) / H" using assms(1,2,5,6) by (simp_all add: field_simps)
  then have "k = min 4 (min ((cw - 80) / W) ((ch - 80) / H))" unfolding k_def m clamp_view_def by simp
  then have "k \<le> (cw - 80) / W" "k \<le> (ch - 80) / H" by simp_all
  moreover have "1 / 5 \<le> k" unfolding k_def clamp_view_def by simp
  ultimately show ?thesis using assms(1,2) by (simp add: field_simps)
qed

lemma world_mono: "0 < g \<Longrightarrow> a \<le> b \<Longrightarrow> world g a \<le> world g b"
  by (simp add: world_def)

lemma world_less: "0 < g \<Longrightarrow> a < b \<Longrightarrow> world g a < world g b"
  by (simp add: world_def)

lemma fit_view:
  assumes "view_bounds l = Some b" "0 < g" "lb_minX b \<le> lb_maxX b" "lb_minY b \<le> lb_maxY b"
    and "81 \<le> cw" "81 \<le> ch"
    and "world g (lb_maxX b + 1) - world g (lb_minX b) \<le> 5 * (cw - 80)"
    and "world g (lb_maxY b + 1) - world g (lb_minY b) \<le> 5 * (ch - 80)"
  defines "W \<equiv> world g (lb_maxX b + 1) - world g (lb_minX b)" and "H \<equiv> world g (lb_maxY b + 1) - world g (lb_minY b)"
  shows "\<exists>k > 0. W * k \<le> cw - 80 \<and> H * k \<le> ch - 80 \<and> vs_scale (fitLayoutToView l g cw ch v) = k \<and>
    vs_offsetX (fitLayoutToView l g cw ch v) = (cw - W * k) / 2 - world g (lb_minX b) * k \<and>
    vs_offsetY (fitLayoutToView l g cw ch v) = (ch - H * k) / 2 - world g (lb_minY b) * k"
proof -
  let ?k = "clamp_view (min (max 1 (cw - 40 * 2) / W) (max 1 (ch - 40 * 2) / H)) (1 / 5) 4"
  have lt: "world g (lb_minX b) < world g (lb_maxX b + 1)" "world g (lb_minY b) < world g (lb_maxY b + 1)"
    using world_less [OF assms(2)] assms(3,4) by simp_all
  then have pos: "0 < W" "0 < H" unfolding W_def H_def by simp_all
  note k = fit_scale [OF pos assms(5,6) assms(7) [folded W_def] assms(8) [folded H_def]]
  have "fitLayoutToView l g cw ch v = v\<lparr>vs_scale := ?k, vs_offsetX := (cw - W * ?k) / 2 - world g (lb_minX b) * ?k,
      vs_offsetY := (ch - H * ?k) / 2 - world g (lb_minY b) * ?k\<rparr>"
    using lt by (simp add: fitLayoutToView_def assms(1) Let_def W_def [symmetric] H_def [symmetric])
  then show ?thesis using k by (intro exI [where x = ?k]) simp
qed

text \<open>Fitting shows the whole layout: when the canvas is large enough for the smallest scale, every element lies on the screen
  between the paddings of 40 pixels on all sides.\<close>

theorem fit_shows_all:
  assumes "view_bounds l = Some b" "0 < g" "81 \<le> cw" "81 \<le> ch"
    and "world g (lb_maxX b + 1) - world g (lb_minX b) \<le> 5 * (cw - 80)"
    and "world g (lb_maxY b + 1) - world g (lb_minY b) \<le> 5 * (ch - 80)"
    and "e \<in> set (all_views l)" "1 \<le> be_w e" "1 \<le> be_h e" "v' = fitLayoutToView l g cw ch v"
  shows "40 \<le> screenX g v' (r_x (getBounds e)) \<and> screenX g v' (r_x (getBounds e) + r_width (getBounds e)) \<le> cw - 40 \<and>
    40 \<le> screenY g v' (r_y (getBounds e)) \<and> screenY g v' (r_y (getBounds e) + r_height (getBounds e)) \<le> ch - 40"
proof -
  let ?r = "getBounds e"
  have e: "lb_minX b \<le> r_x ?r" "lb_minY b \<le> r_y ?r" "r_x ?r + r_width ?r - 1 \<le> lb_maxX b" "r_y ?r + r_height ?r - 1 \<le> lb_maxY b"
    using view_bounds_cover [OF assms(1,7)] by (simp_all add: lies_in_def Let_def)
  have size: "1 \<le> r_width ?r" "1 \<le> r_height ?r"
    using assms(8,9) by (simp_all add: getBounds_def block_getBounds_def base_getBounds_def mk_rect_def)
  obtain k where k: "0 < k" "(world g (lb_maxX b + 1) - world g (lb_minX b)) * k \<le> cw - 80"
      "(world g (lb_maxY b + 1) - world g (lb_minY b)) * k \<le> ch - 80" "vs_scale v' = k"
      "vs_offsetX v' = (cw - (world g (lb_maxX b + 1) - world g (lb_minX b)) * k) / 2 - world g (lb_minX b) * k"
      "vs_offsetY v' = (ch - (world g (lb_maxY b + 1) - world g (lb_minY b)) * k) / 2 - world g (lb_minY b) * k"
    using fit_view [OF assms(1,2) _ _ assms(3-6), of v] e size unfolding assms(10) by auto
  have w: "world g (lb_minX b) \<le> world g (r_x ?r)" "world g (r_x ?r + r_width ?r) \<le> world g (lb_maxX b + 1)"
      "world g (lb_minY b) \<le> world g (r_y ?r)" "world g (r_y ?r + r_height ?r) \<le> world g (lb_maxY b + 1)"
      "world g (r_x ?r) \<le> world g (r_x ?r + r_width ?r)" "world g (r_y ?r) \<le> world g (r_y ?r + r_height ?r)"
    using e size by (simp_all add: world_mono [OF assms(2)])
  show ?thesis
    unfolding screenX_def screenY_def k(4-6)
    using fit_axis [OF k(1,2), where left = "world g (lb_minX b)" and x = "world g (r_x ?r)"]
      fit_axis [OF k(1,2), where left = "world g (lb_minX b)" and x = "world g (r_x ?r + r_width ?r)"]
      fit_axis [OF k(1,3), where left = "world g (lb_minY b)" and x = "world g (r_y ?r)"]
      fit_axis [OF k(1,3), where left = "world g (lb_minY b)" and x = "world g (r_y ?r + r_height ?r)"] w
    by simp
qed

lemma fit_shows_all_witness:
  "40 \<le> screenX 40 (fitLayoutToView two_tracks 40 800 600 at_origin) 1 \<and>
   screenX 40 (fitLayoutToView two_tracks 40 800 600 at_origin) 2 \<le> 800 - 40"
proof -
  have b: "view_bounds two_tracks = Some \<lparr>lb_minX = 1, lb_minY = 1, lb_maxX = 3, lb_maxY = 1\<rparr>"
    by (simp add: view_bounds_def getAllLayoutElements_def editor_sample_defs getBounds_def base_getBounds_def mk_rect_def)
  have e: "straight_view 1 1 1 1 \<in> set (all_views two_tracks)" "1 \<le> be_w (straight_view 1 1 1 1)" "1 \<le> be_h (straight_view 1 1 1 1)"
    "getBounds (straight_view 1 1 1 1) = mk_rect 1 1 1 1"
    by (simp_all add: all_views_def editor_sample_defs getBounds_def base_getBounds_def)
  show ?thesis
    using fit_shows_all [OF b _ _ _ _ _ e(1-3) refl, of 40 800 600 at_origin] unfolding e(4) by (simp add: world_def mk_rect_def)
qed

subsection \<open>The stored view\<close>

text \<open>
  A stored text is the value it is the JSON of, or \<open>None\<close> when it is no JSON. A pending timer is in \<open>vt_timers\<close> with the key
  that its closure holds; \<open>window.setTimeout\<close> gives the next number. A write fails when the storage is full.
\<close>

record view_store =
  vt_stored :: "(string \<times> jsval option) list"
  vt_pendingViewStates :: "(string \<times> view_state) list"
  vt_saveTimers :: "(string \<times> nat) list"
  vt_registered :: bool
  vt_timers :: "(nat \<times> string) list"
  vt_nextTimer :: nat

definition DEFAULT_VIEW_STORAGE_KEY :: string where "DEFAULT_VIEW_STORAGE_KEY = ''dcc-express.editor.trackCanvas.view''"

definition default_view :: view_state where "default_view = \<lparr>vs_scale = 1, vs_offsetX = 0, vs_offsetY = 0\<rparr>"

definition view_json :: "view_state \<Rightarrow> jsval" where
  "view_json v = JObj [(''scale'', JNum (Fin (vs_scale v))), (''offsetX'', JNum (Fin (vs_offsetX v))), (''offsetY'', JNum (Fin (vs_offsetY v)))]"

definition writeViewState :: "bool \<Rightarrow> view_state \<Rightarrow> string \<Rightarrow> view_store \<Rightarrow> view_store" where
  "writeViewState ok v storageKey st =
     (if ok then st\<lparr>vt_stored := AList.update storageKey (Some (view_json v)) (vt_stored st)\<rparr> else st)"

definition finite_or :: "rat \<Rightarrow> jsval \<Rightarrow> rat" where
  "finite_or d v = (case v of JNum (Fin q) \<Rightarrow> q | _ \<Rightarrow> d)"

definition loadSavedViewState :: "string \<Rightarrow> view_store \<Rightarrow> view_state" where
  "loadSavedViewState storageKey st =
     (case map_of (vt_stored st) storageKey of
        Some (Some parsed) \<Rightarrow>
          \<lparr>vs_scale = (case js_get parsed ''scale'' of JNum (Fin q) \<Rightarrow> clamp_view q (1 / 5) 4 | _ \<Rightarrow> 1),
           vs_offsetX = finite_or 0 (js_get parsed ''offsetX''), vs_offsetY = finite_or 0 (js_get parsed ''offsetY'')\<rparr>
      | _ \<Rightarrow> default_view)"

definition clear_timer :: "nat \<Rightarrow> view_store \<Rightarrow> view_store" where
  "clear_timer t st = st\<lparr>vt_timers := AList.delete t (vt_timers st)\<rparr>"

definition saveViewState :: "view_state \<Rightarrow> string \<Rightarrow> view_store \<Rightarrow> view_store" where
  "saveViewState v storageKey st =
     (let st1 = st\<lparr>vt_registered := True, vt_pendingViewStates := AList.update storageKey v (vt_pendingViewStates st)\<rparr>;
          st2 = (case map_of (vt_saveTimers st1) storageKey of Some previous \<Rightarrow> clear_timer previous st1 | None \<Rightarrow> st1)
      in st2\<lparr>vt_timers := (vt_nextTimer st2, storageKey) # vt_timers st2, vt_nextTimer := vt_nextTimer st2 + 1,
             vt_saveTimers := AList.update storageKey (vt_nextTimer st2) (vt_saveTimers st2)\<rparr>)"

text \<open>The callback of a timer, which runs when the timer is still pending.\<close>

definition timer_fires :: "bool \<Rightarrow> nat \<Rightarrow> view_store \<Rightarrow> view_store" where
  "timer_fires ok t st =
     (case map_of (vt_timers st) t of
        None \<Rightarrow> st
      | Some storageKey \<Rightarrow>
          let st1 = clear_timer t st;
              st2 = (case map_of (vt_pendingViewStates st1) storageKey of
                       Some pending \<Rightarrow>
                         (writeViewState ok pending storageKey st1)
                           \<lparr>vt_pendingViewStates := AList.delete storageKey (vt_pendingViewStates st1)\<rparr>
                     | None \<Rightarrow> st1)
          in st2\<lparr>vt_saveTimers := AList.delete storageKey (vt_saveTimers st2)\<rparr>)"

definition flushSavedViewState :: "bool \<Rightarrow> view_store \<Rightarrow> view_store" where
  "flushSavedViewState ok st =
     (let st1 = fold clear_timer (map snd (vt_saveTimers st)) st;
          st2 = fold (\<lambda>(storageKey, v). writeViewState ok v storageKey) (vt_pendingViewStates st1) (st1\<lparr>vt_saveTimers := []\<rparr>)
      in st2\<lparr>vt_pendingViewStates := []\<rparr>)"

datatype view_event = SaveView view_state string | TimerFires bool nat | PageHide bool

definition view_event_step :: "view_event \<Rightarrow> view_store \<Rightarrow> view_store" where
  "view_event_step ev st =
     (case ev of
        SaveView v k \<Rightarrow> saveViewState v k st
      | TimerFires ok t \<Rightarrow> timer_fires ok t st
      | PageHide ok \<Rightarrow> if vt_registered st then flushSavedViewState ok st else st)"

definition view_store_run :: "view_event list \<Rightarrow> view_store \<Rightarrow> view_store" where
  "view_store_run evs st = fold view_event_step evs st"

definition fresh_store :: "(string \<times> jsval option) list \<Rightarrow> view_store" where
  "fresh_store stored =
     \<lparr>vt_stored = stored, vt_pendingViewStates = [], vt_saveTimers = [], vt_registered = False, vt_timers = [], vt_nextTimer = 0\<rparr>"

subsection \<open>Nothing that is saved is lost\<close>

text \<open>The view a key should have: the one saved last.\<close>

fun last_saved :: "string \<Rightarrow> view_event list \<Rightarrow> view_state option" where
  "last_saved k [] = None"
| "last_saved k (ev # evs) =
     (case last_saved k evs of
        Some v \<Rightarrow> Some v
      | None \<Rightarrow> (case ev of SaveView v k' \<Rightarrow> if k' = k then Some v else None | _ \<Rightarrow> None))"

definition writes_succeed :: "view_event \<Rightarrow> bool" where
  "writes_succeed ev = (case ev of SaveView v k \<Rightarrow> True | TimerFires ok t \<Rightarrow> ok | PageHide ok \<Rightarrow> ok)"

text \<open>A view waits for its timer exactly while there is one, and each key has one timer.\<close>

definition saves_ok :: "view_store \<Rightarrow> bool" where
  "saves_ok st \<longleftrightarrow>
     (\<forall>k t. map_of (vt_saveTimers st) k = Some t \<longleftrightarrow> map_of (vt_timers st) t = Some k) \<and>
     dom (map_of (vt_pendingViewStates st)) = dom (map_of (vt_saveTimers st)) \<and> distinct (map fst (vt_pendingViewStates st)) \<and>
     (\<forall>t\<in>dom (map_of (vt_timers st)). t < vt_nextTimer st) \<and> (vt_pendingViewStates st \<noteq> [] \<longrightarrow> vt_registered st)"

text \<open>What a key holds in the end, if nothing else is saved.\<close>

definition kept_view :: "view_store \<Rightarrow> string \<Rightarrow> jsval option option" where
  "kept_view st k = (case map_of (vt_pendingViewStates st) k of Some v \<Rightarrow> Some (Some (view_json v)) | None \<Rightarrow> map_of (vt_stored st) k)"

lemma clear_timer_fields [simp]: "vt_stored (clear_timer t st) = vt_stored st"
    "vt_pendingViewStates (clear_timer t st) = vt_pendingViewStates st" "vt_saveTimers (clear_timer t st) = vt_saveTimers st"
    "vt_registered (clear_timer t st) = vt_registered st" "vt_nextTimer (clear_timer t st) = vt_nextTimer st"
    "map_of (vt_timers (clear_timer t st)) = (map_of (vt_timers st))(t := None)"
  by (simp_all add: clear_timer_def AList.delete_conv')

lemma clear_all_timers:
  "vt_stored (fold clear_timer ts st) = vt_stored st" "vt_pendingViewStates (fold clear_timer ts st) = vt_pendingViewStates st"
  "vt_saveTimers (fold clear_timer ts st) = vt_saveTimers st"
  "vt_registered (fold clear_timer ts st) = vt_registered st" "vt_nextTimer (fold clear_timer ts st) = vt_nextTimer st"
  "map_of (vt_timers (fold clear_timer ts st)) t = (if t \<in> set ts then None else map_of (vt_timers st) t)"
  by (induction ts arbitrary: st) simp_all

lemma write_fields [simp]: "vt_pendingViewStates (writeViewState ok v k st) = vt_pendingViewStates st"
    "vt_saveTimers (writeViewState ok v k st) = vt_saveTimers st" "vt_registered (writeViewState ok v k st) = vt_registered st"
    "vt_timers (writeViewState ok v k st) = vt_timers st" "vt_nextTimer (writeViewState ok v k st) = vt_nextTimer st"
    "map_of (vt_stored (writeViewState True v k st)) = (map_of (vt_stored st))(k \<mapsto> Some (view_json v))"
  by (simp_all add: writeViewState_def AList.update_conv')

abbreviation write_all :: "bool \<Rightarrow> (string \<times> view_state) list \<Rightarrow> view_store \<Rightarrow> view_store" where
  "write_all ok ps st \<equiv> fold (\<lambda>(storageKey, v). writeViewState ok v storageKey) ps st"

lemma write_all_fields:
  "vt_saveTimers (write_all ok ps st) = vt_saveTimers st" "vt_registered (write_all ok ps st) = vt_registered st"
  "vt_timers (write_all ok ps st) = vt_timers st" "vt_nextTimer (write_all ok ps st) = vt_nextTimer st"
  by (induction ps arbitrary: st) (auto simp: split_beta)

lemma write_all_stored:
  "distinct (map fst ps) \<Longrightarrow> map_of (vt_stored (write_all True ps st)) k =
     (case map_of ps k of Some v \<Rightarrow> Some (Some (view_json v)) | None \<Rightarrow> map_of (vt_stored st) k)"
proof (induction ps arbitrary: st)
  case (Cons p ps)
  obtain a v where p: "p = (a, v)" by (cases p)
  then have "map_of ps a = None" using Cons.prems by (auto simp: map_of_eq_None_iff)
  then show ?case using Cons.IH [of "writeViewState True v a st"] Cons.prems by (cases "a = k") (simp_all add: p split: option.split)
qed simp

lemma store_ok_fresh: "saves_ok (fresh_store stored)"
  by (simp add: saves_ok_def fresh_store_def)

lemma save_ok:
  assumes "saves_ok st"
  shows "saves_ok (saveViewState v k st) \<and>
    kept_view (saveViewState v k st) = (kept_view st)(k \<mapsto> Some (view_json v))"
proof -
  let ?S = "map_of (vt_saveTimers st)" and ?T = "map_of (vt_timers st)" and ?n = "vt_nextTimer st"
  let ?T1 = "case ?S k of Some p \<Rightarrow> ?T(p := None) | None \<Rightarrow> ?T"
  let ?st = "saveViewState v k st"
  have f: "map_of (vt_saveTimers ?st) = ?S(k \<mapsto> ?n)" "map_of (vt_timers ?st) = ?T1(?n \<mapsto> k)" "vt_nextTimer ?st = ?n + 1"
      "map_of (vt_pendingViewStates ?st) = (map_of (vt_pendingViewStates st))(k \<mapsto> v)" "vt_registered ?st" "vt_stored ?st = vt_stored st"
      "distinct (map fst (vt_pendingViewStates st)) \<Longrightarrow> distinct (map fst (vt_pendingViewStates ?st))"
    by (auto simp: saveViewState_def Let_def AList.update_conv' AList.distinct_update split: option.split)
  have new: "?T ?n = None" using assms unfolding saves_ok_def by (metis domIff less_irrefl)
  have link: "?S k' = Some t \<longleftrightarrow> ?T t = Some k'" for k' t using assms unfolding saves_ok_def by blast
  have old: "?T1 t = (if ?S k = Some t then None else ?T t)" for t by (simp split: option.split)
  have "(?S(k \<mapsto> ?n)) k' = Some t \<longleftrightarrow> (?T1(?n \<mapsto> k)) t = Some k'" for k' t
    using new link [of k' t] link [of k t] link [of k' ?n] old [of t] by auto
  moreover have "t < ?n + 1" if "t \<in> dom (?T1(?n \<mapsto> k))" for t
  proof -
    have "t = ?n \<or> ?T t \<noteq> None" using that old [of t] by (auto split: if_splits)
    then show ?thesis using assms unfolding saves_ok_def by (auto simp: dom_def less_Suc_eq)
  qed
  ultimately have "saves_ok ?st" using assms unfolding saves_ok_def f by (auto simp: f)
  moreover have "kept_view ?st = (kept_view st)(k \<mapsto> Some (view_json v))" by (rule ext) (simp add: kept_view_def f(4) f(6) split: option.split)
  ultimately show ?thesis by blast
qed

lemma timer_ok:
  assumes "saves_ok st"
  shows "saves_ok (timer_fires True t st) \<and> kept_view (timer_fires True t st) = kept_view st"
proof (cases "map_of (vt_timers st) t")
  case None
  then show ?thesis using assms by (simp add: timer_fires_def)
next
  case (Some k)
  let ?S = "map_of (vt_saveTimers st)" and ?T = "map_of (vt_timers st)" and ?P = "map_of (vt_pendingViewStates st)"
  let ?st = "timer_fires True t st"
  have link: "?S k' = Some t' \<longleftrightarrow> ?T t' = Some k'" for k' t' using assms unfolding saves_ok_def by blast
  have dom: "dom ?P = dom ?S" using assms unfolding saves_ok_def by blast
  have "?S k = Some t" using link Some by blast
  then obtain v where v: "?P k = Some v" using dom by blast
  have f: "map_of (vt_saveTimers ?st) = ?S(k := None)" "map_of (vt_timers ?st) = ?T(t := None)" "vt_nextTimer ?st = vt_nextTimer st"
      "map_of (vt_pendingViewStates ?st) = ?P(k := None)" "vt_registered ?st = vt_registered st"
      "map_of (vt_stored ?st) = (map_of (vt_stored st))(k \<mapsto> Some (view_json v))"
      "vt_pendingViewStates ?st = AList.delete k (vt_pendingViewStates st)"
    using Some v by (simp_all add: timer_fires_def Let_def AList.delete_conv')
  have "(?S(k := None)) k' = Some t' \<longleftrightarrow> (?T(t := None)) t' = Some k'" for k' t'
    using link [of k' t'] link [of k t'] link [of k' t] Some by auto
  moreover have "distinct (map fst (vt_pendingViewStates ?st))"
    using assms unfolding f(7) saves_ok_def by (simp add: AList.distinct_delete)
  moreover have "vt_pendingViewStates ?st \<noteq> [] \<Longrightarrow> vt_registered ?st"
    using assms unfolding f(5,7) saves_ok_def by (cases "vt_pendingViewStates st") simp_all
  ultimately have "saves_ok ?st" using assms dom unfolding saves_ok_def f(1-5) by auto
  moreover have "kept_view ?st = kept_view st" by (rule ext) (simp add: kept_view_def f(4) f(6) v split: option.split)
  ultimately show ?thesis by blast
qed

lemma flush_ok:
  assumes "saves_ok st"
  shows "saves_ok (flushSavedViewState True st) \<and> kept_view (flushSavedViewState True st) = kept_view st \<and>
    vt_pendingViewStates (flushSavedViewState True st) = []"
proof -
  let ?st = "flushSavedViewState True st"
  have f: "vt_saveTimers ?st = []" "vt_pendingViewStates ?st = []"
    by (simp_all add: flushSavedViewState_def Let_def write_all_fields)
  have "map_of (vt_timers ?st) t = None" for t
  proof -
    have "t \<in> set (map snd (vt_saveTimers st))" if "map_of (vt_timers st) t = Some k" for k
    proof -
      have "map_of (vt_saveTimers st) k = Some t" using assms that unfolding saves_ok_def by blast
      from map_of_SomeD [OF this] show ?thesis by (simp add: rev_image_eqI)
    qed
    then show ?thesis by (cases "map_of (vt_timers st) t") (simp_all add: flushSavedViewState_def Let_def write_all_fields clear_all_timers)
  qed
  then have "saves_ok ?st" by (simp add: saves_ok_def f dom_def)
  moreover have "map_of (vt_stored ?st) k = kept_view st k" for k
    using assms by (simp add: flushSavedViewState_def Let_def write_all_stored clear_all_timers kept_view_def saves_ok_def split: option.split)
  then have "kept_view ?st = kept_view st" by (intro ext) (simp add: kept_view_def f)
  ultimately show ?thesis using f by blast
qed

lemma step_kept:
  assumes "saves_ok st" "writes_succeed ev"
  shows "saves_ok (view_event_step ev st) \<and> kept_view (view_event_step ev st) k =
    (case last_saved k [ev] of Some v \<Rightarrow> Some (Some (view_json v)) | None \<Rightarrow> kept_view st k)"
  using assms save_ok [OF assms(1)] timer_ok [OF assms(1)] flush_ok [OF assms(1)]
  by (cases ev) (auto simp: view_event_step_def writes_succeed_def)

lemma run_kept:
  "saves_ok st \<Longrightarrow> list_all writes_succeed evs \<Longrightarrow>
   saves_ok (view_store_run evs st) \<and> kept_view (view_store_run evs st) k =
     (case last_saved k evs of Some v \<Rightarrow> Some (Some (view_json v)) | None \<Rightarrow> kept_view st k)"
  unfolding view_store_run_def
proof (induction evs arbitrary: st)
  case (Cons ev evs)
  note s = step_kept [OF Cons.prems(1), of ev k]
  show ?case using Cons.IH [of "view_event_step ev st"] s Cons.prems(2) by (cases ev) (auto split: option.split)
qed simp

lemma load_view_json: "in_range v \<Longrightarrow> map_of (vt_stored st) k = Some (Some (view_json v)) \<Longrightarrow> loadSavedViewState k st = v"
  by (cases v) (simp add: loadSavedViewState_def view_json_def js_get_def finite_or_def clamp_view_def in_range_def)

lemma load_in_range: "in_range (loadSavedViewState k st)"
proof -
  have d: "in_range default_view" by (simp add: in_range_def default_view_def)
  have "in_range \<lparr>vs_scale = (case x of JNum (Fin q) \<Rightarrow> clamp_view q (1 / 5) 4 | _ \<Rightarrow> 1), vs_offsetX = a, vs_offsetY = b\<rparr>" for x a b
    using clamp_view_range [of "1 / 5" 4] unfolding in_range_def by (simp split: jsval.split jsnum.split)
  then show ?thesis unfolding loadSavedViewState_def using d by (simp split: option.split)
qed

lemma load_cong: "map_of (vt_stored st) k = map_of (vt_stored st') k \<Longrightarrow> loadSavedViewState k st = loadSavedViewState k st'"
  by (simp add: loadSavedViewState_def)

lemma kept_stored: "vt_pendingViewStates st = [] \<Longrightarrow> kept_view st k = map_of (vt_stored st) k"
  by (simp add: kept_view_def)

lemma page_hide:
  assumes "saves_ok st"
  shows "map_of (vt_stored (view_event_step (PageHide True) st)) k = kept_view st k"
proof -
  have "kept_view (view_event_step (PageHide True) st) = kept_view st \<and> vt_pendingViewStates (view_event_step (PageHide True) st) = []"
  proof (cases "vt_registered st")
    case True
    then show ?thesis using flush_ok [OF assms] by (simp add: view_event_step_def)
  next
    case False
    then have "vt_pendingViewStates st = []" using assms unfolding saves_ok_def by blast
    then show ?thesis using False by (simp add: view_event_step_def)
  qed
  then show ?thesis using kept_stored [of "view_event_step (PageHide True) st" k] by simp
qed

lemma saved_view_loads:
  assumes "saves_ok st" "kept_view st k = (case w of Some v \<Rightarrow> Some (Some (view_json v)) | None \<Rightarrow> map_of (vt_stored st0) k)"
    "\<And>v. w = Some v \<Longrightarrow> in_range v"
  shows "loadSavedViewState k (view_event_step (PageHide True) st) = (case w of Some v \<Rightarrow> v | None \<Rightarrow> loadSavedViewState k st0)"
proof (cases w)
  case None
  then have "map_of (vt_stored (view_event_step (PageHide True) st)) k = map_of (vt_stored st0) k"
    using page_hide [OF assms(1), of k] assms(2) by simp
  from load_cong [OF this] show ?thesis using None by simp
next
  case (Some v)
  then show ?thesis using page_hide [OF assms(1), of k] assms(2,3) by (simp add: load_view_json)
qed

text \<open>Views are written late, but none is lost: after any sequence of saves and timers, leaving the page stores for every key the
  view that was saved last, and that is what is loaded again; a key that was not saved loads what it did before. What is
  loaded always has a scale within 0.2 and 4, whatever the storage holds.\<close>

theorem saved_view_is_kept:
  assumes "list_all writes_succeed evs" "\<And>v. last_saved k evs = Some v \<Longrightarrow> in_range v"
  shows "loadSavedViewState k (view_store_run (evs @ [PageHide True]) (fresh_store stored)) =
      (case last_saved k evs of Some v \<Rightarrow> v | None \<Rightarrow> loadSavedViewState k (fresh_store stored)) \<and>
    in_range (loadSavedViewState k (view_store_run (evs @ [PageHide True]) (fresh_store stored)))"
proof -
  have k: "kept_view (fresh_store stored) k = map_of (vt_stored (fresh_store stored)) k" by (simp add: kept_view_def fresh_store_def)
  have e: "view_store_run (evs @ [PageHide True]) st = view_event_step (PageHide True) (view_store_run evs st)" for st
    by (simp add: view_store_run_def)
  show ?thesis
    using run_kept [OF store_ok_fresh assms(1), of stored k, unfolded k] assms(2) load_in_range
    unfolding e by (intro conjI saved_view_loads) blast+
qed

lemma saved_view_is_kept_witness:
  "loadSavedViewState ''k'' (view_store_run [SaveView default_view ''k'', SaveView at_origin ''k'', TimerFires True 1, PageHide True] (fresh_store [])) =
   at_origin"
  using saved_view_is_kept [of "[SaveView default_view ''k'', SaveView at_origin ''k'', TimerFires True 1]" "''k''" "[]"]
  by (simp add: writes_succeed_def in_range_def at_origin_def)

end
