(* ===== verification/SignalLogic.thy ===== *)
theory SignalLogic
  imports JsValue "HOL-Library.Multiset" "HOL-Library.List_Lexorder" "HOL-Library.Char_ord"
begin

text \<open>
  \<open>web-ui/src/domain/signalLogic.ts\<close>: the rules that set signals from turnouts and sensors. A document is
  normalised from JSON, references by legacy address are migrated to element ids, and a document is
  validated against the elements of the layout. Legacy addresses are what \<open>Number\<close> makes of the input,
  so positive rationals. The messages of issues are constructors, with the values that are put into
  the text as arguments.
\<close>

subsection \<open>Data\<close>

datatype aspect = AspectRed | AspectYellow | AspectGreen | AspectWhite

definition aspect_text :: "aspect \<Rightarrow> string" where
  "aspect_text a = (case a of AspectRed \<Rightarrow> ''red'' | AspectYellow \<Rightarrow> ''yellow'' | AspectGreen \<Rightarrow> ''green'' | AspectWhite \<Rightarrow> ''white'')"

definition SIGNAL_ASPECTS :: "aspect list" where
  "SIGNAL_ASPECTS = [AspectRed, AspectYellow, AspectGreen, AspectWhite]"

definition getAllowedSignalAspects :: "int \<Rightarrow> aspect list" where
  "getAllowedSignalAspects n =
     (if n \<ge> 4 then [AspectRed, AspectGreen, AspectYellow, AspectWhite]
      else if n \<ge> 3 then [AspectRed, AspectGreen, AspectYellow] else [AspectRed, AspectGreen])"

datatype signal_condition =
    TurnoutCondition (sc_id: string) (sc_turnoutId: int) (sc_channel: "int option") (sc_turnoutAddress: "rat option") (sc_closed: bool)
  | SensorInput (sc_id: string) (sc_sensorId: int) (sc_sensorAddress: "rat option") (sc_active: bool)

record signal_rule =
  sr_id :: string
  sr_conditions :: "signal_condition list"
  sr_stateId :: string
  sr_aspect :: "aspect option"

record signal_group =
  sg_id :: string
  sg_signalId :: int
  sg_signalAddress :: "rat option"
  sg_defaultStateId :: string
  sg_defaultAspect :: "aspect option"
  sg_rules :: "signal_rule list"

record signal_document =
  sd_version :: int
  sd_enabled :: bool
  sd_groups :: "signal_group list"

record known_state =
  kt_id :: string
  kt_label :: string

record known_signal =
  ks_id :: int
  ks_address :: int
  ks_states :: "known_state list option"
  ks_aspect :: "int option"

record known_element =
  ke_id :: int
  ke_address :: int

datatype issue_level = IssueError | IssueWarning

datatype issue_message =
    LegacySignalMissing rat | LegacySignalAmbiguous rat | LegacyAspectUnmapped aspect int
  | LegacyTurnoutMissing rat | LegacyTurnoutAmbiguous rat | LegacySensorMissing rat | LegacySensorAmbiguous rat
  | NoSignalId | RepeatedSignal | SignalDeleted int | InvalidDefaultState int | MissingRuleState int
  | NoRules "int option" | NoConditions | DuplicateRule | RepeatedInput
  | NoSensorId | SensorDeleted int | NoTurnoutId | TurnoutDeleted int

record signal_issue =
  is_level :: issue_level
  is_message :: issue_message
  is_groupId :: "string option"
  is_ruleId :: "string option"
  is_conditionId :: "string option"

definition DEFAULT_SIGNAL_LOGIC_DOCUMENT :: signal_document where
  "DEFAULT_SIGNAL_LOGIC_DOCUMENT = \<lparr>sd_version = 3, sd_enabled = False, sd_groups = []\<rparr>"

subsection \<open>Normalisation\<close>

definition legacy_aspect :: "jsval \<Rightarrow> aspect option" where
  "legacy_aspect v =
     (if v = JStr ''red'' then Some AspectRed else if v = JStr ''yellow'' then Some AspectYellow
      else if v = JStr ''green'' then Some AspectGreen else if v = JStr ''white'' then Some AspectWhite else None)"

definition layoutId :: "jsval \<Rightarrow> int" where
  "layoutId v = (case to_number v of Fin n \<Rightarrow> (if is_whole n \<and> n > 0 \<and> n \<le> 65535 then \<lfloor>n\<rfloor> else 0) | _ \<Rightarrow> 0)"

definition optionalPositiveNumber :: "jsval \<Rightarrow> rat option" where
  "optionalPositiveNumber v = (case to_number v of Fin n \<Rightarrow> (if n > 0 then Some n else None) | _ \<Rightarrow> None)"

definition string_or :: "jsval \<Rightarrow> string \<Rightarrow> string" where
  "string_or v fallback = (case v of JStr s \<Rightarrow> (if length s > 0 then s else fallback) | _ \<Rightarrow> fallback)"

definition array_or_empty :: "jsval \<Rightarrow> jsval list" where
  "array_or_empty v = (case array_of v of Some xs \<Rightarrow> xs | None \<Rightarrow> [])"

definition normalizeSignalCondition :: "jsval \<Rightarrow> nat \<Rightarrow> nat \<Rightarrow> nat \<Rightarrow> signal_condition" where
  "normalizeSignalCondition input groupIndex ruleIndex conditionIndex =
     (let raw = record_or_empty input;
          i = string_or (js_get raw ''id'') (''signal-condition-'' @ show_nat (groupIndex + 1) @ ''-'' @ show_nat (ruleIndex + 1) @ ''-'' @
            show_nat (conditionIndex + 1))
      in if js_get raw ''type'' = JStr ''sensor''
         then SensorInput i (layoutId (js_get raw ''sensorId'')) (optionalPositiveNumber (js_get raw ''sensorAddress''))
                (to_boolean (js_get raw ''active''))
         else TurnoutCondition i (layoutId (js_get raw ''turnoutId''))
                (Some (if js_get raw ''turnoutChannel'' = js_int 1 then 1 else 0))
                (optionalPositiveNumber (js_get raw ''turnoutAddress'')) (to_boolean (js_get raw ''closed'')))"

definition normalizeSignalRule :: "jsval \<Rightarrow> nat \<Rightarrow> nat \<Rightarrow> signal_rule" where
  "normalizeSignalRule input groupIndex ruleIndex =
     (let raw = record_or_empty input
      in \<lparr>sr_id = string_or (js_get raw ''id'') (''signal-rule-'' @ show_nat (groupIndex + 1) @ ''-'' @ show_nat (ruleIndex + 1)),
          sr_conditions = map (\<lambda>(k, c). normalizeSignalCondition c groupIndex ruleIndex k)
            (enumerate 0 (array_or_empty (js_get raw ''conditions''))),
          sr_stateId = string_or (js_get raw ''stateId'') [],
          sr_aspect = legacy_aspect (js_get raw ''aspect'')\<rparr>)"

definition normalizeSignalGroup :: "jsval \<Rightarrow> nat \<Rightarrow> signal_group" where
  "normalizeSignalGroup input groupIndex =
     (let raw = record_or_empty input
      in \<lparr>sg_id = string_or (js_get raw ''id'') (''signal-group-'' @ show_nat (groupIndex + 1)),
          sg_signalId = layoutId (js_get raw ''signalId''),
          sg_signalAddress = optionalPositiveNumber (js_get raw ''signalAddress''),
          sg_defaultStateId = string_or (js_get raw ''defaultStateId'') [],
          sg_defaultAspect = legacy_aspect (js_get raw ''defaultAspect''),
          sg_rules = map (\<lambda>(k, r). normalizeSignalRule r groupIndex k) (enumerate 0 (array_or_empty (js_get raw ''rules'')))\<rparr>)"

definition normalizeSignalLogicDocument :: "jsval \<Rightarrow> signal_document" where
  "normalizeSignalLogicDocument input =
     (if \<not> is_record input then DEFAULT_SIGNAL_LOGIC_DOCUMENT
      else \<lparr>sd_version = 3, sd_enabled = enabled_flag input,
            sd_groups = map (\<lambda>(k, g). normalizeSignalGroup g k) (enumerate 0 (array_or_empty (js_get input ''groups'')))\<rparr>)"

subsection \<open>Migration of legacy references\<close>

definition findStateByLegacyAspect :: "known_signal \<Rightarrow> aspect option \<Rightarrow> known_state option" where
  "findStateByLegacyAspect signal a =
     (case a of
        None \<Rightarrow> None
      | Some v \<Rightarrow>
          let wanted = to_lower (aspect_text v)
          in find (\<lambda>s. to_lower (trim (kt_label s)) = wanted) (case ks_states signal of Some xs \<Rightarrow> xs | None \<Rightarrow> []))"

definition positive_address :: "rat option \<Rightarrow> bool" where
  "positive_address a = ((case a of Some r \<Rightarrow> r | None \<Rightarrow> 0) > 0)"

type_synonym 'a migrated = "'a \<times> nat \<times> signal_issue list"

definition error_at :: "issue_message \<Rightarrow> string \<Rightarrow> string option \<Rightarrow> string option \<Rightarrow> signal_issue" where
  "error_at msg g r c = \<lparr>is_level = IssueError, is_message = msg, is_groupId = Some g, is_ruleId = r, is_conditionId = c\<rparr>"

definition warning_at :: "issue_message \<Rightarrow> string \<Rightarrow> string option \<Rightarrow> string option \<Rightarrow> signal_issue" where
  "warning_at msg g r c = \<lparr>is_level = IssueWarning, is_message = msg, is_groupId = Some g, is_ruleId = r, is_conditionId = c\<rparr>"

definition migrate_group_signal :: "known_signal list \<Rightarrow> signal_group \<Rightarrow> signal_group migrated" where
  "migrate_group_signal signals g =
     (if sg_signalId g = 0 \<and> positive_address (sg_signalAddress g)
      then let matches = filter (\<lambda>s. Some (of_int (ks_address s)) = sg_signalAddress g) signals
           in if length matches = 1 then (g\<lparr>sg_signalId := ks_id (hd matches), sg_signalAddress := None\<rparr>, 1, [])
              else (g, 0, [error_at (if length matches = 0 then LegacySignalMissing (the (sg_signalAddress g))
                                     else LegacySignalAmbiguous (the (sg_signalAddress g))) (sg_id g) None None])
      else (g, 0, []))"

definition migrate_default_state :: "known_signal option \<Rightarrow> signal_group \<Rightarrow> signal_group migrated" where
  "migrate_default_state known g =
     (case known of
        None \<Rightarrow> (g, 0, [])
      | Some signal \<Rightarrow>
          if sg_defaultStateId g = []
          then (case (case findStateByLegacyAspect signal (sg_defaultAspect g) of
                        Some s \<Rightarrow> Some s
                      | None \<Rightarrow> nth_opt (case ks_states signal of Some xs \<Rightarrow> xs | None \<Rightarrow> []) 0) of
                  Some s \<Rightarrow> (g\<lparr>sg_defaultStateId := kt_id s, sg_defaultAspect := None\<rparr>, 1, [])
                | None \<Rightarrow> (g, 0, []))
          else (g, 0, []))"

definition migrate_rule_state :: "known_signal option \<Rightarrow> string \<Rightarrow> signal_rule \<Rightarrow> signal_rule migrated" where
  "migrate_rule_state known groupId r =
     (case known of
        None \<Rightarrow> (r, 0, [])
      | Some signal \<Rightarrow>
          if sr_stateId r = []
          then (case findStateByLegacyAspect signal (sr_aspect r) of
                  Some s \<Rightarrow> (r\<lparr>sr_stateId := kt_id s, sr_aspect := None\<rparr>, 1, [])
                | None \<Rightarrow> (r, 0, case sr_aspect r of
                    Some a \<Rightarrow> [error_at (LegacyAspectUnmapped a (ks_address signal)) groupId (Some (sr_id r)) None]
                  | None \<Rightarrow> []))
          else (r, 0, []))"

definition matching :: "known_element list \<Rightarrow> rat option \<Rightarrow> known_element list" where
  "matching known a = filter (\<lambda>e. Some (of_int (ke_address e)) = a) known"

definition migrate_condition ::
  "known_element list \<Rightarrow> known_element list \<Rightarrow> string \<Rightarrow> string \<Rightarrow> signal_condition \<Rightarrow> signal_condition migrated" where
  "migrate_condition turnouts sensors groupId ruleId c =
     (case c of
        TurnoutCondition i turnoutId channel address shut \<Rightarrow>
          if turnoutId = 0 \<and> positive_address address
          then let matches = matching turnouts address
               in if length matches = 1 then (TurnoutCondition i (ke_id (hd matches)) channel None shut, 1, [])
                  else (c, 0, [error_at (if length matches = 0 then LegacyTurnoutMissing (the address) else LegacyTurnoutAmbiguous (the address))
                                 groupId (Some ruleId) (Some i)])
          else (c, 0, [])
      | SensorInput i sensorId address active \<Rightarrow>
          if sensorId = 0 \<and> positive_address address
          then let matches = matching sensors address
               in if length matches = 1 then (SensorInput i (ke_id (hd matches)) None active, 1, [])
                  else (c, 0, [error_at (if length matches = 0 then LegacySensorMissing (the address) else LegacySensorAmbiguous (the address))
                                 groupId (Some ruleId) (Some i)])
          else (c, 0, []))"

fun migrate_list :: "('a \<Rightarrow> 'a migrated) \<Rightarrow> 'a list \<Rightarrow> 'a list migrated" where
  "migrate_list f [] = ([], 0, [])"
| "migrate_list f (x # xs) =
     (let (y, n, is) = f x; (ys, m, js) = migrate_list f xs in (y # ys, n + m, is @ js))"

definition migrate_rule ::
  "known_signal option \<Rightarrow> known_element list \<Rightarrow> known_element list \<Rightarrow> string \<Rightarrow> signal_rule \<Rightarrow> signal_rule migrated" where
  "migrate_rule known turnouts sensors groupId r =
     (let (r1, n, is) = migrate_rule_state known groupId r;
          (cs, m, js) = migrate_list (migrate_condition turnouts sensors groupId (sr_id r1)) (sr_conditions r1)
      in (r1\<lparr>sr_conditions := cs\<rparr>, n + m, is @ js))"

definition migrate_group :: "known_signal list \<Rightarrow> known_element list \<Rightarrow> known_element list \<Rightarrow> signal_group \<Rightarrow> signal_group migrated" where
  "migrate_group signals turnouts sensors g =
     (let (g1, n1, is1) = migrate_group_signal signals g;
          known = find (\<lambda>s. ks_id s = sg_signalId g1) signals;
          (g2, n2, is2) = migrate_default_state known g1;
          (rs, n3, is3) = migrate_list (migrate_rule known turnouts sensors (sg_id g2)) (sg_rules g2)
      in (g2\<lparr>sg_rules := rs\<rparr>, n1 + n2 + n3, is1 @ is2 @ is3))"

definition migrateSignalLogicReferences ::
  "signal_document \<Rightarrow> known_signal list \<Rightarrow> known_element list \<Rightarrow> known_element list \<Rightarrow> signal_document migrated" where
  "migrateSignalLogicReferences d signals turnouts sensors =
     (let (gs, n, is) = migrate_list (migrate_group signals turnouts sensors) (sd_groups d) in (d\<lparr>sd_groups := gs\<rparr>, n, is))"

subsection \<open>Validation\<close>

definition bool_text :: "bool \<Rightarrow> string" where
  "bool_text b = (if b then ''true'' else ''false'')"

definition channel_or_0 :: "int option \<Rightarrow> int" where
  "channel_or_0 c = (case c of Some n \<Rightarrow> n | None \<Rightarrow> 0)"

definition conditionSignature :: "signal_condition \<Rightarrow> string" where
  "conditionSignature c =
     (case c of
        SensorInput i sensorId address active \<Rightarrow> ''sensor:'' @ show_int sensorId @ '':'' @ bool_text active
      | TurnoutCondition i turnoutId channel address shut \<Rightarrow>
          ''turnout:'' @ show_int turnoutId @ '':'' @ show_int (channel_or_0 channel) @ '':'' @ bool_text shut)"

definition condition_key :: "signal_condition \<Rightarrow> string" where
  "condition_key c =
     (case c of
        SensorInput i sensorId address active \<Rightarrow> ''sensor:'' @ show_int sensorId
      | TurnoutCondition i turnoutId channel address shut \<Rightarrow>
          ''turnout:'' @ show_int turnoutId @ '':'' @ show_int (channel_or_0 channel))"

text \<open>\<open>new Map(xs.map(x => [x.id, x])).get(id)\<close>: of several entries with one key the last one counts.\<close>

definition last_with :: "('a \<Rightarrow> int) \<Rightarrow> 'a list \<Rightarrow> int \<Rightarrow> 'a option" where
  "last_with key xs i = find (\<lambda>x. key x = i) (rev xs)"

fun validate_conditions ::
  "known_element list \<Rightarrow> known_element list \<Rightarrow> string \<Rightarrow> string \<Rightarrow> string list \<Rightarrow> signal_condition list \<Rightarrow> signal_issue list" where
  "validate_conditions turnouts sensors groupId ruleId conditionKeys [] = []"
| "validate_conditions turnouts sensors groupId ruleId conditionKeys (c # cs) =
     (if condition_key c \<in> set conditionKeys then [warning_at RepeatedInput groupId (Some ruleId) (Some (sc_id c))] else []) @
     (case c of
        SensorInput i sensorId address active \<Rightarrow>
          if sensorId = 0 then [error_at NoSensorId groupId (Some ruleId) (Some i)]
          else if length sensors > 0 \<and> last_with ke_id sensors sensorId = None
          then [error_at (SensorDeleted sensorId) groupId (Some ruleId) (Some i)] else []
      | TurnoutCondition i turnoutId channel address shut \<Rightarrow>
          if turnoutId = 0 then [error_at NoTurnoutId groupId (Some ruleId) (Some i)]
          else if length turnouts > 0 \<and> last_with ke_id turnouts turnoutId = None
          then [error_at (TurnoutDeleted turnoutId) groupId (Some ruleId) (Some i)] else []) @
     validate_conditions turnouts sensors groupId ruleId (set_add (condition_key c) conditionKeys) cs"

definition rule_signature :: "signal_rule \<Rightarrow> string" where
  "rule_signature r = join_with ''|'' (sort (map conditionSignature (sr_conditions r)))"

fun validate_rules ::
  "known_element list \<Rightarrow> known_element list \<Rightarrow> string \<Rightarrow> string list \<Rightarrow> signal_rule list \<Rightarrow> signal_issue list" where
  "validate_rules turnouts sensors groupId signatures [] = []"
| "validate_rules turnouts sensors groupId signatures (r # rs) =
     (if length (sr_conditions r) = 0 then [warning_at NoConditions groupId (Some (sr_id r)) None] else []) @
     (if rule_signature r \<noteq> [] \<and> rule_signature r \<in> set signatures then [warning_at DuplicateRule groupId (Some (sr_id r)) None] else []) @
     validate_conditions turnouts sensors groupId (sr_id r) [] (sr_conditions r) @
     validate_rules turnouts sensors groupId (set_add (rule_signature r) signatures) rs"

definition validate_states :: "known_signal option \<Rightarrow> signal_group \<Rightarrow> signal_issue list" where
  "validate_states signal g =
     (case signal of
        None \<Rightarrow> []
      | Some s \<Rightarrow>
          (case ks_states s of
             None \<Rightarrow> []
           | Some states \<Rightarrow>
               let stateIds = map kt_id states in
               (if sg_defaultStateId g = [] \<or> sg_defaultStateId g \<notin> set stateIds
                then [error_at (InvalidDefaultState (ks_address s)) (sg_id g) None None] else []) @
               concat (map (\<lambda>r. if sr_stateId r = [] \<or> sr_stateId r \<notin> set stateIds
                 then [error_at (MissingRuleState (ks_address s)) (sg_id g) (Some (sr_id r)) None] else []) (sg_rules g))))"

fun validate_groups ::
  "known_signal list \<Rightarrow> known_element list \<Rightarrow> known_element list \<Rightarrow> int list \<Rightarrow> signal_group list \<Rightarrow> signal_issue list" where
  "validate_groups signals turnouts sensors usedSignalIds [] = []"
| "validate_groups signals turnouts sensors usedSignalIds (g # gs) =
     (if sg_signalId g = 0 then [error_at NoSignalId (sg_id g) None None] else []) @
     (if sg_signalId g \<noteq> 0 \<and> sg_signalId g \<in> set usedSignalIds then [warning_at RepeatedSignal (sg_id g) None None] else []) @
     (let signal = last_with ks_id signals (sg_signalId g);
          used = (if sg_signalId g \<noteq> 0 then set_add (sg_signalId g) usedSignalIds else usedSignalIds)
      in if length signals > 0 \<and> signal = None
         then error_at (SignalDeleted (sg_signalId g)) (sg_id g) None None # validate_groups signals turnouts sensors used gs
         else
           validate_states signal g @
           (if length (sg_rules g) = 0 then [warning_at (NoRules (map_option ks_address signal)) (sg_id g) None None] else []) @
           validate_rules turnouts sensors (sg_id g) [] (sg_rules g) @
           validate_groups signals turnouts sensors used gs)"

definition validateSignalLogicDocument ::
  "signal_document \<Rightarrow> known_signal list \<Rightarrow> known_element list \<Rightarrow> known_element list \<Rightarrow> signal_issue list" where
  "validateSignalLogicDocument d signals turnouts sensors = validate_groups signals turnouts sensors [] (sd_groups d)"

subsection \<open>Documents as JSON\<close>

definition rat_json :: "rat \<Rightarrow> jsval" where
  "rat_json r = JNum (Fin r)"

definition signal_condition_json :: "signal_condition \<Rightarrow> jsval" where
  "signal_condition_json c =
     (case c of
        SensorInput i n a v \<Rightarrow>
          JObj ([(''id'', JStr i), (''type'', JStr ''sensor''), (''sensorId'', js_int n), (''active'', JBool v)] @
            opt_field ''sensorAddress'' rat_json a)
      | TurnoutCondition i n ch a v \<Rightarrow>
          JObj ([(''id'', JStr i), (''type'', JStr ''turnout''), (''turnoutId'', js_int n), (''closed'', JBool v)] @
            opt_field ''turnoutChannel'' js_int ch @ opt_field ''turnoutAddress'' rat_json a))"

definition signal_rule_json :: "signal_rule \<Rightarrow> jsval" where
  "signal_rule_json r =
     JObj ([(''id'', JStr (sr_id r)), (''stateId'', JStr (sr_stateId r)), (''conditions'', JArr (map signal_condition_json (sr_conditions r)))] @
       opt_field ''aspect'' (JStr \<circ> aspect_text) (sr_aspect r))"

definition signal_group_json :: "signal_group \<Rightarrow> jsval" where
  "signal_group_json g =
     JObj ([(''id'', JStr (sg_id g)), (''signalId'', js_int (sg_signalId g)), (''defaultStateId'', JStr (sg_defaultStateId g)),
         (''rules'', JArr (map signal_rule_json (sg_rules g)))] @
       opt_field ''signalAddress'' rat_json (sg_signalAddress g) @ opt_field ''defaultAspect'' (JStr \<circ> aspect_text) (sg_defaultAspect g))"

definition signal_document_json :: "signal_document \<Rightarrow> jsval" where
  "signal_document_json d =
     JObj [(''version'', js_int (sd_version d)), (''enabled'', JBool (sd_enabled d)), (''groups'', JArr (map signal_group_json (sd_groups d)))]"

subsection \<open>Normal form\<close>

definition id_normal :: "int \<Rightarrow> bool" where
  "id_normal i \<longleftrightarrow> 0 \<le> i \<and> i \<le> 65535"

definition address_normal :: "rat option \<Rightarrow> bool" where
  "address_normal a = (case a of None \<Rightarrow> True | Some r \<Rightarrow> r > 0)"

definition signal_condition_normal :: "signal_condition \<Rightarrow> bool" where
  "signal_condition_normal c \<longleftrightarrow> sc_id c \<noteq> [] \<and>
     (case c of
        SensorInput i n a v \<Rightarrow> id_normal n \<and> address_normal a
      | TurnoutCondition i n ch a v \<Rightarrow> id_normal n \<and> address_normal a \<and> (ch = Some 0 \<or> ch = Some 1))"

definition signal_rule_normal :: "signal_rule \<Rightarrow> bool" where
  "signal_rule_normal r \<longleftrightarrow> sr_id r \<noteq> [] \<and> list_all signal_condition_normal (sr_conditions r)"

definition signal_group_normal :: "signal_group \<Rightarrow> bool" where
  "signal_group_normal g \<longleftrightarrow> sg_id g \<noteq> [] \<and> id_normal (sg_signalId g) \<and> address_normal (sg_signalAddress g) \<and>
     list_all signal_rule_normal (sg_rules g)"

definition signal_document_normal :: "signal_document \<Rightarrow> bool" where
  "signal_document_normal d \<longleftrightarrow> sd_version d = 3 \<and> list_all signal_group_normal (sd_groups d)"

lemma layoutId_normal [simp]: "id_normal (layoutId v)"
proof (cases "to_number v")
  case (Fin n)
  have "\<lfloor>n\<rfloor> \<le> 65535" if "n \<le> 65535" using that floor_mono [of n 65535] by simp
  then show ?thesis using Fin by (simp add: layoutId_def id_normal_def)
qed (simp_all add: layoutId_def id_normal_def)

lemma layoutId_int [simp]: "id_normal i \<Longrightarrow> layoutId (js_int i) = i"
  by (auto simp: layoutId_def id_normal_def)

lemma optional_normal [simp]: "address_normal (optionalPositiveNumber v)"
  by (simp add: optionalPositiveNumber_def address_normal_def split: jsnum.split)

lemma optional_reread [simp]:
  "address_normal a \<Longrightarrow> optionalPositiveNumber (case map_option rat_json a of None \<Rightarrow> JUndef | Some x \<Rightarrow> x) = a"
  by (cases a) (simp_all add: optionalPositiveNumber_def address_normal_def rat_json_def)

lemma aspect_reread [simp]: "legacy_aspect (case map_option (JStr \<circ> aspect_text) a of None \<Rightarrow> JUndef | Some x \<Rightarrow> x) = a"
  by (cases a; cases "the a") (auto simp: legacy_aspect_def aspect_text_def)

lemma string_or_nonempty [simp]: "fb \<noteq> [] \<Longrightarrow> string_or v fb \<noteq> []"
  by (simp add: string_or_def split: jsval.split)

lemma string_or_reread [simp]: "string_or (JStr s) fb = (if s = [] then fb else s)"
  by (simp add: string_or_def)

lemma array_or_empty_JArr [simp]: "array_or_empty (JArr xs) = xs"
  by (simp add: array_or_empty_def array_of_def)

lemma enumerate_all: "(\<And>x k. P (f x k)) \<Longrightarrow> list_all P (map (\<lambda>(k, x). f x k) (enumerate n xs))"
  by (auto simp: list_all_iff)

lemma signal_condition_normalized: "signal_condition_normal (normalizeSignalCondition v g r k)"
  by (auto simp: signal_condition_normal_def normalizeSignalCondition_def Let_def)

lemma signal_rule_normalized: "signal_rule_normal (normalizeSignalRule v g k)"
  by (simp add: signal_rule_normal_def normalizeSignalRule_def Let_def enumerate_all signal_condition_normalized del: list_all_map)

lemma signal_group_normalized: "signal_group_normal (normalizeSignalGroup v k)"
  by (simp add: signal_group_normal_def normalizeSignalGroup_def Let_def enumerate_all signal_rule_normalized del: list_all_map)

lemmas reread_defs = record_or_empty_def is_record_def Let_def jslib js_get_def opt_field_def

lemma signal_condition_reread: "signal_condition_normal c \<Longrightarrow> normalizeSignalCondition (signal_condition_json c) g r k = c"
proof (cases c)
  case (SensorInput i n a v)
  assume c: "signal_condition_normal c"
  then show ?thesis
    using optional_reread [of a] SensorInput
    by (cases a) (simp_all add: signal_condition_json_def signal_condition_normal_def normalizeSignalCondition_def reread_defs)
next
  case (TurnoutCondition i n ch a v)
  assume c: "signal_condition_normal c"
  then show ?thesis
    using optional_reread [of a] TurnoutCondition
    by (cases a) (auto simp: signal_condition_json_def signal_condition_normal_def normalizeSignalCondition_def reread_defs)
qed

lemma signal_rule_reread: "signal_rule_normal r \<Longrightarrow> normalizeSignalRule (signal_rule_json r) g k = r"
  using aspect_reread [of "sr_aspect r"]
  by (cases "sr_aspect r")
    (simp_all add: signal_rule_json_def signal_rule_normal_def normalizeSignalRule_def reread_defs enumerate_reread signal_condition_reread
      list_all_iff)

lemma signal_group_reread: "signal_group_normal g \<Longrightarrow> normalizeSignalGroup (signal_group_json g) k = g"
  using aspect_reread [of "sg_defaultAspect g"] optional_reread [of "sg_signalAddress g"]
  by (cases "sg_defaultAspect g"; cases "sg_signalAddress g")
    (simp_all add: signal_group_json_def signal_group_normal_def normalizeSignalGroup_def reread_defs enumerate_reread signal_rule_reread
      list_all_iff)

interpretation signal_documents: normalizer normalizeSignalLogicDocument signal_document_json signal_document_normal
proof
  show "signal_document_normal (normalizeSignalLogicDocument v)" for v
    by (simp add: signal_document_normal_def normalizeSignalLogicDocument_def DEFAULT_SIGNAL_LOGIC_DOCUMENT_def enumerate_all
        signal_group_normalized del: list_all_map)
  show "normalizeSignalLogicDocument (signal_document_json d) = d" if "signal_document_normal d" for d
    using that
    by (cases d) (simp add: signal_document_normal_def normalizeSignalLogicDocument_def signal_document_json_def is_record_def jslib
        enabled_flag_def enumerate_reread signal_group_reread list_all_iff)
qed

subsection \<open>Migrating again\<close>

text \<open>A migration step that has nothing left to do on its result, and reports what it reported.\<close>

definition settles :: "('a \<Rightarrow> 'a migrated) \<Rightarrow> 'a \<Rightarrow> bool" where
  "settles f x \<longleftrightarrow> (case f x of (y, n, js) \<Rightarrow> f y = (y, 0, js))"

lemma settles_list: "(\<And>x. x \<in> set xs \<Longrightarrow> settles f x) \<Longrightarrow> settles (migrate_list f) xs"
proof (induction xs)
  case (Cons x xs)
  obtain y n js where x: "f x = (y, n, js)" by (cases "f x")
  obtain ys m ks where xs: "migrate_list f xs = (ys, m, ks)" by (cases "migrate_list f xs")
  have "settles f x" "settles (migrate_list f) xs" using Cons by auto
  then show ?case by (simp add: settles_def x xs)
qed (simp add: settles_def)

lemma settles_condition: "settles (migrate_condition ts ss gid rid) c"
  by (cases c) (auto simp: settles_def migrate_condition_def Let_def positive_address_def)

lemma settles_group_signal: "settles (migrate_group_signal signals) g"
  by (auto simp: settles_def migrate_group_signal_def Let_def positive_address_def)

definition named_states :: "known_signal \<Rightarrow> bool" where
  "named_states s \<longleftrightarrow> list_all (\<lambda>t. kt_id t \<noteq> []) (case ks_states s of Some xs \<Rightarrow> xs | None \<Rightarrow> [])"

definition known_named :: "known_signal option \<Rightarrow> bool" where
  "known_named k = (case k of None \<Rightarrow> True | Some s \<Rightarrow> named_states s)"

lemma legacy_state_named: "named_states s \<Longrightarrow> findStateByLegacyAspect s a = Some t \<Longrightarrow> kt_id t \<noteq> []"
  by (auto simp: findStateByLegacyAspect_def named_states_def list_all_iff Let_def split: option.splits dest!: find_SomeD)

lemma first_state_named:
  "named_states s \<Longrightarrow> nth_opt (case ks_states s of Some xs \<Rightarrow> xs | None \<Rightarrow> []) 0 = Some t \<Longrightarrow> kt_id t \<noteq> []"
  by (cases "ks_states s") (auto simp: nth_opt_def named_states_def list_all_length split: if_splits)

lemma settles_default: "known_named k \<Longrightarrow> settles (migrate_default_state k) g"
  by (auto simp: settles_def known_named_def migrate_default_state_def split: option.splits
      dest: legacy_state_named first_state_named)

lemma settles_rule_state: "known_named k \<Longrightarrow> settles (migrate_rule_state k gid) r"
  by (auto simp: settles_def known_named_def migrate_rule_state_def split: option.splits dest: legacy_state_named)

lemma rule_state_conditions:
  "migrate_rule_state k gid (r\<lparr>sr_conditions := cs\<rparr>) = (case migrate_rule_state k gid r of (r', n, js) \<Rightarrow> (r'\<lparr>sr_conditions := cs\<rparr>, n, js))"
  by (simp add: migrate_rule_state_def split: option.split)

lemma rule_state_same:
  "migrate_rule_state k gid r = (r', n, js) \<Longrightarrow> sr_conditions r' = sr_conditions r \<and> sr_id r' = sr_id r"
  by (auto simp: migrate_rule_state_def split: option.splits if_splits)

lemma settles_rule:
  assumes k: "known_named k"
  shows "settles (migrate_rule k ts ss gid) r"
proof -
  obtain r1 n js where r1: "migrate_rule_state k gid r = (r1, n, js)" by (cases "migrate_rule_state k gid r")
  obtain cs m ks where cs: "migrate_list (migrate_condition ts ss gid (sr_id r1)) (sr_conditions r1) = (cs, m, ks)"
    by (cases "migrate_list (migrate_condition ts ss gid (sr_id r1)) (sr_conditions r1)")
  have "migrate_rule_state k gid r1 = (r1, 0, js)" using settles_rule_state [OF k, of gid r] by (simp add: settles_def r1)
  moreover have "migrate_list (migrate_condition ts ss gid (sr_id r1)) cs = (cs, 0, ks)"
    using settles_list [of "sr_conditions r1" "migrate_condition ts ss gid (sr_id r1)"] settles_condition
    by (simp add: settles_def [of "migrate_list _"] cs)
  ultimately show ?thesis by (simp add: settles_def migrate_rule_def r1 cs rule_state_conditions)
qed

lemma group_signal_rules:
  "migrate_group_signal signals (g\<lparr>sg_rules := rs\<rparr>) = (case migrate_group_signal signals g of (g', n, js) \<Rightarrow> (g'\<lparr>sg_rules := rs\<rparr>, n, js))"
  by (simp add: migrate_group_signal_def Let_def)

lemma default_state_rules:
  "migrate_default_state k (g\<lparr>sg_rules := rs\<rparr>) = (case migrate_default_state k g of (g', n, js) \<Rightarrow> (g'\<lparr>sg_rules := rs\<rparr>, n, js))"
  by (simp add: migrate_default_state_def split: option.split)

lemma default_state_form:
  "migrate_default_state k g = (g', n, js) \<Longrightarrow> \<exists>d a. g' = g\<lparr>sg_defaultStateId := d, sg_defaultAspect := a\<rparr>"
  by (auto simp: migrate_default_state_def split: option.splits if_splits)
    (metis signal_group.surjective signal_group.update_convs(4,5))+

lemma group_signal_default:
  "migrate_group_signal signals (g\<lparr>sg_defaultStateId := d, sg_defaultAspect := a\<rparr>) =
     (case migrate_group_signal signals g of (g', n, js) \<Rightarrow> (g'\<lparr>sg_defaultStateId := d, sg_defaultAspect := a\<rparr>, n, js))"
  by (simp add: migrate_group_signal_def Let_def)

lemma settles_group:
  assumes k: "list_all named_states signals"
  shows "settles (migrate_group signals ts ss) g"
proof -
  obtain g1 n1 j1 where g1: "migrate_group_signal signals g = (g1, n1, j1)" by (cases "migrate_group_signal signals g")
  define known where "known = find (\<lambda>s. ks_id s = sg_signalId g1) signals"
  have kn: "known_named known"
    using k by (auto simp: known_def known_named_def list_all_iff split: option.split dest: find_SomeD)
  obtain g2 n2 j2 where g2: "migrate_default_state known g1 = (g2, n2, j2)" by (cases "migrate_default_state known g1")
  obtain rs n3 j3 where rs: "migrate_list (migrate_rule known ts ss (sg_id g2)) (sg_rules g2) = (rs, n3, j3)"
    by (cases "migrate_list (migrate_rule known ts ss (sg_id g2)) (sg_rules g2)")
  have s1: "migrate_group_signal signals g1 = (g1, 0, j1)" using settles_group_signal [of signals g] by (simp add: settles_def g1)
  obtain d a where da: "g2 = g1\<lparr>sg_defaultStateId := d, sg_defaultAspect := a\<rparr>" using default_state_form [OF g2] by blast
  have s2: "migrate_group_signal signals g2 = (g2, 0, j1)" using group_signal_default [where signals = signals and g = g1 and d = d and a = a] by (simp add: da s1)
  have s3: "migrate_default_state known g2 = (g2, 0, j2)" using settles_default [OF kn, of g1] by (simp add: settles_def g2)
  have s4: "migrate_list (migrate_rule known ts ss (sg_id g2)) rs = (rs, 0, j3)"
    using settles_list [of "sg_rules g2" "migrate_rule known ts ss (sg_id g2)"] settles_rule [OF kn]
    by (simp add: settles_def [of "migrate_list _"] rs)
  have i: "sg_signalId g2 = sg_signalId g1" by (simp add: da)
  have f: "migrate_group signals ts ss g = (g2\<lparr>sg_rules := rs\<rparr>, n1 + n2 + n3, j1 @ j2 @ j3)"
    unfolding migrate_group_def by (simp add: g1 g2 rs known_def [symmetric])
  have "migrate_group signals ts ss (g2\<lparr>sg_rules := rs\<rparr>) = (g2\<lparr>sg_rules := rs\<rparr>, 0, j1 @ j2 @ j3)"
    unfolding migrate_group_def by (simp add: group_signal_rules s2 i known_def [symmetric] default_state_rules s3 s4)
  then show ?thesis by (simp add: settles_def f)
qed

text \<open>What a migrated reference stands for, written over the document before and after it. A reference by
  address alone stands for the one element that has this address, and stays when there is none or several.\<close>

definition address_meant :: "(int \<times> int) list \<Rightarrow> int \<Rightarrow> rat option \<Rightarrow> int \<Rightarrow> rat option \<Rightarrow> bool" where
  "address_meant refs i a i' a' \<longleftrightarrow>
     (case (if i = 0 \<and> positive_address a then map fst (filter (\<lambda>(k, b). Some (of_int b) = a) refs) else []) of
        [k] \<Rightarrow> i' = k \<and> a' = None
      | _ \<Rightarrow> i' = i \<and> a' = a)"

definition element_refs :: "known_element list \<Rightarrow> (int \<times> int) list" where
  "element_refs es = map (\<lambda>e. (ke_id e, ke_address e)) es"

definition signal_refs :: "known_signal list \<Rightarrow> (int \<times> int) list" where
  "signal_refs signals = map (\<lambda>s. (ks_id s, ks_address s)) signals"

definition condition_meant :: "known_element list \<Rightarrow> known_element list \<Rightarrow> signal_condition \<Rightarrow> signal_condition \<Rightarrow> bool" where
  "condition_meant turnouts sensors c c' \<longleftrightarrow>
     (case (c, c') of
        (TurnoutCondition i n ch a v, TurnoutCondition i' n' ch' a' v') \<Rightarrow>
          i' = i \<and> ch' = ch \<and> v' = v \<and> address_meant (element_refs turnouts) n a n' a'
      | (SensorInput i n a v, SensorInput i' n' a' v') \<Rightarrow> i' = i \<and> v' = v \<and> address_meant (element_refs sensors) n a n' a'
      | _ \<Rightarrow> False)"

text \<open>An aspect stands for the first state of the signal that is labelled with it, up to case and space around it; a default state that
  no label gives is the first state of the signal.\<close>

definition states_of :: "known_signal option \<Rightarrow> known_state list" where
  "states_of known = (case known of Some s \<Rightarrow> (case ks_states s of Some ts \<Rightarrow> ts | None \<Rightarrow> []) | None \<Rightarrow> [])"

definition state_of_aspect :: "known_signal option \<Rightarrow> aspect option \<Rightarrow> known_state option" where
  "state_of_aspect known a = find (\<lambda>t. map_option aspect_text a = Some (to_lower (trim (kt_label t)))) (states_of known)"

definition state_meant :: "known_state option \<Rightarrow> string \<Rightarrow> aspect option \<Rightarrow> string \<Rightarrow> aspect option \<Rightarrow> bool" where
  "state_meant t i a i' a' \<longleftrightarrow>
     (case (if i = [] then t else None) of Some x \<Rightarrow> i' = kt_id x \<and> a' = None | None \<Rightarrow> i' = i \<and> a' = a)"

definition rule_meant ::
  "known_signal option \<Rightarrow> known_element list \<Rightarrow> known_element list \<Rightarrow> signal_rule \<Rightarrow> signal_rule \<Rightarrow> bool" where
  "rule_meant known turnouts sensors r r' \<longleftrightarrow> sr_id r' = sr_id r \<and>
     state_meant (state_of_aspect known (sr_aspect r)) (sr_stateId r) (sr_aspect r) (sr_stateId r') (sr_aspect r') \<and>
     list_all2 (condition_meant turnouts sensors) (sr_conditions r) (sr_conditions r')"

definition signal_of :: "known_signal list \<Rightarrow> signal_group \<Rightarrow> known_signal option" where
  "signal_of signals g = find (\<lambda>s. ks_id s = sg_signalId g) signals"

definition group_meant ::
  "known_signal list \<Rightarrow> known_element list \<Rightarrow> known_element list \<Rightarrow> signal_group \<Rightarrow> signal_group \<Rightarrow> bool" where
  "group_meant signals turnouts sensors g g' \<longleftrightarrow> sg_id g' = sg_id g \<and>
     address_meant (signal_refs signals) (sg_signalId g) (sg_signalAddress g) (sg_signalId g') (sg_signalAddress g') \<and>
     state_meant (case state_of_aspect (signal_of signals g') (sg_defaultAspect g) of
                    Some t \<Rightarrow> Some t | None \<Rightarrow> nth_opt (states_of (signal_of signals g')) 0)
       (sg_defaultStateId g) (sg_defaultAspect g) (sg_defaultStateId g') (sg_defaultAspect g') \<and>
     list_all2 (rule_meant (signal_of signals g') turnouts sensors) (sg_rules g) (sg_rules g')"

text \<open>What is still unresolved, which is what is reported: an address alone, and the aspect of a rule without a state
  when the signal of the group is known.\<close>

definition condition_unresolved :: "signal_condition \<Rightarrow> bool" where
  "condition_unresolved c =
     (case c of TurnoutCondition i n ch a v \<Rightarrow> n = 0 \<and> positive_address a | SensorInput i n a v \<Rightarrow> n = 0 \<and> positive_address a)"

definition rule_resolved :: "known_signal option \<Rightarrow> signal_rule \<Rightarrow> bool" where
  "rule_resolved known r \<longleftrightarrow> (known = None \<or> sr_stateId r \<noteq> [] \<or> sr_aspect r = None) \<and>
     list_all (\<lambda>c. \<not> condition_unresolved c) (sr_conditions r)"

definition group_resolved :: "known_signal list \<Rightarrow> signal_group \<Rightarrow> bool" where
  "group_resolved signals g \<longleftrightarrow> \<not> (sg_signalId g = 0 \<and> positive_address (sg_signalAddress g)) \<and>
     list_all (rule_resolved (signal_of signals g)) (sg_rules g)"

lemma migrate_list_meant:
  assumes "\<And>x y n js. x \<in> set xs \<Longrightarrow> f x = (y, n, js) \<Longrightarrow> R x y \<and> (js = [] \<longleftrightarrow> P y)" and "migrate_list f xs = (ys, n, js)"
  shows "list_all2 R xs ys \<and> (js = [] \<longleftrightarrow> list_all P ys)"
  using assms
proof (induction xs arbitrary: ys n js)
  case (Cons x xs)
  obtain y m ks1 where y: "f x = (y, m, ks1)" by (cases "f x")
  obtain zs k ks where zs: "migrate_list f xs = (zs, k, ks)" by (cases "migrate_list f xs")
  have ys: "ys = y # zs" "js = ks1 @ ks" using Cons.prems(2) by (simp_all add: y zs)
  have "list_all2 R xs zs \<and> (ks = [] \<longleftrightarrow> list_all P zs)"
    by (rule Cons.IH [OF _ zs], rule Cons.prems(1)) auto
  then show ?case using Cons.prems(1) [OF _ y] by (simp add: ys)
qed simp

lemma address_meant_sole:
  assumes "i = 0 \<and> positive_address a"
  shows "address_meant (map (\<lambda>e. (f e, g e)) es) i a i' a' \<longleftrightarrow>
    (let ms = filter (\<lambda>e. Some (of_int (g e)) = a) es
     in if length ms = 1 then i' = f (hd ms) \<and> a' = None else i' = i \<and> a' = a)"
  using assms by (auto simp: address_meant_def filter_map comp_def Let_def split: list.splits)

lemma address_meant_other: "\<not> (i = 0 \<and> positive_address a) \<Longrightarrow> address_meant refs i a i a"
  unfolding address_meant_def by (simp only: if_False list.case simp_thms)

lemma condition_migrated:
  "migrate_condition ts ss gid rid c = (c', n, js) \<Longrightarrow> condition_meant ts ss c c' \<and> (js = [] \<longleftrightarrow> \<not> condition_unresolved c')"
  by (cases c) (auto simp: migrate_condition_def condition_meant_def condition_unresolved_def element_refs_def address_meant_sole
      address_meant_other matching_def Let_def positive_address_def [of None] split: if_splits)

lemma aspect_text_lower: "to_lower (aspect_text a) = aspect_text a"
  by (cases a) (simp_all only:, code_simp+)

lemma find_no_match: "find (\<lambda>x. False) xs = None"
  by (induction xs) auto

lemma legacy_state_conv: "findStateByLegacyAspect s a = state_of_aspect (Some s) a"
  by (cases a) (simp_all add: findStateByLegacyAspect_def state_of_aspect_def states_of_def aspect_text_lower find_no_match eq_commute
      cong: option.case_cong)

lemma rule_state_migrated:
  assumes "known_named k" and "migrate_rule_state k gid r = (r', n, js)"
  shows "state_meant (state_of_aspect k (sr_aspect r)) (sr_stateId r) (sr_aspect r) (sr_stateId r') (sr_aspect r') \<and>
    (js = [] \<longleftrightarrow> k = None \<or> sr_stateId r' \<noteq> [] \<or> sr_aspect r' = None)"
  using assms
  by (auto simp: migrate_rule_state_def state_meant_def known_named_def legacy_state_conv [symmetric] state_of_aspect_def [of None] states_of_def
      split: option.splits if_splits dest: legacy_state_named)

lemma rule_migrated:
  assumes k: "known_named k" and r: "migrate_rule k ts ss gid r = (r', n, js)"
  shows "rule_meant k ts ss r r' \<and> (js = [] \<longleftrightarrow> rule_resolved k r')"
proof -
  obtain r1 m ks1 where r1: "migrate_rule_state k gid r = (r1, m, ks1)" by (cases "migrate_rule_state k gid r")
  obtain cs l ks where cs: "migrate_list (migrate_condition ts ss gid (sr_id r1)) (sr_conditions r1) = (cs, l, ks)"
    by (cases "migrate_list (migrate_condition ts ss gid (sr_id r1)) (sr_conditions r1)")
  have r': "r' = r1\<lparr>sr_conditions := cs\<rparr>" "js = ks1 @ ks" using r by (simp_all add: migrate_rule_def r1 cs)
  from migrate_list_meant [OF condition_migrated cs] have
    "list_all2 (condition_meant ts ss) (sr_conditions r1) cs \<and> (ks = [] \<longleftrightarrow> list_all (\<lambda>c. \<not> condition_unresolved c) cs)" .
  then show ?thesis
    using rule_state_migrated [OF k r1] rule_state_same [OF r1] by (auto simp: rule_meant_def rule_resolved_def r')
qed

lemma group_signal_migrated:
  "migrate_group_signal signals g = (g', n, js) \<Longrightarrow>
     address_meant (signal_refs signals) (sg_signalId g) (sg_signalAddress g) (sg_signalId g') (sg_signalAddress g') \<and>
     (js = [] \<longleftrightarrow> \<not> (sg_signalId g' = 0 \<and> positive_address (sg_signalAddress g'))) \<and>
     sg_id g' = sg_id g \<and> sg_defaultStateId g' = sg_defaultStateId g \<and> sg_defaultAspect g' = sg_defaultAspect g \<and> sg_rules g' = sg_rules g"
  by (auto simp: migrate_group_signal_def signal_refs_def address_meant_sole address_meant_other Let_def positive_address_def [of None]
      split: if_splits)

lemma default_state_migrated:
  "migrate_default_state k g = (g', n, js) \<Longrightarrow> js = [] \<and> state_meant (case state_of_aspect k (sg_defaultAspect g) of
       Some t \<Rightarrow> Some t | None \<Rightarrow> nth_opt (states_of k) 0)
     (sg_defaultStateId g) (sg_defaultAspect g) (sg_defaultStateId g') (sg_defaultAspect g')"
  by (cases k) (auto simp: migrate_default_state_def state_meant_def legacy_state_conv state_of_aspect_def [of None] states_of_def nth_opt_def
      split: option.splits if_splits)

lemma group_migrated:
  assumes k: "list_all named_states signals" and g: "migrate_group signals ts ss g = (g', n, js)"
  shows "group_meant signals ts ss g g' \<and> (js = [] \<longleftrightarrow> group_resolved signals g')"
proof -
  obtain g1 n1 j1 where g1: "migrate_group_signal signals g = (g1, n1, j1)" by (cases "migrate_group_signal signals g")
  define known where "known = signal_of signals g1"
  have kn: "known_named known"
    using k by (auto simp: known_def signal_of_def known_named_def list_all_iff split: option.split dest: find_SomeD)
  obtain g2 n2 j2 where g2: "migrate_default_state known g1 = (g2, n2, j2)" by (cases "migrate_default_state known g1")
  obtain rs n3 j3 where rs: "migrate_list (migrate_rule known ts ss (sg_id g2)) (sg_rules g2) = (rs, n3, j3)"
    by (cases "migrate_list (migrate_rule known ts ss (sg_id g2)) (sg_rules g2)")
  have g': "g' = g2\<lparr>sg_rules := rs\<rparr>" "js = j1 @ j2 @ j3"
    using g by (simp_all add: migrate_group_def g1 g2 rs known_def [unfolded signal_of_def, symmetric])
  obtain d a where da: "g2 = g1\<lparr>sg_defaultStateId := d, sg_defaultAspect := a\<rparr>" using default_state_form [OF g2] by blast
  have i: "signal_of signals g' = known" by (simp add: known_def signal_of_def g' da)
  from migrate_list_meant [OF rule_migrated [OF kn] rs] have
    r: "list_all2 (rule_meant known ts ss) (sg_rules g2) rs \<and> (j3 = [] \<longleftrightarrow> list_all (rule_resolved known) rs)" .
  show ?thesis
    using group_signal_migrated [OF g1] default_state_migrated [OF g2] r
    unfolding group_meant_def group_resolved_def i by (simp add: g' da)
qed

subsection \<open>What validation accepts\<close>

definition no_errors :: "signal_issue list \<Rightarrow> bool" where
  "no_errors js = list_all (\<lambda>j. is_level j = IssueWarning) js"

lemma no_errors_simps [simp]:
  "no_errors []" "no_errors (js @ ks) = (no_errors js \<and> no_errors ks)" "\<not> no_errors (error_at m g r c # js)"
  "no_errors [warning_at m g r c]" "no_errors (if b then js else ks) = (if b then no_errors js else no_errors ks)"
  by (simp_all add: no_errors_def error_at_def warning_at_def)

lemma last_with_None: "last_with key xs i = None \<longleftrightarrow> i \<notin> key ` set xs"
  by (auto simp: last_with_def find_None_iff)

text \<open>An element id that can be referred to: not 0, and one of the known elements when any are known.\<close>

definition refers_to :: "int \<Rightarrow> int set \<Rightarrow> bool" where
  "refers_to i known \<longleftrightarrow> i \<noteq> 0 \<and> (known = {} \<or> i \<in> known)"

definition condition_valid :: "known_element list \<Rightarrow> known_element list \<Rightarrow> signal_condition \<Rightarrow> bool" where
  "condition_valid turnouts sensors c =
     (case c of
        TurnoutCondition i n ch a v \<Rightarrow> refers_to n (ke_id ` set turnouts)
      | SensorInput i n a v \<Rightarrow> refers_to n (ke_id ` set sensors))"

definition states_valid :: "known_signal option \<Rightarrow> signal_group \<Rightarrow> bool" where
  "states_valid signal g =
     (case signal of
        None \<Rightarrow> True
      | Some s \<Rightarrow>
          (case ks_states s of
             None \<Rightarrow> True
           | Some states \<Rightarrow> list_all (\<lambda>i. i \<noteq> [] \<and> i \<in> kt_id ` set states) (sg_defaultStateId g # map sr_stateId (sg_rules g))))"

definition group_valid :: "known_signal list \<Rightarrow> known_element list \<Rightarrow> known_element list \<Rightarrow> signal_group \<Rightarrow> bool" where
  "group_valid signals turnouts sensors g \<longleftrightarrow>
     refers_to (sg_signalId g) (ks_id ` set signals) \<and> states_valid (last_with ks_id signals (sg_signalId g)) g \<and>
     list_all (\<lambda>r. list_all (condition_valid turnouts sensors) (sr_conditions r)) (sg_rules g)"

lemma validate_conditions_valid:
  "no_errors (validate_conditions ts ss gid rid ks cs) = list_all (condition_valid ts ss) cs"
proof (induction cs arbitrary: ks)
  case (Cons c cs)
  then show ?case
    by (cases c) (simp_all add: condition_valid_def refers_to_def last_with_None)
qed simp

lemma validate_rules_valid:
  "no_errors (validate_rules ts ss gid sigs rs) = list_all (\<lambda>r. list_all (condition_valid ts ss) (sr_conditions r)) rs"
  by (induction rs arbitrary: sigs) (simp_all add: validate_conditions_valid)

lemma no_errors_concat: "no_errors (concat jss) = list_all no_errors jss"
  by (induction jss) simp_all

lemma validate_states_valid: "no_errors (validate_states signal g) = states_valid signal g"
  by (simp add: validate_states_def states_valid_def Let_def no_errors_concat split: option.split)

lemma validate_groups_valid:
  "no_errors (validate_groups signals ts ss used gs) = list_all (group_valid signals ts ss) gs"
proof (induction gs arbitrary: used)
  case (Cons g gs)
  have "signals \<noteq> [] \<and> last_with ks_id signals (sg_signalId g) = None \<longleftrightarrow>
      \<not> (ks_id ` set signals = {} \<or> sg_signalId g \<in> ks_id ` set signals)"
    by (auto simp: last_with_None)
  then show ?case
    by (simp add: Cons.IH Let_def validate_states_valid validate_rules_valid group_valid_def refers_to_def)
qed simp

subsection \<open>Rules with the same conditions\<close>

datatype condition_meaning = TurnoutMeaning int int bool | SensorMeaning int bool

definition meaning :: "signal_condition \<Rightarrow> condition_meaning" where
  "meaning c =
     (case c of TurnoutCondition i n ch a v \<Rightarrow> TurnoutMeaning n (channel_or_0 ch) v | SensorInput i n a v \<Rightarrow> SensorMeaning n v)"

lemma show_int_no_colon: "CHR '':'' \<notin> set (show_int i)" and show_int_no_bar: "CHR ''|'' \<notin> set (show_int i)"
  using show_int_chars [of "CHR '':''" i] show_int_chars [of "CHR ''|''" i] by (auto simp: is_digit_def)

lemma bool_text_inj: "bool_text a = bool_text b \<longleftrightarrow> a = b"
  by (simp add: bool_text_def)

lemma show_int_colon: "show_int i @ CHR '':'' # s = show_int j @ CHR '':'' # t \<longleftrightarrow> i = j \<and> s = t"
  using append_sep_inj [of "CHR '':''" "show_int i" "show_int j" s t] show_int_no_colon show_int_inj by auto

definition meaning_text :: "condition_meaning \<Rightarrow> string" where
  "meaning_text m =
     (case m of
        SensorMeaning n v \<Rightarrow> ''sensor:'' @ show_int n @ '':'' @ bool_text v
      | TurnoutMeaning n ch v \<Rightarrow> ''turnout:'' @ show_int n @ '':'' @ show_int ch @ '':'' @ bool_text v)"

lemma meaning_text_inj: "inj meaning_text"
proof (rule injI)
  fix a b
  show "meaning_text a = meaning_text b \<Longrightarrow> a = b"
    by (cases a; cases b) (simp_all add: meaning_text_def show_int_colon bool_text_inj)
qed

lemma conditionSignature_meaning: "conditionSignature = meaning_text \<circ> meaning"
  by (rule ext) (simp add: conditionSignature_def meaning_def meaning_text_def split: signal_condition.split)

lemma conditionSignature_ok: "CHR ''|'' \<notin> set (conditionSignature c) \<and> conditionSignature c \<noteq> []"
  using show_int_no_bar by (cases c) (auto simp: conditionSignature_def bool_text_def)

lemma image_mset_inj: "inj f \<Longrightarrow> image_mset f M = image_mset f N \<longleftrightarrow> M = N"
proof
  assume f: "inj f" and "image_mset f M = image_mset f N"
  then have "image_mset (inv f) (image_mset f M) = image_mset (inv f) (image_mset f N)" by simp
  then show "M = N" using f by (simp add: multiset.map_comp del: image_mset.compositionality)
qed simp

lemma map_signature_mset:
  "mset (map conditionSignature cs) = mset (map conditionSignature cs') \<longleftrightarrow> mset (map meaning cs) = mset (map meaning cs')"
proof -
  have "mset (map conditionSignature xs) = image_mset meaning_text (mset (map meaning xs))" for xs
    by (simp add: conditionSignature_meaning multiset.map_comp)
  then show ?thesis by (simp only: image_mset_inj [OF meaning_text_inj])
qed

definition same_conditions :: "signal_rule \<Rightarrow> signal_rule \<Rightarrow> bool" where
  "same_conditions r r' \<longleftrightarrow> mset (map meaning (sr_conditions r)) = mset (map meaning (sr_conditions r'))"

lemma sort_mset: "sort xs = sort ys \<longleftrightarrow> mset xs = mset ys"
  by (metis mset_sort properties_for_sort sorted_sort)

lemma rule_signature_same: "rule_signature r = rule_signature r' \<longleftrightarrow> same_conditions r r'"
proof -
  have ok: "CHR ''|'' \<notin> set x \<and> x \<noteq> []" if "x \<in> set (sort (map conditionSignature (sr_conditions q)))" for x q
    using that conditionSignature_ok by auto
  have "rule_signature r = rule_signature r' \<longleftrightarrow>
      sort (map conditionSignature (sr_conditions r)) = sort (map conditionSignature (sr_conditions r'))"
    unfolding rule_signature_def
  proof
    assume "join_with ''|'' (sort (map conditionSignature (sr_conditions r))) = join_with ''|'' (sort (map conditionSignature (sr_conditions r')))"
    then show "sort (map conditionSignature (sr_conditions r)) = sort (map conditionSignature (sr_conditions r'))"
      by (rule join_char_inj [rotated 2]) (erule ok)+
  qed simp
  then show ?thesis by (simp only: sort_mset map_signature_mset same_conditions_def)
qed

lemma sort_Nil: "sort xs = [] \<longleftrightarrow> xs = []"
  by (metis mset_sort mset_zero_iff)

lemma rule_signature_empty: "rule_signature r = [] \<longleftrightarrow> sr_conditions r = []"
proof -
  have "rule_signature r \<noteq> []" if ne: "sr_conditions r \<noteq> []"
  proof -
    obtain x xs where x: "sort (map conditionSignature (sr_conditions r)) = x # xs"
      using ne sort_Nil [of "map conditionSignature (sr_conditions r)"]
      by (cases "sort (map conditionSignature (sr_conditions r))") auto
    then have "x \<in> set (map conditionSignature (sr_conditions r))" by (metis list.set_intros(1) set_sort)
    then have "x \<noteq> []" using conditionSignature_ok by auto
    then show ?thesis by (simp add: rule_signature_def x join_with_Cons)
  qed
  then show ?thesis by (auto simp: rule_signature_def)
qed

text \<open>The rules that repeat an earlier one.\<close>

fun repeated_rules :: "signal_rule list \<Rightarrow> signal_rule list \<Rightarrow> signal_rule list" where
  "repeated_rules earlier [] = []"
| "repeated_rules earlier (r # rs) =
     (if sr_conditions r \<noteq> [] \<and> list_ex (same_conditions r) earlier then [r] else []) @ repeated_rules (r # earlier) rs"

definition duplicate_warning :: "signal_issue \<Rightarrow> bool" where
  "duplicate_warning j \<longleftrightarrow> is_message j = DuplicateRule"

lemma duplicate_warning_simps [simp]:
  "duplicate_warning (error_at m g r c) \<longleftrightarrow> m = DuplicateRule" "duplicate_warning (warning_at m g r c) \<longleftrightarrow> m = DuplicateRule"
  by (simp_all add: duplicate_warning_def error_at_def warning_at_def)

lemma conditions_not_duplicate: "filter duplicate_warning (validate_conditions ts ss gid rid ks cs) = []"
proof (induction cs arbitrary: ks)
  case (Cons c cs)
  then show ?case by (cases c) simp_all
qed simp

lemma validate_rules_duplicates:
  "set sigs = rule_signature ` set earlier \<Longrightarrow>
   filter duplicate_warning (validate_rules ts ss gid sigs rs) =
     map (\<lambda>r. warning_at DuplicateRule gid (Some (sr_id r)) None) (repeated_rules earlier rs)"
proof (induction rs arbitrary: sigs earlier)
  case (Cons r rs)
  have "rule_signature r \<in> set sigs \<longleftrightarrow> list_ex (same_conditions r) earlier"
    using Cons.prems by (auto simp: list_ex_iff rule_signature_same)
  then show ?case
    using Cons.IH [of "set_add (rule_signature r) sigs" "r # earlier"] Cons.prems
    by (simp add: conditions_not_duplicate rule_signature_empty)
qed simp

subsection \<open>Properties\<close>

definition sample_signal :: known_signal where
  "sample_signal = \<lparr>ks_id = 7, ks_address = 20, ks_states = Some [\<lparr>kt_id = ''stop'', kt_label = '' Red ''\<rparr>, \<lparr>kt_id = ''go'', kt_label = ''green''\<rparr>],
     ks_aspect = None\<rparr>"

definition sample_rule :: signal_rule where
  "sample_rule = \<lparr>sr_id = ''r'', sr_conditions = [TurnoutCondition ''c'' 0 (Some 0) (Some 5) True], sr_stateId = [], sr_aspect = Some AspectGreen\<rparr>"

definition sample_group :: signal_group where
  "sample_group = \<lparr>sg_id = ''g'', sg_signalId = 0, sg_signalAddress = Some 20, sg_defaultStateId = [], sg_defaultAspect = Some AspectRed,
     sg_rules = [sample_rule]\<rparr>"

definition sample_document :: signal_document where
  "sample_document = \<lparr>sd_version = 3, sd_enabled = True, sd_groups = [sample_group]\<rparr>"

lemmas sample_signal_defs = sample_signal_def sample_rule_def sample_group_def sample_document_def

text \<open>C12. Whatever JSON signal rules are read from, the document is in normal form (version 3, ids that are not empty,
  element ids in range, positive addresses); a document in normal form is read back from its own JSON unchanged, and
  the normal forms are exactly what reading gives.\<close>

theorem signal_document_roundtrip:
  "signal_document_normal (normalizeSignalLogicDocument v) \<and>
   normalizeSignalLogicDocument (signal_document_json (normalizeSignalLogicDocument v)) = normalizeSignalLogicDocument v \<and>
   (signal_document_normal d \<longleftrightarrow> (\<exists>w. normalizeSignalLogicDocument w = d))"
  using signal_documents.normalize_normal signal_documents.normalize_again signal_documents.normal_iff by blast

text \<open>C13. When the states of the known signals have ids that are not empty, migration resolves each legacy reference to what it
  stands for and changes nothing else: a group, turnout condition or sensor condition that names an element by address alone refers to the one element
  with this address, and stays when there is none or several; an empty default state becomes the first state labelled with the default aspect or else
  the first state of the signal, the empty state of a rule the first state labelled with its aspect, and both stay when the signal has
  no such state or is not known. No issue is reported exactly when the result names no element by
  address alone and no rule of a group whose signal is known has an aspect without a state. Migrating the result changes and counts nothing and
  reports the same issues.\<close>

theorem signal_migration_complete:
  assumes "list_all named_states signals"
  shows "case migrateSignalLogicReferences d signals turnouts sensors of
    (d', n, js) \<Rightarrow> sd_version d' = sd_version d \<and> sd_enabled d' = sd_enabled d \<and>
      list_all2 (group_meant signals turnouts sensors) (sd_groups d) (sd_groups d') \<and>
      (js = [] \<longleftrightarrow> list_all (group_resolved signals) (sd_groups d')) \<and>
      migrateSignalLogicReferences d' signals turnouts sensors = (d', 0, js)"
proof -
  obtain gs n js where m: "migrate_list (migrate_group signals turnouts sensors) (sd_groups d) = (gs, n, js)"
    by (cases "migrate_list (migrate_group signals turnouts sensors) (sd_groups d)")
  have "settles (migrate_list (migrate_group signals turnouts sensors)) (sd_groups d)"
    by (rule settles_list) (rule settles_group [OF assms])
  then have "migrate_list (migrate_group signals turnouts sensors) gs = (gs, 0, js)" by (simp add: settles_def m)
  with migrate_list_meant [OF group_migrated [OF assms] m] show ?thesis
    by (simp add: migrateSignalLogicReferences_def m)
qed

theorem signal_migration_complete_witness:
  "\<exists>d'. migrateSignalLogicReferences sample_document [sample_signal] [\<lparr>ke_id = 3, ke_address = 5\<rparr>] [] = (d', 4, []) \<and>
     migrateSignalLogicReferences d' [sample_signal] [\<lparr>ke_id = 3, ke_address = 5\<rparr>] [] = (d', 0, []) \<and>
     list_all (group_resolved [sample_signal]) (sd_groups d') \<and> map sg_signalId (sd_groups d') = [7]"
proof -
  have lower: "to_lower (trim '' Red '') = ''red''" "to_lower (trim ''green'') = ''green''" "to_lower ''red'' = ''red''" "to_lower ''green'' = ''green''"
    by code_simp+
  have n: "list_all named_states [sample_signal]" by (simp add: named_states_def sample_signal_def)
  have "\<exists>d'. migrateSignalLogicReferences sample_document [sample_signal] [\<lparr>ke_id = 3, ke_address = 5\<rparr>] [] = (d', 4, []) \<and>
      map sg_signalId (sd_groups d') = [7]"
    by (simp add: migrateSignalLogicReferences_def migrate_group_def migrate_group_signal_def migrate_default_state_def migrate_rule_def
        migrate_rule_state_def migrate_condition_def matching_def findStateByLegacyAspect_def positive_address_def Let_def aspect_text_def
        sample_signal_defs lower)
  then show ?thesis
    using signal_migration_complete [OF n, where d = sample_document and turnouts = "[\<lparr>ke_id = 3, ke_address = 5\<rparr>]" and sensors = "[]"]
    by auto
qed

text \<open>C14. Validation reports no error exactly for the documents whose groups are valid: their signal, turnouts and sensors have
  ids other than 0 that are known (when any element of that kind is known), and the default state and the state of every rule
  are states of the signal, when the signal has states.\<close>

theorem validation_accepts:
  "no_errors (validateSignalLogicDocument d signals turnouts sensors) \<longleftrightarrow> list_all (group_valid signals turnouts sensors) (sd_groups d)"
  by (simp add: validateSignalLogicDocument_def validate_groups_valid)

text \<open>Within a group, exactly those rules are reported as duplicates that have conditions and whose conditions, as a multiset of
  element, channel and wanted value, are the conditions of an earlier rule: neither the order of the conditions nor their ids and
  legacy addresses count.\<close>

theorem duplicate_rules_reported:
  "filter duplicate_warning (validate_rules turnouts sensors groupId [] rules) =
     map (\<lambda>r. warning_at DuplicateRule groupId (Some (sr_id r)) None) (repeated_rules [] rules)"
  by (rule validate_rules_duplicates) simp

end
