(* ===== verification/SignalCompile.thy ===== *)
theory SignalCompile
  imports SignalLogic SignalOutput JsonText
begin

text \<open>
  \<open>web-ui/src/api/signalLogicWsApi.ts\<close>: signal rules are stored on the command station as compiled rows, one JSON
  object per line. Saving compiles a document against the layout: states become output values, elements their ids.
  Loading parses the rows, migrates rows that still use addresses, and decompiles them. Elements are
  those of the loaded layout, with ids already migrated; an absent property is \<open>None\<close>. A thrown error is \<open>Inl\<close>. The
  requests are arguments: the response to a GET, and the function from the body of a POST to its response.
\<close>

unbundle bit_operations_syntax

subsection \<open>Data\<close>

record rule_element =
  re_id :: "int option"
  re_type :: "string option"
  re_address :: "int option"
  re_turnoutAddress :: "int option"
  re_turnout1Address :: "int option"
  re_turnout2Address :: "int option"
  re_turnoutClosedValue :: "bool option"
  re_turnout1ClosedValue :: "bool option"
  re_turnout2ClosedValue :: "bool option"
  re_outputMode :: "string option"
  re_signalOutput :: "output_config option"

type_synonym rule_layout = "rule_element list option list option"

datatype condition_source = FromTurnout | FromSensor
datatype signal_mode = Extended | Basic

type_synonym compiled_condition = "condition_source \<times> int \<times> int \<times> int"

record compiled_rule =
  cr_value :: jsnum
  cr_conditions :: "compiled_condition list"

record compiled_signal =
  cs_id :: int
  cs_mode :: signal_mode
  cs_outputs :: "jsnum option"
  cs_default :: jsnum
  cs_rules :: "compiled_rule list"

record compiled_document =
  cd_enabled :: bool
  cd_signals :: "compiled_signal list"

datatype legacy_source = LegacyTurnout | LegacySensor | LegacyVpin

type_synonym legacy_condition = "legacy_source \<times> int \<times> int"

record legacy_rule =
  lr_value :: jsnum
  lr_conditions :: "legacy_condition list"

record legacy_signal =
  ls_address :: int
  ls_mode :: signal_mode
  ls_outputs :: "jsnum option"
  ls_default :: jsnum
  ls_rules :: "legacy_rule list"

record parsed_document =
  pd_version :: nat
  pd_enabled :: bool
  pd_signals :: "(compiled_signal + legacy_signal) list"

definition or_default :: "'a option \<Rightarrow> 'a \<Rightarrow> 'a" where
  "or_default v d = (case v of Some x \<Rightarrow> x | None \<Rightarrow> d)"

definition all_rule_elements :: "rule_layout \<Rightarrow> rule_element list" where
  "all_rule_elements layout = concat (map (\<lambda>l. or_default l []) (or_default layout []))"

definition isTurnout :: "rule_element \<Rightarrow> bool" where
  "isTurnout e = (take 12 (or_default (re_type e) []) = ''trackturnout'')"

definition isSignal :: "rule_element \<Rightarrow> bool" where
  "isSignal e = (or_default (re_type e) [] \<in> {''tracksignal2'', ''tracksignal3'', ''tracksignal4''})"

definition isSensor :: "rule_element \<Rightarrow> bool" where
  "isSensor e = (re_type e = Some ''tracksensor'')"

subsection \<open>Compilation\<close>

definition requireLayoutId :: "rule_element option \<Rightarrow> string \<Rightarrow> string + int" where
  "requireLayoutId e label =
     (let i = (case e of Some x \<Rightarrow> or_default (re_id x) 0 | None \<Rightarrow> 0) in
      if i < 1 \<or> i > 65535 then Inl (label @ '' has no valid numeric layout ID.'') else Inr i)"

definition signalConfig :: "rule_element \<Rightarrow> string + output_config" where
  "signalConfig e =
     (let err = ''Signal '' @ (case re_id e of Some i \<Rightarrow> show_int i | None \<Rightarrow> ''?'') @ '' has no valid output configuration.''
      in case re_signalOutput e of
           None \<Rightarrow> Inl err
         | Some config \<Rightarrow> if oc_address config < 1 then Inl err else Inr config)"

fun value_bits :: "dcc_direction list \<Rightarrow> nat \<Rightarrow> nat \<Rightarrow> 32 word \<Rightarrow> 32 word" where
  "value_bits outputs index 0 bits = bits"
| "value_bits outputs index (Suc n) bits =
     value_bits outputs (Suc index) n (if nth_opt outputs index = Some DirG then bits OR push_bit (index mod 32) 1 else bits)"

definition output_count :: "output_config \<Rightarrow> int" where
  "output_count config = max 1 (min 16 (oc_outputCount config))"

definition stateValue :: "output_config \<Rightarrow> output_state \<Rightarrow> string + int" where
  "stateValue config state =
     (if oc_protocol config = DccExt
      then (let a = os_aspect state in
            if a < 0 \<or> a > 255 then Inl (''Signal aspect '' @ show_int a @ '' is invalid.'') else Inr a)
      else Inr (sint (value_bits (os_dccOutputs state) 0 (nat (output_count config)) 0)))"

definition findOutputState :: "output_config \<Rightarrow> string \<Rightarrow> string + output_state" where
  "findOutputState config stateId =
     (case find (\<lambda>s. os_id s = stateId) (oc_states config) of
        Some s \<Rightarrow> Inr s
      | None \<Rightarrow> Inl (''Signal state '' @ stateId @ '' no longer exists.''))"

definition find_sensor :: "rule_element list \<Rightarrow> int \<Rightarrow> rule_element option" where
  "find_sensor elements i = find (\<lambda>e. re_id e = Some i \<and> isSensor e) elements"

definition find_turnout :: "rule_element list \<Rightarrow> int \<Rightarrow> rule_element option" where
  "find_turnout elements i = find (\<lambda>e. re_id e = Some i \<and> isTurnout e) elements"

definition find_signal :: "rule_element list \<Rightarrow> int \<Rightarrow> rule_element option" where
  "find_signal elements i = find (\<lambda>e. re_id e = Some i \<and> isSignal e) elements"

definition compileCondition :: "rule_element list \<Rightarrow> signal_condition \<Rightarrow> string + compiled_condition" where
  "compileCondition elements c =
     (case c of
        SensorInput i sensorId address active \<Rightarrow>
          bind_r (requireLayoutId (find_sensor elements sensorId) (''Sensor '' @ show_int sensorId)) (\<lambda>n.
            Inr (FromSensor, n, 0, if active then 1 else 0))
      | TurnoutCondition i turnoutId turnoutChannel address shut \<Rightarrow>
          bind_r (requireLayoutId (find_turnout elements turnoutId) (''Turnout '' @ show_int turnoutId)) (\<lambda>n.
            let channel = (if turnoutChannel = Some 1 then 1 else 0) in
            if channel = 1 \<and> (case find_turnout elements turnoutId of Some t \<Rightarrow> re_turnout2Address t | None \<Rightarrow> None) = None
            then Inl (''Turnout '' @ show_int n @ '' has no channel 1.'')
            else Inr (FromTurnout, n, channel, if shut then 1 else 0)))"

definition compileRule :: "output_config \<Rightarrow> rule_element list \<Rightarrow> signal_rule \<Rightarrow> string + compiled_rule" where
  "compileRule config elements r =
     bind_r (findOutputState config (sr_stateId r)) (\<lambda>s. bind_r (stateValue config s) (\<lambda>v.
       bind_r (map_r (compileCondition elements) (sr_conditions r)) (\<lambda>cs. Inr \<lparr>cr_value = Fin (of_int v), cr_conditions = cs\<rparr>)))"

definition compileSignal :: "rule_element list \<Rightarrow> signal_group \<Rightarrow> string + compiled_signal" where
  "compileSignal elements g =
     (let signal = find_signal elements (sg_signalId g) in
      bind_r (requireLayoutId signal (''Signal '' @ show_int (sg_signalId g))) (\<lambda>signalId.
      bind_r (case signal of Some s \<Rightarrow> signalConfig s | None \<Rightarrow> Inl ''TypeError'') (\<lambda>config.
      bind_r (findOutputState config (sg_defaultStateId g)) (\<lambda>defaultState.
      bind_r (stateValue config defaultState) (\<lambda>v.
      bind_r (map_r (compileRule config elements) (sg_rules g)) (\<lambda>rules.
        Inr \<lparr>cs_id = signalId, cs_mode = (if oc_protocol config = DccExt then Extended else Basic),
             cs_outputs = (if oc_protocol config = DccExt then None else Some (Fin (of_int (output_count config)))),
             cs_default = Fin (of_int v), cs_rules = rules\<rparr>))))))"

definition compileDocument :: "signal_document \<Rightarrow> rule_layout \<Rightarrow> string + compiled_document" where
  "compileDocument d layout =
     bind_r (map_r (compileSignal (all_rule_elements layout)) (sd_groups d)) (\<lambda>signals.
       Inr \<lparr>cd_enabled = sd_enabled d, cd_signals = signals\<rparr>)"

subsection \<open>The stored text\<close>

text \<open>\<open>JSON.stringify\<close> writes a number that is not finite as null.\<close>

definition number_json :: "jsnum \<Rightarrow> json" where
  "number_json n = (case n of Fin r \<Rightarrow> TInt \<lfloor>r\<rfloor> | _ \<Rightarrow> TNull)"

definition source_text :: "condition_source \<Rightarrow> string" where
  "source_text s = (case s of FromTurnout \<Rightarrow> ''turnout'' | FromSensor \<Rightarrow> ''sensor'')"

definition mode_text :: "signal_mode \<Rightarrow> string" where
  "mode_text m = (case m of Extended \<Rightarrow> ''extended'' | Basic \<Rightarrow> ''basic'')"

definition compiled_condition_json :: "compiled_condition \<Rightarrow> json" where
  "compiled_condition_json c = (case c of (s, n, ch, v) \<Rightarrow> TArr [TStr (source_text s), TInt n, TInt ch, TInt v])"

definition compiled_rule_json :: "compiled_rule \<Rightarrow> json" where
  "compiled_rule_json r = TObj [(''value'', number_json (cr_value r)), (''conditions'', TArr (map compiled_condition_json (cr_conditions r)))]"

definition compiled_signal_json :: "compiled_signal \<Rightarrow> json" where
  "compiled_signal_json s =
     TObj ([(''kind'', TStr ''signal''), (''id'', TInt (cs_id s)), (''mode'', TStr (mode_text (cs_mode s))),
            (''default'', number_json (cs_default s)), (''rules'', TArr (map compiled_rule_json (cs_rules s)))] @
           (case cs_outputs s of Some n \<Rightarrow> [(''outputs'', number_json n)] | None \<Rightarrow> []))"

definition meta_json :: "bool \<Rightarrow> json" where
  "meta_json enabled = TObj [(''kind'', TStr ''meta''), (''version'', TInt 2), (''enabled'', TBool enabled)]"

definition serializeCompiled :: "compiled_document \<Rightarrow> string" where
  "serializeCompiled d =
     join_with [CHR 0x0A] (json_stringify (meta_json (cd_enabled d)) # map (json_stringify \<circ> compiled_signal_json) (cd_signals d) @ [[]])"

text \<open>\<open>split(/\r?\n/)\<close>: a carriage return right before a line feed belongs to the separator.\<close>

definition drop_cr :: "string \<Rightarrow> string" where
  "drop_cr s = (if s \<noteq> [] \<and> last s = CHR 0x0D then butlast s else s)"

fun split_lines :: "string \<Rightarrow> string \<Rightarrow> string list" where
  "split_lines line [] = [rev line]"
| "split_lines line (c # s) = (if c = CHR 0x0A then drop_cr (rev line) # split_lines [] s else split_lines (c # line) s)"

definition whole_number :: "jsval \<Rightarrow> int \<Rightarrow> int \<Rightarrow> int option" where
  "whole_number v lo hi =
     (case to_number v of Fin r \<Rightarrow> if is_whole r \<and> lo \<le> \<lfloor>r\<rfloor> \<and> \<lfloor>r\<rfloor> \<le> hi then Some \<lfloor>r\<rfloor> else None | _ \<Rightarrow> None)"

definition parseCondition :: "jsval \<Rightarrow> string + compiled_condition" where
  "parseCondition v =
     (let err = Inl ''Invalid compiled signal condition.'' in
      case v of
        JArr [s, i, ch, raw] \<Rightarrow>
          (case (if s = JStr ''turnout'' then Some FromTurnout else if s = JStr ''sensor'' then Some FromSensor else None,
                 whole_number i 1 65535, whole_number ch 0 1, whole_number raw 0 1) of
             (Some source, Some n, Some channel, Some r) \<Rightarrow> Inr (source, n, channel, r)
           | _ \<Rightarrow> err)
      | _ \<Rightarrow> err)"

definition parseLegacyCondition :: "jsval \<Rightarrow> string + legacy_condition" where
  "parseLegacyCondition v =
     (let err = Inl ''Invalid legacy compiled signal condition.'' in
      case v of
        JArr [s, a, raw] \<Rightarrow>
          (case (if s = JStr ''turnout'' then Some LegacyTurnout else if s = JStr ''sensor'' then Some LegacySensor
                 else if s = JStr ''vpin'' then Some LegacyVpin else None,
                 whole_number a 1 32767, whole_number raw 0 1) of
             (Some source, Some n, Some r) \<Rightarrow> Inr (source, n, r)
           | _ \<Rightarrow> err)
      | _ \<Rightarrow> err)"

text \<open>\<open>Math.trunc(Number(v ?? d))\<close>, and \<open>Math.max(1, Math.min(16, n))\<close> on every number.\<close>

definition trunc_number :: "jsval \<Rightarrow> int \<Rightarrow> jsnum" where
  "trunc_number v d =
     (case to_number (if v = JUndef \<or> v = JNull then js_int d else v) of Fin r \<Rightarrow> Fin (of_int (js_trunc r)) | n \<Rightarrow> n)"

definition clamp_outputs :: "jsnum \<Rightarrow> jsnum" where
  "clamp_outputs n = (case n of NaN \<Rightarrow> NaN | PosInf \<Rightarrow> Fin 16 | NegInf \<Rightarrow> Fin 1 | Fin r \<Rightarrow> Fin (max 1 (min 16 r)))"

definition parse_rule :: "(jsval \<Rightarrow> string + 'c) \<Rightarrow> jsval \<Rightarrow> string + (jsnum \<times> 'c list)" where
  "parse_rule parse_condition rule =
     (if rule = JNull then Inl ''TypeError''
      else bind_r (map_r parse_condition (array_or_empty (js_get rule ''conditions''))) (\<lambda>cs.
        Inr (trunc_number (js_get rule ''value'') 0, cs)))"

record parse_state =
  ps_enabled :: bool
  ps_version :: nat
  ps_signals :: "(compiled_signal + legacy_signal) list"

definition parse_meta :: "jsval \<Rightarrow> parse_state \<Rightarrow> string + parse_state" where
  "parse_meta row st =
     (let n = to_number (js_get row ''version'') in
      if n \<noteq> Fin 1 \<and> n \<noteq> Fin 2 then Inl ''Unsupported signal rule version.''
      else Inr (st\<lparr>ps_version := (if n = Fin 1 then 1 else 2), ps_enabled := (js_get row ''enabled'' = JBool True)\<rparr>))"

definition parse_signal :: "jsval \<Rightarrow> parse_state \<Rightarrow> string + parse_state" where
  "parse_signal row st =
     (case (if js_get row ''mode'' = JStr ''extended'' then Some Extended else if js_get row ''mode'' = JStr ''basic'' then Some Basic else None) of
        None \<Rightarrow> Inl ''The signal rule file contains an invalid signal mode.''
      | Some mode \<Rightarrow>
          let rawRules = array_or_empty (js_get row ''rules'');
              outputs = (if mode = Basic then Some (clamp_outputs (trunc_number (js_get row ''outputs'') 1)) else None);
              default = trunc_number (js_get row ''default'') 0
          in if ps_version st = 1
             then (case whole_number (js_get row ''address'') 1 32767 of
                     None \<Rightarrow> Inl ''The legacy signal rule file contains an invalid signal address.''
                   | Some address \<Rightarrow>
                       bind_r (map_r (parse_rule parseLegacyCondition) rawRules) (\<lambda>rules.
                         Inr (st\<lparr>ps_signals := ps_signals st @ [Inr \<lparr>ls_address = address, ls_mode = mode, ls_outputs = outputs,
                           ls_default = default, ls_rules = map (\<lambda>(v, cs). \<lparr>lr_value = v, lr_conditions = cs\<rparr>) rules\<rparr>]\<rparr>)))
             else (case whole_number (js_get row ''id'') 1 65535 of
                     None \<Rightarrow> Inl ''The signal rule file contains an invalid signal row.''
                   | Some i \<Rightarrow>
                       bind_r (map_r (parse_rule parseCondition) rawRules) (\<lambda>rules.
                         Inr (st\<lparr>ps_signals := ps_signals st @ [Inl \<lparr>cs_id = i, cs_mode = mode, cs_outputs = outputs,
                           cs_default = default, cs_rules = map (\<lambda>(v, cs). \<lparr>cr_value = v, cr_conditions = cs\<rparr>) rules\<rparr>]\<rparr>))))"

definition parse_row :: "jsval \<Rightarrow> parse_state \<Rightarrow> string + parse_state" where
  "parse_row row st =
     (if row = JNull then Inl ''TypeError''
      else if js_get row ''kind'' = JStr ''meta'' then parse_meta row st
      else if js_get row ''kind'' \<noteq> JStr ''signal'' \<or> ps_version st = 0
      then Inl ''The signal rule file contains an unsupported row or a signal before its meta row.''
      else parse_signal row st)"

fun parse_lines :: "string list \<Rightarrow> parse_state \<Rightarrow> string + parse_state" where
  "parse_lines [] st = Inr st"
| "parse_lines (rawLine # ls) st =
     (let line = trim rawLine in
      if line = [] then parse_lines ls st
      else bind_r (json_parse line) (\<lambda>row. bind_r (parse_row row st) (\<lambda>st'. parse_lines ls st')))"

definition parseCompiled :: "string \<Rightarrow> string + parsed_document" where
  "parseCompiled content =
     bind_r (parse_lines (split_lines [] content) \<lparr>ps_enabled = False, ps_version = 0, ps_signals = []\<rparr>) (\<lambda>st.
       if ps_version st = 0 then Inl ''The signal rule file has no meta row.''
       else Inr \<lparr>pd_version = ps_version st, pd_enabled = ps_enabled st, pd_signals = ps_signals st\<rparr>)"

subsection \<open>Migration of rows with addresses\<close>

definition turnoutAddressForChannel :: "rule_element \<Rightarrow> int \<Rightarrow> int" where
  "turnoutAddressForChannel e channel =
     or_default (if channel = 1 then re_turnout2Address e
                 else (case re_turnoutAddress e of Some a \<Rightarrow> Some a | None \<Rightarrow> re_turnout1Address e)) 0"

definition turnoutClosedValueForChannel :: "rule_element \<Rightarrow> int \<Rightarrow> bool" where
  "turnoutClosedValueForChannel e channel =
     (if channel = 1 then or_default (re_turnout2ClosedValue e) False
      else (case re_turnoutClosedValue e of Some b \<Rightarrow> b | None \<Rightarrow> or_default (re_turnout1ClosedValue e) False))"

definition turnout_matches :: "bool \<Rightarrow> int \<Rightarrow> rule_element list \<Rightarrow> (rule_element \<times> int) list" where
  "turnout_matches wantedVpin address elements =
     concat (map (\<lambda>e.
       if \<not> isTurnout e then []
       else if (or_default (re_outputMode e) ''accessory'' = ''vpin'') \<noteq> wantedVpin then []
       else (if turnoutAddressForChannel e 0 = address then [(e, 0)] else []) @
            (if turnoutAddressForChannel e 1 = address then [(e, 1)] else [])) elements)"

definition count_text :: "'a list \<Rightarrow> string" where
  "count_text xs = (if length xs = 0 then ''missing'' else ''ambiguous'') @ '' in the current layout.''"

definition legacy_source_text :: "legacy_source \<Rightarrow> string" where
  "legacy_source_text s = (case s of LegacyTurnout \<Rightarrow> ''turnout'' | LegacySensor \<Rightarrow> ''sensor'' | LegacyVpin \<Rightarrow> ''vpin'')"

definition migrateLegacyCompiledCondition :: "rule_element list \<Rightarrow> legacy_condition \<Rightarrow> string + compiled_condition" where
  "migrateLegacyCompiledCondition elements c =
     (case c of (source, address, rawValue) \<Rightarrow>
        if source = LegacySensor
        then (let matches = filter (\<lambda>e. isSensor e \<and> re_address e = Some address) elements in
              if length matches \<noteq> 1 then Inl (''Legacy sensor address '' @ show_int address @ '' is '' @ count_text matches)
              else bind_r (requireLayoutId (Some (hd matches)) (''Sensor #'' @ show_int address)) (\<lambda>n. Inr (FromSensor, n, 0, rawValue)))
        else (let matches = turnout_matches (source = LegacyVpin) address elements in
              if length matches \<noteq> 1
              then Inl (''Legacy '' @ legacy_source_text source @ '' turnout address '' @ show_int address @ '' is '' @ count_text matches)
              else (let (e, channel) = hd matches;
                        logicalClosed = ((rawValue \<noteq> 0) = turnoutClosedValueForChannel e channel)
                    in bind_r (requireLayoutId (Some e) (''Turnout #'' @ show_int address)) (\<lambda>n.
                         Inr (FromTurnout, n, channel, if logicalClosed then 1 else 0)))))"

definition legacy_signal_matches :: "rule_element list \<Rightarrow> legacy_signal \<Rightarrow> rule_element list" where
  "legacy_signal_matches elements l =
     filter (\<lambda>e. isSignal e \<and>
       (case re_signalOutput e of
          None \<Rightarrow> False
        | Some config \<Rightarrow> oc_address config = ls_address l \<and> (if oc_protocol config = DccExt then Extended else Basic) = ls_mode l)) elements"

definition migrate_legacy_signal :: "rule_element list \<Rightarrow> legacy_signal \<Rightarrow> string + compiled_signal" where
  "migrate_legacy_signal elements l =
     (let matches = legacy_signal_matches elements l in
      if length matches \<noteq> 1 then Inl (''Legacy signal address '' @ show_int (ls_address l) @ '' is '' @ count_text matches)
      else bind_r (requireLayoutId (Some (hd matches)) (''Signal #'' @ show_int (ls_address l))) (\<lambda>n.
           bind_r (map_r (\<lambda>r. bind_r (map_r (migrateLegacyCompiledCondition elements) (lr_conditions r)) (\<lambda>cs.
               Inr \<lparr>cr_value = lr_value r, cr_conditions = cs\<rparr>)) (ls_rules l)) (\<lambda>rules.
             Inr \<lparr>cs_id = n, cs_mode = ls_mode l, cs_outputs = (if ls_mode l = Basic then Some (or_default (ls_outputs l) (Fin 1)) else None),
                  cs_default = ls_default l, cs_rules = rules\<rparr>)))"

text \<open>A file whose rows are of both versions gives signals without an id or an address, for which no element is
  found: the error is the one of the search that follows.\<close>

definition migrateLegacyCompiled :: "parsed_document \<Rightarrow> rule_layout \<Rightarrow> string + compiled_document" where
  "migrateLegacyCompiled p layout =
     bind_r (map_r (\<lambda>s.
         if pd_version p = 2
         then (case s of Inl x \<Rightarrow> Inr x | Inr x \<Rightarrow> Inl ''Signal ID undefined does not exist in the current layout.'')
         else (case s of Inr x \<Rightarrow> migrate_legacy_signal (all_rule_elements layout) x
               | Inl x \<Rightarrow> Inl ''Legacy signal address undefined is missing in the current layout.''))
       (pd_signals p)) (\<lambda>signals. Inr \<lparr>cd_enabled = pd_enabled p, cd_signals = signals\<rparr>)"

subsection \<open>Decompilation\<close>

fun find_by_value :: "output_config \<Rightarrow> output_state list \<Rightarrow> jsnum \<Rightarrow> string + output_state option" where
  "find_by_value config [] v = Inr None"
| "find_by_value config (s # ss) v =
     bind_r (stateValue config s) (\<lambda>n. if Fin (of_int n) = v then Inr (Some s) else find_by_value config ss v)"

definition findStateByValue :: "output_config \<Rightarrow> jsnum \<Rightarrow> string + output_state" where
  "findStateByValue config v =
     bind_r (find_by_value config (oc_states config) v) (\<lambda>r.
       case r of Some s \<Rightarrow> Inr s
       | None \<Rightarrow> Inl (''No signal state maps to the output value at address '' @ show_int (oc_address config) @ ''.''))"

definition decompileCondition :: "rule_element list \<Rightarrow> string \<Rightarrow> compiled_condition \<Rightarrow> string + signal_condition" where
  "decompileCondition elements i c =
     (case c of (source, elementId, channel, rawValue) \<Rightarrow>
        if source = FromSensor
        then (case find_sensor elements elementId of
                None \<Rightarrow> Inl (''Sensor ID '' @ show_int elementId @ '' does not exist in the current layout.'')
              | Some sensor \<Rightarrow> Inr (SensorInput i elementId (map_option of_int (re_address sensor)) (rawValue \<noteq> 0)))
        else (case find_turnout elements elementId of
                None \<Rightarrow> Inl (''Turnout ID '' @ show_int elementId @ '' does not exist in the current layout.'')
              | Some turnout \<Rightarrow>
                  let address = (if channel = 1 then re_turnout2Address turnout
                                 else (case re_turnoutAddress turnout of Some a \<Rightarrow> Some a | None \<Rightarrow> re_turnout1Address turnout))
                  in Inr (TurnoutCondition i elementId (Some channel) (map_option of_int address) (rawValue \<noteq> 0))))"

definition id_text :: "string \<Rightarrow> int \<Rightarrow> nat list \<Rightarrow> string" where
  "id_text prefix i ks = prefix @ show_int i @ concat (map (\<lambda>k. ''-'' @ show_nat k) ks)"

definition decompileRule :: "output_config \<Rightarrow> rule_element list \<Rightarrow> int \<Rightarrow> nat \<times> compiled_rule \<Rightarrow> string + signal_rule" where
  "decompileRule config elements signalId kr =
     (case kr of (ruleIndex, r) \<Rightarrow>
        bind_r (findStateByValue config (cr_value r)) (\<lambda>s.
        bind_r (map_r (\<lambda>(k, c). decompileCondition elements (id_text ''compiled-condition-'' signalId [ruleIndex, k]) c)
                 (enumerate 0 (cr_conditions r))) (\<lambda>cs.
          Inr \<lparr>sr_id = id_text ''compiled-rule-'' signalId [ruleIndex], sr_conditions = cs, sr_stateId = os_id s, sr_aspect = None\<rparr>)))"

definition decompileSignal :: "rule_element list \<Rightarrow> nat \<times> compiled_signal \<Rightarrow> string + signal_group" where
  "decompileSignal elements ks =
     (case ks of (signalIndex, s) \<Rightarrow>
        case find_signal elements (cs_id s) of
          None \<Rightarrow> Inl (''Signal ID '' @ show_int (cs_id s) @ '' does not exist in the current layout.'')
        | Some signal \<Rightarrow>
            bind_r (signalConfig signal) (\<lambda>config.
            bind_r (findStateByValue config (cs_default s)) (\<lambda>defaultState.
            bind_r (map_r (decompileRule config elements (cs_id s)) (enumerate 0 (cs_rules s))) (\<lambda>rules.
              Inr \<lparr>sg_id = id_text ''compiled-signal-'' (cs_id s) [signalIndex], sg_signalId = cs_id s,
                   sg_signalAddress = Some (of_int (oc_address config)), sg_defaultStateId = os_id defaultState,
                   sg_defaultAspect = None, sg_rules = rules\<rparr>))))"

definition decompileDocument :: "compiled_document \<Rightarrow> rule_layout \<Rightarrow> string + signal_document" where
  "decompileDocument c layout =
     bind_r (map_r (decompileSignal (all_rule_elements layout)) (enumerate 0 (cd_signals c))) (\<lambda>groups.
       Inr \<lparr>sd_version = 3, sd_enabled = cd_enabled c, sd_groups = groups\<rparr>)"

subsection \<open>Loading and saving\<close>

record http_response =
  hr_status :: int
  hr_ok :: bool
  hr_text :: string

record runtime_state =
  rt_running :: bool
  rt_enabled :: bool

record load_result =
  lo_document :: signal_document
  lo_issues :: "signal_issue list"
  lo_created :: bool
  lo_state :: runtime_state
  lo_message :: "string option"

definition readCompiledRaw :: "http_response \<Rightarrow> string + parsed_document option" where
  "readCompiledRaw response =
     (if hr_status response = 404 then Inr None
      else if \<not> hr_ok response
      then Inl (if trim (hr_text response) \<noteq> [] then trim (hr_text response) else ''The compiled signal logic rules could not be loaded.'')
      else bind_r (parseCompiled (hr_text response)) (\<lambda>p. Inr (Some p)))"

definition writeCompiled :: "(string \<Rightarrow> http_response) \<Rightarrow> compiled_document \<Rightarrow> string + string" where
  "writeCompiled post d =
     (let body = serializeCompiled d; response = post body in
      if \<not> hr_ok response
      then Inl (if hr_text response \<noteq> [] then hr_text response else ''The compiled signal logic rules could not be saved.'')
      else Inr body)"

text \<open>\<open>loadLayout\<close> is the argument \<open>layout\<close>, an error or the migrated elements. The published runtime state is the
  state of the result. When both requests fail, the error of the rules is reported.\<close>

definition loadSignalLogicRulesWs ::
  "http_response \<Rightarrow> string + rule_layout \<Rightarrow> (string \<Rightarrow> http_response) \<Rightarrow> string + load_result" where
  "loadSignalLogicRulesWs response layout post =
     bind_r (readCompiledRaw response) (\<lambda>parsed. bind_r layout (\<lambda>l.
       case parsed of
         None \<Rightarrow>
           Inr \<lparr>lo_document = \<lparr>sd_version = 3, sd_enabled = False, sd_groups = []\<rparr>, lo_issues = [], lo_created = True,
                lo_state = \<lparr>rt_running = False, rt_enabled = False\<rparr>,
                lo_message = Some ''No signal automation file exists yet. Configure a signal and save to create it.''\<rparr>
       | Some p \<Rightarrow>
           bind_r (migrateLegacyCompiled p l) (\<lambda>compiled.
           bind_r (if pd_version p = 1 then writeCompiled post compiled else Inr []) (\<lambda>body.
           bind_r (decompileDocument compiled l) (\<lambda>d.
             Inr \<lparr>lo_document = d, lo_issues = [], lo_created = False,
                  lo_state = \<lparr>rt_running = sd_enabled d, rt_enabled = sd_enabled d\<rparr>,
                  lo_message = (if pd_version p = 1
                    then Some ''Legacy address-based signal rules were migrated to numeric layout IDs.'' else None)\<rparr>)))))"

definition saveSignalLogicRulesWs ::
  "signal_document \<Rightarrow> string + rule_layout \<Rightarrow> (string \<Rightarrow> http_response) \<Rightarrow> string + load_result \<times> string" where
  "saveSignalLogicRulesWs d layout post =
     bind_r layout (\<lambda>l. bind_r (compileDocument d l) (\<lambda>c. bind_r (writeCompiled post c) (\<lambda>body.
       Inr (\<lparr>lo_document = d, lo_issues = [], lo_created = False,
             lo_state = \<lparr>rt_running = sd_enabled d, rt_enabled = sd_enabled d\<rparr>, lo_message = None\<rparr>, body))))"

end
