(* ===== verification/SerialConsole.thy ===== *)
theory SerialConsole
  imports SignalCompile
begin

text \<open>
  \<open>services/serialConsole.ts\<close>: the serial port that the console talks to, with its read loop. A port and a run of the read loop are
  numbers. A continuation after an \<open>await\<close> is an event, with what the browser answers as its argument: a port can only be
  opened when it is not open, and a read loop waits in \<open>reader.read()\<close> while it is alive, which is as long as it holds the lock of
  its stream. Chunks are texts as the stream decoder gives them. A call of \<open>connect\<close> or \<open>disconnect\<close> does not start before the
  last one has ended: the console disables its buttons meanwhile. Listeners are left out; what they are told is in \<open>so_out\<close>.
\<close>

subsection \<open>Lines\<close>

text \<open>One turn of the loop on a chunk: the rest that is kept, and the messages.\<close>

definition feed :: "string \<Rightarrow> string \<Rightarrow> string \<times> string list" where
  "feed buffer chunk =
     (let ls = split_lines [] (buffer @ chunk)
      in (last ls, filter (\<lambda>l. l \<noteq> []) (map trim_end (butlast ls))))"

definition finish :: "string \<Rightarrow> string list" where
  "finish buffer = (let remaining = trim buffer in if remaining \<noteq> [] then [remaining] else [])"

fun read_stream :: "string \<Rightarrow> string list \<Rightarrow> string list" where
  "read_stream buffer [] = finish buffer"
| "read_stream buffer (chunk # chunks) = (let (rest, messages) = feed buffer chunk in messages @ read_stream rest chunks)"

subsection \<open>The service\<close>

datatype serial_status = Disconnected | Connecting | Connected | Disconnecting | SerialError

datatype serial_call = NoCall | RequestingPort | OpeningPort nat | CancellingReader nat | AwaitingLoop nat nat | ClosingPort nat

datatype serial_out = StatusChanged serial_status | Message string | CallDone | CallFailed string

record read_loop =
  rl_port :: nat
  rl_buffer :: string
  rl_alive :: bool

record serial =
  so_port :: "nat option"
  so_reader :: "nat option"
  so_readLoopPromise :: "nat option"
  so_status :: serial_status
  so_call :: serial_call
  so_loops :: "read_loop list"
  so_open :: "nat list"
  so_out :: "serial_out list"

definition new_serial :: serial where
  "new_serial =
     \<lparr>so_port = None, so_reader = None, so_readLoopPromise = None, so_status = Disconnected, so_call = NoCall, so_loops = [],
      so_open = [], so_out = []\<rparr>"

definition serial_isConnected :: "serial \<Rightarrow> bool" where
  "serial_isConnected s \<longleftrightarrow> so_status s = Connected \<and> so_port s \<noteq> None"

definition serial_emit :: "serial_out list \<Rightarrow> serial \<Rightarrow> serial" where
  "serial_emit outs s = s\<lparr>so_out := so_out s @ outs\<rparr>"

definition serial_setStatus :: "serial_status \<Rightarrow> serial \<Rightarrow> serial" where
  "serial_setStatus st s = (if so_status s = st then s else serial_emit [StatusChanged st] (s\<lparr>so_status := st\<rparr>))"

definition end_call :: "string option \<Rightarrow> serial \<Rightarrow> serial" where
  "end_call failure s = serial_emit [case failure of None \<Rightarrow> CallDone | Some e \<Rightarrow> CallFailed e] (s\<lparr>so_call := NoCall\<rparr>)"

text \<open>\<open>connect\<close>: up to \<open>requestPort\<close>, up to \<open>open\<close>, and the rest with the start of the read loop.\<close>

definition connect_call :: "bool \<Rightarrow> serial \<Rightarrow> serial" where
  "connect_call supported s =
     (if serial_isConnected s then end_call None s
      else if \<not> supported then end_call (Some ''Web Serial API is not available.'') (serial_setStatus SerialError s)
      else (serial_setStatus Connecting s)\<lparr>so_call := RequestingPort\<rparr>)"

definition connect_fails :: "serial \<Rightarrow> serial" where
  "connect_fails s = end_call (Some ''connect'') (serial_setStatus SerialError (s\<lparr>so_port := None\<rparr>))"

definition port_requested :: "nat option \<Rightarrow> serial \<Rightarrow> serial" where
  "port_requested answer s = (case answer of None \<Rightarrow> connect_fails s | Some p \<Rightarrow> s\<lparr>so_call := OpeningPort p\<rparr>)"

definition startReadLoop :: "nat \<Rightarrow> bool \<Rightarrow> serial \<Rightarrow> serial" where
  "startReadLoop p readable s =
     (let i = length (so_loops s);
          s1 = s\<lparr>so_loops := so_loops s @ [\<lparr>rl_port = p, rl_buffer = [], rl_alive = readable\<rparr>]\<rparr>;
          s2 = (if readable then s1\<lparr>so_reader := Some i\<rparr> else serial_setStatus SerialError s1)
      in s2\<lparr>so_readLoopPromise := Some i\<rparr>)"

definition port_opened :: "nat \<Rightarrow> bool \<Rightarrow> bool \<Rightarrow> serial \<Rightarrow> serial" where
  "port_opened p ok readable s =
     (if \<not> ok then connect_fails s
      else end_call None (startReadLoop p readable (serial_setStatus Connected (s\<lparr>so_open := p # so_open s, so_port := Some p\<rparr>))))"

text \<open>
  \<open>disconnect\<close>: up to \<open>reader.cancel\<close>, up to the end of the read loop, up to \<open>close\<close>, and the rest. An \<open>await\<close> of a promise that is
  absent is none.
\<close>

definition close_port :: "nat \<Rightarrow> serial \<Rightarrow> serial" where
  "close_port p s = s\<lparr>so_reader := None, so_readLoopPromise := None, so_call := ClosingPort p\<rparr>"

definition await_loop :: "nat \<Rightarrow> serial \<Rightarrow> serial" where
  "await_loop p s = (case so_readLoopPromise s of Some i \<Rightarrow> s\<lparr>so_call := AwaitingLoop p i\<rparr> | None \<Rightarrow> close_port p s)"

definition disconnect_call :: "serial \<Rightarrow> serial" where
  "disconnect_call s =
     (case so_port s of
        None \<Rightarrow> end_call None (serial_setStatus Disconnected s)
      | Some p \<Rightarrow>
          let s1 = serial_setStatus Disconnecting s
          in (case so_reader s1 of Some i \<Rightarrow> s1\<lparr>so_call := CancellingReader p\<rparr> | None \<Rightarrow> await_loop p s1))"

definition port_closed :: "nat \<Rightarrow> bool \<Rightarrow> serial \<Rightarrow> serial" where
  "port_closed p ok s =
     end_call (if ok then None else Some ''close'')
       (serial_setStatus Disconnected (s\<lparr>so_port := None, so_open := (if ok then removeAll p (so_open s) else so_open s)\<rparr>))"

text \<open>The read loop: a chunk, the end of the stream, an error. Ending releases the lock.\<close>

definition end_loop :: "nat \<Rightarrow> serial \<Rightarrow> serial" where
  "end_loop i s =
     s\<lparr>so_loops := (so_loops s)[i := (so_loops s ! i)\<lparr>rl_alive := False\<rparr>],
       so_reader := (if so_reader s = Some i then None else so_reader s)\<rparr>"

definition chunk_read :: "nat \<Rightarrow> string \<Rightarrow> serial \<Rightarrow> serial" where
  "chunk_read i chunk s =
     (let loop = so_loops s ! i;
          (rest, messages) = feed (rl_buffer loop) chunk;
          s1 = serial_emit (map Message messages) (s\<lparr>so_loops := (so_loops s)[i := loop\<lparr>rl_buffer := rest\<rparr>]\<rparr>)
      in if so_port s1 = Some (rl_port loop) \<and> so_status s1 = Connected then s1
         else end_loop i (serial_emit (map Message (finish rest)) s1))"

definition stream_ended :: "nat \<Rightarrow> serial \<Rightarrow> serial" where
  "stream_ended i s = end_loop i (serial_emit (map Message (finish (rl_buffer (so_loops s ! i)))) s)"

definition read_failed :: "nat \<Rightarrow> serial \<Rightarrow> serial" where
  "read_failed i s = end_loop i (if so_status s = Disconnecting then s else serial_setStatus SerialError s)"

text \<open>\<open>send\<close> writes when connected and throws otherwise; \<open>writable\<close> says that the port has a stream to write to.\<close>

definition send_text :: "bool \<Rightarrow> string \<Rightarrow> serial \<Rightarrow> string + string" where
  "send_text writable command s =
     (if so_port s = None \<or> \<not> writable \<or> \<not> serial_isConnected s then Inl ''Serial port is not connected.'' else Inr (command @ [CHR 0x0A]))"

subsection \<open>Steps\<close>

datatype serial_event =
    Connect bool | PortRequested "nat option" | PortOpened bool bool | Disconnect | ReaderCancelled | LoopAwaited | PortClosed bool
  | ChunkRead nat string | StreamEnded nat | ReadFailed nat

definition alive :: "nat \<Rightarrow> serial \<Rightarrow> bool" where
  "alive i s \<longleftrightarrow> i < length (so_loops s) \<and> rl_alive (so_loops s ! i)"

text \<open>An event that cannot happen in a state is \<open>None\<close>.\<close>

definition serial_step :: "serial_event \<Rightarrow> serial \<Rightarrow> serial option" where
  "serial_step ev s =
     (case ev of
        Connect supported \<Rightarrow> if so_call s = NoCall then Some (connect_call supported s) else None
      | PortRequested answer \<Rightarrow> if so_call s = RequestingPort then Some (port_requested answer s) else None
      | PortOpened ok readable \<Rightarrow>
          (case so_call s of OpeningPort p \<Rightarrow> if ok \<longrightarrow> p \<notin> set (so_open s) then Some (port_opened p ok readable s) else None | _ \<Rightarrow> None)
      | Disconnect \<Rightarrow> if so_call s = NoCall then Some (disconnect_call s) else None
      | ReaderCancelled \<Rightarrow> (case so_call s of CancellingReader p \<Rightarrow> Some (await_loop p s) | _ \<Rightarrow> None)
      | LoopAwaited \<Rightarrow> (case so_call s of AwaitingLoop p i \<Rightarrow> if alive i s then None else Some (close_port p s) | _ \<Rightarrow> None)
      | PortClosed ok \<Rightarrow> (case so_call s of ClosingPort p \<Rightarrow> Some (port_closed p ok s) | _ \<Rightarrow> None)
      | ChunkRead i chunk \<Rightarrow> if alive i s then Some (chunk_read i chunk s) else None
      | StreamEnded i \<Rightarrow> if alive i s then Some (stream_ended i s) else None
      | ReadFailed i \<Rightarrow> if alive i s then Some (read_failed i s) else None)"

fun serial_run :: "serial_event list \<Rightarrow> serial \<Rightarrow> serial option" where
  "serial_run [] s = Some s"
| "serial_run (ev # evs) s = Option.bind (serial_step ev s) (serial_run evs)"

subsection \<open>The read loops and the calls\<close>

definition loops_ok :: "serial \<Rightarrow> bool" where
  "loops_ok s \<longleftrightarrow>
     (\<forall>i. alive i s \<longrightarrow>
        so_reader s = Some i \<and> so_readLoopPromise s = Some i \<and> so_port s = Some (rl_port (so_loops s ! i)) \<and>
        rl_port (so_loops s ! i) \<in> set (so_open s) \<and> so_status s \<in> {Connected, Disconnecting})"

definition call_ok :: "serial \<Rightarrow> bool" where
  "call_ok s \<longleftrightarrow>
     (case so_call s of
        NoCall \<Rightarrow> so_status s \<notin> {Connecting, Disconnecting}
      | RequestingPort \<Rightarrow> so_status s = Connecting
      | OpeningPort p \<Rightarrow> so_status s = Connecting
      | CancellingReader p \<Rightarrow> so_status s = Disconnecting \<and> so_port s = Some p
      | AwaitingLoop p i \<Rightarrow> so_status s = Disconnecting \<and> so_port s = Some p \<and> so_readLoopPromise s = Some i
      | ClosingPort p \<Rightarrow> so_status s = Disconnecting \<and> so_port s = Some p \<and> (\<forall>i. \<not> alive i s))"

definition serial_ok :: "serial \<Rightarrow> bool" where
  "serial_ok s \<longleftrightarrow> loops_ok s \<and> call_ok s \<and> (so_status s = Connected \<longrightarrow> so_port s \<noteq> None)"

lemma serial_emit_fields [simp]: "so_port (serial_emit o' s) = so_port s" "so_reader (serial_emit o' s) = so_reader s"
    "so_readLoopPromise (serial_emit o' s) = so_readLoopPromise s" "so_status (serial_emit o' s) = so_status s" "so_call (serial_emit o' s) = so_call s"
    "so_loops (serial_emit o' s) = so_loops s" "so_open (serial_emit o' s) = so_open s" "alive i (serial_emit o' s) = alive i s"
  by (simp_all add: serial_emit_def alive_def)

lemma serial_setStatus_fields [simp]: "so_port (serial_setStatus st s) = so_port s" "so_reader (serial_setStatus st s) = so_reader s"
    "so_readLoopPromise (serial_setStatus st s) = so_readLoopPromise s" "so_status (serial_setStatus st s) = st" "so_call (serial_setStatus st s) = so_call s"
    "so_loops (serial_setStatus st s) = so_loops s" "so_open (serial_setStatus st s) = so_open s" "alive i (serial_setStatus st s) = alive i s"
  by (simp_all add: serial_setStatus_def alive_def)

lemma end_call_fields [simp]: "so_port (end_call f s) = so_port s" "so_reader (end_call f s) = so_reader s"
    "so_readLoopPromise (end_call f s) = so_readLoopPromise s" "so_status (end_call f s) = so_status s" "so_call (end_call f s) = NoCall"
    "so_loops (end_call f s) = so_loops s" "so_open (end_call f s) = so_open s" "alive i (end_call f s) = alive i s"
  by (simp_all add: end_call_def alive_def)

lemma end_loop_fields [simp]: "so_port (end_loop i s) = so_port s" "so_readLoopPromise (end_loop i s) = so_readLoopPromise s"
    "so_status (end_loop i s) = so_status s" "so_call (end_loop i s) = so_call s" "so_open (end_loop i s) = so_open s"
  by (simp_all add: end_loop_def)

lemma end_loop_alive: "alive j (end_loop i s) \<longleftrightarrow> alive j s \<and> j \<noteq> i"
  by (cases "i = j") (auto simp: alive_def end_loop_def)

text \<open>A loop that ends was the only one.\<close>

lemma end_loop_ok:
  assumes "loops_ok s" "alive i s" and s': "so_loops s' = so_loops s" "so_call s' = so_call s" "so_port s' = so_port s"
    "so_status s' = so_status s \<or> so_status s' = SerialError \<and> so_call s = NoCall" "so_readLoopPromise s' = so_readLoopPromise s"
    and "call_ok s" "so_status s = Connected \<longrightarrow> so_port s \<noteq> None"
  shows "serial_ok (end_loop i s')"
proof -
  have a: "alive j s' = alive j s" for j using s'(1) by (simp add: alive_def)
  have dead: "\<not> alive j (end_loop i s')" for j using assms(1,2) unfolding end_loop_alive a loops_ok_def by (metis option.inject)
  then show ?thesis using assms(4-9) unfolding serial_ok_def loops_ok_def call_ok_def by (auto split: serial_call.splits)
qed

lemma dead_outside: "loops_ok s \<Longrightarrow> so_status s \<notin> {Connected, Disconnecting} \<Longrightarrow> \<not> alive i s"
  by (auto simp: loops_ok_def)

lemma close_port_ok:
  "so_status s = Disconnecting \<Longrightarrow> so_port s = Some p \<Longrightarrow> (\<And>i. \<not> alive i s) \<Longrightarrow> serial_ok (close_port p s)"
  by (simp add: serial_ok_def loops_ok_def call_ok_def close_port_def alive_def)

lemma await_loop_ok:
  "loops_ok s \<Longrightarrow> so_status s = Disconnecting \<Longrightarrow> so_port s = Some p \<Longrightarrow> serial_ok (await_loop p s)"
  by (cases "so_readLoopPromise s")
    (auto simp: await_loop_def loops_ok_def intro!: close_port_ok, auto simp: serial_ok_def loops_ok_def call_ok_def alive_def)

lemma dead_connects:
  assumes "\<And>i. \<not> alive i s"
  shows "serial_ok (connect_fails s)" and "p \<notin> set (so_open s) \<Longrightarrow> serial_ok (port_opened p True readable s)"
proof -
  show "serial_ok (connect_fails s)" using assms by (simp add: connect_fails_def serial_ok_def loops_ok_def call_ok_def alive_def)
  have old: "\<not> rl_alive (so_loops s ! i)" if "i < length (so_loops s)" for i using assms [of i] that by (simp add: alive_def)
  show "serial_ok (port_opened p True readable s)"
    using old by (auto simp: port_opened_def startReadLoop_def Let_def serial_ok_def loops_ok_def call_ok_def alive_def nth_append
        less_Suc_eq split: if_splits)
qed

definition with_buffer :: "nat \<Rightarrow> string \<Rightarrow> string list \<Rightarrow> serial \<Rightarrow> serial" where
  "with_buffer i b ms s = serial_emit (map Message ms) (s\<lparr>so_loops := (so_loops s)[i := (so_loops s ! i)\<lparr>rl_buffer := b\<rparr>]\<rparr>)"

lemma with_buffer_alive: "alive j (with_buffer i b ms s) = alive j s"
  by (cases "i = j") (auto simp: alive_def with_buffer_def)

lemma with_buffer_port: "j < length (so_loops s) \<Longrightarrow> rl_port (so_loops (with_buffer i b ms s) ! j) = rl_port (so_loops s ! j)"
  by (cases "i = j") (simp_all add: with_buffer_def)

lemma with_buffer_ok:
  assumes "loops_ok s" "call_ok s"
  shows "loops_ok (with_buffer i b ms s) \<and> call_ok (with_buffer i b ms s) \<and> alive j (with_buffer i b ms s) = alive j s"
proof -
  have "so_call (with_buffer i b ms s) = so_call s" "so_status (with_buffer i b ms s) = so_status s" "so_port (with_buffer i b ms s) = so_port s"
    "so_readLoopPromise (with_buffer i b ms s) = so_readLoopPromise s" "so_reader (with_buffer i b ms s) = so_reader s"
    "so_open (with_buffer i b ms s) = so_open s" by (simp_all add: with_buffer_def)
  moreover have "alive j s \<Longrightarrow> rl_port (so_loops (with_buffer i b ms s) ! j) = rl_port (so_loops s ! j)" for j
    by (rule with_buffer_port) (simp add: alive_def)
  ultimately show ?thesis using assms by (cases "so_call s") (simp_all add: loops_ok_def call_ok_def with_buffer_alive)
qed

lemma serial_step_ok:
  assumes "serial_ok s" "serial_step ev s = Some s'"
  shows "serial_ok s'"
proof -
  note s = assms(1) [unfolded serial_ok_def]
  show ?thesis
  proof (cases ev)
    case (Connect supported)
    then have c: "so_call s = NoCall" and s': "s' = connect_call supported s"
      using assms(2) by (auto simp: serial_step_def split: if_splits)
    show ?thesis
    proof (cases "serial_isConnected s")
      case True
      then show ?thesis using s c unfolding s' connect_call_def by (auto simp: serial_ok_def loops_ok_def call_ok_def)
    next
      case False
      then have "so_status s \<notin> {Connected, Disconnecting}" using s c by (auto simp: call_ok_def serial_isConnected_def)
      then have "\<not> alive i s" for i using s dead_outside by blast
      then show ?thesis using False unfolding s' connect_call_def by (simp add: serial_ok_def loops_ok_def call_ok_def alive_def)
    qed
  next
    case (PortRequested answer)
    then have c: "so_call s = RequestingPort" and s': "s' = port_requested answer s"
      using assms(2) by (auto simp: serial_step_def split: if_splits)
    have dead: "\<not> alive i s" for i using s c dead_outside [of s i] by (simp add: call_ok_def)
    then show ?thesis using s c dead_connects(1) [OF dead] unfolding s' port_requested_def
      by (auto simp: serial_ok_def loops_ok_def call_ok_def alive_def split: option.split)
  next
    case (PortOpened ok readable)
    then obtain p where c: "so_call s = OpeningPort p" "ok \<longrightarrow> p \<notin> set (so_open s)" and s': "s' = port_opened p ok readable s"
      using assms(2) by (auto simp: serial_step_def split: serial_call.splits if_splits)
    have dead: "\<not> alive i s" for i using s c dead_outside [of s i] by (simp add: call_ok_def)
    show ?thesis using dead_connects [OF dead] c(2) unfolding s' by (cases ok) (simp_all add: port_opened_def)
  next
    case Disconnect
    then have s': "s' = disconnect_call s" and c: "so_call s = NoCall" using assms(2) by (auto simp: serial_step_def split: if_splits)
    show ?thesis
    proof (cases "so_port s")
      case None
      then show ?thesis using s unfolding s' disconnect_call_def by (auto simp: serial_ok_def loops_ok_def call_ok_def)
    next
      case (Some p)
      have l: "loops_ok (serial_setStatus Disconnecting s)" using s by (auto simp: loops_ok_def)
      show ?thesis
      proof (cases "so_reader s")
        case None
        then show ?thesis using await_loop_ok [OF l] Some unfolding s' disconnect_call_def by (simp add: Let_def)
      next
        case (Some i)
        then show ?thesis using l \<open>so_port s = Some p\<close> unfolding s' disconnect_call_def
          by (simp add: Let_def serial_ok_def call_ok_def loops_ok_def alive_def)
      qed
    qed
  next
    case ReaderCancelled
    then obtain p where "so_call s = CancellingReader p" "s' = await_loop p s"
      using assms(2) by (auto simp: serial_step_def split: serial_call.splits)
    then show ?thesis using s await_loop_ok [of s p] by (simp add: call_ok_def)
  next
    case LoopAwaited
    then obtain p i where c: "so_call s = AwaitingLoop p i" "\<not> alive i s" "s' = close_port p s"
      using assms(2) by (auto simp: serial_step_def split: serial_call.splits if_splits)
    then have "\<not> alive j s" for j using s by (auto simp: call_ok_def loops_ok_def)
    then show ?thesis using s c close_port_ok [of s p] by (simp add: call_ok_def)
  next
    case (PortClosed ok)
    then obtain p where "so_call s = ClosingPort p" "s' = port_closed p ok s"
      using assms(2) by (auto simp: serial_step_def split: serial_call.splits)
    then show ?thesis using s by (auto simp: port_closed_def serial_ok_def call_ok_def loops_ok_def alive_def)
  next
    case (ChunkRead i chunk)
    then have a: "alive i s" and s': "s' = chunk_read i chunk s" using assms(2) by (auto simp: serial_step_def split: if_splits)
    obtain b ms where f: "feed (rl_buffer (so_loops s ! i)) chunk = (b, ms)" by (cases "feed (rl_buffer (so_loops s ! i)) chunk")
    define s1 where "s1 = with_buffer i b ms s"
    have ok: "loops_ok s1" "call_ok s1" "so_status s1 = Connected \<longrightarrow> so_port s1 \<noteq> None" "alive i s1"
      using with_buffer_ok [of s i b ms] s a unfolding s1_def by (simp_all add: with_buffer_def)
    show ?thesis
      using ok end_loop_ok [OF ok(1,4) _ _ _ _ _ ok(2,3), of "serial_emit (map Message (finish b)) s1"]
      unfolding s' chunk_read_def Let_def f prod.case s1_def [unfolded with_buffer_def, symmetric] by (simp add: serial_ok_def)
  next
    case (StreamEnded i)
    then show ?thesis using assms(2) s end_loop_ok [of s i]
      by (auto simp: serial_step_def stream_ended_def split: if_splits)
  next
    case (ReadFailed i)
    then have a: "alive i s" and s': "s' = read_failed i s" using assms(2) by (auto simp: serial_step_def split: if_splits)
    have "so_status s \<noteq> Disconnecting \<Longrightarrow> so_call s = NoCall" using s a by (auto simp: loops_ok_def call_ok_def split: serial_call.splits)
    then show ?thesis using s a end_loop_ok [of s i s] end_loop_ok [of s i "serial_setStatus SerialError s"] unfolding s' read_failed_def by auto
  qed
qed

lemma serial_run_ok: "serial_ok s \<Longrightarrow> serial_run evs s = Some s' \<Longrightarrow> serial_ok s'"
  by (induction evs arbitrary: s) (auto dest: serial_step_ok split: bind_splits)

lemma new_serial_ok: "serial_ok new_serial"
  by (simp add: serial_ok_def loops_ok_def call_ok_def new_serial_def alive_def)

text \<open>C34. In every reachable state of the serial console at most one read loop is running; it reads the current port, which is open,
  while the console is connected or disconnecting, and when a disconnect closes a port none is running, so that no reader locks
  its stream. A console that is connected has a port.\<close>

theorem serial_consistent:
  assumes "serial_run evs new_serial = Some s"
  shows "(alive i s \<and> alive j s \<longrightarrow> i = j) \<and>
    (alive i s \<longrightarrow> so_port s = Some (rl_port (so_loops s ! i)) \<and> rl_port (so_loops s ! i) \<in> set (so_open s) \<and>
       so_status s \<in> {Connected, Disconnecting}) \<and>
    (so_call s = ClosingPort p \<longrightarrow> \<not> alive i s) \<and> (so_status s = Connected \<longrightarrow> serial_isConnected s)"
proof -
  have ok: "loops_ok s" "call_ok s" "so_status s = Connected \<longrightarrow> so_port s \<noteq> None"
    using serial_run_ok [OF new_serial_ok assms] by (simp_all add: serial_ok_def)
  have "alive i s \<Longrightarrow> alive j s \<Longrightarrow> i = j" using ok(1) unfolding loops_ok_def by (metis option.inject)
  moreover have "so_call s = ClosingPort p \<Longrightarrow> \<not> alive i s" using ok(2) by (simp add: call_ok_def)
  ultimately show ?thesis using ok unfolding loops_ok_def serial_isConnected_def by blast
qed

lemma serial_consistent_witness:
  "\<exists>s. serial_run [Connect True, PortRequested (Some 7), PortOpened True True, ChunkRead 0 ''ab'', Disconnect, ReaderCancelled, StreamEnded 0,
      LoopAwaited] new_serial = Some s \<and> so_call s = ClosingPort 7 \<and> \<not> alive 0 s"
proof -
  let ?evs = "[Connect True, PortRequested (Some 7), PortOpened True True, ChunkRead 0 ''ab'', Disconnect, ReaderCancelled, StreamEnded 0,
      LoopAwaited]"
  have "map_option so_call (serial_run ?evs new_serial) = Some (ClosingPort 7)" by code_simp
  then obtain s where s: "serial_run ?evs new_serial = Some s" "so_call s = ClosingPort 7" by auto
  then show ?thesis using serial_consistent [OF s(1), of 0 0 7] by blast
qed

subsection \<open>The messages\<close>

text \<open>The text cut at line feeds only.\<close>

fun split_raw :: "string \<Rightarrow> string list" where
  "split_raw [] = [[]]"
| "split_raw (c # s) = (if c = CHR 0x0A then [] # split_raw s else (c # hd (split_raw s)) # tl (split_raw s))"

lemma split_raw_nonempty [simp]: "split_raw s \<noteq> []"
  by (cases s) simp_all

lemma split_lines_raw:
  "split_lines line s = (let ls = (rev line @ hd (split_raw s)) # tl (split_raw s) in map drop_cr (butlast ls) @ [last ls])"
proof (induction s arbitrary: line)
  case (Cons c s)
  have "hd (split_raw s) # tl (split_raw s) = split_raw s" by simp
  then show ?case using Cons.IH [of "[]"] Cons.IH [of "c # line"] by (cases "tl (split_raw s) = []") (simp_all add: Let_def)
qed (simp add: Let_def)

lemma split_raw_append: "split_raw (a @ b) = butlast (split_raw a) @ split_raw (last (split_raw a) @ b)"
proof (induction a)
  case (Cons c a)
  obtain l ls where a: "split_raw a = l # ls" by (cases "split_raw a") simp_all
  show ?case using Cons.IH by (cases "ls = []") (auto simp: a)
qed simp

lemma trim_end_drop_cr: "trim_end (drop_cr l) = trim_end l"
proof (cases "l \<noteq> [] \<and> last l = CHR 0x0D")
  case True
  then have "l = butlast l @ [CHR 0x0D]" by (metis append_butlast_last_id)
  moreover have "trim_end (a @ [CHR 0x0D]) = trim_end a" for a by (simp add: trim_end_def is_space_def)
  ultimately have "trim_end l = trim_end (butlast l)" by metis
  then show ?thesis using True by (simp add: drop_cr_def)
qed (auto simp: drop_cr_def)

definition text_messages :: "string list \<Rightarrow> string list" where
  "text_messages ls = filter (\<lambda>l. l \<noteq> []) (map trim_end (butlast ls)) @ finish (last ls)"

lemma feed_raw:
  "feed buffer chunk = (last (split_raw (buffer @ chunk)), filter (\<lambda>l. l \<noteq> []) (map trim_end (butlast (split_raw (buffer @ chunk)))))"
proof -
  have "split_lines [] s = map drop_cr (butlast (split_raw s)) @ [last (split_raw s)]" for s
    by (simp add: split_lines_raw Let_def)
  moreover have "map trim_end (map drop_cr ls) = map trim_end ls" for ls by (simp add: trim_end_drop_cr)
  ultimately show ?thesis by (simp add: feed_def Let_def del: map_map)
qed

lemma split_raw_lines:
  "(\<And>l. l \<in> set ls \<Longrightarrow> CHR 0x0A \<notin> set l) \<Longrightarrow> CHR 0x0A \<notin> set rest \<Longrightarrow>
   split_raw (concat (map (\<lambda>l. l @ [CHR 0x0A]) ls) @ rest) = ls @ [rest]"
proof (induction ls)
  case Nil
  then show ?case by (induction rest) auto
next
  case (Cons l ls)
  have "split_raw (l @ CHR 0x0A # t) = l # split_raw t" if "CHR 0x0A \<notin> set l" for l t
    using that by (induction l) auto
  then show ?case using Cons by simp
qed

lemma split_raw_no_lf: "split_raw (last (split_raw s)) = [last (split_raw s)]"
proof (induction s)
  case (Cons c s)
  obtain l ls where s: "split_raw s = l # ls" by (cases "split_raw s") simp_all
  show ?case using Cons.IH by (cases "ls = []") (auto simp: s)
qed simp

lemma read_stream_raw: "split_raw buffer = [buffer] \<Longrightarrow> read_stream buffer chunks = text_messages (split_raw (buffer @ concat chunks))"
proof (induction chunks arbitrary: buffer)
  case Nil
  then show ?case by (simp add: text_messages_def)
next
  case (Cons chunk chunks)
  let ?ls = "split_raw (buffer @ chunk)"
  have "split_raw (buffer @ concat (chunk # chunks)) = butlast ?ls @ split_raw (last ?ls @ concat chunks)"
    using split_raw_append [of "buffer @ chunk" "concat chunks"] by simp
  moreover have "read_stream (last ?ls) chunks = text_messages (split_raw (last ?ls @ concat chunks))"
    by (rule Cons.IH) (rule split_raw_no_lf)
  ultimately show ?case by (simp add: feed_raw text_messages_def butlast_append)
qed

text \<open>C35. The messages of the serial console do not depend on how the text arrives: whatever chunks a stream is cut into, the console
  reports the lines of the whole text, in order, without trailing white space and without those that are blank, and then
  what is left after the last line feed.\<close>

theorem serial_lines:
  assumes "concat chunks = concat (map (\<lambda>l. l @ [CHR 0x0A]) ls) @ rest" "\<And>l. l \<in> set ls \<Longrightarrow> CHR 0x0A \<notin> set l" "CHR 0x0A \<notin> set rest"
  shows "read_stream [] chunks = filter (\<lambda>l. l \<noteq> []) (map trim_end ls) @ (if trim rest = [] then [] else [trim rest])"
  using read_stream_raw [of "[]" chunks] assms(1) split_raw_lines [OF assms(2,3)]
  by (simp add: text_messages_def finish_def Let_def)

lemma serial_lines_witness:
  "read_stream [] [''<p'', ''1>'' @ [CHR 0x0D], [CHR 0x0A] @ ''<H 1''] = [''<p1>'', ''<H 1'']"
  using serial_lines [of "[''<p'', ''1>'' @ [CHR 0x0D], [CHR 0x0A] @ ''<H 1'']" "[''<p1>'' @ [CHR 0x0D]]" "''<H 1''"]
  by (simp add: trim_def trim_end_def is_space_def)

end
