(* ===== verification/ViewJson.thy ===== *)
theory ViewJson
  imports Commands
begin

text \<open>
  Saving and loading the elements of a layout page: \<open>fromJSON\<close> and \<open>toJSON\<close> of the classes in \<open>models/editor/elements\<close> and
  \<open>core/ElementFactory.ts\<close>. What is loaded is unknown JSON, and a field holds what was read. Since these methods assign and list
  fields one by one, a class is a table: the fields its constructor sets besides those of \<open>BaseElement\<close>, the fields \<open>fromJSON\<close>
  assigns and from what value of the property of the same name, and the properties \<open>toJSON\<close> adds to those of \<open>BaseElement\<close>. Turnouts
  are as \<open>installTurnoutAccessoryModes\<close> leaves them; signals are in theory \<open>SignalElement\<close>. Random ids are an argument. Between saving and
  loading there is JSON text, which cannot hold \<open>undefined\<close> and numbers that are not finite.
\<close>

subsection \<open>Classes as tables\<close>

type_synonym element_fields = "(string \<times> jsval) list"

record view_class =
  vc_type :: string
  vc_fields :: element_fields
  vc_reads :: "(string \<times> (jsval \<Rightarrow> jsval)) list"
  vc_writes :: "(string \<times> (jsval \<Rightarrow> jsval)) list"

definition field :: "element_fields \<Rightarrow> string \<Rightarrow> jsval" where
  "field e k = (case map_of e k of Some v \<Rightarrow> v | None \<Rightarrow> JUndef)"

definition element_base :: "string \<Rightarrow> jsval \<Rightarrow> jsval \<Rightarrow> element_fields" where
  "element_base type x y =
     [(''id'', js_int 0), (''type'', JStr type), (''name'', JStr ''element''), (''layerName'', JStr ''track''), (''x'', x), (''y'', y),
      (''w'', js_int 1), (''h'', js_int 1), (''rotation'', js_int 0), (''rotationStep'', js_int 0), (''bg'', JStr ''black''), (''fg'', JStr ''white'')]"

definition construct :: "view_class \<Rightarrow> jsval \<Rightarrow> jsval \<Rightarrow> element_fields" where
  "construct c x y = fold (\<lambda>(k, v). AList.update k v) (vc_fields c) (element_base (vc_type c) x y)"

definition view_fromJSON :: "view_class \<Rightarrow> jsval \<Rightarrow> element_fields" where
  "view_fromJSON c data =
     fold (\<lambda>(k, r). AList.update k (r (js_get data k))) (vc_reads c) (construct c (js_get data ''x'') (js_get data ''y''))"

definition base_written :: "string list" where
  "base_written = [''id'', ''type'', ''name'', ''layerName'', ''x'', ''y'', ''w'', ''h'', ''rotation'', ''rotationStep'', ''bg'', ''fg'']"

definition view_toJSON :: "view_class \<Rightarrow> element_fields \<Rightarrow> jsval" where
  "view_toJSON c e = JObj (fold (\<lambda>(k, g). AList.update k (g (field e k))) (vc_writes c) (map (\<lambda>k. (k, field e k)) base_written))"

subsection \<open>Reading values\<close>

definition keep :: "jsval \<Rightarrow> jsval" where "keep v = v"

definition always :: "jsval \<Rightarrow> jsval \<Rightarrow> jsval" where "always d v = d"

definition nullish :: "jsval \<Rightarrow> jsval \<Rightarrow> jsval" where
  "nullish d v = (case v of JUndef \<Rightarrow> d | JNull \<Rightarrow> d | _ \<Rightarrow> v)"

text \<open>The setter of \<open>id\<close> in \<open>BaseElement\<close>.\<close>

definition assigned_id :: "jsval \<Rightarrow> jsval" where
  "assigned_id v = (case v of JNum (Fin q) \<Rightarrow> if is_whole q \<and> 0 < q \<and> q \<le> 65535 then v else js_int 0 | _ \<Rightarrow> js_int 0)"

definition vpin_or_accessory :: "jsval \<Rightarrow> jsval" where
  "vpin_or_accessory v = (if v = JStr ''vpin'' then JStr ''vpin'' else JStr ''accessory'')"

definition read_behavior :: "jsval \<Rightarrow> jsval" where
  "read_behavior v = (if v = JStr ''push'' \<or> v = JStr ''momentary'' then v else JStr ''toggle'')"

definition pulse_duration :: "jsval \<Rightarrow> jsval" where
  "pulse_duration v =
     JNum (case to_number (nullish (js_int 250) v) of
             NaN \<Rightarrow> NaN | PosInf \<Rightarrow> Fin 10000 | NegInf \<Rightarrow> Fin 50 | Fin q \<Rightarrow> Fin (max 50 (min 10000 q)))"

definition turnout_mode_text :: "jsval \<Rightarrow> jsval" where
  "turnout_mode_text v = turnout_mode_json (normalizeTurnoutOutputMode v)"

definition turnout_aspect :: "int \<Rightarrow> jsval \<Rightarrow> jsval" where
  "turnout_aspect fallback v = js_int (normalizeTurnoutAspect v fallback)"

definition route_turnout_of :: "jsval \<Rightarrow> jsval option" where
  "route_turnout_of item =
     (case js_get item ''turnoutId'' of
        JNum (Fin q) \<Rightarrow>
          if is_whole q \<and> 0 < q
          then Some (JObj [(''turnoutId'', JNum (Fin q)), (''closed'', JBool (to_boolean (js_get item ''closed'')))]) else None
      | _ \<Rightarrow> None)"

definition route_turnouts :: "jsval \<Rightarrow> jsval" where
  "route_turnouts v = JArr (case array_of v of Some xs \<Rightarrow> List.map_filter route_turnout_of xs | None \<Rightarrow> [])"

text \<open>An item of an audio list; \<open>fresh n\<close> is the random id of the item at position \<open>n\<close>. Arrays are objects too.\<close>

definition is_object :: "jsval \<Rightarrow> bool" where
  "is_object v = (case v of JObj kvs \<Rightarrow> True | JArr xs \<Rightarrow> True | _ \<Rightarrow> False)"

definition audio_item :: "string \<Rightarrow> jsval \<Rightarrow> jsval" where
  "audio_item fresh item =
     JObj [(''id'', case js_get item ''id'' of JStr s \<Rightarrow> JStr (if s \<noteq> [] then s else fresh) | _ \<Rightarrow> JStr fresh),
           (''name'', case js_get item ''name'' of JStr s \<Rightarrow> JStr s | _ \<Rightarrow> JStr ''Audio''),
           (''fileName'', case js_get item ''fileName'' of JStr s \<Rightarrow> JStr s | _ \<Rightarrow> JStr [])]"

definition audio_items :: "(nat \<Rightarrow> string) \<Rightarrow> jsval \<Rightarrow> jsval" where
  "audio_items fresh v =
     JArr (case array_of v of
             Some xs \<Rightarrow> (let items = filter is_object xs in map (\<lambda>n. audio_item (fresh n) (items ! n)) [0..<length items])
           | None \<Rightarrow> [])"

subsection \<open>The classes\<close>

definition plain :: "string list \<Rightarrow> (string \<times> (jsval \<Rightarrow> jsval)) list" where
  "plain ks = map (\<lambda>k. (k, keep)) ks"

definition num_field :: "string \<Rightarrow> int \<Rightarrow> string \<times> jsval" where "num_field k n = (k, js_int n)"

definition text_field :: "string \<Rightarrow> string \<Rightarrow> string \<times> jsval" where "text_field k t = (k, JStr t)"

definition bool_field :: "string \<Rightarrow> bool \<Rightarrow> string \<times> jsval" where "bool_field k b = (k, JBool b)"

text \<open>What most classes of controls read, and the classes of track.\<close>

definition control_reads :: "(string \<times> (jsval \<Rightarrow> jsval)) list" where
  "control_reads = (''id'', assigned_id) # plain [''name'', ''rotation'', ''bg'', ''fg'']"

definition track_reads :: "(string \<times> (jsval \<Rightarrow> jsval)) list" where
  "track_reads = (''id'', assigned_id) # plain [''name'', ''layerName'', ''rotation'', ''rotationStep'', ''address'', ''length'', ''bg'', ''fg'']"

definition track_class :: "string \<Rightarrow> int \<Rightarrow> element_fields \<Rightarrow> (string \<times> (jsval \<Rightarrow> jsval)) list \<Rightarrow> (string \<times> (jsval \<Rightarrow> jsval)) list \<Rightarrow> view_class" where
  "track_class type step extra reads writes =
     \<lparr>vc_type = type, vc_fields = [num_field ''address'' 0, num_field ''length'' 200, num_field ''rotationStep'' step] @ extra,
      vc_reads = track_reads @ reads, vc_writes = plain [''address'', ''length''] @ writes\<rparr>"

definition TrackStraight_class :: view_class where "TrackStraight_class = track_class ''trackstraight'' 45 [] [] []"
definition TrackDirection_class :: view_class where "TrackDirection_class = track_class ''trackdirection'' 45 [] [] []"
definition TrackEnd_class :: view_class where "TrackEnd_class = track_class ''trackend'' 45 [] [] []"
definition TrackCorner_class :: view_class where "TrackCorner_class = track_class ''trackcorner'' 90 [] [] []"
definition TrackCurve_class :: view_class where "TrackCurve_class = track_class ''trackcurve'' 45 [] [] []"
definition TrackCrossing_class :: view_class where "TrackCrossing_class = track_class ''trackcrossing'' 45 [] [] []"

definition TrackLevelCrossing_class :: view_class where
  "TrackLevelCrossing_class =
     track_class ''tracklevelcrossing'' 45
       [text_field ''name'' ''Level crossing'', num_field ''basicAccessoryAddress'' 0, bool_field ''basicAccessoryClosedValue'' True,
        text_field ''barrierType'' ''half'', bool_field ''barrierClosed'' False, bool_field ''lightsEnabled'' True,
        bool_field ''blinkingEnabled'' True, text_field ''roadColor'' ''#6c757d'']
       (plain [''roadColor'', ''barrierType'', ''lightsEnabled'', ''blinkingEnabled'', ''basicAccessoryAddress'', ''basicAccessoryClosedValue''])
       (plain [''basicAccessoryAddress'', ''basicAccessoryClosedValue'', ''barrierType'', ''barrierClosed'', ''lightsEnabled'',
          ''blinkingEnabled'', ''roadColor''])"

definition single_turnout_class :: "string \<Rightarrow> view_class" where
  "single_turnout_class type =
     track_class type 45
       [text_field ''outputMode'' ''accessory'', num_field ''turnoutAddress'' 0, bool_field ''turnoutClosedValue'' False]
       [(''turnoutAddress'', nullish (js_int 0)), (''turnoutClosedValue'', keep), (''outputMode'', turnout_mode_text),
        (''turnoutClosedAspect'', turnout_aspect 0), (''turnoutOpenedAspect'', turnout_aspect 1)]
       [(''turnoutAddress'', keep), (''turnoutClosedValue'', keep), (''outputMode'', turnout_mode_text),
        (''turnoutClosedAspect'', turnout_aspect 0), (''turnoutOpenedAspect'', turnout_aspect 1)]"

definition TrackTurnoutLeft_class :: view_class where "TrackTurnoutLeft_class = single_turnout_class ''trackturnoutleft''"
definition TrackTurnoutRight_class :: view_class where "TrackTurnoutRight_class = single_turnout_class ''trackturnoutright''"

definition TrackTurnoutTwoWay_class :: view_class where
  "TrackTurnoutTwoWay_class = track_class ''trackturnouttwoway'' 45 [num_field ''turnoutAddress'' 0] [] []"

definition TrackTurnoutDouble_class :: view_class where
  "TrackTurnoutDouble_class =
     track_class ''trackturnoutdouble'' 45
       [num_field ''turnout1Address'' 0, text_field ''outputMode'' ''accessory'', num_field ''turnout2Address'' 0,
        bool_field ''turnout1ClosedValue'' True, bool_field ''turnout2ClosedValue'' True]
       [(''turnout1Address'', keep), (''turnout2Address'', keep), (''turnout1ClosedValue'', nullish (JBool True)),
        (''turnout2ClosedValue'', nullish (JBool True)), (''outputMode'', turnout_mode_text),
        (''turnout1ClosedAspect'', turnout_aspect 0), (''turnout1OpenedAspect'', turnout_aspect 1),
        (''turnout2ClosedAspect'', turnout_aspect 0), (''turnout2OpenedAspect'', turnout_aspect 1)]
       [(''turnout1Address'', keep), (''turnout2Address'', keep), (''turnout1ClosedValue'', keep), (''turnout2ClosedValue'', keep),
        (''outputMode'', turnout_mode_text), (''turnout1ClosedAspect'', turnout_aspect 0), (''turnout1OpenedAspect'', turnout_aspect 1),
        (''turnout2ClosedAspect'', turnout_aspect 0), (''turnout2OpenedAspect'', turnout_aspect 1)]"

definition TrackSensor_class :: view_class where
  "TrackSensor_class =
     track_class ''tracksensor'' 0
       [text_field ''layerName'' ''sensors'', num_field ''kind'' 1, text_field ''colorOn'' ''lime'', text_field ''colorOff'' ''green'',
        text_field ''textOn'' ''ON'', text_field ''textOff'' ''OFF'', num_field ''radius'' 6]
       [(''kind'', keep), (''colorOn'', keep), (''colorOff'', keep), (''radius'', nullish (js_int 6))]
       (plain [''kind'', ''colorOn'', ''colorOff'', ''radius''])"

text \<open>The block does not keep its length as read when it is absent, nor the locomotive on it.\<close>

definition TrackBlock_class :: view_class where
  "TrackBlock_class =
     \<lparr>vc_type = ''trackblock'',
      vc_fields = [num_field ''address'' 0, num_field ''length'' 1, text_field ''layerName'' ''blocks'', num_field ''rotationStep'' 90,
        num_field ''w'' 3, num_field ''h'' 1, num_field ''locoAddress'' 0, num_field ''sensorAddress'' 0, text_field ''blockType'' ''normal''],
      vc_reads = (''id'', assigned_id) # plain [''name'', ''layerName'', ''rotation'', ''rotationStep'', ''bg'', ''fg'', ''address''] @
        [(''length'', nullish (js_int 100)), (''sensorAddress'', nullish (js_int 0)), (''locoAddress'', always (js_int 0)),
         (''blockType'', nullish (JStr ''normal''))],
      vc_writes = plain [''address'', ''length''] @ [(''locoAddress'', always (js_int 0))] @ plain [''sensorAddress'', ''blockType'']\<rparr>"

definition control_class :: "string \<Rightarrow> element_fields \<Rightarrow> (string \<times> (jsval \<Rightarrow> jsval)) list \<Rightarrow> string list \<Rightarrow> view_class" where
  "control_class type extra reads writes =
     \<lparr>vc_type = type, vc_fields = extra, vc_reads = control_reads @ reads, vc_writes = plain writes\<rparr>"

definition Button_class :: view_class where
  "Button_class =
     control_class ''button''
       [text_field ''outputMode'' ''accessory'', text_field ''behavior'' ''toggle'', num_field ''pulseDurationMs'' 250, num_field ''address'' 0,
        bool_field ''activeValue'' True, text_field ''colorOn'' ''lime'', text_field ''colorOff'' ''green'', text_field ''textOn'' ''ON'',
        text_field ''textOff'' ''OFF'']
       [(''address'', keep), (''outputMode'', vpin_or_accessory), (''behavior'', read_behavior), (''pulseDurationMs'', pulse_duration),
        (''activeValue'', nullish (JBool True)), (''colorOn'', keep), (''colorOff'', keep), (''textOn'', keep), (''textOff'', keep)]
       [''outputMode'', ''behavior'', ''pulseDurationMs'', ''address'', ''activeValue'', ''colorOn'', ''colorOff'', ''textOn'', ''textOff'']"

definition ButtonScript_class :: view_class where
  "ButtonScript_class =
     control_class ''buttonscript''
       [num_field ''address'' 0, text_field ''colorOn'' ''lime'', text_field ''colorOff'' ''green'', text_field ''textOn'' ''ON'',
        text_field ''textOff'' ''OFF'', text_field ''script'' []]
       (plain [''colorOn'', ''colorOff'', ''textOn'', ''textOff'', ''script'']) [''colorOn'', ''colorOff'', ''textOn'', ''textOff'', ''script'']"

definition buildings_fields :: "int \<Rightarrow> element_fields" where
  "buildings_fields step = [text_field ''layerName'' ''buildings'', num_field ''rotationStep'' step]"

definition AudioButton_class :: view_class where
  "AudioButton_class =
     control_class ''audiobutton'' (buildings_fields 45 @ [text_field ''fileName'' [], text_field ''label'' ''Audio''])
       (plain [''fileName'', ''label'']) [''fileName'', ''label'', ''bg'']"

definition AudioListButton_class :: "(nat \<Rightarrow> string) \<Rightarrow> view_class" where
  "AudioListButton_class fresh =
     control_class ''audiolistbutton''
       (buildings_fields 45 @ [text_field ''bg'' ''#f8f9fa'', text_field ''fg'' ''#212529'', text_field ''label'' ''Audio list'', (''audioItems'', JArr [])])
       [(''rotationStep'', keep), (''label'', nullish (JStr ''Audio list'')), (''audioItems'', audio_items fresh)] [''label'', ''audioItems'']"

definition RouteButton_class :: view_class where
  "RouteButton_class =
     control_class ''routebutton'' (buildings_fields 45 @ [text_field ''label'' ''Route'', text_field ''colorOn'' ''lime'', (''routeTurnouts'', JArr [])])
       [(''colorOn'', keep), (''label'', keep), (''routeTurnouts'', route_turnouts)] [''label'', ''colorOn'', ''routeTurnouts'']"

definition ExtendedRouteButton_class :: view_class where
  "ExtendedRouteButton_class =
     control_class ''extendedroutebutton''
       (buildings_fields 0 @ [text_field ''label'' ''AUTO ROUTE'', num_field ''fromBlockId'' 0, num_field ''toBlockId'' 0,
          text_field ''fromSection'' [], text_field ''toSection'' []])
       [(''label'', nullish (JStr ''AUTO ROUTE'')), (''fromBlockId'', nullish (js_int 0)), (''toBlockId'', nullish (js_int 0)),
        (''fromSection'', nullish (JStr [])), (''toSection'', nullish (JStr []))] [''label'', ''fromBlockId'', ''toBlockId'']"

definition Clock_class :: view_class where
  "Clock_class = control_class ''clcok'' [num_field ''w'' 3, num_field ''h'' 3] [] []"

definition Tree_class :: view_class where
  "Tree_class = control_class ''tree'' (buildings_fields 45) [] []"

definition Label_class :: view_class where
  "Label_class =
     \<lparr>vc_type = ''label'',
      vc_fields = buildings_fields 45 @ [text_field ''text'' ''Label'', num_field ''fontSize'' 12, text_field ''color'' ''#ffffff'',
        text_field ''alignment'' ''center'', num_field ''offsetY'' 0, num_field ''offsetX'' 0],
      vc_reads = [(''id'', assigned_id), (''text'', keep), (''fontSize'', keep), (''color'', nullish (JStr ''#ffffff'')), (''alignment'', keep),
        (''offsetY'', nullish (js_int 0)), (''offsetX'', nullish (js_int 0)), (''rotation'', keep), (''bg'', keep), (''fg'', keep)],
      vc_writes = plain [''text'', ''fontSize'', ''color'', ''alignment'', ''offsetY'', ''offsetX'']\<rparr>"

subsection \<open>The factory\<close>

definition view_classes :: "(nat \<Rightarrow> string) \<Rightarrow> view_class list" where
  "view_classes fresh =
     [TrackStraight_class, TrackLevelCrossing_class, TrackDirection_class, TrackEnd_class, TrackCorner_class, TrackCurve_class, TrackCrossing_class,
      TrackTurnoutLeft_class, TrackTurnoutRight_class, TrackTurnoutTwoWay_class, TrackTurnoutDouble_class, TrackSensor_class,
      Button_class, ButtonScript_class, AudioButton_class, AudioListButton_class fresh, RouteButton_class, ExtendedRouteButton_class,
      Clock_class, TrackBlock_class, Tree_class, Label_class]"

text \<open>A signal goes on to theory \<open>SignalElement\<close>.\<close>

datatype created = ElementOf string element_fields | SignalFrom jsval

definition create :: "(nat \<Rightarrow> string) \<Rightarrow> jsval \<Rightarrow> string + created" where
  "create fresh data =
     (case js_get data ''type'' of
        JStr t \<Rightarrow>
          (case find (\<lambda>c. vc_type c = t) (view_classes fresh) of
             Some c \<Rightarrow> Inr (ElementOf t (view_fromJSON c data))
           | None \<Rightarrow> if t \<in> {''tracksignal2'', ''tracksignal3'', ''tracksignal4''} then Inr (SignalFrom data)
                     else Inl ''Unsupported element type'')
      | _ \<Rightarrow> Inl ''Unsupported element type'')"

definition createMany :: "(nat \<Rightarrow> nat \<Rightarrow> string) \<Rightarrow> jsval list \<Rightarrow> string + created list" where
  "createMany fresh elements = map_r (\<lambda>n. create (fresh n) (elements ! n)) [0..<length elements]"

definition toJSON_of :: "string \<Rightarrow> element_fields \<Rightarrow> jsval" where
  "toJSON_of t e = (case find (\<lambda>c. vc_type c = t) (view_classes (\<lambda>n. [])) of Some c \<Rightarrow> view_toJSON c e | None \<Rightarrow> JUndef)"

text \<open>The JSON text in between: what \<open>JSON.parse\<close> makes of what \<open>JSON.stringify\<close> writes. Numbers that are not finite become
  \<open>null\<close>, as does \<open>undefined\<close> in an array; a property that is \<open>undefined\<close> is left out.\<close>

fun through_json :: "jsval \<Rightarrow> jsval" where
  "through_json JUndef = JNull"
| "through_json JNull = JNull"
| "through_json (JBool b) = JBool b"
| "through_json (JNum n) = (case n of Fin q \<Rightarrow> JNum (Fin q) | _ \<Rightarrow> JNull)"
| "through_json (JStr t) = JStr t"
| "through_json (JArr xs) = JArr (map through_json xs)"
| "through_json (JObj kvs) = JObj (filter (\<lambda>(k, v). v \<noteq> JUndef) (map (\<lambda>(k, v). (k, if v = JUndef then JUndef else through_json v)) kvs))"

definition saved_json :: "string \<Rightarrow> element_fields \<Rightarrow> jsval" where
  "saved_json t e = through_json (toJSON_of t e)"

subsection \<open>Through the text\<close>

definition through_prop :: "jsval \<Rightarrow> jsval" where
  "through_prop v = (if v = JUndef then JUndef else through_json v)"

definition parsed_value :: "jsval \<Rightarrow> bool" where
  "parsed_value v \<longleftrightarrow> v = JUndef \<or> through_json v = v"

lemma through_JUndef [simp]: "through_json v \<noteq> JUndef" "(JUndef = through_json v) = False"
  by (cases v; simp split: jsnum.split)+

lemma through_obj: "through_json (JObj kvs) = JObj (filter (\<lambda>(k, v). v \<noteq> JUndef) (map (\<lambda>(k, v). (k, through_prop v)) kvs))"
  by (simp add: through_prop_def)

lemma through_prop_JUndef [simp]: "through_prop v = JUndef \<longleftrightarrow> v = JUndef"
  by (simp add: through_prop_def)

lemma parsed_prop: "parsed_value v \<longleftrightarrow> through_prop v = v"
  by (auto simp: parsed_value_def through_prop_def)

lemma through_again: "through_json (through_json v) = through_json v"
proof (induction v rule: through_json.induct)
  case (4 n)
  then show ?case by (simp split: jsnum.split)
next
  case (7 kvs)
  have e: "through_prop (through_prop v) = through_prop v" if "(k, v) \<in> set kvs" for k v
    using 7 [OF that, of k v] by (auto simp: through_prop_def)
  have "filter (\<lambda>(k, v). v \<noteq> JUndef) (map (\<lambda>(k, v). (k, through_prop v)) (filter (\<lambda>(k, v). v \<noteq> JUndef) (map (\<lambda>(k, v). (k, through_prop v)) xs))) =
      filter (\<lambda>(k, v). v \<noteq> JUndef) (map (\<lambda>(k, v). (k, through_prop v)) xs)" if "set xs \<subseteq> set kvs" for xs
    using that by (induction xs) (auto simp: e)
  then show ?case unfolding through_obj by simp
qed simp_all

lemma parsed_get: "parsed_value (js_get (through_json d) k)"
proof (cases d)
  case (JObj kvs)
  have "parsed_value v" if "(k, v) \<in> set (filter (\<lambda>(k, v). v \<noteq> JUndef) (map (\<lambda>(k, v). (k, through_prop v)) kvs))" for v
    using that by (auto simp: parsed_value_def through_prop_def through_again)
  then show ?thesis unfolding JObj through_obj js_get_JObj by (auto simp: parsed_value_def [of JUndef] split: option.split dest!: map_of_SomeD)
qed (simp_all add: js_get_def parsed_value_def split: jsnum.split)

lemma map_of_through:
  "distinct (map fst kvs) \<Longrightarrow> map_of (filter (\<lambda>(k, v). v \<noteq> JUndef) (map (\<lambda>(k, v). (k, through_prop v)) kvs)) k =
     (case map_of kvs k of Some v \<Rightarrow> if v = JUndef then None else Some (through_prop v) | None \<Rightarrow> None)"
proof (induction kvs)
  case (Cons kv kvs)
  obtain a v where kv: "kv = (a, v)" by (cases kv)
  have "a = k \<Longrightarrow> map_of kvs k = None" using Cons.prems by (simp add: kv map_of_eq_None_iff)
  then show ?case using Cons by (cases "a = k") (simp_all add: kv)
qed simp

lemma get_through: "distinct (map fst kvs) \<Longrightarrow> js_get (through_json (JObj kvs)) k = through_prop (js_get (JObj kvs) k)"
  unfolding through_obj js_get_JObj by (simp add: map_of_through through_prop_def [of JUndef] split: option.split)

lemma through_cong:
  assumes "map fst xs = map fst ys" and "distinct (map fst xs)" and "\<And>k. through_prop (js_get (JObj xs) k) = through_prop (js_get (JObj ys) k)"
  shows "through_json (JObj xs) = through_json (JObj ys)"
proof -
  have "map (\<lambda>(k, v). (k, through_prop v)) xs = map (\<lambda>(k, v). (k, through_prop v)) ys"
  proof (rule nth_equalityI)
    show "length (map (\<lambda>(k, v). (k, through_prop v)) xs) = length (map (\<lambda>(k, v). (k, through_prop v)) ys)"
      using assms(1) by (metis length_map)
    fix i assume "i < length (map (\<lambda>(k, v). (k, through_prop v)) xs)"
    then have i: "i < length xs" "i < length ys" using assms(1) by (simp_all, metis length_map)
    have k: "fst (xs ! i) = fst (ys ! i)" using assms(1) i by (metis nth_map)
    have at: "js_get (JObj zs) (fst (zs ! i)) = snd (zs ! i)" if "distinct (map fst zs)" "i < length zs" for zs
      using map_of_is_SomeI [OF that(1), of "fst (zs ! i)" "snd (zs ! i)"] that(2) by (simp add: js_get_JObj)
    have "js_get (JObj xs) (fst (xs ! i)) = snd (xs ! i)" using assms(2) i(1) by (rule at)
    moreover have "js_get (JObj ys) (fst (ys ! i)) = snd (ys ! i)" using assms(1,2) i(2) by (intro at) simp_all
    ultimately have "through_prop (snd (xs ! i)) = through_prop (snd (ys ! i))" using assms(3) k by metis
    then show "map (\<lambda>(k, v). (k, through_prop v)) xs ! i = map (\<lambda>(k, v). (k, through_prop v)) ys ! i"
      using i k by (simp add: split_beta)
  qed
  then show ?thesis by (simp only: through_obj)
qed

subsection \<open>Repeated saving\<close>

lemma fold_update:
  "map_of (fold (\<lambda>(k, v). AList.update k (F k v)) xs e) k = (case map_of (rev xs) k of Some v \<Rightarrow> Some (F k v) | None \<Rightarrow> map_of e k)"
  by (induction xs arbitrary: e) (auto simp: AList.update_conv' map_add_def split: option.split)

definition writer :: "view_class \<Rightarrow> string \<Rightarrow> jsval \<Rightarrow> jsval" where
  "writer c k = (case map_of (rev (vc_writes c)) k of Some g \<Rightarrow> g | None \<Rightarrow> keep)"

definition written :: "view_class \<Rightarrow> string set" where
  "written c = set base_written \<union> fst ` set (vc_writes c)"

lemma field_fromJSON:
  "field (view_fromJSON c d) k =
     (case map_of (rev (vc_reads c)) k of Some r \<Rightarrow> r (js_get d k) | None \<Rightarrow> field (construct c (js_get d ''x'') (js_get d ''y'')) k)"
  unfolding field_def view_fromJSON_def fold_update by (simp split: option.split)

lemma get_toJSON: "k \<in> written c \<Longrightarrow> js_get (view_toJSON c e) k = writer c k (field e k)"
proof -
  assume k: "k \<in> written c"
  have base: "map_of (map (\<lambda>k. (k, field e k)) base_written) k = (if k \<in> set base_written then Some (field e k) else None)"
    by (simp add: map_of_map_restrict restrict_map_def)
  have "k \<notin> set base_written \<Longrightarrow> map_of (rev (vc_writes c)) k \<noteq> None"
    using k by (auto simp: written_def map_of_eq_None_iff)
  then show ?thesis
    unfolding view_toJSON_def js_get_def jsval.case fold_update base writer_def by (auto simp: keep_def split: option.split)
qed

lemma toJSON_keys:
  "\<exists>kvs. view_toJSON c e = JObj kvs \<and> map fst kvs = fold (\<lambda>k ks. if k \<in> set ks then ks else ks @ [k]) (map fst (vc_writes c)) base_written"
proof -
  have k: "map fst (fold (\<lambda>(k, g). AList.update k (g (field e k))) ws kvs) = fold (\<lambda>k ks. if k \<in> set ks then ks else ks @ [k]) (map fst ws) (map fst kvs)"
    for ws kvs
    by (induction ws arbitrary: kvs) (auto simp: AList.update_keys split_beta simp del: set_map)
  show ?thesis using k [of "vc_writes c" "map (\<lambda>k. (k, field e k)) base_written"] by (simp add: view_toJSON_def comp_def)
qed

lemma distinct_keys: "distinct ks \<Longrightarrow> distinct (fold (\<lambda>k ks. if k \<in> set ks then ks else ks @ [k]) ns ks)"
  by (induction ns arbitrary: ks) auto

lemma get_saved: "js_get (through_json (view_toJSON c e)) k = (if k \<in> written c then through_prop (writer c k (field e k)) else JUndef)"
proof -
  obtain kvs where kvs: "view_toJSON c e = JObj kvs"
    "map fst kvs = fold (\<lambda>k ks. if k \<in> set ks then ks else ks @ [k]) (map fst (vc_writes c)) base_written"
    using toJSON_keys by blast
  have "distinct (map fst kvs)" unfolding kvs(2) by (rule distinct_keys) (simp add: base_written_def)
  then have g: "js_get (through_json (view_toJSON c e)) k = through_prop (js_get (view_toJSON c e) k)" unfolding kvs(1) by (rule get_through)
  have keys: "set (fold (\<lambda>k ks. if k \<in> set ks then ks else ks @ [k]) ns ks) = set ks \<union> set ns" for ns ks :: "string list"
    by (induction ns arbitrary: ks) auto
  have "k \<notin> written c \<Longrightarrow> k \<notin> set (map fst kvs)" unfolding kvs(2) keys by (simp add: written_def)
  then have "k \<notin> written c \<Longrightarrow> js_get (view_toJSON c e) k = JUndef" unfolding kvs(1) js_get_JObj by (simp add: map_of_eq_None_iff [THEN iffD2])
  then show ?thesis using get_toJSON [of k c e] by (simp add: g)
qed

lemma saved_cong:
  assumes "\<And>k. k \<in> written c \<Longrightarrow> field e k = field e' k"
  shows "through_json (view_toJSON c e) = through_json (view_toJSON c e')"
proof -
  obtain xs ys where x: "view_toJSON c e = JObj xs" and y: "view_toJSON c e' = JObj ys" and k: "map fst xs = map fst ys"
    "map fst xs = fold (\<lambda>k ks. if k \<in> set ks then ks else ks @ [k]) (map fst (vc_writes c)) base_written"
    using toJSON_keys [of c e] toJSON_keys [of c e'] by auto
  have d: "distinct (map fst xs)" unfolding k(2) by (rule distinct_keys) (simp add: base_written_def)
  have "js_get (through_json (view_toJSON c e)) k = js_get (through_json (view_toJSON c e')) k" for k
    by (simp add: get_saved assms)
  then have "through_prop (js_get (JObj xs) k) = through_prop (js_get (JObj ys) k)" for k
    using get_through [OF d] get_through [of ys] d k(1) unfolding x y by metis
  then show ?thesis unfolding x y by (rule through_cong [OF k(1) d])
qed

text \<open>What a class reads again from what was written is what it had read; \<open>c'\<close> is the class with other random ids.\<close>

definition saves_again :: "view_class \<Rightarrow> view_class \<Rightarrow> bool" where
  "saves_again c c' \<longleftrightarrow>
     vc_type c' = vc_type c \<and> vc_fields c' = vc_fields c \<and> vc_writes c' = vc_writes c \<and>
     list_all2 (\<lambda>(k, r) (k', r'). k' = k \<and> (\<forall>v. r' (writer c k (r v)) = r v)) (vc_reads c) (vc_reads c') \<and>
     list_all (\<lambda>k. map_of (rev (vc_reads c)) k = None \<and> map_of (rev (vc_fields c)) k = None \<and> map_of (rev (vc_writes c)) k = None)
       [''x'', ''y'', ''type'']"

lemma list_all2_map_of:
  "list_all2 (\<lambda>(k, r) (k', r'). k' = k \<and> P k r r') xs ys \<Longrightarrow> rel_option (P k) (map_of xs k) (map_of ys k)"
  by (induction rule: list_all2_induct) auto

lemma construct_plain: "map_of (rev (vc_fields c)) k = None \<Longrightarrow> field (construct c x y) k = field (element_base (vc_type c) x y) k"
  using fold_update [of "\<lambda>k v. v" "vc_fields c"] by (simp add: construct_def field_def)

text \<open>What a class writes comes through the text, but for a pulse duration that is no number.\<close>

definition pulse_key :: string where "pulse_key = ''pulseDurationMs''"

definition writes_json :: "view_class \<Rightarrow> bool" where
  "writes_json c \<longleftrightarrow>
     list_all (\<lambda>(k, r). k = pulse_key \<or> (\<forall>v. parsed_value v \<longrightarrow> parsed_value (writer c k (r v)))) (vc_reads c) \<and>
     map_of (rev (vc_reads c)) pulse_key = (if pulse_key \<in> written c then Some pulse_duration else None) \<and> writer c pulse_key = keep \<and>
     list_all (\<lambda>(k, v). parsed_value (writer c k v)) (vc_fields c @ element_base (vc_type c) JNull JNull) \<and>
     list_all (\<lambda>(k, g). parsed_value (writer c k JUndef)) (vc_writes c)"

lemma field_construct:
  "field (construct c x y) k = (case map_of (rev (vc_fields c)) k of Some v \<Rightarrow> v | None \<Rightarrow> field (element_base (vc_type c) x y) k)"
  using fold_update [of "\<lambda>k v. v" "vc_fields c"] by (simp add: construct_def field_def split: option.split)

lemma unread_parsed:
  assumes "writes_json c" and "k \<in> written c" and "k \<notin> {''x'', ''y''}"
  shows "parsed_value (writer c k (field (construct c x y) k))"
proof (cases "map_of (rev (vc_fields c)) k")
  case (Some v)
  then have "(k, v) \<in> set (vc_fields c)" by (auto dest: map_of_SomeD)
  then show ?thesis using assms(1) Some by (auto simp: writes_json_def list_all_iff field_construct)
next
  case None
  show ?thesis
  proof (cases "k \<in> set base_written")
    case True
    then have "(k, field (element_base (vc_type c) x y) k) \<in> set (element_base (vc_type c) JNull JNull)"
      using assms(3) by (auto simp: base_written_def element_base_def field_def)
    then show ?thesis using assms(1) None by (auto simp: writes_json_def list_all_iff field_construct)
  next
    case False
    then have "field (element_base (vc_type c) x y) k = JUndef" "k \<in> fst ` set (vc_writes c)"
      using assms(2) by (auto simp: base_written_def element_base_def field_def written_def)
    then show ?thesis using assms(1) None by (auto simp: writes_json_def list_all_iff field_construct)
  qed
qed

definition settled :: "string \<Rightarrow> jsval \<Rightarrow> jsval" where
  "settled k v = (if k = pulse_key \<and> v = JNum NaN then js_int 250 else v)"

lemma pulse_default: "pulse_duration JNull = js_int 250"
  by (simp add: pulse_duration_def nullish_def) (simp add: js_int_def)

lemma pulse_parsed: "parsed_value (pulse_duration v) \<longleftrightarrow> pulse_duration v \<noteq> JNum NaN"
  by (simp add: pulse_duration_def parsed_value_def split: jsnum.split)

lemma settled_parsed: "writes_json c \<Longrightarrow> parsed_value (writer c k v) \<Longrightarrow> settled k v = v"
  by (auto simp: settled_def writes_json_def keep_def parsed_value_def)

lemma reads_saved:
  fixes d :: jsval
  assumes "saves_again c c'" "writes_json c" "writes_json c'" and parsed: "\<And>k. parsed_value (js_get d k)"
  defines "e \<equiv> view_fromJSON c d"
  shows "js_get (through_json (view_toJSON c e)) ''type'' = JStr (vc_type c)"
    and "k \<in> written c \<Longrightarrow> field (view_fromJSON c' (through_json (view_toJSON c e))) k = settled k (field e k)"
proof -
  let ?s = "through_json (view_toJSON c e)"
  have unread: "map_of (rev (vc_reads c)) k = None" "map_of (rev (vc_fields c)) k = None" "map_of (rev (vc_writes c)) k = None" "k \<in> written c"
    if "k \<in> {''x'', ''y'', ''type''}" for k
    using assms(1) that by (auto simp: saves_again_def written_def base_written_def)
  have same: "js_get ?s k = through_prop (field (element_base (vc_type c) (js_get d ''x'') (js_get d ''y'')) k)" if "k \<in> {''x'', ''y'', ''type''}" for k
    using unread [OF that] construct_plain [OF unread(2) [OF that]]
    by (simp add: e_def get_saved field_fromJSON writer_def keep_def)
  show "js_get ?s ''type'' = JStr (vc_type c)" using same by (simp add: element_base_def field_def through_prop_def)
  have xy: "js_get ?s ''x'' = js_get d ''x''" "js_get ?s ''y'' = js_get d ''y''"
    using same [of "''x''"] same [of "''y''"] parsed by (simp_all add: element_base_def field_def parsed_prop)
  have con: "construct c' x y = construct c x y" for x y using assms(1) by (simp add: construct_def saves_again_def)
  assume k: "k \<in> written c"
  have get: "js_get ?s k = through_prop (writer c k (field e k))" using k by (simp add: get_saved)
  have rel: "rel_option (\<lambda>r r'. \<forall>v. r' (writer c k (r v)) = r v) (map_of (rev (vc_reads c)) k) (map_of (rev (vc_reads c')) k)"
    using assms(1) unfolding saves_again_def by (intro list_all2_map_of) (simp add: list_all2_rev)
  show "field (view_fromJSON c' ?s) k = settled k (field e k)"
  proof (cases "map_of (rev (vc_reads c)) k")
    case None
    have f: "field e k = field (construct c (js_get d ''x'') (js_get d ''y'')) k" by (simp add: e_def field_fromJSON None)
    have "parsed_value (writer c k (field e k)) \<or> k \<in> {''x'', ''y''}" using unread_parsed [OF assms(2) k] f by auto
    then have "settled k (field e k) = field e k"
    proof
      assume "parsed_value (writer c k (field e k))"
      then show ?thesis using assms(2) by (simp add: settled_parsed)
    next
      assume "k \<in> {''x'', ''y''}"
      then show ?thesis by (auto simp: settled_def pulse_key_def)
    qed
    then show ?thesis using rel None by (simp add: field_fromJSON f con xy split: option.split)
  next
    case (Some r)
    then obtain r' where r': "map_of (rev (vc_reads c')) k = Some r'" "\<And>v. r' (writer c k (r v)) = r v" using rel by (auto simp: option_rel_Some1)
    have f: "field e k = r (js_get d k)" by (simp add: e_def field_fromJSON Some)
    have in_reads: "(k, r) \<in> set (vc_reads c)" using Some by (auto dest: map_of_SomeD)
    show ?thesis
    proof (cases "parsed_value (writer c k (field e k))")
      case True
      then have "js_get ?s k = writer c k (field e k)" by (simp add: get parsed_prop)
      then show ?thesis using True assms(2) r' by (simp add: field_fromJSON settled_parsed f)
    next
      case False
      then have "k = pulse_key" using assms(2) in_reads parsed f by (auto simp: writes_json_def list_all_iff)
      then have p: "k = pulse_key" "r = pulse_duration" "r' = pulse_duration" "writer c k = keep"
        using assms(2,3) Some r'(1) by (auto simp: writes_json_def split: if_splits)
      then have "field e k = JNum NaN" using False f by (simp add: keep_def pulse_parsed)
      then have "js_get ?s k = JNull" using p(4) by (simp add: get keep_def through_prop_def)
      then show ?thesis using p(1,3) r'(1) \<open>field e k = JNum NaN\<close> by (simp add: field_fromJSON settled_def pulse_default)
    qed
  qed
qed

lemma assigned_id_settled [simp]: "assigned_id (assigned_id v) = assigned_id v"
proof -
  have "assigned_id v = v \<or> assigned_id v = js_int 0"
    by (auto simp: assigned_id_def split: jsval.split jsnum.split)
  moreover have "assigned_id (js_int 0) = js_int 0" by (simp add: assigned_id_def js_int_def)
  ultimately show ?thesis by metis
qed

lemma keep_settled [simp]: "keep v = v" "always d v = d"
  by (simp_all add: keep_def always_def)

lemma nullish_settled [simp]: "d \<noteq> JUndef \<Longrightarrow> d \<noteq> JNull \<Longrightarrow> nullish d (nullish d v) = nullish d v"
  by (cases v; cases d) (simp_all add: nullish_def)

lemma vpin_or_accessory_settled [simp]: "vpin_or_accessory (vpin_or_accessory v) = vpin_or_accessory v"
  by (simp add: vpin_or_accessory_def)

lemma read_behavior_settled [simp]: "read_behavior (read_behavior v) = read_behavior v"
  by (simp add: read_behavior_def)

lemma pulse_duration_settled [simp]: "pulse_duration (pulse_duration v) = pulse_duration v"
proof -
  have "nullish (js_int 250) (JNum q) = JNum q" for q by (simp add: nullish_def)
  then show ?thesis by (cases "to_number (nullish (js_int 250) v)") (simp_all add: pulse_duration_def del: nullish_settled)
qed

lemma turnout_mode_text_settled [simp]: "turnout_mode_text (turnout_mode_text v) = turnout_mode_text v"
  by (simp add: turnout_mode_text_def normalizeTurnoutOutputMode_def turnout_mode_json_def)

lemma turnout_aspect_settled [simp]: "0 \<le> n \<Longrightarrow> n \<le> 255 \<Longrightarrow> turnout_aspect n (turnout_aspect n v) = turnout_aspect n v"
proof -
  assume n: "0 \<le> n" "n \<le> 255"
  define i where "i = normalizeTurnoutAspect v n"
  have "0 \<le> i" "i \<le> 255" using n by (simp_all add: i_def normalizeTurnoutAspect_def split: jsnum.split)
  then show ?thesis unfolding turnout_aspect_def i_def [symmetric] by (simp add: normalizeTurnoutAspect_def js_int_def js_trunc_def)
qed

lemma route_turnouts_settled [simp]: "route_turnouts (route_turnouts v) = route_turnouts v"
proof -
  have settled: "is_whole q \<Longrightarrow> 0 < q \<Longrightarrow> route_turnout_of (JObj [(''turnoutId'', JNum (Fin q)), (''closed'', JBool b)]) =
      Some (JObj [(''turnoutId'', JNum (Fin q)), (''closed'', JBool b)])" for q b
    by (simp add: route_turnout_of_def js_get_def)
  have "route_turnout_of item = Some x \<Longrightarrow> route_turnout_of x = Some x" for item x
    unfolding route_turnout_of_def [of item] by (auto simp: settled split: jsval.splits jsnum.splits if_splits)
  then have "List.map_filter route_turnout_of (List.map_filter route_turnout_of xs) = List.map_filter route_turnout_of xs" for xs
    by (induction xs) (auto simp: List.map_filter_simps split: option.split)
  then show ?thesis by (auto simp: route_turnouts_def array_of_def List.map_filter_simps split: option.split)
qed

lemma audio_items_settled [simp]: "(\<And>n. fresh n \<noteq> []) \<Longrightarrow> audio_items fresh' (audio_items fresh v) = audio_items fresh v"
proof -
  assume fresh: "\<And>n. fresh n \<noteq> []"
  have item: "audio_item t (audio_item (fresh n) x) = audio_item (fresh n) x" for t n x
    using fresh by (auto simp: audio_item_def js_get_def split: jsval.split)
  have obj: "is_object (audio_item t x)" for t x by (simp add: is_object_def audio_item_def)
  have "filter is_object (map (\<lambda>n. audio_item (fresh n) (f n)) ns) = map (\<lambda>n. audio_item (fresh n) (f n)) ns" for f ns
    by (simp add: filter_map obj o_def)
  then show ?thesis by (simp add: audio_items_def array_of_def item Let_def split: option.split)
qed

lemmas view_class_defs =
  TrackStraight_class_def TrackDirection_class_def TrackEnd_class_def TrackCorner_class_def TrackCurve_class_def TrackCrossing_class_def
  TrackLevelCrossing_class_def single_turnout_class_def TrackTurnoutLeft_class_def TrackTurnoutRight_class_def TrackTurnoutTwoWay_class_def
  TrackTurnoutDouble_class_def TrackSensor_class_def TrackBlock_class_def control_class_def Button_class_def ButtonScript_class_def
  AudioButton_class_def AudioListButton_class_def RouteButton_class_def ExtendedRouteButton_class_def Clock_class_def Tree_class_def
  Label_class_def track_class_def track_reads_def control_reads_def plain_def buildings_fields_def num_field_def text_field_def bool_field_def

lemma classes_settle: "(\<And>n. fresh n \<noteq> []) \<Longrightarrow> list_all2 saves_again (view_classes fresh) (view_classes fresh')"
  by (simp add: view_classes_def saves_again_def writer_def view_class_defs)

lemma classes_write: "list_all2 (\<lambda>c c'. vc_type c' = vc_type c \<and> view_toJSON c' = view_toJSON c) (view_classes f) (view_classes g)"
  by (simp add: view_classes_def view_class_defs fun_eq_iff) (simp add: view_toJSON_def)

lemma parsed_simps [simp]:
  "parsed_value JUndef" "parsed_value JNull" "parsed_value (JBool b)" "parsed_value (JStr t)" "parsed_value (js_int n)"
  "parsed_value (JNum (Fin q))" "parsed_value (JArr [])"
  by (simp_all add: parsed_value_def js_int_def)

lemma parsed_reads [simp]:
  "parsed_value (assigned_id v)" "parsed_value (vpin_or_accessory v)" "parsed_value (turnout_mode_text v)" "parsed_value (turnout_aspect n v)"
  "parsed_value (route_turnouts v)" "parsed_value (audio_items fresh v)"
proof -
  show "parsed_value (assigned_id v)" "parsed_value (vpin_or_accessory v)" "parsed_value (turnout_mode_text v)" "parsed_value (turnout_aspect n v)"
    by (simp_all add: assigned_id_def vpin_or_accessory_def turnout_mode_text_def turnout_mode_json_def turnout_aspect_def
        split: jsval.split jsnum.split)
  have "route_turnout_of item = Some x \<Longrightarrow> through_json x = x" for item x
    by (auto simp: route_turnout_of_def split: jsval.splits jsnum.splits if_splits)
  then have "map through_json (List.map_filter route_turnout_of xs) = List.map_filter route_turnout_of xs" for xs
    by (induction xs) (auto simp: List.map_filter_simps split: option.split)
  then show "parsed_value (route_turnouts v)" by (auto simp: route_turnouts_def parsed_value_def split: option.split)
  have "through_json (audio_item t x) = audio_item t x" for t x by (simp add: audio_item_def split: jsval.split)
  then show "parsed_value (audio_items fresh v)" by (simp add: audio_items_def parsed_value_def Let_def split: option.split)
qed

lemma parsed_keeps [simp]:
  "parsed_value v \<Longrightarrow> parsed_value d \<Longrightarrow> parsed_value (nullish d v)" "parsed_value v \<Longrightarrow> parsed_value (read_behavior v)"
  by (cases v; simp add: nullish_def) (simp add: read_behavior_def)

lemma classes_json: "list_all writes_json (view_classes fresh)"
  by (simp add: view_classes_def writes_json_def writer_def view_class_defs pulse_key_def element_base_def written_def base_written_def)

lemma class_json: "find P (view_classes fresh) = Some c \<Longrightarrow> writes_json c"
  using classes_json [of fresh] by (auto simp: list_all_iff dest!: find_SomeD)

lemma list_all2_find:
  "list_all2 R xs ys \<Longrightarrow> (\<And>x y. R x y \<Longrightarrow> P y = P x) \<Longrightarrow> find P xs = Some x \<Longrightarrow> \<exists>y. find P ys = Some y \<and> R x y"
  by (induction rule: list_all2_induct) (auto split: if_splits)

lemma toJSON_of_class: "find (\<lambda>c. vc_type c = t) (view_classes fresh) = Some c \<Longrightarrow> toJSON_of t e = view_toJSON c e"
  using list_all2_find [OF classes_write, of "\<lambda>c. vc_type c = t" fresh c "\<lambda>n. []"] by (auto simp: toJSON_of_def)

text \<open>C36. Saving settles, through the JSON text: when the element factory accepts what was read from JSON text, whatever it holds, as an
  element other than a signal, what the element is saved as is accepted again as an element of the same type. This one is saved as
  exactly the same JSON, unless the pulse duration of a button is no number (read from a text such as abc): that is saved as null, is
  250 when it is read again, and only this property changes. From the second time on nothing changes any more. The random ids given to audio
  items are not empty.\<close>

theorem views_save_stably:
  assumes "create fresh (through_json d) = Inr (ElementOf t e)" and "\<And>n. fresh n \<noteq> []" and "\<And>n. fresh' n \<noteq> []"
  shows "\<exists>e' e''. create fresh' (saved_json t e) = Inr (ElementOf t e') \<and> create fresh'' (saved_json t e') = Inr (ElementOf t e'') \<and>
    saved_json t e'' = saved_json t e' \<and>
    (if js_get (saved_json t e) ''pulseDurationMs'' = JNull
     then js_get (saved_json t e') = (js_get (saved_json t e))(''pulseDurationMs'' := js_int 250)
     else saved_json t e' = saved_json t e)"
proof -
  obtain c where c: "find (\<lambda>c. vc_type c = t) (view_classes fresh) = Some c" "e = view_fromJSON c (through_json d)"
    using assms(1) by (auto simp: create_def split: jsval.splits option.splits if_splits)
  obtain c1 where c1: "find (\<lambda>c. vc_type c = t) (view_classes fresh') = Some c1" "saves_again c c1"
    using list_all2_find [OF classes_settle [OF assms(2)] _ c(1)] by (auto simp: saves_again_def)
  obtain c2 where c2: "find (\<lambda>c. vc_type c = t) (view_classes fresh'') = Some c2" "saves_again c1 c2"
    using list_all2_find [OF classes_settle [OF assms(3)] _ c1(1)] by (auto simp: saves_again_def)
  have json: "writes_json c" "writes_json c1" "writes_json c2"
    using c(1) c1(1) c2(1) by (simp_all add: class_json)
  have ty: "vc_type c = t" "vc_type c1 = t" using c(1) c1(1) by (auto simp: find_Some_iff)
  have w: "written c1 = written c" "writer c1 = writer c"
    using c1(2) by (auto simp: saves_again_def written_def writer_def fun_eq_iff)
  let ?e1 = "view_fromJSON c1 (saved_json t e)" and ?e2 = "view_fromJSON c2 (saved_json t (view_fromJSON c1 (saved_json t e)))"
  have s: "saved_json t x = through_json (view_toJSON c x)" "saved_json t x = through_json (view_toJSON c1 x)" for x
    by (simp_all add: saved_json_def toJSON_of_class [OF c(1)] toJSON_of_class [OF c1(1), symmetric])
  note first = reads_saved [OF c1(2) json(1,2), of "through_json d", OF parsed_get, folded c(2) s(1)]
  note second = reads_saved [OF c2(2) json(2,3), of "saved_json t e", folded s(2), OF parsed_get [of "view_toJSON c e", folded s(1)]]
  have made: "create fresh' (saved_json t e) = Inr (ElementOf t ?e1)" "create fresh'' (saved_json t ?e1) = Inr (ElementOf t ?e2)"
    using first(1) second(1) c1(1) c2(1) ty by (simp_all add: create_def)
  have no_nan: "field ?e1 k \<noteq> JNum NaN \<or> k \<noteq> pulse_key" if "k \<in> written c" for k
    using first(2) [OF that] by (auto simp: settled_def js_int_def)
  have f2: "field ?e2 k = field ?e1 k" if "k \<in> written c" for k
    using second(2) no_nan that by (auto simp: w settled_def)
  then have again: "saved_json t ?e2 = saved_json t ?e1" unfolding s(1) by (rule saved_cong)
  have get: "js_get (saved_json t x) k = (if k \<in> written c then through_prop (writer c k (field x k)) else JUndef)" for x k
    by (simp add: s(1) get_saved)
  have keeps: "writer c pulse_key = keep" using json(1) by (simp add: writes_json_def)
  have nan: "js_get (saved_json t e) pulse_key = JNull \<longleftrightarrow> pulse_key \<in> written c \<and> field e pulse_key = JNum NaN"
  proof (cases "pulse_key \<in> written c")
    case True
    then have "field e pulse_key = pulse_duration (js_get (through_json d) pulse_key)"
      using json(1) by (simp add: c(2) field_fromJSON writes_json_def)
    then show ?thesis using True by (simp add: get keeps keep_def through_prop_def pulse_duration_def split: jsnum.split)
  qed (simp add: get)
  have "if js_get (saved_json t e) pulse_key = JNull then js_get (saved_json t ?e1) = (js_get (saved_json t e))(pulse_key := js_int 250)
      else saved_json t ?e1 = saved_json t e"
  proof (cases "js_get (saved_json t e) pulse_key = JNull")
    case True
    then have "js_get (saved_json t ?e1) k = ((js_get (saved_json t e))(pulse_key := js_int 250)) k" for k
      using nan first(2) [of k] by (auto simp: get settled_def keeps keep_def through_prop_def js_int_def)
    then show ?thesis using True by (simp add: fun_eq_iff)
  next
    case False
    then have "field ?e1 k = field e k" if "k \<in> written c" for k using nan first(2) [OF that] that by (auto simp: settled_def)
    then show ?thesis using False saved_cong [of c ?e1 e] by (simp add: s(1))
  qed
  then show ?thesis using made again unfolding pulse_key_def by blast
qed

definition sample_audio_json :: jsval where
  "sample_audio_json =
     JObj [(''type'', JStr ''audiolistbutton''), (''id'', js_int 5), (''x'', js_int 2), (''y'', js_int 3), (''name'', JStr ''A''),
           (''audioItems'', JArr [JObj [(''name'', JStr ''Horn'')], JNull, JArr []])]"

lemma views_save_stably_witness:
  "\<exists>e e' e''. create (\<lambda>n. ''item'') (through_json sample_audio_json) = Inr (ElementOf ''audiolistbutton'' e) \<and>
     create (\<lambda>n. ''other'') (saved_json ''audiolistbutton'' e) = Inr (ElementOf ''audiolistbutton'' e') \<and>
     create (\<lambda>n. ''other'') (saved_json ''audiolistbutton'' e') = Inr (ElementOf ''audiolistbutton'' e'') \<and>
     saved_json ''audiolistbutton'' e' = saved_json ''audiolistbutton'' e \<and>
     js_get (saved_json ''audiolistbutton'' e) ''audioItems'' =
       JArr [JObj [(''id'', JStr ''item''), (''name'', JStr ''Horn''), (''fileName'', JStr [])],
             JObj [(''id'', JStr ''item''), (''name'', JStr ''Audio''), (''fileName'', JStr [])]]"
proof -
  define e where "e = view_fromJSON (AudioListButton_class (\<lambda>n. ''item'')) (through_json sample_audio_json)"
  have made: "create (\<lambda>n. ''item'') (through_json sample_audio_json) = Inr (ElementOf ''audiolistbutton'' e)"
    by (simp add: create_def sample_audio_json_def js_get_def view_classes_def view_class_defs e_def js_int_def)
  have "js_get (saved_json ''audiolistbutton'' e) ''audioItems'' =
       JArr [JObj [(''id'', JStr ''item''), (''name'', JStr ''Horn''), (''fileName'', JStr [])],
             JObj [(''id'', JStr ''item''), (''name'', JStr ''Audio''), (''fileName'', JStr [])]]"
    and "js_get (saved_json ''audiolistbutton'' e) ''pulseDurationMs'' \<noteq> JNull"
    unfolding e_def by code_simp+
  then show ?thesis using views_save_stably [OF made, of "\<lambda>n. ''other''" "\<lambda>n. ''other''"] made by auto
qed

text \<open>A button whose pulse duration is a word: \<open>null\<close> when it is saved, 250 when it is saved again.\<close>

lemma pulse_word_is_lost:
  "js_get (saved_json ''button'' (view_fromJSON Button_class (JObj [(''pulseDurationMs'', JStr ''abc'')]))) ''pulseDurationMs'' = JNull"
  by code_simp

text \<open>A two-way turnout is saved without its address.\<close>

lemma two_way_loses_address:
  "js_get (toJSON_of ''trackturnouttwoway'' e) ''turnoutAddress'' = JUndef"
  by (simp add: toJSON_of_def view_classes_def view_class_defs view_toJSON_def base_written_def js_get_def AList.update_conv' keep_def)

end
