(* ===== verification/Gamepad.thy ===== *)
theory Gamepad
  imports JsText JsValue
begin

text \<open>
  The gamepad (\<open>context/GamepadContext.tsx\<close>): which of the connected controllers drives, which button is which action, and the poll
  of every frame that turns pressed buttons into actions. The state and references of \<open>GamepadProvider\<close> are a record; what
  \<open>navigator.getGamepads\<close> returns is an argument of the poll. The selected index is kept in a state and a reference that are always
  set together. A stored text is the value it is the JSON of, \<open>None\<close> when it is missing or no JSON.
\<close>

subsection \<open>Actions and mappings\<close>

datatype gamepad_action = SpeedUp | SpeedDown | GoForward | GoReverse | StopLoco | Emergency | Function0 | Function1 | Function2 | Function3

fun gamepad_action_text :: "gamepad_action \<Rightarrow> string" where
  "gamepad_action_text SpeedUp = ''speedUp''"
| "gamepad_action_text SpeedDown = ''speedDown''"
| "gamepad_action_text GoForward = ''forward''"
| "gamepad_action_text GoReverse = ''reverse''"
| "gamepad_action_text StopLoco = ''stop''"
| "gamepad_action_text Emergency = ''emergency''"
| "gamepad_action_text Function0 = ''function0''"
| "gamepad_action_text Function1 = ''function1''"
| "gamepad_action_text Function2 = ''function2''"
| "gamepad_action_text Function3 = ''function3''"

definition GAMEPAD_ACTION_OPTIONS :: "gamepad_action list" where
  "GAMEPAD_ACTION_OPTIONS = [SpeedUp, SpeedDown, GoForward, GoReverse, StopLoco, Emergency, Function0, Function1, Function2, Function3]"

definition isGamepadAction :: "string \<Rightarrow> gamepad_action option" where
  "isGamepadAction value = find (\<lambda>a. gamepad_action_text a = value) GAMEPAD_ACTION_OPTIONS"

text \<open>A mapping is an object from actions to buttons, in the order of its properties.\<close>

type_synonym gamepad_mapping = "(gamepad_action \<times> int) list"

definition DEFAULT_MAPPING :: gamepad_mapping where
  "DEFAULT_MAPPING =
     [(SpeedUp, 12), (SpeedDown, 13), (GoForward, 15), (GoReverse, 14), (Function0, 0), (Function1, 1), (Function2, 2), (Function3, 3),
      (StopLoco, 9), (Emergency, 8)]"

definition normalize_entry :: "string \<times> jsval \<Rightarrow> gamepad_mapping \<times> int list \<Rightarrow> gamepad_mapping \<times> int list" where
  "normalize_entry entry acc =
     (case (isGamepadAction (fst entry), integer_value (snd entry)) of
        (Some a, Some b) \<Rightarrow> if b < 0 \<or> b \<in> set (snd acc) then acc else (AList.update a b (fst acc), set_add b (snd acc))
      | _ \<Rightarrow> acc)"

text \<open>The properties of an array are its indices, no actions.\<close>

definition normalizeMapping :: "jsval \<Rightarrow> gamepad_mapping option" where
  "normalizeMapping value =
     (case value of
        JObj entries \<Rightarrow> Some (fst (fold normalize_entry entries ([], [])))
      | JArr xs \<Rightarrow> Some []
      | _ \<Rightarrow> None)"

definition loadMapping :: "jsval option \<Rightarrow> gamepad_mapping" where
  "loadMapping stored =
     (case stored of
        None \<Rightarrow> DEFAULT_MAPPING
      | Some v \<Rightarrow> (case normalizeMapping v of Some m \<Rightarrow> m | None \<Rightarrow> DEFAULT_MAPPING))"

definition mapping_json :: "gamepad_mapping \<Rightarrow> jsval" where
  "mapping_json m = JObj (map (\<lambda>(a, b). (gamepad_action_text a, js_int b)) m)"

subsection \<open>Controllers\<close>

record pad =
  pad_index :: int
  pad_id :: string
  pad_connected :: bool
  pad_mapping :: string
  pad_buttons :: "bool list"
  pad_axes :: nat

record pad_info =
  pi_index :: int
  pi_id :: string
  pi_mapping :: string
  pi_buttonCount :: nat
  pi_axisCount :: nat

definition pad_info_of :: "pad \<Rightarrow> pad_info" where
  "pad_info_of p =
     \<lparr>pi_index = pad_index p, pi_id = pad_id p, pi_mapping = (if pad_mapping p = [] then ''none'' else pad_mapping p),
      pi_buttonCount = length (pad_buttons p), pi_axisCount = pad_axes p\<rparr>"

definition connected_pads :: "pad option list \<Rightarrow> pad list" where
  "connected_pads ps = filter pad_connected (filter_some (\<lambda>p. p) ps)"

text \<open>The device chosen last: its id and the index it had.\<close>

definition loadSavedGamepad :: "jsval option \<Rightarrow> (string \<times> int) option" where
  "loadSavedGamepad stored =
     (case stored of
        None \<Rightarrow> None
      | Some v \<Rightarrow>
          (case (js_get v ''id'', integer_value (js_get v ''index'')) of
             (JStr s, Some n) \<Rightarrow> if n < 0 then None else Some (s, n)
           | _ \<Rightarrow> None))"

definition selection_json :: "string \<times> int \<Rightarrow> jsval" where
  "selection_json sel = JObj [(''id'', JStr (fst sel)), (''index'', js_int (snd sel))]"

subsection \<open>The provider\<close>

record gamepad_state =
  gs_mapping :: gamepad_mapping
  gs_connected :: bool
  gs_gamepadId :: "string option"
  gs_gamepads :: "pad_info list"
  gs_selected :: "int option"
  gs_saved :: "(string \<times> int) option"
  gs_signature :: string
  gs_previous :: "bool list"
  gs_suppress :: bool
  gs_listeners :: "(gamepad_action \<times> nat list) list"
  gs_storedMapping :: "jsval option"
  gs_storedDevice :: "jsval option"

definition new_gamepad :: "jsval option \<Rightarrow> jsval option \<Rightarrow> gamepad_state" where
  "new_gamepad storedMapping storedDevice =
     \<lparr>gs_mapping = loadMapping storedMapping, gs_connected = False, gs_gamepadId = None, gs_gamepads = [], gs_selected = None,
      gs_saved = loadSavedGamepad storedDevice, gs_signature = [], gs_previous = [], gs_suppress = False, gs_listeners = [],
      gs_storedMapping = storedMapping, gs_storedDevice = storedDevice\<rparr>"

text \<open>The effect that stores the mapping whenever it has changed; a write fails when the storage is full.\<close>

definition store_mapping :: "bool \<Rightarrow> gamepad_state \<Rightarrow> gamepad_state" where
  "store_mapping ok s = (if ok then s\<lparr>gs_storedMapping := Some (mapping_json (gs_mapping s))\<rparr> else s)"

definition subscribe_action :: "gamepad_action \<Rightarrow> nat \<Rightarrow> gamepad_state \<Rightarrow> gamepad_state" where
  "subscribe_action a callback s =
     s\<lparr>gs_listeners := AList.update a (set_add callback (case map_of (gs_listeners s) a of Some ls \<Rightarrow> ls | None \<Rightarrow> [])) (gs_listeners s)\<rparr>"

text \<open>The function that \<open>subscribe\<close> returns; effects call it once.\<close>

definition unsubscribe_action :: "gamepad_action \<Rightarrow> nat \<Rightarrow> gamepad_state \<Rightarrow> gamepad_state" where
  "unsubscribe_action a callback s =
     (case map_of (gs_listeners s) a of
        None \<Rightarrow> s
      | Some ls \<Rightarrow>
          (let rest = set_delete callback ls
           in s\<lparr>gs_listeners := (if rest = [] then AList.delete a (gs_listeners s) else AList.update a rest (gs_listeners s))\<rparr>))"

text \<open>The callbacks that \<open>emit\<close> calls.\<close>

definition emit_action :: "gamepad_action \<Rightarrow> gamepad_state \<Rightarrow> nat list" where
  "emit_action a s = (case map_of (gs_listeners s) a of Some ls \<Rightarrow> ls | None \<Rightarrow> [])"

definition setButtonAction :: "int \<Rightarrow> gamepad_action option \<Rightarrow> gamepad_state \<Rightarrow> gamepad_state" where
  "setButtonAction button a s =
     (if button < 0 then s
      else (let next = fold (\<lambda>name m. if map_of m name = Some button then AList.delete name m else m) GAMEPAD_ACTION_OPTIONS (gs_mapping s)
            in s\<lparr>gs_mapping := (case a of Some x \<Rightarrow> AList.update x button next | None \<Rightarrow> next)\<rparr>))"

definition resetMapping :: "gamepad_state \<Rightarrow> gamepad_state" where
  "resetMapping s = s\<lparr>gs_mapping := DEFAULT_MAPPING\<rparr>"

definition rememberGamepad :: "bool \<Rightarrow> pad \<Rightarrow> gamepad_state \<Rightarrow> gamepad_state" where
  "rememberGamepad ok p s =
     (let selection = (pad_id p, pad_index p);
          s1 = s\<lparr>gs_saved := Some selection, gs_selected := Some (pad_index p), gs_previous := [], gs_suppress := True\<rparr>
      in if ok then s1\<lparr>gs_storedDevice := Some (selection_json selection)\<rparr> else s1)"

definition selectGamepad :: "bool \<Rightarrow> int \<Rightarrow> pad option list \<Rightarrow> gamepad_state \<Rightarrow> gamepad_state" where
  "selectGamepad ok index ps s =
     (case find (\<lambda>p. pad_index p = index) (connected_pads ps) of Some p \<Rightarrow> rememberGamepad ok p s | None \<Rightarrow> s)"

subsection \<open>The poll\<close>

definition pad_signature :: "pad list \<Rightarrow> string" where
  "pad_signature cs =
     join_with ''|''
       (map (\<lambda>p. show_int (pad_index p) @ '':'' @ pad_id p @ '':'' @ show_nat (length (pad_buttons p)) @ '':'' @ show_nat (pad_axes p)) cs)"

definition list_pads :: "pad list \<Rightarrow> gamepad_state \<Rightarrow> gamepad_state" where
  "list_pads cs s =
     (if pad_signature cs \<noteq> gs_signature s then s\<lparr>gs_signature := pad_signature cs, gs_gamepads := map pad_info_of cs\<rparr> else s)"

definition no_pad :: "gamepad_state \<Rightarrow> gamepad_state" where
  "no_pad s = s\<lparr>gs_connected := False, gs_gamepadId := None, gs_selected := None, gs_previous := []\<rparr>"

definition selected_pad :: "pad list \<Rightarrow> gamepad_state \<Rightarrow> pad option" where
  "selected_pad cs s =
     find (\<lambda>p. Some (pad_index p) = gs_selected s \<and> (case gs_saved s of None \<Rightarrow> True | Some (i, n) \<Rightarrow> pad_id p = i)) cs"

definition found_again :: "pad list \<Rightarrow> gamepad_state \<Rightarrow> pad option" where
  "found_again cs s =
     (case gs_saved s of
        Some (i, n) \<Rightarrow>
          (case find (\<lambda>p. pad_index p = n \<and> pad_id p = i) cs of Some p \<Rightarrow> Some p | None \<Rightarrow> find (\<lambda>p. pad_id p = i) cs)
      | None \<Rightarrow> (case cs of p # rest \<Rightarrow> Some p | [] \<Rightarrow> None))"

definition pad_pressed :: "int \<Rightarrow> bool list \<Rightarrow> bool" where
  "pad_pressed b buttons \<longleftrightarrow> 0 \<le> b \<and> nat b < length buttons \<and> buttons ! nat b"

definition pressed_actions :: "gamepad_mapping \<Rightarrow> bool list \<Rightarrow> bool list \<Rightarrow> gamepad_action list" where
  "pressed_actions m previous current = map fst (filter (\<lambda>(a, b). pad_pressed b current \<and> \<not> pad_pressed b previous) m)"

definition read_pad :: "pad \<Rightarrow> gamepad_state \<Rightarrow> gamepad_state \<times> gamepad_action list" where
  "read_pad p s =
     (let s1 = s\<lparr>gs_connected := True, gs_gamepadId := Some (pad_id p), gs_previous := pad_buttons p\<rparr>
      in if gs_suppress s then (s1\<lparr>gs_suppress := False\<rparr>, [])
         else (s1, pressed_actions (gs_mapping s) (gs_previous s) (pad_buttons p)))"

definition poll_pads :: "bool \<Rightarrow> pad option list \<Rightarrow> gamepad_state \<Rightarrow> gamepad_state \<times> gamepad_action list" where
  "poll_pads ok ps s =
     (let cs = connected_pads ps; s1 = list_pads cs s
      in if cs = [] then (no_pad s1, [])
         else (case selected_pad cs s1 of
                 Some p \<Rightarrow> read_pad p s1
               | None \<Rightarrow> (case found_again cs s1 of
                            Some p \<Rightarrow> read_pad p (rememberGamepad ok p s1)
                          | None \<Rightarrow> (no_pad s1, []))))"

subsection \<open>Runs\<close>

datatype gamepad_event =
    Poll bool "pad option list" | SelectPad bool int "pad option list" | AssignButton bool int "gamepad_action option" | ResetButtons bool
  | Listen gamepad_action nat | Unlisten gamepad_action nat

fun gamepad_step :: "gamepad_event \<Rightarrow> gamepad_state \<Rightarrow> gamepad_state" where
  "gamepad_step (Poll ok ps) s = fst (poll_pads ok ps s)"
| "gamepad_step (SelectPad ok n ps) s = selectGamepad ok n ps s"
| "gamepad_step (AssignButton ok b a) s = store_mapping ok (setButtonAction b a s)"
| "gamepad_step (ResetButtons ok) s = store_mapping ok (resetMapping s)"
| "gamepad_step (Listen a n) s = subscribe_action a n s"
| "gamepad_step (Unlisten a n) s = unsubscribe_action a n s"

definition gamepad_run :: "gamepad_event list \<Rightarrow> gamepad_state \<Rightarrow> gamepad_state" where
  "gamepad_run es s = fold gamepad_step es s"

subsection \<open>Mappings stay valid\<close>

definition valid_mapping :: "gamepad_mapping \<Rightarrow> bool" where
  "valid_mapping m \<longleftrightarrow> distinct (map fst m) \<and> distinct (map snd m) \<and> list_all (\<lambda>b. 0 \<le> b) (map snd m)"

lemma isGamepadAction_text [simp]: "isGamepadAction (gamepad_action_text a) = Some a"
  by (cases a) (simp_all add: isGamepadAction_def GAMEPAD_ACTION_OPTIONS_def)

lemma update_new: "k \<notin> fst ` set al \<Longrightarrow> AList.update k v al = al @ [(k, v)]"
  by (induction al) auto

lemma update_button: "p \<in> set (AList.update k v al) \<Longrightarrow> p = (k, v) \<or> p \<in> set al"
  by (induction al) (auto split: if_splits)

lemma valid_update: "valid_mapping m \<Longrightarrow> 0 \<le> b \<Longrightarrow> b \<notin> snd ` set m \<Longrightarrow> valid_mapping (AList.update a b m)"
proof -
  assume m: "valid_mapping m" and b: "0 \<le> b" "b \<notin> snd ` set m"
  have "distinct (map snd (AList.update a b m))"
    using m b(2) unfolding valid_mapping_def
  proof (induction m)
    case (Cons p m)
    then show ?case by (cases p) (auto simp: valid_mapping_def dest!: update_button)
  qed simp
  moreover have "list_all (\<lambda>b. 0 \<le> b) (map snd (AList.update a b m))"
    using m b(1) by (auto simp: valid_mapping_def list_all_iff dest!: update_button)
  ultimately show ?thesis using m by (simp add: valid_mapping_def distinct_update)
qed

lemma valid_filter: "valid_mapping m \<Longrightarrow> valid_mapping (filter P m)"
  by (auto simp: valid_mapping_def distinct_map list_all_iff intro: inj_on_subset)

lemma normalize_entry_valid:
  assumes "valid_mapping m" and "snd ` set m \<subseteq> set bs" and "normalize_entry e (m, bs) = (m', bs')"
  shows "valid_mapping m' \<and> snd ` set m' \<subseteq> set bs'"
proof (cases "m' = m \<and> bs' = bs")
  case False
  then obtain a b where ab: "m' = AList.update a b m" "bs' = set_add b bs" "0 \<le> b" "b \<notin> set bs"
    using assms(3) by (auto simp: normalize_entry_def split: option.splits if_splits)
  have "snd ` set m' \<subseteq> set bs'" using assms(2) ab(1,2) by (auto dest!: update_button)
  moreover have "b \<notin> snd ` set m" using ab(4) assms(2) by auto
  ultimately show ?thesis using valid_update [OF assms(1) ab(3)] ab(1) by simp
qed (use assms in simp)

lemma normalize_entries_valid:
  "valid_mapping m \<Longrightarrow> snd ` set m \<subseteq> set bs \<Longrightarrow> valid_mapping (fst (fold normalize_entry es (m, bs)))"
proof (induction es arbitrary: m bs)
  case (Cons e es)
  obtain m' bs' where e: "normalize_entry e (m, bs) = (m', bs')" by (cases "normalize_entry e (m, bs)")
  then show ?case using Cons.IH normalize_entry_valid [OF Cons.prems e] by simp
qed simp

lemma default_mapping_valid: "valid_mapping DEFAULT_MAPPING" "valid_mapping []"
  by (simp_all add: valid_mapping_def DEFAULT_MAPPING_def)

lemma loadMapping_valid: "valid_mapping (loadMapping stored)"
  using normalize_entries_valid [OF default_mapping_valid(2), of "[]"]
  by (simp add: loadMapping_def normalizeMapping_def default_mapping_valid split: option.split jsval.split)

lemma setButtonAction_valid: "valid_mapping (gs_mapping s) \<Longrightarrow> valid_mapping (gs_mapping (setButtonAction b a s))"
proof -
  assume m: "valid_mapping (gs_mapping s)"
  let ?del = "\<lambda>name m. if map_of m name = Some b then AList.delete name m else m"
  have deleted: "valid_mapping n \<Longrightarrow> valid_mapping (fold ?del as n) \<and> (\<forall>a x. (a, x) \<in> set (fold ?del as n) \<longrightarrow> (a, x) \<in> set n \<and> (a \<in> set as \<longrightarrow> x \<noteq> b))"
    for as n
  proof (induction as arbitrary: n)
    case (Cons c as)
    have v: "valid_mapping (?del c n)" using Cons.prems by (simp add: AList.delete_eq valid_filter)
    have "(c, x) \<in> set (?del c n) \<Longrightarrow> x \<noteq> b" "(a, x) \<in> set (?del c n) \<Longrightarrow> (a, x) \<in> set n" for a x
      using Cons.prems map_of_is_SomeI [of n c x] by (auto simp: valid_mapping_def AList.delete_eq split: if_splits)
    then show ?case using Cons.IH [OF v] unfolding fold_simps by auto
  qed simp
  have all: "a \<in> set GAMEPAD_ACTION_OPTIONS" for a by (cases a) (simp_all add: GAMEPAD_ACTION_OPTIONS_def)
  let ?next = "fold ?del GAMEPAD_ACTION_OPTIONS (gs_mapping s)"
  have "valid_mapping ?next" "(a, b) \<notin> set ?next" for a using deleted [OF m, of GAMEPAD_ACTION_OPTIONS] all by blast+
  then have "valid_mapping ?next" "b \<notin> snd ` set ?next" by auto
  then show ?thesis using m valid_update by (auto simp: setButtonAction_def Let_def split: option.split)
qed

lemma reload_entries:
  "valid_mapping (m @ xs) \<Longrightarrow> set bs = snd ` set m \<Longrightarrow>
     fst (fold normalize_entry (map (\<lambda>(a, b). (gamepad_action_text a, js_int b)) xs) (m, bs)) = m @ xs"
proof (induction xs arbitrary: m bs)
  case (Cons p xs)
  obtain a b where p: "p = (a, b)" by (cases p)
  have "a \<notin> fst ` set m" "b \<notin> set bs" "0 \<le> b" using Cons.prems by (auto simp: p valid_mapping_def image_iff)
  then have "normalize_entry (gamepad_action_text a, js_int b) (m, bs) = (m @ [p], set_add b bs)"
    by (simp add: normalize_entry_def update_new p)
  then show ?case using Cons by (simp add: p)
qed simp

lemma mapping_reloads: "valid_mapping m \<Longrightarrow> loadMapping (Some (mapping_json m)) = m"
  using reload_entries [of "[]" m "[]"] by (simp add: loadMapping_def normalizeMapping_def mapping_json_def)

lemma poll_mapping: "gs_mapping (fst (poll_pads ok ps s)) = gs_mapping s"
  by (simp add: poll_pads_def read_pad_def rememberGamepad_def no_pad_def list_pads_def Let_def split: option.split)

lemma gamepad_step_valid: "valid_mapping (gs_mapping s) \<Longrightarrow> valid_mapping (gs_mapping (gamepad_step e s))"
  by (cases e)
    (simp_all add: poll_mapping selectGamepad_def rememberGamepad_def store_mapping_def setButtonAction_valid resetMapping_def
      default_mapping_valid subscribe_action_def unsubscribe_action_def Let_def split: option.split)

interpretation gamepad_steps: steps "\<lambda>s. valid_mapping (gs_mapping s)" "\<lambda>e. True" gamepad_step
  by unfold_locales (rule gamepad_step_valid)

lemma gamepad_run_valid: "valid_mapping (gs_mapping (gamepad_run es (new_gamepad m d)))"
  using gamepad_steps.run_inv [of "new_gamepad m d" es] by (simp add: gamepad_run_def new_gamepad_def loadMapping_valid list_all_iff)

subsection \<open>Who drives\<close>

text \<open>The id of the controller that the user chose last, or that was the first one when none was chosen; and the controllers of the
  last poll. Both are read from the events alone.\<close>

fun chosen_after :: "gamepad_event \<Rightarrow> string option \<Rightarrow> string option" where
  "chosen_after (Poll ok ps) c =
     (case c of Some i \<Rightarrow> Some i | None \<Rightarrow> (case connected_pads ps of p # rest \<Rightarrow> Some (pad_id p) | [] \<Rightarrow> None))"
| "chosen_after (SelectPad ok n ps) c = (case find (\<lambda>p. pad_index p = n) (connected_pads ps) of Some p \<Rightarrow> Some (pad_id p) | None \<Rightarrow> c)"
| "chosen_after e c = c"

definition chosen_id :: "gamepad_event list \<Rightarrow> jsval option \<Rightarrow> string option" where
  "chosen_id es storedDevice = fold chosen_after es (map_option fst (loadSavedGamepad storedDevice))"

fun poll_after :: "gamepad_event \<Rightarrow> pad option list \<Rightarrow> pad option list" where
  "poll_after (Poll ok ps) qs = ps"
| "poll_after e qs = qs"

definition last_poll :: "gamepad_event list \<Rightarrow> pad option list" where
  "last_poll es = fold poll_after es []"

text \<open>The selected controller is the chosen one, and what is remembered of its buttons is what the last poll saw.\<close>

definition follows_choice :: "gamepad_state \<Rightarrow> string option \<Rightarrow> pad option list \<Rightarrow> bool" where
  "follows_choice s c qs \<longleftrightarrow>
     map_option fst (gs_saved s) = c \<and>
     (\<forall>n. gs_selected s = Some n \<longrightarrow>
        (\<exists>i. c = Some i \<and>
           (gs_suppress s \<or>
            (\<exists>q\<in>set (connected_pads qs). pad_index q = n \<and> pad_id q = i \<and> gs_previous s = pad_buttons q))))"

lemma list_pads_fields [simp]:
  "gs_saved (list_pads cs s) = gs_saved s" "gs_selected (list_pads cs s) = gs_selected s" "gs_suppress (list_pads cs s) = gs_suppress s"
  "gs_previous (list_pads cs s) = gs_previous s" "gs_mapping (list_pads cs s) = gs_mapping s"
  by (simp_all add: list_pads_def)

lemma remember_fields [simp]:
  "gs_saved (rememberGamepad ok p s) = Some (pad_id p, pad_index p)" "gs_selected (rememberGamepad ok p s) = Some (pad_index p)"
  "gs_suppress (rememberGamepad ok p s) = True" "gs_mapping (rememberGamepad ok p s) = gs_mapping s"
  by (simp_all add: rememberGamepad_def Let_def)

lemma read_pad_follows:
  assumes "map_option fst (gs_saved s) = Some (pad_id p)" and "gs_selected s = Some (pad_index p)" and "p \<in> set (connected_pads ps)"
  shows "follows_choice (fst (read_pad p s)) (Some (pad_id p)) ps"
  using assms by (auto simp: follows_choice_def read_pad_def Let_def)

lemma found_again_chosen:
  "found_again cs s = Some p \<Longrightarrow> cs \<noteq> [] \<Longrightarrow> p \<in> set cs \<and>
     Some (pad_id p) = (case map_option fst (gs_saved s) of Some i \<Rightarrow> Some i | None \<Rightarrow> (case cs of p # rest \<Rightarrow> Some (pad_id p) | [] \<Rightarrow> None))"
  by (auto simp: found_again_def dest!: find_SomeD split: option.splits list.splits)

lemma selected_pad_chosen:
  assumes "follows_choice s c qs" and "selected_pad cs (list_pads cs' s) = Some p"
  shows "p \<in> set cs \<and> gs_selected s = Some (pad_index p) \<and> map_option fst (gs_saved s) = Some (pad_id p)"
proof -
  have p: "p \<in> set cs" "gs_selected s = Some (pad_index p)" "case gs_saved s of None \<Rightarrow> True | Some (i, n) \<Rightarrow> pad_id p = i"
    using find_SomeD [OF assms(2) [unfolded selected_pad_def]] by simp_all
  then obtain i n where "gs_saved s = Some (i, n)" using assms(1) by (auto simp: follows_choice_def)
  then show ?thesis using p by simp
qed

lemma poll_follows:
  assumes "follows_choice s c qs"
  shows "follows_choice (fst (poll_pads ok ps s)) (chosen_after (Poll ok ps) c) ps"
proof (cases "selected_pad (connected_pads ps) (list_pads (connected_pads ps) s)")
  case (Some p)
  then have p: "p \<in> set (connected_pads ps)" "gs_selected s = Some (pad_index p)" "map_option fst (gs_saved s) = Some (pad_id p)"
    using selected_pad_chosen [OF assms Some] by blast+
  moreover have "c = map_option fst (gs_saved s)" using assms by (simp add: follows_choice_def)
  ultimately have "c = Some (pad_id p)" by simp
  then show ?thesis
    using p Some read_pad_follows [of "list_pads (connected_pads ps) s" p ps] by (auto simp: poll_pads_def Let_def)
next
  case None
  note unselected = this
  have none: "follows_choice (no_pad s1) c' ps" if "map_option fst (gs_saved s1) = c'" for s1 c'
    using that by (simp add: follows_choice_def no_pad_def)
  have c: "map_option fst (gs_saved s) = c" using assms by (simp add: follows_choice_def)
  show ?thesis
  proof (cases "connected_pads ps = []")
    case True
    then show ?thesis using none [of "list_pads [] s" c] c by (cases c) (simp_all add: poll_pads_def Let_def)
  next
    case False
    show ?thesis
    proof (cases "found_again (connected_pads ps) (list_pads (connected_pads ps) s)")
      case (Some p)
      then have "p \<in> set (connected_pads ps)" "chosen_after (Poll ok ps) c = Some (pad_id p)"
        using found_again_chosen [OF Some False] c by simp_all
      then show ?thesis
        using False Some unselected read_pad_follows [of "rememberGamepad ok p (list_pads (connected_pads ps) s)" p ps]
        by (simp add: poll_pads_def Let_def)
    next
      case None
      then have "c \<noteq> None" using c False by (auto simp: found_again_def split: option.splits list.splits)
      then show ?thesis using False None unselected none [of "list_pads (connected_pads ps) s" c] c by (cases c) (simp_all add: poll_pads_def Let_def)
    qed
  qed
qed

lemma step_follows: "follows_choice s c qs \<Longrightarrow> follows_choice (gamepad_step e s) (chosen_after e c) (poll_after e qs)"
proof (cases e)
  case (Poll ok ps)
  assume "follows_choice s c qs"
  then show ?thesis using poll_follows by (simp add: Poll del: chosen_after.simps)
next
  case (SelectPad ok n ps)
  assume "follows_choice s c qs"
  then show ?thesis by (auto simp: SelectPad selectGamepad_def follows_choice_def split: option.split)
qed (auto simp: follows_choice_def store_mapping_def setButtonAction_def resetMapping_def subscribe_action_def unsubscribe_action_def Let_def
  split: option.split)

lemma run_follows: "follows_choice (gamepad_run es (new_gamepad m d)) (chosen_id es d) (last_poll es)"
proof -
  have "follows_choice s c qs \<Longrightarrow> follows_choice (fold gamepad_step es s) (fold chosen_after es c) (fold poll_after es qs)" for s c qs
    by (induction es arbitrary: s c qs) (simp_all add: step_follows)
  moreover have "follows_choice (new_gamepad m d) (map_option fst (loadSavedGamepad d)) []"
    by (simp add: follows_choice_def new_gamepad_def)
  ultimately show ?thesis by (simp add: gamepad_run_def chosen_id_def last_poll_def)
qed

lemma poll_acts:
  assumes "follows_choice s c qs" and "a \<in> set (snd (poll_pads ok ps s))"
  shows "\<exists>p\<in>set (connected_pads ps). \<exists>q\<in>set (connected_pads qs). \<exists>b.
    c = Some (pad_id p) \<and> pad_id q = pad_id p \<and> pad_index q = pad_index p \<and> (a, b) \<in> set (gs_mapping s) \<and>
    pad_pressed b (pad_buttons p) \<and> \<not> pad_pressed b (pad_buttons q)"
proof -
  obtain p where p: "selected_pad (connected_pads ps) (list_pads (connected_pads ps) s) = Some p"
      "a \<in> set (snd (read_pad p (list_pads (connected_pads ps) s)))"
    using assms(2) by (auto simp: poll_pads_def read_pad_def Let_def split: if_splits option.splits)
  then have "p \<in> set (connected_pads ps)" "gs_selected s = Some (pad_index p)" "map_option fst (gs_saved s) = Some (pad_id p)"
    using selected_pad_chosen [OF assms(1) p(1)] by simp_all
  moreover have "\<not> gs_suppress s" "a \<in> set (pressed_actions (gs_mapping s) (gs_previous s) (pad_buttons p))"
    using p(2) by (auto simp: read_pad_def Let_def split: if_splits)
  ultimately show ?thesis using assms(1) by (fastforce simp: follows_choice_def pressed_actions_def)
qed

text \<open>C37. Whatever happened before (polls, choosing devices, assigning buttons, with any stored settings), an action that a poll performs
  comes from a connected controller with the id of the one that was chosen last, and is that of a button which is pressed now and was
  released on this same controller in the poll before.\<close>

theorem only_chosen_gamepad_acts:
  assumes "a \<in> set (snd (poll_pads ok ps (gamepad_run es (new_gamepad m d))))"
  shows "\<exists>p\<in>set (connected_pads ps). \<exists>q\<in>set (connected_pads (last_poll es)). \<exists>b.
    chosen_id es d = Some (pad_id p) \<and> pad_id q = pad_id p \<and> pad_index q = pad_index p \<and>
    (a, b) \<in> set (gs_mapping (gamepad_run es (new_gamepad m d))) \<and> pad_pressed b (pad_buttons p) \<and> \<not> pad_pressed b (pad_buttons q)"
  by (rule poll_acts [OF run_follows assms])

text \<open>After any events and whatever was stored, no button has two actions, and the mapping that is stored is the mapping that the next
  start of the page loads.\<close>

theorem gamepad_mapping_kept:
  "valid_mapping (gs_mapping (gamepad_run es (new_gamepad m d))) \<and>
   loadMapping (Some (mapping_json (gs_mapping (gamepad_run es (new_gamepad m d))))) = gs_mapping (gamepad_run es (new_gamepad m d))"
  using gamepad_run_valid mapping_reloads by blast

definition sample_pad :: "int \<Rightarrow> string \<Rightarrow> int list \<Rightarrow> pad option" where
  "sample_pad n i pressed =
     Some \<lparr>pad_index = n, pad_id = i, pad_connected = True, pad_mapping = ''standard'',
           pad_buttons = map (\<lambda>b. b \<in> set pressed) [0..16], pad_axes = 4\<rparr>"

text \<open>The first controller is selected and its button 12 read as pressed, released, and pressed again.\<close>

definition sample_polls :: "gamepad_event list" where
  "sample_polls = [Poll True [sample_pad 0 ''pad'' [12]], Poll True [sample_pad 0 ''pad'' []]]"

lemma only_chosen_gamepad_acts_witness:
  "snd (poll_pads True [sample_pad 0 ''pad'' [12], sample_pad 1 ''other'' [0, 9]] (gamepad_run sample_polls (new_gamepad None None))) = [SpeedUp] \<and>
   chosen_id sample_polls None = Some ''pad''"
proof -
  have run: "snd (poll_pads True [sample_pad 0 ''pad'' [12], sample_pad 1 ''other'' [0, 9]] (gamepad_run sample_polls (new_gamepad None None))) = [SpeedUp]"
    by code_simp
  have "connected_pads [sample_pad 0 ''pad'' [12], sample_pad 1 ''other'' [0, 9]] = map the [sample_pad 0 ''pad'' [12], sample_pad 1 ''other'' [0, 9]]"
    by (simp add: connected_pads_def sample_pad_def)
  moreover have "connected_pads (last_poll sample_polls) = [the (sample_pad 0 ''pad'' [])]" by code_simp
  ultimately have "chosen_id sample_polls None = Some ''pad''"
    using only_chosen_gamepad_acts [of SpeedUp True "[sample_pad 0 ''pad'' [12], sample_pad 1 ''other'' [0, 9]]" sample_polls None None]
    by (simp add: run) (simp add: sample_pad_def)
  then show ?thesis using run by simp
qed

text \<open>Two controllers of one model have one id: when the chosen one disappears the other takes over.\<close>

lemma same_model_takes_over:
  "snd (poll_pads True [sample_pad 1 ''pad'' [12]]
     (gamepad_run [Poll True [sample_pad 0 ''pad'' [], sample_pad 1 ''pad'' []], SelectPad True 0 [sample_pad 0 ''pad'' [], sample_pad 1 ''pad'' []],
        Poll True [sample_pad 1 ''pad'' []]] (new_gamepad None None))) = [SpeedUp]"
  by code_simp

end
