(* ===== verification/Throttle.thy ===== *)
theory Throttle
  imports Commands Gamepad
begin

text \<open>
  Driving: what the client knows of the command station (\<open>context/CommandCenterContext.tsx\<close>) and the locomotive panel
  (\<open>layout/LocoPanel.tsx\<close> with the buttons of \<open>layout/loco-panel\<close>), which turns clicks and gamepad actions into commands. A handler is
  a closure over the values of the last render, which is its first argument; it changes the state that the next render shows and sends
  commands. Clicks are rendered one by one; all actions of one gamepad poll run before the next render. Effects run with the render
  that triggers them. Speeds and addresses are whole numbers.
\<close>

subsection \<open>The command station\<close>

record lock_state =
  lk_locked :: bool
  lk_owner :: "string option"
  lk_reason :: "string option"

record station_info =
  si_alive :: bool
  si_type :: "string option"
  si_name :: "string option"
  si_ip :: "string option"
  si_port :: "int option"
  si_serialPort :: "string option"
  si_connectionString :: "string option"

record power_info =
  pw_emergencyStop :: bool
  pw_trackVoltageOn :: bool
  pw_trackVoltageOff :: bool
  pw_shortCircuit :: bool
  pw_programmingModeActive :: bool

text \<open>Of the Z21 system state the client looks at its power info only.\<close>

record station =
  st_lock :: lock_state
  st_info :: station_info
  st_power :: "power_info option"
  st_z21 :: "jsval option"

definition emptyLockState :: lock_state where
  "emptyLockState = \<lparr>lk_locked = False, lk_owner = None, lk_reason = None\<rparr>"

definition emptyCommandCenterInfo :: station_info where
  "emptyCommandCenterInfo =
     \<lparr>si_alive = False, si_type = None, si_name = None, si_ip = None, si_port = None, si_serialPort = None, si_connectionString = None\<rparr>"

definition new_station :: station where
  "new_station = \<lparr>st_lock = emptyLockState, st_info = emptyCommandCenterInfo, st_power = None, st_z21 = None\<rparr>"

definition clear_station :: "station \<Rightarrow> station" where
  "clear_station c = c\<lparr>st_info := (st_info c)\<lparr>si_alive := False\<rparr>, st_power := None, st_z21 := None, st_lock := emptyLockState\<rparr>"

definition station_status :: "ws_status \<Rightarrow> station \<Rightarrow> station" where
  "station_status status c = (if status \<in> {Disconnected, Reconnecting, Connecting, ErrorStatus} then clear_station c else c)"

definition station_lock :: "lock_state \<Rightarrow> station \<Rightarrow> station" where
  "station_lock data c = c\<lparr>st_lock := data\<rparr>"

definition station_commandCenterInfo :: "station_info \<Rightarrow> station \<Rightarrow> station" where
  "station_commandCenterInfo data c =
     (let c1 = c\<lparr>st_info := data\<rparr> in if si_alive data then c1 else c1\<lparr>st_power := None, st_z21 := None, st_lock := emptyLockState\<rparr>)"

definition station_powerInfo :: "power_info \<Rightarrow> station \<Rightarrow> station" where
  "station_powerInfo data c = c\<lparr>st_power := Some data\<rparr>"

definition station_z21 :: "jsval \<Rightarrow> power_info \<Rightarrow> station \<Rightarrow> station" where
  "station_z21 data info c =
     c\<lparr>st_z21 := Some data, st_power := Some info,
       st_info := (st_info c)\<lparr>si_alive := True, si_type := (case si_type (st_info c) of None \<Rightarrow> Some ''z21'' | Some t \<Rightarrow> Some t)\<rparr>\<rparr>"

subsection \<open>The panel\<close>

record loco_function =
  lf_number :: int
  lf_momentary :: bool

record loco =
  lo_id :: string
  lo_address :: int
  lo_maxSpeed :: int
  lo_functions :: "loco_function list"

record loco_report =
  lr_address :: int
  lr_speed :: int
  lr_direction :: string
  lr_functions :: "(int \<times> bool) list option"
  lr_reservation :: "jsval option"

record loco_panel =
  pl_locos :: "loco list"
  pl_selectedLocoId :: string
  pl_storedId :: "string option"
  pl_currentAddress :: "int option"
  pl_pickerOpened :: bool
  pl_speed :: int
  pl_direction :: string
  pl_activeFunctions :: "(int \<times> bool) list"
  pl_reservation :: "jsval option"

record driving =
  dr_station :: station
  dr_panel :: loco_panel

definition new_loco_panel :: "string option \<Rightarrow> loco_panel" where
  "new_loco_panel stored =
     \<lparr>pl_locos = [], pl_selectedLocoId = (case stored of Some s \<Rightarrow> s | None \<Rightarrow> []), pl_storedId = stored, pl_currentAddress = None,
      pl_pickerOpened = False, pl_speed = 0, pl_direction = ''forward'', pl_activeFunctions = [], pl_reservation = None\<rparr>"

definition clearRuntimeState :: "loco_panel \<Rightarrow> loco_panel" where
  "clearRuntimeState p = p\<lparr>pl_speed := 0, pl_direction := ''forward'', pl_activeFunctions := [], pl_reservation := None\<rparr>"

definition requestCurrentLocoState :: "loco_panel \<Rightarrow> json list" where
  "requestCurrentLocoState p = (case pl_currentAddress p of Some a \<Rightarrow> [getLoco a] | None \<Rightarrow> [])"

definition selectLocoId :: "string \<Rightarrow> loco_panel \<Rightarrow> loco_panel" where
  "selectLocoId i p = p\<lparr>pl_selectedLocoId := i, pl_storedId := (if i \<noteq> [] then Some i else None)\<rparr>"

definition currentLoco :: "loco_panel \<Rightarrow> loco option" where
  "currentLoco p =
     (case (if pl_selectedLocoId p \<noteq> [] then find (\<lambda>l. lo_id l = pl_selectedLocoId p) (pl_locos p) else None) of
        Some l \<Rightarrow> Some l
      | None \<Rightarrow> (case pl_locos p of l # rest \<Rightarrow> Some l | [] \<Rightarrow> None))"

text \<open>The effect on \<open>locos\<close> and \<open>selectedLocoId\<close>, and the effect on \<open>currentLoco\<close>.\<close>

definition keep_selection :: "loco_panel \<Rightarrow> loco_panel" where
  "keep_selection p =
     (if pl_locos p = [] then if pl_selectedLocoId p \<noteq> [] then selectLocoId [] p else p
      else if pl_selectedLocoId p \<noteq> [] \<and> list_ex (\<lambda>l. lo_id l = pl_selectedLocoId p) (pl_locos p) then p
      else selectLocoId (lo_id (hd (pl_locos p))) p)"

definition current_changed :: "loco_panel \<Rightarrow> loco_panel \<times> json list" where
  "current_changed p =
     (let l = currentLoco p; p1 = clearRuntimeState (p\<lparr>pl_currentAddress := map_option lo_address l\<rparr>)
      in (p1, case l of Some x \<Rightarrow> [getLoco (lo_address x)] | None \<Rightarrow> []))"

text \<open>A new roster has new objects, so the effect on \<open>currentLoco\<close> always runs.\<close>

definition set_locos :: "loco list \<Rightarrow> loco_panel \<Rightarrow> loco_panel \<times> json list" where
  "set_locos ls p = current_changed (keep_selection (p\<lparr>pl_locos := ls\<rparr>))"

definition handleSelectLoco :: "loco \<Rightarrow> loco_panel \<Rightarrow> loco_panel \<times> json list" where
  "handleSelectLoco l p =
     (let p1 = keep_selection (clearRuntimeState ((selectLocoId (lo_id l) p)\<lparr>pl_pickerOpened := False\<rparr>))
      in if currentLoco p1 = currentLoco p then (p1, []) else current_changed p1)"

definition panel_status :: "ws_status \<Rightarrow> loco_panel \<Rightarrow> loco_panel \<times> json list" where
  "panel_status status p =
     (if status = Connected then (p, requestCurrentLocoState p)
      else if status \<in> {Disconnected, Reconnecting, ErrorStatus} then (clearRuntimeState p, []) else (p, []))"

text \<open>A report without a locomotive only shows an error message.\<close>

definition panel_locoState :: "loco_report option \<Rightarrow> loco_panel \<Rightarrow> loco_panel" where
  "panel_locoState data p =
     (case data of
        None \<Rightarrow> p
      | Some r \<Rightarrow>
          if Some (lr_address r) \<noteq> pl_currentAddress p then p
          else p\<lparr>pl_speed := lr_speed r, pl_direction := lr_direction r,
                 pl_activeFunctions := (case lr_functions r of Some fs \<Rightarrow> fs | None \<Rightarrow> []), pl_reservation := lr_reservation r\<rparr>)"

definition panel_reservationChanged :: "int \<Rightarrow> loco_panel \<Rightarrow> json list" where
  "panel_reservationChanged a p = (if Some a \<noteq> pl_currentAddress p then [] else [getLoco a])"

subsection \<open>Handlers\<close>

definition controlled :: "driving \<Rightarrow> loco option" where
  "controlled r = (if si_alive (st_info (dr_station r)) then currentLoco (dr_panel r) else None)"

definition max_speed :: "loco \<Rightarrow> int" where
  "max_speed l = (if lo_maxSpeed l = 0 then 100 else lo_maxSpeed l)"

definition setLocoSpeed :: "driving \<Rightarrow> int \<Rightarrow> loco_panel \<Rightarrow> loco_panel \<times> json list" where
  "setLocoSpeed r nextSpeed p =
     (case controlled r of
        None \<Rightarrow> (p, [])
      | Some l \<Rightarrow> (p\<lparr>pl_speed := nextSpeed\<rparr>, [setLoco (lo_address l) nextSpeed (pl_direction (dr_panel r))]))"

text \<open>\<open>Math.round(x / 100)\<close> rounds halves up.\<close>

definition setLocoSpeedByPercent :: "driving \<Rightarrow> int \<Rightarrow> loco_panel \<Rightarrow> loco_panel \<times> json list" where
  "setLocoSpeedByPercent r percent p =
     (case controlled r of
        None \<Rightarrow> (p, [])
      | Some l \<Rightarrow> setLocoSpeed r (max 0 (min ((max_speed l * percent + 50) div 100) (max_speed l))) p)"

definition handle_direction :: "string \<Rightarrow> driving \<Rightarrow> loco_panel \<Rightarrow> loco_panel \<times> json list" where
  "handle_direction d r p =
     (case controlled r of
        None \<Rightarrow> (p, [])
      | Some l \<Rightarrow> (p\<lparr>pl_direction := d\<rparr>, [setLoco (lo_address l) (pl_speed (dr_panel r)) d]))"

definition handleForward :: "driving \<Rightarrow> loco_panel \<Rightarrow> loco_panel \<times> json list" where
  "handleForward = handle_direction ''forward''"

definition handleReverse :: "driving \<Rightarrow> loco_panel \<Rightarrow> loco_panel \<times> json list" where
  "handleReverse = handle_direction ''reverse''"

definition handleStop :: "driving \<Rightarrow> loco_panel \<Rightarrow> loco_panel \<times> json list" where
  "handleStop r p =
     (case controlled r of
        None \<Rightarrow> (p, [])
      | Some l \<Rightarrow> (p\<lparr>pl_speed := 0\<rparr>, [setLoco (lo_address l) 0 (pl_direction (dr_panel r))]))"

definition handleEmergencyToggle :: "driving \<Rightarrow> json list" where
  "handleEmergencyToggle r =
     (case st_power (dr_station r) of
        None \<Rightarrow> []
      | Some w \<Rightarrow> if \<not> si_alive (st_info (dr_station r)) then [] else if pw_emergencyStop w then [powerOn] else [emergencyStop])"

definition function_active :: "loco_panel \<Rightarrow> int \<Rightarrow> bool" where
  "function_active p n = (map_of (pl_activeFunctions p) n = Some True)"

definition set_function :: "int \<Rightarrow> bool \<Rightarrow> loco_panel \<Rightarrow> loco_panel" where
  "set_function n b p = p\<lparr>pl_activeFunctions := AList.update n b (pl_activeFunctions p)\<rparr>"

definition handleFunctionToggle :: "int \<Rightarrow> driving \<Rightarrow> loco_panel \<Rightarrow> loco_panel \<times> json list" where
  "handleFunctionToggle n r p =
     (case controlled r of
        None \<Rightarrow> (p, [])
      | Some l \<Rightarrow> (let active = \<not> function_active (dr_panel r) n in (set_function n active p, [setLocoFunction (lo_address l) n active])))"

text \<open>The function buttons: pressing one shows nothing until the report comes; leaving a momentary one releases it.\<close>

definition momentary_function :: "loco \<Rightarrow> int \<Rightarrow> bool" where
  "momentary_function l n = (case find (\<lambda>f. lf_number f = n) (lo_functions l) of Some f \<Rightarrow> lf_momentary f | None \<Rightarrow> False)"

definition function_down :: "int \<Rightarrow> driving \<Rightarrow> json list" where
  "function_down n r =
     (case controlled r of
        None \<Rightarrow> []
      | Some l \<Rightarrow> [setLocoFunction (lo_address l) n (if momentary_function l n then True else \<not> function_active (dr_panel r) n)])"

definition releaseMomentaryFunction :: "int \<Rightarrow> driving \<Rightarrow> loco_panel \<Rightarrow> loco_panel \<times> json list" where
  "releaseMomentaryFunction n r p =
     (case controlled r of
        None \<Rightarrow> (p, [])
      | Some l \<Rightarrow> if momentary_function l n then (set_function n False p, [setLocoFunction (lo_address l) n False]) else (p, []))"

definition speedUp :: "driving \<Rightarrow> loco_panel \<Rightarrow> loco_panel \<times> json list" where
  "speedUp r p =
     (case controlled r of None \<Rightarrow> (p, []) | Some l \<Rightarrow> setLocoSpeed r (min (pl_speed (dr_panel r) + 5) (max_speed l)) p)"

definition speedDown :: "driving \<Rightarrow> loco_panel \<Rightarrow> loco_panel \<times> json list" where
  "speedDown r p =
     (case controlled r of None \<Rightarrow> (p, []) | Some l \<Rightarrow> setLocoSpeed r (max (pl_speed (dr_panel r) - 5) 0) p)"

fun perform_action :: "gamepad_action \<Rightarrow> driving \<Rightarrow> loco_panel \<Rightarrow> loco_panel \<times> json list" where
  "perform_action SpeedUp r p = speedUp r p"
| "perform_action SpeedDown r p = speedDown r p"
| "perform_action GoForward r p = handleForward r p"
| "perform_action GoReverse r p = handleReverse r p"
| "perform_action StopLoco r p = handleStop r p"
| "perform_action Emergency r p = (p, handleEmergencyToggle r)"
| "perform_action Function0 r p = handleFunctionToggle 0 r p"
| "perform_action Function1 r p = handleFunctionToggle 1 r p"
| "perform_action Function2 r p = handleFunctionToggle 2 r p"
| "perform_action Function3 r p = handleFunctionToggle 3 r p"

text \<open>The actions of one poll: the handlers are those of one render.\<close>

fun perform_all :: "gamepad_action list \<Rightarrow> driving \<Rightarrow> loco_panel \<Rightarrow> loco_panel \<times> json list" where
  "perform_all [] r p = (p, [])"
| "perform_all (a # as) r p =
     (let (p1, cs) = perform_action a r p; (p2, ds) = perform_all as r p1 in (p2, cs @ ds))"

subsection \<open>Events\<close>

text \<open>The slider gives values between 0 and the greatest speed.\<close>

datatype drive_event =
    StatusChanged ws_status | LockChanged lock_state | StationInfo station_info | PowerChanged power_info | Z21State jsval power_info
  | RosterChanged "loco list" | LocoPicked loco | LocoReported "loco_report option" | ReservationChanged int
  | SliderMoved int | PercentClicked int | ForwardClicked | ReverseClicked | StopClicked | EmergencyClicked | FunctionPressed int
  | FunctionReleased int | GamepadPolled "gamepad_action list"

definition on_station :: "(station \<Rightarrow> station) \<Rightarrow> driving \<Rightarrow> driving \<times> json list" where
  "on_station f s = (s\<lparr>dr_station := f (dr_station s)\<rparr>, [])"

definition on_panel :: "(loco_panel \<Rightarrow> loco_panel \<times> json list) \<Rightarrow> driving \<Rightarrow> driving \<times> json list" where
  "on_panel f s = (let (p, cs) = f (dr_panel s) in (s\<lparr>dr_panel := p\<rparr>, cs))"

fun drive_step :: "drive_event \<Rightarrow> driving \<Rightarrow> driving \<times> json list" where
  "drive_step (StatusChanged st) s = on_panel (panel_status st) (s\<lparr>dr_station := station_status st (dr_station s)\<rparr>)"
| "drive_step (LockChanged data) s = on_station (station_lock data) s"
| "drive_step (StationInfo data) s = on_station (station_commandCenterInfo data) s"
| "drive_step (PowerChanged data) s = on_station (station_powerInfo data) s"
| "drive_step (Z21State data info) s = on_station (station_z21 data info) s"
| "drive_step (RosterChanged ls) s = on_panel (set_locos ls) s"
| "drive_step (LocoPicked l) s = on_panel (handleSelectLoco l) s"
| "drive_step (LocoReported r) s = on_panel (\<lambda>p. (panel_locoState r p, [])) s"
| "drive_step (ReservationChanged a) s = on_panel (\<lambda>p. (p, panel_reservationChanged a p)) s"
| "drive_step (SliderMoved n) s =
     on_panel (setLocoSpeed s (case currentLoco (dr_panel s) of Some l \<Rightarrow> max 0 (min n (max_speed l)) | None \<Rightarrow> 0)) s"
| "drive_step (PercentClicked n) s = on_panel (setLocoSpeedByPercent s n) s"
| "drive_step ForwardClicked s = on_panel (handleForward s) s"
| "drive_step ReverseClicked s = on_panel (handleReverse s) s"
| "drive_step StopClicked s = on_panel (handleStop s) s"
| "drive_step EmergencyClicked s = (s, handleEmergencyToggle s)"
| "drive_step (FunctionPressed n) s = (s, function_down n s)"
| "drive_step (FunctionReleased n) s = on_panel (releaseMomentaryFunction n s) s"
| "drive_step (GamepadPolled as) s = on_panel (perform_all as s) s"

fun drive_run :: "drive_event list \<Rightarrow> driving \<Rightarrow> driving \<times> json list" where
  "drive_run [] s = (s, [])"
| "drive_run (e # es) s = (let (s1, cs) = drive_step e s; (s2, ds) = drive_run es s1 in (s2, cs @ ds))"

subsection \<open>Silence without a station\<close>

definition station_alive :: "driving \<Rightarrow> bool" where
  "station_alive s = si_alive (st_info (dr_station s))"

definition is_query :: "json \<Rightarrow> bool" where
  "is_query c = (case c of TObj ((k, TStr t) # rest) \<Rightarrow> t = ''getLoco'' | _ \<Rightarrow> False)"

definition announces :: "drive_event \<Rightarrow> bool" where
  "announces e = (case e of StationInfo i \<Rightarrow> si_alive i | Z21State data info \<Rightarrow> True | _ \<Rightarrow> False)"

lemma is_query_getLoco [simp]: "is_query (getLoco a)"
  by (simp add: is_query_def getLoco_def message_def)

lemmas handler_defs = setLocoSpeed_def setLocoSpeedByPercent_def handle_direction_def handleForward_def handleReverse_def handleStop_def
  handleFunctionToggle_def function_down_def releaseMomentaryFunction_def speedUp_def speedDown_def

lemma uncontrolled: "\<not> station_alive s \<Longrightarrow> controlled s = None"
  by (simp add: controlled_def station_alive_def)

lemma perform_all_uncontrolled: "\<not> station_alive r \<Longrightarrow> perform_all as r p = (p, [])"
proof (induction as arbitrary: p)
  case (Cons a as)
  have "handleEmergencyToggle r = []"
    using Cons.prems by (simp add: handleEmergencyToggle_def station_alive_def split: option.split)
  then have "perform_action a r p = (p, [])" using uncontrolled [OF Cons.prems] by (cases a) (simp_all add: handler_defs)
  then show ?case using Cons by simp
qed simp

lemma offline_step:
  assumes "\<not> station_alive s" and "\<not> announces e"
  shows "\<not> station_alive (fst (drive_step e s)) \<and> list_all is_query (snd (drive_step e s))"
proof -
  note off = uncontrolled [OF assms(1)] assms(1) [unfolded station_alive_def]
  show ?thesis
    using assms(2) off perform_all_uncontrolled [OF assms(1)]
    by (cases e)
      (simp_all add: announces_def station_alive_def on_station_def on_panel_def handler_defs handleEmergencyToggle_def station_status_def
        clear_station_def station_lock_def station_commandCenterInfo_def station_powerInfo_def panel_status_def requestCurrentLocoState_def
        set_locos_def handleSelectLoco_def current_changed_def panel_reservationChanged_def Let_def split: option.split)
qed

lemma offline_run:
  "\<not> station_alive s \<Longrightarrow> list_all (\<lambda>e. \<not> announces e) es \<Longrightarrow> list_all is_query (snd (drive_run es s))"
proof (induction es arbitrary: s)
  case (Cons e es)
  then show ?case using offline_step [of s e] by (simp add: case_prod_beta)
qed simp

lemma lost_connection: "st \<noteq> Connected \<Longrightarrow> \<not> station_alive (fst (drive_step (StatusChanged st) s)) \<and> snd (drive_step (StatusChanged st) s) = []"
  by (cases st) (simp_all add: station_alive_def on_panel_def station_status_def clear_station_def panel_status_def)

text \<open>C38. When the connection is lost, the panel sends nothing but questions about the state of a locomotive until the command station
  reports again that it is alive, whatever is clicked, pressed on the gamepad or reported in between.\<close>

theorem lost_connection_silences:
  assumes "st \<noteq> Connected" and "list_all (\<lambda>e. \<not> announces e) es"
  shows "list_all is_query (snd (drive_run (StatusChanged st # es) s))"
  using lost_connection [OF assms(1), of s] offline_run [OF _ assms(2)] by (simp add: case_prod_beta del: drive_step.simps)

subsection \<open>Speeds\<close>

definition loco_command :: "json \<Rightarrow> (int \<times> int) option" where
  "loco_command c =
     (case c of TObj [(k, TStr t), (k', TObj [(x, TInt a), (y, TInt n), (z, TStr d)])] \<Rightarrow> if t = ''setLoco'' then Some (a, n) else None
      | _ \<Rightarrow> None)"

text \<open>What the panel may be told: greatest speeds are not negative, and a reported speed is the seven bits of speed that the server keeps. It
  need not be at most the greatest speed of the locomotive.\<close>

definition report_allowed :: "drive_event \<Rightarrow> bool" where
  "report_allowed e =
     (case e of RosterChanged ls \<Rightarrow> list_all (\<lambda>l. 0 \<le> lo_maxSpeed l) ls
      | LocoReported (Some r) \<Rightarrow> 0 \<le> lr_speed r \<and> lr_speed r \<le> 127
      | _ \<Rightarrow> True)"

text \<open>What the panel of a render may send: to the current locomotive, and no more than its greatest speed or the speed it shows.\<close>

definition top_speed :: "driving \<Rightarrow> int" where
  "top_speed r = (case currentLoco (dr_panel r) of Some l \<Rightarrow> max (max_speed l) (pl_speed (dr_panel r)) | None \<Rightarrow> pl_speed (dr_panel r))"

definition speed_allowed :: "driving \<Rightarrow> json \<Rightarrow> bool" where
  "speed_allowed r c =
     (case loco_command c of
        Some (a, n) \<Rightarrow> map_option lo_address (currentLoco (dr_panel r)) = Some a \<and> 0 \<le> n \<and> n \<le> top_speed r
      | None \<Rightarrow> True)"

definition shown_within :: "int \<Rightarrow> driving \<Rightarrow> bool" where
  "shown_within m s \<longleftrightarrow> (case currentLoco (dr_panel s) of Some l \<Rightarrow> pl_speed (dr_panel s) \<le> max m (max_speed l) | None \<Rightarrow> True)"

definition panel_in_range :: "driving \<Rightarrow> bool" where
  "panel_in_range s \<longleftrightarrow>
     list_all (\<lambda>l. 0 \<le> lo_maxSpeed l) (pl_locos (dr_panel s)) \<and> 0 \<le> pl_speed (dr_panel s) \<and> shown_within 127 s"

lemma command_values [simp]:
  "loco_command (setLoco a n d) = Some (a, n)" "loco_command (getLoco a) = None" "loco_command (setLocoFunction a i b) = None"
  "loco_command powerOn = None" "loco_command emergencyStop = None"
  by (simp_all add: loco_command_def setLoco_def getLoco_def setLocoFunction_def powerOn_def setTrackPower_def emergencyStop_def message_def)

lemma currentLoco_in: "currentLoco p = Some l \<Longrightarrow> l \<in> set (pl_locos p)"
  by (auto simp: currentLoco_def dest: find_SomeD split: option.splits list.splits if_splits)

lemma currentLoco_cong:
  "pl_locos p = pl_locos q \<Longrightarrow> pl_selectedLocoId p = pl_selectedLocoId q \<Longrightarrow> currentLoco p = currentLoco q"
  by (simp only: currentLoco_def)

lemma max_speed_nonneg: "panel_in_range s \<Longrightarrow> currentLoco (dr_panel s) = Some l \<Longrightarrow> 0 \<le> max_speed l"
  using currentLoco_in [of "dr_panel s" l] by (auto simp: panel_in_range_def list_all_iff max_speed_def)

lemma currentLoco_speed [simp]: "currentLoco (p\<lparr>pl_speed := n\<rparr>) = currentLoco p"
  by (rule currentLoco_cong) simp_all

text \<open>What a handler of the render \<open>r\<close> may make of the panel.\<close>

definition handled :: "driving \<Rightarrow> loco_panel \<times> json list \<Rightarrow> bool" where
  "handled r res \<longleftrightarrow>
     pl_locos (fst res) = pl_locos (dr_panel r) \<and> pl_selectedLocoId (fst res) = pl_selectedLocoId (dr_panel r) \<and>
     0 \<le> pl_speed (fst res) \<and> pl_speed (fst res) \<le> top_speed r \<and> list_all (speed_allowed r) (snd res)"

lemma controlled_loco:
  assumes "controlled r = Some l"
  shows "currentLoco (dr_panel r) = Some l" "top_speed r = max (max_speed l) (pl_speed (dr_panel r))"
  using assms by (simp_all add: controlled_def top_speed_def split: if_splits)

lemma handled_speed:
  assumes "controlled r = Some l" and "handled r (p, [])" and "0 \<le> n" and "n \<le> top_speed r"
  shows "handled r (p\<lparr>pl_speed := n\<rparr>, [setLoco (lo_address l) n d])"
  using assms controlled_loco(1) [OF assms(1)] by (simp add: handled_def speed_allowed_def)

lemma handled_same_speed:
  assumes "handled r (p, [])" and "list_all (speed_allowed r) cs" and "pl_speed q = pl_speed p"
    and "pl_locos q = pl_locos p" "pl_selectedLocoId q = pl_selectedLocoId p"
  shows "handled r (q, cs)"
  using assms by (simp add: handled_def)

lemma handled_set_speed:
  assumes "handled r (p, [])" and "\<And>l. controlled r = Some l \<Longrightarrow> 0 \<le> n \<and> n \<le> top_speed r"
  shows "handled r (setLocoSpeed r n p)"
  using assms handled_speed by (simp add: setLocoSpeed_def split: option.split)

lemma perform_action_handled:
  assumes r: "panel_in_range r" and p: "handled r (p, [])"
  shows "handled r (perform_action a r p)"
proof -
  have e: "list_all (speed_allowed r) (handleEmergencyToggle r)"
    by (simp add: handleEmergencyToggle_def speed_allowed_def split: option.split)
  have pos: "0 \<le> pl_speed (dr_panel r)" using r by (simp add: panel_in_range_def)
  show ?thesis
  proof (cases "controlled r")
    case None
    then show ?thesis using p handled_same_speed [OF p e] by (cases a) (simp_all add: handler_defs)
  next
    case (Some l)
    note l = controlled_loco [OF Some]
    have m: "0 \<le> max_speed l" using max_speed_nonneg [OF r l(1)] .
    have d: "handled r (handle_direction d r p)" for d
      using Some l pos handled_same_speed [OF p, of "[setLoco (lo_address l) (pl_speed (dr_panel r)) d]" "p\<lparr>pl_direction := d\<rparr>"]
      by (simp add: handle_direction_def speed_allowed_def)
    have f: "handled r (handleFunctionToggle n r p)" for n
      using Some handled_same_speed [OF p] by (simp add: handleFunctionToggle_def set_function_def speed_allowed_def Let_def)
    have s: "handled r (handleStop r p)"
      using Some handled_speed [OF Some p] m l by (simp add: handleStop_def)
    have u: "handled r (speedUp r p)" "handled r (speedDown r p)"
      using Some l m pos by (auto simp: speedUp_def speedDown_def intro!: handled_set_speed [OF p])
    show ?thesis using d f s u handled_same_speed [OF p e] by (cases a) (simp_all add: handleForward_def handleReverse_def)
  qed
qed

lemma perform_all_handled:
  assumes "panel_in_range r"
  shows "handled r (p, []) \<Longrightarrow> handled r (perform_all as r p)"
proof (induction as arbitrary: p)
  case (Cons a as)
  obtain p1 cs where a: "perform_action a r p = (p1, cs)" by (cases "perform_action a r p")
  have one: "handled r (p1, cs)" using perform_action_handled [OF assms Cons.prems, of a] by (simp add: a)
  then have "handled r (p1, [])" by (simp add: handled_def)
  then show ?case using Cons.IH [of p1] one by (simp add: a handled_def case_prod_beta)
qed simp

text \<open>What a step keeps: only a report can make the shown speed greater than the greatest speed.\<close>

definition allowed :: "driving \<Rightarrow> driving \<times> json list \<Rightarrow> bool" where
  "allowed s res \<longleftrightarrow>
     panel_in_range (fst res) \<and> list_all (speed_allowed s) (snd res) \<and> (shown_within 0 s \<longrightarrow> shown_within 0 (fst res))"

lemma handled_allowed:
  assumes s: "panel_in_range s" and h: "handled s (f (dr_panel s))"
  shows "allowed s (on_panel f s)"
proof -
  obtain q cs where q: "f (dr_panel s) = (q, cs)" by (cases "f (dr_panel s)")
  have same: "currentLoco q = currentLoco (dr_panel s)" using h by (intro currentLoco_cong) (simp_all add: handled_def q)
  have within: "shown_within m (s\<lparr>dr_panel := q\<rparr>)" if "shown_within m s" "0 \<le> m" for m
    using h that by (auto simp: shown_within_def same handled_def q top_speed_def split: option.split)
  show ?thesis using s h within [of 127] within [of 0] by (simp add: allowed_def on_panel_def q panel_in_range_def handled_def)
qed

text \<open>Events that leave the shown speed at 0, or send nothing.\<close>

lemma stopped_allowed:
  assumes "f (dr_panel s) = (q, cs)" and "pl_speed q = 0" and "list_all (\<lambda>l. 0 \<le> lo_maxSpeed l) (pl_locos q)" and "list_all (speed_allowed s) cs"
  shows "allowed s (on_panel f s)"
proof -
  have "0 \<le> max_speed l" if "currentLoco q = Some l" for l
    using currentLoco_in [OF that] assms(3) by (auto simp: list_all_iff max_speed_def)
  then show ?thesis using assms by (auto simp: allowed_def on_panel_def panel_in_range_def shown_within_def split: option.split)
qed

lemma keep_selection_locos [simp]: "pl_locos (keep_selection p) = pl_locos p" "pl_speed (keep_selection p) = pl_speed p"
  by (simp_all add: keep_selection_def selectLocoId_def)

lemma current_changed_stops:
  "pl_speed (fst (current_changed p)) = 0" "pl_locos (fst (current_changed p)) = pl_locos p" "list_all (speed_allowed s) (snd (current_changed p))"
  by (simp_all add: current_changed_def clearRuntimeState_def Let_def speed_allowed_def split: option.split)

lemma pick_stops:
  "pl_speed (fst (handleSelectLoco l p)) = 0" "pl_locos (fst (handleSelectLoco l p)) = pl_locos p"
  "list_all (speed_allowed s) (snd (handleSelectLoco l p))"
  by (simp_all add: handleSelectLoco_def Let_def current_changed_stops clearRuntimeState_def selectLocoId_def)

lemma panel_still:
  assumes "panel_in_range s" and "dr_panel t = dr_panel s" and "list_all (speed_allowed s) cs"
  shows "allowed s (t, cs)"
  using assms(1,3) unfolding allowed_def panel_in_range_def shown_within_def fst_conv snd_conv assms(2) by blast

lemma status_allowed:
  assumes "panel_in_range s"
  shows "allowed s (drive_step (StatusChanged st) s)"
proof -
  let ?f = "panel_status st" and ?s = "s\<lparr>dr_station := station_status st (dr_station s)\<rparr>"
  have c: "list_all (speed_allowed s) (requestCurrentLocoState (dr_panel s))"
    by (simp add: requestCurrentLocoState_def speed_allowed_def split: option.split)
  have p: "dr_panel ?s = dr_panel s" by simp
  have same: "speed_allowed ?s = speed_allowed s" "shown_within m ?s = shown_within m s" "panel_in_range ?s = panel_in_range s" for m
    unfolding fun_eq_iff speed_allowed_def top_speed_def shown_within_def panel_in_range_def p by (rule allI refl)+
  have "allowed ?s (on_panel ?f ?s)"
  proof (cases "st \<in> {Disconnected, Reconnecting, ErrorStatus}")
    case True
    then show ?thesis using assms
      by (intro stopped_allowed [where q = "clearRuntimeState (dr_panel s)" and cs = "[]"]) (auto simp: panel_status_def clearRuntimeState_def panel_in_range_def)
  next
    case False
    define cs where "cs = (if st = Connected then requestCurrentLocoState (dr_panel s) else [])"
    have "panel_status st (dr_panel s) = (dr_panel s, cs)" "list_all (speed_allowed s) cs"
      using False c by (simp_all add: panel_status_def cs_def)
    moreover have "?s\<lparr>dr_panel := dr_panel s\<rparr> = ?s" by simp
    ultimately show ?thesis using panel_still [of ?s ?s cs] assms by (simp add: on_panel_def same)
  qed
  then show ?thesis by (simp add: allowed_def same)
qed

lemma drive_step_allowed:
  assumes s: "panel_in_range s" and e: "report_allowed e" and no_report: "\<And>r. e \<noteq> LocoReported r"
  shows "allowed s (drive_step e s)"
proof -
  have pos: "0 \<le> pl_speed (dr_panel s)" using s by (simp add: panel_in_range_def)
  have p: "handled s (dr_panel s, [])"
    using s by (auto simp: handled_def panel_in_range_def top_speed_def split: option.split)
  note ha = handled_allowed [OF s] and still = panel_still [OF s]
  have "allowed s (on_station f s)" for f using still by (simp add: on_station_def)
  moreover have "allowed s (on_panel (perform_action a s) s)" for a by (rule ha) (rule perform_action_handled [OF s p])
  then have "allowed s (on_panel (handleForward s) s)" "allowed s (on_panel (handleReverse s) s)" "allowed s (on_panel (handleStop s) s)"
    by (metis perform_action.simps(3) ext, metis perform_action.simps(4) ext, metis perform_action.simps(5) ext)
  moreover have "allowed s (on_panel (releaseMomentaryFunction n s) s)" for n
    using handled_same_speed [OF p] by (intro ha) (auto simp: releaseMomentaryFunction_def set_function_def speed_allowed_def p split: option.split)
  moreover have "allowed s (on_panel (setLocoSpeedByPercent s n) s)" for n
    using controlled_loco max_speed_nonneg [OF s]
    by (intro ha) (auto simp: setLocoSpeedByPercent_def p intro!: handled_set_speed [OF p] split: option.split)
  moreover have "allowed s (drive_step (SliderMoved n) s)" for n
    using controlled_loco max_speed_nonneg [OF s] by (auto intro!: ha handled_set_speed [OF p])
  moreover have "allowed s (s, function_down n s)" for n
    by (rule still) (simp_all add: function_down_def speed_allowed_def split: option.split)
  moreover have "allowed s (s, handleEmergencyToggle s)"
    by (rule still) (simp_all add: handleEmergencyToggle_def speed_allowed_def split: option.split)
  moreover have "allowed s (drive_step (GamepadPolled as) s)" for as
    using perform_all_handled [OF s p] by (auto intro: ha)
  moreover have "allowed s (drive_step (RosterChanged ls) s)" if "list_all (\<lambda>l. 0 \<le> lo_maxSpeed l) ls" for ls
    unfolding drive_step.simps using that by (intro stopped_allowed [OF prod.collapse [symmetric]]) (simp_all add: set_locos_def current_changed_stops)
  moreover have "allowed s (drive_step (LocoPicked l) s)" for l
    unfolding drive_step.simps using s by (intro stopped_allowed [OF prod.collapse [symmetric]]) (simp_all add: pick_stops panel_in_range_def)
  moreover have "allowed s (drive_step (ReservationChanged a) s)" for a
    using still by (simp add: on_panel_def panel_reservationChanged_def speed_allowed_def)
  moreover have "allowed s (drive_step (StatusChanged st) s)" for st by (rule status_allowed [OF s])
  moreover have "\<exists>r. e = LocoReported r \<Longrightarrow> allowed s (drive_step e s)" using no_report by blast
  ultimately show ?thesis
    using e by (cases e) (simp_all add: report_allowed_def del: drive_step.simps(1,6,7,8,9,10,18))
qed

lemma report_step:
  assumes "panel_in_range s" and "report_allowed (LocoReported data)"
  shows "panel_in_range (fst (drive_step (LocoReported data) s)) \<and> snd (drive_step (LocoReported data) s) = []"
proof -
  have "currentLoco (panel_locoState data (dr_panel s)) = currentLoco (dr_panel s)"
    by (rule currentLoco_cong) (simp_all add: panel_locoState_def split: option.split)
  then show ?thesis using assms
    by (auto simp: on_panel_def panel_in_range_def shown_within_def report_allowed_def panel_locoState_def split: option.splits if_splits)
qed

lemma drive_step_sends:
  "panel_in_range s \<Longrightarrow> report_allowed e \<Longrightarrow> panel_in_range (fst (drive_step e s)) \<and> list_all (speed_allowed s) (snd (drive_step e s))"
  using drive_step_allowed [of s e] report_step [of s] unfolding allowed_def by (cases "\<exists>r. e = LocoReported r") auto

lemma drive_run_in_range: "panel_in_range s \<Longrightarrow> list_all report_allowed es \<Longrightarrow> panel_in_range (fst (drive_run es s))"
proof (induction es arbitrary: s)
  case (Cons e es)
  then show ?case using drive_step_sends [of s e] by (simp add: case_prod_beta)
qed simp

text \<open>C39. After any run in which greatest speeds are not negative and reported speeds between 0 and 127 (they may be greater than the greatest
  speed of the locomotive, and rosters may change): every speed the panel sends next, by clicks, slider, presets and gamepad, goes to the
  current locomotive and is between 0 and the greater of its greatest speed and the speed shown. So a command never makes a locomotive
  faster than its greatest speed unless a report said it already is; and only a report can make the shown speed greater than the
  greatest one. The shown speed is between 0 and the greater of 127 and the greatest speed.\<close>

theorem speeds_in_range:
  assumes "list_all report_allowed es" and "report_allowed e" and "s = fst (drive_run es \<lparr>dr_station = c, dr_panel = new_loco_panel stored\<rparr>)"
  shows "list_all (speed_allowed s) (snd (drive_step e s)) \<and> 0 \<le> pl_speed (dr_panel s) \<and> shown_within 127 s \<and>
    ((\<exists>r. e = LocoReported r) \<or> \<not> shown_within 0 s \<or> shown_within 0 (fst (drive_step e s)))"
proof -
  have s: "panel_in_range s" unfolding assms(3) using assms(1)
    by (intro drive_run_in_range) (simp_all add: panel_in_range_def shown_within_def new_loco_panel_def currentLoco_def)
  then show ?thesis using drive_step_sends [OF s assms(2)] drive_step_allowed [OF s assms(2)]
    by (auto simp: panel_in_range_def allowed_def)
qed

subsection \<open>Stopping\<close>

lemma perform_all_append:
  "perform_all (as @ bs) r p = (let (p1, cs) = perform_all as r p; (p2, ds) = perform_all bs r p1 in (p2, cs @ ds))"
  by (induction as arbitrary: p) (simp_all add: case_prod_beta Let_def)

lemma map_filter_app: "List.map_filter f (xs @ ys) = List.map_filter f xs @ List.map_filter f ys"
  by (simp add: List.map_filter_def)

lemma map_filter_one: "List.map_filter f (x # xs) = (case f x of Some y \<Rightarrow> y # List.map_filter f xs | None \<Rightarrow> List.map_filter f xs)"
  by (simp add: List.map_filter_def split: option.split)

lemma map_filter_none [simp]: "List.map_filter f [] = []"
  by (simp add: List.map_filter_def)

lemma emergency_moves_nothing: "List.map_filter loco_command (handleEmergencyToggle r) = []"
  by (simp add: handleEmergencyToggle_def map_filter_one split: option.split)

lemma emergencies: "set as \<subseteq> {Emergency} \<Longrightarrow> fst (perform_all as r p) = p \<and> List.map_filter loco_command (snd (perform_all as r p)) = []"
  by (induction as) (simp_all add: case_prod_beta Let_def emergency_moves_nothing map_filter_app)

lemma stop_then_emergencies:
  assumes "controlled r = Some l" and "set bs \<subseteq> {Emergency}"
  shows "pl_speed (fst (perform_all (as @ StopLoco # bs) r p)) = 0 \<and>
    last (List.map_filter loco_command (snd (perform_all (as @ StopLoco # bs) r p))) = (lo_address l, 0)"
proof -
  define q where "q = (fst (perform_all as r p))\<lparr>pl_speed := 0\<rparr>"
  have "perform_all (as @ StopLoco # bs) r p =
      (fst (perform_all bs r q), snd (perform_all as r p) @ setLoco (lo_address l) 0 (pl_direction (dr_panel r)) # snd (perform_all bs r q))"
    by (simp add: perform_all_append handleStop_def assms(1) case_prod_beta Let_def q_def)
  then show ?thesis using emergencies [OF assms(2), of r q] by (simp add: map_filter_app map_filter_one q_def)
qed

lemma default_stops_last:
  "StopLoco \<in> set (pressed_actions DEFAULT_MAPPING previous current) \<Longrightarrow>
     \<exists>as bs. pressed_actions DEFAULT_MAPPING previous current = as @ StopLoco # bs \<and> set bs \<subseteq> {Emergency}"
proof -
  define P where "P = (\<lambda>(a :: gamepad_action, b). pad_pressed b current \<and> \<not> pad_pressed b previous)"
  define early where "early = take 8 DEFAULT_MAPPING"
  have cut: "DEFAULT_MAPPING = early @ [(StopLoco, 9), (Emergency, 8)]" by (simp add: early_def DEFAULT_MAPPING_def)
  have all: "pressed_actions DEFAULT_MAPPING previous current = map fst (filter P early) @ map fst (filter P [(StopLoco, 9), (Emergency, 8)])"
    unfolding pressed_actions_def P_def cut by (simp only: filter_append map_append)
  assume "StopLoco \<in> set (pressed_actions DEFAULT_MAPPING previous current)"
  moreover have "StopLoco \<notin> fst ` set early" by (simp add: early_def DEFAULT_MAPPING_def)
  ultimately have "P (StopLoco, 9)" unfolding all by (auto simp: image_iff split: if_splits)
  then have "map fst (filter P [(StopLoco, 9), (Emergency, 8)]) = StopLoco # map fst (filter P [(Emergency, 8)])" by simp
  moreover have "set (map fst (filter P [(Emergency, 8)])) \<subseteq> {Emergency}" by simp
  ultimately show ?thesis unfolding all by metis
qed

lemma poll_emits_pressed: "a \<in> set (snd (poll_pads ok ps g)) \<Longrightarrow> \<exists>prev cur. snd (poll_pads ok ps g) = pressed_actions (gs_mapping g) prev cur"
  by (auto simp: poll_pads_def read_pad_def Let_def split: if_splits option.splits)

text \<open>C40. With the default buttons, when the stop button is pressed while the panel controls a locomotive, the poll leaves the panel at
  speed 0 and 0 is the last speed that it sends to the locomotive, whatever other buttons are pressed in the same frame.\<close>

theorem stop_button_stops:
  assumes "gs_mapping g = DEFAULT_MAPPING" and "snd (poll_pads ok ps g) = as" and "StopLoco \<in> set as" and "controlled s = Some l"
  shows "pl_speed (dr_panel (fst (drive_step (GamepadPolled as) s))) = 0 \<and>
    last (List.map_filter loco_command (snd (drive_step (GamepadPolled as) s))) = (lo_address l, 0)"
proof -
  obtain xs ys where "as = xs @ StopLoco # ys" "set ys \<subseteq> {Emergency}"
    using poll_emits_pressed [of StopLoco ok ps g] default_stops_last assms(1-3) by metis
  then show ?thesis using stop_then_emergencies [OF assms(4)] by (simp add: on_panel_def case_prod_beta)
qed

definition sample_loco :: loco where
  "sample_loco = \<lparr>lo_id = ''l1'', lo_address = 3, lo_maxSpeed = 80, lo_functions = [\<lparr>lf_number = 2, lf_momentary = True\<rparr>]\<rparr>"

definition sample_info :: station_info where
  "sample_info = emptyCommandCenterInfo\<lparr>si_alive := True\<rparr>"

definition sample_drive :: "drive_event list" where
  "sample_drive = [RosterChanged [sample_loco], StationInfo sample_info, PercentClicked 40, GamepadPolled [SpeedUp], ForwardClicked, SliderMoved 99]"

definition sample_driving :: driving where
  "sample_driving = fst (drive_run sample_drive \<lparr>dr_station = new_station, dr_panel = new_loco_panel None\<rparr>)"

definition too_fast :: loco_report where
  "too_fast = \<lparr>lr_address = 3, lr_speed = 126, lr_direction = ''forward'', lr_functions = None, lr_reservation = None\<rparr>"

lemma speeds_in_range_witness:
  "list_all (speed_allowed sample_driving) (snd (drive_step (GamepadPolled [SpeedUp, GoReverse]) sample_driving)) \<and>
   List.map_filter loco_command (snd (drive_step (GamepadPolled [SpeedUp, GoReverse]) sample_driving)) = [(3, 80), (3, 80)] \<and>
   top_speed sample_driving = 80 \<and> shown_within 0 (fst (drive_step (GamepadPolled [SpeedUp, GoReverse]) sample_driving))"
proof -
  have "list_all report_allowed sample_drive" "report_allowed (GamepadPolled [SpeedUp, GoReverse])"
    by (simp_all add: sample_drive_def report_allowed_def sample_loco_def)
  note all = speeds_in_range [OF this sample_driving_def]
  have "List.map_filter loco_command (snd (drive_step (GamepadPolled [SpeedUp, GoReverse]) sample_driving)) = [(3, 80), (3, 80)]"
    "top_speed sample_driving = 80" "shown_within 0 sample_driving"
    by code_simp+
  with all show ?thesis by (simp del: drive_step.simps)
qed

text \<open>After a report above the greatest speed of 80, slowing down and changing the direction send speeds above it.\<close>

lemma over_reported_speed_is_sent:
  "List.map_filter loco_command (snd (drive_run [LocoReported (Some too_fast), GamepadPolled [SpeedDown], ForwardClicked] sample_driving)) =
     [(3, 121), (3, 121)]"
  by code_simp

lemma lost_connection_silences_witness:
  "list_all is_query (snd (drive_run [StatusChanged Reconnecting, GamepadPolled [SpeedUp, Emergency], StopClicked, StatusChanged Connected] sample_driving)) \<and>
   snd (drive_run [StatusChanged Reconnecting, GamepadPolled [SpeedUp, Emergency], StopClicked, StatusChanged Connected] sample_driving) = [getLoco 3]"
proof
  show "list_all is_query (snd (drive_run [StatusChanged Reconnecting, GamepadPolled [SpeedUp, Emergency], StopClicked, StatusChanged Connected] sample_driving))"
    by (rule lost_connection_silences) (simp_all add: announces_def)
  show "snd (drive_run [StatusChanged Reconnecting, GamepadPolled [SpeedUp, Emergency], StopClicked, StatusChanged Connected] sample_driving) = [getLoco 3]"
    by code_simp
qed

definition sample_gamepad :: gamepad_state where
  "sample_gamepad = gamepad_run sample_polls (new_gamepad None None)"

lemma stop_button_stops_witness:
  "snd (poll_pads True [sample_pad 0 ''pad'' [9, 12, 15]] sample_gamepad) = [SpeedUp, GoForward, StopLoco] \<and>
   pl_speed (dr_panel sample_driving) = 80 \<and>
   pl_speed (dr_panel (fst (drive_step (GamepadPolled [SpeedUp, GoForward, StopLoco]) sample_driving))) = 0 \<and>
   last (List.map_filter loco_command (snd (drive_step (GamepadPolled [SpeedUp, GoForward, StopLoco]) sample_driving))) = (3, 0)"
proof -
  have poll: "snd (poll_pads True [sample_pad 0 ''pad'' [9, 12, 15]] sample_gamepad) = [SpeedUp, GoForward, StopLoco]" by code_simp
  have "gs_mapping sample_gamepad = DEFAULT_MAPPING" "controlled sample_driving = Some sample_loco" "pl_speed (dr_panel sample_driving) = 80"
    by code_simp+
  then show ?thesis using stop_button_stops [of sample_gamepad True _ "[SpeedUp, GoForward, StopLoco]" sample_driving sample_loco, OF _ poll] poll
    by (simp add: sample_loco_def del: drive_step.simps)
qed

text \<open>When the button of the direction was assigned anew, it comes after the stop button, and its handler still has the speed of the last
  render: pressed in the same frame it undoes the stop, while the panel shows 0. And picking the locomotive that is driven shows 0
  without asking for its speed.\<close>

lemma stop_undone:
  "gs_mapping (gamepad_run [AssignButton True 15 (Some GoForward)] (new_gamepad None None)) = AList.delete GoForward DEFAULT_MAPPING @ [(GoForward, 15)] \<and>
   List.map_filter loco_command (snd (drive_step (GamepadPolled [StopLoco, GoForward]) sample_driving)) = [(3, 0), (3, 80)] \<and>
   pl_speed (dr_panel (fst (drive_step (GamepadPolled [StopLoco, GoForward]) sample_driving))) = 0"
  by code_simp

lemma picking_again_forgets:
  "pl_speed (dr_panel (fst (drive_step (LocoPicked sample_loco) sample_driving))) = 0 \<and> snd (drive_step (LocoPicked sample_loco) sample_driving) = []"
  by code_simp

end
