(* ===== verification/LevelCrossing.thy ===== *)
theory LevelCrossing
  imports JsValue
begin

text \<open>
  \<open>web-ui/src/domain/levelCrossingLogic.ts\<close>: the rules that close and open a level crossing. A document
  from the server is unknown JSON, normalised before use; \<open>evaluateLevelCrossingLogic\<close> decides from the
  state of sensors, blocks and routes, each of which may be unknown. Delays and addresses are whole
  numbers, which is what \<open>getSafeInteger\<close> makes of them.
\<close>

subsection \<open>Data\<close>

datatype lc_state = LcOpen | LcClosing | LcClosed | LcOpening
datatype lc_operator = Is | IsNot

record lc_base =
  cb_id :: string
  cb_label :: "string option"
  cb_operator :: "lc_operator option"

datatype lc_condition =
    SensorCondition lc_base int bool
  | BlockCondition lc_base string bool
  | RouteCondition lc_base "string option" "string option" bool

datatype lc_action =
    SetAccessory string int bool
  | SetElementState string lc_state lc_state

record lc_logic =
  lc_id :: string
  lc_elementId :: string
  lc_enabled :: bool
  lc_closeTriggers :: "lc_condition list"
  lc_openConditions :: "lc_condition list"
  lc_closeDelayMs :: int
  lc_openDelayMs :: int
  lc_minClosedMs :: int
  lc_actions :: "lc_action list"

record lc_document =
  ld_version :: int
  ld_enabled :: bool
  ld_crossings :: "lc_logic list"

datatype condition_value = Known bool | Unknown

record lc_context =
  cx_getSensorActive :: "int \<Rightarrow> condition_value"
  cx_getBlockOccupied :: "string \<Rightarrow> condition_value"
  cx_getRouteReserved :: "string option \<Rightarrow> string option \<Rightarrow> condition_value"
  cx_nowMs :: int

datatype lc_reason = Disabled | CloseTrigger | OpenAllowed | HoldClosed

record lc_result =
  er_shouldClose :: bool
  er_mayOpen :: bool
  er_hasUnknownCloseCondition :: bool
  er_hasUnknownOpenCondition :: bool
  er_reason :: lc_reason

definition DEFAULT_LEVEL_CROSSING_LOGIC_DOCUMENT :: lc_document where
  "DEFAULT_LEVEL_CROSSING_LOGIC_DOCUMENT = \<lparr>ld_version = 1, ld_enabled = False, ld_crossings = []\<rparr>"

definition createDefaultLevelCrossingLogic :: "string \<Rightarrow> string \<Rightarrow> lc_logic" where
  "createDefaultLevelCrossingLogic i elementId =
     \<lparr>lc_id = i, lc_elementId = elementId, lc_enabled = True, lc_closeTriggers = [], lc_openConditions = [],
      lc_closeDelayMs = 0, lc_openDelayMs = 1000, lc_minClosedMs = 3000, lc_actions = []\<rparr>"

subsection \<open>Evaluation\<close>

definition condition_base :: "lc_condition \<Rightarrow> lc_base" where
  "condition_base c = (case c of SensorCondition b a v \<Rightarrow> b | BlockCondition b i v \<Rightarrow> b | RouteCondition b f t v \<Rightarrow> b)"

definition getExpectedConditionValue :: "lc_condition \<Rightarrow> bool" where
  "getExpectedConditionValue c =
     (case c of SensorCondition b a active \<Rightarrow> active | BlockCondition b i occupied \<Rightarrow> occupied
      | RouteCondition b f t reserved \<Rightarrow> reserved)"

definition evaluateLevelCrossingCondition :: "lc_condition \<Rightarrow> lc_context \<Rightarrow> condition_value" where
  "evaluateLevelCrossingCondition c context =
     (let value = (case c of
          SensorCondition b address v \<Rightarrow> cx_getSensorActive context address
        | BlockCondition b blockId v \<Rightarrow> cx_getBlockOccupied context blockId
        | RouteCondition b fromId toId v \<Rightarrow> cx_getRouteReserved context fromId toId)
      in case value of
           Unknown \<Rightarrow> Unknown
         | Known v \<Rightarrow>
             let matches = (v = getExpectedConditionValue c)
             in Known (if cb_operator (condition_base c) = Some IsNot then \<not> matches else matches))"

definition evaluateLevelCrossingLogic :: "lc_logic \<Rightarrow> lc_context \<Rightarrow> lc_result" where
  "evaluateLevelCrossingLogic l context =
     (if \<not> lc_enabled l
      then \<lparr>er_shouldClose = False, er_mayOpen = True, er_hasUnknownCloseCondition = False,
            er_hasUnknownOpenCondition = False, er_reason = Disabled\<rparr>
      else
        let closeValues = map (\<lambda>c. evaluateLevelCrossingCondition c context) (lc_closeTriggers l);
            hasUnknownClose = list_ex (\<lambda>v. v = Unknown) closeValues;
            shouldClose = list_ex (\<lambda>v. v = Known True) closeValues;
            openValues = (if length (lc_openConditions l) > 0
              then map (\<lambda>c. evaluateLevelCrossingCondition c context) (lc_openConditions l)
              else map (\<lambda>v. case v of Unknown \<Rightarrow> Unknown | Known b \<Rightarrow> Known (\<not> b)) closeValues);
            hasUnknownOpen = list_ex (\<lambda>v. v = Unknown) openValues;
            mayOpen = (\<not> shouldClose \<and> \<not> hasUnknownOpen \<and> list_all (\<lambda>v. v = Known True) openValues)
        in \<lparr>er_shouldClose = shouldClose, er_mayOpen = mayOpen, er_hasUnknownCloseCondition = hasUnknownClose,
            er_hasUnknownOpenCondition = hasUnknownOpen,
            er_reason = (if shouldClose then CloseTrigger else if mayOpen then OpenAllowed else HoldClosed)\<rparr>)"

subsection \<open>Normalisation\<close>

definition getSafeInteger :: "jsval \<Rightarrow> int \<Rightarrow> int" where
  "getSafeInteger input fallback = (case to_number input of Fin r \<Rightarrow> js_trunc r | _ \<Rightarrow> fallback)"

definition getNonEmptyString :: "jsval \<Rightarrow> string \<Rightarrow> string" where
  "getNonEmptyString input fallback = (case input of JStr s \<Rightarrow> (if nonblank s then s else fallback) | _ \<Rightarrow> fallback)"

definition getOptionalNonEmptyString :: "jsval \<Rightarrow> string option" where
  "getOptionalNonEmptyString input = (case input of JStr s \<Rightarrow> (if nonblank s then Some s else None) | _ \<Rightarrow> None)"

definition normalizeRuntimeState :: "jsval \<Rightarrow> lc_state \<Rightarrow> lc_state" where
  "normalizeRuntimeState input fallback =
     (if input = JStr ''open'' then LcOpen else if input = JStr ''closing'' then LcClosing
      else if input = JStr ''closed'' then LcClosed else if input = JStr ''opening'' then LcOpening else fallback)"

definition normalizeCondition :: "jsval \<Rightarrow> string \<Rightarrow> lc_condition" where
  "normalizeCondition input fallbackId =
     (let raw = record_or_empty input;
          common = \<lparr>cb_id = getNonEmptyString (js_get raw ''id'') fallbackId,
                    cb_label = getOptionalNonEmptyString (js_get raw ''label''),
                    cb_operator = Some (if js_get raw ''operator'' = JStr ''isNot'' then IsNot else Is)\<rparr>
      in if js_get raw ''type'' = JStr ''block''
         then BlockCondition common (getNonEmptyString (js_get raw ''blockId'') []) (js_get raw ''occupied'' \<noteq> JBool False)
         else if js_get raw ''type'' = JStr ''route''
         then RouteCondition common (getOptionalNonEmptyString (js_get raw ''fromBlockId''))
                (getOptionalNonEmptyString (js_get raw ''toBlockId'')) (js_get raw ''reserved'' \<noteq> JBool False)
         else SensorCondition common (getSafeInteger (js_get raw ''sensorAddress'') 0) (js_get raw ''active'' \<noteq> JBool False))"

definition numbered :: "(jsval \<Rightarrow> string \<Rightarrow> 'a) \<Rightarrow> string \<Rightarrow> jsval \<Rightarrow> 'a list" where
  "numbered f prefix input =
     (case array_of input of
        None \<Rightarrow> []
      | Some xs \<Rightarrow> map (\<lambda>(i, x). f x (prefix @ show_nat (i + 1))) (enumerate 0 xs))"

definition normalizeConditionList :: "jsval \<Rightarrow> string \<Rightarrow> string \<Rightarrow> lc_condition list" where
  "normalizeConditionList input logicId scope = numbered normalizeCondition (logicId @ ''-'' @ scope @ ''-condition-'') input"

definition normalizeAction :: "jsval \<Rightarrow> string \<Rightarrow> lc_action" where
  "normalizeAction input fallbackId =
     (let raw = record_or_empty input; i = getNonEmptyString (js_get raw ''id'') fallbackId
      in if js_get raw ''type'' = JStr ''setElementState''
         then SetElementState i (normalizeRuntimeState (js_get raw ''closedState'') LcClosed)
                (normalizeRuntimeState (js_get raw ''openState'') LcOpen)
         else SetAccessory i (getSafeInteger (js_get raw ''address'') 0) (js_get raw ''activeWhenClosed'' \<noteq> JBool False))"

definition normalizeActionList :: "jsval \<Rightarrow> string \<Rightarrow> lc_action list" where
  "normalizeActionList input logicId = numbered normalizeAction (logicId @ ''-action-'') input"

definition normalizeLevelCrossingLogic :: "jsval \<Rightarrow> nat \<Rightarrow> lc_logic" where
  "normalizeLevelCrossingLogic input index =
     (let raw = record_or_empty input;
          i = getNonEmptyString (js_get raw ''id'') (''level-crossing-logic-'' @ show_nat (index + 1))
      in \<lparr>lc_id = i, lc_elementId = getNonEmptyString (js_get raw ''levelCrossingElementId'') [],
          lc_enabled = (js_get raw ''enabled'' \<noteq> JBool False),
          lc_closeTriggers = normalizeConditionList (js_get raw ''closeTriggers'') i ''close'',
          lc_openConditions = normalizeConditionList (js_get raw ''openConditions'') i ''open'',
          lc_closeDelayMs = getSafeInteger (js_get raw ''closeDelayMs'') 0,
          lc_openDelayMs = getSafeInteger (js_get raw ''openDelayMs'') 1000,
          lc_minClosedMs = getSafeInteger (js_get raw ''minClosedMs'') 3000,
          lc_actions = normalizeActionList (js_get raw ''actions'') i\<rparr>)"

definition normalizeLevelCrossingLogicDocument :: "jsval \<Rightarrow> lc_document" where
  "normalizeLevelCrossingLogicDocument input =
     (if \<not> is_record input then DEFAULT_LEVEL_CROSSING_LOGIC_DOCUMENT
      else \<lparr>ld_version = 1, ld_enabled = enabled_flag input,
            ld_crossings = map (\<lambda>(index, raw). normalizeLevelCrossingLogic raw index)
              (enumerate 0 (case array_of (js_get input ''crossings'') of Some xs \<Rightarrow> xs | None \<Rightarrow> []))\<rparr>)"

subsection \<open>Documents as JSON\<close>

text \<open>The fields of the document types as they are sent to the server.\<close>

definition operator_text :: "lc_operator \<Rightarrow> string" where
  "operator_text p = (case p of Is \<Rightarrow> ''is'' | IsNot \<Rightarrow> ''isNot'')"

definition state_text :: "lc_state \<Rightarrow> string" where
  "state_text s = (case s of LcOpen \<Rightarrow> ''open'' | LcClosing \<Rightarrow> ''closing'' | LcClosed \<Rightarrow> ''closed'' | LcOpening \<Rightarrow> ''opening'')"

definition base_fields :: "lc_base \<Rightarrow> (string \<times> jsval) list" where
  "base_fields b = opt_field ''label'' JStr (cb_label b) @ opt_field ''operator'' (JStr \<circ> operator_text) (cb_operator b) @
     [(''id'', JStr (cb_id b))]"

definition condition_json :: "lc_condition \<Rightarrow> jsval" where
  "condition_json c =
     (case c of
        SensorCondition b a v \<Rightarrow>
          JObj (base_fields b @ [(''type'', JStr ''sensor''), (''sensorAddress'', js_int a), (''active'', JBool v)])
      | BlockCondition b i v \<Rightarrow>
          JObj (base_fields b @ [(''type'', JStr ''block''), (''blockId'', JStr i), (''occupied'', JBool v)])
      | RouteCondition b f t v \<Rightarrow>
          JObj (base_fields b @ opt_field ''fromBlockId'' JStr f @ opt_field ''toBlockId'' JStr t @
            [(''type'', JStr ''route''), (''reserved'', JBool v)]))"

definition action_json :: "lc_action \<Rightarrow> jsval" where
  "action_json a =
     (case a of
        SetAccessory i n v \<Rightarrow>
          JObj [(''id'', JStr i), (''type'', JStr ''setAccessory''), (''address'', js_int n), (''activeWhenClosed'', JBool v)]
      | SetElementState i c p \<Rightarrow>
          JObj [(''id'', JStr i), (''type'', JStr ''setElementState''), (''closedState'', JStr (state_text c)),
            (''openState'', JStr (state_text p))])"

definition logic_json :: "lc_logic \<Rightarrow> jsval" where
  "logic_json l =
     JObj [(''id'', JStr (lc_id l)), (''levelCrossingElementId'', JStr (lc_elementId l)), (''enabled'', JBool (lc_enabled l)),
       (''closeTriggers'', JArr (map condition_json (lc_closeTriggers l))),
       (''openConditions'', JArr (map condition_json (lc_openConditions l))),
       (''closeDelayMs'', js_int (lc_closeDelayMs l)), (''openDelayMs'', js_int (lc_openDelayMs l)),
       (''minClosedMs'', js_int (lc_minClosedMs l)), (''actions'', JArr (map action_json (lc_actions l)))]"

definition document_json :: "lc_document \<Rightarrow> jsval" where
  "document_json d =
     JObj [(''version'', js_int (ld_version d)), (''enabled'', JBool (ld_enabled d)), (''crossings'', JArr (map logic_json (ld_crossings d)))]"

subsection \<open>Normal form\<close>

definition opt_nonblank :: "string option \<Rightarrow> bool" where
  "opt_nonblank v = (case v of None \<Rightarrow> True | Some s \<Rightarrow> nonblank s)"

definition condition_normal :: "lc_condition \<Rightarrow> bool" where
  "condition_normal c \<longleftrightarrow>
     nonblank (cb_id (condition_base c)) \<and> opt_nonblank (cb_label (condition_base c)) \<and> cb_operator (condition_base c) \<noteq> None \<and>
     (case c of
        SensorCondition b a v \<Rightarrow> True
      | BlockCondition b i v \<Rightarrow> i = [] \<or> nonblank i
      | RouteCondition b f t v \<Rightarrow> opt_nonblank f \<and> opt_nonblank t)"

definition action_normal :: "lc_action \<Rightarrow> bool" where
  "action_normal a = (case a of SetAccessory i n v \<Rightarrow> nonblank i | SetElementState i c p \<Rightarrow> nonblank i)"

definition logic_normal :: "lc_logic \<Rightarrow> bool" where
  "logic_normal l \<longleftrightarrow> nonblank (lc_id l) \<and> (lc_elementId l = [] \<or> nonblank (lc_elementId l)) \<and>
     list_all condition_normal (lc_closeTriggers l) \<and> list_all condition_normal (lc_openConditions l) \<and>
     list_all action_normal (lc_actions l)"

definition document_normal :: "lc_document \<Rightarrow> bool" where
  "document_normal d \<longleftrightarrow> ld_version d = 1 \<and> list_all logic_normal (ld_crossings d)"

lemma getNonEmptyString_nonblank: "nonblank fb \<Longrightarrow> nonblank (getNonEmptyString v fb)"
  by (simp add: getNonEmptyString_def split: jsval.split)

lemma getNonEmptyString_empty: "getNonEmptyString v [] = [] \<or> nonblank (getNonEmptyString v [])"
  by (simp add: getNonEmptyString_def split: jsval.split)

lemma getNonEmptyString_reread [simp]: "s = fb \<or> nonblank s \<Longrightarrow> getNonEmptyString (JStr s) fb = s"
  by (auto simp: getNonEmptyString_def)

lemma getOptional_nonblank [simp]: "opt_nonblank (getOptionalNonEmptyString v)"
  by (simp add: getOptionalNonEmptyString_def opt_nonblank_def split: jsval.split)

lemma getOptional_simps [simp]: "nonblank s \<Longrightarrow> getOptionalNonEmptyString (JStr s) = Some s" "getOptionalNonEmptyString JUndef = None"
  by (simp_all add: getOptionalNonEmptyString_def)

lemma getSafeInteger_int [simp]: "getSafeInteger (js_int i) fb = i"
  by (simp add: getSafeInteger_def)

lemma runtimeState_text [simp]: "normalizeRuntimeState (JStr (state_text s)) fb = s"
  by (cases s) (simp_all add: state_text_def normalizeRuntimeState_def)

lemma nonblank_show [simp]: "nonblank (show_nat n)"
proof -
  obtain c where c: "c \<in> set (show_nat n)" using show_nat_nonempty [of n] by (cases "show_nat n") auto
  have "is_digit c" by (rule show_nat_digits [OF c])
  then have "\<not> is_space c" by (auto simp: is_digit_def is_space_def)
  then show ?thesis by (rule nonblank_char [OF c])
qed

lemma nonblank_tail: "nonblank s \<Longrightarrow> nonblank (c # s)"
  using nonblank_append(2) [of s "[c]"] by simp

lemma nonblank_number: "nonblank (s @ show_nat n)"
  by (rule nonblank_append) (rule nonblank_show)

lemma numbered_all: "(\<And>x k. nonblank k \<Longrightarrow> P (f x k)) \<Longrightarrow> list_all P (numbered f p v)"
  by (auto simp: numbered_def list_all_iff nonblank_number split: option.split)

lemma numbered_reread:
  assumes "\<And>x k. x \<in> set xs \<Longrightarrow> f (g x) k = x"
  shows "numbered f p (JArr (map g xs)) = xs"
  by (rule nth_equalityI) (simp_all add: numbered_def array_of_def nth_enumerate_eq assms)

lemma normalizeCondition_normal: "nonblank k \<Longrightarrow> condition_normal (normalizeCondition v k)"
  by (simp add: condition_normal_def normalizeCondition_def Let_def condition_base_def getNonEmptyString_nonblank getNonEmptyString_empty)

lemma normalizeAction_normal: "nonblank k \<Longrightarrow> action_normal (normalizeAction v k)"
  by (simp add: action_normal_def normalizeAction_def Let_def getNonEmptyString_nonblank)

lemma normalizeLogic_normal: "logic_normal (normalizeLevelCrossingLogic v k)"
  by (simp add: logic_normal_def normalizeLevelCrossingLogic_def Let_def getNonEmptyString_nonblank getNonEmptyString_empty
      nonblank_tail normalizeConditionList_def normalizeActionList_def numbered_all normalizeCondition_normal normalizeAction_normal)

lemma base_fields_get:
  "js_get (JObj (base_fields b @ kvs)) k =
     (if k = ''label'' \<and> cb_label b \<noteq> None then JStr (the (cb_label b))
      else if k = ''operator'' \<and> cb_operator b \<noteq> None then JStr (operator_text (the (cb_operator b)))
      else if k = ''id'' then JStr (cb_id b) else js_get (JObj kvs) k)"
  by (cases "cb_label b"; cases "cb_operator b") (simp_all add: base_fields_def opt_field_def jslib)

lemma operator_reread: "p \<noteq> None \<Longrightarrow> Some (if operator_text (the p) = ''isNot'' then IsNot else Is) = p"
  by (cases p; cases "the p") (auto simp: operator_text_def)

lemma base_reread:
  assumes "nonblank (cb_id b)" and "opt_nonblank (cb_label b)" and "cb_operator b \<noteq> None"
    and "map_of kvs ''label'' = None"
  shows "\<lparr>cb_id = getNonEmptyString (js_get (JObj (base_fields b @ kvs)) ''id'') k,
          cb_label = getOptionalNonEmptyString (js_get (JObj (base_fields b @ kvs)) ''label''),
          cb_operator = Some (if js_get (JObj (base_fields b @ kvs)) ''operator'' = JStr ''isNot'' then IsNot else Is)\<rparr> = b"
proof -
  have "getOptionalNonEmptyString (js_get (JObj (base_fields b @ kvs)) ''label'') = cb_label b"
    using assms(2,4) by (cases "cb_label b") (simp_all add: base_fields_get opt_nonblank_def, simp add: jslib)
  moreover have "Some (if js_get (JObj (base_fields b @ kvs)) ''operator'' = JStr ''isNot'' then IsNot else Is) = cb_operator b"
    using assms(3) operator_reread [of "cb_operator b"] by (simp add: base_fields_get)
  moreover have "getNonEmptyString (js_get (JObj (base_fields b @ kvs)) ''id'') k = cb_id b"
    using assms(1) by (simp add: base_fields_get)
  ultimately show ?thesis by simp
qed

lemma opt_reread: "opt_nonblank v \<Longrightarrow> getOptionalNonEmptyString (case map_option JStr v of None \<Rightarrow> JUndef | Some x \<Rightarrow> x) = v"
  by (cases v) (simp_all add: opt_nonblank_def)

lemma condition_reread: "condition_normal c \<Longrightarrow> normalizeCondition (condition_json c) k = c"
proof (cases c)
  case (SensorCondition b a v)
  assume c: "condition_normal c"
  show ?thesis
    unfolding SensorCondition condition_json_def normalizeCondition_def Let_def record_or_empty_def is_record_def lc_condition.case
      jsval.case if_True
    by (subst base_reread)
      (use c SensorCondition in \<open>simp_all add: condition_normal_def condition_base_def base_fields_get\<close>, simp_all add: jslib)
next
  case (BlockCondition b i v)
  assume c: "condition_normal c"
  show ?thesis
    unfolding BlockCondition condition_json_def normalizeCondition_def Let_def record_or_empty_def is_record_def lc_condition.case
      jsval.case if_True
    by (subst base_reread)
      (use c BlockCondition in \<open>simp_all add: condition_normal_def condition_base_def base_fields_get\<close>, simp_all add: jslib)
next
  case (RouteCondition b f t v)
  assume c: "condition_normal c"
  let ?kvs = "opt_field ''fromBlockId'' JStr f @ opt_field ''toBlockId'' JStr t @ [(''type'', JStr ''route''), (''reserved'', JBool v)]"
  have "map_of ?kvs ''label'' = None" by (simp add: opt_field_def split: option.split)
  note b = base_reread [OF _ _ _ this, of b k]
  have g: "js_get (JObj (base_fields b @ ?kvs)) ''type'' = JStr ''route''" "js_get (JObj (base_fields b @ ?kvs)) ''reserved'' = JBool v"
    by (simp_all add: base_fields_get) (simp_all add: opt_field_def js_get_def split: option.split)
  have h: "getOptionalNonEmptyString (js_get (JObj (base_fields b @ ?kvs)) ''fromBlockId'') = f"
    "getOptionalNonEmptyString (js_get (JObj (base_fields b @ ?kvs)) ''toBlockId'') = t"
    using c RouteCondition
    by (simp_all add: base_fields_get)
      (cases f; cases t; simp add: condition_normal_def opt_nonblank_def opt_field_def js_get_def)+
  show ?thesis
    using b c RouteCondition
    by (simp add: condition_json_def normalizeCondition_def record_or_empty_def is_record_def g h condition_normal_def condition_base_def)
qed

lemma action_reread: "action_normal a \<Longrightarrow> normalizeAction (action_json a) k = a"
  by (cases a) (simp_all add: action_normal_def action_json_def normalizeAction_def Let_def record_or_empty_def is_record_def jslib)

lemma logic_reread: "logic_normal l \<Longrightarrow> normalizeLevelCrossingLogic (logic_json l) k = l"
  by (simp add: logic_normal_def logic_json_def normalizeLevelCrossingLogic_def Let_def record_or_empty_def is_record_def jslib
      normalizeConditionList_def normalizeActionList_def numbered_reread condition_reread action_reread list_all_iff)

interpretation crossing_documents: normalizer normalizeLevelCrossingLogicDocument document_json document_normal
proof
  show "document_normal (normalizeLevelCrossingLogicDocument v)" for v
    by (auto simp: document_normal_def normalizeLevelCrossingLogicDocument_def DEFAULT_LEVEL_CROSSING_LOGIC_DOCUMENT_def
        list_all_iff normalizeLogic_normal)
  show "normalizeLevelCrossingLogicDocument (document_json d) = d" if "document_normal d" for d
    using that
    by (cases d) (simp add: document_normal_def normalizeLevelCrossingLogicDocument_def document_json_def is_record_def jslib array_of_def
        enabled_flag_def enumerate_reread logic_reread list_all_iff)
qed

subsection \<open>What is known and what follows from it\<close>

text \<open>\<open>less_informed c c'\<close>: whatever the context \<open>c\<close> knows, \<open>c'\<close> knows as well.\<close>

definition less_known :: "condition_value \<Rightarrow> condition_value \<Rightarrow> bool" where
  "less_known v v' \<longleftrightarrow> v = Unknown \<or> v = v'"

definition less_informed :: "lc_context \<Rightarrow> lc_context \<Rightarrow> bool" where
  "less_informed c c' \<longleftrightarrow>
     (\<forall>a. less_known (cx_getSensorActive c a) (cx_getSensorActive c' a)) \<and>
     (\<forall>i. less_known (cx_getBlockOccupied c i) (cx_getBlockOccupied c' i)) \<and>
     (\<forall>f t. less_known (cx_getRouteReserved c f t) (cx_getRouteReserved c' f t))"

definition read_condition :: "lc_condition \<Rightarrow> lc_context \<Rightarrow> condition_value" where
  "read_condition c context =
     (case c of
          SensorCondition b address v \<Rightarrow> cx_getSensorActive context address
        | BlockCondition b blockId v \<Rightarrow> cx_getBlockOccupied context blockId
        | RouteCondition b fromId toId v \<Rightarrow> cx_getRouteReserved context fromId toId)"

definition wanted :: "lc_condition \<Rightarrow> bool \<Rightarrow> bool" where
  "wanted c v = ((v = getExpectedConditionValue c) \<noteq> (cb_operator (condition_base c) = Some IsNot))"

lemma evaluate_condition:
  "evaluateLevelCrossingCondition c context = (case read_condition c context of Unknown \<Rightarrow> Unknown | Known v \<Rightarrow> Known (wanted c v))"
  by (simp add: evaluateLevelCrossingCondition_def read_condition_def [symmetric] wanted_def Let_def split: condition_value.split)

lemma evaluate_condition_mono:
  assumes "less_informed c c'"
  shows "less_known (evaluateLevelCrossingCondition x c) (evaluateLevelCrossingCondition x c')"
proof -
  have "less_known (read_condition x c) (read_condition x c')"
    using assms by (cases x) (simp_all add: less_informed_def read_condition_def)
  then show ?thesis by (auto simp: evaluate_condition less_known_def)
qed

lemma less_known_Known: "less_known v v' \<Longrightarrow> v = Known b \<Longrightarrow> v' = Known b"
  by (auto simp: less_known_def)

text \<open>The evaluation of an enabled crossing by what its conditions evaluate to.\<close>

definition triggered :: "lc_logic \<Rightarrow> lc_context \<Rightarrow> bool" where
  "triggered l c = list_ex (\<lambda>x. evaluateLevelCrossingCondition x c = Known True) (lc_closeTriggers l)"

definition cleared :: "lc_logic \<Rightarrow> lc_context \<Rightarrow> bool" where
  "cleared l c =
     (if lc_openConditions l = [] then list_all (\<lambda>x. evaluateLevelCrossingCondition x c = Known False) (lc_closeTriggers l)
      else list_all (\<lambda>x. evaluateLevelCrossingCondition x c = Known True) (lc_openConditions l))"

lemma reason_decision:
  "lc_enabled l \<Longrightarrow> er_reason (evaluateLevelCrossingLogic l c) =
     (if er_shouldClose (evaluateLevelCrossingLogic l c) then CloseTrigger
      else if er_mayOpen (evaluateLevelCrossingLogic l c) then OpenAllowed else HoldClosed)"
  unfolding evaluateLevelCrossingLogic_def Let_def by (simp only: not_not if_False lc_result.simps simp_thms)

lemma evaluate_enabled:
  assumes "lc_enabled l"
  shows "er_shouldClose (evaluateLevelCrossingLogic l c) = triggered l c"
    and "er_mayOpen (evaluateLevelCrossingLogic l c) = (\<not> triggered l c \<and> cleared l c)"
    and "er_reason (evaluateLevelCrossingLogic l c) =
      (if triggered l c then CloseTrigger else if cleared l c then OpenAllowed else HoldClosed)"
proof -
  have s: "er_shouldClose (evaluateLevelCrossingLogic l c) = triggered l c"
    using assms by (simp add: evaluateLevelCrossingLogic_def Let_def triggered_def comp_def)
  have neg: "(case v of Known b \<Rightarrow> Known (\<not> b) | Unknown \<Rightarrow> Unknown) = Known True \<longleftrightarrow> v = Known False"
    "(case v of Known b \<Rightarrow> Known (\<not> b) | Unknown \<Rightarrow> Unknown) = Unknown \<longleftrightarrow> v = Unknown" for v
    by (simp_all split: condition_value.split)
  have m: "er_mayOpen (evaluateLevelCrossingLogic l c) = (\<not> triggered l c \<and> cleared l c)"
    using assms
    by (simp add: evaluateLevelCrossingLogic_def Let_def triggered_def cleared_def comp_def neg)
      (auto simp: list_all_iff list_ex_iff)
  show "er_shouldClose (evaluateLevelCrossingLogic l c) = triggered l c" by (rule s)
  show "er_mayOpen (evaluateLevelCrossingLogic l c) = (\<not> triggered l c \<and> cleared l c)" by (rule m)
  show "er_reason (evaluateLevelCrossingLogic l c) =
      (if triggered l c then CloseTrigger else if cleared l c then OpenAllowed else HoldClosed)"
    using reason_decision [OF assms] by (simp add: s m)
qed

lemma triggered_mono: "less_informed c c' \<Longrightarrow> triggered l c \<Longrightarrow> triggered l c'"
  using evaluate_condition_mono less_known_Known by (fastforce simp: triggered_def list_ex_iff)

lemma cleared_mono: "less_informed c c' \<Longrightarrow> cleared l c \<Longrightarrow> cleared l c'"
  using evaluate_condition_mono less_known_Known by (fastforce simp: cleared_def list_all_iff split: if_splits)

lemma cleared_not_triggered: "lc_openConditions l = [] \<Longrightarrow> cleared l c \<Longrightarrow> \<not> triggered l c"
  by (auto simp: cleared_def triggered_def list_ex_iff list_all_iff)

subsection \<open>Properties\<close>

definition sample_base :: lc_base where
  "sample_base = \<lparr>cb_id = ''c'', cb_label = None, cb_operator = Some Is\<rparr>"

definition sample_logic :: lc_logic where
  "sample_logic = (createDefaultLevelCrossingLogic ''x'' ''7'')\<lparr>lc_closeTriggers := [SensorCondition sample_base 5 True]\<rparr>"

definition sample_context :: "condition_value \<Rightarrow> condition_value \<Rightarrow> lc_context" where
  "sample_context s b =
     \<lparr>cx_getSensorActive = (\<lambda>a. s), cx_getBlockOccupied = (\<lambda>i. b), cx_getRouteReserved = (\<lambda>f t. Unknown), cx_nowMs = 0\<rparr>"

lemmas sample_crossing_defs = sample_logic_def sample_base_def sample_context_def createDefaultLevelCrossingLogic_def

text \<open>C10. The reason of an evaluation explains its decision. It says "disabled" for a disabled crossing only, which
  may open; otherwise the crossing should close because a close trigger is known to hold; or it may open, with no trigger
  known to hold and all open conditions known to hold (with no open conditions: all triggers known not to hold); or it
  holds, because some open condition is not known to hold (or some trigger is unknown).\<close>

theorem crossing_decision:
  "let r = evaluateLevelCrossingLogic l c;
       holds = (\<lambda>x. evaluateLevelCrossingCondition x c = Known True);
       fails = (\<lambda>x. evaluateLevelCrossingCondition x c = Known False)
   in case er_reason r of
        Disabled \<Rightarrow> \<not> lc_enabled l \<and> \<not> er_shouldClose r \<and> er_mayOpen r
      | CloseTrigger \<Rightarrow> lc_enabled l \<and> er_shouldClose r \<and> \<not> er_mayOpen r \<and> list_ex holds (lc_closeTriggers l)
      | OpenAllowed \<Rightarrow> lc_enabled l \<and> \<not> er_shouldClose r \<and> er_mayOpen r \<and> \<not> list_ex holds (lc_closeTriggers l) \<and>
          (if lc_openConditions l = [] then list_all fails (lc_closeTriggers l) else list_all holds (lc_openConditions l))
      | HoldClosed \<Rightarrow> lc_enabled l \<and> \<not> er_shouldClose r \<and> \<not> er_mayOpen r \<and> \<not> list_ex holds (lc_closeTriggers l) \<and>
          (if lc_openConditions l = [] then list_ex (\<lambda>x. \<not> fails x) (lc_closeTriggers l)
           else list_ex (\<lambda>x. \<not> holds x) (lc_openConditions l))"
proof (cases "lc_enabled l")
  case False
  then show ?thesis by (simp add: evaluateLevelCrossingLogic_def)
next
  case True
  show ?thesis
    by (simp add: Let_def evaluate_enabled [OF True] True triggered_def cleared_def list_ex_iff list_all_iff)
qed

text \<open>C11. Losing information is safe for a crossing without open conditions: if it may open, or should close, on what is
  known, then it also does on everything that is known later to have held; and for every crossing what should close on less
  information should close on more.\<close>

theorem crossing_fail_safe:
  assumes "less_informed c c'"
  shows "(er_shouldClose (evaluateLevelCrossingLogic l c) \<longrightarrow> er_shouldClose (evaluateLevelCrossingLogic l c')) \<and>
    (lc_openConditions l = [] \<longrightarrow> er_mayOpen (evaluateLevelCrossingLogic l c) \<longrightarrow> er_mayOpen (evaluateLevelCrossingLogic l c'))"
proof (cases "lc_enabled l")
  case False
  then show ?thesis by (simp add: evaluateLevelCrossingLogic_def)
next
  case True
  show ?thesis
    unfolding evaluate_enabled [OF True]
    using triggered_mono [OF assms] cleared_mono [OF assms, of l] cleared_not_triggered [of l c'] by blast
qed

theorem crossing_fail_safe_witness:
  "less_informed (sample_context Unknown Unknown) (sample_context (Known True) Unknown) \<and>
   \<not> er_mayOpen (evaluateLevelCrossingLogic sample_logic (sample_context Unknown Unknown))"
proof -
  have i: "less_informed (sample_context Unknown Unknown) (sample_context (Known True) Unknown)"
    by (simp add: less_informed_def less_known_def sample_context_def)
  have "\<not> er_mayOpen (evaluateLevelCrossingLogic sample_logic (sample_context (Known True) Unknown))"
    by (simp add: evaluateLevelCrossingLogic_def evaluateLevelCrossingCondition_def condition_base_def getExpectedConditionValue_def
        sample_crossing_defs)
  then show ?thesis using crossing_fail_safe [OF i, of sample_logic] i by (simp add: sample_crossing_defs)
qed

text \<open>A crossing with open conditions may open while a close trigger is unknown: an unknown trigger is reported, but it
  does not hold the crossing closed as it does when there are no open conditions.\<close>

lemma crossing_opens_on_unknown_trigger:
  "let l = sample_logic\<lparr>lc_openConditions := [BlockCondition sample_base ''b'' False]\<rparr>;
       r = evaluateLevelCrossingLogic l (sample_context Unknown (Known False))
   in er_mayOpen r \<and> er_hasUnknownCloseCondition r \<and>
      er_shouldClose (evaluateLevelCrossingLogic l (sample_context (Known True) (Known False))) \<and>
      \<not> er_mayOpen (evaluateLevelCrossingLogic sample_logic (sample_context Unknown (Known False)))"
  by (simp add: evaluateLevelCrossingLogic_def evaluateLevelCrossingCondition_def condition_base_def getExpectedConditionValue_def
      sample_crossing_defs)

text \<open>Whatever JSON a level crossing document is read from, the result is in normal form (version 1, ids and labels that
  are not blank, operators and all fields present), a document in normal form is read back from its own JSON unchanged, and
  the normal forms are exactly the results of reading.\<close>

theorem crossing_document_roundtrip:
  "document_normal (normalizeLevelCrossingLogicDocument v) \<and>
   normalizeLevelCrossingLogicDocument (document_json (normalizeLevelCrossingLogicDocument v)) = normalizeLevelCrossingLogicDocument v \<and>
   (document_normal d \<longleftrightarrow> (\<exists>w. normalizeLevelCrossingLogicDocument w = d))"
  using crossing_documents.normalize_normal crossing_documents.normalize_again crossing_documents.normal_iff by blast

end
