(* ===== verification/SignalStore.thy ===== *)
theory SignalStore
  imports SignalCompile
begin

text \<open>
  The correctness of \<open>signalLogicWsApi.ts\<close> (theory \<open>SignalCompile\<close>): the text that is stored is read back as what
  was compiled, a document that is loaded again compiles to what was stored, output values separate the
  outputs of states, and migrated conditions hold when the rows with addresses held.
\<close>

subsection \<open>Lines of text\<close>

lemma hex_digit_printable: "d < 16 \<Longrightarrow> 32 \<le> (of_char (hex_digit d) :: nat)"
  by (simp add: hex_digit_def of_char_digit_char)

lemma escape_printable: "x \<in> set (escape c) \<Longrightarrow> 32 \<le> (of_char x :: nat)"
proof -
  let ?n = "of_char c :: nat"
  assume x: "x \<in> set (escape c)"
  show ?thesis
  proof (cases "?n < 32")
    case True
    then have "?n div 16 < 16" "?n mod 16 < 16" by auto
    then show ?thesis using x True by (auto simp: escape_def Let_def hex_digit_printable split: if_splits)
  next
    case False
    then show ?thesis using x by (auto simp: escape_def Let_def split: if_splits)
  qed
qed

definition printable :: "string \<Rightarrow> bool" where
  "printable s \<longleftrightarrow> (\<forall>c\<in>set s. 32 \<le> (of_char c :: nat))"

lemma printable_append [simp]:
  "printable []" "printable (s @ t) \<longleftrightarrow> printable s \<and> printable t" "printable (c # s) \<longleftrightarrow> 32 \<le> (of_char c :: nat) \<and> printable s"
  by (auto simp: printable_def)

lemma printable_join: "printable sep \<Longrightarrow> (\<And>x. x \<in> set xs \<Longrightarrow> printable x) \<Longrightarrow> printable (join_with sep xs)"
  by (induction sep xs rule: join_with.induct) auto

lemma printable_quote: "printable (quote s)"
  using escape_printable by (auto simp: quote_def printable_def)

lemma printable_int: "printable (show_int i)"
  using show_int_chars by (fastforce simp: printable_def is_digit_def)

lemma printable_stringify: "printable (json_stringify t)"
proof (induction t rule: json_stringify.induct)
  case (5 xs)
  then show ?case by (auto intro!: printable_join)
next
  case (6 kvs)
  then show ?case by (auto intro!: printable_join simp: printable_quote)
qed (simp_all add: printable_int printable_quote)

lemma printable_line: "printable s \<Longrightarrow> CHR 0x0A \<notin> set s \<and> CHR 0x0D \<notin> set s"
  by (auto simp: printable_def)

lemma split_lines_last: "CHR 0x0A \<notin> set s \<Longrightarrow> split_lines line s = [rev line @ s]"
  by (induction s arbitrary: line) auto

lemma split_lines_first:
  "CHR 0x0A \<notin> set s \<Longrightarrow> split_lines line (s @ CHR 0x0A # t) = drop_cr (rev line @ s) # split_lines [] t"
  by (induction s arbitrary: line) auto

lemma split_join:
  "(\<And>l. l \<in> set ls \<Longrightarrow> printable l) \<Longrightarrow> ls \<noteq> [] \<Longrightarrow> split_lines [] (join_with [CHR 0x0A] ls) = ls"
proof (induction ls)
  case (Cons l ls)
  have l: "CHR 0x0A \<notin> set l" "CHR 0x0D \<notin> set l" using Cons.prems(1) [of l] printable_line by auto
  then have d: "drop_cr l = l" by (auto simp: drop_cr_def dest: last_in_set)
  show ?case
  proof (cases ls)
    case Nil
    then show ?thesis using l by (simp add: split_lines_last)
  next
    case (Cons m ms)
    then show ?thesis using Cons.IH Cons.prems l d by (simp add: split_lines_first)
  qed
qed simp

lemma object_line: "trim (json_stringify (TObj kvs)) = json_stringify (TObj kvs)"
  by (rule trim_id) (simp add: is_space_def)

subsection \<open>Stored rows are read back\<close>

definition storable_condition :: "compiled_condition \<Rightarrow> bool" where
  "storable_condition c = (case c of (s, n, ch, v) \<Rightarrow> 1 \<le> n \<and> n \<le> 65535 \<and> ch \<in> {0, 1} \<and> v \<in> {0, 1})"

definition whole :: "jsnum \<Rightarrow> bool" where
  "whole n \<longleftrightarrow> (\<exists>i. n = Fin (of_int i))"

definition storable_rule :: "compiled_rule \<Rightarrow> bool" where
  "storable_rule r \<longleftrightarrow> whole (cr_value r) \<and> list_all storable_condition (cr_conditions r)"

definition storable_signal :: "compiled_signal \<Rightarrow> bool" where
  "storable_signal s \<longleftrightarrow> 1 \<le> cs_id s \<and> cs_id s \<le> 65535 \<and> whole (cs_default s) \<and> list_all storable_rule (cs_rules s) \<and>
     (case cs_mode s of Extended \<Rightarrow> cs_outputs s = None | Basic \<Rightarrow> (\<exists>k. 1 \<le> k \<and> k \<le> 16 \<and> cs_outputs s = Some (Fin (of_int k))))"

lemma whole_number_int [simp]: "lo \<le> i \<Longrightarrow> i \<le> hi \<Longrightarrow> whole_number (js_int i) lo hi = Some i"
  by (simp add: whole_number_def)

lemma trunc_number_whole: "whole n \<Longrightarrow> trunc_number (json_value (number_json n)) d = n"
  by (auto simp: whole_def number_json_def trunc_number_def)

lemma json_value_fields: "json_value (TObj kvs) = JObj (map (\<lambda>(k, v). (k, json_value v)) kvs)"
  by simp

lemma parse_condition_stored: "storable_condition c \<Longrightarrow> parseCondition (json_value (compiled_condition_json c)) = Inr c"
  by (auto simp: storable_condition_def compiled_condition_json_def parseCondition_def Let_def source_text_def
      split: prod.splits condition_source.splits)

lemma map_r_stored: "(\<And>x. x \<in> set xs \<Longrightarrow> f (g x) = Inr (h x)) \<Longrightarrow> map_r f (map g xs) = Inr (map h xs)"
  by (induction xs) auto

lemma parse_rule_stored:
  "storable_rule r \<Longrightarrow> parse_rule parseCondition (json_value (compiled_rule_json r)) = Inr (cr_value r, cr_conditions r)"
  using map_r_stored [of "cr_conditions r" parseCondition "\<lambda>c. json_value (compiled_condition_json c)" "\<lambda>c. c"]
  by (simp add: storable_rule_def parse_rule_def compiled_rule_json_def jslib trunc_number_whole list_all_iff parse_condition_stored comp_def)

lemma parse_signal_stored:
  assumes "storable_signal s" and "ps_version st = 2"
  shows "parse_row (json_value (compiled_signal_json s)) st = Inr (st\<lparr>ps_signals := ps_signals st @ [Inl s]\<rparr>)"
proof -
  have rules: "map_r (parse_rule parseCondition) (map (\<lambda>r. json_value (compiled_rule_json r)) (cs_rules s)) =
      Inr (map (\<lambda>r. (cr_value r, cr_conditions r)) (cs_rules s))"
    by (rule map_r_stored) (use assms in \<open>auto simp: storable_signal_def list_all_iff parse_rule_stored\<close>)
  have same: "map (\<lambda>x. \<lparr>cr_value = cr_value x, cr_conditions = cr_conditions x\<rparr>) rs = rs" for rs :: "compiled_rule list"
    by (induction rs) simp_all
  have d: "trunc_number (json_value (number_json (cs_default s))) 0 = cs_default s"
    using assms by (simp add: storable_signal_def trunc_number_whole)
  show ?thesis
  proof (cases "cs_mode s")
    case Extended
    then show ?thesis
      using assms rules d
      by (simp add: parse_row_def parse_signal_def compiled_signal_json_def mode_text_def jslib storable_signal_def comp_def Let_def same)
  next
    case Basic
    then obtain k where k: "1 \<le> k" "k \<le> 16" "cs_outputs s = Some (Fin (of_int k))" using assms by (auto simp: storable_signal_def)
    have "clamp_outputs (trunc_number (js_int k) 1) = Fin (of_int k)"
      using k by (simp add: trunc_number_def clamp_outputs_def min_def max_def)
    then show ?thesis
      using assms rules d Basic k
      by (simp add: parse_row_def parse_signal_def compiled_signal_json_def mode_text_def jslib storable_signal_def comp_def Let_def same
          number_json_def)
  qed
qed

lemma json_ok_signal: "json_ok (compiled_signal_json s)"
  by (cases "cs_outputs s")
    (auto simp: compiled_signal_json_def compiled_rule_json_def compiled_condition_json_def number_json_def list_all_iff
      split: jsnum.split prod.split)

lemma signal_line: "\<exists>kvs. compiled_signal_json s = TObj kvs"
  by (simp add: compiled_signal_json_def)

lemma parse_stored_lines:
  "list_all storable_signal ss \<Longrightarrow> ps_version st = 2 \<Longrightarrow>
     parse_lines (map (json_stringify \<circ> compiled_signal_json) ss @ [[]]) st = Inr (st\<lparr>ps_signals := ps_signals st @ map Inl ss\<rparr>)"
proof (induction ss arbitrary: st)
  case (Cons s ss)
  obtain kvs where kvs: "compiled_signal_json s = TObj kvs" using signal_line by blast
  have t: "trim (json_stringify (compiled_signal_json s)) = json_stringify (compiled_signal_json s)"
    "json_stringify (compiled_signal_json s) \<noteq> []"
    using object_line [of kvs] by (simp_all only: kvs) simp
  have "parse_row (json_value (compiled_signal_json s)) st = Inr (st\<lparr>ps_signals := ps_signals st @ [Inl s]\<rparr>)"
    using Cons.prems by (intro parse_signal_stored) simp_all
  then show ?case
    using Cons.IH [of "st\<lparr>ps_signals := ps_signals st @ [Inl s]\<rparr>"] Cons.prems
    by (simp add: t json_parse_stringify [OF json_ok_signal] Let_def)
qed simp

lemma parse_serialized:
  assumes "list_all storable_signal (cd_signals c)"
  shows "parseCompiled (serializeCompiled c) = Inr \<lparr>pd_version = 2, pd_enabled = cd_enabled c, pd_signals = map Inl (cd_signals c)\<rparr>"
proof -
  let ?m = "json_stringify (meta_json (cd_enabled c))"
  let ?ls = "map (json_stringify \<circ> compiled_signal_json) (cd_signals c)"
  have s: "split_lines [] (serializeCompiled c) = ?m # ?ls @ [[]]"
    unfolding serializeCompiled_def by (rule split_join) (auto simp: printable_stringify)
  have t: "trim ?m = ?m" "?m \<noteq> []"
    using object_line [of "[(''kind'', TStr ''meta''), (''version'', TInt 2), (''enabled'', TBool (cd_enabled c))]"]
    unfolding meta_json_def by (assumption, simp)
  have p: "json_parse ?m = Inr (json_value (meta_json (cd_enabled c)))"
    by (rule json_parse_stringify) (simp add: meta_json_def)
  have r: "parse_row (json_value (meta_json (cd_enabled c))) st = Inr (st\<lparr>ps_version := 2, ps_enabled := cd_enabled c\<rparr>)" for st
    by (simp add: parse_row_def parse_meta_def meta_json_def jslib)
  show ?thesis
    unfolding parseCompiled_def s parse_lines.simps Let_def t p bind_r_simps r
    by (simp add: t(2) parse_stored_lines [OF assms] p r)
qed

subsection \<open>Compiled documents\<close>

lemma requireLayoutId_Inr: "requireLayoutId e l = Inr i \<longleftrightarrow> (\<exists>x. e = Some x \<and> re_id x = Some i \<and> 1 \<le> i \<and> i \<le> 65535)"
  by (auto simp: requireLayoutId_def Let_def or_default_def split: option.splits if_splits)

lemma find_by_id:
  "find_sensor es i = Some e \<Longrightarrow> re_id e = Some i" "find_turnout es i = Some e \<Longrightarrow> re_id e = Some i"
  "find_signal es i = Some e \<Longrightarrow> re_id e = Some i"
  unfolding find_sensor_def find_turnout_def find_signal_def by (drule find_SomeD, simp)+

lemma require_found:
  "requireLayoutId (find_sensor es n) l = Inr i \<longleftrightarrow> i = n \<and> 1 \<le> n \<and> n \<le> 65535 \<and> (\<exists>e. find_sensor es n = Some e)"
  "requireLayoutId (find_turnout es n) l = Inr i \<longleftrightarrow> i = n \<and> 1 \<le> n \<and> n \<le> 65535 \<and> (\<exists>e. find_turnout es n = Some e)"
  "requireLayoutId (find_signal es n) l = Inr i \<longleftrightarrow> i = n \<and> 1 \<le> n \<and> n \<le> 65535 \<and> (\<exists>e. find_signal es n = Some e)"
  unfolding requireLayoutId_Inr using find_by_id [of es n] by auto

text \<open>What a condition compiles to, and that it is decompiled to a condition that compiles to it.\<close>

lemma compile_sensor:
  "compileCondition es (SensorInput i n a v) = Inr cc \<longleftrightarrow>
     cc = (FromSensor, n, 0, if v then 1 else 0) \<and> 1 \<le> n \<and> n \<le> 65535 \<and> (\<exists>e. find_sensor es n = Some e)"
  by (auto simp: compileCondition_def bind_r_Inr require_found)

lemma compile_turnout:
  "compileCondition es (TurnoutCondition i n ch a v) = Inr cc \<longleftrightarrow>
     cc = (FromTurnout, n, if ch = Some 1 then 1 else 0, if v then 1 else 0) \<and> 1 \<le> n \<and> n \<le> 65535 \<and>
     (\<exists>e. find_turnout es n = Some e \<and> (ch = Some 1 \<longrightarrow> re_turnout2Address e \<noteq> None))"
  by (auto simp: compileCondition_def bind_r_Inr require_found Let_def split: if_splits)

lemma compileCondition_Inr: "compileCondition es c = Inr cc \<Longrightarrow> storable_condition cc"
  by (cases c) (auto simp: compile_sensor compile_turnout storable_condition_def)

lemma decompileCondition_compiles:
  assumes "compileCondition es c = Inr cc"
  shows "\<exists>c'. decompileCondition es i cc = Inr c' \<and> compileCondition es c' = Inr cc"
proof (cases c)
  case (SensorInput i' n a v)
  then show ?thesis using assms by (auto simp: compile_sensor decompileCondition_def)
next
  case (TurnoutCondition i' n ch a v)
  then show ?thesis
    using assms by (cases "ch = Some 1") (auto simp: compile_turnout decompileCondition_def Let_def)
qed

lemma map_r_reversed:
  "map_r f xs = Inr ys \<Longrightarrow> (\<And>x y k. x \<in> set xs \<Longrightarrow> f x = Inr y \<Longrightarrow> \<exists>z. h (k, y) = Inr z \<and> f z = Inr y) \<Longrightarrow>
     \<exists>zs. map_r h (enumerate n ys) = Inr zs \<and> map_r f zs = Inr ys"
proof (induction xs arbitrary: ys n)
  case (Cons x xs)
  obtain y ys' where y: "f x = Inr y" "map_r f xs = Inr ys'" "ys = y # ys'" using Cons.prems(1) by (auto simp: bind_r_Inr)
  obtain z where z: "h (n, y) = Inr z" "f z = Inr y" using Cons.prems(2) [of x y n] y by auto
  have "\<exists>zs. map_r h (enumerate (Suc n) ys') = Inr zs \<and> map_r f zs = Inr ys'"
    by (rule Cons.IH [OF y(2)]) (use Cons.prems(2) in \<open>metis list.set_intros(2)\<close>)
  then obtain zs where "map_r h (enumerate (Suc n) ys') = Inr zs" "map_r f zs = Inr ys'" by blast
  then show ?case using y z by (intro exI [of _ "z # zs"]) simp
qed simp

text \<open>States that can be told apart by their ids and all have a value.\<close>

definition config_ok :: "output_config \<Rightarrow> bool" where
  "config_ok config \<longleftrightarrow> distinct (map os_id (oc_states config)) \<and>
     list_all (\<lambda>s. case stateValue config s of Inl e \<Rightarrow> False | Inr v \<Rightarrow> True) (oc_states config)"

definition element_ok :: "rule_element \<Rightarrow> bool" where
  "element_ok e = (case re_signalOutput e of None \<Rightarrow> True | Some config \<Rightarrow> config_ok config)"

lemma findOutputState_Inr: "findOutputState config i = Inr s \<Longrightarrow> s \<in> set (oc_states config) \<and> os_id s = i"
  by (auto simp: findOutputState_def split: option.splits dest: find_SomeD)

lemma findOutputState_id: "config_ok config \<Longrightarrow> s \<in> set (oc_states config) \<Longrightarrow> findOutputState config (os_id s) = Inr s"
proof -
  assume c: "config_ok config" and s: "s \<in> set (oc_states config)"
  have "find (\<lambda>t. os_id t = os_id s) (oc_states config) = Some s"
    by (rule find_eq_unique [OF s]) (use c s in \<open>auto simp: config_ok_def distinct_map inj_on_def\<close>)
  then show ?thesis by (simp add: findOutputState_def)
qed

lemma find_by_value_finds:
  "list_all (\<lambda>s. case stateValue config s of Inl e \<Rightarrow> False | Inr v \<Rightarrow> True) ss \<Longrightarrow> s \<in> set ss \<Longrightarrow> stateValue config s = Inr v \<Longrightarrow>
     \<exists>t\<in>set ss. find_by_value config ss (Fin (of_int v)) = Inr (Some t) \<and> stateValue config t = Inr v"
  by (induction ss) (auto split: sum.splits)

lemma findStateByValue_finds:
  assumes "config_ok config" and "s \<in> set (oc_states config)" and "stateValue config s = Inr v"
  shows "\<exists>t. findStateByValue config (Fin (of_int v)) = Inr t \<and> findOutputState config (os_id t) = Inr t \<and> stateValue config t = Inr v"
proof -
  obtain t where "t \<in> set (oc_states config)" "find_by_value config (oc_states config) (Fin (of_int v)) = Inr (Some t)" "stateValue config t = Inr v"
    using find_by_value_finds [of config "oc_states config" s v] assms by (auto simp: config_ok_def)
  then show ?thesis using findOutputState_id [OF assms(1)] by (simp add: findStateByValue_def)
qed

lemma map_r_all: "map_r f xs = Inr ys \<Longrightarrow> (\<And>x y. x \<in> set xs \<Longrightarrow> f x = Inr y \<Longrightarrow> P y) \<Longrightarrow> list_all P ys"
proof (induction xs arbitrary: ys)
  case (Cons x xs)
  obtain y zs where "f x = Inr y" "map_r f xs = Inr zs" "ys = y # zs" using Cons.prems(1) by (auto simp: bind_r_Inr)
  then show ?case using Cons.IH [of zs] Cons.prems(2) by auto
qed simp

lemma compileRule_Inr:
  assumes "compileRule config es r = Inr cr"
  shows "storable_rule cr"
proof -
  obtain s v cs where "map_r (compileCondition es) (sr_conditions r) = Inr cs" and cr: "cr = \<lparr>cr_value = Fin (of_int v), cr_conditions = cs\<rparr>"
    using assms by (auto simp: compileRule_def bind_r_Inr)
  then have "list_all storable_condition cs" by (intro map_r_all [OF _ compileCondition_Inr]) auto
  then show ?thesis by (auto simp: storable_rule_def cr whole_def)
qed

lemma decompileRule_compiles:
  assumes ok: "config_ok config" and c: "compileRule config es r = Inr cr"
  shows "\<exists>r'. decompileRule config es n (k, cr) = Inr r' \<and> compileRule config es r' = Inr cr"
proof -
  obtain s v cs where s: "findOutputState config (sr_stateId r) = Inr s" "stateValue config s = Inr v"
    and cs: "map_r (compileCondition es) (sr_conditions r) = Inr cs" and cr: "cr = \<lparr>cr_value = Fin (of_int v), cr_conditions = cs\<rparr>"
    using c by (auto simp: compileRule_def bind_r_Inr)
  obtain t where t: "findStateByValue config (Fin (of_int v)) = Inr t" "findOutputState config (os_id t) = Inr t" "stateValue config t = Inr v"
    using findStateByValue_finds [OF ok _ s(2)] findOutputState_Inr [OF s(1)] by blast
  obtain zs where zs: "map_r (\<lambda>(j, c). decompileCondition es (id_text ''compiled-condition-'' n [k, j]) c) (enumerate 0 cs) = Inr zs"
    "map_r (compileCondition es) zs = Inr cs"
    using map_r_reversed [OF cs, of "\<lambda>(j, c). decompileCondition es (id_text ''compiled-condition-'' n [k, j]) c" 0]
      decompileCondition_compiles [of es] by auto
  show ?thesis by (simp add: decompileRule_def compileRule_def cr t zs)
qed

lemma compileSignal_Inr:
  assumes "compileSignal es g = Inr s"
  obtains e config d v rules where "find_signal es (sg_signalId g) = Some e" "signalConfig e = Inr config"
    "findOutputState config (sg_defaultStateId g) = Inr d" "stateValue config d = Inr v"
    "map_r (compileRule config es) (sg_rules g) = Inr rules" "1 \<le> sg_signalId g" "sg_signalId g \<le> 65535"
    "s = \<lparr>cs_id = sg_signalId g, cs_mode = (if oc_protocol config = DccExt then Extended else Basic),
          cs_outputs = (if oc_protocol config = DccExt then None else Some (Fin (of_int (output_count config)))),
          cs_default = Fin (of_int v), cs_rules = rules\<rparr>"
proof -
  obtain e config d v rules where f: "find_signal es (sg_signalId g) = Some e"
    and r: "1 \<le> sg_signalId g" "sg_signalId g \<le> 65535" "signalConfig e = Inr config"
      "findOutputState config (sg_defaultStateId g) = Inr d" "stateValue config d = Inr v" "map_r (compileRule config es) (sg_rules g) = Inr rules"
    and s: "s = \<lparr>cs_id = sg_signalId g, cs_mode = (if oc_protocol config = DccExt then Extended else Basic),
          cs_outputs = (if oc_protocol config = DccExt then None else Some (Fin (of_int (output_count config)))),
          cs_default = Fin (of_int v), cs_rules = rules\<rparr>"
    using assms unfolding compileSignal_def Let_def bind_r_Inr require_found by (auto simp: bind_r_Inr)
  show ?thesis by (rule that [OF f r(3-6) r(1,2) s])
qed

lemma compileSignal_storable: "compileSignal es g = Inr s \<Longrightarrow> storable_signal s"
proof (erule compileSignal_Inr)
  fix e config d v rules
  assume r: "map_r (compileRule config es) (sg_rules g) = Inr rules" and i: "1 \<le> sg_signalId g" "sg_signalId g \<le> 65535"
    and s: "s = \<lparr>cs_id = sg_signalId g, cs_mode = (if oc_protocol config = DccExt then Extended else Basic),
          cs_outputs = (if oc_protocol config = DccExt then None else Some (Fin (of_int (output_count config)))),
          cs_default = Fin (of_int v), cs_rules = rules\<rparr>"
  have "list_all storable_rule rules" by (rule map_r_all [OF r compileRule_Inr])
  moreover have "1 \<le> output_count config" "output_count config \<le> 16" by (auto simp: output_count_def)
  ultimately show "storable_signal s" using i by (auto simp: storable_signal_def s whole_def)
qed

lemma decompileSignal_compiles:
  assumes ok: "list_all element_ok es" and c: "compileSignal es g = Inr s"
  shows "\<exists>g'. decompileSignal es (k, s) = Inr g' \<and> compileSignal es g' = Inr s"
  using c
proof (rule compileSignal_Inr)
  fix e config d v rules
  assume e: "find_signal es (sg_signalId g) = Some e" and conf: "signalConfig e = Inr config"
    and d: "findOutputState config (sg_defaultStateId g) = Inr d" "stateValue config d = Inr v"
    and r: "map_r (compileRule config es) (sg_rules g) = Inr rules" and i: "1 \<le> sg_signalId g" "sg_signalId g \<le> 65535"
    and s: "s = \<lparr>cs_id = sg_signalId g, cs_mode = (if oc_protocol config = DccExt then Extended else Basic),
          cs_outputs = (if oc_protocol config = DccExt then None else Some (Fin (of_int (output_count config)))),
          cs_default = Fin (of_int v), cs_rules = rules\<rparr>"
  have "element_ok e" using ok e find_SomeD by (fastforce simp: find_signal_def list_all_iff)
  moreover have "re_signalOutput e = Some config" using conf by (auto simp: signalConfig_def Let_def split: option.splits if_splits)
  ultimately have co: "config_ok config" by (simp add: element_ok_def)
  obtain t where t: "findStateByValue config (Fin (of_int v)) = Inr t" "findOutputState config (os_id t) = Inr t" "stateValue config t = Inr v"
    using findStateByValue_finds [OF co _ d(2)] findOutputState_Inr [OF d(1)] by blast
  obtain zs where zs: "map_r (decompileRule config es (sg_signalId g)) (enumerate 0 rules) = Inr zs" "map_r (compileRule config es) zs = Inr rules"
    using map_r_reversed [OF r, of "decompileRule config es (sg_signalId g)" 0] decompileRule_compiles [OF co] by blast
  have q: "requireLayoutId (Some e) l = Inr (sg_signalId g)" for l
    using require_found(3) [of es "sg_signalId g" l] e i by simp
  show ?thesis by (simp add: decompileSignal_def compileSignal_def s e conf t zs Let_def q)
qed

lemma decompile_compiles:
  assumes ok: "list_all element_ok (all_rule_elements l)" and c: "compileDocument d l = Inr c"
  shows "\<exists>d'. decompileDocument c l = Inr d' \<and> compileDocument d' l = Inr c \<and> sd_enabled d' = sd_enabled d"
    and "list_all storable_signal (cd_signals c)"
proof -
  obtain ss where ss: "map_r (compileSignal (all_rule_elements l)) (sd_groups d) = Inr ss" and c': "c = \<lparr>cd_enabled = sd_enabled d, cd_signals = ss\<rparr>"
    using c by (auto simp: compileDocument_def bind_r_Inr)
  show "list_all storable_signal (cd_signals c)"
    using map_r_all [OF ss compileSignal_storable] by (simp add: c')
  obtain gs where "map_r (decompileSignal (all_rule_elements l)) (enumerate 0 ss) = Inr gs" "map_r (compileSignal (all_rule_elements l)) gs = Inr ss"
    using map_r_reversed [OF ss, of "decompileSignal (all_rule_elements l)" 0] decompileSignal_compiles [OF ok] by blast
  then show "\<exists>d'. decompileDocument c l = Inr d' \<and> compileDocument d' l = Inr c \<and> sd_enabled d' = sd_enabled d"
    by (auto simp: decompileDocument_def compileDocument_def c' bind_r_Inr)
qed

subsection \<open>Output values\<close>

lemma bit_value_bits:
  "j < 32 \<Longrightarrow> k + n \<le> 32 \<Longrightarrow> bit (value_bits ds k n r) j \<longleftrightarrow> bit r j \<or> (k \<le> j \<and> j < k + n \<and> nth_opt ds j = Some DirG)"
proof (induction n arbitrary: k r)
  case (Suc n)
  have b: "bit (push_bit (k mod 32) (1 :: 32 word)) j \<longleftrightarrow> j = k"
    using Suc.prems by (auto simp: bit_exp_iff)
  have "bit (value_bits ds k (Suc n) r) j \<longleftrightarrow>
      (bit r j \<or> nth_opt ds k = Some DirG \<and> j = k) \<or> (Suc k \<le> j \<and> j < Suc k + n \<and> nth_opt ds j = Some DirG)"
    using Suc.IH [of "Suc k"] Suc.prems b by (auto simp: bit_or_iff)
  also have "\<dots> \<longleftrightarrow> bit r j \<or> (k \<le> j \<and> j < k + Suc n \<and> nth_opt ds j = Some DirG)"
    by (cases "j = k") auto
  finally show ?case .
qed auto

lemma small_word:
  assumes "take_bit n w = w" and "n \<le> 31"
  shows "sint (w :: 32 word) = uint w" and "uint w < 2 ^ n"
proof -
  have u: "uint w = take_bit n (uint w)" using assms(1) by (metis unsigned_take_bit_eq)
  then show l: "uint w < 2 ^ n" by (metis take_bit_int_less_exp)
  have "(2 :: int) ^ n \<le> 2 ^ 31" using assms(2) by (intro power_increasing) auto
  then have hi: "uint w < 2 ^ 31" using l by linarith
  have "- (2 ^ 31) \<le> uint w" using uint_ge_0 [of w] by (rule order_trans [rotated]) simp
  then have "signed_take_bit 31 (uint w) = uint w" using hi by (rule signed_take_bit_int_eq_self)
  then show "sint w = uint w" by (simp add: sint_uint)
qed

lemma value_bits_small: "n \<le> 32 \<Longrightarrow> take_bit n (value_bits ds 0 n 0) = value_bits ds 0 n 0"
  by (rule bit_word_eqI) (auto simp: bit_take_bit_iff bit_value_bits)

lemma value_bits_eq:
  assumes "n \<le> 31"
  shows "sint (value_bits ds 0 n 0) = sint (value_bits es 0 n 0) \<longleftrightarrow> list_all (\<lambda>j. nth_opt ds j = Some DirG \<longleftrightarrow> nth_opt es j = Some DirG) [0..<n]"
proof -
  have "value_bits ds 0 n 0 = value_bits es 0 n 0 \<longleftrightarrow> (\<forall>j<n. nth_opt ds j = Some DirG \<longleftrightarrow> nth_opt es j = Some DirG)"
  proof
    assume e: "value_bits ds 0 n 0 = value_bits es 0 n 0"
    show "\<forall>j<n. nth_opt ds j = Some DirG \<longleftrightarrow> nth_opt es j = Some DirG"
    proof (intro allI impI)
      fix j assume j: "j < n"
      then show "nth_opt ds j = Some DirG \<longleftrightarrow> nth_opt es j = Some DirG"
        using bit_value_bits [of j 0 n ds 0] bit_value_bits [of j 0 n es 0] assms e by simp
    qed
  next
    assume a: "\<forall>j<n. nth_opt ds j = Some DirG \<longleftrightarrow> nth_opt es j = Some DirG"
    show "value_bits ds 0 n 0 = value_bits es 0 n 0"
      by (rule bit_word_eqI) (use a assms in \<open>auto simp: bit_value_bits\<close>)
  qed
  moreover have "sint (value_bits ds 0 n 0) = sint (value_bits es 0 n 0) \<longleftrightarrow> value_bits ds 0 n 0 = value_bits es 0 n 0"
    by (auto intro: signed_word_eqI)
  ultimately show ?thesis by (simp add: list_all_iff Ball_def)
qed

subsection \<open>Rows with addresses\<close>

text \<open>The physical state of sensors, accessory outputs and virtual pins, by kind and address. A turnout is closed on a channel
  when its output has the value configured as closed.\<close>

type_synonym physical = "legacy_source \<Rightarrow> int \<Rightarrow> bool"

definition legacy_holds :: "physical \<Rightarrow> legacy_condition \<Rightarrow> bool" where
  "legacy_holds phys c = (case c of (source, address, raw) \<Rightarrow> phys source address = (raw \<noteq> 0))"

definition turnout_output :: "rule_element \<Rightarrow> legacy_source" where
  "turnout_output e = (if or_default (re_outputMode e) ''accessory'' = ''vpin'' then LegacyVpin else LegacyTurnout)"

definition turnout_closed :: "physical \<Rightarrow> rule_element \<Rightarrow> int \<Rightarrow> bool" where
  "turnout_closed phys e channel =
     (phys (turnout_output e) (turnoutAddressForChannel e channel) = turnoutClosedValueForChannel e channel)"

definition compiled_holds :: "physical \<Rightarrow> rule_element list \<Rightarrow> compiled_condition \<Rightarrow> bool" where
  "compiled_holds phys elements c =
     (case c of (source, n, channel, v) \<Rightarrow>
        if source = FromSensor
        then (case find_sensor elements n of
                Some e \<Rightarrow> phys LegacySensor (or_default (re_address e) 0) = (v \<noteq> 0) | None \<Rightarrow> False)
        else (case find_turnout elements n of Some e \<Rightarrow> turnout_closed phys e channel = (v \<noteq> 0) | None \<Rightarrow> False))"

lemma find_unique_id:
  assumes "distinct (map re_id elements)" and "e \<in> set elements" and "re_id e = Some n" and "p e"
  shows "find (\<lambda>x. re_id x = Some n \<and> p x) elements = Some e"
  by (rule find_eq_unique) (use assms in \<open>auto simp: distinct_map inj_on_def\<close>)

lemma turnout_matches_in:
  "(e, ch) \<in> set (turnout_matches vpin a elements) \<Longrightarrow>
     e \<in> set elements \<and> isTurnout e \<and> (turnout_output e = LegacyVpin \<longleftrightarrow> vpin) \<and> turnoutAddressForChannel e ch = a \<and> ch \<in> {0, 1}"
  by (auto simp: turnout_matches_def turnout_output_def split: if_splits)

lemma hd_in: "length xs = 1 \<Longrightarrow> hd xs \<in> set xs"
  by (cases xs) auto

lemma migrated_condition_holds:
  assumes d: "distinct (map re_id elements)" and m: "migrateLegacyCompiledCondition elements c = Inr cc"
  shows "compiled_holds phys elements cc \<longleftrightarrow> legacy_holds phys c"
proof -
  obtain source a raw where c: "c = (source, a, raw)" by (cases c)
  show ?thesis
  proof (cases "source = LegacySensor")
    case True
    let ?m = "filter (\<lambda>e. isSensor e \<and> re_address e = Some a) elements"
    obtain n where l: "length ?m = 1" and n: "requireLayoutId (Some (hd ?m)) (''Sensor #'' @ show_int a) = Inr n" and cc: "cc = (FromSensor, n, 0, raw)"
      using m True by (auto simp: c migrateLegacyCompiledCondition_def Let_def bind_r_Inr split: if_splits)
    have e: "hd ?m \<in> set elements" "isSensor (hd ?m)" "re_address (hd ?m) = Some a" using hd_in [OF l] by auto
    have "re_id (hd ?m) = Some n" using n by (auto simp: requireLayoutId_Inr)
    then have "find_sensor elements n = Some (hd ?m)" unfolding find_sensor_def using e d by (intro find_unique_id) auto
    then show ?thesis using e by (simp add: compiled_holds_def legacy_holds_def c cc True or_default_def)
  next
    case False
    let ?m = "turnout_matches (source = LegacyVpin) a elements"
    obtain e ch where h: "hd ?m = (e, ch)" by (cases "hd ?m")
    obtain n where l: "length ?m = 1" and n: "requireLayoutId (Some e) (''Turnout #'' @ show_int a) = Inr n"
      and cc: "cc = (FromTurnout, n, ch, if (raw \<noteq> 0) = turnoutClosedValueForChannel e ch then 1 else 0)"
      using m False h by (auto simp: c migrateLegacyCompiledCondition_def Let_def bind_r_Inr split: if_splits)
    have e: "e \<in> set elements" "isTurnout e" "turnout_output e = LegacyVpin \<longleftrightarrow> source = LegacyVpin" "turnoutAddressForChannel e ch = a"
      using hd_in [OF l] turnout_matches_in [of e ch] by (auto simp: h)
    have src: "turnout_output e = source" using e(3) False by (cases source) (auto simp: turnout_output_def split: if_splits)
    have "re_id e = Some n" using n by (auto simp: requireLayoutId_Inr)
    then have "find_turnout elements n = Some e" unfolding find_turnout_def using e d by (intro find_unique_id) auto
    then show ?thesis using e(4) src by (auto simp: compiled_holds_def legacy_holds_def c cc turnout_closed_def)
  qed
qed

subsection \<open>Properties\<close>

definition sample_config :: output_config where
  "sample_config = \<lparr>oc_protocol = Dcc, oc_address = 20, oc_outputCount = 2, oc_lampCount = 2, oc_displayAsSingleLamp = False,
     oc_states = [\<lparr>os_id = ''stop'', os_label = ''Red'', os_aspect = 0, os_lamps = [], os_dccOutputs = [DirG, DirR]\<rparr>,
                  \<lparr>os_id = ''go'', os_label = ''Green'', os_aspect = 1, os_lamps = [], os_dccOutputs = [DirR, DirG]\<rparr>]\<rparr>"

definition empty_element :: rule_element where
  "empty_element = \<lparr>re_id = None, re_type = None, re_address = None, re_turnoutAddress = None, re_turnout1Address = None, re_turnout2Address = None,
     re_turnoutClosedValue = None, re_turnout1ClosedValue = None, re_turnout2ClosedValue = None, re_outputMode = None, re_signalOutput = None\<rparr>"

definition sample_elements :: "rule_element list" where
  "sample_elements =
     [empty_element\<lparr>re_id := Some 7, re_type := Some ''tracksignal2'', re_signalOutput := Some sample_config\<rparr>,
      empty_element\<lparr>re_id := Some 3, re_type := Some ''trackturnoutleft'', re_turnoutAddress := Some 5, re_turnoutClosedValue := Some True\<rparr>]"

definition sample_rules :: signal_document where
  "sample_rules = \<lparr>sd_version = 3, sd_enabled = True,
     sd_groups = [\<lparr>sg_id = ''g'', sg_signalId = 7, sg_signalAddress = None, sg_defaultStateId = ''stop'', sg_defaultAspect = None,
       sg_rules = [\<lparr>sr_id = ''r'', sr_conditions = [TurnoutCondition ''c'' 3 (Some 0) None True], sr_stateId = ''go'', sr_aspect = None\<rparr>]\<rparr>]\<rparr>"

definition ok_response :: "string \<Rightarrow> http_response" where
  "ok_response body = \<lparr>hr_status = 200, hr_ok = True, hr_text = body\<rparr>"

lemmas sample_rule_defs = sample_config_def empty_element_def sample_elements_def sample_rules_def ok_response_def

text \<open>C15. Rules that were saved are loaded: when the server returns the text that saving posted and the layout is the same, with states that
  have values and ids of their own, loading succeeds, writes nothing, has the same enabled flag and runtime state, and gives a document that
  compiles to exactly the stored signals, so the same outputs under the same conditions.\<close>

theorem saved_rules_reload:
  assumes "list_all element_ok (all_rule_elements l)"
    and "saveSignalLogicRulesWs d (Inr l) post = Inr (saved, body)"
  shows "\<exists>r. loadSignalLogicRulesWs (ok_response body) (Inr l) post' = Inr r \<and>
    compileDocument (lo_document r) l = compileDocument d l \<and> lo_state r = lo_state saved \<and> \<not> lo_created r"
proof -
  obtain c where c: "compileDocument d l = Inr c" and b: "body = serializeCompiled c"
    and s: "lo_state saved = \<lparr>rt_running = sd_enabled d, rt_enabled = sd_enabled d\<rparr>"
    using assms(2) by (auto simp: saveSignalLogicRulesWs_def bind_r_Inr writeCompiled_def Let_def split: if_splits)
  note st = decompile_compiles(2) [OF assms(1) c] and dc = decompile_compiles(1) [OF assms(1) c]
  obtain d' where d': "decompileDocument c l = Inr d'" "compileDocument d' l = Inr c" "sd_enabled d' = sd_enabled d" using dc by blast
  have "map_r (\<lambda>s. case s of Inl x \<Rightarrow> Inr x | Inr x \<Rightarrow> Inl ''Signal ID undefined does not exist in the current layout.'')
      (map Inl (cd_signals c) :: (compiled_signal + legacy_signal) list) = Inr (map id (cd_signals c))"
    by (rule map_r_stored) simp
  then have m: "migrateLegacyCompiled \<lparr>pd_version = 2, pd_enabled = cd_enabled c, pd_signals = map Inl (cd_signals c)\<rparr> l = Inr c"
    by (simp add: migrateLegacyCompiled_def)
  have p: "readCompiledRaw (ok_response body) = Inr (Some \<lparr>pd_version = 2, pd_enabled = cd_enabled c, pd_signals = map Inl (cd_signals c)\<rparr>)"
    using parse_serialized [OF st] by (simp add: readCompiledRaw_def ok_response_def b)
  show ?thesis by (simp add: loadSignalLogicRulesWs_def p m d' c s)
qed

theorem saved_rules_reload_witness:
  "\<exists>body r. saveSignalLogicRulesWs sample_rules (Inr (Some [Some sample_elements])) ok_response = Inr (r, body) \<and>
     (\<exists>r'. loadSignalLogicRulesWs (ok_response body) (Inr (Some [Some sample_elements])) ok_response = Inr r' \<and>
       compileDocument (lo_document r') (Some [Some sample_elements]) = compileDocument sample_rules (Some [Some sample_elements]))"
proof -
  let ?l = "Some [Some sample_elements]"
  have v: "nat (2 :: int) = Suc (Suc 0)" by simp
  have ok: "list_all element_ok (all_rule_elements ?l)"
    by (simp add: all_rule_elements_def or_default_def element_ok_def config_ok_def stateValue_def output_count_def sample_rule_defs)
  have "\<exists>c. compileDocument sample_rules ?l = Inr c"
    by (simp add: compileDocument_def compileSignal_def compileRule_def compile_turnout compileCondition_def requireLayoutId_def find_signal_def find_turnout_def
        isSignal_def isTurnout_def signalConfig_def findOutputState_def stateValue_def output_count_def all_rule_elements_def or_default_def Let_def
        sample_rule_defs)
  then obtain r body where s: "saveSignalLogicRulesWs sample_rules (Inr ?l) ok_response = Inr (r, body)"
    by (auto simp: saveSignalLogicRulesWs_def writeCompiled_def ok_response_def Let_def)
  from saved_rules_reload [OF ok s, of ok_response] s show ?thesis by blast
qed

text \<open>The value of a state of a signal with basic outputs is a number of as many bits as it has outputs, and two states have the same
  value exactly when they set the same outputs to G; so a state is found by its value up to its outputs.\<close>

theorem basic_values_separate:
  assumes "oc_protocol config = Dcc"
  shows "\<exists>v w. stateValue config s = Inr v \<and> stateValue config t = Inr w \<and> 0 \<le> v \<and> v < 2 ^ nat (output_count config) \<and>
    (v = w \<longleftrightarrow> list_all (\<lambda>j. nth_opt (os_dccOutputs s) j = Some DirG \<longleftrightarrow> nth_opt (os_dccOutputs t) j = Some DirG) [0..<nat (output_count config)])"
proof -
  let ?n = "nat (output_count config)"
  have n: "?n \<le> 31" by (simp add: output_count_def)
  have small: "sint (value_bits ds 0 ?n 0) = uint (value_bits ds 0 ?n 0)" "uint (value_bits ds 0 ?n 0) < 2 ^ ?n" for ds
    using small_word [OF value_bits_small n] n by auto
  show ?thesis
    using value_bits_eq [OF n, of "os_dccOutputs s" "os_dccOutputs t"] small [of "os_dccOutputs s"]
    by (simp add: stateValue_def assms)
qed

theorem basic_values_separate_witness:
  "\<exists>v w. stateValue sample_config (oc_states sample_config ! 0) = Inr v \<and> stateValue sample_config (oc_states sample_config ! 1) = Inr w \<and> v \<noteq> w"
proof -
  have c: "oc_protocol sample_config = Dcc" by (simp add: sample_config_def)
  from basic_values_separate [OF c, of "oc_states sample_config ! 0" "oc_states sample_config ! 1"] show ?thesis
    by (auto simp: sample_config_def output_count_def nth_opt_def upt_rec)
qed

text \<open>C16. Migrating a condition of the older format, which names an output by its address, gives a condition on an element that holds in exactly the
  same physical states, when element ids are unique: for turnouts, closed is translated through the value configured as closed.\<close>

theorem migrated_conditions_agree:
  assumes "distinct (map re_id elements)" and "migrateLegacyCompiledCondition elements c = Inr cc"
  shows "compiled_holds phys elements cc = legacy_holds phys c"
  using migrated_condition_holds [OF assms] .

theorem migrated_conditions_agree_witness:
  "migrateLegacyCompiledCondition sample_elements (LegacyTurnout, 5, 0) = Inr (FromTurnout, 3, 0, 0) \<and>
   compiled_holds (\<lambda>s a. False) sample_elements (FromTurnout, 3, 0, 0) = legacy_holds (\<lambda>s a. False) (LegacyTurnout, 5, 0)"
proof -
  have d: "distinct (map re_id sample_elements)" by (simp add: sample_rule_defs)
  have m: "migrateLegacyCompiledCondition sample_elements (LegacyTurnout, 5, 0) = Inr (FromTurnout, 3, 0, 0)"
    by (simp add: migrateLegacyCompiledCondition_def turnout_matches_def isTurnout_def turnoutAddressForChannel_def turnoutClosedValueForChannel_def
        requireLayoutId_def or_default_def Let_def sample_rule_defs)
  from migrated_conditions_agree [OF d m] m show ?thesis by blast
qed

end
