(* ===== verification/Spec2Isabelle.thy ===== *)
theory Spec2Isabelle
  imports RouteSearch IdMigration SignalElement LayoutModel RouteExecution RouteGraphStore Requests DemoAnswers FastClock AppSettings EditorDrag CanvasView SerialConsole ViewJson Throttle LevelCrossing SignalStore WsInvariant
begin

text \<open>
  DCCExpressLite is a model railway controller: a command station (C++ firmware on an ESP32, a DCC-EX derivative) and a web
  client in TypeScript that draws the track layout, edits it, and runs it. The command station keeps the layout, the signal rules and
  the roster as files and talks to its clients over HTTP and one WebSocket. This development models the web client,
  \<open>web-ui/src\<close>: its data model, the logic it runs on it, and its protocols. Paths below are relative to it.

  \<^bold>\<open>Conventions.\<close> A class is a record, a subclass a record that extends it, a method a function from the object to the object
  and its result; a thrown error is \<open>Inl\<close>. What changes shared objects works on an explicit state in which objects are found by
  their identity (\<open>it_ref\<close>, \<open>gn_ref\<close>, \<open>vw_ref\<close>) or their index. Asynchronous code is cut at its \<open>await\<close>s: each continuation, timer,
  answer and browser event is an event of a step function or step relation, so a theorem about all event sequences is about all
  interleavings. Numbers that the sources use as ids, addresses and grid coordinates are integers, those of unknown input and of the
  screen exact rationals with the non-finite ones apart; bit operations are on 32-bit words, and identifiers that wrap say so. Strings
  are lists of Latin-1 code units. Random values, the clock and what the browser, the server or a user does are arguments.

  \<^bold>\<open>The library.\<close>
  \<open>Prelude\<close>, \<open>JsText\<close>, \<open>JsValue\<close>, \<open>JsonText\<close>, \<open>JsPrint\<close> are the part of the language that the sources use: searching, maps in insertion
  order, text operations, unknown values with their conversions, \<open>JSON.parse\<close> and \<open>JSON.stringify\<close> (the reader inverts the writer),
  printing. They hold the collections of rewrite rules of the component proofs. \<open>Search\<close> is the worklist loop of the route search over a
  locale; \<open>IdSupply\<close> the contract of whoever hands out element ids, interpreted on both allocators; \<open>ElementJson\<close> has the locale
  of saved forms, interpreted on all element classes.

  \<^bold>\<open>The data model\<close> (\<open>domain/layout\<close>, \<open>domain/helpers.ts\<close>, \<open>domain/Rect.ts\<close>).
  \<open>Geometry\<close>: the eight directions, points, rectangles. \<open>Elements\<close>: the element classes with their neighbours, bounds and turnout
  routes; \<open>ElementJson\<close>: their saving and loading. \<open>SignalOutput\<close>, \<open>SignalElement\<close>: signals, their outputs and states, feedback, and the
  conversion of old signals. \<open>LayoutModel\<close>: layers, elements, ids. \<open>IdMigration\<close>: converting saved layouts
  with text or duplicate ids. Shown: repeated saving is stable; the index of a signal stays valid and feedback selects the first state that
  fits; ids of the elements in the five standard layers stay valid and unique under every operation (an added layer is not checked against and
  can repeat one); the migration fails exactly when the ids run out, keeps first valid ids,
  rewrites references and is idempotent.

  \<^bold>\<open>Logic\<close> (\<open>domain/railway/graph.ts\<close>, \<open>domain/levelCrossingLogic.ts\<close>, \<open>domain/signalLogic.ts\<close>, \<open>api/signalLogicWsApi.ts\<close>).
  \<open>RouteGraph\<close>, \<open>RouteSearch\<close>: the breadth-first search for routes with turnout and direction requirements; it returns on every graph,
  what it returns is a route, and it finds a shortest one when there is one. \<open>LevelCrossing\<close>: decisions are explained by their
  reasons and fail safe on unknown inputs. \<open>SignalLogic\<close>: rules are read from any JSON into a normal form; migration resolves
  each old reference to what it stands for, reports what it cannot resolve, and settles in one pass; validation accepts exactly sound documents. \<open>SignalCompile\<close>, \<open>SignalStore\<close>: the compiled rows the command station
  stores; saved rules are read back as a document that compiles to the same rows (a refinement), and migrated rows hold in the same states.

  \<^bold>\<open>The layout page\<close> (\<open>models/editor/core/LayoutView.ts\<close>, \<open>components/track-canvas\<close>, \<open>services/routeButtonExecutor.ts\<close>,
  \<open>LiteLayoutPage.tsx\<close>).
  \<open>LayoutViews\<close>, \<open>RouteMarking\<close>: following the track and marking the routes that are set. \<open>RouteExecution\<close>: what clicks send and how
  reports of the server change the layout. \<open>TrackEditor\<close>, \<open>EditorDrag\<close>, \<open>CanvasView\<close>: editing with mouse and keys; a drag moves the
  selection as one body by the way of the mouse unless the first element in the way is not selected (which keeps elements apart on layers with a
  single selected element or one-cell elements, not in general), drawing and selecting do what the screen shows, fitting shows the whole layout, and
  the delayed saving of the view loses nothing. \<open>ViewJson\<close> (\<open>core/ElementFactory.ts\<close>, the classes in \<open>models/editor/elements\<close>): each view
  class as a table of what it reads and writes; what is loaded from JSON text is saved, through the text, in a form that no further
  loading changes, but for a pulse duration that is no number, which settles one saving later.

  \<^bold>\<open>Driving\<close> (\<open>context/GamepadContext.tsx\<close>, \<open>context/CommandCenterContext.tsx\<close>, \<open>layout/LocoPanel.tsx\<close>,
  \<open>layout/loco-panel\<close>). \<open>Gamepad\<close>: which controller drives and what its buttons do; only the chosen controller acts, and only when a
  button goes down. \<open>Throttle\<close>: what is known of the command station and the locomotive panel; nothing is sent to trains while the station
  is not known to be alive, a speed above the greatest one is sent only when a report said the locomotive has it, and the stop button stops.

  \<^bold>\<open>Protocols and services\<close> (\<open>services\<close>, \<open>api\<close>, \<open>demo\<close>, \<open>domain/appSettings.ts\<close>, \<open>domain/runtimeVariables.ts\<close>).
  \<open>WsClient\<close>, \<open>WsInvariant\<close>: the WebSocket connection with heartbeat and reconnection; an invariant of all reachable states, recovery, and
  silence after a disconnect. \<open>Commands\<close>: the messages. \<open>Requests\<close>: requests over the connection; listeners and responses match but for a status
  listener that a request rejected while it subscribes leaves behind, every request settles. \<open>RouteGraphStore\<close>: the graph of the server and its cache. \<open>FastClock\<close>: the model time between snapshots.
  \<open>AppSettings\<close>: settings and runtime variables from unknown input. \<open>SerialConsole\<close>: the serial port, its read loop and its lines.
  \<open>DemoServer\<close>, \<open>DemoClient\<close>, \<open>DemoAnswers\<close>: the server that the demo plays in the browser; client and demo refine client and browser,
  so that what is proved of the connection holds in the demo, and a click on a turnout comes back as its report.

  \<^bold>\<open>How the parts meet.\<close> The page draws and edits a \<open>LayoutView\<close>, whose elements extend the data model; saving goes through
  \<open>ViewJson\<close> and loading through \<open>IdMigration\<close>. Clicks and the panel's handlers become \<open>Commands\<close> that \<open>WsClient\<close> sends; its reports change the view
  (\<open>RouteExecution\<close>), after which routes are marked again (\<open>LayoutViews\<close>). Rules are edited as \<open>SignalLogic\<close> documents and stored by
  \<open>SignalCompile\<close> through requests. \<open>demo_click\<close> follows one click over client, demo server, report and view.

  \<^bold>\<open>Bounds and fuel.\<close> Id allocation tries 65535 times, which finds a free id whenever there is one (\<open>scan_finds\<close>, \<open>IdSupply\<close>). The JSON
  reader has the length of the text as fuel; each nested value takes a character. The route search is a \<open>while_option\<close>, whose
  \<open>None\<close> would be a loop that never ends; it is shown never to be. Following the track ends because every call marks an element (its
  \<open>termination\<close> proof). Printing a number without finite decimal expansion stops after 400 decimals; no such number comes out of a text.

  \<^bold>\<open>Not modelled.\<close> The firmware (\<open>CommandStation-EX\<close>, C++), the installer, site and tools: other languages. Rendering: the React
  components, pages and dialogs, the drawing methods of the element views, the property panels, i18n: they call
  the parts above and otherwise build markup or draw on a canvas; among them the checks that \<open>DeviceConfigurationPage.tsx\<close> makes of its
  form (addresses and pin ranges in use) and the export and import of backups in \<open>App.tsx\<close>; of \<open>TrackCanvas.tsx\<close> also the touch handlers, whose pinching needs a
  square root. Floating point: rotated corners and distances. Thin wrappers around fetch (\<open>layoutWsApi\<close>, \<open>imageApi\<close>, \<open>locosWsApi\<close>) and
  around browser services (audio, status indicators, the file viewer). \<open>domain/railway/topology.ts\<close> has no caller, only its types are imported.
  Message and document types without code (\<open>wsTypes\<close>, \<open>clientWsCommands\<close>, \<open>domainTypes\<close>) appear as the records and constructors of the
  parts that use them. Listeners of stores are numbers and do not call back into the store that calls them.
\<close>

end
